(* ===== verification/NavPrelude.thy ===== *)
theory NavPrelude
  imports
    Complex_Main
    "HOL-Library.Word"
    "HOL-Library.Signed_Division"
    "HOL-Library.Monad_Syntax"
    "HOL-Library.State_Monad"
begin

text \<open>
  What every component theory shares: the names of the machine types, the C arithmetic that
  differs from Isabelle's (truncating division, conversion of a floating point number to an
  integer, \<open>fmod\<close>), the collections of simplification rules, and small lemmas on lists.

  A C \<open>double\<close> is modelled by a real number: every product of an integer field of a
  message with a power of two is exact in IEEE arithmetic too, the other products (decimal
  scale factors, semicircles to radians) are idealised to exact arithmetic.  A C \<open>int\<close>
  is an Isabelle \<open>int\<close>; the 32-bit and 8-bit unsigned values on which wrap-around and
  bit operations matter are words.
\<close>

unbundle bit_operations_syntax

section \<open>Types\<close>

type_synonym u8 = "8 word"
type_synonym u16 = "16 word"
type_synonym u32 = "32 word"
type_synonym double = real

section \<open>Rule collections\<close>

named_theorems bitfield \<open>reading a bit field back from a written buffer\<close>
named_theorems runs \<open>running the field readers and writers\<close>
named_theorems sizes \<open>array sizes, kept by every operation\<close>
named_theorems wf_intros \<open>operations that keep the well-formedness of the control struct\<close>

section \<open>C arithmetic\<close>

text \<open>Conversion of a \<open>double\<close> to an integer type: towards zero.\<close>

definition trunc :: "double \<Rightarrow> int" where
  "trunc x = (if x < 0 then \<lceil>x\<rceil> else \<lfloor>x\<rfloor>)"

text \<open>The library function \<open>fmod\<close>: the remainder has the sign of the dividend.\<close>

definition fmod :: "double \<Rightarrow> double \<Rightarrow> double" where
  "fmod x y = x - y * of_int (trunc (x / y))"

text \<open>The macro \<open>ROUND(x)\<close> of \<^verbatim>\<open>rtcm3e.c\<close>.\<close>

definition ROUND :: "double \<Rightarrow> int" where
  "ROUND x = \<lfloor>x + 1/2\<rfloor>"

lemma trunc_of_int [simp]: "trunc (of_int k) = k"
  by (simp add: trunc_def)

lemma trunc_numeral [simp]: "trunc (numeral k) = numeral k"
  by (simp add: trunc_def)

lemma trunc_0 [simp]: "trunc 0 = 0" and trunc_1 [simp]: "trunc 1 = 1"
  by (simp_all add: trunc_def)

lemma trunc_nonneg: "0 \<le> x \<Longrightarrow> trunc x = \<lfloor>x\<rfloor>"
  by (simp add: trunc_def)

lemma trunc_abs_le: "\<bar>of_int (trunc x)\<bar> \<le> \<bar>x\<bar>"
proof (cases "x < 0")
  case True
  then have "\<lceil>x\<rceil> \<le> 0" by (simp add: ceiling_le_zero)
  moreover have "x \<le> of_int \<lceil>x\<rceil>" by (rule le_of_int_ceiling)
  ultimately show ?thesis using True by (simp add: trunc_def)
next
  case False
  then show ?thesis by (simp add: trunc_def)
qed

lemma trunc_frac_bound: "\<bar>x - of_int (trunc x)\<bar> < 1"
proof (cases "x < 0")
  case True
  then show ?thesis unfolding trunc_def using ceiling_correct [of x] by simp
next
  case False
  then show ?thesis unfolding trunc_def using floor_correct [of x] by simp linarith
qed

lemma fmod_nonneg_eq: "0 \<le> x \<Longrightarrow> 0 < y \<Longrightarrow> fmod x y = x - y * of_int \<lfloor>x / y\<rfloor>"
  by (simp add: fmod_def trunc_nonneg)

lemma fmod_bounds:
  assumes "0 \<le> x" and "0 < y"
  shows "0 \<le> fmod x y \<and> fmod x y < y"
proof -
  have f: "of_int \<lfloor>x / y\<rfloor> \<le> x / y" "x / y < of_int \<lfloor>x / y\<rfloor> + 1"
    by linarith+
  have "y * of_int \<lfloor>x / y\<rfloor> \<le> x"
    using mult_left_mono [OF f(1), of y] assms(2) by simp
  moreover have "x < y * (of_int \<lfloor>x / y\<rfloor> + 1)"
    using mult_strict_left_mono [OF f(2) assms(2)] assms(2) by simp
  ultimately show ?thesis using assms by (simp add: fmod_nonneg_eq algebra_simps)
qed

lemma ROUND_of_int [simp]: "ROUND (of_int k) = k"
  unfolding ROUND_def by linarith

lemma ROUND_error: "\<bar>of_int (ROUND x) - x\<bar> \<le> 1/2"
  unfolding ROUND_def using floor_correct [of "x + 1/2"] by linarith

section \<open>Lists\<close>

lemma take_list_update_ge: "n \<le> i \<Longrightarrow> take n (xs[i := x]) = take n xs"
  by simp

lemma sum_list_upt_shift: "map f [a + c..<b + c] = map (\<lambda>i. f (i + c)) [a..<b::nat]"
  by (induction b) (auto simp: not_le)

lemma fold_invariant_upt:
  assumes "P a" and "\<And>i s. i < n \<Longrightarrow> P s \<Longrightarrow> P (f i s)"
  shows "P (fold f [0..<n] a)"
  using assms by (induction n) auto

lemma fold_inv:
  assumes "P a" and "\<And>x s. x \<in> set xs \<Longrightarrow> P s \<Longrightarrow> P (f x s)"
  shows "P (fold f xs a)"
  using assms by (induction xs arbitrary: a) auto

section \<open>Operations that may fail\<close>

text \<open>
  An invariant of a decoder that may fail: rules that follow the structure of the program, so
  that its local definitions need not be unfolded.
\<close>

definition ret_inv :: "('s \<Rightarrow> bool) \<Rightarrow> ('s \<times> 'a) option \<Rightarrow> bool" where
  "ret_inv P r \<longleftrightarrow> (\<forall>s a. r = Some (s, a) \<longrightarrow> P s)"

lemma ret_inv_Some: "P s \<Longrightarrow> ret_inv P (Some (s, a))"
  by (simp add: ret_inv_def)

lemma ret_inv_if: "(c \<Longrightarrow> ret_inv P r) \<Longrightarrow> (\<not> c \<Longrightarrow> ret_inv P r') \<Longrightarrow> ret_inv P (if c then r else r')"
  by simp

lemma ret_inv_Let: "(\<And>x. x = t \<Longrightarrow> ret_inv P (f x)) \<Longrightarrow> ret_inv P (Let t f)"
  by (simp add: Let_def)

lemma ret_inv_prod: "(\<And>x y. p = (x, y) \<Longrightarrow> ret_inv P (f x y)) \<Longrightarrow> ret_inv P (case p of (x, y) \<Rightarrow> f x y)"
  by (simp split: prod.split)

lemma ret_inv_bind: "(\<And>x. m = Some x \<Longrightarrow> ret_inv P (f x)) \<Longrightarrow> ret_inv P (Option.bind m f)"
  by (cases m) (simp_all add: ret_inv_def)

lemma ret_inv_Let_prod:
  "(\<And>x y. p = (x, y) \<Longrightarrow> ret_inv P (f x y)) \<Longrightarrow> ret_inv P (Let p (\<lambda>(x, y). f x y))"
  by (simp add: Let_def split: prod.split)

lemma ret_inv_Let_any: "(\<And>x. ret_inv P (f x)) \<Longrightarrow> ret_inv P (Let t f)"
  by (simp add: Let_def)

lemmas ret_inv_intros = ret_inv_if ret_inv_Let_prod ret_inv_Let ret_inv_prod ret_inv_bind ret_inv_Some

end
