(* ===== verification/Bits.thy ===== *)
theory Bits
  imports NavPrelude
begin

text \<open>
  Bit fields of a byte buffer: \<open>getbitu\<close>, \<open>getbits\<close>, \<open>setbitu\<close> and
  \<open>setbits\<close> of \<^verbatim>\<open>rtkcmn.c\<close>, translated loop by loop on words, and their
  specification: a buffer is a sequence of bits, most significant bit of a byte first.
\<close>

section \<open>The operations\<close>

definition getbitu :: "u8 list \<Rightarrow> nat \<Rightarrow> nat \<Rightarrow> u32" where
  "getbitu buff pos len =
     fold (\<lambda>i bits. push_bit 1 bits +
                     (drop_bit (7 - i mod 8) (ucast (buff ! (i div 8))) AND 1))
          [pos..<pos + len] 0"

definition getbits :: "u8 list \<Rightarrow> nat \<Rightarrow> nat \<Rightarrow> int" where
  "getbits buff pos len =
     (let bits = getbitu buff pos len in
      if len = 0 \<or> 32 \<le> len \<or> bits AND push_bit (len - 1) 1 = 0 then sint bits
      else sint (bits OR push_bit len (NOT 0)))"

definition setbitu :: "u8 list \<Rightarrow> nat \<Rightarrow> nat \<Rightarrow> u32 \<Rightarrow> u8 list" where
  "setbitu buff pos len data =
     (if len = 0 \<or> 32 < len then buff
      else fst (fold (\<lambda>i (b, mask).
                  (b[i div 8 :=
                      (if data AND mask \<noteq> 0
                       then b ! (i div 8) OR push_bit (7 - i mod 8) 1
                       else b ! (i div 8) AND NOT (push_bit (7 - i mod 8) 1))],
                   drop_bit 1 mask))
                [pos..<pos + len] (buff, push_bit (len - 1) 1)))"

definition setbits :: "u8 list \<Rightarrow> nat \<Rightarrow> nat \<Rightarrow> int \<Rightarrow> u8 list" where
  "setbits buff pos len data =
     (let d = word_of_int data;
          d' = (if data < 0 then d OR push_bit (len - 1) 1
                else d AND NOT (push_bit (len - 1) 1))
      in setbitu buff pos len d')"

text \<open>
  Callers read a field into an \<open>int\<close> or a \<open>double\<close> and write one from an
  \<open>int\<close>: the conversions of C.
\<close>

definition getu :: "u8 list \<Rightarrow> nat \<Rightarrow> nat \<Rightarrow> int" where
  "getu buff pos len = uint (getbitu buff pos len)"

definition setu :: "u8 list \<Rightarrow> nat \<Rightarrow> nat \<Rightarrow> int \<Rightarrow> u8 list" where
  "setu buff pos len v = setbitu buff pos len (word_of_int v)"

section \<open>A buffer as a sequence of bits\<close>

definition bufbit :: "u8 list \<Rightarrow> nat \<Rightarrow> bool" where
  "bufbit buff i = bit (buff ! (i div 8)) (7 - i mod 8)"

lemma getbitu_0 [simp]: "getbitu b pos 0 = 0"
  by (simp add: getbitu_def)

lemma drop_bit_and_1:
  "(drop_bit n (ucast (w :: u8)) AND 1 :: u32) = of_bool (bit w n)"
  by (rule bit_eqI) (auto simp: bit_simps dest: bit_imp_le_length)

lemma getbitu_Suc:
  "getbitu b pos (Suc n) = push_bit 1 (getbitu b pos n) + of_bool (bufbit b (pos + n))"
  by (simp add: getbitu_def bufbit_def drop_bit_and_1)

lemma push_bit_1_plus:
  "bit (push_bit 1 w + of_bool x :: u32) k \<longleftrightarrow>
     (if k = 0 then x else k < 32 \<and> bit w (k - 1))"
proof -
  have "push_bit 1 w + of_bool x = push_bit 1 w OR of_bool x"
    by (rule disjunctive_add, unfold bit_push_bit_iff bit_of_bool_iff) auto
  then show ?thesis
    by (simp only: bit_or_iff bit_push_bit_iff bit_of_bool_iff)
       (auto dest: bit_imp_le_length)
qed

lemma bit_getbitu:
  "n \<le> 32 \<Longrightarrow> bit (getbitu b pos n) k \<longleftrightarrow> k < n \<and> bufbit b (pos + (n - 1 - k))"
proof (induction n arbitrary: k)
  case 0
  then show ?case by simp
next
  case (Suc n)
  have IH: "bit (getbitu b pos n) j \<longleftrightarrow> j < n \<and> bufbit b (pos + (n - 1 - j))" for j
    using Suc by simp
  show ?case
    unfolding getbitu_Suc push_bit_1_plus IH using Suc.prems by (cases k) auto
qed

lemma getbitu_cong:
  assumes "\<And>i. pos \<le> i \<Longrightarrow> i < pos + n \<Longrightarrow> bufbit b i = bufbit b' i"
  shows "getbitu b pos n = getbitu b' pos n"
  using assms
proof (induction n)
  case (Suc n)
  then have "getbitu b pos n = getbitu b' pos n" "bufbit b (pos + n) = bufbit b' (pos + n)"
    by simp_all
  then show ?case by (simp only: getbitu_Suc)
qed simp

section \<open>Writing one bit, writing a field\<close>

declare push_bit_of_1 [simp del]

definition setbit1 :: "u8 list \<Rightarrow> nat \<Rightarrow> bool \<Rightarrow> u8 list" where
  "setbit1 b i x =
     b[i div 8 := (if x then b ! (i div 8) OR push_bit (7 - i mod 8) 1
                   else b ! (i div 8) AND NOT (push_bit (7 - i mod 8) 1))]"

lemma length_setbit1 [simp]: "length (setbit1 b i x) = length b"
  by (simp add: setbit1_def)

lemma bufbit_update:
  "j div 8 < length b \<Longrightarrow>
   bufbit (b[k := w]) j = (if k = j div 8 then bit w (7 - j mod 8) else bufbit b j)"
  by (auto simp: bufbit_def nth_list_update)

lemma seven_minus_inj: "7 - i mod 8 = 7 - j mod 8 \<Longrightarrow> i mod 8 = j mod (8::nat)"
proof -
  assume "7 - i mod 8 = 7 - j mod 8"
  moreover have "i mod 8 < 8" "j mod 8 < 8" by simp_all
  ultimately show ?thesis by linarith
qed

lemma bit_push_1_u8: "bit (push_bit n 1 :: u8) m \<longleftrightarrow> m = n \<and> n < 8"
  unfolding bit_push_bit_iff bit_1_iff by auto

lemma bufbit_setbit1:
  assumes "i div 8 < length b" and "j div 8 < length b"
  shows "bufbit (setbit1 b i x) j = (if j = i then x else bufbit b j)"
proof (cases "i div 8 = j div 8")
  case False
  then show ?thesis using assms by (auto simp: setbit1_def bufbit_update)
next
  case True
  define m where "m = 7 - i mod 8"
  define k where "k = 7 - j mod 8"
  have eq: "k = m \<longleftrightarrow> j = i"
    using True seven_minus_inj [of j i] unfolding m_def k_def by (metis div_mult_mod_eq)
  have lt: "k < 8" "m < 8" unfolding m_def k_def by simp_all
  have "bufbit (setbit1 b i x) j =
      bit (if x then b ! (i div 8) OR push_bit m 1 else b ! (i div 8) AND NOT (push_bit m 1)) k"
    using True assms(2) unfolding setbit1_def m_def k_def by (simp add: bufbit_update)
  also have "\<dots> = (if k = m then x else bit (b ! (j div 8)) k)"
    using lt True by (simp add: bit_or_iff bit_and_iff bit_not_iff bit_push_1_u8)
  finally show ?thesis unfolding eq by (simp add: bufbit_def k_def)
qed

text \<open>The loop of \<open>setbitu\<close> after \<open>k\<close> of \<open>n\<close> iterations.\<close>

definition set_step :: "u32 \<Rightarrow> nat \<Rightarrow> u8 list \<times> u32 \<Rightarrow> u8 list \<times> u32" where
  "set_step data i = (\<lambda>(b, mask). (setbit1 b i (data AND mask \<noteq> 0), drop_bit 1 mask))"

lemma setbitu_alt:
  "setbitu b pos n d =
     (if n = 0 \<or> 32 < n then b
      else fst (fold (set_step d) [pos..<pos + n] (b, push_bit (n - 1) 1)))"
proof -
  have "(\<lambda>i (b, mask). (b[i div 8 :=
            (if d AND mask \<noteq> 0 then b ! (i div 8) OR push_bit (7 - i mod 8) 1
             else b ! (i div 8) AND NOT (push_bit (7 - i mod 8) 1))], drop_bit 1 mask)) = set_step d"
    by (simp add: set_step_def setbit1_def fun_eq_iff)
  then show ?thesis unfolding setbitu_def by simp
qed

lemma and_push_1: "k < 32 \<Longrightarrow> (d :: u32) AND push_bit k 1 \<noteq> 0 \<longleftrightarrow> bit d k"
  by (simp add: bit_iff_and_push_bit_not_eq_0)

lemma drop_push_1: "n < m \<Longrightarrow> m \<le> 32 \<Longrightarrow>
   drop_bit 1 (push_bit (m - 1 - n) 1 :: u32) = (if Suc n = m then 0 else push_bit (m - 1 - Suc n) 1)"
  by (rule bit_eqI) (auto simp: bit_drop_bit_eq bit_push_bit_iff bit_1_iff)

lemma set_steps:
  assumes "n \<le> m" and "m \<le> 32" and "0 < m" and "(pos + n + 7) div 8 \<le> length b"
  shows "fold (set_step d) [pos..<pos + n] (b, push_bit (m - 1) 1) = (b', mk) \<Longrightarrow>
     length b' = length b \<and> mk = (if n = m then 0 else push_bit (m - 1 - n) 1) \<and>
     (\<forall>j. j div 8 < length b \<longrightarrow>
        bufbit b' j = (if pos \<le> j \<and> j < pos + n then bit d (m - 1 - (j - pos)) else bufbit b j))"
  using assms
proof (induction n arbitrary: b' mk)
  case 0
  then show ?case by auto
next
  case (Suc n)
  obtain b1 mk1 where st: "fold (set_step d) [pos..<pos + n] (b, push_bit (m - 1) 1) = (b1, mk1)"
    by fastforce
  have IH: "length b1 = length b" "mk1 = push_bit (m - 1 - n) 1"
    "\<And>j. j div 8 < length b \<Longrightarrow>
       bufbit b1 j = (if pos \<le> j \<and> j < pos + n then bit d (m - 1 - (j - pos)) else bufbit b j)"
    using Suc.IH [OF st] Suc.prems by auto
  have b': "b' = setbit1 b1 (pos + n) (bit d (m - 1 - n))" and mk: "mk = drop_bit 1 mk1"
    using Suc.prems(1) Suc.prems(2,3) st IH(2) and_push_1 [of "m - 1 - n" d]
    by (auto simp: set_step_def [of d "pos + n"])
  have rng: "(pos + n) div 8 < length b1"
    using Suc.prems(5) IH(1) by linarith
  show ?case
    using IH drop_push_1 [of n m] Suc.prems(2,3) rng
    unfolding b' mk by (auto simp: bufbit_setbit1 less_Suc_eq)
qed

text \<open>The specification of \<open>setbitu\<close>: its effect on every bit of the buffer.\<close>

lemma length_setbitu [simp, sizes]: "length (setbitu b pos n d) = length b"
proof -
  have "length (fst (fold (set_step d) is (b, mk))) = length b" for "is" mk
    by (induction "is" arbitrary: b mk) (auto simp: set_step_def)
  then show ?thesis by (simp add: setbitu_alt)
qed

lemma bufbit_setbitu:
  assumes "pos + n \<le> 8 * length b" and "n \<le> 32" and "j div 8 < length b"
  shows "bufbit (setbitu b pos n d) j =
    (if pos \<le> j \<and> j < pos + n then bit d (n - 1 - (j - pos)) else bufbit b j)"
proof (cases "n = 0")
  case False
  obtain b' mk where st: "fold (set_step d) [pos..<pos + n] (b, push_bit (n - 1) 1) = (b', mk)"
    by fastforce
  have "(pos + n + 7) div 8 \<le> length b" using assms(1) by linarith
  then show ?thesis
    using set_steps [OF _ _ _ _ st] False assms
    by (simp add: setbitu_alt st del: One_nat_def)
next
  case True
  then show ?thesis by (auto simp: setbitu_alt)
qed

section \<open>Reading back what was written\<close>

text \<open>
  A field that does not overlap the one written is unchanged, whatever the sizes: a write
  out of the buffer's range changes no bit of it.
\<close>

lemma bufbit_setbit1_other: "j \<noteq> i \<Longrightarrow> bufbit (setbit1 b i x) j = bufbit b j"
proof (cases "i div 8 < length b")
  case True
  assume "j \<noteq> i"
  show ?thesis
  proof (cases "j div 8 < length b")
    case True
    then show ?thesis using \<open>i div 8 < length b\<close> \<open>j \<noteq> i\<close> by (simp add: bufbit_setbit1)
  next
    case False
    then show ?thesis using \<open>i div 8 < length b\<close> by (auto simp: setbit1_def bufbit_def)
  qed
qed (simp add: setbit1_def bufbit_def list_update_beyond)

lemma bufbit_setbitu_other:
  assumes "j < pos \<or> pos + n \<le> j"
  shows "bufbit (setbitu b pos n d) j = bufbit b j"
proof -
  have "j \<notin> set is \<Longrightarrow> bufbit (fst (fold (set_step d) is (b, mk))) j = bufbit b j" for "is" mk
    by (induction "is" arbitrary: b mk) (auto simp: set_step_def bufbit_setbit1_other)
  then show ?thesis using assms by (simp add: setbitu_alt del: One_nat_def) auto
qed

lemma getbitu_setbitu_other [bitfield]:
  "q + m \<le> pos \<or> pos + n \<le> q \<Longrightarrow> getbitu (setbitu b pos n d) q m = getbitu b q m"
  by (rule getbitu_cong) (auto simp: bufbit_setbitu_other)

lemma getbitu_setbitu_same [bitfield]:
  assumes "pos + n \<le> 8 * length b" and "n \<le> 32"
  shows "getbitu (setbitu b pos n d) pos n = take_bit n d"
proof (rule bit_eqI)
  fix k
  show "bit (getbitu (setbitu b pos n d) pos n) k = bit (take_bit n d) k"
  proof (cases "k < n")
    case True
    define j where "j = pos + (n - 1 - k)"
    have j: "j div 8 < length b" "n - 1 - (j - pos) = k" "pos \<le> j" "j < pos + n"
      using True assms(1) unfolding j_def by linarith+
    have "bufbit (setbitu b pos n d) j = bit d k"
      using bufbit_setbitu [OF assms j(1), of d] j by simp
    then show ?thesis
      using True assms by (simp only: bit_getbitu j_def bit_take_bit_iff)
  next
    case False
    then show ?thesis using assms by (simp add: bit_getbitu bit_take_bit_iff)
  qed
qed

subsection \<open>Unsigned fields\<close>

lemma length_setu [simp, sizes]: "length (setu b pos n v) = length b"
  by (simp add: setu_def)

lemma getu_setu_other [bitfield]:
  "q + m \<le> pos \<or> pos + n \<le> q \<Longrightarrow> getu (setu b pos n v) q m = getu b q m"
  by (simp add: getu_def setu_def getbitu_setbitu_other)

lemma getu_setu_same [bitfield]:
  assumes "pos + n \<le> 8 * length b" and "n \<le> 32"
  shows "getu (setu b pos n v) pos n = v mod 2 ^ n"
proof -
  have "uint (take_bit n (word_of_int v :: u32)) = take_bit n (take_bit 32 v)"
    by (simp add: unsigned_take_bit_eq uint_word_of_int_eq)
  also have "\<dots> = v mod 2 ^ n"
    using assms(2) by (simp add: take_bit_take_bit min_absorb1 take_bit_eq_mod [symmetric])
  finally show ?thesis
    using assms by (simp add: getu_def setu_def getbitu_setbitu_same)
qed

lemma getu_nonneg [simp]: "0 \<le> getu b pos n"
  by (simp add: getu_def)

lemma getu_less: "n \<le> 32 \<Longrightarrow> getu b pos n < 2 ^ n"
proof -
  assume n: "n \<le> 32"
  have "getbitu b pos n = take_bit n (getbitu b pos n)"
    by (rule bit_eqI) (auto simp: bit_take_bit_iff bit_getbitu [OF n])
  then have "getu b pos n = take_bit n (uint (getbitu b pos n))"
    by (metis getu_def unsigned_take_bit_eq)
  then show ?thesis by simp
qed

subsection \<open>Signed fields\<close>

lemma getbits_signed:
  assumes "0 < n" and "n \<le> 32"
  shows "getbits b pos n = signed_take_bit (n - 1) (getu b pos n)"
proof (rule bit_eqI)
  fix k
  define w where "w = getbitu b pos n"
  have w: "bit w j \<Longrightarrow> j < n" for j
    unfolding w_def using assms(2) by (simp add: bit_getbitu)
  have top: "w AND push_bit (n - 1) 1 = 0 \<longleftrightarrow> \<not> bit w (n - 1)"
  proof -
    have "n - 1 < 32" using assms by linarith
    from and_push_1 [OF this, of w] show ?thesis by auto
  qed
  have ext: "bit (w OR push_bit n (NOT 0)) j \<longleftrightarrow> bit w j \<or> n \<le> j \<and> j < 32" for j
    by (auto simp: bit_or_iff bit_push_bit_iff bit_not_iff bit_mask_iff)
  have "bit (getbits b pos n) k \<longleftrightarrow> bit w (min k (n - 1))"
  proof (cases "n = 32")
    case True
    then have "getbits b pos n = sint w" by (simp add: getbits_def w_def)
    then show ?thesis using True w [of k] by (auto simp: bit_sint_iff min_def)
  next
    case False
    then have n: "n < 32" using assms(2) by simp
    have gb: "getbits b pos n = sint (if bit w (n - 1) then w OR push_bit n (NOT 0) else w)"
      using n assms(1) unfolding getbits_def Let_def w_def [symmetric] top by auto
    have "bit (getbits b pos n) k \<longleftrightarrow>
        bit (if bit w (n - 1) then w OR push_bit n (NOT 0) else w) (min k 31)"
      unfolding gb bit_sint_iff by (auto simp: min_def dest: bit_imp_le_length)
    also have "\<dots> \<longleftrightarrow> bit w (min k 31) \<or> bit w (n - 1) \<and> n \<le> min k 31"
      using ext [of "min k 31"] by (simp only: if_distrib [of "\<lambda>x. bit x (min k 31)"]) auto
    finally have "bit (getbits b pos n) k \<longleftrightarrow>
        bit w (min k 31) \<or> bit w (n - 1) \<and> n \<le> min k 31" .
    then show ?thesis
      using n assms(1) w [of "min k 31"] by (auto simp: min_def split: if_splits)
  qed
  then show "bit (getbits b pos n) k = bit (signed_take_bit (n - 1) (getu b pos n)) k"
    using assms(2)
    by (auto simp: getu_def bit_signed_take_bit_iff bit_uint_iff w_def [symmetric] min_def)
qed

lemma length_setbits [simp, sizes]: "length (setbits b pos n v) = length b"
  by (simp add: setbits_def Let_def)

lemma getu_setbits_other [bitfield]:
  "q + m \<le> pos \<or> pos + n \<le> q \<Longrightarrow> getu (setbits b pos n v) q m = getu b q m"
  by (simp add: getu_def setbits_def Let_def getbitu_setbitu_other)

lemma getbits_setu_other [bitfield]:
  "q + m \<le> pos \<or> pos + n \<le> q \<Longrightarrow> getbits (setu b pos n v) q m = getbits b q m"
  by (simp add: getbits_def setu_def getbitu_setbitu_other)

lemma getbits_setbits_other [bitfield]:
  "q + m \<le> pos \<or> pos + n \<le> q \<Longrightarrow> getbits (setbits b pos n v) q m = getbits b q m"
  by (simp add: getbits_def setbits_def Let_def getbitu_setbitu_other)

text \<open>
  A signed field keeps the sign of the value written and its \<open>n - 1\<close> low bits, so
  a value in range comes back unchanged and one out of range loses its high bits.
\<close>

lemma getbits_setbits_same:
  assumes "pos + n \<le> 8 * length b" and "0 < n" and "n \<le> 32"
  shows "getbits (setbits b pos n v) pos n =
    take_bit (n - 1) v - (if v < 0 then 2 ^ (n - 1) else 0)"
proof -
  define d where "d = (if v < 0 then word_of_int v OR push_bit (n - 1) 1
                       else word_of_int v AND NOT (push_bit (n - 1) (1 :: u32)))"
  define x where "x = uint (take_bit n d)"
  have d: "bit d k \<longleftrightarrow> (if k = n - 1 then v < 0 else k < 32 \<and> bit v k)" for k
    using assms(2,3) unfolding d_def
    by (auto simp: bit_or_iff bit_and_iff bit_not_iff bit_push_bit_iff bit_1_iff
                   bit_word_of_int_iff)
  have x: "bit x k \<longleftrightarrow> k < n \<and> (if k = n - 1 then v < 0 else bit v k)" for k
    using assms(3) unfolding x_def by (auto simp: bit_uint_iff bit_take_bit_iff d)
  have low: "take_bit (n - 1) x = take_bit (n - 1) v"
    by (rule bit_eqI) (auto simp: bit_take_bit_iff x)
  have "getbits (setbits b pos n v) pos n = signed_take_bit (n - 1) x"
    using assms
    by (simp add: getbits_signed getu_def setbits_def Let_def d_def [symmetric]
          getbitu_setbitu_same x_def)
  also have "\<dots> = take_bit (Suc (n - 1)) x - 2 ^ Suc (n - 1) * of_bool (bit x (n - 1))"
    by (rule signed_take_bit_eq_take_bit_minus)
  also have "\<dots> = take_bit (n - 1) v - (if v < 0 then 2 ^ (n - 1) else 0)"
    using assms(2) low x [of "n - 1"]
    by (cases n) (simp_all add: take_bit_Suc_from_most)
  finally show ?thesis .
qed

lemma getbits_setbits_in_range [bitfield]:
  assumes "pos + n \<le> 8 * length b" and "0 < n" and "n \<le> 32"
    and "- (2 ^ (n - 1)) \<le> v" and "v < 2 ^ (n - 1)"
  shows "getbits (setbits b pos n v) pos n = v"
proof (cases "v < 0")
  case True
  have "take_bit (n - 1) v = (v + 2 ^ (n - 1)) mod 2 ^ (n - 1)"
    by (simp add: take_bit_eq_mod)
  also have "\<dots> = v + 2 ^ (n - 1)"
    using True assms(4) by (intro mod_pos_pos_trivial) auto
  finally show ?thesis
    using True getbits_setbits_same [OF assms(1-3), of v] by simp
next
  case False
  then show ?thesis
    using getbits_setbits_same [OF assms(1-3), of v] assms(5)
    by (simp add: take_bit_int_eq_self)
qed

lemma getbits_bounds:
  assumes "0 < n" and "n \<le> 32"
  shows "- (2 ^ (n - 1)) \<le> getbits b pos n \<and> getbits b pos n < 2 ^ (n - 1)"
  using getbits_signed [OF assms, of b pos]
  by (simp add: signed_take_bit_int_greater_eq_minus_exp signed_take_bit_int_less_exp)

end
