(* ===== verification/BitFields.thy ===== *)
theory BitFields
  imports Bits
begin

text \<open>
  Fields and sequences of fields: the sign-magnitude and 38-bit fields of \<^verbatim>\<open>rtcm3.c\<close> and
  \<^verbatim>\<open>rtcm3e.c\<close>, readers and writers that advance a bit position as the code's
  \<open>i += n\<close> does, and arrays of fields of one width.  The locale \<open>fixed_field\<close> states
  what a fixed-width field promises; unsigned and signed fields are interpretations of it.
\<close>

section \<open>Sign-magnitude and 38-bit fields\<close>

definition getbitg :: "u8 list \<Rightarrow> nat \<Rightarrow> nat \<Rightarrow> double" where
  "getbitg buff pos len =
     (let v = real_of_int (getu buff (pos + 1) (len - 1))
      in if getu buff pos 1 \<noteq> 0 then - v else v)"

definition setbitg :: "u8 list \<Rightarrow> nat \<Rightarrow> nat \<Rightarrow> int \<Rightarrow> u8 list" where
  "setbitg buff pos len v =
     setu (setu buff pos 1 (if v < 0 then 1 else 0)) (pos + 1) (len - 1) (if v < 0 then - v else v)"

definition getbits_38 :: "u8 list \<Rightarrow> nat \<Rightarrow> double" where
  "getbits_38 buff pos =
     real_of_int (getbits buff pos 32) * 64 + real_of_int (getu buff (pos + 32) 6)"

definition set38bits :: "u8 list \<Rightarrow> nat \<Rightarrow> double \<Rightarrow> u8 list" where
  "set38bits buff pos value =
     (let word_h = \<lfloor>value / 64\<rfloor>;
          word_l = trunc (value - of_int word_h * 64)
      in setu (setbits buff pos 32 word_h) (pos + 32) 6 word_l)"

section \<open>Readers and writers\<close>

text \<open>A reader takes the bit position and returns the value and the position after it.\<close>

definition rdu :: "u8 list \<Rightarrow> nat \<Rightarrow> (nat, int) state" where
  "rdu b n = State (\<lambda>i. (getu b i n, i + n))"

definition rds :: "u8 list \<Rightarrow> nat \<Rightarrow> (nat, int) state" where
  "rds b n = State (\<lambda>i. (getbits b i n, i + n))"

definition rdg :: "u8 list \<Rightarrow> nat \<Rightarrow> (nat, double) state" where
  "rdg b n = State (\<lambda>i. (getbitg b i n, i + n))"

definition rd38 :: "u8 list \<Rightarrow> (nat, double) state" where
  "rd38 b = State (\<lambda>i. (getbits_38 b i, i + 38))"

definition skip :: "nat \<Rightarrow> (nat, unit) state" where
  "skip n = State (\<lambda>i. ((), i + n))"

lemma run_readers [simp, runs]:
  "run_state (rdu b n) i = (getu b i n, i + n)"
  "run_state (rds b n) i = (getbits b i n, i + n)"
  "run_state (rdg b n) i = (getbitg b i n, i + n)"
  "run_state (rd38 b) i = (getbits_38 b i, i + 38)"
  "run_state (skip n) i = ((), i + n)"
  by (simp_all add: rdu_def rds_def rdg_def rd38_def skip_def)

text \<open>A writer takes the buffer and the bit position.\<close>

type_synonym wstate = "u8 list \<times> nat"

definition wru :: "nat \<Rightarrow> int \<Rightarrow> (wstate, unit) state" where
  "wru n v = State (\<lambda>(b, i). ((), (setu b i n v, i + n)))"

definition wrs :: "nat \<Rightarrow> int \<Rightarrow> (wstate, unit) state" where
  "wrs n v = State (\<lambda>(b, i). ((), (setbits b i n v, i + n)))"

definition wrg :: "nat \<Rightarrow> int \<Rightarrow> (wstate, unit) state" where
  "wrg n v = State (\<lambda>(b, i). ((), (setbitg b i n v, i + n)))"

definition wr38 :: "double \<Rightarrow> (wstate, unit) state" where
  "wr38 v = State (\<lambda>(b, i). ((), (set38bits b i v, i + 38)))"

lemma run_writers [simp, runs]:
  "run_state (wru n v) (b, i) = ((), (setu b i n v, i + n))"
  "run_state (wrs n w) (b, i) = ((), (setbits b i n w, i + n))"
  "run_state (wrg n w) (b, i) = ((), (setbitg b i n w, i + n))"
  "run_state (wr38 x) (b, i) = ((), (set38bits b i x, i + 38))"
  by (simp_all add: wru_def wrs_def wrg_def wr38_def)

section \<open>Laws of the composite fields\<close>

lemma length_setbitg [simp, sizes]: "length (setbitg b pos n v) = length b"
  by (simp add: setbitg_def)

lemma length_set38bits [simp, sizes]: "length (set38bits b pos v) = length b"
  by (simp add: set38bits_def Let_def)

lemma getu_setbitg_other [bitfield]:
  "q + m \<le> pos \<or> pos + n \<le> q \<Longrightarrow> 0 < n \<Longrightarrow> getu (setbitg b pos n v) q m = getu b q m"
  unfolding setbitg_def by (subst getu_setu_other, linarith)+ simp

lemma getbits_setbitg_other [bitfield]:
  "q + m \<le> pos \<or> pos + n \<le> q \<Longrightarrow> 0 < n \<Longrightarrow> getbits (setbitg b pos n v) q m = getbits b q m"
  unfolding setbitg_def by (subst getbits_setu_other, linarith)+ simp

lemma getu_set38bits_other [bitfield]:
  "q + m \<le> pos \<or> pos + 38 \<le> q \<Longrightarrow> getu (set38bits b pos v) q m = getu b q m"
  unfolding set38bits_def Let_def
  by (subst getu_setu_other, linarith, subst getu_setbits_other, linarith) simp

lemma getbits_set38bits_other [bitfield]:
  "q + m \<le> pos \<or> pos + 38 \<le> q \<Longrightarrow> getbits (set38bits b pos v) q m = getbits b q m"
  unfolding set38bits_def Let_def
  by (subst getbits_setu_other, linarith, subst getbits_setbits_other, linarith) simp

lemma getbitg_cong:
  assumes "\<And>q m. pos \<le> q \<Longrightarrow> q + m \<le> pos + n \<Longrightarrow> getu b q m = getu b' q m" and "0 < n"
  shows "getbitg b pos n = getbitg b' pos n"
  using assms(1) [of pos 1] assms(1) [of "pos + 1" "n - 1"] assms(2) by (simp add: getbitg_def)

lemma getbitg_other [bitfield]:
  assumes "q + m \<le> pos \<or> pos + n \<le> q" and "0 < m"
  shows "getbitg (setu b pos n v) q m = getbitg b q m"
    and "getbitg (setbits b pos n v) q m = getbitg b q m"
    and "0 < n \<Longrightarrow> getbitg (setbitg b pos n v) q m = getbitg b q m"
  using assms by (auto intro!: getbitg_cong getu_setu_other getu_setbits_other getu_setbitg_other)

lemma getbitg_setbitg_same [bitfield]:
  assumes "pos + n \<le> 8 * length b" and "1 < n" and "n \<le> 32" and "\<bar>v\<bar> < 2 ^ (n - 1)"
  shows "getbitg (setbitg b pos n v) pos n = real_of_int v"
proof -
  let ?m = "if v < 0 then - v else v"
  have m: "0 \<le> ?m" "?m < 2 ^ (n - 1)" using assms(4) by auto
  have len: "pos + 1 + (n - 1) \<le> 8 * length b" "pos + 1 \<le> 8 * length b"
    using assms(1,2) by linarith+
  have 1: "getu (setbitg b pos n v) pos 1 = (if v < 0 then 1 else 0)"
    unfolding setbitg_def using len(2) by (subst getu_setu_other) (simp_all add: getu_setu_same)
  have 2: "getu (setbitg b pos n v) (pos + 1) (n - 1) = ?m"
    unfolding setbitg_def using len(1) assms(3) m by (subst getu_setu_same) simp_all
  show ?thesis unfolding getbitg_def 1 2 by simp
qed

lemma getbits_38_other [bitfield]:
  assumes "q + 38 \<le> pos \<or> pos + n \<le> q"
  shows "getbits_38 (setu b pos n v) q = getbits_38 b q"
    and "getbits_38 (setbits b pos n w) q = getbits_38 b q"
  using assms by (auto simp: getbits_38_def bitfield)

lemma getbits_38_set38bits_other [bitfield]:
  assumes "q + 38 \<le> pos \<or> pos + 38 \<le> q"
  shows "getbits_38 (set38bits b pos v) q = getbits_38 b q"
  using assms by (auto simp: getbits_38_def bitfield)

lemma getbits_38_set38bits_same [bitfield]:
  assumes "pos + 38 \<le> 8 * length b" and "- (2 ^ 37) \<le> k" and "k < 2 ^ 37"
  shows "getbits_38 (set38bits b pos (of_int k)) pos = of_int k"
proof -
  define h where "h = k div 64"
  define l where "l = k mod 64"
  have hl: "k = h * 64 + l" "0 \<le> l" "l < 64" unfolding h_def l_def by simp_all
  have fl: "\<lfloor>real_of_int k / 64\<rfloor> = h"
    unfolding h_def using floor_divide_of_int_eq [of k 64, where 'a = real] by simp
  have tr: "trunc (real_of_int k - of_int h * 64) = l"
    using trunc_of_int [of l] hl(1) by (simp add: algebra_simps)
  have hb: "- (2 ^ 31) \<le> h" "h < 2 ^ 31"
    using assms(2,3) hl by simp_all
  have "set38bits b pos (of_int k) = setu (setbits b pos 32 h) (pos + 32) 6 l"
    unfolding set38bits_def Let_def fl tr ..
  moreover have "getbits (setu (setbits b pos 32 h) (pos + 32) 6 l) pos 32 = h"
    using assms(1) hb by (simp add: bitfield)
  moreover have "getu (setu (setbits b pos 32 h) (pos + 32) 6 l) (pos + 32) 6 = l"
    using assms(1) hl(2,3) by (simp add: bitfield)
  ultimately show ?thesis using hl(1) by (simp add: getbits_38_def)
qed

section \<open>Fixed-width fields and arrays of them\<close>

definition read_fields :: "(nat \<Rightarrow> 'v) \<Rightarrow> nat \<Rightarrow> nat \<Rightarrow> nat \<Rightarrow> 'v list" where
  "read_fields rd w pos n = map (\<lambda>k. rd (pos + k * w)) [0..<n]"

fun write_fields ::
  "(u8 list \<Rightarrow> nat \<Rightarrow> 'v \<Rightarrow> u8 list) \<Rightarrow> nat \<Rightarrow> u8 list \<Rightarrow> nat \<Rightarrow> 'v list \<Rightarrow> u8 list" where
  "write_fields wr w b pos [] = b"
| "write_fields wr w b pos (v # vs) = write_fields wr w (wr b pos v) (pos + w) vs"

locale fixed_field =
  fixes width :: nat
    and rd :: "u8 list \<Rightarrow> nat \<Rightarrow> 'v"
    and wr :: "u8 list \<Rightarrow> nat \<Rightarrow> 'v \<Rightarrow> u8 list"
    and valid :: "'v \<Rightarrow> bool"
  assumes length_wr: "length (wr b pos v) = length b"
    and rd_wr_same: "pos + width \<le> 8 * length b \<Longrightarrow> valid v \<Longrightarrow> rd (wr b pos v) pos = v"
    and rd_wr_other: "q + width \<le> pos \<or> pos + width \<le> q \<Longrightarrow> rd (wr b pos v) q = rd b q"
    and bit_wr_other: "q + m \<le> pos \<or> pos + width \<le> q \<Longrightarrow> getu (wr b pos v) q m = getu b q m"
begin

lemma length_write_fields: "length (write_fields wr width b pos vs) = length b"
  by (induction vs arbitrary: b pos) (simp_all add: length_wr)

lemma rd_write_fields_before:
  "q + width \<le> pos \<Longrightarrow> rd (write_fields wr width b pos vs) q = rd b q"
proof (induction vs arbitrary: b pos)
  case (Cons v vs)
  then have "rd (write_fields wr width (wr b pos v) (pos + width) vs) q = rd (wr b pos v) q"
    by simp
  with Cons.prems show ?case by (simp add: rd_wr_other)
qed simp

lemma getu_write_fields_other:
  "q + m \<le> pos \<or> pos + length vs * width \<le> q \<Longrightarrow>
   getu (write_fields wr width b pos vs) q m = getu b q m"
proof (induction vs arbitrary: b pos)
  case (Cons v vs)
  have "q + m \<le> pos + width \<or> pos + width + length vs * width \<le> q"
    using Cons.prems by auto
  then have "getu (write_fields wr width (wr b pos v) (pos + width) vs) q m = getu (wr b pos v) q m"
    by (rule Cons.IH)
  moreover have "q + m \<le> pos \<or> pos + width \<le> q" using Cons.prems by auto
  ultimately show ?case by (simp add: bit_wr_other)
qed simp

text \<open>An array of fields reads back as it was written.\<close>

lemma read_write_fields:
  "pos + length vs * width \<le> 8 * length b \<Longrightarrow> list_all valid vs \<Longrightarrow>
   read_fields (rd (write_fields wr width b pos vs)) width pos (length vs) = vs"
proof (induction vs arbitrary: b pos)
  case Nil
  then show ?case by (simp add: read_fields_def)
next
  case (Cons v vs)
  let ?b = "write_fields wr width (wr b pos v) (pos + width) vs"
  have head: "rd ?b pos = v"
    using Cons.prems by (simp add: rd_write_fields_before rd_wr_same)
  have tail: "read_fields (rd ?b) width (pos + width) (length vs) = vs"
    using Cons.prems by (intro Cons.IH) (simp_all add: length_wr)
  have "read_fields (rd ?b) width pos (length (v # vs)) =
      rd ?b pos # read_fields (rd ?b) width (pos + width) (length vs)"
    unfolding read_fields_def length_Cons upt_conv_Cons [OF zero_less_Suc]
    by (simp add: map_Suc_upt [symmetric] add.assoc del: upt_Suc)
  then show ?case using head tail by simp
qed

end

interpretation ufield: fixed_field n "\<lambda>b p. getu b p n" "\<lambda>b p. setu b p n"
  "\<lambda>v. n \<le> 32 \<and> 0 \<le> v \<and> v < 2 ^ n" for n
  by unfold_locales (auto simp: bitfield)

interpretation sfield: fixed_field n "\<lambda>b p. getbits b p n" "\<lambda>b p. setbits b p n"
  "\<lambda>v. 0 < n \<and> n \<le> 32 \<and> - (2 ^ (n - 1)) \<le> v \<and> v < 2 ^ (n - 1)" for n
  by unfold_locales (auto simp: bitfield)

interpretation gfield: fixed_field "Suc n" "\<lambda>b p. getbitg b p (Suc n)"
  "\<lambda>b p v. setbitg b p (Suc n) \<lfloor>v\<rfloor>"
  "\<lambda>v. 0 < n \<and> n < 32 \<and> v = of_int \<lfloor>v\<rfloor> \<and> \<bar>\<lfloor>v\<rfloor>\<bar> < 2 ^ n" for n
  by unfold_locales (auto simp: bitfield)

end
