(* ===== verification/Crc.thy ===== *)
theory Crc
  imports CrcTables
begin

text \<open>
  Why the cyclic redundancy checks detect transmission errors: every check is a linear feedback
  register (locale \<open>crc_reg\<close>), so two messages that differ only inside a window no wider
  than the register have different checks.  The table-driven code of \<open>rtk_crc24q\<close> and
  \<open>rtk_crc16\<close> and the loop of \<open>rtk_crc32\<close> are shown to run such a register over the
  bits of the message.
\<close>

section \<open>Linear feedback registers\<close>

text \<open>
  One bit of the message is added at position \<open>p\<close> of the register and the register is
  shifted once.  \<open>fits\<close> says that only the low \<open>W\<close> bits of a word are in use.
\<close>

definition fits :: "nat \<Rightarrow> 'a::len word \<Rightarrow> bool" where
  "fits W c \<longleftrightarrow> (\<forall>j. bit c j \<longrightarrow> j < W)"

definition feed :: "('a::len word \<Rightarrow> 'a word) \<Rightarrow> nat \<Rightarrow> bool \<Rightarrow> 'a word \<Rightarrow> 'a word" where
  "feed sh p x c = sh (c XOR (if x then push_bit p 1 else 0))"

definition feeds :: "('a::len word \<Rightarrow> 'a word) \<Rightarrow> nat \<Rightarrow> bool list \<Rightarrow> 'a word \<Rightarrow> 'a word" where
  "feeds sh p xs c = fold (feed sh p) xs c"

text \<open>The register contents that a run of bits amounts to, before any shift.\<close>

fun bval :: "(nat \<Rightarrow> nat) \<Rightarrow> nat \<Rightarrow> bool list \<Rightarrow> 'a::len word" where
  "bval pos k [] = 0"
| "bval pos k (x # xs) = (if x then push_bit (pos k) 1 else 0) XOR bval pos (Suc k) xs"

definition bitdiff :: "bool list \<Rightarrow> bool list \<Rightarrow> bool list" where
  "bitdiff xs ys = map2 (\<noteq>) xs ys"

lemma fits_0 [simp]: "fits W 0"
  by (simp add: fits_def)

lemma fits_mono: "fits a c \<Longrightarrow> a \<le> b \<Longrightarrow> fits b c"
  by (meson fits_def less_le_trans)

lemma fits_xor: "fits W a \<Longrightarrow> fits W b \<Longrightarrow> fits W (a XOR b)"
  by (auto simp: fits_def bit_xor_iff)

lemma fits_push_1: "j < W \<Longrightarrow> fits W (push_bit j 1)"
  by (auto simp: fits_def bit_push_bit_iff bit_1_iff)

lemma feeds_Nil [simp]: "feeds sh p [] c = c"
  and feeds_Cons [simp]: "feeds sh p (x # xs) c = feeds sh p xs (feed sh p x c)"
  and feeds_append: "feeds sh p (xs @ ys) c = feeds sh p ys (feeds sh p xs c)"
  by (simp_all add: feeds_def)

lemma xor_eq_0_iff: "(a :: 'a::len word) XOR b = 0 \<longleftrightarrow> a = b"
  by (metis xor.left_neutral xor.assoc xor_self_eq xor.right_neutral)

locale crc_reg =
  fixes sh :: "'a::len word \<Rightarrow> 'a word" and W :: nat and pos :: "nat \<Rightarrow> nat"
  assumes sh_xor: "sh (a XOR b) = sh a XOR sh b"
    and sh_ker: "fits W c \<Longrightarrow> sh c = 0 \<Longrightarrow> c = 0"
    and sh_fits: "fits W c \<Longrightarrow> fits W (sh c)"
    and W_le: "W \<le> LENGTH('a)"
    and pos_less: "k < W \<Longrightarrow> pos k < W"
    and pos_inj: "k < W \<Longrightarrow> l < W \<Longrightarrow> pos k = pos l \<Longrightarrow> k = l"
    and sh_pos: "Suc k < W \<Longrightarrow> sh (push_bit (pos (Suc k)) 1) = push_bit (pos k) 1"
begin

lemma sh_0: "sh 0 = 0"
  using sh_xor [of 0 0] by simp

lemma funpow_xor: "(sh ^^ n) (a XOR b) = (sh ^^ n) a XOR (sh ^^ n) b"
  by (induction n) (simp_all add: sh_xor)

lemma funpow_fits: "fits W c \<Longrightarrow> fits W ((sh ^^ n) c)"
  by (induction n) (simp_all add: sh_fits)

lemma funpow_ker: "fits W c \<Longrightarrow> (sh ^^ n) c = 0 \<Longrightarrow> c = 0"
proof (induction n)
  case (Suc n)
  then have "(sh ^^ n) c = 0" using sh_ker funpow_fits by simp
  with Suc show ?case by blast
qed simp

lemma feeds_xor:
  "length xs = length ys \<Longrightarrow>
   feeds sh p xs s XOR feeds sh p ys t = feeds sh p (bitdiff xs ys) (s XOR t)"
proof (induction xs ys arbitrary: s t rule: list_induct2)
  case (Cons x xs y ys)
  have "feed sh p x s XOR feed sh p y t = feed sh p (x \<noteq> y) (s XOR t)"
    unfolding feed_def sh_xor [symmetric]
    by (cases x; cases y) (simp_all add: ac_simps xor.left_commute [of "push_bit p 1"])
  then show ?case by (simp add: Cons.IH bitdiff_def)
qed (simp add: bitdiff_def)

lemma feeds_zeros: "list_all Not xs \<Longrightarrow> feeds sh p xs c = (sh ^^ length xs) c"
proof (induction xs arbitrary: c)
  case (Cons x xs)
  then show ?case by (simp add: feed_def funpow_swap1)
qed simp

lemma sh_bval: "Suc k + length xs \<le> W \<Longrightarrow> sh (bval pos (Suc k) xs) = bval pos k xs"
proof (induction xs arbitrary: k)
  case (Cons x xs)
  have "sh (bval pos (Suc (Suc k)) xs) = bval pos (Suc k) xs"
    using Cons.prems by (intro Cons.IH) simp
  moreover have "sh (push_bit (pos (Suc k)) 1) = push_bit (pos k) 1"
    using Cons.prems by (intro sh_pos) simp
  ultimately show ?case by (simp add: sh_xor sh_0)
qed (simp add: sh_0)

lemma feeds_bval:
  "length xs \<le> W \<Longrightarrow>
   feeds sh (pos 0) xs c = (sh ^^ length xs) (c XOR bval pos 0 xs)"
proof (induction xs arbitrary: c)
  case (Cons x xs)
  let ?p = "if x then push_bit (pos 0) 1 else 0"
  have "feeds sh (pos 0) (x # xs) c = (sh ^^ length xs) (sh (c XOR ?p) XOR bval pos 0 xs)"
    using Cons.prems by (simp add: Cons.IH feed_def)
  also have "bval pos 0 xs = sh (bval pos (Suc 0) xs)"
    using Cons.prems sh_bval [of 0 xs] by simp
  also have "sh (c XOR ?p) XOR sh (bval pos (Suc 0) xs) = sh (c XOR bval pos 0 (x # xs))"
    by (simp add: sh_xor [symmetric] xor.assoc)
  finally show ?case by (simp add: funpow_swap1)
qed simp

lemma bit_bval:
  "k + length xs \<le> W \<Longrightarrow> i < W \<Longrightarrow>
   bit (bval pos k xs :: 'a word) (pos i) \<longleftrightarrow> k \<le> i \<and> i < k + length xs \<and> xs ! (i - k)"
proof (induction xs arbitrary: k)
  case (Cons x xs)
  have "bit (push_bit (pos k) 1 :: 'a word) (pos i) \<longleftrightarrow> i = k"
    using Cons.prems pos_inj [of k i] pos_less [of i] W_le
    by (auto simp: bit_push_bit_iff bit_1_iff)
  then have "bit (bval pos k (x # xs) :: 'a word) (pos i) \<longleftrightarrow>
      ((x \<and> i = k) \<noteq> (Suc k \<le> i \<and> i < Suc k + length xs \<and> xs ! (i - Suc k)))"
    using Cons.prems by (simp add: bit_xor_iff Cons.IH)
  also have "\<dots> \<longleftrightarrow> k \<le> i \<and> i < k + length (x # xs) \<and> (x # xs) ! (i - k)"
    by (cases "i = k") (auto simp: nth_Cons')
  finally show ?case .
qed simp

lemma fits_bval: "k + length xs \<le> W \<Longrightarrow> fits W (bval pos k xs)"
  by (induction xs arbitrary: k) (simp_all add: fits_xor fits_push_1 pos_less)

lemma bval_nonzero:
  assumes "length xs \<le> W" and "True \<in> set xs"
  shows "(bval pos 0 xs :: 'a word) \<noteq> 0"
proof -
  obtain i where "i < length xs" "xs ! i" using assms(2) by (metis in_set_conv_nth)
  then have "bit (bval pos 0 xs :: 'a word) (pos i)"
    using assms(1) bit_bval [of 0 xs i] by simp
  then show ?thesis by auto
qed

text \<open>
  Burst detection: two messages of the same length that differ, but only inside a window of
  \<open>W\<close> bits, leave different values in the register.
\<close>

theorem burst_detected:
  assumes len: "length xs = length ys" and "xs \<noteq> ys"
    and pre: "take k xs = take k ys" and post: "drop (k + W) xs = drop (k + W) ys"
  shows "feeds sh (pos 0) xs c \<noteq> feeds sh (pos 0) ys c"
proof
  assume eq: "feeds sh (pos 0) xs c = feeds sh (pos 0) ys c"
  define d where "d = bitdiff xs ys"
  have ld: "length d = length xs" using len by (simp add: d_def bitdiff_def)
  have nth: "i < length xs \<Longrightarrow> d ! i = (xs ! i \<noteq> ys ! i)" for i
    using len by (simp add: d_def bitdiff_def)
  have "i < k \<Longrightarrow> xs ! i = ys ! i" for i by (metis nth_take pre)
  then have d1: "list_all Not (take k d)"
    using ld len nth by (auto simp: list_all_length)
  have d3: "list_all Not (drop (k + W) d)"
    using post ld len nth unfolding list_all_length
    by (metis length_drop nth_drop less_diff_conv add.commute le_add1 order_less_le_trans
        add_leD1 nat_le_linear not_less)
  define m where "m = take W (drop k d)"
  have split: "d = take k d @ m @ drop (k + W) d"
    by (simp add: m_def) (metis append_take_drop_id drop_drop add.commute)
  obtain i where "i < length xs" "xs ! i \<noteq> ys ! i"
    using assms(2) len by (auto simp: list_eq_iff_nth_eq)
  then have "True \<in> set d" using nth ld by (metis nth_mem)
  moreover have "set d = set (take k d) \<union> set m \<union> set (drop (k + W) d)"
    by (subst split) auto
  ultimately have tm: "True \<in> set m"
    using d1 d3 by (auto simp: list.pred_set)
  have lm: "length m \<le> W" by (simp add: m_def)
  have "feeds sh (pos 0) d 0 = 0"
    using feeds_xor [OF len, of "pos 0" c c] eq by (simp add: d_def)
  moreover have "feeds sh (pos 0) (take k d) 0 = 0"
  proof -
    have "(sh ^^ n) 0 = 0" for n by (induction n) (simp_all add: sh_0)
    then show ?thesis using feeds_zeros [OF d1] by simp
  qed
  ultimately have "(sh ^^ length (drop (k + W) d)) (feeds sh (pos 0) m 0) = 0"
    using feeds_zeros [OF d3] split by (metis feeds_append)
  then have "(sh ^^ (length (drop (k + W) d) + length m)) (bval pos 0 m) = 0"
    using feeds_bval [OF lm, of 0] by (simp add: funpow_add)
  then have "(bval pos 0 m :: 'a word) = 0"
    using funpow_ker [OF fits_bval [of 0 m]] lm by auto
  then show False using bval_nonzero [OF lm tm] by simp
qed

end

section \<open>The three registers of the code\<close>

definition sh24 :: "u32 \<Rightarrow> u32" where
  "sh24 c = (let c = push_bit 1 c in if c AND 0x1000000 \<noteq> 0 then c XOR POLYCRC24Q else c)"

definition sh16 :: "u16 \<Rightarrow> u16" where
  "sh16 c = (if c AND 0x8000 \<noteq> 0 then push_bit 1 c XOR POLYCRC16 else push_bit 1 c)"

definition sh32 :: "u32 \<Rightarrow> u32" where
  "sh32 c = (if c AND 1 \<noteq> 0 then drop_bit 1 c XOR POLYCRC32 else drop_bit 1 c)"

lemma and_mask_bit:
  "m = push_bit k 1 \<Longrightarrow> k < LENGTH('a::len) \<Longrightarrow> (c :: 'a word) AND m \<noteq> 0 \<longleftrightarrow> bit c k"
  by (simp add: bit_iff_and_push_bit_not_eq_0)

lemma sh24_alt: "sh24 c = push_bit 1 c XOR (if bit c 23 then POLYCRC24Q else 0)"
proof -
  have "push_bit 1 c AND 0x1000000 \<noteq> 0 \<longleftrightarrow> bit (push_bit 1 c) 24"
    by (rule and_mask_bit) (simp_all add: push_bit_of_1)
  also have "\<dots> \<longleftrightarrow> bit c 23" unfolding bit_push_bit_iff by simp
  finally show ?thesis unfolding sh24_def Let_def by auto
qed

lemma sh16_alt: "sh16 c = push_bit 1 c XOR (if bit c 15 then POLYCRC16 else 0)"
proof -
  have "c AND 0x8000 \<noteq> 0 \<longleftrightarrow> bit c 15"
    by (rule and_mask_bit) (simp_all add: push_bit_of_1)
  then show ?thesis unfolding sh16_def by simp
qed

lemma sh32_alt: "sh32 c = drop_bit 1 c XOR (if bit c 0 then POLYCRC32 else 0)"
proof -
  have "c AND 1 \<noteq> 0 \<longleftrightarrow> bit c 0"
    by (rule and_mask_bit) simp_all
  then show ?thesis unfolding sh32_def by simp
qed

lemma bit_poly24: "bit POLYCRC24Q 0" "bit POLYCRC24Q 24" "bit POLYCRC24Q j \<Longrightarrow> j < 25"
  and bit_poly16: "bit POLYCRC16 0"
  and bit_poly32: "bit POLYCRC32 31"
proof -
  have "POLYCRC24Q AND NOT (mask 25) = 0"
    by (simp add: POLYCRC24Q_def mask_eq_exp_minus_1)
  moreover assume "bit POLYCRC24Q j"
  ultimately show "j < 25"
    by (metis bit_and_iff bit_not_iff bit_mask_iff bit_0_eq bot_apply bot_bool_def bit_imp_le_length
        possible_bit_word)
qed (simp_all add: POLYCRC24Q_def POLYCRC16_def POLYCRC32_def)

lemma shift_xor: "push_bit n (a XOR b) = push_bit n a XOR push_bit n (b :: 'a::len word)"
  by (rule bit_word_eqI) (auto simp: bit_push_bit_iff bit_xor_iff)

lemma unshift_xor: "drop_bit n (a XOR b) = drop_bit n a XOR drop_bit n (b :: 'a::len word)"
  by (rule bit_word_eqI) (auto simp: bit_drop_bit_eq bit_xor_iff)

lemma bit_push_1_iff [simp]: "bit (push_bit 1 c :: 'a::len word) j \<longleftrightarrow> 0 < j \<and> j < LENGTH('a) \<and> bit c (j - 1)"
  unfolding bit_push_bit_iff by (auto dest: bit_imp_le_length)

text \<open>A register that shifts left and reduces by a polynomial with constant term 1.\<close>

lemma crc_reg_left:
  fixes sh :: "'a::len word \<Rightarrow> 'a word"
  assumes sh: "\<And>c. sh c = push_bit 1 c XOR (if bit c (W - 1) then P else 0)"
    and P0: "bit P 0" and PW: "W < LENGTH('a) \<Longrightarrow> bit P W" and Pj: "\<And>j. bit P j \<Longrightarrow> j \<le> W"
    and W: "0 < W" "W \<le> LENGTH('a)"
  shows "crc_reg sh W (\<lambda>k. W - 1 - k)"
proof
  fix a b :: "'a word"
  show "sh (a XOR b) = sh a XOR sh b"
    by (cases "bit a (W - 1)"; cases "bit b (W - 1)")
       (simp_all only: sh shift_xor bit_xor_iff, simp_all add: ac_simps)
next
  fix c :: "'a word"
  assume f: "fits W c"
  have top: "bit (sh c) j \<longleftrightarrow> (bit (push_bit 1 c) j \<noteq> (bit c (W - 1) \<and> bit P j))" for j
    by (simp only: sh bit_xor_iff) simp
  show "fits W (sh c)"
    unfolding fits_def
  proof (intro allI impI)
    fix j assume j: "bit (sh c) j"
    then have jl: "j < LENGTH('a)" by (rule bit_imp_le_length)
    show "j < W"
    proof (rule ccontr)
      assume "\<not> j < W"
      then consider "j = W" | "W < j" by linarith
      then show False
      proof cases
        case 1
        then show False using j jl PW W unfolding top bit_push_1_iff by simp
      next
        case 2
        then show False using j Pj [of j] f unfolding top bit_push_1_iff fits_def by fastforce
      qed
    qed
  qed
  assume z: "sh c = 0"
  have "\<not> bit c (W - 1)" using top [of 0] z P0 unfolding bit_push_1_iff by auto
  then have nb: "\<not> bit (push_bit 1 c) j" for j using top [of j] z by auto
  have "\<not> bit c j" if "j < W" for j
  proof (cases "j = W - 1")
    case True
    then show ?thesis using \<open>\<not> bit c (W - 1)\<close> by simp
  next
    case False
    then show ?thesis using that W nb [of "Suc j"] bit_push_1_iff [of c "Suc j"] by simp
  qed
  then show "c = 0" using f by (auto simp: fits_def intro!: bit_word_eqI)
next
  fix k :: nat assume k: "Suc k < W"
  have "\<not> bit (push_bit (W - 1 - Suc k) 1 :: 'a word) (W - 1)"
    using k by (auto simp: bit_push_bit_iff bit_1_iff)
  then have "sh (push_bit (W - 1 - Suc k) 1) = push_bit 1 (push_bit (W - 1 - Suc k) 1)"
    by (simp only: sh) simp
  also have "\<dots> = push_bit (W - 1 - k) 1"
    using k by (simp only: push_bit_push_bit) (simp add: Suc_diff_Suc)
  finally show "sh (push_bit (W - 1 - Suc k) 1) = push_bit (W - 1 - k) 1" .
qed (use W in auto)

lemma sh32_reg: "crc_reg sh32 32 (\<lambda>k. k)"
proof
  fix a b :: u32
  show "sh32 (a XOR b) = sh32 a XOR sh32 b"
    by (cases "bit a 0"; cases "bit b 0")
       (simp_all only: sh32_alt unshift_xor bit_xor_iff, simp_all add: ac_simps)
next
  fix c :: u32
  show "fits 32 (sh32 c)"
    using bit_imp_le_length [of "sh32 c"] by (simp add: fits_def)
  assume z: "sh32 c = 0"
  have top: "bit (sh32 c) j \<longleftrightarrow> (bit c (Suc j) \<noteq> (bit c 0 \<and> bit POLYCRC32 j))" for j
    by (simp only: sh32_alt bit_xor_iff bit_drop_bit_eq) simp
  have "\<not> bit c 0"
    using top [of 31] z bit_poly32 bit_imp_le_length [of c 32] by auto
  moreover from this have "\<not> bit c (Suc j)" for j using top [of j] z by simp
  ultimately have "\<not> bit c j" for j by (cases j) auto
  then show "c = 0" by (intro bit_word_eqI) simp
next
  fix k :: nat assume k: "Suc k < 32"
  have "sh32 (push_bit m 1) = push_bit (m - 1) 1" if "0 < m" "m < 32" for m
    using that
    by (auto simp: sh32_alt bit_push_bit_iff bit_1_iff bit_drop_bit_eq bit_xor_iff
        intro!: bit_word_eqI)
  from this [of "Suc k"] k show "sh32 (push_bit (Suc k) 1) = push_bit k 1"
    by (simp del: push_bit_Suc)
qed auto

interpretation crc24: crc_reg sh24 24 "\<lambda>k. 23 - k"
  using crc_reg_left [of sh24 24 POLYCRC24Q] bit_poly24 sh24_alt by fastforce

interpretation crc16: crc_reg sh16 16 "\<lambda>k. 15 - k"
  using crc_reg_left [of sh16 16 POLYCRC16] bit_poly16 sh16_alt bit_imp_le_length [of POLYCRC16]
  by fastforce

interpretation crc32: crc_reg sh32 32 "\<lambda>k. k"
  by (rule sh32_reg)

section \<open>The code computes these registers over the bits of the message\<close>

definition byte_bits :: "u8 \<Rightarrow> bool list" where
  "byte_bits w = map (\<lambda>k. bit w (7 - k)) [0..<8]"

definition byte_bits_lsb :: "u8 \<Rightarrow> bool list" where
  "byte_bits_lsb w = map (bit w) [0..<8]"

definition msg_bits :: "u8 list \<Rightarrow> bool list" where
  "msg_bits bs = concat (map byte_bits bs)"

definition msg_bits_lsb :: "u8 list \<Rightarrow> bool list" where
  "msg_bits_lsb bs = concat (map byte_bits_lsb bs)"

lemma fold_const_funpow: "fold (\<lambda>_ c. f c) xs = f ^^ length xs"
  by (induction xs) (simp_all add: funpow_Suc_right del: funpow.simps)

lemma gen_crc24_sh: "gen_crc24 i = (sh24 ^^ 8) (push_bit 16 (of_nat i))"
  by (simp add: gen_crc24_def sh24_def [abs_def] fold_const_funpow)

lemma gen_crc16_sh: "gen_crc16 i = (sh16 ^^ 8) (push_bit 8 (of_nat i))"
  by (simp add: gen_crc16_def sh16_def [abs_def] fold_const_funpow)

lemma nth_byte_bits [simp]: "k < 8 \<Longrightarrow> byte_bits w ! k = bit w (7 - k)"
  and length_byte_bits [simp]: "length (byte_bits w) = 8"
  and nth_byte_bits_lsb [simp]: "k < 8 \<Longrightarrow> byte_bits_lsb w ! k = bit w k"
  and length_byte_bits_lsb [simp]: "length (byte_bits_lsb w) = 8"
  by (simp_all add: byte_bits_def byte_bits_lsb_def)

lemma bval24: "bval (\<lambda>k. 23 - k) 0 (byte_bits w) = (push_bit 16 (ucast w) :: u32)"
proof (rule bit_word_eqI)
  fix n
  show "bit (bval (\<lambda>k. 23 - k) 0 (byte_bits w) :: u32) n = bit (push_bit 16 (ucast w) :: u32) n"
  proof (cases "n < 24")
    case True
    have "bit (bval (\<lambda>k. 23 - k) 0 (byte_bits w) :: u32) (23 - (23 - n)) \<longleftrightarrow>
        23 - n < 8 \<and> byte_bits w ! (23 - n)"
      using crc24.bit_bval [of 0 "byte_bits w" "23 - n"] by simp
    then show ?thesis using True by (auto simp: bit_push_bit_iff bit_ucast_iff)
  next
    case False
    then show ?thesis
      using crc24.fits_bval [of 0 "byte_bits w"] bit_imp_le_length [of w "n - 16"]
      by (auto simp: fits_def bit_push_bit_iff bit_ucast_iff)
  qed
qed

lemma bval16: "bval (\<lambda>k. 15 - k) 0 (byte_bits w) = (push_bit 8 (ucast w) :: u16)"
proof (rule bit_word_eqI)
  fix n assume "n < LENGTH(16)"
  then have n: "n < 16" by simp
  have "bit (bval (\<lambda>k. 15 - k) 0 (byte_bits w) :: u16) (15 - (15 - n)) \<longleftrightarrow>
      15 - n < 8 \<and> byte_bits w ! (15 - n)"
    using crc16.bit_bval [of 0 "byte_bits w" "15 - n"] by simp
  then show "bit (bval (\<lambda>k. 15 - k) 0 (byte_bits w) :: u16) n = bit (push_bit 8 (ucast w) :: u16) n"
    using n by (auto simp: bit_push_bit_iff bit_ucast_iff)
qed

lemma bval32: "bval (\<lambda>k. k) 0 (byte_bits_lsb w) = (ucast w :: u32)"
proof (rule bit_word_eqI)
  fix n assume "n < LENGTH(32)"
  then show "bit (bval (\<lambda>k. k) 0 (byte_bits_lsb w) :: u32) n = bit (ucast w :: u32) n"
    using crc32.bit_bval [of 0 "byte_bits_lsb w" n] bit_imp_le_length [of w n]
    by (auto simp: bit_ucast_iff)
qed

lemma sh_pow_low:
  fixes sh :: "'a::len word \<Rightarrow> 'a word"
  assumes sh: "\<And>c. \<not> bit c (W - 1) \<Longrightarrow> sh c = push_bit 1 c" and "fits (W - n) c" and "n < W"
  shows "(sh ^^ n) c = push_bit n c"
  using assms(2,3)
proof (induction n)
  case (Suc n)
  then have "(sh ^^ n) c = push_bit n c" using fits_mono [of "W - Suc n" c "W - n"] by simp
  moreover have "\<not> bit (push_bit n c) (W - 1)"
    using Suc.prems by (auto simp: bit_push_bit_iff fits_def)
  ultimately have "(sh ^^ Suc n) c = push_bit 1 (push_bit n c)"
    using sh by (simp only: funpow.simps o_apply)
  then show ?case by (simp only: push_bit_push_bit plus_1_eq_Suc)
qed simp

text \<open>One table step of the code is eight shifts of the register.\<close>

lemma step24:
  assumes "fits 24 c"
  shows "(push_bit 8 c AND 0xFFFFFF) XOR tbl_CRC24Q ! unat (drop_bit 16 c XOR ucast (w :: u8)) =
    feeds sh24 23 (byte_bits w) c"
proof -
  define x where "x = drop_bit 16 c XOR ucast w"
  have fx: "fits 8 x"
    using assms bit_imp_le_length [of w]
    by (auto simp: x_def fits_def bit_xor_iff bit_drop_bit_eq bit_ucast_iff)
  have "x = take_bit 8 x"
    by (rule bit_word_eqI) (use fx in \<open>auto simp: bit_take_bit_iff fits_def\<close>)
  then have ux: "unat x < 256"
    using unsigned_take_bit_eq [of 8 x, where 'a = nat] take_bit_nat_less_exp [of 8 "unat x"]
    by simp
  have "tbl_CRC24Q ! unat x = gen_crc24 (unat x)"
    using ux by (simp add: gen_crc24_table [symmetric])
  then have t: "tbl_CRC24Q ! unat x = (sh24 ^^ 8) (push_bit 16 x)"
    by (simp add: gen_crc24_sh)
  have low: "(sh24 ^^ 8) (take_bit 16 c) = push_bit 8 (take_bit 16 c)"
    by (rule sh_pow_low [where W = 24]) (auto simp: sh24_alt fits_def bit_take_bit_iff)
  have sep: "push_bit 16 x XOR take_bit 16 c = c XOR push_bit 16 (ucast w)"
    unfolding x_def using assms
    by (intro bit_word_eqI)
       (auto simp: bit_xor_iff bit_push_bit_iff bit_drop_bit_eq bit_take_bit_iff bit_ucast_iff
         fits_def)
  have "push_bit 8 c AND 0xFFFFFF = push_bit 8 (take_bit 16 c)"
  proof -
    have "(0xFFFFFF :: u32) = mask 24" by (simp add: mask_eq_exp_minus_1)
    show ?thesis unfolding \<open>0xFFFFFF = mask 24\<close>
      by (intro bit_word_eqI) (auto simp: bit_and_iff bit_mask_iff bit_push_bit_iff bit_take_bit_iff)
  qed
  then have "(push_bit 8 c AND 0xFFFFFF) XOR tbl_CRC24Q ! unat x =
      (sh24 ^^ 8) (push_bit 16 x XOR take_bit 16 c)"
    unfolding crc24.funpow_xor t low by (simp add: xor.commute)
  also have "\<dots> = feeds sh24 23 (byte_bits w) c"
    using crc24.feeds_bval [of "byte_bits w" c] by (simp add: sep bval24)
  finally show ?thesis unfolding x_def .
qed

lemma fold_bytes:
  assumes "\<And>c w. ok c \<Longrightarrow> g c w = feeds sh p (bb w) c" and "\<And>c xs. ok c \<Longrightarrow> ok (feeds sh p xs c)"
    and "ok c" and "n \<le> length bs"
  shows "fold (\<lambda>i c. g c (bs ! i)) [0..<n] c = feeds sh p (concat (map bb (take n bs))) c"
  using assms(4)
proof (induction n)
  case (Suc n)
  then have "fold (\<lambda>i c. g c (bs ! i)) [0..<Suc n] c =
      g (feeds sh p (concat (map bb (take n bs))) c) (bs ! n)" by simp
  also have "\<dots> = feeds sh p (bb (bs ! n)) (feeds sh p (concat (map bb (take n bs))) c)"
    using assms(1) [OF assms(2) [OF assms(3)]] .
  also have "\<dots> = feeds sh p (concat (map bb (take (Suc n) bs))) c"
    using Suc.prems by (simp add: take_Suc_conv_app_nth feeds_append)
  finally show ?case .
qed simp

lemma feeds_fits24: "fits 24 c \<Longrightarrow> fits 24 (feeds sh24 23 xs c)"
proof (induction xs arbitrary: c)
  case (Cons x xs)
  have "fits 24 (feed sh24 23 x c)"
    unfolding feed_def using Cons.prems
    by (intro crc24.sh_fits fits_xor) (simp_all add: fits_push_1)
  with Cons.IH show ?case by simp
qed simp

lemma step16:
  "push_bit 8 c XOR tbl_CRC16 ! unat ((drop_bit 8 c XOR ucast (w :: u8)) AND 0xFF) =
    feeds sh16 15 (byte_bits w) c"
proof -
  define x where "x = drop_bit 8 c XOR ucast w"
  have fx: "fits 8 x"
    using bit_imp_le_length [of w] bit_imp_le_length [of c]
    by (fastforce simp: x_def fits_def bit_xor_iff bit_drop_bit_eq bit_ucast_iff)
  have "x = take_bit 8 x"
    by (rule bit_word_eqI) (use fx in \<open>auto simp: bit_take_bit_iff fits_def\<close>)
  then have ux: "unat x < 256"
    using unsigned_take_bit_eq [of 8 x, where 'a = nat] take_bit_nat_less_exp [of 8 "unat x"]
    by simp
  have x255: "x AND 0xFF = x"
  proof -
    have "(0xFF :: u16) = mask 8" by (simp add: mask_eq_exp_minus_1)
    then show ?thesis using \<open>x = take_bit 8 x\<close> by (simp add: take_bit_eq_mask)
  qed
  have "tbl_CRC16 ! unat x = gen_crc16 (unat x)"
    using ux by (simp add: gen_crc16_table [symmetric])
  then have t: "tbl_CRC16 ! unat x = (sh16 ^^ 8) (push_bit 8 x)"
    by (simp add: gen_crc16_sh)
  have low: "(sh16 ^^ 8) (take_bit 8 c) = push_bit 8 (take_bit 8 c)"
    by (rule sh_pow_low [where W = 16]) (auto simp: sh16_alt fits_def bit_take_bit_iff)
  have sep: "push_bit 8 x XOR take_bit 8 c = c XOR push_bit 8 (ucast w)"
    unfolding x_def
    by (intro bit_word_eqI)
       (auto simp: bit_xor_iff bit_push_bit_iff bit_drop_bit_eq bit_take_bit_iff bit_ucast_iff)
  have "push_bit 8 c = push_bit 8 (take_bit 8 c)"
    by (intro bit_word_eqI) (auto simp: bit_push_bit_iff bit_take_bit_iff)
  then have "push_bit 8 c XOR tbl_CRC16 ! unat x = (sh16 ^^ 8) (push_bit 8 x XOR take_bit 8 c)"
    unfolding crc16.funpow_xor t low by (simp add: xor.commute)
  also have "\<dots> = feeds sh16 15 (byte_bits w) c"
    using crc16.feeds_bval [of "byte_bits w" c] by (simp add: sep bval16)
  finally show ?thesis unfolding x_def [symmetric] x255 .
qed

lemma step32:
  "fold (\<lambda>j c. if c AND 1 \<noteq> 0 then drop_bit 1 c XOR POLYCRC32 else drop_bit 1 c) [0..<8::nat]
     (c XOR ucast (w :: u8)) = feeds sh32 0 (byte_bits_lsb w) c"
proof -
  have "fold (\<lambda>j c. if c AND 1 \<noteq> 0 then drop_bit 1 c XOR POLYCRC32 else drop_bit 1 c) [0..<8::nat] =
      sh32 ^^ 8"
    by (simp add: sh32_def [abs_def] fold_const_funpow)
  then show ?thesis
    using crc32.feeds_bval [of "byte_bits_lsb w" c] by (simp add: bval32)
qed

lemma rtk_crc24q_register:
  "n \<le> length b \<Longrightarrow> rtk_crc24q b n = feeds sh24 23 (msg_bits (take n b)) 0"
  unfolding rtk_crc24q_def msg_bits_def
  by (rule fold_bytes [where ok = "fits 24"]) (simp_all add: step24 feeds_fits24)

lemma rtk_crc16_register:
  "n \<le> length b \<Longrightarrow> rtk_crc16 b n = feeds sh16 15 (msg_bits (take n b)) 0"
  unfolding rtk_crc16_def msg_bits_def
  by (rule fold_bytes [where ok = "\<lambda>_. True"]) (simp_all add: step16)

lemma rtk_crc32_register:
  "n \<le> length b \<Longrightarrow> rtk_crc32 b n = feeds sh32 0 (msg_bits_lsb (take n b)) 0"
  unfolding rtk_crc32_def msg_bits_lsb_def
  by (rule fold_bytes [where ok = "\<lambda>_. True"]) (simp_all add: step32)

section \<open>Burst errors are detected\<close>

lemma length_msg_bits [simp]: "length (msg_bits bs) = 8 * length bs"
  and length_msg_bits_lsb [simp]: "length (msg_bits_lsb bs) = 8 * length bs"
  by (induction bs) (simp_all add: msg_bits_def msg_bits_lsb_def)

lemma nth_concat_uniform:
  assumes "\<And>w. length (f w) = 8" and "i < 8 * length bs"
  shows "concat (map f bs) ! i = f (bs ! (i div 8)) ! (i mod 8)"
  using assms(2)
proof (induction bs arbitrary: i)
  case (Cons b bs)
  show ?case
  proof (cases "i < 8")
    case True
    then show ?thesis by (simp add: nth_append assms(1))
  next
    case False
    then have "concat (map f bs) ! (i - 8) = f (bs ! ((i - 8) div 8)) ! ((i - 8) mod 8)"
      using Cons.prems by (intro Cons.IH) auto
    moreover have "i div 8 = Suc ((i - 8) div 8)" "i mod 8 = (i - 8) mod 8"
      using False by (simp_all add: le_div_geq le_mod_geq)
    ultimately show ?thesis using False by (simp add: nth_append assms(1))
  qed
qed simp

lemma nth_msg_bits: "i < 8 * length bs \<Longrightarrow> msg_bits bs ! i = bufbit bs i"
  by (simp add: msg_bits_def nth_concat_uniform bufbit_def)

lemma byte_bits_inj: "byte_bits v = byte_bits w \<Longrightarrow> v = w"
proof (rule bit_word_eqI)
  fix n assume eq: "byte_bits v = byte_bits w" and "n < LENGTH(8)"
  then have "byte_bits v ! (7 - n) = byte_bits w ! (7 - n)" "n < 8" by simp_all
  then show "bit v n = bit w n" by simp
qed

lemma msg_bits_inj: "length v = length w \<Longrightarrow> msg_bits v = msg_bits w \<Longrightarrow> v = w"
proof (induction v w rule: list_induct2)
  case (Cons x xs y ys)
  then show ?case by (simp add: msg_bits_def byte_bits_inj)
qed simp

text \<open>The bits of two buffers agree outside a window of \<open>w\<close> bits from bit \<open>k\<close>.\<close>

definition differ_within :: "nat \<Rightarrow> nat \<Rightarrow> nat \<Rightarrow> u8 list \<Rightarrow> u8 list \<Rightarrow> bool" where
  "differ_within k w n a b \<longleftrightarrow>
     take n a \<noteq> take n b \<and>
     (\<forall>i < 8 * n. (i < k \<or> k + w \<le> i) \<longrightarrow> bufbit a i = bufbit b i)"

lemma differ_byte:
  assumes "j < n" and "n \<le> length b" and "b ! j \<noteq> w" and "8 \<le> m"
  shows "differ_within (8 * j) m n b (b[j := w])"
proof -
  have "take n b ! j \<noteq> take n (b[j := w]) ! j" using assms by simp
  then have "take n b \<noteq> take n (b[j := w])" by metis
  moreover have "bufbit b i = bufbit (b[j := w]) i" if "i < 8 * j \<or> 8 * j + m \<le> i" for i
  proof -
    have "i div 8 \<noteq> j" using that assms(4) by auto
    then show ?thesis by (simp add: bufbit_def)
  qed
  ultimately show ?thesis unfolding differ_within_def by blast
qed

lemma differ_within_bits:
  assumes "differ_within k w n a b" and n: "n \<le> length a" "n \<le> length b"
  shows "length (msg_bits (take n a)) = length (msg_bits (take n b))"
    and "msg_bits (take n a) \<noteq> msg_bits (take n b)"
    and "take k (msg_bits (take n a)) = take k (msg_bits (take n b))"
    and "drop (k + w) (msg_bits (take n a)) = drop (k + w) (msg_bits (take n b))"
proof -
  have nth: "msg_bits (take n c) ! i = bufbit c i" if "i < 8 * n" "n \<le> length c" for i c
  proof -
    have "i div 8 < n" using that(1) by linarith
    then show ?thesis using that by (simp add: nth_msg_bits) (simp add: bufbit_def)
  qed
  show "length (msg_bits (take n a)) = length (msg_bits (take n b))" using n by simp
  show "msg_bits (take n a) \<noteq> msg_bits (take n b)"
    using assms msg_bits_inj [of "take n a" "take n b"] by (auto simp: differ_within_def)
  have ag: "bufbit a i = bufbit b i" if "i < 8 * n" "i < k \<or> k + w \<le> i" for i
    using assms(1) that unfolding differ_within_def by blast
  show "take k (msg_bits (take n a)) = take k (msg_bits (take n b))"
    by (rule nth_equalityI) (use n ag nth in auto)
  show "drop (k + w) (msg_bits (take n a)) = drop (k + w) (msg_bits (take n b))"
    by (rule nth_equalityI) (use n ag nth in \<open>auto simp: less_diff_conv add.commute\<close>)
qed

lemma crc24_burst:
  assumes "differ_within k 24 n a b" and "n \<le> length a" and "n \<le> length b"
  shows "rtk_crc24q a n \<noteq> rtk_crc24q b n"
  using crc24.burst_detected [OF differ_within_bits [OF assms]] assms(2,3)
  by (simp add: rtk_crc24q_register)

lemma crc16_burst:
  assumes "differ_within k 16 n a b" and "n \<le> length a" and "n \<le> length b"
  shows "rtk_crc16 a n \<noteq> rtk_crc16 b n"
  using crc16.burst_detected [OF differ_within_bits [OF assms]] assms(2,3)
  by (simp add: rtk_crc16_register)

lemma fits_crc24: "n \<le> length b \<Longrightarrow> fits 24 (rtk_crc24q b n)"
  by (simp add: rtk_crc24q_register feeds_fits24)

end
