(* ===== verification/SatSys.thy ===== *)
theory SatSys
  imports NavPrelude
begin

text \<open>
  Satellite numbering of \<^verbatim>\<open>rtkcmn.c\<close>: systems with their PRN or slot numbers, the dense satellite
  numbers 1 to \<open>MAXSAT\<close> that index every table of the program, and the textual ids.
  The constants are those of \<^verbatim>\<open>rtklib.h\<close> with its \<^verbatim>\<open>ENAGLO\<close>, \<^verbatim>\<open>ENAGAL\<close>, \<^verbatim>\<open>ENAQZS\<close>,
  \<^verbatim>\<open>ENACMP\<close> and \<^verbatim>\<open>ENAIRN\<close> switched on and \<^verbatim>\<open>ENALEO\<close> off.
\<close>

section \<open>Constants\<close>

abbreviation (input) SYS_NONE :: int where "SYS_NONE \<equiv> 0x00"
abbreviation (input) SYS_GPS :: int where "SYS_GPS \<equiv> 0x01"
abbreviation (input) SYS_SBS :: int where "SYS_SBS \<equiv> 0x02"
abbreviation (input) SYS_GLO :: int where "SYS_GLO \<equiv> 0x04"
abbreviation (input) SYS_GAL :: int where "SYS_GAL \<equiv> 0x08"
abbreviation (input) SYS_QZS :: int where "SYS_QZS \<equiv> 0x10"
abbreviation (input) SYS_CMP :: int where "SYS_CMP \<equiv> 0x20"
abbreviation (input) SYS_IRN :: int where "SYS_IRN \<equiv> 0x40"
abbreviation (input) SYS_LEO :: int where "SYS_LEO \<equiv> 0x80"

abbreviation (input) MINPRNGPS :: int where "MINPRNGPS \<equiv> 1"
abbreviation (input) MAXPRNGPS :: int where "MAXPRNGPS \<equiv> 32"
abbreviation (input) NSATGPS :: int where "NSATGPS \<equiv> 32"
abbreviation (input) MINPRNGLO :: int where "MINPRNGLO \<equiv> 1"
abbreviation (input) MAXPRNGLO :: int where "MAXPRNGLO \<equiv> 27"
abbreviation (input) NSATGLO :: int where "NSATGLO \<equiv> 27"
abbreviation (input) MINPRNGAL :: int where "MINPRNGAL \<equiv> 1"
abbreviation (input) MAXPRNGAL :: int where "MAXPRNGAL \<equiv> 36"
abbreviation (input) NSATGAL :: int where "NSATGAL \<equiv> 36"
abbreviation (input) MINPRNQZS :: int where "MINPRNQZS \<equiv> 193"
abbreviation (input) MAXPRNQZS :: int where "MAXPRNQZS \<equiv> 202"
abbreviation (input) NSATQZS :: int where "NSATQZS \<equiv> 10"
abbreviation (input) MINPRNCMP :: int where "MINPRNCMP \<equiv> 1"
abbreviation (input) MAXPRNCMP :: int where "MAXPRNCMP \<equiv> 63"
abbreviation (input) NSATCMP :: int where "NSATCMP \<equiv> 63"
abbreviation (input) MINPRNIRN :: int where "MINPRNIRN \<equiv> 1"
abbreviation (input) MAXPRNIRN :: int where "MAXPRNIRN \<equiv> 14"
abbreviation (input) NSATIRN :: int where "NSATIRN \<equiv> 14"
abbreviation (input) MINPRNLEO :: int where "MINPRNLEO \<equiv> 0"
abbreviation (input) MAXPRNLEO :: int where "MAXPRNLEO \<equiv> 0"
abbreviation (input) NSATLEO :: int where "NSATLEO \<equiv> 0"
abbreviation (input) MINPRNSBS :: int where "MINPRNSBS \<equiv> 120"
abbreviation (input) MAXPRNSBS :: int where "MAXPRNSBS \<equiv> 158"
abbreviation (input) NSATSBS :: int where "NSATSBS \<equiv> 39"
abbreviation (input) MAXSAT :: int where "MAXSAT \<equiv> 221"

section \<open>Satellite numbers\<close>

definition satno :: "int \<Rightarrow> int \<Rightarrow> int" where
  "satno sys prn =
    (if prn \<le> 0 then 0
     else if sys = SYS_GPS then
       (if prn < MINPRNGPS \<or> MAXPRNGPS < prn then 0 else prn - MINPRNGPS + 1)
     else if sys = SYS_GLO then
       (if prn < MINPRNGLO \<or> MAXPRNGLO < prn then 0 else NSATGPS + prn - MINPRNGLO + 1)
     else if sys = SYS_GAL then
       (if prn < MINPRNGAL \<or> MAXPRNGAL < prn then 0 else NSATGPS + NSATGLO + prn - MINPRNGAL + 1)
     else if sys = SYS_QZS then
       (if prn < MINPRNQZS \<or> MAXPRNQZS < prn then 0
        else NSATGPS + NSATGLO + NSATGAL + prn - MINPRNQZS + 1)
     else if sys = SYS_CMP then
       (if prn < MINPRNCMP \<or> MAXPRNCMP < prn then 0
        else NSATGPS + NSATGLO + NSATGAL + NSATQZS + prn - MINPRNCMP + 1)
     else if sys = SYS_IRN then
       (if prn < MINPRNIRN \<or> MAXPRNIRN < prn then 0
        else NSATGPS + NSATGLO + NSATGAL + NSATQZS + NSATCMP + prn - MINPRNIRN + 1)
     else if sys = SYS_LEO then
       (if prn < MINPRNLEO \<or> MAXPRNLEO < prn then 0
        else NSATGPS + NSATGLO + NSATGAL + NSATQZS + NSATCMP + NSATIRN + prn - MINPRNLEO + 1)
     else if sys = SYS_SBS then
       (if prn < MINPRNSBS \<or> MAXPRNSBS < prn then 0
        else NSATGPS + NSATGLO + NSATGAL + NSATQZS + NSATCMP + NSATIRN + NSATLEO
             + prn - MINPRNSBS + 1)
     else 0)"

text \<open>\<open>satsys\<close> returns the system and, through its pointer argument, the PRN.\<close>

definition satsys :: "int \<Rightarrow> int \<times> int" where
  "satsys sat =
    (if sat \<le> 0 \<or> MAXSAT < sat then (SYS_NONE, 0)
     else if sat \<le> NSATGPS then (SYS_GPS, sat + MINPRNGPS - 1)
     else let sat = sat - NSATGPS in if sat \<le> NSATGLO then (SYS_GLO, sat + MINPRNGLO - 1)
     else let sat = sat - NSATGLO in if sat \<le> NSATGAL then (SYS_GAL, sat + MINPRNGAL - 1)
     else let sat = sat - NSATGAL in if sat \<le> NSATQZS then (SYS_QZS, sat + MINPRNQZS - 1)
     else let sat = sat - NSATQZS in if sat \<le> NSATCMP then (SYS_CMP, sat + MINPRNCMP - 1)
     else let sat = sat - NSATCMP in if sat \<le> NSATIRN then (SYS_IRN, sat + MINPRNIRN - 1)
     else let sat = sat - NSATIRN in if sat \<le> NSATLEO then (SYS_LEO, sat + MINPRNLEO - 1)
     else let sat = sat - NSATLEO in if sat \<le> NSATSBS then (SYS_SBS, sat + MINPRNSBS - 1)
     else (SYS_NONE, 0))"

section \<open>C strings\<close>

text \<open>Character \<open>i\<close> of a C string: the terminator stands after the last character.\<close>

definition cch :: "string \<Rightarrow> nat \<Rightarrow> char" where
  "cch s i = (if i < length s then s ! i else CHR 0x00)"

definition c_isspace :: "char \<Rightarrow> bool" where
  "c_isspace c \<longleftrightarrow> c \<in> {CHR '' '', CHR 0x09, CHR 0x0A, CHR 0x0B, CHR 0x0C, CHR 0x0D}"

definition c_isdigit :: "char \<Rightarrow> bool" where
  "c_isdigit c \<longleftrightarrow> 48 \<le> (of_char c :: nat) \<and> (of_char c :: nat) \<le> 57"

definition digit_val :: "char \<Rightarrow> int" where
  "digit_val c = of_char c - 48"

text \<open>The value of a run of digits, and the conversion \<open>%d\<close> of \<open>sscanf\<close>: white space is
  skipped, a sign is optional, at least one digit is needed.\<close>

definition digits_val :: "string \<Rightarrow> int" where
  "digits_val s = fold (\<lambda>c v. 10 * v + digit_val c) s 0"

definition scan_d :: "string \<Rightarrow> (int \<times> string) option" where
  "scan_d s =
     (let s = dropWhile c_isspace s;
          neg = (cch s 0 = CHR ''-'');
          s = (if neg \<or> cch s 0 = CHR ''+'' then tl s else s);
          ds = takeWhile c_isdigit s
      in if ds = [] then None
         else Some (if neg then - digits_val ds else digits_val ds, dropWhile c_isdigit s))"

text \<open>The conversion \<open>%d\<close> of \<open>sprintf\<close> for a number that is not negative, padded with
  zeros to a width.\<close>

definition digit_char :: "nat \<Rightarrow> char" where
  "digit_char d = char_of (48 + d)"

fun dec :: "nat \<Rightarrow> string" where
  "dec n = (if n < 10 then [digit_char n] else dec (n div 10) @ [digit_char (n mod 10)])"

declare dec.simps [simp del]

definition print_0d :: "nat \<Rightarrow> int \<Rightarrow> string" where
  "print_0d w n = (let s = dec (nat n) in replicate (w - length s) (CHR ''0'') @ s)"

section \<open>Satellite ids\<close>

definition satid2no :: "string \<Rightarrow> int" where
  "satid2no s =
    (case scan_d s of
       Some (prn, _) \<Rightarrow>
         (if MINPRNGPS \<le> prn \<and> prn \<le> MAXPRNGPS then satno SYS_GPS prn
          else if MINPRNSBS \<le> prn \<and> prn \<le> MAXPRNSBS then satno SYS_SBS prn
          else if MINPRNQZS \<le> prn \<and> prn \<le> MAXPRNQZS then satno SYS_QZS prn
          else 0)
     | None \<Rightarrow>
         (case s of [] \<Rightarrow> 0
          | code # rest \<Rightarrow>
            (case scan_d rest of None \<Rightarrow> 0
             | Some (prn, _) \<Rightarrow>
                 (if code = CHR ''G'' then satno SYS_GPS (prn + MINPRNGPS - 1)
                  else if code = CHR ''R'' then satno SYS_GLO (prn + MINPRNGLO - 1)
                  else if code = CHR ''E'' then satno SYS_GAL (prn + MINPRNGAL - 1)
                  else if code = CHR ''J'' then satno SYS_QZS (prn + MINPRNQZS - 1)
                  else if code = CHR ''C'' then satno SYS_CMP (prn + MINPRNCMP - 1)
                  else if code = CHR ''I'' then satno SYS_IRN (prn + MINPRNIRN - 1)
                  else if code = CHR ''L'' then satno SYS_LEO (prn + MINPRNLEO - 1)
                  else if code = CHR ''S'' then satno SYS_SBS (prn + 100)
                  else 0))))"

definition satno2id :: "int \<Rightarrow> string" where
  "satno2id sat =
    (case satsys sat of (sys, prn) \<Rightarrow>
      (if sys = SYS_GPS then CHR ''G'' # print_0d 2 (prn - MINPRNGPS + 1)
       else if sys = SYS_GLO then CHR ''R'' # print_0d 2 (prn - MINPRNGLO + 1)
       else if sys = SYS_GAL then CHR ''E'' # print_0d 2 (prn - MINPRNGAL + 1)
       else if sys = SYS_QZS then CHR ''J'' # print_0d 2 (prn - MINPRNQZS + 1)
       else if sys = SYS_CMP then CHR ''C'' # print_0d 2 (prn - MINPRNCMP + 1)
       else if sys = SYS_IRN then CHR ''I'' # print_0d 2 (prn - MINPRNIRN + 1)
       else if sys = SYS_LEO then CHR ''L'' # print_0d 2 (prn - MINPRNLEO + 1)
       else if sys = SYS_SBS then print_0d 3 prn
       else []))"

section \<open>Numbers and systems correspond\<close>

lemma satno_bounds: "0 \<le> satno sys prn \<and> satno sys prn \<le> MAXSAT"
  by (simp add: satno_def)

lemma satno_pos_bounds: "satno sys prn \<noteq> 0 \<Longrightarrow> 1 \<le> satno sys prn \<and> satno sys prn \<le> MAXSAT"
  using satno_bounds [of sys prn] by linarith

lemma satno_nat_index: "satno sys prn \<noteq> 0 \<Longrightarrow> nat (satno sys prn - 1) < 221"
  using satno_pos_bounds [of sys prn] by linarith

lemma satno_cases:
  assumes "satno sys prn \<noteq> 0"
  obtains
    "sys = SYS_GPS" "1 \<le> prn" "prn \<le> 32" "satno sys prn = prn"
  | "sys = SYS_GLO" "1 \<le> prn" "prn \<le> 27" "satno sys prn = prn + 32"
  | "sys = SYS_GAL" "1 \<le> prn" "prn \<le> 36" "satno sys prn = prn + 59"
  | "sys = SYS_QZS" "193 \<le> prn" "prn \<le> 202" "satno sys prn = prn - 97"
  | "sys = SYS_CMP" "1 \<le> prn" "prn \<le> 63" "satno sys prn = prn + 105"
  | "sys = SYS_IRN" "1 \<le> prn" "prn \<le> 14" "satno sys prn = prn + 168"
  | "sys = SYS_SBS" "120 \<le> prn" "prn \<le> 158" "satno sys prn = prn + 63"
proof -
  have pos: "1 \<le> prn" using assms by (cases "prn \<le> 0") (simp_all add: satno_def)
  consider "sys = SYS_GPS" | "sys = SYS_GLO" | "sys = SYS_GAL" | "sys = SYS_QZS" | "sys = SYS_CMP"
    | "sys = SYS_IRN" | "sys = SYS_LEO" | "sys = SYS_SBS"
    using assms unfolding satno_def by presburger
  then show thesis
    using assms pos that by cases (simp_all add: satno_def split: if_split_asm)
qed

lemma satsys_alt:
  "satsys sat =
    (if sat \<le> 0 \<or> 221 < sat then (SYS_NONE, 0)
     else if sat \<le> 32 then (SYS_GPS, sat) else if sat \<le> 59 then (SYS_GLO, sat - 32)
     else if sat \<le> 95 then (SYS_GAL, sat - 59) else if sat \<le> 105 then (SYS_QZS, sat + 97)
     else if sat \<le> 168 then (SYS_CMP, sat - 105) else if sat \<le> 182 then (SYS_IRN, sat - 168)
     else (SYS_SBS, sat - 63))"
  by (simp add: satsys_def Let_def)

lemma satsys_satno: "satno sys prn \<noteq> 0 \<Longrightarrow> satsys (satno sys prn) = (sys, prn)"
  by (erule satno_cases) (simp_all add: satsys_alt)

lemma satsys_cases:
  assumes "1 \<le> sat" and "sat \<le> MAXSAT"
  obtains
    "satsys sat = (SYS_GPS, sat)" "sat \<le> 32"
  | "satsys sat = (SYS_GLO, sat - 32)" "32 < sat" "sat \<le> 59"
  | "satsys sat = (SYS_GAL, sat - 59)" "59 < sat" "sat \<le> 95"
  | "satsys sat = (SYS_QZS, sat + 97)" "95 < sat" "sat \<le> 105"
  | "satsys sat = (SYS_CMP, sat - 105)" "105 < sat" "sat \<le> 168"
  | "satsys sat = (SYS_IRN, sat - 168)" "168 < sat" "sat \<le> 182"
  | "satsys sat = (SYS_SBS, sat - 63)" "182 < sat"
proof -
  consider "sat \<le> 32" | "32 < sat" "sat \<le> 59" | "59 < sat" "sat \<le> 95" | "95 < sat" "sat \<le> 105"
    | "105 < sat" "sat \<le> 168" | "168 < sat" "sat \<le> 182" | "182 < sat"
    by linarith
  then show thesis using assms that by cases (simp_all add: satsys_alt)
qed

lemma satno_satsys:
  assumes "1 \<le> sat" and "sat \<le> MAXSAT" and "satsys sat = (sys, prn)"
  shows "satno sys prn = sat"
  by (rule satsys_cases [OF assms(1,2)]) (use assms in \<open>auto simp: satno_def\<close>)

lemma satno_inj:
  "satno sys prn = satno sys' prn' \<Longrightarrow> satno sys prn \<noteq> 0 \<Longrightarrow> sys = sys' \<and> prn = prn'"
  by (metis satsys_satno prod.inject)

section \<open>Ids are read back\<close>

lemma nat_digit_char: "d < 10 \<Longrightarrow> (of_char (digit_char d) :: nat) = 48 + d"
proof -
  assume "d < 10"
  then have "(48 + d) mod 256 = 48 + d" by (intro mod_less) linarith
  then show ?thesis unfolding digit_char_def by (rule trans [OF of_char_of])
qed

lemma int_of_char: "(of_char c :: int) = int (of_char c)"
  unfolding of_char_def by (simp add: horner_sum_of_bool_2_less)

lemma c_isdigit_digit [simp]: "d < 10 \<Longrightarrow> c_isdigit (digit_char d)"
  unfolding c_isdigit_def nat_digit_char by simp

lemma digit_val_digit [simp]: "d < 10 \<Longrightarrow> digit_val (digit_char d) = int d"
  unfolding digit_val_def int_of_char nat_digit_char by simp

lemma digits_val_append: "digits_val (xs @ [c]) = 10 * digits_val xs + digit_val c"
  by (simp add: digits_val_def)

lemma dec_digits: "list_all c_isdigit (dec n)" and dec_nonempty: "dec n \<noteq> []"
  and digits_val_dec: "digits_val (dec n) = int n"
proof (induction n rule: dec.induct)
  case (1 n)
  case 1 show ?case using "1.IH" by (subst dec.simps) auto
  case 2 show ?case by (subst dec.simps) auto
  case 3 show ?case
  proof (cases "n < 10")
    case True
    then show ?thesis by (subst dec.simps) (simp add: digits_val_def)
  next
    case False
    then have "digits_val (dec n) = 10 * int (n div 10) + int (n mod 10)"
      using "1.IH" by (subst dec.simps) (simp add: digits_val_append)
    then show ?thesis by (simp add: of_nat_div of_nat_mod)
  qed
qed

lemma digits_val_zeros: "digits_val (replicate k (CHR ''0'') @ s) = digits_val s"
proof -
  have "fold (\<lambda>c v. 10 * v + digit_val c) (replicate k (CHR ''0'')) 0 = 0"
    by (induction k) (simp_all add: digit_val_def)
  then show ?thesis by (simp add: digits_val_def)
qed

lemma scan_d_print:
  assumes "0 \<le> n"
  shows "scan_d (print_0d w n) = Some (n, [])"
proof -
  define s where "s = print_0d w n"
  have d: "list_all c_isdigit s" "s \<noteq> []"
    using dec_digits [of "nat n"] dec_nonempty [of "nat n"]
    by (auto simp: s_def print_0d_def Let_def list_all_iff c_isdigit_def)
  have v: "digits_val s = n"
    using assms by (simp add: s_def print_0d_def Let_def digits_val_zeros digits_val_dec)
  obtain c t where s: "s = c # t" using d(2) by (cases s) auto
  have c: "\<not> c_isspace c" "c \<noteq> CHR ''-''" "c \<noteq> CHR ''+''"
    using d(1) unfolding s by (auto simp: c_isdigit_def c_isspace_def)
  have "takeWhile c_isdigit s = s" "dropWhile c_isdigit s = []"
    using d(1) by (simp_all add: list_all_iff)
  then show ?thesis
    using c v unfolding scan_d_def s_def [symmetric] Let_def by (simp add: s cch_def)
qed

lemma scan_d_letter:
  "\<not> c_isspace c \<Longrightarrow> \<not> c_isdigit c \<Longrightarrow> c \<noteq> CHR ''-'' \<Longrightarrow> c \<noteq> CHR ''+'' \<Longrightarrow> scan_d (c # s) = None"
  by (simp add: scan_d_def cch_def)

lemma satid2no_letter:
  assumes "\<not> c_isspace c" and "\<not> c_isdigit c" and "c \<noteq> CHR ''-''" and "c \<noteq> CHR ''+''" and "0 \<le> n"
  shows "satid2no (c # print_0d 2 n) =
    (if c = CHR ''G'' then satno SYS_GPS (n + MINPRNGPS - 1)
     else if c = CHR ''R'' then satno SYS_GLO (n + MINPRNGLO - 1)
     else if c = CHR ''E'' then satno SYS_GAL (n + MINPRNGAL - 1)
     else if c = CHR ''J'' then satno SYS_QZS (n + MINPRNQZS - 1)
     else if c = CHR ''C'' then satno SYS_CMP (n + MINPRNCMP - 1)
     else if c = CHR ''I'' then satno SYS_IRN (n + MINPRNIRN - 1)
     else if c = CHR ''L'' then satno SYS_LEO (n + MINPRNLEO - 1)
     else if c = CHR ''S'' then satno SYS_SBS (n + 100)
     else 0)"
  using assms by (simp add: satid2no_def scan_d_letter scan_d_print)

lemma satid2no_satno2id:
  assumes "1 \<le> sat" and "sat \<le> MAXSAT"
  shows "satid2no (satno2id sat) = sat"
proof -
  have l: "\<not> c_isspace c \<and> \<not> c_isdigit c \<and> c \<noteq> CHR ''-'' \<and> c \<noteq> CHR ''+''"
    if "c \<in> set ''GREJCI''" for c
    using that by (auto simp: c_isspace_def c_isdigit_def)
  show ?thesis using assms
  proof (cases sat rule: satsys_cases)
    case 7
    then show ?thesis using assms by (simp add: satno2id_def satid2no_def scan_d_print satno_def)
  qed (use assms l in \<open>simp_all add: satno2id_def satid2no_letter satno_def\<close>)
qed

end
