(* ===== verification/ObsCode.thy ===== *)
theory ObsCode
  imports SatSys
begin

text \<open>
  Observation codes of \<^verbatim>\<open>rtkcmn.c\<close>: the code table, the map of a code to a carrier frequency
  and a frequency index for each system, and the code priorities.  A carrier map returns the
  frequency index and the frequency together, \<open>None\<close> where the code returns -1 and leaves
  the frequency alone.  The table of priorities is a global that \<open>setcodepri\<close> overwrites; here
  it is an argument of the operations, with the initial value \<open>codepris\<close>.
\<close>

section \<open>Constants and tables\<close>

abbreviation (input) NFREQ :: nat where "NFREQ \<equiv> 5"
abbreviation (input) NEXOBS :: nat where "NEXOBS \<equiv> 6"
abbreviation (input) MAXFREQ :: nat where "MAXFREQ \<equiv> 7"
abbreviation (input) MAXCODE :: nat where "MAXCODE \<equiv> 68"

definition FREQ1 :: double where "FREQ1 = 1575420000"
definition FREQ2 :: double where "FREQ2 = 1227600000"
definition FREQ5 :: double where "FREQ5 = 1176450000"
definition FREQ6 :: double where "FREQ6 = 1278750000"
definition FREQ7 :: double where "FREQ7 = 1207140000"
definition FREQ8 :: double where "FREQ8 = 1191795000"
definition FREQ9 :: double where "FREQ9 = 2492028000"
definition FREQ1_GLO :: double where "FREQ1_GLO = 1602000000"
definition DFRQ1_GLO :: double where "DFRQ1_GLO = 562500"
definition FREQ2_GLO :: double where "FREQ2_GLO = 1246000000"
definition DFRQ2_GLO :: double where "DFRQ2_GLO = 437500"
definition FREQ3_GLO :: double where "FREQ3_GLO = 1202025000"
definition FREQ1a_GLO :: double where "FREQ1a_GLO = 1600995000"
definition FREQ2a_GLO :: double where "FREQ2a_GLO = 1248060000"
definition FREQ1_CMP :: double where "FREQ1_CMP = 1561098000"
definition FREQ2_CMP :: double where "FREQ2_CMP = 1207140000"
definition FREQ3_CMP :: double where "FREQ3_CMP = 1268520000"

lemmas freq_defs = FREQ1_def FREQ2_def FREQ5_def FREQ6_def FREQ7_def FREQ8_def FREQ9_def
  FREQ1_GLO_def DFRQ1_GLO_def FREQ2_GLO_def DFRQ2_GLO_def FREQ3_GLO_def FREQ1a_GLO_def
  FREQ2a_GLO_def FREQ1_CMP_def FREQ2_CMP_def FREQ3_CMP_def

abbreviation (input) CODE_NONE :: nat where "CODE_NONE \<equiv> 0"
abbreviation (input) CODE_L1C :: nat where "CODE_L1C \<equiv> 1"
abbreviation (input) CODE_L1P :: nat where "CODE_L1P \<equiv> 2"
abbreviation (input) CODE_L1W :: nat where "CODE_L1W \<equiv> 3"
abbreviation (input) CODE_L1Y :: nat where "CODE_L1Y \<equiv> 4"
abbreviation (input) CODE_L1M :: nat where "CODE_L1M \<equiv> 5"
abbreviation (input) CODE_L1N :: nat where "CODE_L1N \<equiv> 6"
abbreviation (input) CODE_L1S :: nat where "CODE_L1S \<equiv> 7"
abbreviation (input) CODE_L1L :: nat where "CODE_L1L \<equiv> 8"
abbreviation (input) CODE_L1E :: nat where "CODE_L1E \<equiv> 9"
abbreviation (input) CODE_L1A :: nat where "CODE_L1A \<equiv> 10"
abbreviation (input) CODE_L1B :: nat where "CODE_L1B \<equiv> 11"
abbreviation (input) CODE_L1X :: nat where "CODE_L1X \<equiv> 12"
abbreviation (input) CODE_L1Z :: nat where "CODE_L1Z \<equiv> 13"
abbreviation (input) CODE_L2C :: nat where "CODE_L2C \<equiv> 14"
abbreviation (input) CODE_L2D :: nat where "CODE_L2D \<equiv> 15"
abbreviation (input) CODE_L2S :: nat where "CODE_L2S \<equiv> 16"
abbreviation (input) CODE_L2L :: nat where "CODE_L2L \<equiv> 17"
abbreviation (input) CODE_L2X :: nat where "CODE_L2X \<equiv> 18"
abbreviation (input) CODE_L2P :: nat where "CODE_L2P \<equiv> 19"
abbreviation (input) CODE_L2W :: nat where "CODE_L2W \<equiv> 20"
abbreviation (input) CODE_L2Y :: nat where "CODE_L2Y \<equiv> 21"
abbreviation (input) CODE_L2M :: nat where "CODE_L2M \<equiv> 22"
abbreviation (input) CODE_L2N :: nat where "CODE_L2N \<equiv> 23"
abbreviation (input) CODE_L5I :: nat where "CODE_L5I \<equiv> 24"
abbreviation (input) CODE_L5Q :: nat where "CODE_L5Q \<equiv> 25"
abbreviation (input) CODE_L5X :: nat where "CODE_L5X \<equiv> 26"
abbreviation (input) CODE_L7I :: nat where "CODE_L7I \<equiv> 27"
abbreviation (input) CODE_L7Q :: nat where "CODE_L7Q \<equiv> 28"
abbreviation (input) CODE_L7X :: nat where "CODE_L7X \<equiv> 29"
abbreviation (input) CODE_L6A :: nat where "CODE_L6A \<equiv> 30"
abbreviation (input) CODE_L6B :: nat where "CODE_L6B \<equiv> 31"
abbreviation (input) CODE_L6C :: nat where "CODE_L6C \<equiv> 32"
abbreviation (input) CODE_L6X :: nat where "CODE_L6X \<equiv> 33"
abbreviation (input) CODE_L6Z :: nat where "CODE_L6Z \<equiv> 34"
abbreviation (input) CODE_L6S :: nat where "CODE_L6S \<equiv> 35"
abbreviation (input) CODE_L6L :: nat where "CODE_L6L \<equiv> 36"
abbreviation (input) CODE_L8I :: nat where "CODE_L8I \<equiv> 37"
abbreviation (input) CODE_L8Q :: nat where "CODE_L8Q \<equiv> 38"
abbreviation (input) CODE_L8X :: nat where "CODE_L8X \<equiv> 39"
abbreviation (input) CODE_L2I :: nat where "CODE_L2I \<equiv> 40"
abbreviation (input) CODE_L2Q :: nat where "CODE_L2Q \<equiv> 41"
abbreviation (input) CODE_L6I :: nat where "CODE_L6I \<equiv> 42"
abbreviation (input) CODE_L6Q :: nat where "CODE_L6Q \<equiv> 43"
abbreviation (input) CODE_L3I :: nat where "CODE_L3I \<equiv> 44"
abbreviation (input) CODE_L3Q :: nat where "CODE_L3Q \<equiv> 45"
abbreviation (input) CODE_L3X :: nat where "CODE_L3X \<equiv> 46"
abbreviation (input) CODE_L1I :: nat where "CODE_L1I \<equiv> 47"
abbreviation (input) CODE_L1Q :: nat where "CODE_L1Q \<equiv> 48"
abbreviation (input) CODE_L5A :: nat where "CODE_L5A \<equiv> 49"
abbreviation (input) CODE_L5B :: nat where "CODE_L5B \<equiv> 50"
abbreviation (input) CODE_L5C :: nat where "CODE_L5C \<equiv> 51"
abbreviation (input) CODE_L9A :: nat where "CODE_L9A \<equiv> 52"
abbreviation (input) CODE_L9B :: nat where "CODE_L9B \<equiv> 53"
abbreviation (input) CODE_L9C :: nat where "CODE_L9C \<equiv> 54"
abbreviation (input) CODE_L9X :: nat where "CODE_L9X \<equiv> 55"
abbreviation (input) CODE_L1D :: nat where "CODE_L1D \<equiv> 56"
abbreviation (input) CODE_L5D :: nat where "CODE_L5D \<equiv> 57"
abbreviation (input) CODE_L5P :: nat where "CODE_L5P \<equiv> 58"
abbreviation (input) CODE_L5Z :: nat where "CODE_L5Z \<equiv> 59"
abbreviation (input) CODE_L6E :: nat where "CODE_L6E \<equiv> 60"
abbreviation (input) CODE_L7D :: nat where "CODE_L7D \<equiv> 61"
abbreviation (input) CODE_L7P :: nat where "CODE_L7P \<equiv> 62"
abbreviation (input) CODE_L7Z :: nat where "CODE_L7Z \<equiv> 63"
abbreviation (input) CODE_L8D :: nat where "CODE_L8D \<equiv> 64"
abbreviation (input) CODE_L8P :: nat where "CODE_L8P \<equiv> 65"
abbreviation (input) CODE_L4A :: nat where "CODE_L4A \<equiv> 66"
abbreviation (input) CODE_L4B :: nat where "CODE_L4B \<equiv> 67"
abbreviation (input) CODE_L4X :: nat where "CODE_L4X \<equiv> 68"

definition obscodes :: "string list" where
  "obscodes =
    [''''  ,''1C'',''1P'',''1W'',''1Y'', ''1M'',''1N'',''1S'',''1L'',''1E'',
     ''1A'',''1B'',''1X'',''1Z'',''2C'', ''2D'',''2S'',''2L'',''2X'',''2P'',
     ''2W'',''2Y'',''2M'',''2N'',''5I'', ''5Q'',''5X'',''7I'',''7Q'',''7X'',
     ''6A'',''6B'',''6C'',''6X'',''6Z'', ''6S'',''6L'',''8L'',''8Q'',''8X'',
     ''2I'',''2Q'',''6I'',''6Q'',''3I'', ''3Q'',''3X'',''1I'',''1Q'',''5A'',
     ''5B'',''5C'',''9A'',''9B'',''9C'', ''9X'',''1D'',''5D'',''5P'',''5Z'',
     ''6E'',''7D'',''7P'',''7Z'',''8D'', ''8P'',''4A'',''4B'',''4X'','''']"

type_synonym pritable = "string list list"

definition codepris :: pritable where
  "codepris =
    [[''CPYWMNSL'',''PYWCMNDLSX'',''IQX''   ,''''     ,''''   ,'''',''''],
     [''CPABX''   ,''PCABX''     ,''IQX''   ,''''     ,''''   ,'''',''''],
     [''CABXZ''   ,''IQX''       ,''IQX''   ,''ABCXZ'',''IQX'','''',''''],
     [''CLSXZ''   ,''LSX''       ,''IQXDPZ'',''LSXEZ'',''''   ,'''',''''],
     [''C''       ,''IQX''       ,''''      ,''''     ,''''   ,'''',''''],
     [''IQXDPAN'' ,''IQXDPZ''    ,''DPX''   ,''IQXA'' ,''DPX'','''',''''],
     [''ABCX''    ,''ABCX''      ,''''      ,''''     ,''''   ,'''','''']]"

section \<open>Codes and their strings\<close>

fun find_code :: "string list \<Rightarrow> nat \<Rightarrow> string \<Rightarrow> nat" where
  "find_code [] i obs = CODE_NONE"
| "find_code (c # cs) i obs =
     (if c = '''' then CODE_NONE else if c = obs then i else find_code cs (i + 1) obs)"

definition obs2code :: "string \<Rightarrow> nat" where
  "obs2code obs = find_code (tl obscodes) 1 obs"

definition code2obs :: "nat \<Rightarrow> string" where
  "code2obs code = (if code \<le> CODE_NONE \<or> MAXCODE < code then '''' else obscodes ! code)"

section \<open>Carrier frequencies\<close>

type_synonym carrier = "(int \<times> double) option"

definition code2freq_GPS :: "nat \<Rightarrow> carrier" where
  "code2freq_GPS code =
    (let c = cch (code2obs code) 0 in
     if c = CHR ''1'' then Some (0, FREQ1)
     else if c = CHR ''2'' then Some (1, FREQ2)
     else if c = CHR ''5'' then Some (2, FREQ5)
     else None)"

definition code2freq_GLO :: "nat \<Rightarrow> int \<Rightarrow> carrier" where
  "code2freq_GLO code fcn =
    (let c = cch (code2obs code) 0 in
     if fcn < -7 \<or> fcn > 6 then None
     else if c = CHR ''1'' then Some (0, FREQ1_GLO + DFRQ1_GLO * of_int fcn)
     else if c = CHR ''2'' then Some (1, FREQ2_GLO + DFRQ2_GLO * of_int fcn)
     else if c = CHR ''3'' then Some (2, FREQ3_GLO)
     else if c = CHR ''4'' then Some (0, FREQ1a_GLO)
     else if c = CHR ''6'' then Some (1, FREQ2a_GLO)
     else None)"

definition code2freq_GAL :: "nat \<Rightarrow> carrier" where
  "code2freq_GAL code =
    (let c = cch (code2obs code) 0 in
     if c = CHR ''1'' then Some (0, FREQ1)
     else if c = CHR ''7'' then Some (1, FREQ7)
     else if c = CHR ''5'' then Some (2, FREQ5)
     else if c = CHR ''6'' then Some (3, FREQ6)
     else if c = CHR ''8'' then Some (4, FREQ8)
     else None)"

definition code2freq_QZS :: "nat \<Rightarrow> carrier" where
  "code2freq_QZS code =
    (let c = cch (code2obs code) 0 in
     if c = CHR ''1'' then Some (0, FREQ1)
     else if c = CHR ''2'' then Some (1, FREQ2)
     else if c = CHR ''5'' then Some (2, FREQ5)
     else if c = CHR ''6'' then Some (3, FREQ6)
     else None)"

definition code2freq_SBS :: "nat \<Rightarrow> carrier" where
  "code2freq_SBS code =
    (let c = cch (code2obs code) 0 in
     if c = CHR ''1'' then Some (0, FREQ1)
     else if c = CHR ''5'' then Some (1, FREQ5)
     else None)"

definition code2freq_BDS :: "nat \<Rightarrow> carrier" where
  "code2freq_BDS code =
    (let c = cch (code2obs code) 0 in
     if c = CHR ''1'' then Some (0, FREQ1)
     else if c = CHR ''2'' then Some (0, FREQ1_CMP)
     else if c = CHR ''7'' then Some (1, FREQ2_CMP)
     else if c = CHR ''5'' then Some (2, FREQ5)
     else if c = CHR ''6'' then Some (3, FREQ3_CMP)
     else if c = CHR ''8'' then Some (4, FREQ8)
     else None)"

definition code2freq_IRN :: "nat \<Rightarrow> carrier" where
  "code2freq_IRN code =
    (let c = cch (code2obs code) 0 in
     if c = CHR ''5'' then Some (0, FREQ5)
     else if c = CHR ''9'' then Some (1, FREQ9)
     else None)"

lemmas carrier_defs = code2freq_GPS_def code2freq_GLO_def code2freq_GAL_def code2freq_QZS_def
  code2freq_SBS_def code2freq_BDS_def code2freq_IRN_def

definition carrier_idx :: "carrier \<Rightarrow> int" where
  "carrier_idx r = (case r of None \<Rightarrow> -1 | Some (idx, _) \<Rightarrow> idx)"

definition code2idx :: "int \<Rightarrow> nat \<Rightarrow> int" where
  "code2idx sys code =
    (if sys = SYS_GPS then carrier_idx (code2freq_GPS code)
     else if sys = SYS_GLO then carrier_idx (code2freq_GLO code 0)
     else if sys = SYS_GAL then carrier_idx (code2freq_GAL code)
     else if sys = SYS_QZS then carrier_idx (code2freq_QZS code)
     else if sys = SYS_SBS then carrier_idx (code2freq_SBS code)
     else if sys = SYS_CMP then carrier_idx (code2freq_BDS code)
     else if sys = SYS_IRN then carrier_idx (code2freq_IRN code)
     else -1)"

definition carrier_freq :: "carrier \<Rightarrow> double" where
  "carrier_freq r = (case r of None \<Rightarrow> 0 | Some (_, freq) \<Rightarrow> freq)"

definition code2freq :: "int \<Rightarrow> nat \<Rightarrow> int \<Rightarrow> double" where
  "code2freq sys code fcn =
    (if sys = SYS_GPS then carrier_freq (code2freq_GPS code)
     else if sys = SYS_GLO then carrier_freq (code2freq_GLO code fcn)
     else if sys = SYS_GAL then carrier_freq (code2freq_GAL code)
     else if sys = SYS_QZS then carrier_freq (code2freq_QZS code)
     else if sys = SYS_SBS then carrier_freq (code2freq_SBS code)
     else if sys = SYS_CMP then carrier_freq (code2freq_BDS code)
     else if sys = SYS_IRN then carrier_freq (code2freq_IRN code)
     else 0)"

section \<open>Code priorities\<close>

definition setcodepri :: "pritable \<Rightarrow> int \<Rightarrow> int \<Rightarrow> string \<Rightarrow> pritable" where
  "setcodepri tbl sys idx pri =
    (if idx < 0 \<or> idx \<ge> int MAXFREQ then tbl
     else let put = (\<lambda>flag row t.
                if sys AND flag \<noteq> 0 then t[row := (t ! row)[nat idx := pri]] else t)
          in (put SYS_IRN 6 \<circ> put SYS_CMP 5 \<circ> put SYS_SBS 4 \<circ> put SYS_QZS 3 \<circ>
              put SYS_GAL 2 \<circ> put SYS_GLO 1 \<circ> put SYS_GPS 0) tbl)"

text \<open>
  The conversion \<open>-GL%2s\<close> of \<open>sscanf\<close> (with the letter of the system in place of
  \<open>G\<close>), and the search of the option string for it.
\<close>

definition scan_opt :: "char \<Rightarrow> string \<Rightarrow> string option" where
  "scan_opt l p =
    (if take 3 p = [CHR ''-'', l, CHR ''L'']
     then let s = take 2 (takeWhile (\<lambda>c. \<not> c_isspace c) (dropWhile c_isspace (drop 3 p)))
          in if s = [] then None else Some s
     else None)"

fun find_opt :: "char \<Rightarrow> char \<Rightarrow> string \<Rightarrow> string option" where
  "find_opt l o0 [] = None"
| "find_opt l o0 (c # cs) =
     (if c \<noteq> CHR ''-'' then find_opt l o0 cs
      else case scan_opt l (c # cs) of
             None \<Rightarrow> find_opt l o0 cs
           | Some str \<Rightarrow> (if cch str 0 \<noteq> o0 then find_opt l o0 cs else Some str))"

definition strchr :: "string \<Rightarrow> char \<Rightarrow> nat option" where
  "strchr s c = (let n = length (takeWhile (\<lambda>x. x \<noteq> c) s) in if n < length s then Some n else None)"

definition pri_system :: "int \<Rightarrow> (nat \<times> char) option" where
  "pri_system sys =
    (if sys = SYS_GPS then Some (0, CHR ''G'')
     else if sys = SYS_GLO then Some (1, CHR ''R'')
     else if sys = SYS_GAL then Some (2, CHR ''E'')
     else if sys = SYS_QZS then Some (3, CHR ''J'')
     else if sys = SYS_SBS then Some (4, CHR ''S'')
     else if sys = SYS_CMP then Some (5, CHR ''C'')
     else if sys = SYS_IRN then Some (6, CHR ''I'')
     else None)"

definition getcodepri :: "pritable \<Rightarrow> int \<Rightarrow> nat \<Rightarrow> string \<Rightarrow> int" where
  "getcodepri tbl sys code opt =
    (case pri_system sys of None \<Rightarrow> 0
     | Some (i, l) \<Rightarrow>
         (let j = code2idx sys code; obs = code2obs code in
          if j < 0 then 0
          else case find_opt l (cch obs 0) opt of
                 Some str \<Rightarrow> (if cch str 1 = cch obs 1 then 15 else 0)
               | None \<Rightarrow>
                   (case strchr (tbl ! i ! nat j) (cch obs 1) of
                      Some k \<Rightarrow> 14 - int k
                    | None \<Rightarrow> 0)))"

section \<open>The code table\<close>

lemma find_code_nth:
  "find_code cs i obs = k \<Longrightarrow> k \<noteq> 0 \<Longrightarrow> 0 < i \<Longrightarrow> i \<le> k \<and> k < i + length cs \<and> cs ! (k - i) = obs"
  by (induction cs arbitrary: i) (fastforce simp: nth_Cons' split: if_splits)+

lemma find_code_distinct:
  "distinct cs \<Longrightarrow> '''' \<notin> set (take (Suc k) cs) \<Longrightarrow> k < length cs \<Longrightarrow> find_code cs i (cs ! k) = i + k"
proof (induction cs arbitrary: i k)
  case (Cons c cs)
  then show ?case by (cases k) auto
qed simp

lemma find_code_app:
  "'''' \<notin> set cs \<Longrightarrow> obs \<in> set cs \<Longrightarrow> find_code (cs @ ds) i obs = find_code cs i obs"
  by (induction cs arbitrary: i) auto

lemma obscodes_split: "tl obscodes = butlast (tl obscodes) @ ['''']"
  by (simp add: obscodes_def)

lemma obscodes_table:
  "length (butlast (tl obscodes)) = 68" "'''' \<notin> set (butlast (tl obscodes))"
  "distinct (butlast (tl obscodes))" "list_all (\<lambda>s. length s = 2) (butlast (tl obscodes))"
  by (simp_all add: obscodes_def)

lemma length_obscodes [simp]: "length obscodes = 70"
  by (simp add: obscodes_def)

lemma code2obs_butlast:
  "1 \<le> code \<Longrightarrow> code \<le> MAXCODE \<Longrightarrow> code2obs code = butlast (tl obscodes) ! (code - 1)"
proof -
  assume c: "1 \<le> code" "code \<le> MAXCODE"
  have "obscodes ! code = tl obscodes ! (code - 1)"
    using c by (subst nth_tl) (simp_all add: obscodes_def)
  also have "\<dots> = butlast (tl obscodes) ! (code - 1)"
    using c by (subst obscodes_split, subst nth_append) (simp, linarith?)
  finally show ?thesis using c by (simp add: code2obs_def)
qed

lemma length_code2obs: "1 \<le> code \<Longrightarrow> code \<le> MAXCODE \<Longrightarrow> length (code2obs code) = 2"
  using obscodes_table(1,4) by (simp add: code2obs_butlast list_all_length)

lemma obs2code_code2obs:
  assumes "1 \<le> code" and "code \<le> MAXCODE"
  shows "obs2code (code2obs code) = code"
proof -
  let ?t = "butlast (tl obscodes)"
  have k: "code - 1 < length ?t" using assms obscodes_table(1) by linarith
  have "find_code ?t 1 (?t ! (code - 1)) = 1 + (code - 1)"
    using k obscodes_table(2,3) by (intro find_code_distinct) (auto dest: in_set_takeD)
  moreover have "find_code (tl obscodes) 1 (?t ! (code - 1)) = find_code ?t 1 (?t ! (code - 1))"
    using k obscodes_table(2) by (subst obscodes_split) (rule find_code_app, simp_all)
  ultimately show ?thesis using assms by (simp add: obs2code_def code2obs_butlast)
qed

lemma find_code_nonempty: "find_code cs i obs \<noteq> 0 \<Longrightarrow> obs \<noteq> ''''"
  by (induction cs arbitrary: i) (auto split: if_splits)

lemma find_code_app_nil: "find_code (cs @ ['''']) i obs = find_code cs i obs"
  by (induction cs arbitrary: i) auto

lemma code2obs_obs2code:
  assumes "obs2code obs \<noteq> CODE_NONE"
  shows "code2obs (obs2code obs) = obs \<and> obs2code obs \<le> MAXCODE"
proof -
  let ?t = "butlast (tl obscodes)"
  define k where "k = obs2code obs"
  have "find_code ?t 1 obs = k"
    unfolding k_def obs2code_def by (metis obscodes_split find_code_app_nil)
  from find_code_nth [OF this] assms
  have "1 \<le> k" "k < 1 + 68" "?t ! (k - 1) = obs"
    by (simp_all add: k_def obscodes_table(1))
  then show ?thesis using code2obs_butlast [of k] unfolding k_def by simp
qed

section \<open>Bounds\<close>

lemma carrier_idx_range:
  "code2idx sys code = -1 \<or> 0 \<le> code2idx sys code \<and> code2idx sys code < int NFREQ"
  by (simp add: code2idx_def carrier_idx_def carrier_defs Let_def)

lemma code2freq_pos_iff:
  assumes "-7 \<le> fcn" and "fcn \<le> 6"
  shows "0 < code2freq sys code fcn \<longleftrightarrow> 0 \<le> code2idx sys code"
proof -
  have r: "- 7 \<le> real_of_int fcn" using assms(1) by linarith
  show ?thesis
    using assms r
    by (simp add: code2idx_def code2freq_def carrier_idx_def carrier_freq_def carrier_defs Let_def
        freq_defs)
qed

lemma code2freq_zero:
  "code2idx sys code < 0 \<Longrightarrow> code2freq sys code fcn = 0"
  by (simp add: code2idx_def code2freq_def carrier_idx_def carrier_freq_def carrier_defs Let_def
        split: if_split_asm)

lemma strchr_Some: "strchr s c = Some k \<longleftrightarrow> k < length s \<and> s ! k = c \<and> (\<forall>i < k. s ! i \<noteq> c)"
proof
  assume "strchr s c = Some k"
  then have k: "k = length (takeWhile (\<lambda>x. x \<noteq> c) s)" "k < length s"
    by (auto simp: strchr_def Let_def split: if_splits)
  have "s ! i \<noteq> c" if "i < k" for i
    using that takeWhile_nth [of i "\<lambda>x. x \<noteq> c" s] nth_mem [of i "takeWhile (\<lambda>x. x \<noteq> c) s"] k
    by (auto dest: set_takeWhileD)
  moreover have "s ! k = c" using nth_length_takeWhile [of "\<lambda>x. x \<noteq> c" s] k by simp
  ultimately show "k < length s \<and> s ! k = c \<and> (\<forall>i < k. s ! i \<noteq> c)" using k by simp
next
  assume r: "k < length s \<and> s ! k = c \<and> (\<forall>i < k. s ! i \<noteq> c)"
  then have "takeWhile (\<lambda>x. x \<noteq> c) s = take k s"
    by (intro takeWhile_eq_take_P_nth) auto
  then show "strchr s c = Some k" using r by (simp add: strchr_def)
qed

definition wf_pris :: "pritable \<Rightarrow> bool" where
  "wf_pris tbl \<longleftrightarrow> length tbl = 7 \<and>
     (\<forall>row \<in> set tbl. length row = MAXFREQ \<and> (\<forall>s \<in> set row. length s < 16))"

lemma wf_codepris: "wf_pris codepris"
  by (simp add: wf_pris_def codepris_def)

lemma wf_pris_row:
  "wf_pris tbl \<Longrightarrow> i < 7 \<Longrightarrow> j < MAXFREQ \<Longrightarrow> length (tbl ! i ! j) < 16 \<and> length (tbl ! i) = MAXFREQ"
  unfolding wf_pris_def by (metis nth_mem)

lemma wf_pris_put:
  assumes "wf_pris tbl" and "length pri < 16" and "i < 7"
  shows "wf_pris (tbl[i := (tbl ! i)[n := pri]])"
proof -
  have i: "i < length tbl" and row: "length (tbl ! i) = MAXFREQ" "\<forall>s \<in> set (tbl ! i). length s < 16"
    using assms nth_mem [of i tbl] by (auto simp: wf_pris_def)
  have "\<forall>s \<in> set ((tbl ! i)[n := pri]). length s < 16"
    using row(2) assms(2) set_update_subset_insert [of "tbl ! i" n pri] by auto
  then show ?thesis
    using assms(1) row(1) set_update_subset_insert [of tbl i "(tbl ! i)[n := pri]"]
    unfolding wf_pris_def by auto
qed

lemma wf_setcodepri: "wf_pris tbl \<Longrightarrow> length pri < 16 \<Longrightarrow> wf_pris (setcodepri tbl sys idx pri)"
  by (simp add: setcodepri_def Let_def wf_pris_put)

lemma pri_system_range: "pri_system sys = Some (i, l) \<Longrightarrow> i < 7"
  by (auto simp: pri_system_def split: if_splits)

lemma getcodepri_bounds:
  assumes "wf_pris tbl"
  shows "0 \<le> getcodepri tbl sys code opt \<and> getcodepri tbl sys code opt \<le> 15"
proof (cases "pri_system sys")
  case (Some p)
  obtain i l where p: "p = (i, l)" by fastforce
  have i: "i < 7" using Some p by (simp add: pri_system_range)
  have j: "0 \<le> code2idx sys code \<Longrightarrow> nat (code2idx sys code) < MAXFREQ"
    using carrier_idx_range [of sys code] by linarith
  have "k \<le> 14" if "strchr (tbl ! i ! nat (code2idx sys code)) c = Some k"
    and "0 \<le> code2idx sys code" for k c
    using that(1) wf_pris_row [OF assms i j] that(2) by (auto simp: strchr_Some)
  then show ?thesis
    by (auto simp: getcodepri_def Some p Let_def not_less split: option.split)
qed (simp add: getcodepri_def)

text \<open>The rank a code gets is its place in the string last set for its system and frequency.\<close>

definition one_system :: "int \<Rightarrow> bool" where
  "one_system sys \<longleftrightarrow> sys \<in> {SYS_GPS, SYS_GLO, SYS_GAL, SYS_QZS, SYS_SBS, SYS_CMP, SYS_IRN}"

lemma setcodepri_row:
  assumes "wf_pris tbl" and "one_system sys" and "0 \<le> idx" and "idx < int MAXFREQ"
  shows "\<exists>i l. pri_system sys = Some (i, l) \<and> setcodepri tbl sys idx pri ! i ! nat idx = pri"
proof -
  have len: "length tbl = 7" "i < 7 \<Longrightarrow> length (tbl ! i) = 7" for i
    using assms(1) by (auto simp: wf_pris_def)
  show ?thesis
    using assms(2-4) len unfolding one_system_def
    by (elim insertE emptyE) (simp_all add: setcodepri_def pri_system_def Let_def)
qed

lemma getcodepri_setcodepri:
  assumes "wf_pris tbl" and "one_system sys" and "0 \<le> code2idx sys code"
    and "k < length pri" and "pri ! k = cch (code2obs code) 1"
    and "\<And>i. i < k \<Longrightarrow> pri ! i \<noteq> cch (code2obs code) 1"
  shows "getcodepri (setcodepri tbl sys (code2idx sys code) pri) sys code [] = 14 - int k"
proof -
  have j: "code2idx sys code < int MAXFREQ" using carrier_idx_range [of sys code] assms(3) by linarith
  obtain i l where r: "pri_system sys = Some (i, l)"
    "setcodepri tbl sys (code2idx sys code) pri ! i ! nat (code2idx sys code) = pri"
    using setcodepri_row [OF assms(1,2,3) j] by blast
  have "strchr pri (cch (code2obs code) 1) = Some k" using assms(4-6) by (simp add: strchr_Some)
  then show ?thesis using r assms(3) by (simp add: getcodepri_def Let_def)
qed

end
