(* ===== verification/GTime.thy ===== *)
theory GTime
  imports NavPrelude "HOL-Library.Product_Lexorder"
begin

text \<open>
  Time of \<^verbatim>\<open>rtkcmn.c\<close>: the struct \<open>gtime_t\<close> (whole seconds since 1970 and a fraction),
  calendar time, GPS, Galileo and BeiDou week and time of week, leap seconds and the adjustment of
  a ten-bit week.  C's division and remainder of integers are \<open>sdiv\<close> and \<open>smod\<close>.
  The clock of the machine (\<open>timeget\<close>) is an argument \<open>now\<close>; the table of leap seconds
  is the built-in one.
\<close>

section \<open>The struct and the operations\<close>

record gtime =
  gt_time :: int
  gt_sec :: double

definition doy :: "int list" where
  "doy = [1,32,60,91,121,152,182,213,244,274,305,335]"

definition mday :: "int list" where
  "mday = [31,28,31,30,31,30,31,31,30,31,30,31,31,28,31,30,31,30,31,31,30,31,30,31,
           31,29,31,30,31,30,31,31,30,31,30,31,31,28,31,30,31,30,31,31,30,31,30,31]"

definition epoch2time :: "double list \<Rightarrow> gtime" where
  "epoch2time ep =
    (let year = trunc (ep ! 0); mon = trunc (ep ! 1); day = trunc (ep ! 2) in
     if year < 1970 \<or> 2099 < year \<or> mon < 1 \<or> 12 < mon then \<lparr>gt_time = 0, gt_sec = 0\<rparr>
     else let days = (year - 1970) * 365 + (year - 1969) sdiv 4 + doy ! nat (mon - 1) + day - 2
                     + (if year smod 4 = 0 \<and> mon \<ge> 3 then 1 else 0);
              sec = \<lfloor>ep ! 5\<rfloor>
          in \<lparr>gt_time = days * 86400 + trunc (ep ! 3) * 3600 + trunc (ep ! 4) * 60 + sec,
              gt_sec = ep ! 5 - of_int sec\<rparr>)"

text \<open>The search for the month: the day within it and its index.\<close>

fun month_loop :: "int list \<Rightarrow> int \<Rightarrow> nat \<Rightarrow> int \<times> nat" where
  "month_loop [] day mon = (day, mon)"
| "month_loop (m # ms) day mon =
     (if day \<ge> m then month_loop ms (day - m) (mon + 1) else (day, mon))"

definition time2epoch :: "gtime \<Rightarrow> double list" where
  "time2epoch t =
    (let days = gt_time t sdiv 86400;
         sec = gt_time t - days * 86400;
         (day, mon) = month_loop mday (days smod 1461) 0
     in [of_int (1970 + days sdiv 1461 * 4 + int mon div 12), of_int (int mon mod 12 + 1),
         of_int (day + 1), of_int (sec sdiv 3600), of_int (sec smod 3600 sdiv 60),
         of_int (sec smod 60) + gt_sec t])"

definition gpst0 :: "double list" where "gpst0 = [1980,1, 6,0,0,0]"
definition gst0 :: "double list" where "gst0 = [1999,8,22,0,0,0]"
definition bdt0 :: "double list" where "bdt0 = [2006,1, 1,0,0,0]"

definition leaps :: "double list list" where
  "leaps =
    [[2017,1,1,0,0,0,-18],
     [2015,7,1,0,0,0,-17],
     [2012,7,1,0,0,0,-16],
     [2009,1,1,0,0,0,-15],
     [2006,1,1,0,0,0,-14],
     [1999,1,1,0,0,0,-13],
     [1997,7,1,0,0,0,-12],
     [1996,1,1,0,0,0,-11],
     [1994,7,1,0,0,0,-10],
     [1993,7,1,0,0,0, -9],
     [1992,7,1,0,0,0, -8],
     [1991,1,1,0,0,0, -7],
     [1990,1,1,0,0,0, -6],
     [1988,1,1,0,0,0, -5],
     [1985,7,1,0,0,0, -4],
     [1983,7,1,0,0,0, -3],
     [1982,7,1,0,0,0, -2],
     [1981,7,1,0,0,0, -1],
     [0,0,0,0,0,0,0]]"

definition gpst2time :: "int \<Rightarrow> double \<Rightarrow> gtime" where
  "gpst2time week sec =
    (let t = epoch2time gpst0; sec = (if sec < -1000000000 \<or> 1000000000 < sec then 0 else sec)
     in \<lparr>gt_time = gt_time t + 86400 * 7 * week + trunc sec, gt_sec = sec - of_int (trunc sec)\<rparr>)"

text \<open>Time of week and, through the pointer argument, the week.\<close>

definition time2gpst :: "gtime \<Rightarrow> double \<times> int" where
  "time2gpst t =
    (let sec = gt_time t - gt_time (epoch2time gpst0); w = sec sdiv (86400 * 7)
     in (of_int (sec - w * 86400 * 7) + gt_sec t, w))"

definition gst2time :: "int \<Rightarrow> double \<Rightarrow> gtime" where
  "gst2time week sec =
    (let t = epoch2time gst0; sec = (if sec < -1000000000 \<or> 1000000000 < sec then 0 else sec)
     in \<lparr>gt_time = gt_time t + 86400 * 7 * week + trunc sec, gt_sec = sec - of_int (trunc sec)\<rparr>)"

definition time2gst :: "gtime \<Rightarrow> double \<times> int" where
  "time2gst t =
    (let sec = gt_time t - gt_time (epoch2time gst0); w = sec sdiv (86400 * 7)
     in (of_int (sec - w * 86400 * 7) + gt_sec t, w))"

definition bdt2time :: "int \<Rightarrow> double \<Rightarrow> gtime" where
  "bdt2time week sec =
    (let t = epoch2time bdt0; sec = (if sec < -1000000000 \<or> 1000000000 < sec then 0 else sec)
     in \<lparr>gt_time = gt_time t + 86400 * 7 * week + trunc sec, gt_sec = sec - of_int (trunc sec)\<rparr>)"

definition time2bdt :: "gtime \<Rightarrow> double \<times> int" where
  "time2bdt t =
    (let sec = gt_time t - gt_time (epoch2time bdt0); w = sec sdiv (86400 * 7)
     in (of_int (sec - w * 86400 * 7) + gt_sec t, w))"

definition timeadd :: "gtime \<Rightarrow> double \<Rightarrow> gtime" where
  "timeadd t sec =
    (let s = gt_sec t + sec; tt = \<lfloor>s\<rfloor>
     in \<lparr>gt_time = gt_time t + tt, gt_sec = s - of_int tt\<rparr>)"

definition timediff :: "gtime \<Rightarrow> gtime \<Rightarrow> double" where
  "timediff t1 t2 = of_int (gt_time t1 - gt_time t2) + gt_sec t1 - gt_sec t2"

fun gpst2utc_loop :: "double list list \<Rightarrow> gtime \<Rightarrow> gtime" where
  "gpst2utc_loop [] t = t"
| "gpst2utc_loop (l # ls) t =
     (if l ! 0 > 0
      then let tu = timeadd t (l ! 6) in
           if timediff tu (epoch2time l) \<ge> 0 then tu else gpst2utc_loop ls t
      else t)"

definition gpst2utc :: "gtime \<Rightarrow> gtime" where
  "gpst2utc t = gpst2utc_loop leaps t"

fun utc2gpst_loop :: "double list list \<Rightarrow> gtime \<Rightarrow> gtime" where
  "utc2gpst_loop [] t = t"
| "utc2gpst_loop (l # ls) t =
     (if l ! 0 > 0
      then if timediff t (epoch2time l) \<ge> 0 then timeadd t (- (l ! 6)) else utc2gpst_loop ls t
      else t)"

definition utc2gpst :: "gtime \<Rightarrow> gtime" where
  "utc2gpst t = utc2gpst_loop leaps t"

definition gpst2bdt :: "gtime \<Rightarrow> gtime" where
  "gpst2bdt t = timeadd t (-14)"

definition bdt2gpst :: "gtime \<Rightarrow> gtime" where
  "bdt2gpst t = timeadd t 14"

definition time2doy :: "gtime \<Rightarrow> double" where
  "time2doy t = (let ep = time2epoch t in timediff t (epoch2time [ep ! 0, 1, 1, 0, 0, 0]) / 86400 + 1)"

definition adjgpsweek :: "gtime \<Rightarrow> int \<Rightarrow> int" where
  "adjgpsweek now week =
    (let (_, w) = time2gpst (utc2gpst now); w = (if w < 1560 then 1560 else w)
     in week + (w - week + 1) sdiv 1024 * 1024)"

section \<open>Order\<close>

text \<open>Times are ordered by seconds and then by fraction.\<close>

instantiation gtime_ext :: (linorder) linorder
begin

definition less_eq_gtime_ext :: "'a gtime_scheme \<Rightarrow> 'a gtime_scheme \<Rightarrow> bool" where
  "less_eq_gtime_ext a b \<longleftrightarrow>
     (gt_time a, gt_sec a, gtime.more a) \<le> (gt_time b, gt_sec b, gtime.more b)"

definition less_gtime_ext :: "'a gtime_scheme \<Rightarrow> 'a gtime_scheme \<Rightarrow> bool" where
  "less_gtime_ext a b \<longleftrightarrow>
     (gt_time a, gt_sec a, gtime.more a) < (gt_time b, gt_sec b, gtime.more b)"

instance
proof
  fix x y z :: "'a gtime_scheme"
  show "(x < y) = (x \<le> y \<and> \<not> y \<le> x)" "x \<le> x" "x \<le> y \<or> y \<le> x"
    by (auto simp: less_eq_gtime_ext_def less_gtime_ext_def)
  show "x \<le> y \<Longrightarrow> y \<le> z \<Longrightarrow> x \<le> z"
    unfolding less_eq_gtime_ext_def by (rule order_trans)
  show "x \<le> y \<Longrightarrow> y \<le> x \<Longrightarrow> x = y"
    unfolding less_eq_gtime_ext_def
    by (cases x, cases y) (metis (no_types, lifting) gtime.simps(1,2,3) order_antisym prod.inject)
qed

end

section \<open>Normal times\<close>

definition normal_time :: "gtime \<Rightarrow> bool" where
  "normal_time t \<longleftrightarrow> 0 \<le> gt_sec t \<and> gt_sec t < 1"

definition tval :: "gtime \<Rightarrow> double" where
  "tval t = of_int (gt_time t) + gt_sec t"

lemma timediff_tval: "timediff a b = tval a - tval b"
  by (simp add: timediff_def tval_def)

lemma tval_timeadd [simp]: "tval (timeadd t s) = tval t + s"
  by (simp add: timeadd_def tval_def Let_def)

lemma normal_timeadd [simp]: "normal_time (timeadd t s)"
  unfolding timeadd_def normal_time_def Let_def by simp linarith

lemma normal_eqI:
  assumes "normal_time a" and "normal_time b" and "tval a = tval b"
  shows "a = b"
proof -
  have "gt_time t = \<lfloor>tval t\<rfloor>" if "normal_time t" for t
    using that unfolding normal_time_def tval_def by linarith
  then have "gt_time a = gt_time b" using assms by metis
  moreover from this have "gt_sec a = gt_sec b" using assms(3) by (simp add: tval_def)
  ultimately show ?thesis by simp
qed

lemma timeadd_timeadd: "timeadd (timeadd t a) b = timeadd t (a + b)"
  by (rule normal_eqI) simp_all

lemma timeadd_0: "normal_time t \<Longrightarrow> timeadd t 0 = t"
  by (rule normal_eqI) simp_all

lemma timeadd_timediff: "normal_time a \<Longrightarrow> timeadd b (timediff a b) = a"
  by (rule normal_eqI) (simp_all add: timediff_tval)

lemma timediff_le_iff:
  assumes "normal_time a" and "normal_time b"
  shows "0 \<le> timediff a b \<longleftrightarrow> b \<le> a"
proof -
  have "(b \<le> a) \<longleftrightarrow> gt_time b < gt_time a \<or> gt_time b = gt_time a \<and> gt_sec b \<le> gt_sec a"
    by (auto simp: less_eq_gtime_ext_def)
  also have "\<dots> \<longleftrightarrow> 0 \<le> timediff a b"
    using assms unfolding normal_time_def timediff_def by linarith
  finally show ?thesis ..
qed

section \<open>C division\<close>

lemma sdiv_nonneg: "0 \<le> a \<Longrightarrow> 0 < b \<Longrightarrow> (a :: int) sdiv b = a div b"
  by (simp add: signed_divide_int_def sgn_if)

lemma smod_nonneg: "0 \<le> a \<Longrightarrow> 0 < b \<Longrightarrow> (a :: int) smod b = a mod b"
  by (cases "a = 0") (simp_all add: signed_modulo_int_def)

section \<open>Weeks\<close>

lemma gpst0_time [simp]: "epoch2time gpst0 = \<lparr>gt_time = 315964800, gt_sec = 0\<rparr>"
  by (simp add: epoch2time_def gpst0_def doy_def Let_def sdiv_nonneg smod_nonneg)

lemma gst0_time [simp]: "epoch2time gst0 = \<lparr>gt_time = 935280000, gt_sec = 0\<rparr>"
  by (simp add: epoch2time_def gst0_def doy_def Let_def sdiv_nonneg smod_nonneg)

lemma bdt0_time [simp]: "epoch2time bdt0 = \<lparr>gt_time = 1136073600, gt_sec = 0\<rparr>"
  by (simp add: epoch2time_def bdt0_def doy_def Let_def sdiv_nonneg smod_nonneg)

lemma trunc_week:
  assumes "0 \<le> s" and "s < 604800"
  shows "0 \<le> trunc s \<and> trunc s < 604800 \<and> 0 \<le> s - of_int (trunc s) \<and> s - of_int (trunc s) < 1"
  using assms unfolding trunc_def by (simp add: floor_less_iff) linarith

lemma week_split:
  assumes "0 \<le> w" and "0 \<le> s" and "s < (604800 :: int)"
  shows "(604800 * w + s) sdiv 604800 = w"
  using assms by (subst sdiv_nonneg) simp_all

lemma time2gpst_gpst2time:
  assumes "0 \<le> week" and "0 \<le> sec" and "sec < 604800"
  shows "time2gpst (gpst2time week sec) = (sec, week)"
  using assms trunc_week [OF assms(2,3)] week_split [OF assms(1), of "trunc sec"]
  by (simp add: time2gpst_def gpst2time_def Let_def)

lemma time2gst_gst2time:
  assumes "0 \<le> week" and "0 \<le> sec" and "sec < 604800"
  shows "time2gst (gst2time week sec) = (sec, week)"
  using assms trunc_week [OF assms(2,3)] week_split [OF assms(1), of "trunc sec"]
  by (simp add: time2gst_def gst2time_def Let_def)

lemma time2bdt_bdt2time:
  assumes "0 \<le> week" and "0 \<le> sec" and "sec < 604800"
  shows "time2bdt (bdt2time week sec) = (sec, week)"
  using assms trunc_week [OF assms(2,3)] week_split [OF assms(1), of "trunc sec"]
  by (simp add: time2bdt_def bdt2time_def Let_def)

lemma tval_gpst2time:
  "-1000000000 \<le> s \<Longrightarrow> s \<le> 1000000000 \<Longrightarrow> tval (gpst2time w s) = 315964800 + 604800 * of_int w + s"
  by (simp add: tval_def gpst2time_def Let_def)

lemma normal_gpst2time:
  "0 \<le> s \<Longrightarrow> normal_time (gpst2time w s)"
  unfolding normal_time_def gpst2time_def Let_def
  by (cases "1000000000 < s") (simp_all add: trunc_nonneg, linarith)

lemma time2gpst_parts:
  assumes "normal_time t" and "315964800 \<le> gt_time t"
  shows "0 \<le> fst (time2gpst t)" and "fst (time2gpst t) < 604800" and "0 \<le> snd (time2gpst t)"
    and "tval t = 315964800 + 604800 * of_int (snd (time2gpst t)) + fst (time2gpst t)"
proof -
  define s where "s = gt_time t - 315964800"
  have s: "0 \<le> s" using assms(2) by (simp add: s_def)
  have t: "time2gpst t = (of_int (s mod 604800) + gt_sec t, s div 604800)"
  proof -
    have "s - s div 604800 * 86400 * 7 = s mod 604800"
      using div_mult_mod_eq [of s 604800] by linarith
    then have "real_of_int (s - s div 604800 * 86400 * 7) = real_of_int (s mod 604800)"
      by (rule arg_cong)
    then show ?thesis
      using s by (simp add: time2gpst_def Let_def s_def [symmetric] sdiv_nonneg)
  qed
  have m: "0 \<le> s mod 604800" "s mod 604800 < 604800" by simp_all
  then have "s mod 604800 \<le> 604799" by linarith
  then have "real_of_int (s mod 604800) \<le> 604799" by linarith
  then show "0 \<le> fst (time2gpst t)" "fst (time2gpst t) < 604800"
    using assms(1) m(1) unfolding t normal_time_def by simp_all
  show "0 \<le> snd (time2gpst t)" unfolding t using s by (simp add: pos_imp_zdiv_nonneg_iff)
  have "s = 604800 * (s div 604800) + s mod 604800" by simp
  then have "real_of_int s = 604800 * real_of_int (s div 604800) + real_of_int (s mod 604800)"
    by (metis of_int_add of_int_mult of_int_numeral)
  then show "tval t = 315964800 + 604800 * of_int (snd (time2gpst t)) + fst (time2gpst t)"
    unfolding t tval_def by (simp add: s_def)
qed

lemma gpst2time_time2gpst:
  assumes "normal_time t" and "315964800 \<le> gt_time t"
  shows "gpst2time (snd (time2gpst t)) (fst (time2gpst t)) = t"
proof (rule normal_eqI)
  note p = time2gpst_parts [OF assms]
  show "normal_time (gpst2time (snd (time2gpst t)) (fst (time2gpst t)))"
    using p(1) by (rule normal_gpst2time)
  show "tval (gpst2time (snd (time2gpst t)) (fst (time2gpst t))) = tval t"
    using p(1,2,4) by (simp add: tval_gpst2time)
qed (rule assms(1))

section \<open>Leap seconds\<close>

text \<open>What the search needs of the table: a year in every row but the last, growing offsets.\<close>

fun leap_rows :: "double list list \<Rightarrow> bool" where
  "leap_rows [] = True"
| "leap_rows (l # ls) = ((\<forall>m \<in> set ls. m ! 0 > 0 \<longrightarrow> l ! 6 < m ! 6) \<and> leap_rows ls)"

lemma leap_rows_leaps: "leap_rows leaps"
  by (simp add: leaps_def)

lemma utc2gpst_loop_cases:
  "utc2gpst_loop ls t = t \<or>
   (\<exists>l \<in> set ls. l ! 0 > 0 \<and> timediff t (epoch2time l) \<ge> 0 \<and> utc2gpst_loop ls t = timeadd t (- (l ! 6)))"
  by (induction ls) (auto simp: Let_def)

lemma gpst2utc_utc2gpst_loop:
  assumes "leap_rows ls" and "\<forall>l \<in> set ls. l ! 0 > 0 \<longrightarrow> l ! 6 < 0" and "normal_time t"
  shows "gpst2utc_loop ls (utc2gpst_loop ls t) = t"
  using assms(1,2)
proof (induction ls)
  case (Cons l ls)
  show ?case
  proof (cases "l ! 0 > 0 \<and> \<not> timediff t (epoch2time l) \<ge> 0")
    case True
    define g where "g = utc2gpst_loop ls t"
    have "tval g + l ! 6 \<le> tval t"
      using utc2gpst_loop_cases [of ls t] Cons.prems True unfolding g_def by fastforce
    then have "\<not> timediff (timeadd g (l ! 6)) (epoch2time l) \<ge> 0"
      using True by (simp add: timediff_tval)
    then show ?thesis using True Cons by (simp add: g_def [symmetric] Let_def)
  next
    case False
    then show ?thesis using assms(3) by (auto simp: timeadd_timeadd timeadd_0 Let_def)
  qed
qed simp

lemma gpst2utc_utc2gpst: "normal_time t \<Longrightarrow> gpst2utc (utc2gpst t) = t"
  unfolding gpst2utc_def utc2gpst_def
  by (rule gpst2utc_utc2gpst_loop [OF leap_rows_leaps]) (simp_all add: leaps_def)

lemma utc2gpst_bounds:
  "tval t \<le> tval (utc2gpst t) \<and> tval (utc2gpst t) \<le> tval t + 18"
proof -
  have "\<forall>l \<in> set leaps. l ! 0 > 0 \<longrightarrow> -18 \<le> l ! 6 \<and> l ! 6 \<le> 0" by (simp add: leaps_def)
  then show ?thesis using utc2gpst_loop_cases [of leaps t] by (fastforce simp: utc2gpst_def)
qed

lemma bdt2gpst_gpst2bdt: "normal_time t \<Longrightarrow> bdt2gpst (gpst2bdt t) = t \<and> gpst2bdt (bdt2gpst t) = t"
  by (simp add: bdt2gpst_def gpst2bdt_def timeadd_timeadd timeadd_0)

section \<open>The ten-bit week\<close>

text \<open>
  The result is congruent to the argument and lies in the cycle of 1024 weeks that ends one week
  after the current one.
\<close>

definition cur_week :: "gtime \<Rightarrow> int" where
  "cur_week now = (let (_, w) = time2gpst (utc2gpst now) in if w < 1560 then 1560 else w)"

lemma adjgpsweek_window:
  assumes "0 \<le> week" and "week < 1024"
  shows "adjgpsweek now week mod 1024 = week"
    and "cur_week now - 1022 \<le> adjgpsweek now week" and "adjgpsweek now week \<le> cur_week now + 1"
proof -
  define w where "w = cur_week now"
  have w: "1560 \<le> w" by (auto simp: w_def cur_week_def Let_def split: prod.split)
  have a: "adjgpsweek now week = week + (w - week + 1) div 1024 * 1024"
    using assms w unfolding adjgpsweek_def w_def cur_week_def Let_def
    by (auto simp: sdiv_nonneg split: prod.split)
  show "adjgpsweek now week mod 1024 = week" unfolding a using assms by simp
  have "(w - week + 1) = 1024 * ((w - week + 1) div 1024) + (w - week + 1) mod 1024" by simp
  moreover have "0 \<le> (w - week + 1) mod 1024" "(w - week + 1) mod 1024 < 1024" by simp_all
  ultimately show "cur_week now - 1022 \<le> adjgpsweek now week" "adjgpsweek now week \<le> cur_week now + 1"
    unfolding a w_def [symmetric] by linarith+
qed

section \<open>The calendar\<close>

lemma month_loop_spec:
  "month_loop ms day mon = (d, m) \<Longrightarrow> \<forall>x \<in> set ms. 0 < x \<Longrightarrow> 0 \<le> day \<Longrightarrow>
   mon \<le> m \<and> m \<le> mon + length ms \<and> day = d + sum_list (take (m - mon) ms) \<and> 0 \<le> d \<and>
   (m < mon + length ms \<longrightarrow> d < ms ! (m - mon))"
proof (induction ms arbitrary: day mon)
  case (Cons x ms)
  show ?case
  proof (cases "day \<ge> x")
    case True
    then have "month_loop ms (day - x) (Suc mon) = (d, m)" using Cons.prems(1) by simp
    from Cons.IH [OF this] Cons.prems True
    have ih: "Suc mon \<le> m" "m \<le> Suc mon + length ms" "day - x = d + sum_list (take (m - Suc mon) ms)"
      "0 \<le> d" "m < Suc mon + length ms \<longrightarrow> d < ms ! (m - Suc mon)" by auto
    have "m - mon = Suc (m - Suc mon)" using ih(1) by linarith
    then show ?thesis using ih by auto
  qed (use Cons.prems in auto)
qed simp

lemma mday_positive: "\<forall>x \<in> set mday. 0 < x"
  by (simp add: mday_def)

lemma mday_doy:
  "m < 48 \<Longrightarrow> int (m div 12) * 365 + (int (m div 12) + 1) div 4 + doy ! (m mod 12) - 1
     + (if m div 12 = 2 \<and> 2 \<le> m mod 12 then 1 else 0) = sum_list (take m mday)"
proof -
  have "list_all (\<lambda>m. int (m div 12) * 365 + (int (m div 12) + 1) div 4 + doy ! (m mod 12) - 1
     + (if m div 12 = 2 \<and> 2 \<le> m mod 12 then 1 else 0) = sum_list (take m mday)) [0..<48]"
    by code_simp
  then show "m < 48 \<Longrightarrow> ?thesis" by (auto simp: list_all_iff)
qed

lemma month_index:
  assumes "0 \<le> r" and "r < 1461" and "month_loop mday r 0 = (d, m)"
  shows "m < 48" and "0 \<le> d" and "d < mday ! m" and "r = d + sum_list (take m mday)"
proof -
  have s: "m \<le> 48" "r = d + sum_list (take m mday)" "0 \<le> d" "m < 48 \<longrightarrow> d < mday ! m"
    using month_loop_spec [OF assms(3) mday_positive assms(1)] by (simp_all add: mday_def)
  have "sum_list (take 48 mday) = 1461" by (simp add: mday_def)
  then have "m \<noteq> 48" using s(2,3) assms(2) by auto
  then show "m < 48" using s(1) by linarith
  then show "0 \<le> d" "d < mday ! m" "r = d + sum_list (take m mday)" using s by auto
qed

lemma month_range: "m < 48 \<Longrightarrow> m div 12 < 4 \<and> m mod 12 < (12 :: nat)"
  by (auto simp: less_mult_imp_div_less)

text \<open>The day number \<open>epoch2time\<close> computes from what \<open>time2epoch\<close> found.\<close>

lemma day_number:
  assumes "0 \<le> q" and "m < 48"
  shows "(1970 + q * 4 + int m div 12 - 1970) * 365 + (1970 + q * 4 + int m div 12 - 1969) sdiv 4
     + doy ! nat (int m mod 12 + 1 - 1) + (d + 1) - 2
     + (if (1970 + q * 4 + int m div 12) smod 4 = 0 \<and> int m mod 12 + 1 \<ge> 3 then 1 else 0)
     = 1461 * q + d + sum_list (take m mday)"
proof -
  define y where "y = int (m div 12)"
  have y: "int m div 12 = y" "0 \<le> y" "y < 4" using assms(2) by (auto simp: y_def of_nat_div)
  have mm: "int m mod 12 = int (m mod 12)" by (simp add: of_nat_mod)
  have leap: "(1970 + q * 4 + y) smod 4 = 0 \<longleftrightarrow> m div 12 = 2"
  proof -
    have "(1970 + q * 4 + y) mod 4 = (y + 2) mod 4" by presburger
    moreover have "(y + 2) mod 4 = 0 \<longleftrightarrow> y = 2" using y(2,3) by presburger
    moreover have "m div 12 = 2 \<longleftrightarrow> y = 2" by (simp add: y_def)
    ultimately show ?thesis using y assms(1) by (subst smod_nonneg) simp_all
  qed
  have quad: "(1970 + q * 4 + y - 1969) sdiv 4 = q + (y + 1) div 4"
    using y assms(1) by (subst sdiv_nonneg) auto
  show ?thesis
    using mday_doy [OF assms(2)] unfolding y(1) mm leap quad by (simp add: y_def algebra_simps)
qed

lemma epoch2time_ints:
  assumes "1970 \<le> Y" and "Y \<le> 2099" and "1 \<le> M" and "M \<le> 12"
  shows "epoch2time [of_int Y, of_int M, of_int D, of_int h, of_int mi, sx] =
    \<lparr>gt_time = ((Y - 1970) * 365 + (Y - 1969) sdiv 4 + doy ! nat (M - 1) + D - 2
        + (if Y smod 4 = 0 \<and> M \<ge> 3 then 1 else 0)) * 86400 + h * 3600 + mi * 60 + \<lfloor>sx\<rfloor>,
     gt_sec = sx - of_int \<lfloor>sx\<rfloor>\<rparr>"
  using assms by (simp add: epoch2time_def Let_def)

lemma epoch2time_time2epoch:
  assumes "normal_time t" and "0 \<le> gt_time t" and "gt_time t < 4102444800"
  shows "epoch2time (time2epoch t) = t"
proof -
  define T where "T = gt_time t"
  define days where "days = T div 86400"
  define q where "q = days div 1461"
  define s where "s = T mod 86400"
  obtain d m where dm: "month_loop mday (days mod 1461) 0 = (d, m)" by fastforce
  have days: "0 \<le> days" "days < 47482" using assms(2,3) by (simp_all add: days_def T_def div_less_iff_less_mult pos_imp_zdiv_nonneg_iff) 
  have q: "0 \<le> q" "q \<le> 32" using days by (simp_all add: q_def pos_imp_zdiv_nonneg_iff)
  have m: "m < 48" "days mod 1461 = d + sum_list (take m mday)"
    using month_index [OF _ _ dm] by simp_all
  have s: "0 \<le> s" "s < 86400" "T - days * 86400 = s"
    by (simp_all add: s_def days_def minus_div_mult_eq_mod)
  have ep: "time2epoch t = [of_int (1970 + q * 4 + int m div 12), of_int (int m mod 12 + 1),
      of_int (d + 1), of_int (s div 3600), of_int (s mod 3600 div 60), of_int (s mod 60) + gt_sec t]"
    using assms(2) days s dm
    by (simp add: time2epoch_def Let_def T_def [symmetric] sdiv_nonneg smod_nonneg days_def [symmetric]
        q_def)
  have y: "int m div 12 < 4" "0 \<le> int m div 12" using m(1) by auto
  have yr: "1970 + q * 4 + int m div 12 \<le> 2099"
  proof (cases "q = 32")
    case True
    then have "days mod 1461 = days - 46752" unfolding q_def using div_mult_mod_eq [of days 1461] by linarith
    moreover have "0 \<le> d" using month_index(2) [OF _ _ dm] by simp
    ultimately have "sum_list (take m mday) < 730" using m(2) days by linarith
    moreover have "24 \<le> m \<Longrightarrow> 730 \<le> sum_list (take m mday)"
    proof -
      assume "24 \<le> m"
      then have "take m mday = take 24 mday @ take (m - 24) (drop 24 mday)"
        by (metis le_add_diff_inverse take_add)
      moreover have "sum_list (take 24 mday) = 730" by (simp add: mday_def)
      moreover have "0 \<le> sum_list (take (m - 24) (drop 24 mday))"
        using mday_positive by (intro sum_list_nonneg) (fastforce dest: in_set_takeD in_set_dropD)
      ultimately show ?thesis by simp
    qed
    ultimately have "m < 24" by linarith
    then show ?thesis using True by auto
  qed (use q y in linarith)
  have fl: "\<lfloor>of_int (s mod 60) + gt_sec t\<rfloor> = s mod 60"
    using assms(1) unfolding normal_time_def by linarith
  have hms: "s div 3600 * 3600 + s mod 3600 div 60 * 60 + s mod 60 = s"
  proof -
    have "s mod 3600 mod 60 = s mod 60" by (rule mod_mod_cancel) simp
    then show ?thesis
      using div_mult_mod_eq [of s 3600] div_mult_mod_eq [of "s mod 3600" 60] by linarith
  qed
  have T: "T = (1461 * q + d + sum_list (take m mday)) * 86400 + s"
    using s(3) m(2) div_mult_mod_eq [of days 1461] unfolding q_def by (simp add: algebra_simps)
  have r: "1970 \<le> 1970 + q * 4 + int m div 12" "1 \<le> int m mod 12 + 1" "int m mod 12 + 1 \<le> 12"
    using q y pos_mod_bound [of 12 "int m"] by simp_all
  have "gt_time (epoch2time (time2epoch t)) = T"
    unfolding ep epoch2time_ints [OF r(1) yr r(2,3)] gtime.simps day_number [OF q(1) m(1)] fl
    using hms T by linarith
  moreover have "gt_sec (epoch2time (time2epoch t)) = gt_sec t"
    unfolding ep epoch2time_ints [OF r(1) yr r(2,3)] gtime.simps fl by linarith
  ultimately show ?thesis unfolding T_def by (rule gtime.equality) simp
qed

end
