(* ===== verification/RtcmTypes.thy ===== *)
theory RtcmTypes
  imports BitFields Crc ObsCode GTime
begin

text \<open>
  The structs of \<^verbatim>\<open>rtklib.h\<close> that the RTCM codec works on: observation record, broadcast
  ephemerides, SSR corrections, station parameters and the control struct \<open>rtcm_t\<close>, with
  the member names of the code behind a prefix for the struct.  A C array is a list of the
  array's length; a character array is the string in it.  Members that only carry diagnostic
  text (\<open>outtype\<close>, \<open>msgtype\<close>) are left out.

  The environment of a decoder is what it reads outside its struct: the clock of the machine
  and the table of code priorities, a global of \<^verbatim>\<open>rtkcmn.c\<close>.
\<close>

abbreviation (input) MAXOBS :: nat where "MAXOBS \<equiv> 96"
abbreviation (input) MAXANT :: nat where "MAXANT \<equiv> 64"
abbreviation (input) NOBS :: nat where "NOBS \<equiv> 11"    \<comment> \<open>\<^verbatim>\<open>NFREQ+NEXOBS\<close>\<close>

record env =
  now :: gtime
  pris :: pritable

definition time0 :: gtime where "time0 = \<lparr>gt_time = 0, gt_sec = 0\<rparr>"

record obsd =
  ob_time :: gtime
  ob_sat :: int
  ob_rcv :: int
  ob_SNR :: "int list"
  ob_LLI :: "int list"
  ob_code :: "nat list"
  ob_L :: "double list"
  ob_P :: "double list"
  ob_D :: "double list"

definition data0 :: obsd where
  "data0 = \<lparr>ob_time = time0, ob_sat = 0, ob_rcv = 0, ob_SNR = replicate NOBS 0,
     ob_LLI = replicate NOBS 0, ob_code = replicate NOBS 0, ob_L = replicate NOBS 0,
     ob_P = replicate NOBS 0, ob_D = replicate NOBS 0\<rparr>"

record eph =
  eph_sat :: int
  eph_iode :: int
  eph_iodc :: int
  eph_sva :: int
  eph_svh :: int
  eph_week :: int
  eph_code :: int
  eph_flag :: int
  eph_toe :: gtime
  eph_toc :: gtime
  eph_ttr :: gtime
  eph_A :: double
  eph_e :: double
  eph_i0 :: double
  eph_OMG0 :: double
  eph_omg :: double
  eph_M0 :: double
  eph_deln :: double
  eph_OMGd :: double
  eph_idot :: double
  eph_crc :: double
  eph_crs :: double
  eph_cuc :: double
  eph_cus :: double
  eph_cic :: double
  eph_cis :: double
  eph_toes :: double
  eph_fit :: double
  eph_f0 :: double
  eph_f1 :: double
  eph_f2 :: double
  eph_tgd :: "double list"
  eph_Adot :: double
  eph_ndot :: double

text \<open>\<^verbatim>\<open>eph_t eph={0}\<close>.\<close>

definition eph_zero :: eph where
  "eph_zero = \<lparr>eph_sat = 0, eph_iode = 0, eph_iodc = 0, eph_sva = 0, eph_svh = 0, eph_week = 0,
     eph_code = 0, eph_flag = 0, eph_toe = time0, eph_toc = time0, eph_ttr = time0,
     eph_A = 0, eph_e = 0, eph_i0 = 0, eph_OMG0 = 0, eph_omg = 0, eph_M0 = 0, eph_deln = 0,
     eph_OMGd = 0, eph_idot = 0, eph_crc = 0, eph_crs = 0, eph_cuc = 0, eph_cus = 0, eph_cic = 0,
     eph_cis = 0, eph_toes = 0, eph_fit = 0, eph_f0 = 0, eph_f1 = 0, eph_f2 = 0,
     eph_tgd = replicate 6 0, eph_Adot = 0, eph_ndot = 0\<rparr>"

record geph =
  ge_sat :: int
  ge_iode :: int
  ge_frq :: int
  ge_svh :: int
  ge_sva :: int
  ge_age :: int
  ge_toe :: gtime
  ge_tof :: gtime
  ge_pos :: "double list"
  ge_vel :: "double list"
  ge_acc :: "double list"
  ge_taun :: double
  ge_gamn :: double
  ge_dtaun :: double

definition geph_zero :: geph where
  "geph_zero = \<lparr>ge_sat = 0, ge_iode = 0, ge_frq = 0, ge_svh = 0, ge_sva = 0, ge_age = 0,
     ge_toe = time0, ge_tof = time0, ge_pos = replicate 3 0, ge_vel = replicate 3 0,
     ge_acc = replicate 3 0, ge_taun = 0, ge_gamn = 0, ge_dtaun = 0\<rparr>"

record ssr =
  ssr_t0 :: "gtime list"
  ssr_udi :: "double list"
  ssr_iod :: "int list"
  ssr_iode :: int
  ssr_iodcrc :: int
  ssr_ura :: int
  ssr_refd :: int
  ssr_deph :: "double list"
  ssr_ddeph :: "double list"
  ssr_dclk :: "double list"
  ssr_hrclk :: double
  ssr_cbias :: "double list"
  ssr_pbias :: "double list"
  ssr_stdpb :: "double list"
  ssr_yaw_ang :: double
  ssr_yaw_rate :: double
  ssr_update :: int

definition ssr0 :: ssr where
  "ssr0 = \<lparr>ssr_t0 = replicate 6 time0, ssr_udi = replicate 6 0, ssr_iod = replicate 6 0,
     ssr_iode = 0, ssr_iodcrc = 0, ssr_ura = 0, ssr_refd = 0, ssr_deph = replicate 3 0,
     ssr_ddeph = replicate 3 0, ssr_dclk = replicate 3 0, ssr_hrclk = 0,
     ssr_cbias = replicate MAXCODE 0, ssr_pbias = replicate MAXCODE 0,
     ssr_stdpb = replicate MAXCODE 0, ssr_yaw_ang = 0, ssr_yaw_rate = 0, ssr_update = 0\<rparr>"

record sta =
  sta_name :: string
  sta_marker :: string
  sta_antdes :: string
  sta_antsno :: string
  sta_rectype :: string
  sta_recver :: string
  sta_recsno :: string
  sta_antsetup :: int
  sta_itrf :: int
  sta_deltype :: int
  sta_pos :: "double list"
  sta_del :: "double list"
  sta_hgt :: double
  sta_glo_cp_align :: int
  sta_glo_cp_bias :: "double list"

text \<open>The members of \<open>nav_t\<close> the codec uses.\<close>

record nav =
  nav_ng :: nat
  nav_eph :: "eph list"
  nav_geph :: "geph list"
  nav_glo_fcn :: "int list"
  nav_utc_gps :: "double list"

text \<open>A differential correction (RTCM 2).\<close>

record dgps =
  dg_t0 :: gtime
  dg_prc :: double
  dg_rrc :: double
  dg_iod :: int
  dg_udre :: double

text \<open>
  The control struct.  \<open>dgps\<close> is a pointer: None is NULL, Some the array of the
  navigation data the server connects.
\<close>

record rtcm =
  r_staid :: int
  r_stah :: int
  r_seqno :: int
  r_time :: gtime
  r_time_s :: gtime
  r_obs_n :: nat
  r_obs :: "obsd list"
  r_nav :: nav
  r_sta :: sta
  r_dgps :: "dgps list option"
  r_ssr :: "ssr list"
  r_msg :: string
  r_msmtype :: "string list"
  r_obsflag :: int
  r_ephsat :: int
  r_ephset :: int
  r_cp :: "double list list"
  r_lock :: "int list list"
  r_loss :: "int list list"
  r_lltime :: "gtime list list"
  r_nbyte :: nat
  r_nbit :: nat
  r_len :: nat
  r_buff :: "u8 list"
  r_word :: u32
  r_nmsg2 :: "int list"
  r_nmsg3 :: "int list"
  r_opt :: string

section \<open>Initial state\<close>

definition eph0 :: eph where "eph0 = eph_zero\<lparr>eph_iode := -1, eph_iodc := -1\<rparr>"
definition geph0 :: geph where "geph0 = geph_zero\<lparr>ge_iode := -1\<rparr>"

text \<open>
  \<open>init_rtcm\<close>, for the case that memory can be allocated: it resets the members it names
  and keeps the others (\<open>ephset\<close>, the message buffer, \<open>glo_fcn\<close>, the GLONASS biases
  of the station, the last of the seven MSM signal strings).
\<close>

definition init_rtcm :: "rtcm \<Rightarrow> rtcm" where
  "init_rtcm rtcm =
    rtcm\<lparr>r_staid := 0, r_stah := 0, r_seqno := 0, r_time := time0, r_time_s := time0,
      r_sta := (r_sta rtcm)\<lparr>sta_name := [], sta_marker := [], sta_antdes := [], sta_antsno := [],
        sta_rectype := [], sta_recver := [], sta_recsno := [], sta_antsetup := 0, sta_itrf := 0,
        sta_deltype := 0, sta_pos := replicate 3 0, sta_del := replicate 3 0, sta_hgt := 0\<rparr>,
      r_dgps := None, r_ssr := replicate 221 ssr0, r_msg := [], r_opt := [],
      r_msmtype := replicate 6 [] @ drop 6 (r_msmtype rtcm),
      r_obsflag := 0, r_ephsat := 0,
      r_cp := replicate 221 (replicate NOBS 0), r_lock := replicate 221 (replicate NOBS 0),
      r_loss := replicate 221 (replicate NOBS 0), r_lltime := replicate 221 (replicate NOBS time0),
      r_nbyte := 0, r_nbit := 0, r_len := 0, r_word := 0,
      r_nmsg2 := replicate 100 0, r_nmsg3 := replicate 400 0,
      r_obs_n := 0, r_obs := replicate MAXOBS data0,
      r_nav := (r_nav rtcm)\<lparr>nav_eph := replicate 442 eph0, nav_ng := 27,
        nav_geph := replicate 27 geph0\<rparr>\<rparr>"

text \<open>A control struct in zeroed memory, as the servers of the program allocate it.\<close>

definition rtcm_zero :: rtcm where
  "rtcm_zero = \<lparr>r_staid = 0, r_stah = 0, r_seqno = 0, r_time = time0, r_time_s = time0,
     r_obs_n = 0, r_obs = [],
     r_nav = \<lparr>nav_ng = 0, nav_eph = [], nav_geph = [], nav_glo_fcn = replicate 32 0,
       nav_utc_gps = replicate 8 0\<rparr>,
     r_sta = \<lparr>sta_name = [], sta_marker = [], sta_antdes = [], sta_antsno = [], sta_rectype = [],
       sta_recver = [], sta_recsno = [], sta_antsetup = 0, sta_itrf = 0, sta_deltype = 0,
       sta_pos = replicate 3 0, sta_del = replicate 3 0, sta_hgt = 0, sta_glo_cp_align = 0,
       sta_glo_cp_bias = replicate 4 0\<rparr>,
     r_dgps = None, r_ssr = [], r_msg = [], r_msmtype = replicate 7 [], r_obsflag = 0, r_ephsat = 0, r_ephset = 0,
     r_cp = [], r_lock = [], r_loss = [], r_lltime = [], r_nbyte = 0, r_nbit = 0, r_len = 0,
     r_buff = replicate 1200 0, r_word = 0, r_nmsg2 = [], r_nmsg3 = [], r_opt = []\<rparr>"

section \<open>Well-formed control structs\<close>

text \<open>The sizes of the arrays, the bounds of the counters and of the satellite records.\<close>

definition rect :: "nat \<Rightarrow> nat \<Rightarrow> 'a list list \<Rightarrow> bool" where
  "rect n m xss \<longleftrightarrow> length xss = n \<and> (\<forall>xs \<in> set xss. length xs = m)"

definition obs_sats :: "rtcm \<Rightarrow> int list" where
  "obs_sats rtcm = map ob_sat (take (r_obs_n rtcm) (r_obs rtcm))"

definition wf_obsd :: "obsd \<Rightarrow> bool" where
  "wf_obsd d \<longleftrightarrow> length (ob_SNR d) = NOBS \<and> length (ob_LLI d) = NOBS \<and> length (ob_code d) = NOBS \<and>
     length (ob_L d) = NOBS \<and> length (ob_P d) = NOBS \<and> length (ob_D d) = NOBS"

definition wf_obs :: "rtcm \<Rightarrow> bool" where
  "wf_obs rtcm \<longleftrightarrow> length (r_obs rtcm) = MAXOBS \<and> r_obs_n rtcm \<le> MAXOBS \<and>
     (\<forall>d \<in> set (r_obs rtcm). wf_obsd d) \<and> distinct (obs_sats rtcm) \<and>
     (\<forall>sat \<in> set (obs_sats rtcm). 1 \<le> sat \<and> sat \<le> MAXSAT)"

definition wf_nav :: "nav \<Rightarrow> bool" where
  "wf_nav nv \<longleftrightarrow> length (nav_eph nv) = 442 \<and> length (nav_geph nv) = 27 \<and>
     length (nav_glo_fcn nv) = 32 \<and> length (nav_utc_gps nv) = 8 \<and> nav_ng nv = 27"

definition wf_ssr :: "ssr \<Rightarrow> bool" where
  "wf_ssr s \<longleftrightarrow> length (ssr_t0 s) = 6 \<and> length (ssr_udi s) = 6 \<and> length (ssr_iod s) = 6 \<and>
     length (ssr_deph s) = 3 \<and> length (ssr_ddeph s) = 3 \<and> length (ssr_dclk s) = 3 \<and>
     length (ssr_cbias s) = MAXCODE \<and> length (ssr_pbias s) = MAXCODE \<and> length (ssr_stdpb s) = MAXCODE"

definition wf_sta :: "sta \<Rightarrow> bool" where
  "wf_sta s \<longleftrightarrow> length (sta_antdes s) < MAXANT \<and> length (sta_antsno s) < MAXANT \<and>
     length (sta_rectype s) < MAXANT \<and> length (sta_recver s) < MAXANT \<and>
     length (sta_recsno s) < MAXANT \<and> length (sta_name s) < MAXANT \<and>
     length (sta_pos s) = 3 \<and> length (sta_del s) = 3 \<and> length (sta_glo_cp_bias s) = 4"

definition wf_state :: "rtcm \<Rightarrow> bool" where
  "wf_state rtcm \<longleftrightarrow> wf_obs rtcm \<and> wf_nav (r_nav rtcm) \<and> wf_sta (r_sta rtcm) \<and>
     length (r_ssr rtcm) = 221 \<and> (\<forall>s \<in> set (r_ssr rtcm). wf_ssr s) \<and>
     (\<forall>ds. r_dgps rtcm = Some ds \<longrightarrow> length ds = 221) \<and>
     rect 221 NOBS (r_cp rtcm) \<and> rect 221 NOBS (r_lock rtcm) \<and> rect 221 NOBS (r_loss rtcm) \<and>
     rect 221 NOBS (r_lltime rtcm) \<and> length (r_msg rtcm) < 128 \<and> length (r_msmtype rtcm) = 7 \<and>
     length (r_nmsg2 rtcm) = 100 \<and> length (r_nmsg3 rtcm) = 400 \<and> length (r_buff rtcm) = 1200"

lemma wf_data0: "wf_obsd data0"
  by (simp add: wf_obsd_def data0_def)

lemma wf_ssr0: "wf_ssr ssr0"
  by (simp add: wf_ssr_def ssr0_def)

lemma rect_replicate [simp]: "rect n m (replicate n (replicate m x))"
  by (simp add: rect_def)

lemma wf_init_rtcm:
  assumes "length (r_buff rtcm) = 1200" and "length (nav_glo_fcn (r_nav rtcm)) = 32"
    and "length (nav_utc_gps (r_nav rtcm)) = 8"
    and "length (sta_glo_cp_bias (r_sta rtcm)) = 4" and "length (r_msmtype rtcm) = 7"
  shows "wf_state (init_rtcm rtcm)"
  using assms
  by (auto simp: wf_state_def wf_obs_def wf_nav_def wf_sta_def init_rtcm_def obs_sats_def
      wf_data0 wf_ssr0)

section \<open>Two-dimensional arrays\<close>

definition upd2 :: "'a list list \<Rightarrow> nat \<Rightarrow> nat \<Rightarrow> 'a \<Rightarrow> 'a list list" where
  "upd2 xss i j x = xss[i := (xss ! i)[j := x]]"

lemma rect_upd2 [sizes]: "rect n m xss \<Longrightarrow> rect n m (upd2 xss i j x)"
proof -
  assume r: "rect n m xss"
  show ?thesis
  proof (cases "i < length xss")
    case True
    then have "length ((xss ! i)[j := x]) = m" using r by (simp add: rect_def)
    then show ?thesis
      using r set_update_subset_insert [of xss i "(xss ! i)[j := x]"]
      by (auto simp: rect_def upd2_def)
  qed (use r in \<open>simp add: upd2_def list_update_beyond\<close>)
qed

lemma upd2_nth:
  "rect n m xss \<Longrightarrow> i < n \<Longrightarrow> j < m \<Longrightarrow>
   upd2 xss i j x ! i' ! j' = (if i' = i \<and> j' = j then x else xss ! i' ! j')"
  by (auto simp: upd2_def rect_def nth_list_update)

end
