(* ===== verification/RtcmInv.thy ===== *)
theory RtcmInv
  imports RtcmTypes
begin

text \<open>
  What the decoders do to the control struct, as an interface: a locale of the elementary updates
  every decoder is made of.  A predicate closed under them is kept by every decoder; the lemmas that
  say so are proved once, in the locale, beside the decoders.  The interpretations are the
  well-formedness of the struct and the frame property that a decoder leaves the message buffer, its
  counters and the options alone.
\<close>

section \<open>Elementary updates keep the struct well-formed\<close>

lemma wf_state_simps [simp]:
  "wf_state (rtcm\<lparr>r_staid := i1\<rparr>) = wf_state rtcm"
  "wf_state (rtcm\<lparr>r_stah := i1\<rparr>) = wf_state rtcm"
  "wf_state (rtcm\<lparr>r_seqno := i1\<rparr>) = wf_state rtcm"
  "wf_state (rtcm\<lparr>r_time := t\<rparr>) = wf_state rtcm"
  "wf_state (rtcm\<lparr>r_time_s := t\<rparr>) = wf_state rtcm"
  "wf_state (rtcm\<lparr>r_obsflag := i1\<rparr>) = wf_state rtcm"
  "wf_state (rtcm\<lparr>r_ephsat := i1\<rparr>) = wf_state rtcm"
  "wf_state (rtcm\<lparr>r_ephset := i1\<rparr>) = wf_state rtcm"
  "wf_state (rtcm\<lparr>r_nbyte := n\<rparr>) = wf_state rtcm"
  "wf_state (rtcm\<lparr>r_nbit := n\<rparr>) = wf_state rtcm"
  "wf_state (rtcm\<lparr>r_len := n\<rparr>) = wf_state rtcm"
  "wf_state (rtcm\<lparr>r_word := w\<rparr>) = wf_state rtcm"
  "wf_state (rtcm\<lparr>r_opt := s\<rparr>) = wf_state rtcm"
  by (simp_all add: wf_state_def wf_obs_def obs_sats_def)

lemma Ball_list_update:
  "\<forall>x \<in> set xs. Q x \<Longrightarrow> (Q (xs ! k) \<Longrightarrow> Q y) \<Longrightarrow> \<forall>x \<in> set (xs[k := y]). Q x"
proof (cases "k < length xs")
  case True
  assume "\<forall>x \<in> set xs. Q x" "Q (xs ! k) \<Longrightarrow> Q y"
  then show ?thesis using True set_update_subset_insert [of xs k y] by auto
qed (simp add: list_update_beyond)

lemma wf_obs_update:
  assumes "wf_obs rtcm" and "\<And>d. ob_sat (f d) = ob_sat d" and "\<And>d. wf_obsd d \<Longrightarrow> wf_obsd (f d)"
    and "rtcm' = rtcm\<lparr>r_obs := (r_obs rtcm)[k := f (r_obs rtcm ! k)]\<rparr>"
  shows "wf_obs rtcm'" and "obs_sats rtcm' = obs_sats rtcm"
proof -
  show sats: "obs_sats rtcm' = obs_sats rtcm"
    using assms(2) unfolding assms(4)
    by (cases "k < length (r_obs rtcm)")
       (auto simp: obs_sats_def list_eq_iff_nth_eq nth_list_update)
  have "\<forall>d \<in> set ((r_obs rtcm)[k := f (r_obs rtcm ! k)]). wf_obsd d"
    using assms(1,3) by (intro Ball_list_update) (auto simp: wf_obs_def)
  then show "wf_obs rtcm'"
    using assms(1) sats unfolding wf_obs_def by (simp add: assms(4))
qed

lemma wf_obs_new:
  assumes "wf_obs rtcm" and "r_obs_n rtcm < MAXOBS" and "1 \<le> sat" and "sat \<le> MAXSAT"
    and "sat \<notin> set (obs_sats rtcm)" and "ob_sat d = sat" and "wf_obsd d"
    and "rtcm' = rtcm\<lparr>r_obs := (r_obs rtcm)[r_obs_n rtcm := d], r_obs_n := r_obs_n rtcm + 1\<rparr>"
  shows "wf_obs rtcm'" and "obs_sats rtcm' = obs_sats rtcm @ [sat]"
proof -
  have n: "r_obs_n rtcm < length (r_obs rtcm)" using assms(1,2) by (simp add: wf_obs_def)
  show sats: "obs_sats rtcm' = obs_sats rtcm @ [sat]"
    using n assms(6) by (simp add: assms(8) obs_sats_def take_Suc_conv_app_nth)
  have "\<forall>d' \<in> set ((r_obs rtcm)[r_obs_n rtcm := d]). wf_obsd d'"
    using assms(1,7) by (intro Ball_list_update) (auto simp: wf_obs_def)
  then show "wf_obs rtcm'"
    using assms(1-5) sats unfolding wf_obs_def by (simp add: assms(8))
qed

section \<open>The interface\<close>

locale rtcm_invariant =
  fixes P :: "rtcm \<Rightarrow> bool"
  assumes P_staid: "P rtcm \<Longrightarrow> P (rtcm\<lparr>r_staid := i\<rparr>)"
    and P_time: "P rtcm \<Longrightarrow> P (rtcm\<lparr>r_time := t\<rparr>)"
    and P_obsflag: "P rtcm \<Longrightarrow> P (rtcm\<lparr>r_obsflag := i\<rparr>)"
    and P_ephsat: "P rtcm \<Longrightarrow> P (rtcm\<lparr>r_ephsat := i\<rparr>)"
    and P_ephset: "P rtcm \<Longrightarrow> P (rtcm\<lparr>r_ephset := i\<rparr>)"
    and P_cp: "P rtcm \<Longrightarrow> P (rtcm\<lparr>r_cp := upd2 (r_cp rtcm) j k x\<rparr>)"
    and P_lock: "P rtcm \<Longrightarrow> P (rtcm\<lparr>r_lock := upd2 (r_lock rtcm) j k i\<rparr>)"
    and P_nav: "P rtcm \<Longrightarrow> (wf_nav (r_nav rtcm) \<Longrightarrow> wf_nav nv) \<Longrightarrow> P (rtcm\<lparr>r_nav := nv\<rparr>)"
    and P_sta: "P rtcm \<Longrightarrow> (wf_sta (r_sta rtcm) \<Longrightarrow> wf_sta s) \<Longrightarrow> P (rtcm\<lparr>r_sta := s\<rparr>)"
    and P_obs: "P rtcm \<Longrightarrow> (\<And>d. ob_sat (f d) = ob_sat d) \<Longrightarrow> (\<And>d. wf_obsd d \<Longrightarrow> wf_obsd (f d)) \<Longrightarrow>
      P (rtcm\<lparr>r_obs := (r_obs rtcm)[k := f (r_obs rtcm ! k)]\<rparr>)"
    and P_obs_clear: "P rtcm \<Longrightarrow> P (rtcm\<lparr>r_obs_n := 0\<rparr>)"
    and P_obs_new: "P rtcm \<Longrightarrow> r_obs_n rtcm < MAXOBS \<Longrightarrow> 1 \<le> sat \<Longrightarrow> sat \<le> MAXSAT \<Longrightarrow>
      sat \<notin> set (obs_sats rtcm) \<Longrightarrow> ob_sat d = sat \<Longrightarrow> wf_obsd d \<Longrightarrow>
      P (rtcm\<lparr>r_obs := (r_obs rtcm)[r_obs_n rtcm := d], r_obs_n := r_obs_n rtcm + 1\<rparr>)"
    and P_ssr: "P rtcm \<Longrightarrow> (\<And>s. wf_ssr s \<Longrightarrow> wf_ssr (g s)) \<Longrightarrow>
      P (rtcm\<lparr>r_ssr := (r_ssr rtcm)[k := g (r_ssr rtcm ! k)]\<rparr>)"
    and P_msg: "P rtcm \<Longrightarrow> length txt < 128 \<Longrightarrow> P (rtcm\<lparr>r_msg := txt\<rparr>)"
    and P_msmtype: "P rtcm \<Longrightarrow> P (rtcm\<lparr>r_msmtype := (r_msmtype rtcm)[k := txt]\<rparr>)"
    and P_nmsg3: "P rtcm \<Longrightarrow> P (rtcm\<lparr>r_nmsg3 := (r_nmsg3 rtcm)[k := i]\<rparr>)"
begin

lemmas P_simps [simp, wf_intros] = P_staid P_time P_obsflag P_ephsat P_ephset P_obs_clear P_cp P_lock
  P_msmtype P_nmsg3

end

interpretation wf: rtcm_invariant wf_state
proof
  fix rtcm f k
  assume "wf_state rtcm" "\<And>d. ob_sat (f d) = ob_sat d" "\<And>d. wf_obsd d \<Longrightarrow> wf_obsd (f d)"
  then show "wf_state (rtcm\<lparr>r_obs := (r_obs rtcm)[k := f (r_obs rtcm ! k)]\<rparr>)"
    using wf_obs_update(1) [of rtcm f _ k] by (simp add: wf_state_def)
next
  fix rtcm sat d
  assume "wf_state rtcm" "r_obs_n rtcm < MAXOBS" "1 \<le> sat" "sat \<le> MAXSAT"
    "sat \<notin> set (obs_sats rtcm)" "ob_sat d = sat" "wf_obsd d"
  then show "wf_state (rtcm\<lparr>r_obs := (r_obs rtcm)[r_obs_n rtcm := d], r_obs_n := r_obs_n rtcm + 1\<rparr>)"
    using wf_obs_new(1) [of rtcm sat d] by (simp add: wf_state_def)
next
  fix rtcm g k
  assume a: "wf_state rtcm" "\<And>s. wf_ssr s \<Longrightarrow> wf_ssr (g s)"
  have "\<forall>s \<in> set ((r_ssr rtcm)[k := g (r_ssr rtcm ! k)]). wf_ssr s"
    using a by (intro Ball_list_update) (auto simp: wf_state_def)
  then show "wf_state (rtcm\<lparr>r_ssr := (r_ssr rtcm)[k := g (r_ssr rtcm ! k)]\<rparr>)"
    using a(1) by (simp add: wf_state_def wf_obs_def obs_sats_def)
qed (simp_all add: wf_state_def wf_obs_def obs_sats_def rect_upd2)

text \<open>The members a decoder does not touch.\<close>

definition same_frame :: "rtcm \<Rightarrow> rtcm \<Rightarrow> bool" where
  "same_frame r0 rtcm \<longleftrightarrow> r_nbyte rtcm = r_nbyte r0 \<and> r_nbit rtcm = r_nbit r0 \<and> r_len rtcm = r_len r0 \<and>
     r_buff rtcm = r_buff r0 \<and> r_word rtcm = r_word r0 \<and> r_opt rtcm = r_opt r0"

interpretation frame: rtcm_invariant "same_frame r0" for r0
  by unfold_locales (simp_all add: same_frame_def)

lemma same_frame_refl [simp]: "same_frame rtcm rtcm"
  by (simp add: same_frame_def)

end
