(* ===== verification/Rtcm3Obs.thy ===== *)
theory Rtcm3Obs
  imports RtcmInv
begin

text \<open>
  Observation messages of \<^verbatim>\<open>rtcm3.c\<close>: time and station handling shared by all decoders, the
  observation buffer, and the decoders of the messages 1001 to 1004 (GPS) and 1009 to 1012
  (GLONASS).  A decoder takes the control struct with the frame in its buffer and returns the
  struct it leaves and its status.
\<close>

section \<open>Constants\<close>

definition CLIGHT :: double where "CLIGHT = 299792458"
definition PRUNIT_GPS :: double where "PRUNIT_GPS = 299792.458"
definition PRUNIT_GLO :: double where "PRUNIT_GLO = 599584.916"
definition RANGE_MS :: double where "RANGE_MS = CLIGHT * 0.001"


section \<open>Time\<close>

definition get_time :: "env \<Rightarrow> rtcm \<Rightarrow> rtcm" where
  "get_time e rtcm = (if gt_time (r_time rtcm) = 0 then rtcm\<lparr>r_time := utc2gpst (now e)\<rparr> else rtcm)"

definition adjweek :: "env \<Rightarrow> rtcm \<Rightarrow> double \<Rightarrow> rtcm" where
  "adjweek e rtcm tow =
    (let rtcm = get_time e rtcm;
         (tow_p, week) = time2gpst (r_time rtcm);
         tow = (if tow < tow_p - 302400 then tow + 604800
                else if tow > tow_p + 302400 then tow - 604800 else tow)
     in rtcm\<lparr>r_time := gpst2time week tow\<rparr>)"

definition adjbdtweek :: "env \<Rightarrow> int \<Rightarrow> int" where
  "adjbdtweek e week =
    (let (_, w) = time2bdt (gpst2bdt (utc2gpst (now e))); w = (if w < 1 then 1 else w)
     in week + (w - week + 512) sdiv 1024 * 1024)"

definition adjday_glot :: "env \<Rightarrow> rtcm \<Rightarrow> double \<Rightarrow> rtcm" where
  "adjday_glot e rtcm tod =
    (let rtcm = get_time e rtcm;
         time = timeadd (gpst2utc (r_time rtcm)) 10800;
         (tow, week) = time2gpst time;
         tod_p = fmod tow 86400;
         tow = tow - tod_p;
         tod = (if tod < tod_p - 43200 then tod + 86400
                else if tod > tod_p + 43200 then tod - 86400 else tod);
         time = gpst2time week (tow + tod)
     in rtcm\<lparr>r_time := utc2gpst (timeadd time (-10800))\<rparr>)"

section \<open>Phase, lock and signal strength\<close>

definition adjcp :: "rtcm \<Rightarrow> int \<Rightarrow> nat \<Rightarrow> double \<Rightarrow> rtcm \<times> double" where
  "adjcp rtcm sat idx cp =
    (let p = r_cp rtcm ! nat (sat - 1) ! idx;
         cp = (if p = 0 then cp
               else if cp < p - 750 then cp + 1500
               else if cp > p + 750 then cp - 1500 else cp)
     in (rtcm\<lparr>r_cp := upd2 (r_cp rtcm) (nat (sat - 1)) idx cp\<rparr>, cp))"

definition lossoflock :: "rtcm \<Rightarrow> int \<Rightarrow> nat \<Rightarrow> int \<Rightarrow> rtcm \<times> int" where
  "lossoflock rtcm sat idx lock =
    (let p = r_lock rtcm ! nat (sat - 1) ! idx;
         lli = (if lock = 0 \<and> p = 0 \<or> lock < p then 1 else 0)
     in (rtcm\<lparr>r_lock := upd2 (r_lock rtcm) (nat (sat - 1)) idx (lock mod 65536)\<rparr>, lli))"

definition snratio :: "double \<Rightarrow> int" where
  "snratio snr = (if snr \<le> 0 \<or> 100 \<le> snr then 0 else trunc (snr / 0.001 + 0.5) mod 65536)"

section \<open>The observation buffer\<close>

fun find_sat :: "obsd list \<Rightarrow> int \<Rightarrow> nat \<Rightarrow> nat option" where
  "find_sat [] sat i = None"
| "find_sat (d # ds) sat i = (if ob_sat d = sat then Some i else find_sat ds sat (i + 1))"

definition obsindex :: "rtcm \<Rightarrow> gtime \<Rightarrow> int \<Rightarrow> rtcm \<times> int" where
  "obsindex rtcm time sat =
    (case find_sat (take (r_obs_n rtcm) (r_obs rtcm)) sat 0 of
       Some i \<Rightarrow> (rtcm, int i)
     | None \<Rightarrow>
         (let i = r_obs_n rtcm in
          if i \<ge> MAXOBS then (rtcm, -1)
          else (rtcm\<lparr>r_obs := (r_obs rtcm)[i := (r_obs rtcm ! i)
                   \<lparr>ob_time := time, ob_sat := sat, ob_L := replicate NOBS 0, ob_P := replicate NOBS 0,
                    ob_D := replicate NOBS 0, ob_SNR := replicate NOBS 0, ob_LLI := replicate NOBS 0,
                    ob_code := replicate NOBS 0\<rparr>],
                 r_obs_n := i + 1\<rparr>, int i)))"

text \<open>The statements every observation decoder starts a record with: a new epoch empties the buffer.\<close>

definition new_epoch :: "rtcm \<Rightarrow> rtcm" where
  "new_epoch rtcm =
    (let tt = timediff (ob_time (r_obs rtcm ! 0)) (r_time rtcm) in
     if r_obsflag rtcm \<noteq> 0 \<or> \<bar>tt\<bar> > 1 / 10 ^ 9 then rtcm\<lparr>r_obs_n := 0, r_obsflag := 0\<rparr> else rtcm)"

definition obs_entry :: "rtcm \<Rightarrow> int \<Rightarrow> rtcm \<times> int" where
  "obs_entry rtcm sat = (let rtcm = new_epoch rtcm in obsindex rtcm (r_time rtcm) sat)"

definition upd_obs :: "rtcm \<Rightarrow> nat \<Rightarrow> (obsd \<Rightarrow> obsd) \<Rightarrow> rtcm" where
  "upd_obs rtcm index f = rtcm\<lparr>r_obs := (r_obs rtcm)[index := f (r_obs rtcm ! index)]\<rparr>"

section \<open>Station ids\<close>

fun strstr :: "string \<Rightarrow> string \<Rightarrow> string option" where
  "strstr [] s = (if s = [] then Some [] else None)"
| "strstr (c # cs) s = (if take (length s) (c # cs) = s then Some (c # cs) else strstr cs s)"

definition test_staid :: "rtcm \<Rightarrow> int \<Rightarrow> rtcm \<times> bool" where
  "test_staid rtcm staid =
    (let reject =
       (case strstr (r_opt rtcm) ''-STA='' of None \<Rightarrow> False
        | Some p \<Rightarrow> (case scan_d (drop 5 p) of None \<Rightarrow> False | Some (sid, _) \<Rightarrow> staid \<noteq> sid))
     in if reject then (rtcm, False)
        else if r_staid rtcm = 0 \<or> r_obsflag rtcm \<noteq> 0 then (rtcm\<lparr>r_staid := staid\<rparr>, True)
        else if staid \<noteq> r_staid rtcm then (rtcm\<lparr>r_staid := 0\<rparr>, False)
        else (rtcm, True))"

section \<open>GPS observations\<close>

text \<open>The header returns the number of satellites and the synchronous flag, None for -1.\<close>

definition decode_head1001 :: "env \<Rightarrow> rtcm \<Rightarrow> rtcm \<times> (int \<times> int) option" where
  "decode_head1001 e rtcm =
    (if 24 + 12 + 52 \<le> r_len rtcm * 8
     then let b = r_buff rtcm;
              (staid, tow, sync, nsat) =
                fst (run_state (do { staid \<leftarrow> rdu b 12; tow \<leftarrow> rdu b 30; sync \<leftarrow> rdu b 1;
                                     nsat \<leftarrow> rdu b 5; State_Monad.return (staid, tow, sync, nsat) }) 36);
              (rtcm, ok) = test_staid rtcm staid
          in if \<not> ok then (rtcm, None)
             else (adjweek e rtcm (of_int tow * 0.001), Some (nsat, sync))
     else (rtcm, None))"

definition obs_status :: "int \<Rightarrow> int" where
  "obs_status sync = (if sync \<noteq> 0 then 0 else 1)"

definition decode_type1001 :: "env \<Rightarrow> rtcm \<Rightarrow> rtcm \<times> int" where
  "decode_type1001 e rtcm =
    (case decode_head1001 e rtcm of
       (rtcm, None) \<Rightarrow> (rtcm, -1)
     | (rtcm, Some (_, sync)) \<Rightarrow>
         (rtcm\<lparr>r_obsflag := (if sync = 0 then 1 else 0)\<rparr>, obs_status sync))"

text \<open>
  The assignments to one signal of a record: pseudorange (None: not set), carrier phase (from the
  phase minus pseudorange field, unless it is invalid), lock, signal strength and code.
\<close>

definition put_phase :: "rtcm \<Rightarrow> nat \<Rightarrow> int \<Rightarrow> nat \<Rightarrow> double \<Rightarrow> int \<Rightarrow> double \<Rightarrow> rtcm" where
  "put_phase rtcm index sat k pr1 ppr freq =
    (if ppr \<noteq> -524288
     then let (rtcm, cp) = adjcp rtcm sat k (of_int ppr * 0.0005 * freq / CLIGHT)
          in upd_obs rtcm index (\<lambda>d. d\<lparr>ob_L := (ob_L d)[k := pr1 * freq / CLIGHT + cp]\<rparr>)
     else rtcm)"

definition put_sig ::
    "rtcm \<Rightarrow> nat \<Rightarrow> int \<Rightarrow> nat \<Rightarrow> double option \<Rightarrow> double \<Rightarrow> int \<Rightarrow> double \<Rightarrow> int \<Rightarrow> int \<Rightarrow> nat \<Rightarrow> rtcm" where
  "put_sig rtcm index sat k P pr1 ppr freq lock cnr code =
    (let rtcm = (case P of None \<Rightarrow> rtcm
                 | Some p \<Rightarrow> upd_obs rtcm index (\<lambda>d. d\<lparr>ob_P := (ob_P d)[k := p]\<rparr>));
         rtcm = put_phase rtcm index sat k pr1 ppr freq;
         (rtcm, lli) = lossoflock rtcm sat k lock
     in upd_obs rtcm index
          (\<lambda>d. d\<lparr>ob_LLI := (ob_LLI d)[k := lli], ob_SNR := (ob_SNR d)[k := snratio (of_int cnr * 0.25)],
                ob_code := (ob_code d)[k := code]\<rparr>))"

text \<open>One satellite of message 1002, at bit \<open>i\<close>.\<close>

definition sat1002 :: "rtcm \<Rightarrow> nat \<Rightarrow> rtcm" where
  "sat1002 rtcm i =
    (let b = r_buff rtcm;
         (prn, code, pr1, ppr1, lock1, amb, cnr1) =
           fst (run_state (do { prn \<leftarrow> rdu b 6; code \<leftarrow> rdu b 1; pr1 \<leftarrow> rdu b 24; ppr1 \<leftarrow> rds b 20;
                                lock1 \<leftarrow> rdu b 7; amb \<leftarrow> rdu b 8; cnr1 \<leftarrow> rdu b 8;
                                State_Monad.return (prn, code, pr1, ppr1, lock1, amb, cnr1) }) i);
         (sys, prn) = (if prn < 40 then (SYS_GPS, prn) else (SYS_SBS, prn + 80));
         sat = satno sys prn
     in if sat = 0 then rtcm
        else case obs_entry rtcm sat of (rtcm, index) \<Rightarrow>
          if index < 0 then rtcm
          else let pr1 = of_int pr1 * 0.02 + of_int amb * PRUNIT_GPS
               in put_sig rtcm (nat index) sat 0 (Some pr1) pr1 ppr1 FREQ1 lock1 cnr1
                    (if code \<noteq> 0 then CODE_L1P else CODE_L1C))"

fun loop1002 :: "nat \<Rightarrow> nat \<Rightarrow> rtcm \<Rightarrow> rtcm" where
  "loop1002 0 i rtcm = rtcm"
| "loop1002 (Suc n) i rtcm =
     (if r_obs_n rtcm < MAXOBS \<and> i + 74 \<le> r_len rtcm * 8
      then loop1002 n (i + 74) (sat1002 rtcm i) else rtcm)"

definition decode_type1002 :: "env \<Rightarrow> rtcm \<Rightarrow> rtcm \<times> int" where
  "decode_type1002 e rtcm =
    (case decode_head1001 e rtcm of
       (rtcm, None) \<Rightarrow> (rtcm, -1)
     | (rtcm, Some (nsat, sync)) \<Rightarrow> (loop1002 (nat nsat) (24 + 64) rtcm, obs_status sync))"

definition decode_type1003 :: "env \<Rightarrow> rtcm \<Rightarrow> rtcm \<times> int" where
  "decode_type1003 e rtcm =
    (case decode_head1001 e rtcm of
       (rtcm, None) \<Rightarrow> (rtcm, -1)
     | (rtcm, Some (_, sync)) \<Rightarrow>
         (rtcm\<lparr>r_obsflag := (if sync = 0 then 1 else 0)\<rparr>, obs_status sync))"

definition L2codes :: "nat list" where
  "L2codes = [CODE_L2X, CODE_L2P, CODE_L2D, CODE_L2W]"

definition sat1004 :: "rtcm \<Rightarrow> nat \<Rightarrow> rtcm" where
  "sat1004 rtcm i =
    (let b = r_buff rtcm;
         (prn, code1, pr1, ppr1, lock1, amb, cnr1, code2, pr21, ppr2, lock2, cnr2) =
           fst (run_state (do { prn \<leftarrow> rdu b 6; code1 \<leftarrow> rdu b 1; pr1 \<leftarrow> rdu b 24; ppr1 \<leftarrow> rds b 20;
                                lock1 \<leftarrow> rdu b 7; amb \<leftarrow> rdu b 8; cnr1 \<leftarrow> rdu b 8; code2 \<leftarrow> rdu b 2;
                                pr21 \<leftarrow> rds b 14; ppr2 \<leftarrow> rds b 20; lock2 \<leftarrow> rdu b 7; cnr2 \<leftarrow> rdu b 8;
                                State_Monad.return (prn, code1, pr1, ppr1, lock1, amb, cnr1, code2,
                                  pr21, ppr2, lock2, cnr2) }) i);
         (sys, prn) = (if prn < 40 then (SYS_GPS, prn) else (SYS_SBS, prn + 80));
         sat = satno sys prn
     in if sat = 0 then rtcm
        else case obs_entry rtcm sat of (rtcm, index) \<Rightarrow>
          if index < 0 then rtcm
          else let pr1 = of_int pr1 * 0.02 + of_int amb * PRUNIT_GPS;
                   rtcm = put_sig rtcm (nat index) sat 0 (Some pr1) pr1 ppr1 FREQ1 lock1 cnr1
                            (if code1 \<noteq> 0 then CODE_L1P else CODE_L1C)
               in put_sig rtcm (nat index) sat 1
                    (if pr21 \<noteq> -8192 then Some (pr1 + of_int pr21 * 0.02) else None)
                    pr1 ppr2 FREQ2 lock2 cnr2 (L2codes ! nat code2))"

fun loop1004 :: "nat \<Rightarrow> nat \<Rightarrow> rtcm \<Rightarrow> rtcm" where
  "loop1004 0 i rtcm = rtcm"
| "loop1004 (Suc n) i rtcm =
     (if r_obs_n rtcm < MAXOBS \<and> i + 125 \<le> r_len rtcm * 8
      then loop1004 n (i + 125) (sat1004 rtcm i) else rtcm)"

definition decode_type1004 :: "env \<Rightarrow> rtcm \<Rightarrow> rtcm \<times> int" where
  "decode_type1004 e rtcm =
    (case decode_head1001 e rtcm of
       (rtcm, None) \<Rightarrow> (rtcm, -1)
     | (rtcm, Some (nsat, sync)) \<Rightarrow>
         ((loop1004 (nat nsat) (24 + 64) rtcm)\<lparr>r_obsflag := (if sync = 0 then 1 else 0)\<rparr>,
          obs_status sync))"

section \<open>GLONASS observations\<close>

definition decode_head1009 :: "env \<Rightarrow> rtcm \<Rightarrow> rtcm \<times> (int \<times> int) option" where
  "decode_head1009 e rtcm =
    (if 24 + 12 + 49 \<le> r_len rtcm * 8
     then let b = r_buff rtcm;
              (staid, tod, sync, nsat) =
                fst (run_state (do { staid \<leftarrow> rdu b 12; tod \<leftarrow> rdu b 27; sync \<leftarrow> rdu b 1;
                                     nsat \<leftarrow> rdu b 5; State_Monad.return (staid, tod, sync, nsat) }) 36);
              (rtcm, ok) = test_staid rtcm staid
          in if \<not> ok then (rtcm, None)
             else (adjday_glot e rtcm (of_int tod * 0.001), Some (nsat, sync))
     else (rtcm, None))"

definition decode_type1009 :: "env \<Rightarrow> rtcm \<Rightarrow> rtcm \<times> int" where
  "decode_type1009 e rtcm =
    (case decode_head1009 e rtcm of
       (rtcm, None) \<Rightarrow> (rtcm, -1)
     | (rtcm, Some (_, sync)) \<Rightarrow>
         (rtcm\<lparr>r_obsflag := (if sync = 0 then 1 else 0)\<rparr>, obs_status sync))"

text \<open>The frequency channel of a GLONASS satellite is noted the first time it is seen.\<close>

definition note_fcn :: "rtcm \<Rightarrow> int \<Rightarrow> int \<Rightarrow> rtcm" where
  "note_fcn rtcm prn v =
    (if nav_glo_fcn (r_nav rtcm) ! nat (prn - 1) = 0
     then rtcm\<lparr>r_nav := (r_nav rtcm)
            \<lparr>nav_glo_fcn := (nav_glo_fcn (r_nav rtcm))[nat (prn - 1) := v]\<rparr>\<rparr>
     else rtcm)"

definition sat1010 :: "rtcm \<Rightarrow> nat \<Rightarrow> rtcm" where
  "sat1010 rtcm i =
    (let b = r_buff rtcm;
         (prn, code, fcn, pr1, ppr1, lock1, amb, cnr1) =
           fst (run_state (do { prn \<leftarrow> rdu b 6; code \<leftarrow> rdu b 1; fcn \<leftarrow> rdu b 5; pr1 \<leftarrow> rdu b 25;
                                ppr1 \<leftarrow> rds b 20; lock1 \<leftarrow> rdu b 7; amb \<leftarrow> rdu b 7; cnr1 \<leftarrow> rdu b 8;
                                State_Monad.return (prn, code, fcn, pr1, ppr1, lock1, amb, cnr1) }) i);
         sat = satno SYS_GLO prn
     in if sat = 0 then rtcm
        else case obs_entry (note_fcn rtcm prn (fcn - 7 + 8)) sat of (rtcm, index) \<Rightarrow>
          if index < 0 then rtcm
          else let pr1 = of_int pr1 * 0.02 + of_int amb * PRUNIT_GLO
               in put_sig rtcm (nat index) sat 0 (Some pr1) pr1 ppr1
                    (code2freq SYS_GLO CODE_L1C (fcn - 7)) lock1 cnr1
                    (if code \<noteq> 0 then CODE_L1P else CODE_L1C))"

fun loop1010 :: "nat \<Rightarrow> nat \<Rightarrow> rtcm \<Rightarrow> rtcm" where
  "loop1010 0 i rtcm = rtcm"
| "loop1010 (Suc n) i rtcm =
     (if r_obs_n rtcm < MAXOBS \<and> i + 79 \<le> r_len rtcm * 8
      then loop1010 n (i + 79) (sat1010 rtcm i) else rtcm)"

definition decode_type1010 :: "env \<Rightarrow> rtcm \<Rightarrow> rtcm \<times> int" where
  "decode_type1010 e rtcm =
    (case decode_head1009 e rtcm of
       (rtcm, None) \<Rightarrow> (rtcm, -1)
     | (rtcm, Some (nsat, sync)) \<Rightarrow> (loop1010 (nat nsat) (24 + 61) rtcm, obs_status sync))"

definition decode_type1011 :: "env \<Rightarrow> rtcm \<Rightarrow> rtcm \<times> int" where
  "decode_type1011 e rtcm =
    (case decode_head1009 e rtcm of
       (rtcm, None) \<Rightarrow> (rtcm, -1)
     | (rtcm, Some (_, sync)) \<Rightarrow>
         (rtcm\<lparr>r_obsflag := (if sync = 0 then 1 else 0)\<rparr>, obs_status sync))"

definition sat1012 :: "rtcm \<Rightarrow> nat \<Rightarrow> rtcm" where
  "sat1012 rtcm i =
    (let b = r_buff rtcm;
         (prn, code1, fcn, pr1, ppr1, lock1, amb, cnr1, code2, pr21, ppr2, lock2, cnr2) =
           fst (run_state (do { prn \<leftarrow> rdu b 6; code1 \<leftarrow> rdu b 1; fcn \<leftarrow> rdu b 5; pr1 \<leftarrow> rdu b 25;
                                ppr1 \<leftarrow> rds b 20; lock1 \<leftarrow> rdu b 7; amb \<leftarrow> rdu b 7; cnr1 \<leftarrow> rdu b 8;
                                code2 \<leftarrow> rdu b 2; pr21 \<leftarrow> rds b 14; ppr2 \<leftarrow> rds b 20; lock2 \<leftarrow> rdu b 7;
                                cnr2 \<leftarrow> rdu b 8;
                                State_Monad.return (prn, code1, fcn, pr1, ppr1, lock1, amb, cnr1, code2,
                                  pr21, ppr2, lock2, cnr2) }) i);
         sat = satno SYS_GLO prn
     in if sat = 0 then rtcm
        else case obs_entry (note_fcn rtcm prn (fcn - 7 + 8)) sat of (rtcm, index) \<Rightarrow>
          if index < 0 then rtcm
          else let pr1 = of_int pr1 * 0.02 + of_int amb * PRUNIT_GLO;
                   rtcm = put_sig rtcm (nat index) sat 0 (Some pr1) pr1 ppr1
                            (code2freq SYS_GLO CODE_L1C (fcn - 7)) lock1 cnr1
                            (if code1 \<noteq> 0 then CODE_L1P else CODE_L1C)
               in put_sig rtcm (nat index) sat 1
                    (if pr21 \<noteq> -8192 then Some (pr1 + of_int pr21 * 0.02) else None)
                    pr1 ppr2 (code2freq SYS_GLO CODE_L2C (fcn - 7)) lock2 cnr2
                    (if code2 \<noteq> 0 then CODE_L2P else CODE_L2C))"

fun loop1012 :: "nat \<Rightarrow> nat \<Rightarrow> rtcm \<Rightarrow> rtcm" where
  "loop1012 0 i rtcm = rtcm"
| "loop1012 (Suc n) i rtcm =
     (if r_obs_n rtcm < MAXOBS \<and> i + 130 \<le> r_len rtcm * 8
      then loop1012 n (i + 130) (sat1012 rtcm i) else rtcm)"

definition decode_type1012 :: "env \<Rightarrow> rtcm \<Rightarrow> rtcm \<times> int" where
  "decode_type1012 e rtcm =
    (case decode_head1009 e rtcm of
       (rtcm, None) \<Rightarrow> (rtcm, -1)
     | (rtcm, Some (nsat, sync)) \<Rightarrow>
         ((loop1012 (nat nsat) (24 + 61) rtcm)\<lparr>r_obsflag := (if sync = 0 then 1 else 0)\<rparr>,
          obs_status sync))"

section \<open>The operations keep the invariants\<close>

lemma find_sat_None: "find_sat ds sat i = None \<longleftrightarrow> sat \<notin> ob_sat ` set ds"
  by (induction ds arbitrary: i) auto

lemma find_sat_Some:
  "find_sat ds sat i = Some k \<Longrightarrow> i \<le> k \<and> k < i + length ds \<and> ob_sat (ds ! (k - i)) = sat"
proof (induction ds arbitrary: i)
  case (Cons d ds)
  show ?case
  proof (cases "ob_sat d = sat")
    case False
    then have "find_sat ds sat (Suc i) = Some k" using Cons.prems by simp
    from Cons.IH [OF this] show ?thesis by (auto simp: nth_Cons' Suc_diff_le)
  qed (use Cons.prems in auto)
qed simp

context rtcm_invariant
begin

lemma inv_get_time [wf_intros]: "P rtcm \<Longrightarrow> P (get_time e rtcm)"
  by (simp add: get_time_def)

lemma inv_adjweek [wf_intros]: "P rtcm \<Longrightarrow> P (adjweek e rtcm tow)"
  by (simp add: adjweek_def Let_def inv_get_time split: prod.split)

lemma inv_adjday_glot [wf_intros]: "P rtcm \<Longrightarrow> P (adjday_glot e rtcm tod)"
  by (simp add: adjday_glot_def Let_def inv_get_time split: prod.split)

lemma inv_test_staid [wf_intros]: "P rtcm \<Longrightarrow> P (fst (test_staid rtcm staid))"
  by (simp add: test_staid_def Let_def)

lemma inv_adjcp [wf_intros]: "P rtcm \<Longrightarrow> P (fst (adjcp rtcm sat k cp))"
  by (simp add: adjcp_def Let_def)

lemma inv_lossoflock [wf_intros]: "P rtcm \<Longrightarrow> P (fst (lossoflock rtcm sat k lock))"
  by (simp add: lossoflock_def Let_def)

lemma inv_note_fcn [wf_intros]: "P rtcm \<Longrightarrow> P (note_fcn rtcm prn v)"
  unfolding note_fcn_def by (auto intro!: P_nav) (simp add: wf_nav_def)

lemma inv_upd_obs [wf_intros]:
  "P rtcm \<Longrightarrow> (\<And>d. ob_sat (f d) = ob_sat d) \<Longrightarrow> (\<And>d. wf_obsd d \<Longrightarrow> wf_obsd (f d)) \<Longrightarrow>
   P (upd_obs rtcm k f)"
  unfolding upd_obs_def by (rule P_obs)

lemma inv_new_epoch [wf_intros]: "P rtcm \<Longrightarrow> P (new_epoch rtcm)"
  by (simp add: new_epoch_def Let_def)

lemma inv_obsindex:
  assumes "P rtcm" and "1 \<le> sat" and "sat \<le> MAXSAT"
  shows "P (fst (obsindex rtcm t sat))"
proof (cases "find_sat (take (r_obs_n rtcm) (r_obs rtcm)) sat 0")
  case None
  then have "sat \<notin> set (obs_sats rtcm)" by (simp add: find_sat_None obs_sats_def)
  then show ?thesis
    using assms None
    by (auto simp: obsindex_def Let_def wf_obsd_def intro!: P_obs_new [of _ sat, simplified])
qed (use assms(1) in \<open>simp add: obsindex_def\<close>)

lemma inv_obs_entry [wf_intros]:
  "P rtcm \<Longrightarrow> satno sys prn \<noteq> 0 \<Longrightarrow> P (fst (obs_entry rtcm (satno sys prn)))"
  unfolding obs_entry_def Let_def
  using satno_pos_bounds [of sys prn] by (intro inv_obsindex inv_new_epoch) auto

lemma inv_put_phase [wf_intros]: "P rtcm \<Longrightarrow> P (put_phase rtcm index sat k pr1 ppr freq)"
  unfolding put_phase_def Let_def case_prod_beta
  by (auto intro!: wf_intros simp: wf_obsd_def)

lemma inv_put_sig [wf_intros]:
  "P rtcm \<Longrightarrow> P (put_sig rtcm index sat k p pr1 ppr freq lock cnr code)"
  unfolding put_sig_def Let_def case_prod_beta
  by (auto intro!: wf_intros simp: wf_obsd_def split: option.split)

lemma inv_sat1002 [wf_intros]: "P rtcm \<Longrightarrow> P (sat1002 rtcm i)"
  unfolding sat1002_def Let_def case_prod_beta by (auto intro!: wf_intros)

lemma inv_sat1004 [wf_intros]: "P rtcm \<Longrightarrow> P (sat1004 rtcm i)"
  unfolding sat1004_def Let_def case_prod_beta by (auto intro!: wf_intros)

lemma inv_sat1010 [wf_intros]: "P rtcm \<Longrightarrow> P (sat1010 rtcm i)"
  unfolding sat1010_def Let_def case_prod_beta by (auto intro!: wf_intros)

lemma inv_sat1012 [wf_intros]: "P rtcm \<Longrightarrow> P (sat1012 rtcm i)"
  unfolding sat1012_def Let_def case_prod_beta by (auto intro!: wf_intros)

lemma inv_obs_loops [wf_intros]:
  assumes "P rtcm"
  shows "P (loop1002 n i rtcm)" and "P (loop1004 n i rtcm)" and "P (loop1010 n i rtcm)"
    and "P (loop1012 n i rtcm)"
  using assms
  by (induction n arbitrary: i rtcm) (simp_all add: inv_sat1002 inv_sat1004 inv_sat1010 inv_sat1012)

lemma inv_obs_heads:
  "P rtcm \<Longrightarrow> P (fst (decode_head1001 e rtcm))" "P rtcm \<Longrightarrow> P (fst (decode_head1009 e rtcm))"
  unfolding decode_head1001_def decode_head1009_def Let_def case_prod_beta
  by (auto intro: wf_intros)

lemma inv_decode_obs [wf_intros]:
  assumes "P rtcm"
  shows "P (fst (decode_type1001 e rtcm))" and "P (fst (decode_type1002 e rtcm))"
    and "P (fst (decode_type1003 e rtcm))" and "P (fst (decode_type1004 e rtcm))"
    and "P (fst (decode_type1009 e rtcm))" and "P (fst (decode_type1010 e rtcm))"
    and "P (fst (decode_type1011 e rtcm))" and "P (fst (decode_type1012 e rtcm))"
  using inv_obs_heads [OF assms, of e]
  by (auto simp: decode_type1001_def decode_type1002_def decode_type1003_def decode_type1004_def
      decode_type1009_def decode_type1010_def decode_type1011_def decode_type1012_def
      inv_obs_loops split: prod.split option.split)

end

text \<open>
  The index of a satellite: its record exists afterwards, unless the buffer is full of others.
\<close>

lemma obsindex_spec:
  assumes "wf_state rtcm" and "1 \<le> sat" and "sat \<le> MAXSAT" and "obsindex rtcm t sat = (rtcm', k)"
  shows "r_obs_n rtcm' \<le> r_obs_n rtcm + 1 \<and>
    (k = -1 \<and> rtcm' = rtcm \<and> r_obs_n rtcm = MAXOBS \<and> sat \<notin> set (obs_sats rtcm) \<or>
     0 \<le> k \<and> nat k < r_obs_n rtcm' \<and> ob_sat (r_obs rtcm' ! nat k) = sat \<and>
     set (obs_sats rtcm') = insert sat (set (obs_sats rtcm)))"
proof -
  let ?ds = "take (r_obs_n rtcm) (r_obs rtcm)"
  have wf: "wf_obs rtcm" using assms(1) by (simp add: wf_state_def)
  show ?thesis
  proof (cases "find_sat ?ds sat 0")
    case (Some i)
    have i: "i < r_obs_n rtcm" "i < length (r_obs rtcm)" "ob_sat (r_obs rtcm ! i) = sat"
      using find_sat_Some [OF Some] by auto
    moreover from i have "sat \<in> set (obs_sats rtcm)"
      unfolding obs_sats_def set_map by (intro image_eqI [of _ _ "r_obs rtcm ! i"]) (auto simp: in_set_conv_nth)
    ultimately show ?thesis using Some assms(1,4) by (auto simp: obsindex_def)
  next
    case None
    then have new: "sat \<notin> set (obs_sats rtcm)" by (simp add: find_sat_None obs_sats_def)
    show ?thesis
    proof (cases "r_obs_n rtcm < MAXOBS")
      case True
      define d where "d = (r_obs rtcm ! r_obs_n rtcm)\<lparr>ob_time := t, ob_sat := sat,
        ob_L := replicate NOBS 0, ob_P := replicate NOBS 0, ob_D := replicate NOBS 0,
        ob_SNR := replicate NOBS 0, ob_LLI := replicate NOBS 0, ob_code := replicate NOBS 0\<rparr>"
      have r: "rtcm' = rtcm\<lparr>r_obs := (r_obs rtcm)[r_obs_n rtcm := d], r_obs_n := r_obs_n rtcm + 1\<rparr>"
        "k = int (r_obs_n rtcm)"
        using None True assms(4) by (auto simp: obsindex_def Let_def d_def)
      have d: "ob_sat d = sat" "wf_obsd d" by (simp_all add: d_def wf_obsd_def)
      have len: "r_obs_n rtcm < length (r_obs rtcm)" using wf True by (simp add: wf_obs_def)
      show ?thesis
        using wf_obs_new(2) [OF wf True assms(2,3) new d] len d(1)
        unfolding r by auto
    next
      case False
      then have "r_obs_n rtcm = MAXOBS" using wf by (simp add: wf_obs_def)
      then show ?thesis using None new assms(1,4) by (auto simp: obsindex_def Let_def)
    qed
  qed
qed

section \<open>Time, phase and lock\<close>

text \<open>
  \<open>adjweek\<close> sets the time with the given time of week that is nearest to the reference,
  and \<open>adjcp\<close> the phase, among those one period apart, nearest to the last one.
\<close>

definition ref_time :: "env \<Rightarrow> rtcm \<Rightarrow> gtime" where
  "ref_time e rtcm = r_time (get_time e rtcm)"

lemma adjweek_nearest:
  assumes "normal_time (ref_time e rtcm)" and "315964800 \<le> gt_time (ref_time e rtcm)"
    and "0 \<le> tow" and "tow < 604800"
  shows "\<bar>timediff (r_time (adjweek e rtcm tow)) (ref_time e rtcm)\<bar> \<le> 302400"
    and "\<exists>k :: int. tval (r_time (adjweek e rtcm tow)) = 315964800 + 604800 * of_int k + tow"
proof -
  define t where "t = ref_time e rtcm"
  define tow_p where "tow_p = fst (time2gpst t)"
  define week where "week = snd (time2gpst t)"
  define tow' where "tow' = (if tow < tow_p - 302400 then tow + 604800
                else if tow > tow_p + 302400 then tow - 604800 else tow)"
  have p: "0 \<le> tow_p" "tow_p < 604800" "tval t = 315964800 + 604800 * of_int week + tow_p"
    using time2gpst_parts [OF assms(1,2)] by (simp_all add: t_def tow_p_def week_def)
  have r: "r_time (adjweek e rtcm tow) = gpst2time week tow'"
    by (simp add: adjweek_def Let_def tow_p_def week_def t_def ref_time_def tow'_def case_prod_beta)
  have "-1000000000 \<le> tow'" "tow' \<le> 1000000000" using assms(3,4) p by (auto simp: tow'_def)
  then have v: "tval (gpst2time week tow') = 315964800 + 604800 * of_int week + tow'"
    by (rule tval_gpst2time)
  show "\<bar>timediff (r_time (adjweek e rtcm tow)) (ref_time e rtcm)\<bar> \<le> 302400"
    unfolding r timediff_tval v t_def [symmetric] p(3) using p assms(3,4) by (auto simp: tow'_def)
  have "tow' = tow + 604800 * of_int (if tow < tow_p - 302400 then 1
      else if tow > tow_p + 302400 then -1 else 0 :: int)"
    by (simp add: tow'_def)
  then have "tval (r_time (adjweek e rtcm tow)) = 315964800 + 604800 * of_int (week +
      (if tow < tow_p - 302400 then 1 else if tow > tow_p + 302400 then -1 else 0)) + tow"
    unfolding r v by (simp only: of_int_add) (simp add: algebra_simps)
  then show "\<exists>k :: int. tval (r_time (adjweek e rtcm tow)) = 315964800 + 604800 * of_int k + tow"
    by blast
qed

lemma adjcp_nearest:
  assumes "adjcp rtcm sat k cp = (rtcm', cp')" and "p = r_cp rtcm ! nat (sat - 1) ! k" and "p \<noteq> 0"
    and "\<bar>cp - p\<bar> \<le> 2250"
  shows "\<bar>cp' - p\<bar> \<le> 750" and "cp' \<in> {cp, cp + 1500, cp - 1500}"
  using assms by (auto simp: adjcp_def Let_def split: if_splits)

lemma adjcp_stored:
  assumes "rect 221 NOBS (r_cp rtcm)" and "1 \<le> sat" and "sat \<le> MAXSAT" and "k < NOBS"
    and "adjcp rtcm sat k cp = (rtcm', cp')"
  shows "r_cp rtcm' ! nat (sat - 1) ! k = cp'"
  using assms upd2_nth [OF assms(1), of "nat (sat - 1)" k] by (auto simp: adjcp_def Let_def)

lemma snratio_bounds: "0 \<le> snratio snr \<and> snratio snr < 65536"
  by (simp add: snratio_def)

lemma snratio_scaled:
  assumes "0 \<le> c" and "c < 256"
  shows "snratio (of_int c * 0.25) = 250 * c"
proof -
  have "trunc (real_of_int c * 0.25 / 0.001 + 0.5) = 250 * c"
    using assms unfolding trunc_def by (simp, linarith)
  then show ?thesis using assms by (auto simp: snratio_def)
qed

lemma lossoflock_value:
  assumes "lossoflock rtcm sat k lock = (rtcm', lli)"
  shows "lli = (if lock < r_lock rtcm ! nat (sat - 1) ! k \<or> lock = 0 \<and> r_lock rtcm ! nat (sat - 1) ! k = 0
                then 1 else 0)"
  using assms by (auto simp: lossoflock_def Let_def)

end
