(* ===== verification/Rtcm3Sta.thy ===== *)
theory Rtcm3Sta
  imports Rtcm3Obs
begin

text \<open>
  Station messages of \<^verbatim>\<open>rtcm3.c\<close>: reference point (1005, 1006), antenna and receiver
  descriptors (1007, 1008, 1033), text (1029) and GLONASS code-phase biases (1230).  The
  descriptors copy up to 255 characters into arrays of 64: a decoder that would write outside
  its array returns None.
\<close>

section \<open>Strings\<close>

text \<open>
  A C string in a character array ends at the first null character.  The call
  \<^verbatim>\<open>strncpy(dst,src,n)\<close> followed by the terminator at \<^verbatim>\<open>dst[n]\<close> leaves the first \<open>n\<close>
  characters of the source string, and needs an array of more than \<open>n\<close> characters.
\<close>

definition c_string :: "string \<Rightarrow> string" where
  "c_string cs = takeWhile (\<lambda>c. c \<noteq> CHR 0x00) cs"

definition strncpy :: "string \<Rightarrow> nat \<Rightarrow> string option" where
  "strncpy src n = (if n < MAXANT then Some (take n (c_string src)) else None)"

definition byte_char :: "int \<Rightarrow> char" where
  "byte_char v = char_of (nat v)"

text \<open>The loops that read a counted string: at most 31 characters are read and skipped.\<close>

definition read_chars :: "u8 list \<Rightarrow> nat \<Rightarrow> nat \<Rightarrow> string" where
  "read_chars b n i = map (\<lambda>j. byte_char (getu b (i + 8 * j) 8)) [0..<min n 31]"

definition chars_end :: "nat \<Rightarrow> nat \<Rightarrow> nat" where
  "chars_end n i = i + 8 * min n 31"

section \<open>Reference point\<close>

definition decode_type1005 :: "rtcm \<Rightarrow> rtcm \<times> int" where
  "decode_type1005 rtcm =
    (if 24 + 12 + 140 = r_len rtcm * 8
     then let b = r_buff rtcm;
              (staid, itrf, rr0, rr1, rr2) =
                fst (run_state (do { staid \<leftarrow> rdu b 12; itrf \<leftarrow> rdu b 6; skip 4; rr0 \<leftarrow> rd38 b; skip 2;
                                     rr1 \<leftarrow> rd38 b; skip 2; rr2 \<leftarrow> rd38 b;
                                     State_Monad.return (staid, itrf, rr0, rr1, rr2) }) 36);
              (rtcm, ok) = test_staid rtcm staid
          in if \<not> ok then (rtcm, -1)
             else (rtcm\<lparr>r_sta := (r_sta rtcm)\<lparr>sta_name := print_0d 4 staid, sta_deltype := 0,
                     sta_pos := [rr0 * 0.0001, rr1 * 0.0001, rr2 * 0.0001], sta_del := [0, 0, 0],
                     sta_hgt := 0, sta_itrf := itrf\<rparr>\<rparr>, 5)
     else (rtcm, -1))"

definition decode_type1006 :: "rtcm \<Rightarrow> rtcm \<times> int" where
  "decode_type1006 rtcm =
    (if 24 + 12 + 156 \<le> r_len rtcm * 8
     then let b = r_buff rtcm;
              (staid, itrf, rr0, rr1, rr2, anth) =
                fst (run_state (do { staid \<leftarrow> rdu b 12; itrf \<leftarrow> rdu b 6; skip 4; rr0 \<leftarrow> rd38 b; skip 2;
                                     rr1 \<leftarrow> rd38 b; skip 2; rr2 \<leftarrow> rd38 b; anth \<leftarrow> rdu b 16;
                                     State_Monad.return (staid, itrf, rr0, rr1, rr2, anth) }) 36);
              (rtcm, ok) = test_staid rtcm staid
          in if \<not> ok then (rtcm, -1)
             else (rtcm\<lparr>r_sta := (r_sta rtcm)\<lparr>sta_name := print_0d 4 staid, sta_deltype := 1,
                     sta_pos := [rr0 * 0.0001, rr1 * 0.0001, rr2 * 0.0001], sta_del := [0, 0, 0],
                     sta_hgt := of_int anth * 0.0001, sta_itrf := itrf\<rparr>\<rparr>, 5)
     else (rtcm, -1))"

section \<open>Antenna and receiver descriptors\<close>

definition decode_type1007 :: "rtcm \<Rightarrow> (rtcm \<times> int) option" where
  "decode_type1007 rtcm =
    (let b = r_buff rtcm; i = 24 + 12; n = nat (getu b (i + 12) 8) in
     if i + 28 + 8 * n \<le> r_len rtcm * 8
     then let staid = getu b i 12; i = i + 12 + 8;
              des = read_chars b n i; i = chars_end n i;
              setup = getu b i 8;
              (rtcm, ok) = test_staid rtcm staid
          in if \<not> ok then Some (rtcm, -1)
             else do { antdes \<leftarrow> strncpy des n;
                       Some (rtcm\<lparr>r_sta := (r_sta rtcm)\<lparr>sta_name := print_0d 4 staid,
                         sta_antdes := antdes, sta_antsetup := setup, sta_antsno := []\<rparr>\<rparr>, 5) }
     else Some (rtcm, -1))"

definition decode_type1008 :: "rtcm \<Rightarrow> (rtcm \<times> int) option" where
  "decode_type1008 rtcm =
    (let b = r_buff rtcm; i = 24 + 12; n = nat (getu b (i + 12) 8);
         m = nat (getu b (i + 28 + 8 * n) 8) in
     if i + 36 + 8 * (n + m) \<le> r_len rtcm * 8
     then let staid = getu b i 12; i = i + 12 + 8;
              des = read_chars b n i; i = chars_end n i;
              setup = getu b i 8; i = i + 8 + 8;
              sno = read_chars b m i;
              (rtcm, ok) = test_staid rtcm staid
          in if \<not> ok then Some (rtcm, -1)
             else do { antdes \<leftarrow> strncpy des n; antsno \<leftarrow> strncpy sno m;
                       Some (rtcm\<lparr>r_sta := (r_sta rtcm)\<lparr>sta_name := print_0d 4 staid,
                         sta_antdes := antdes, sta_antsetup := setup, sta_antsno := antsno\<rparr>\<rparr>, 5) }
     else Some (rtcm, -1))"

definition decode_type1033 :: "rtcm \<Rightarrow> (rtcm \<times> int) option" where
  "decode_type1033 rtcm =
    (let b = r_buff rtcm; i = 24 + 12; n = nat (getu b (i + 12) 8);
         m = nat (getu b (i + 28 + 8 * n) 8);
         n1 = nat (getu b (i + 36 + 8 * (n + m)) 8);
         n2 = nat (getu b (i + 44 + 8 * (n + m + n1)) 8);
         n3 = nat (getu b (i + 52 + 8 * (n + m + n1 + n2)) 8) in
     if i + 60 + 8 * (n + m + n1 + n2 + n3) \<le> r_len rtcm * 8
     then let staid = getu b i 12; i = i + 12 + 8;
              des = read_chars b n i; i = chars_end n i;
              setup = getu b i 8; i = i + 8 + 8;
              sno = read_chars b m i; i = chars_end m i + 8;
              rec = read_chars b n1 i; i = chars_end n1 i + 8;
              ver = read_chars b n2 i; i = chars_end n2 i + 8;
              rsn = read_chars b n3 i;
              (rtcm, ok) = test_staid rtcm staid
          in if \<not> ok then Some (rtcm, -1)
             else do { antdes \<leftarrow> strncpy des n; antsno \<leftarrow> strncpy sno m; rectype \<leftarrow> strncpy rec n1;
                       recver \<leftarrow> strncpy ver n2; recsno \<leftarrow> strncpy rsn n3;
                       Some (rtcm\<lparr>r_sta := (r_sta rtcm)\<lparr>sta_name := print_0d 4 staid,
                         sta_antdes := antdes, sta_antsetup := setup, sta_antsno := antsno,
                         sta_rectype := rectype, sta_recver := recver, sta_recsno := recsno\<rparr>\<rparr>, 5) }
     else Some (rtcm, -1))"

section \<open>Text\<close>

definition decode_type1029 :: "rtcm \<Rightarrow> rtcm \<times> int" where
  "decode_type1029 rtcm =
    (if 24 + 12 + 60 \<le> r_len rtcm * 8
     then let b = r_buff rtcm;
              (staid, mjd, tod, nchar, cunit) =
                fst (run_state (do { staid \<leftarrow> rdu b 12; mjd \<leftarrow> rdu b 16; tod \<leftarrow> rdu b 17; nchar \<leftarrow> rdu b 7;
                                     cunit \<leftarrow> rdu b 8;
                                     State_Monad.return (staid, mjd, tod, nat nchar, cunit) }) 36);
              i = 36 + 60
          in if i + nchar * 8 > r_len rtcm * 8 then (rtcm, -1)
             else (rtcm\<lparr>r_msg := c_string (map (\<lambda>j. byte_char (getu b (i + 8 * j) 8)) [0..<min nchar 126])\<rparr>, 0)
     else (rtcm, -1))"

section \<open>GLONASS code-phase biases\<close>

text \<open>The loop over the four signals: a bias is in the message where the mask has its bit.\<close>

fun loop1230 :: "nat \<Rightarrow> nat \<Rightarrow> nat \<Rightarrow> nat \<Rightarrow> int \<Rightarrow> u8 list \<Rightarrow> double list \<Rightarrow> double list" where
  "loop1230 0 j i len msk b bs = bs"
| "loop1230 (Suc n) j i len msk b bs =
     (if i + 16 \<le> len * 8
      then if msk AND push_bit (3 - j) 1 = 0 then loop1230 n (j + 1) i len msk b bs
           else let bias = getbits b i 16
                in loop1230 n (j + 1) (i + 16) len msk b
                     (if bias \<noteq> -32768 then bs[j := of_int bias * 0.02] else bs)
      else bs)"

definition decode_type1230 :: "rtcm \<Rightarrow> rtcm \<times> int" where
  "decode_type1230 rtcm =
    (if 24 + 12 + 20 \<ge> r_len rtcm * 8 then (rtcm, -1)
     else let b = r_buff rtcm;
              ((staid, align, msk), i) =
                run_state (do { staid \<leftarrow> rdu b 12; align \<leftarrow> rdu b 1; skip 3; msk \<leftarrow> rdu b 4;
                                State_Monad.return (staid, align, msk) }) 36;
              (rtcm, ok) = test_staid rtcm staid
          in if \<not> ok then (rtcm, -1)
             else (rtcm\<lparr>r_sta := (r_sta rtcm)\<lparr>sta_glo_cp_align := align,
                     sta_glo_cp_bias := loop1230 4 0 i (r_len rtcm) msk b [0, 0, 0, 0]\<rparr>\<rparr>, 5))"

section \<open>The operations keep the invariants\<close>

lemma length_dec: "n < 10 ^ k \<Longrightarrow> 0 < k \<Longrightarrow> length (dec n) \<le> k"
proof (induction n arbitrary: k rule: dec.induct)
  case (1 n)
  show ?case
  proof (cases "n < 10")
    case True
    then show ?thesis using "1.prems" by (simp add: dec.simps [of n])
  next
    case False
    obtain k' where k: "k = Suc k'" using "1.prems"(2) by (cases k) auto
    have "0 < k'" using False "1.prems"(1) unfolding k by (cases k') auto
    moreover have "n div 10 < 10 ^ k'" using "1.prems"(1) unfolding k by (simp add: div_less_iff_less_mult mult.commute)
    ultimately have "length (dec (n div 10)) \<le> k'" using "1.IH" False by blast
    then show ?thesis using False by (simp add: dec.simps [of n] k)
  qed
qed

lemma length_print_0d: "0 \<le> n \<Longrightarrow> n < 10 ^ w \<Longrightarrow> 0 < w \<Longrightarrow> length (print_0d w n) = w"
  using length_dec [of "nat n" w] by (simp add: print_0d_def Let_def nat_less_iff)

lemma length_staid_name: "length (print_0d 4 (getu b i 12)) = 4"
  using getu_less [of 12 b i] by (intro length_print_0d) simp_all

lemma length_strncpy: "strncpy s n = Some t \<Longrightarrow> length t < MAXANT"
  by (auto simp: strncpy_def split: if_splits)

lemma length_loop1230: "length (loop1230 n j i len msk b bs) = length bs"
  by (induction n j i len msk b bs rule: loop1230.induct) (auto simp: Let_def)

context rtcm_invariant
begin

lemma inv_decode_1005_1006 [wf_intros]:
  assumes "P rtcm"
  shows "P (fst (decode_type1005 rtcm))" and "P (fst (decode_type1006 rtcm))"
  using inv_test_staid [OF assms] assms
  unfolding decode_type1005_def decode_type1006_def Let_def case_prod_beta
  by (auto intro!: P_sta simp: wf_sta_def length_staid_name)

lemma inv_decode_type1029 [wf_intros]:
  assumes "P rtcm"
  shows "P (fst (decode_type1029 rtcm))"
proof -
  have "length (c_string (map f [0..<min n 126])) < 128" for f n
    using length_takeWhile_le [of "\<lambda>c. c \<noteq> CHR 0x00" "map f [0..<min n 126]"]
    unfolding c_string_def by simp
  then show ?thesis
    using assms unfolding decode_type1029_def Let_def case_prod_beta by (auto intro!: P_msg)
qed

lemma inv_decode_type1230 [wf_intros]:
  assumes "P rtcm"
  shows "P (fst (decode_type1230 rtcm))"
  using inv_test_staid [OF assms] assms
  unfolding decode_type1230_def Let_def case_prod_beta
  by (auto intro!: P_sta simp: wf_sta_def length_loop1230)

lemma inv_test_staid_result: "P rtcm \<Longrightarrow> test_staid rtcm staid = (rtcm', ok) \<Longrightarrow> P rtcm'"
  using inv_test_staid [of rtcm staid] by simp

lemma inv_decode_descriptors:
  assumes "P rtcm"
  shows "ret_inv P (decode_type1007 rtcm)" and "ret_inv P (decode_type1008 rtcm)"
    and "ret_inv P (decode_type1033 rtcm)"
proof -
  note t = inv_test_staid_result [OF assms]
  note l = length_strncpy
  show "ret_inv P (decode_type1007 rtcm)"
    unfolding decode_type1007_def
    by ((rule ret_inv_Let_any)+, rule ret_inv_if, rule ret_inv_Let,
        (rule ret_inv_Let_prod | rule ret_inv_Let_any)+, intro ret_inv_intros)
       (auto dest!: t l intro!: ret_inv_Some P_sta assms simp: wf_sta_def length_staid_name)
  show "ret_inv P (decode_type1008 rtcm)"
    unfolding decode_type1008_def
    by ((rule ret_inv_Let_any)+, rule ret_inv_if, rule ret_inv_Let,
        (rule ret_inv_Let_prod | rule ret_inv_Let_any)+, intro ret_inv_intros)
       (auto dest!: t l intro!: ret_inv_Some P_sta assms simp: wf_sta_def length_staid_name)
  show "ret_inv P (decode_type1033 rtcm)"
    unfolding decode_type1033_def
    by ((rule ret_inv_Let_any)+, rule ret_inv_if, rule ret_inv_Let,
        (rule ret_inv_Let_prod | rule ret_inv_Let_any)+, intro ret_inv_intros)
       (auto dest!: t l intro!: ret_inv_Some P_sta assms simp: wf_sta_def length_staid_name)
qed

end

end
