(* ===== verification/Rtcm3Eph.thy ===== *)
theory Rtcm3Eph
  imports Rtcm3Obs
begin

text \<open>
  Broadcast ephemerides of \<^verbatim>\<open>rtcm3.c\<close>: messages 1019 (GPS), 1020 (GLONASS), 1041 (NavIC),
  1042 and 63 (BeiDou), 1044 (QZSS), 1045 and 1046 (Galileo F/NAV and I/NAV).  The powers of two
  that scale the fields are exact; the statements all decoders end with (week, times, storing the
  result) are definitions of their own.
\<close>

definition P2 :: "nat \<Rightarrow> double" where "P2 n = 1 / 2 ^ n"
definition SC2RAD :: double where "SC2RAD = 3.1415926535898"

section \<open>Common statements\<close>

text \<open>The week of an ephemeris is moved by one where its time is half a week away.\<close>

definition near_week :: "double \<Rightarrow> int \<Rightarrow> int" where
  "near_week tt week = (if tt < -302400 then week + 1 else if tt \<ge> 302400 then week - 1 else week)"

definition eph_times :: "rtcm \<Rightarrow> int \<Rightarrow> double \<Rightarrow> eph \<Rightarrow> eph" where
  "eph_times rtcm week toc eph =
    (let week = near_week (timediff (gpst2time week (eph_toes eph)) (r_time rtcm)) week
     in eph\<lparr>eph_week := week, eph_toe := gpst2time week (eph_toes eph), eph_toc := gpst2time week toc,
          eph_ttr := r_time rtcm\<rparr>)"

definition eph_times_bdt :: "rtcm \<Rightarrow> int \<Rightarrow> double \<Rightarrow> eph \<Rightarrow> eph" where
  "eph_times_bdt rtcm week toc eph =
    (let week = near_week (timediff (bdt2gpst (bdt2time week (eph_toes eph))) (r_time rtcm)) week
     in eph\<lparr>eph_week := week, eph_toe := bdt2gpst (bdt2time week (eph_toes eph)),
          eph_toc := bdt2gpst (bdt2time week toc), eph_ttr := r_time rtcm\<rparr>)"

definition put_eph :: "rtcm \<Rightarrow> int \<Rightarrow> int \<Rightarrow> eph \<Rightarrow> rtcm \<times> int" where
  "put_eph rtcm sat ephset eph =
    (rtcm\<lparr>r_nav := (r_nav rtcm)\<lparr>nav_eph := (nav_eph (r_nav rtcm))[nat (sat - 1 + MAXSAT * ephset) := eph]\<rparr>,
       r_ephsat := sat, r_ephset := ephset\<rparr>, 2)"

definition old_eph :: "rtcm \<Rightarrow> int \<Rightarrow> int \<Rightarrow> eph" where
  "old_eph rtcm sat ephset = nav_eph (r_nav rtcm) ! nat (sat - 1 + MAXSAT * ephset)"

definition eph_all :: "rtcm \<Rightarrow> bool" where
  "eph_all rtcm \<longleftrightarrow> strstr (r_opt rtcm) ''-EPHALL'' \<noteq> None"

section \<open>GPS\<close>

definition read_1019 :: "u8 list \<Rightarrow> (nat, int \<times> int \<times> double \<times> double \<times> eph) state" where
  "read_1019 b = do {
     prn \<leftarrow> rdu b 6; week \<leftarrow> rdu b 10; sva \<leftarrow> rdu b 4; code \<leftarrow> rdu b 2; idot \<leftarrow> rds b 14; iode \<leftarrow> rdu b 8;
     toc \<leftarrow> rdu b 16; f2 \<leftarrow> rds b 8; f1 \<leftarrow> rds b 16; f0 \<leftarrow> rds b 22; iodc \<leftarrow> rdu b 10; crs \<leftarrow> rds b 16;
     deln \<leftarrow> rds b 16; M0 \<leftarrow> rds b 32; cuc \<leftarrow> rds b 16; e \<leftarrow> rdu b 32; cus \<leftarrow> rds b 16; sqrtA \<leftarrow> rdu b 32;
     toes \<leftarrow> rdu b 16; cic \<leftarrow> rds b 16; OMG0 \<leftarrow> rds b 32; cis \<leftarrow> rds b 16; i0 \<leftarrow> rds b 32; crc \<leftarrow> rds b 16;
     omg \<leftarrow> rds b 32; OMGd \<leftarrow> rds b 24; tgd \<leftarrow> rds b 8; svh \<leftarrow> rdu b 6; flag \<leftarrow> rdu b 1; fit \<leftarrow> rdu b 1;
     State_Monad.return (prn, week, of_int toc * 16, of_int sqrtA * P2 19,
       eph_zero\<lparr>eph_sva := sva, eph_code := code, eph_idot := of_int idot * P2 43 * SC2RAD,
         eph_iode := iode, eph_f2 := of_int f2 * P2 55, eph_f1 := of_int f1 * P2 43,
         eph_f0 := of_int f0 * P2 31, eph_iodc := iodc, eph_crs := of_int crs * P2 5,
         eph_deln := of_int deln * P2 43 * SC2RAD, eph_M0 := of_int M0 * P2 31 * SC2RAD,
         eph_cuc := of_int cuc * P2 29, eph_e := of_int e * P2 33, eph_cus := of_int cus * P2 29,
         eph_toes := of_int toes * 16, eph_cic := of_int cic * P2 29,
         eph_OMG0 := of_int OMG0 * P2 31 * SC2RAD, eph_cis := of_int cis * P2 29,
         eph_i0 := of_int i0 * P2 31 * SC2RAD, eph_crc := of_int crc * P2 5,
         eph_omg := of_int omg * P2 31 * SC2RAD, eph_OMGd := of_int OMGd * P2 43 * SC2RAD,
         eph_tgd := [of_int tgd * P2 31, 0, 0, 0, 0, 0], eph_svh := svh, eph_flag := flag,
         eph_fit := (if fit \<noteq> 0 then 0 else 4)\<rparr>) }"

definition decode_type1019 :: "env \<Rightarrow> rtcm \<Rightarrow> rtcm \<times> int" where
  "decode_type1019 e rtcm =
    (if 24 + 12 + 476 \<le> r_len rtcm * 8
     then let (prn, week, toc, sqrtA, eph) = fst (run_state (read_1019 (r_buff rtcm)) 36);
              (sys, prn) = (if prn \<ge> 40 then (SYS_SBS, prn + 80) else (SYS_GPS, prn));
              sat = satno sys prn
          in if sat = 0 then (rtcm, -1)
             else let rtcm = get_time e rtcm;
                      eph = (eph_times rtcm (adjgpsweek (now e) week) toc eph)
                              \<lparr>eph_sat := sat, eph_A := sqrtA * sqrtA\<rparr>
                  in if \<not> eph_all rtcm \<and> eph_iode eph = eph_iode (old_eph rtcm sat 0) then (rtcm, 0)
                     else put_eph rtcm sat 0 eph
     else (rtcm, -1))"

section \<open>GLONASS\<close>

definition read_1020 :: "u8 list \<Rightarrow> (nat, int \<times> double \<times> int \<times> int \<times> geph) state" where
  "read_1020 b = do {
     prn \<leftarrow> rdu b 6; frq \<leftarrow> rdu b 5; skip 4; tk_h \<leftarrow> rdu b 5; tk_m \<leftarrow> rdu b 6; tk_s \<leftarrow> rdu b 1;
     bn \<leftarrow> rdu b 1; skip 1; tb \<leftarrow> rdu b 7;
     vel0 \<leftarrow> rdg b 24; pos0 \<leftarrow> rdg b 27; acc0 \<leftarrow> rdg b 5;
     vel1 \<leftarrow> rdg b 24; pos1 \<leftarrow> rdg b 27; acc1 \<leftarrow> rdg b 5;
     vel2 \<leftarrow> rdg b 24; pos2 \<leftarrow> rdg b 27; acc2 \<leftarrow> rdg b 5; skip 1;
     gamn \<leftarrow> rdg b 11; skip 3; taun \<leftarrow> rdg b 22; dtaun \<leftarrow> rdg b 5; age \<leftarrow> rdu b 5;
     State_Monad.return (prn, of_int tk_h * 3600 + of_int tk_m * 60 + of_int tk_s * 30, bn, tb,
       geph_zero\<lparr>ge_frq := frq - 7,
         ge_vel := [vel0 * P2 20 * 1000, vel1 * P2 20 * 1000, vel2 * P2 20 * 1000],
         ge_pos := [pos0 * P2 11 * 1000, pos1 * P2 11 * 1000, pos2 * P2 11 * 1000],
         ge_acc := [acc0 * P2 30 * 1000, acc1 * P2 30 * 1000, acc2 * P2 30 * 1000],
         ge_gamn := gamn * P2 40, ge_taun := taun * P2 30, ge_dtaun := dtaun * P2 30,
         ge_age := age\<rparr>) }"

text \<open>A time of day is moved by a day where it is half a day from the reference.\<close>

definition near_day :: "double \<Rightarrow> double \<Rightarrow> double" where
  "near_day tod t =
    (if t < tod - 43200 then t + 86400 else if t > tod + 43200 then t - 86400 else t)"

definition decode_type1020 :: "env \<Rightarrow> rtcm \<Rightarrow> rtcm \<times> int" where
  "decode_type1020 e rtcm =
    (if 24 + 12 + 348 \<le> r_len rtcm * 8
     then let (prn, tk, bn, tb, geph) = fst (run_state (read_1020 (r_buff rtcm)) 36);
              sat = satno SYS_GLO prn
          in if sat = 0 then (rtcm, -1)
             else let rtcm = get_time e rtcm;
                      (tow, week) = time2gpst (gpst2utc (r_time rtcm));
                      tod = fmod tow 86400; tow = tow - tod;
                      tof = near_day tod (tk - 10800);
                      toe = near_day tod (of_int tb * 900 - 10800);
                      geph = geph\<lparr>ge_sat := sat, ge_svh := bn, ge_iode := tb AND 0x7F,
                               ge_tof := utc2gpst (gpst2time week (tow + tof)),
                               ge_toe := utc2gpst (gpst2time week (tow + toe))\<rparr>;
                      old = nav_geph (r_nav rtcm) ! nat (prn - 1)
                  in if \<not> eph_all rtcm \<and> \<bar>timediff (ge_toe geph) (ge_toe old)\<bar> < 1 \<and>
                        ge_svh geph = ge_svh old then (rtcm, 0)
                     else (rtcm\<lparr>r_nav := (r_nav rtcm)
                             \<lparr>nav_geph := (nav_geph (r_nav rtcm))[nat (prn - 1) := geph]\<rparr>,
                             r_ephsat := sat, r_ephset := 0\<rparr>, 2)
     else (rtcm, -1))"

section \<open>NavIC\<close>

definition read_1041 :: "u8 list \<Rightarrow> (nat, int \<times> int \<times> double \<times> double \<times> eph) state" where
  "read_1041 b = do {
     prn \<leftarrow> rdu b 6; week \<leftarrow> rdu b 10; f0 \<leftarrow> rds b 22; f1 \<leftarrow> rds b 16; f2 \<leftarrow> rds b 8; sva \<leftarrow> rdu b 4;
     toc \<leftarrow> rdu b 16; tgd \<leftarrow> rds b 8; deln \<leftarrow> rds b 22; iode \<leftarrow> rdu b 8; skip 10; svh \<leftarrow> rdu b 2;
     cuc \<leftarrow> rds b 15; cus \<leftarrow> rds b 15; cic \<leftarrow> rds b 15; cis \<leftarrow> rds b 15; crc \<leftarrow> rds b 15; crs \<leftarrow> rds b 15;
     idot \<leftarrow> rds b 14; M0 \<leftarrow> rds b 32; toes \<leftarrow> rdu b 16; e \<leftarrow> rdu b 32; sqrtA \<leftarrow> rdu b 32; OMG0 \<leftarrow> rds b 32;
     omg \<leftarrow> rds b 32; OMGd \<leftarrow> rds b 22; i0 \<leftarrow> rds b 32;
     State_Monad.return (prn, week, of_int toc * 16, of_int sqrtA * P2 19,
       eph_zero\<lparr>eph_f0 := of_int f0 * P2 31, eph_f1 := of_int f1 * P2 43, eph_f2 := of_int f2 * P2 55,
         eph_sva := sva, eph_tgd := [of_int tgd * P2 31, 0, 0, 0, 0, 0],
         eph_deln := of_int deln * P2 41 * SC2RAD, eph_iode := iode, eph_svh := svh,
         eph_cuc := of_int cuc * P2 28, eph_cus := of_int cus * P2 28, eph_cic := of_int cic * P2 28,
         eph_cis := of_int cis * P2 28, eph_crc := of_int crc * 0.0625, eph_crs := of_int crs * 0.0625,
         eph_idot := of_int idot * P2 43 * SC2RAD, eph_M0 := of_int M0 * P2 31 * SC2RAD,
         eph_toes := of_int toes * 16, eph_e := of_int e * P2 33,
         eph_OMG0 := of_int OMG0 * P2 31 * SC2RAD, eph_omg := of_int omg * P2 31 * SC2RAD,
         eph_OMGd := of_int OMGd * P2 41 * SC2RAD, eph_i0 := of_int i0 * P2 31 * SC2RAD\<rparr>) }"

definition decode_type1041 :: "env \<Rightarrow> rtcm \<Rightarrow> rtcm \<times> int" where
  "decode_type1041 e rtcm =
    (if 24 + 12 + 482 - 12 \<le> r_len rtcm * 8
     then let (prn, week, toc, sqrtA, eph) = fst (run_state (read_1041 (r_buff rtcm)) 36);
              sat = satno SYS_IRN prn
          in if sat = 0 then (rtcm, -1)
             else let rtcm = get_time e rtcm;
                      eph = (eph_times rtcm (adjgpsweek (now e) week) toc eph)
                              \<lparr>eph_sat := sat, eph_A := sqrtA * sqrtA, eph_iodc := eph_iode eph\<rparr>
                  in if \<not> eph_all rtcm \<and> eph_iode eph = eph_iode (old_eph rtcm sat 0) then (rtcm, 0)
                     else put_eph rtcm sat 0 eph
     else (rtcm, -1))"

section \<open>QZSS\<close>

definition read_1044 :: "u8 list \<Rightarrow> (nat, int \<times> int \<times> double \<times> double \<times> eph) state" where
  "read_1044 b = do {
     prn \<leftarrow> rdu b 4; toc \<leftarrow> rdu b 16; f2 \<leftarrow> rds b 8; f1 \<leftarrow> rds b 16; f0 \<leftarrow> rds b 22; iode \<leftarrow> rdu b 8;
     crs \<leftarrow> rds b 16; deln \<leftarrow> rds b 16; M0 \<leftarrow> rds b 32; cuc \<leftarrow> rds b 16; e \<leftarrow> rdu b 32; cus \<leftarrow> rds b 16;
     sqrtA \<leftarrow> rdu b 32; toes \<leftarrow> rdu b 16; cic \<leftarrow> rds b 16; OMG0 \<leftarrow> rds b 32; cis \<leftarrow> rds b 16; i0 \<leftarrow> rds b 32;
     crc \<leftarrow> rds b 16; omg \<leftarrow> rds b 32; OMGd \<leftarrow> rds b 24; idot \<leftarrow> rds b 14; code \<leftarrow> rdu b 2; week \<leftarrow> rdu b 10;
     sva \<leftarrow> rdu b 4; svh \<leftarrow> rdu b 6; tgd \<leftarrow> rds b 8; iodc \<leftarrow> rdu b 10; fit \<leftarrow> rdu b 1;
     State_Monad.return (prn + 192, week, of_int toc * 16, of_int sqrtA * P2 19,
       eph_zero\<lparr>eph_f2 := of_int f2 * P2 55, eph_f1 := of_int f1 * P2 43, eph_f0 := of_int f0 * P2 31,
         eph_iode := iode, eph_crs := of_int crs * P2 5, eph_deln := of_int deln * P2 43 * SC2RAD,
         eph_M0 := of_int M0 * P2 31 * SC2RAD, eph_cuc := of_int cuc * P2 29, eph_e := of_int e * P2 33,
         eph_cus := of_int cus * P2 29, eph_toes := of_int toes * 16, eph_cic := of_int cic * P2 29,
         eph_OMG0 := of_int OMG0 * P2 31 * SC2RAD, eph_cis := of_int cis * P2 29,
         eph_i0 := of_int i0 * P2 31 * SC2RAD, eph_crc := of_int crc * P2 5,
         eph_omg := of_int omg * P2 31 * SC2RAD, eph_OMGd := of_int OMGd * P2 43 * SC2RAD,
         eph_idot := of_int idot * P2 43 * SC2RAD, eph_code := code, eph_sva := sva, eph_svh := svh,
         eph_tgd := [of_int tgd * P2 31, 0, 0, 0, 0, 0], eph_iodc := iodc,
         eph_fit := (if fit \<noteq> 0 then 0 else 2)\<rparr>) }"

definition decode_type1044 :: "env \<Rightarrow> rtcm \<Rightarrow> rtcm \<times> int" where
  "decode_type1044 e rtcm =
    (if 24 + 12 + 473 \<le> r_len rtcm * 8
     then let (prn, week, toc, sqrtA, eph) = fst (run_state (read_1044 (r_buff rtcm)) 36);
              sat = satno SYS_QZS prn
          in if sat = 0 then (rtcm, -1)
             else let rtcm = get_time e rtcm;
                      eph = (eph_times rtcm (adjgpsweek (now e) week) toc eph)
                              \<lparr>eph_sat := sat, eph_A := sqrtA * sqrtA, eph_flag := 1\<rparr>;
                      old = old_eph rtcm sat 0
                  in if \<not> eph_all rtcm \<and> eph_iode eph = eph_iode old \<and> eph_iodc eph = eph_iodc old
                     then (rtcm, 0)
                     else put_eph rtcm sat 0 eph
     else (rtcm, -1))"

section \<open>Galileo\<close>

text \<open>The fields 1045 and 1046 have in common, up to the rate of the node.\<close>

definition read_gal :: "u8 list \<Rightarrow> (nat, int \<times> int \<times> double \<times> double \<times> eph) state" where
  "read_gal b = do {
     prn \<leftarrow> rdu b 6; week \<leftarrow> rdu b 12; iode \<leftarrow> rdu b 10; sva \<leftarrow> rdu b 8; idot \<leftarrow> rds b 14; toc \<leftarrow> rdu b 14;
     f2 \<leftarrow> rds b 6; f1 \<leftarrow> rds b 21; f0 \<leftarrow> rds b 31; crs \<leftarrow> rds b 16; deln \<leftarrow> rds b 16; M0 \<leftarrow> rds b 32;
     cuc \<leftarrow> rds b 16; e \<leftarrow> rdu b 32; cus \<leftarrow> rds b 16; sqrtA \<leftarrow> rdu b 32; toes \<leftarrow> rdu b 14; cic \<leftarrow> rds b 16;
     OMG0 \<leftarrow> rds b 32; cis \<leftarrow> rds b 16; i0 \<leftarrow> rds b 32; crc \<leftarrow> rds b 16; omg \<leftarrow> rds b 32; OMGd \<leftarrow> rds b 24;
     State_Monad.return (prn, week, of_int toc * 60, of_int sqrtA * P2 19,
       eph_zero\<lparr>eph_iode := iode, eph_sva := sva, eph_idot := of_int idot * P2 43 * SC2RAD,
         eph_f2 := of_int f2 * P2 59, eph_f1 := of_int f1 * P2 46, eph_f0 := of_int f0 * P2 34,
         eph_crs := of_int crs * P2 5, eph_deln := of_int deln * P2 43 * SC2RAD,
         eph_M0 := of_int M0 * P2 31 * SC2RAD, eph_cuc := of_int cuc * P2 29,
         eph_e := of_int e * P2 33, eph_cus := of_int cus * P2 29, eph_toes := of_int toes * 60,
         eph_cic := of_int cic * P2 29, eph_OMG0 := of_int OMG0 * P2 31 * SC2RAD,
         eph_cis := of_int cis * P2 29, eph_i0 := of_int i0 * P2 31 * SC2RAD,
         eph_crc := of_int crc * P2 5, eph_omg := of_int omg * P2 31 * SC2RAD,
         eph_OMGd := of_int OMGd * P2 43 * SC2RAD\<rparr>) }"

definition decode_type1045 :: "env \<Rightarrow> rtcm \<Rightarrow> rtcm \<times> int" where
  "decode_type1045 e rtcm =
    (if strstr (r_opt rtcm) ''-GALINAV'' \<noteq> None then (rtcm, 0)
     else if 24 + 12 + 484 \<le> r_len rtcm * 8
     then let b = r_buff rtcm;
              ((prn, week, toc, sqrtA, eph), e5a_hs, e5a_dvs, tgd) =
                fst (run_state (do { h \<leftarrow> read_gal b; tgd \<leftarrow> rds b 10; e5a_hs \<leftarrow> rdu b 2; e5a_dvs \<leftarrow> rdu b 1;
                                     State_Monad.return (h, e5a_hs, e5a_dvs, of_int tgd * P2 32) }) 36);
              sat = satno SYS_GAL prn
          in if sat = 0 then (rtcm, -1)
             else let rtcm = get_time e rtcm;
                      eph = (eph_times rtcm (week + 1024) toc eph)
                              \<lparr>eph_sat := sat, eph_A := sqrtA * sqrtA, eph_tgd := [tgd, 0, 0, 0, 0, 0],
                               eph_svh := push_bit 4 e5a_hs + push_bit 3 e5a_dvs,
                               eph_code := push_bit 1 1 + push_bit 8 1, eph_iodc := eph_iode eph\<rparr>
                  in if \<not> eph_all rtcm \<and> eph_iode eph = eph_iode (old_eph rtcm sat 1) then (rtcm, 0)
                     else put_eph rtcm sat 1 eph
     else (rtcm, -1))"

definition decode_type1046 :: "env \<Rightarrow> rtcm \<Rightarrow> rtcm \<times> int" where
  "decode_type1046 e rtcm =
    (if strstr (r_opt rtcm) ''-GALFNAV'' \<noteq> None then (rtcm, 0)
     else if 24 + 12 + 492 \<le> r_len rtcm * 8
     then let b = r_buff rtcm;
              ((prn, week, toc, sqrtA, eph), tgd0, tgd1, e5b_hs, e5b_dvs, e1_hs, e1_dvs) =
                fst (run_state (do { h \<leftarrow> read_gal b; tgd0 \<leftarrow> rds b 10; tgd1 \<leftarrow> rds b 10; e5b_hs \<leftarrow> rdu b 2;
                                     e5b_dvs \<leftarrow> rdu b 1; e1_hs \<leftarrow> rdu b 2; e1_dvs \<leftarrow> rdu b 1;
                                     State_Monad.return (h, of_int tgd0 * P2 32, of_int tgd1 * P2 32,
                                       e5b_hs, e5b_dvs, e1_hs, e1_dvs) }) 36);
              sat = satno SYS_GAL prn
          in if sat = 0 then (rtcm, -1)
             else let rtcm = get_time e rtcm;
                      eph = (eph_times rtcm (week + 1024) toc eph)
                              \<lparr>eph_sat := sat, eph_A := sqrtA * sqrtA, eph_tgd := [tgd0, tgd1, 0, 0, 0, 0],
                               eph_svh := push_bit 7 e5b_hs + push_bit 6 e5b_dvs + push_bit 1 e1_hs
                                          + push_bit 0 e1_dvs,
                               eph_code := push_bit 0 1 + push_bit 2 1 + push_bit 9 1,
                               eph_iodc := eph_iode eph\<rparr>
                  in if \<not> eph_all rtcm \<and> eph_iode eph = eph_iode (old_eph rtcm sat 0) then (rtcm, 0)
                     else put_eph rtcm sat 0 eph
     else (rtcm, -1))"

section \<open>BeiDou\<close>

definition read_1042 :: "u8 list \<Rightarrow> (nat, int \<times> int \<times> double \<times> double \<times> eph) state" where
  "read_1042 b = do {
     prn \<leftarrow> rdu b 6; week \<leftarrow> rdu b 13; sva \<leftarrow> rdu b 4; idot \<leftarrow> rds b 14; iode \<leftarrow> rdu b 5; toc \<leftarrow> rdu b 17;
     f2 \<leftarrow> rds b 11; f1 \<leftarrow> rds b 22; f0 \<leftarrow> rds b 24; iodc \<leftarrow> rdu b 5; crs \<leftarrow> rds b 18; deln \<leftarrow> rds b 16;
     M0 \<leftarrow> rds b 32; cuc \<leftarrow> rds b 18; e \<leftarrow> rdu b 32; cus \<leftarrow> rds b 18; sqrtA \<leftarrow> rdu b 32; toes \<leftarrow> rdu b 17;
     cic \<leftarrow> rds b 18; OMG0 \<leftarrow> rds b 32; cis \<leftarrow> rds b 18; i0 \<leftarrow> rds b 32; crc \<leftarrow> rds b 18; omg \<leftarrow> rds b 32;
     OMGd \<leftarrow> rds b 24; tgd0 \<leftarrow> rds b 10; tgd1 \<leftarrow> rds b 10; svh \<leftarrow> rdu b 1;
     State_Monad.return (prn, week, of_int toc * 8, of_int sqrtA * P2 19,
       eph_zero\<lparr>eph_sva := sva, eph_idot := of_int idot * P2 43 * SC2RAD, eph_iode := iode,
         eph_f2 := of_int f2 * P2 66, eph_f1 := of_int f1 * P2 50, eph_f0 := of_int f0 * P2 33,
         eph_iodc := iodc, eph_crs := of_int crs * P2 6, eph_deln := of_int deln * P2 43 * SC2RAD,
         eph_M0 := of_int M0 * P2 31 * SC2RAD, eph_cuc := of_int cuc * P2 31,
         eph_e := of_int e * P2 33, eph_cus := of_int cus * P2 31, eph_toes := of_int toes * 8,
         eph_cic := of_int cic * P2 31, eph_OMG0 := of_int OMG0 * P2 31 * SC2RAD,
         eph_cis := of_int cis * P2 31, eph_i0 := of_int i0 * P2 31 * SC2RAD,
         eph_crc := of_int crc * P2 6, eph_omg := of_int omg * P2 31 * SC2RAD,
         eph_OMGd := of_int OMGd * P2 43 * SC2RAD,
         eph_tgd := [of_int tgd0 * (1 / 10 ^ 10), of_int tgd1 * (1 / 10 ^ 10), 0, 0, 0, 0],
         eph_svh := svh\<rparr>) }"

definition decode_type1042 :: "env \<Rightarrow> rtcm \<Rightarrow> rtcm \<times> int" where
  "decode_type1042 e rtcm =
    (if 24 + 12 + 499 \<le> r_len rtcm * 8
     then let (prn, week, toc, sqrtA, eph) = fst (run_state (read_1042 (r_buff rtcm)) 36);
              sat = satno SYS_CMP prn
          in if sat = 0 then (rtcm, -1)
             else let rtcm = get_time e rtcm;
                      eph = (eph_times_bdt rtcm (adjbdtweek e week) toc eph)
                              \<lparr>eph_sat := sat, eph_A := sqrtA * sqrtA\<rparr>;
                      old = old_eph rtcm sat 0
                  in if \<not> eph_all rtcm \<and> timediff (eph_toe eph) (eph_toe old) = 0 \<and>
                        eph_iode eph = eph_iode old \<and> eph_iodc eph = eph_iodc old then (rtcm, 0)
                     else put_eph rtcm sat 0 eph
     else (rtcm, -1))"

section \<open>The operations keep the invariants\<close>

lemma wf_state_navD: "wf_state rtcm \<Longrightarrow> wf_nav (r_nav rtcm)"
  by (simp add: wf_state_def)

lemma wf_nav_eph: "wf_nav nv \<Longrightarrow> wf_nav (nv\<lparr>nav_eph := (nav_eph nv)[k := x]\<rparr>)"
  by (simp add: wf_nav_def)

lemma wf_nav_geph: "wf_nav nv \<Longrightarrow> wf_nav (nv\<lparr>nav_geph := (nav_geph nv)[k := g]\<rparr>)"
  by (simp add: wf_nav_def)

context rtcm_invariant
begin

lemma inv_put_eph [wf_intros]: "P rtcm \<Longrightarrow> P (fst (put_eph rtcm sat ephset eph))"
  by (simp add: put_eph_def P_nav wf_nav_eph)

lemma inv_decode_eph [wf_intros]:
  assumes "P rtcm"
  shows "P (fst (decode_type1019 e rtcm))" and "P (fst (decode_type1041 e rtcm))"
    and "P (fst (decode_type1044 e rtcm))" and "P (fst (decode_type1045 e rtcm))"
    and "P (fst (decode_type1046 e rtcm))" and "P (fst (decode_type1042 e rtcm))"
  using assms
  unfolding decode_type1019_def decode_type1041_def decode_type1044_def decode_type1045_def
    decode_type1046_def decode_type1042_def Let_def case_prod_beta
  by (simp_all add: inv_put_eph inv_get_time)

lemma inv_decode_type1020 [wf_intros]: "P rtcm \<Longrightarrow> P (fst (decode_type1020 e rtcm))"
  unfolding decode_type1020_def Let_def case_prod_beta
  by (simp add: inv_get_time P_nav wf_nav_geph)

end

text \<open>
  Where a decoder reports an ephemeris, the satellite it names is valid and the entry of its set
  holds a record for that satellite.
\<close>

lemma put_eph_stored:
  assumes "wf_state rtcm" and "1 \<le> sat" and "sat \<le> MAXSAT" and "0 \<le> ephset" and "ephset \<le> 1"
  shows "old_eph (fst (put_eph rtcm sat ephset eph)) sat ephset = eph"
proof -
  have "nat (sat - 1 + MAXSAT * ephset) < length (nav_eph (r_nav rtcm))"
    using wf_state_navD [OF assms(1)] assms(2-5) by (simp add: wf_nav_def)
  then show ?thesis by (simp add: put_eph_def old_eph_def)
qed

definition eph_reported :: "rtcm \<Rightarrow> bool" where
  "eph_reported rtcm \<longleftrightarrow> 1 \<le> r_ephsat rtcm \<and> r_ephsat rtcm \<le> MAXSAT \<and>
     r_ephset rtcm \<in> {0, 1} \<and> eph_sat (old_eph rtcm (r_ephsat rtcm) (r_ephset rtcm)) = r_ephsat rtcm"

lemma put_eph_reported:
  assumes "wf_state rtcm" and "satno sys prn \<noteq> 0" and "eph_sat eph = satno sys prn"
    and "ephset \<in> {0, 1}"
  shows "eph_reported (fst (put_eph rtcm (satno sys prn) ephset eph))"
  using put_eph_stored [OF assms(1), of "satno sys prn" ephset eph] satno_pos_bounds [OF assms(2)] assms(3,4)
  by (auto simp: eph_reported_def put_eph_def)

lemma decode_eph_reported:
  assumes "wf_state rtcm"
  shows "decode_type1019 e rtcm = (rtcm', 2) \<Longrightarrow> eph_reported rtcm'"
    and "decode_type1041 e rtcm = (rtcm', 2) \<Longrightarrow> eph_reported rtcm'"
    and "decode_type1044 e rtcm = (rtcm', 2) \<Longrightarrow> eph_reported rtcm'"
    and "decode_type1045 e rtcm = (rtcm', 2) \<Longrightarrow> eph_reported rtcm'"
    and "decode_type1046 e rtcm = (rtcm', 2) \<Longrightarrow> eph_reported rtcm'"
    and "decode_type1042 e rtcm = (rtcm', 2) \<Longrightarrow> eph_reported rtcm'"
  unfolding decode_type1019_def decode_type1041_def decode_type1044_def decode_type1045_def
    decode_type1046_def decode_type1042_def Let_def case_prod_beta
  using put_eph_reported [OF wf.inv_get_time [OF assms, of e]]
  by (auto split: if_split_asm dest!: arg_cong [of _ "(rtcm', 2)" fst])

end
