(* ===== verification/Rtcm3Msm.thy ===== *)
theory Rtcm3Msm
  imports Rtcm3Obs Rtcm3Sta Rtcm3Eph
begin

text \<open>
  Multiple signal messages of \<^verbatim>\<open>rtcm3.c\<close>: the tables of signals, the choice of a slot of the
  observation record for every signal (\<open>sigindex\<close>), the header and the decoders MSM 4 to 7.
  A decoder returns None where the code accesses an array outside its bounds: the string of signal
  names, the tables of GLONASS frequency channels and ephemerides.
\<close>

section \<open>Signal tables\<close>

definition msm_sig_gps :: "string list" where
  "msm_sig_gps =
    [''''  ,''1C'',''1P'',''1W'',''''  ,''''  ,''''  ,''2C'',''2P'',''2W'',''''  ,''''  ,
     ''''  ,''''  ,''2S'',''2L'',''2X'',''''  ,''''  ,''''  ,''''  ,''5I'',''5Q'',''5X'',
     ''''  ,''''  ,''''  ,''''  ,''''  ,''1S'',''1L'',''1X'']"

definition msm_sig_glo :: "string list" where
  "msm_sig_glo =
    [''''  ,''1C'',''1P'',''''  ,''''  ,''''  ,''''  ,''2C'',''2P'',''''  ,''''  ,''''  ,
     ''''  ,''''  ,''''  ,''''  ,''''  ,''''  ,''''  ,''''  ,''''  ,''''  ,''''  ,''''  ,
     ''''  ,''''  ,''''  ,''''  ,''''  ,''''  ,''''  ,'''']"

definition msm_sig_gal :: "string list" where
  "msm_sig_gal =
    [''''  ,''1C'',''1A'',''1B'',''1X'',''1Z'',''''  ,''6C'',''6A'',''6B'',''6X'',''6Z'',
     ''''  ,''7I'',''7Q'',''7X'',''''  ,''8I'',''8Q'',''8X'',''''  ,''5I'',''5Q'',''5X'',
     ''''  ,''''  ,''''  ,''''  ,''''  ,''''  ,''''  ,'''']"

definition msm_sig_qzs :: "string list" where
  "msm_sig_qzs =
    [''''  ,''1C'',''''  ,''''  ,''''  ,''''  ,''''  ,''''  ,''6S'',''6L'',''6X'',''''  ,
     ''''  ,''''  ,''2S'',''2L'',''2X'',''''  ,''''  ,''''  ,''''  ,''5I'',''5Q'',''5X'',
     ''''  ,''''  ,''''  ,''''  ,''''  ,''1S'',''1L'',''1X'']"

definition msm_sig_sbs :: "string list" where
  "msm_sig_sbs =
    [''''  ,''1C'',''''  ,''''  ,''''  ,''''  ,''''  ,''''  ,''''  ,''''  ,''''  ,''''  ,
     ''''  ,''''  ,''''  ,''''  ,''''  ,''''  ,''''  ,''''  ,''''  ,''5I'',''5Q'',''5X'',
     ''''  ,''''  ,''''  ,''''  ,''''  ,''''  ,''''  ,'''']"

definition msm_sig_cmp :: "string list" where
  "msm_sig_cmp =
    [''''  ,''2I'',''2Q'',''2X'',''''  ,''''  ,''''  ,''6I'',''6Q'',''6X'',''''  ,''''  ,
     ''''  ,''7I'',''7Q'',''7X'',''''  ,''''  ,''''  ,''''  ,''''  ,''''  ,''''  ,''''  ,
     ''''  ,''''  ,''''  ,''''  ,''''  ,''''  ,''''  ,'''']"

definition msm_sig_irn :: "string list" where
  "msm_sig_irn =
    [''''  ,''''  ,''''  ,''''  ,''''  ,''''  ,''''  ,''''  ,''''  ,''''  ,''''  ,''''  ,
     ''''  ,''''  ,''''  ,''''  ,''''  ,''''  ,''''  ,''''  ,''''  ,''5A'',''''  ,''''  ,
     ''''  ,''''  ,''''  ,''''  ,''''  ,''''  ,''''  ,'''']"

lemmas msm_sig_defs = msm_sig_gps_def msm_sig_glo_def msm_sig_gal_def msm_sig_qzs_def
  msm_sig_sbs_def msm_sig_cmp_def msm_sig_irn_def

text \<open>The switch of \<open>save_msm_obs\<close>: the place of a system's string and the name of a signal.\<close>

definition msm_type_index :: "int \<Rightarrow> nat option" where
  "msm_type_index sys =
    (if sys = SYS_GPS then Some 0 else if sys = SYS_GLO then Some 1 else if sys = SYS_GAL then Some 2
     else if sys = SYS_QZS then Some 3 else if sys = SYS_SBS then Some 4
     else if sys = SYS_CMP then Some 5 else if sys = SYS_IRN then Some 6 else None)"

definition msm_sig :: "int \<Rightarrow> nat \<Rightarrow> string" where
  "msm_sig sys sg =
    (if sys = SYS_GPS then msm_sig_gps ! (sg - 1) else if sys = SYS_GLO then msm_sig_glo ! (sg - 1)
     else if sys = SYS_GAL then msm_sig_gal ! (sg - 1) else if sys = SYS_QZS then msm_sig_qzs ! (sg - 1)
     else if sys = SYS_SBS then msm_sig_sbs ! (sg - 1) else if sys = SYS_CMP then msm_sig_cmp ! (sg - 1)
     else if sys = SYS_IRN then msm_sig_irn ! (sg - 1) else [])"

text \<open>The string of signal names the code prints: unknown signals by number, commas between.\<close>

definition sig_text :: "int \<Rightarrow> nat \<Rightarrow> string" where
  "sig_text sys sg =
    (if obs2code (msm_sig sys sg) \<noteq> CODE_NONE then CHR ''L'' # msm_sig sys sg
     else CHR ''('' # dec sg @ [CHR '')''])"

fun sigs_text :: "int \<Rightarrow> nat list \<Rightarrow> string" where
  "sigs_text sys [] = []"
| "sigs_text sys [s] = sig_text sys s"
| "sigs_text sys (s # t # ss) = sig_text sys s @ [CHR '',''] @ sigs_text sys (t # ss)"

section \<open>Slots of the signals\<close>

text \<open>
  The first loop of \<open>sigindex\<close>: \<open>pri_h\<close> holds the highest priority seen for a frequency,
  \<open>index\<close> one more than the signal that has it (0 if none), \<open>ex\<close> the signals that move
  to an extended slot.
\<close>

type_synonym sigstate = "int list \<times> nat list \<times> bool list"

definition sig_step ::
    "pritable \<Rightarrow> int \<Rightarrow> nat list \<Rightarrow> string \<Rightarrow> int list \<Rightarrow> nat \<Rightarrow> sigstate \<Rightarrow> sigstate" where
  "sig_step tbl sys code opt idx i = (\<lambda>(pri_h, index, ex).
    if code ! i = CODE_NONE then (pri_h, index, ex)
    else if idx ! i \<ge> int NFREQ then (pri_h, index, ex[i := True])
    else let f = nat (idx ! i); pri = getcodepri tbl sys (code ! i) opt in
         if pri > pri_h ! f
         then (pri_h[f := pri], index[f := i + 1],
               if index ! f \<noteq> 0 then ex[index ! f - 1 := True] else ex)
         else (pri_h, index, ex[i := True]))"

text \<open>The second loop: extended signals take the slots after the frequencies, as long as there are.\<close>

definition slot_step :: "bool list \<Rightarrow> nat \<Rightarrow> int list \<times> nat \<Rightarrow> int list \<times> nat" where
  "slot_step ex i = (\<lambda>(idx, nex).
     if \<not> ex ! i then (idx, nex)
     else if nex < NEXOBS then (idx[i := int NFREQ + int nex], nex + 1)
     else (idx[i := -1], nex))"

definition sigindex :: "pritable \<Rightarrow> int \<Rightarrow> nat list \<Rightarrow> nat \<Rightarrow> string \<Rightarrow> int list \<Rightarrow> int list" where
  "sigindex tbl sys code n opt idx =
    (let (pri_h, index, ex) =
       fold (sig_step tbl sys code opt idx) [0..<n] (replicate 8 0, replicate 8 0, replicate 32 False)
     in fst (fold (slot_step ex) [0..<n] (idx, 0)))"

section \<open>Header\<close>

record msm_h =
  h_time_s :: int
  h_clk_str :: int
  h_clk_ext :: int
  h_smooth :: int
  h_tint_s :: int
  h_sats :: "nat list"
  h_sigs :: "nat list"
  h_cellmask :: "int list"

text \<open>The numbers of the bits set in a mask, counted from one.\<close>

definition mask_bits :: "u8 list \<Rightarrow> nat \<Rightarrow> nat \<Rightarrow> nat list" where
  "mask_bits b i n = filter (\<lambda>j. getu b (i + (j - 1)) 1 \<noteq> 0) [1..<n + 1]"

definition rdus :: "u8 list \<Rightarrow> nat \<Rightarrow> nat \<Rightarrow> (nat, int list) state" where
  "rdus b w n = State (\<lambda>i. (read_fields (\<lambda>p. getu b p w) w i n, i + n * w))"

definition rdss :: "u8 list \<Rightarrow> nat \<Rightarrow> nat \<Rightarrow> (nat, int list) state" where
  "rdss b w n = State (\<lambda>i. (read_fields (\<lambda>p. getbits b p w) w i n, i + n * w))"

definition rdmask :: "u8 list \<Rightarrow> nat \<Rightarrow> (nat, nat list) state" where
  "rdmask b n = State (\<lambda>i. (mask_bits b i n, i + n))"

text \<open>The result of the header: number of cells, sync flag, issue of data, header and position.\<close>

definition decode_msm_head ::
    "env \<Rightarrow> rtcm \<Rightarrow> int \<Rightarrow> rtcm \<times> (nat \<times> int \<times> int \<times> msm_h \<times> nat) option" where
  "decode_msm_head e rtcm sys =
    (if 24 + 12 + 157 \<le> r_len rtcm * 8
     then let b = r_buff rtcm; staid = getu b 36 12; i = 48;
              rtcm = (if sys = SYS_GLO then adjday_glot e rtcm (of_int (getu b (i + 3) 27) * 0.001)
                      else if sys = SYS_CMP then adjweek e rtcm (of_int (getu b i 30) * 0.001 + 14)
                      else adjweek e rtcm (of_int (getu b i 30) * 0.001));
              i = i + 30;
              ((sync, iod, h), i) =
                run_state (do { sync \<leftarrow> rdu b 1; iod \<leftarrow> rdu b 3; time_s \<leftarrow> rdu b 7; clk_str \<leftarrow> rdu b 2;
                                clk_ext \<leftarrow> rdu b 2; smooth \<leftarrow> rdu b 1; tint_s \<leftarrow> rdu b 3;
                                sats \<leftarrow> rdmask b 64; sigs \<leftarrow> rdmask b 32;
                                State_Monad.return (sync, iod,
                                  \<lparr>h_time_s = time_s, h_clk_str = clk_str, h_clk_ext = clk_ext,
                                   h_smooth = smooth, h_tint_s = tint_s, h_sats = sats, h_sigs = sigs,
                                   h_cellmask = []\<rparr>) }) i;
              (rtcm, ok) = test_staid rtcm staid;
              n = length (h_sats h) * length (h_sigs h)
          in if \<not> ok then (rtcm, None)
             else if n > 64 then (rtcm, None)
             else if i + n > r_len rtcm * 8 then (rtcm, None)
             else let cells = map (\<lambda>j. getu b (i + j) 1) [0..<n];
                      ncell = length (filter (\<lambda>c. c \<noteq> 0) cells)
                  in (rtcm, Some (ncell, sync, iod, h\<lparr>h_cellmask := cells\<rparr>, i + n))
     else (rtcm, None))"

section \<open>Saving the observations\<close>

text \<open>
  The data of a message: rough ranges and rates of the satellites, fine ranges, phases and rates,
  signal strengths, lock and half-cycle indicators of the cells.  The rates and the extended
  information are missing (a null pointer) in MSM 4 and 6.
\<close>

record msm_data =
  md_r :: "double list"
  md_pr :: "double list"
  md_cp :: "double list"
  md_rates :: "(double list \<times> double list) option"
  md_cnr :: "double list"
  md_lock :: "int list"
  md_ex :: "int list option"
  md_half :: "int list"

text \<open>
  The frequency channel of a GLONASS satellite: from the extended information, the ephemeris or the
  table of channels, -8 if unknown.  The tables are indexed by the number in the message, up to 64,
  whatever the satellite: None is an access outside of them.
\<close>

definition msm_fcn :: "rtcm \<Rightarrow> int option \<Rightarrow> int \<Rightarrow> int \<Rightarrow> (rtcm \<times> int) option" where
  "msm_fcn rtcm ex prn sat =
    (if ex \<noteq> None \<and> the ex \<le> 13
     then if prn \<le> 32 then Some (note_fcn rtcm prn (the ex - 7 + 8), the ex - 7) else None
     else if prn > 27 then None
     else if ge_sat (nav_geph (r_nav rtcm) ! nat (prn - 1)) = sat
     then Some (rtcm, ge_frq (nav_geph (r_nav rtcm) ! nat (prn - 1)))
     else if nav_glo_fcn (r_nav rtcm) ! nat (prn - 1) > 0
     then Some (rtcm, nav_glo_fcn (r_nav rtcm) ! nat (prn - 1) - 8)
     else Some (rtcm, -8))"

text \<open>One cell: signal \<open>k\<close> of the satellite at place \<open>i\<close>, data at place \<open>j\<close>.\<close>

definition msm_cell :: "int \<Rightarrow> msm_data \<Rightarrow> int \<Rightarrow> nat \<Rightarrow> int \<Rightarrow> nat \<Rightarrow> nat \<Rightarrow> nat \<Rightarrow> nat \<Rightarrow> rtcm \<Rightarrow> rtcm" where
  "msm_cell sys md sat index fcn code k i j rtcm =
    (let freq = (if fcn < -7 then 0 else code2freq sys code fcn);
         r = md_r md ! i;
         rtcm = (if r \<noteq> 0 \<and> md_pr md ! j > - (10 ^ 12)
                 then upd_obs rtcm index (\<lambda>d. d\<lparr>ob_P := (ob_P d)[k := r + md_pr md ! j]\<rparr>) else rtcm);
         rtcm = (if r \<noteq> 0 \<and> md_cp md ! j > - (10 ^ 12)
                 then upd_obs rtcm index (\<lambda>d. d\<lparr>ob_L := (ob_L d)[k := (r + md_cp md ! j) * freq / CLIGHT]\<rparr>)
                 else rtcm);
         rtcm = (case md_rates md of None \<Rightarrow> rtcm
                 | Some (rr, rrf) \<Rightarrow>
                     if rrf ! j > - (10 ^ 12)
                     then upd_obs rtcm index
                            (\<lambda>d. d\<lparr>ob_D := (ob_D d)[k := - (rr ! i + rrf ! j) * freq / CLIGHT]\<rparr>)
                     else rtcm);
         (rtcm, lli) = lossoflock rtcm sat k (md_lock md ! j)
     in upd_obs rtcm index
          (\<lambda>d. d\<lparr>ob_LLI := (ob_LLI d)[k := lli + (if md_half md ! j \<noteq> 0 then 3 else 0)],
                ob_SNR := (ob_SNR d)[k := trunc (md_cnr md ! j / 0.001 + 0.5) mod 65536],
                ob_code := (ob_code d)[k := code]\<rparr>))"

text \<open>The loop over the signals of a satellite; \<open>j\<close> counts the cells of the message.\<close>

fun msm_sigs :: "int \<Rightarrow> msm_data \<Rightarrow> msm_h \<Rightarrow> nat list \<Rightarrow> int list \<Rightarrow> int \<Rightarrow> int \<Rightarrow> int \<Rightarrow> nat \<Rightarrow> nat list \<Rightarrow>
    rtcm \<times> nat \<Rightarrow> rtcm \<times> nat" where
  "msm_sigs sys md h code idx sat index fcn i [] (rtcm, j) = (rtcm, j)"
| "msm_sigs sys md h code idx sat index fcn i (k # ks) (rtcm, j) =
     (if h_cellmask h ! (k + i * length (h_sigs h)) = 0
      then msm_sigs sys md h code idx sat index fcn i ks (rtcm, j)
      else msm_sigs sys md h code idx sat index fcn i ks
             (if sat \<noteq> 0 \<and> index \<ge> 0 \<and> idx ! k \<ge> 0
              then msm_cell sys md sat (nat index) fcn (code ! k) (nat (idx ! k)) i j rtcm else rtcm, j + 1))"

definition msm_prn :: "int \<Rightarrow> nat \<Rightarrow> int" where
  "msm_prn sys s = (if sys = SYS_QZS then int s + MINPRNQZS - 1
                    else if sys = SYS_SBS then int s + MINPRNSBS - 1 else int s)"

fun msm_sats :: "int \<Rightarrow> msm_data \<Rightarrow> msm_h \<Rightarrow> nat list \<Rightarrow> int list \<Rightarrow> nat list \<Rightarrow> rtcm \<times> nat \<Rightarrow> (rtcm \<times> nat) option" where
  "msm_sats sys md h code idx [] (rtcm, j) = Some (rtcm, j)"
| "msm_sats sys md h code idx (i # is) (rtcm, j) =
     (let prn = msm_prn sys (h_sats h ! i); sat = satno sys prn;
          (rtcm, index) = (if sat \<noteq> 0 then obs_entry rtcm sat else (rtcm, 0))
      in do { (rtcm, fcn) \<leftarrow> (if sys = SYS_GLO
                then msm_fcn rtcm (case md_ex md of None \<Rightarrow> None | Some ex \<Rightarrow> Some (ex ! i)) prn sat
                else Some (rtcm, 0));
              msm_sats sys md h code idx is
                (msm_sigs sys md h code idx sat index fcn i [0..<length (h_sigs h)] (rtcm, j)) })"

definition put_msmtype :: "rtcm \<Rightarrow> int \<Rightarrow> nat list \<Rightarrow> rtcm option" where
  "put_msmtype rtcm sys sigs =
    (case msm_type_index sys of None \<Rightarrow> Some rtcm
     | Some q \<Rightarrow>
         (if sigs = [] then Some rtcm
          else if length (sigs_text sys sigs) < 128
          then Some (rtcm\<lparr>r_msmtype := (r_msmtype rtcm)[q := sigs_text sys sigs]\<rparr>)
          else None))"

definition sig_codes :: "int \<Rightarrow> nat list \<Rightarrow> nat list" where
  "sig_codes sys sigs = map (\<lambda>s. obs2code (msm_sig sys s)) sigs"

definition save_msm_obs :: "env \<Rightarrow> rtcm \<Rightarrow> int \<Rightarrow> msm_h \<Rightarrow> msm_data \<Rightarrow> rtcm option" where
  "save_msm_obs e rtcm sys h md =
    (let code = sig_codes sys (h_sigs h);
         idx = map (code2idx sys) code
     in do { rtcm \<leftarrow> put_msmtype rtcm sys (h_sigs h);
             let idx = sigindex (pris e) sys code (length (h_sigs h)) (r_opt rtcm) idx;
             (rtcm, j) \<leftarrow> msm_sats sys md h code idx [0..<length (h_sats h)] (rtcm, 0);
             Some rtcm })"

section \<open>Messages\<close>

definition decode_msm0 :: "env \<Rightarrow> rtcm \<Rightarrow> int \<Rightarrow> rtcm \<times> int" where
  "decode_msm0 e rtcm sys =
    (case decode_msm_head e rtcm sys of
       (rtcm, None) \<Rightarrow> (rtcm, -1)
     | (rtcm, Some (ncell, sync, iod, h, i)) \<Rightarrow>
         (rtcm\<lparr>r_obsflag := (if sync = 0 then 1 else 0)\<rparr>, obs_status sync))"

definition rough_range :: "int list \<Rightarrow> int list \<Rightarrow> double list" where
  "rough_range rng rng_m =
    map2 (\<lambda>n m. let r = (if n \<noteq> 255 then of_int n * RANGE_MS else 0)
               in if r \<noteq> 0 then r + of_int m * P2 10 * RANGE_MS else r) rng rng_m"

text \<open>A field with an invalid value leaves the array's initial value.\<close>

definition fine_value :: "int \<Rightarrow> double \<Rightarrow> int \<Rightarrow> double" where
  "fine_value invalid unit v = (if v \<noteq> invalid then of_int v * unit else - (10 ^ 16))"

definition rough_rate :: "int \<Rightarrow> double" where
  "rough_rate v = (if v \<noteq> -8192 then of_int v else 0)"

definition finish_msm :: "env \<Rightarrow> rtcm \<Rightarrow> int \<Rightarrow> int \<Rightarrow> msm_h \<Rightarrow> msm_data \<Rightarrow> (rtcm \<times> int) option" where
  "finish_msm e rtcm sys sync h md =
    do { rtcm \<leftarrow> save_msm_obs e rtcm sys h md;
         Some (rtcm\<lparr>r_obsflag := (if sync = 0 then 1 else 0)\<rparr>, obs_status sync) }"

definition decode_msm4 :: "env \<Rightarrow> rtcm \<Rightarrow> int \<Rightarrow> (rtcm \<times> int) option" where
  "decode_msm4 e rtcm sys =
    (case decode_msm_head e rtcm sys of
       (rtcm, None) \<Rightarrow> Some (rtcm, -1)
     | (rtcm, Some (ncell, sync, iod, h, i)) \<Rightarrow>
        (let b = r_buff rtcm; nsat = length (h_sats h) in
         if i + nsat * 18 + ncell * 48 > r_len rtcm * 8 then Some (rtcm, -1)
         else let md = fst (run_state (do {
                rng \<leftarrow> rdus b 8 nsat; rng_m \<leftarrow> rdus b 10 nsat; prv \<leftarrow> rdss b 15 ncell; cpv \<leftarrow> rdss b 22 ncell;
                lock \<leftarrow> rdus b 4 ncell; half \<leftarrow> rdus b 1 ncell; cnr \<leftarrow> rdus b 6 ncell;
                State_Monad.return \<lparr>md_r = rough_range rng rng_m,
                  md_pr = map (fine_value (-16384) (P2 24 * RANGE_MS)) prv,
                  md_cp = map (fine_value (-2097152) (P2 29 * RANGE_MS)) cpv,
                  md_rates = None, md_cnr = map of_int cnr, md_lock = lock, md_ex = None,
                  md_half = half\<rparr> }) i)
              in finish_msm e rtcm sys sync h md))"

definition decode_msm5 :: "env \<Rightarrow> rtcm \<Rightarrow> int \<Rightarrow> (rtcm \<times> int) option" where
  "decode_msm5 e rtcm sys =
    (case decode_msm_head e rtcm sys of
       (rtcm, None) \<Rightarrow> Some (rtcm, -1)
     | (rtcm, Some (ncell, sync, iod, h, i)) \<Rightarrow>
        (let b = r_buff rtcm; nsat = length (h_sats h) in
         if i + nsat * 36 + ncell * 63 > r_len rtcm * 8 then Some (rtcm, -1)
         else let md = fst (run_state (do {
                rng \<leftarrow> rdus b 8 nsat; ex \<leftarrow> rdus b 4 nsat; rng_m \<leftarrow> rdus b 10 nsat; rate \<leftarrow> rdss b 14 nsat;
                prv \<leftarrow> rdss b 15 ncell; cpv \<leftarrow> rdss b 22 ncell; lock \<leftarrow> rdus b 4 ncell; half \<leftarrow> rdus b 1 ncell;
                cnr \<leftarrow> rdus b 6 ncell; rrv \<leftarrow> rdss b 15 ncell;
                State_Monad.return \<lparr>md_r = rough_range rng rng_m,
                  md_pr = map (fine_value (-16384) (P2 24 * RANGE_MS)) prv,
                  md_cp = map (fine_value (-2097152) (P2 29 * RANGE_MS)) cpv,
                  md_rates = Some (map rough_rate rate, map (fine_value (-16384) 0.0001) rrv),
                  md_cnr = map of_int cnr, md_lock = lock, md_ex = Some ex, md_half = half\<rparr> }) i)
              in finish_msm e rtcm sys sync h md))"

definition decode_msm6 :: "env \<Rightarrow> rtcm \<Rightarrow> int \<Rightarrow> (rtcm \<times> int) option" where
  "decode_msm6 e rtcm sys =
    (case decode_msm_head e rtcm sys of
       (rtcm, None) \<Rightarrow> Some (rtcm, -1)
     | (rtcm, Some (ncell, sync, iod, h, i)) \<Rightarrow>
        (let b = r_buff rtcm; nsat = length (h_sats h) in
         if i + nsat * 18 + ncell * 65 > r_len rtcm * 8 then Some (rtcm, -1)
         else let md = fst (run_state (do {
                rng \<leftarrow> rdus b 8 nsat; rng_m \<leftarrow> rdus b 10 nsat; prv \<leftarrow> rdss b 20 ncell; cpv \<leftarrow> rdss b 24 ncell;
                lock \<leftarrow> rdus b 10 ncell; half \<leftarrow> rdus b 1 ncell; cnr \<leftarrow> rdus b 10 ncell;
                State_Monad.return \<lparr>md_r = rough_range rng rng_m,
                  md_pr = map (fine_value (-524288) (P2 29 * RANGE_MS)) prv,
                  md_cp = map (fine_value (-8388608) (P2 31 * RANGE_MS)) cpv,
                  md_rates = None, md_cnr = map (\<lambda>c. of_int c * 0.0625) cnr, md_lock = lock,
                  md_ex = None, md_half = half\<rparr> }) i)
              in finish_msm e rtcm sys sync h md))"

definition decode_msm7 :: "env \<Rightarrow> rtcm \<Rightarrow> int \<Rightarrow> (rtcm \<times> int) option" where
  "decode_msm7 e rtcm sys =
    (case decode_msm_head e rtcm sys of
       (rtcm, None) \<Rightarrow> Some (rtcm, -1)
     | (rtcm, Some (ncell, sync, iod, h, i)) \<Rightarrow>
        (let b = r_buff rtcm; nsat = length (h_sats h) in
         if i + nsat * 36 + ncell * 80 > r_len rtcm * 8 then Some (rtcm, -1)
         else let md = fst (run_state (do {
                rng \<leftarrow> rdus b 8 nsat; ex \<leftarrow> rdus b 4 nsat; rng_m \<leftarrow> rdus b 10 nsat; rate \<leftarrow> rdss b 14 nsat;
                prv \<leftarrow> rdss b 20 ncell; cpv \<leftarrow> rdss b 24 ncell; lock \<leftarrow> rdus b 10 ncell; half \<leftarrow> rdus b 1 ncell;
                cnr \<leftarrow> rdus b 10 ncell; rrv \<leftarrow> rdss b 15 ncell;
                State_Monad.return \<lparr>md_r = rough_range rng rng_m,
                  md_pr = map (fine_value (-524288) (P2 29 * RANGE_MS)) prv,
                  md_cp = map (fine_value (-8388608) (P2 31 * RANGE_MS)) cpv,
                  md_rates = Some (map rough_rate rate, map (fine_value (-16384) 0.0001) rrv),
                  md_cnr = map (\<lambda>c. of_int c * 0.0625) cnr, md_lock = lock, md_ex = Some ex,
                  md_half = half\<rparr> }) i)
              in finish_msm e rtcm sys sync h md))"

section \<open>Every signal of the tables has a frequency\<close>

definition carrier_digits :: "int \<Rightarrow> string" where
  "carrier_digits sys =
    (if sys = SYS_GPS then ''125'' else if sys = SYS_GLO then ''12346'' else if sys = SYS_GAL then ''17568''
     else if sys = SYS_QZS then ''1256'' else if sys = SYS_SBS then ''15'' else if sys = SYS_CMP then ''127568''
     else if sys = SYS_IRN then ''59'' else [])"

lemma code2idx_digit:
  "one_system sys \<Longrightarrow> cch (code2obs code) 0 \<in> set (carrier_digits sys) \<Longrightarrow> 0 \<le> code2idx sys code"
  unfolding one_system_def
  by (elim insertE emptyE)
     (auto simp: carrier_digits_def code2idx_def carrier_idx_def carrier_defs Let_def)

lemma msm_sig_digit:
  assumes "one_system sys" and "1 \<le> sg" and "sg \<le> 32" and "msm_sig sys sg \<noteq> []"
  shows "cch (msm_sig sys sg) 0 \<in> set (carrier_digits sys)"
proof -
  define ok where "ok = (\<lambda>sys s. s = [] \<or> cch s 0 \<in> set (carrier_digits sys))"
  have t: "list_all (ok SYS_GPS) msm_sig_gps" "list_all (ok SYS_GLO) msm_sig_glo"
    "list_all (ok SYS_GAL) msm_sig_gal" "list_all (ok SYS_QZS) msm_sig_qzs"
    "list_all (ok SYS_SBS) msm_sig_sbs" "list_all (ok SYS_CMP) msm_sig_cmp"
    "list_all (ok SYS_IRN) msm_sig_irn"
    by (simp_all add: ok_def carrier_digits_def cch_def msm_sig_defs)
  have len: "length msm_sig_gps = 32" "length msm_sig_glo = 32" "length msm_sig_gal = 32"
    "length msm_sig_qzs = 32" "length msm_sig_sbs = 32" "length msm_sig_cmp = 32"
    "length msm_sig_irn = 32"
    by (simp_all add: msm_sig_defs)
  have "sg - 1 < 32" using assms(2,3) by linarith
  then have "ok sys (msm_sig sys sg)"
    using assms(1) t len unfolding one_system_def
    by (elim insertE emptyE) (simp_all add: msm_sig_def list_all_length)
  then show ?thesis using assms(4) by (simp add: ok_def)
qed

lemma msm_sig_idx:
  assumes "one_system sys" and "1 \<le> sg" and "sg \<le> 32" and "obs2code (msm_sig sys sg) \<noteq> CODE_NONE"
  shows "0 \<le> code2idx sys (obs2code (msm_sig sys sg))"
proof (rule code2idx_digit [OF assms(1)])
  have "msm_sig sys sg \<noteq> []" using assms(4) find_code_nonempty by (fastforce simp: obs2code_def)
  then show "cch (code2obs (obs2code (msm_sig sys sg))) 0 \<in> set (carrier_digits sys)"
    using msm_sig_digit [OF assms(1-3)] code2obs_obs2code [OF assms(4)] by simp
qed

section \<open>The slots\<close>

text \<open>What \<open>sigindex\<close> is called with: a frequency index for every known signal.\<close>

definition sig_input :: "nat list \<Rightarrow> int list \<Rightarrow> nat \<Rightarrow> bool" where
  "sig_input code idx n \<longleftrightarrow> n \<le> 32 \<and> n \<le> length code \<and> n \<le> length idx \<and>
     (\<forall>i < n. if code ! i = CODE_NONE then idx ! i = -1 else 0 \<le> idx ! i \<and> idx ! i < int NFREQ)"

text \<open>
  The loop invariant of the first loop: a frequency with an entry names a signal of that frequency
  that stays, of the highest priority so far, and every other known signal of it is extended.
\<close>

definition sig_inv :: "pritable \<Rightarrow> int \<Rightarrow> nat list \<Rightarrow> string \<Rightarrow> int list \<Rightarrow> nat \<Rightarrow> sigstate \<Rightarrow> bool" where
  "sig_inv tbl sys code opt idx m = (\<lambda>(pri_h, index, ex).
     length pri_h = 8 \<and> length index = 8 \<and> length ex = 32 \<and>
     (\<forall>f < 8. index ! f \<noteq> 0 \<longrightarrow> index ! f \<le> m \<and> code ! (index ! f - 1) \<noteq> 0 \<and>
        idx ! (index ! f - 1) = int f \<and> pri_h ! f = getcodepri tbl sys (code ! (index ! f - 1)) opt) \<and>
     (\<forall>i < m. code ! i \<noteq> 0 \<longrightarrow> \<not> ex ! i \<longrightarrow> index ! nat (idx ! i) = i + 1) \<and>
     (\<forall>i < m. code ! i \<noteq> 0 \<longrightarrow> getcodepri tbl sys (code ! i) opt \<le> pri_h ! nat (idx ! i)) \<and>
     (\<forall>i < 32. m \<le> i \<or> code ! i = 0 \<longrightarrow> \<not> ex ! i))"

lemma sig_inv_init: "sig_inv tbl sys code opt idx 0 (replicate 8 0, replicate 8 0, replicate 32 False)"
  by (simp add: sig_inv_def)

lemma sig_inv_step:
  assumes inp: "sig_input code idx n" and m: "m < n" and inv: "sig_inv tbl sys code opt idx m st"
  shows "sig_inv tbl sys code opt idx (Suc m) (sig_step tbl sys code opt idx m st)"
proof -
  obtain pri_h index ex where st: "st = (pri_h, index, ex)" by (cases st) auto
  have len: "length pri_h = 8" "length index = 8" "length ex = 32"
    and idx0: "\<And>f. f < 8 \<Longrightarrow> index ! f \<noteq> 0 \<Longrightarrow> index ! f \<le> m \<and> code ! (index ! f - 1) \<noteq> 0 \<and>
        idx ! (index ! f - 1) = int f \<and> pri_h ! f = getcodepri tbl sys (code ! (index ! f - 1)) opt"
    and stay: "\<And>i. i < m \<Longrightarrow> code ! i \<noteq> 0 \<Longrightarrow> \<not> ex ! i \<Longrightarrow> index ! nat (idx ! i) = i + 1"
    and best: "\<And>i. i < m \<Longrightarrow> code ! i \<noteq> 0 \<Longrightarrow> getcodepri tbl sys (code ! i) opt \<le> pri_h ! nat (idx ! i)"
    and noex: "\<And>i. i < 32 \<Longrightarrow> m \<le> i \<or> code ! i = 0 \<Longrightarrow> \<not> ex ! i"
    using inv unfolding st sig_inv_def by auto
  have rng: "\<And>i. i < n \<Longrightarrow> code ! i \<noteq> 0 \<Longrightarrow> 0 \<le> idx ! i \<and> idx ! i < 5" and n32: "n \<le> 32"
    using inp by (auto simp: sig_input_def)
  show ?thesis
  proof (cases "code ! m = 0")
    case True
    then show ?thesis
      using len idx0 stay best noex unfolding st sig_step_def sig_inv_def
      by (simp add: less_Suc_eq le_Suc_eq)
  next
    case False
    define f where "f = nat (idx ! m)"
    define pri where "pri = getcodepri tbl sys (code ! m) opt"
    have f: "f < 8" "idx ! m = int f" "idx ! m < 5" using rng [OF m False] unfolding f_def by linarith+
    show ?thesis
    proof (cases "pri > pri_h ! f")
      case up: True
      define ex' where "ex' = (if index ! f \<noteq> 0 then ex[index ! f - 1 := True] else ex)"
      have res: "sig_step tbl sys code opt idx m st = (pri_h[f := pri], index[f := m + 1], ex')"
        using False f up by (simp add: st sig_step_def Let_def f_def [symmetric] pri_def [symmetric] ex'_def)
      have other: "i \<noteq> m \<and> nat (idx ! i) \<noteq> f" if "i < m" "code ! i \<noteq> 0" "\<not> ex' ! i" for i
      proof -
        have "\<not> ex ! i" using that idx0 [OF f(1)] len m n32 by (auto simp: ex'_def nth_list_update split: if_splits)
        then have "index ! nat (idx ! i) = i + 1" using stay that by blast
        then show ?thesis using that(1,3) len m n32 by (auto simp: ex'_def split: if_splits)
      qed
      have exi: "\<not> ex ! i" if "\<not> ex' ! i" "i < 32" for i
        using that len idx0 [OF f(1)] m n32 by (auto simp: ex'_def nth_list_update split: if_splits)
      have noex': "\<not> ex' ! i" if "i < 32" "Suc m \<le> i \<or> code ! i = 0" for i
        using that noex [of i] idx0 [OF f(1)] len m n32
        by (auto simp: ex'_def nth_list_update split: if_splits)
      have 1: "index[f := m + 1] ! g \<le> Suc m \<and> code ! (index[f := m + 1] ! g - 1) \<noteq> 0 \<and>
          idx ! (index[f := m + 1] ! g - 1) = int g \<and>
          pri_h[f := pri] ! g = getcodepri tbl sys (code ! (index[f := m + 1] ! g - 1)) opt"
        if "g < 8" "index[f := m + 1] ! g \<noteq> 0" for g
        using that idx0 [of g] f(2) len False by (cases "g = f") (auto simp: pri_def)
      have 2: "index[f := m + 1] ! nat (idx ! i) = i + 1"
        if "i < Suc m" "code ! i \<noteq> 0" "\<not> ex' ! i" for i
      proof (cases "i = m")
        case True
        then show ?thesis using f(1) len by (simp add: f_def [symmetric])
      next
        case neq: False
        then have "i < m" "i < 32" using that(1) m n32 by auto
        then show ?thesis using other [of i] stay [of i] exi [of i] that by auto
      qed
      have 3: "getcodepri tbl sys (code ! i) opt \<le> pri_h[f := pri] ! nat (idx ! i)"
        if "i < Suc m" "code ! i \<noteq> 0" for i
        using best [of i] that up f(1) len
        by (cases "i = m"; cases "nat (idx ! i) = f") (auto simp: pri_def f_def)
      show ?thesis
        unfolding res sig_inv_def prod.case
        using len 1 2 3 noex' by (simp add: ex'_def)
    next
      case down: False
      have res: "sig_step tbl sys code opt idx m st = (pri_h, index, ex[m := True])"
        using False f down by (simp add: st sig_step_def Let_def f_def [symmetric] pri_def [symmetric])
      have m32: "m < 32" using m n32 by simp
      have 1: "index ! nat (idx ! i) = i + 1"
        if "i < Suc m" "code ! i \<noteq> 0" "\<not> ex[m := True] ! i" for i
        using that stay [of i] len m32 by (cases "i = m") auto
      have 2: "getcodepri tbl sys (code ! i) opt \<le> pri_h ! nat (idx ! i)"
        if "i < Suc m" "code ! i \<noteq> 0" for i
        using best [of i] that down by (cases "i = m") (auto simp: pri_def f_def)
      have 3: "\<not> ex[m := True] ! i" if "i < 32" "Suc m \<le> i \<or> code ! i = 0" for i
        using that noex [of i] False by (cases "i = m") auto
      have 4: "index ! g \<le> Suc m" if "g < 8" for g
        using idx0 [OF that] by (cases "index ! g = 0") auto
      show ?thesis
        unfolding res sig_inv_def prod.case using len 1 2 3 4 idx0 by simp
    qed
  qed
qed

lemma sig_inv_fold:
  assumes "sig_input code idx n" and "m \<le> n"
  shows "sig_inv tbl sys code opt idx m
    (fold (sig_step tbl sys code opt idx) [0..<m] (replicate 8 0, replicate 8 0, replicate 32 False))"
  using assms(2)
proof (induction m)
  case (Suc m)
  then show ?case using sig_inv_step [OF assms(1), of m] by simp
qed (simp add: sig_inv_init)

text \<open>The second loop in closed form.\<close>

definition ex_rank :: "bool list \<Rightarrow> nat \<Rightarrow> nat" where
  "ex_rank ex i = length (filter (\<lambda>k. ex ! k) [0..<i])"

lemma ex_rank_Suc: "ex_rank ex (Suc i) = ex_rank ex i + (if ex ! i then 1 else 0)"
  by (simp add: ex_rank_def)

lemma ex_rank_mono: "i \<le> k \<Longrightarrow> ex_rank ex i \<le> ex_rank ex k"
  by (induction k) (auto simp: ex_rank_Suc le_Suc_eq)

lemma ex_rank_less: "i < k \<Longrightarrow> ex ! i \<Longrightarrow> ex_rank ex i < ex_rank ex k"
  using ex_rank_mono [of "Suc i" k ex] by (simp add: ex_rank_Suc)

lemma slot_fold:
  "m \<le> length idx \<Longrightarrow>
   length (fst (fold (slot_step ex) [0..<m] (idx, 0))) = length idx \<and>
   snd (fold (slot_step ex) [0..<m] (idx, 0)) = min (ex_rank ex m) NEXOBS \<and>
   (\<forall>i < length idx. fst (fold (slot_step ex) [0..<m] (idx, 0)) ! i =
      (if i < m \<and> ex ! i
       then if ex_rank ex i < NEXOBS then int NFREQ + int (ex_rank ex i) else -1
       else idx ! i))"
proof (induction m)
  case 0
  then show ?case by (simp add: ex_rank_def)
next
  case (Suc m)
  obtain ds nex where st: "fold (slot_step ex) [0..<m] (idx, 0) = (ds, nex)" by fastforce
  have ih: "length ds = length idx" "nex = min (ex_rank ex m) NEXOBS"
    "\<And>i. i < length idx \<Longrightarrow> ds ! i =
      (if i < m \<and> ex ! i then if ex_rank ex i < NEXOBS then int NFREQ + int (ex_rank ex i) else -1
       else idx ! i)"
    using Suc st by auto
  have step: "fold (slot_step ex) [0..<Suc m] (idx, 0) = slot_step ex m (ds, nex)" by (simp add: st)
  show ?case
    unfolding step using ih Suc.prems
    by (auto simp: slot_step_def ex_rank_Suc nth_list_update less_Suc_eq)
qed

text \<open>
  The slot of a signal: none (-1) or one of the slots of a record; two signals never share one; a
  signal keeps the slot of its frequency exactly when no other signal of the frequency precedes it
  in priority.
\<close>

lemma sigindex_slots:
  assumes inp: "sig_input code idx n" and r: "idx' = sigindex tbl sys code n opt idx"
  shows "i < n \<Longrightarrow> -1 \<le> idx' ! i \<and> idx' ! i < int NOBS"
    and "i < n \<Longrightarrow> k < n \<Longrightarrow> i \<noteq> k \<Longrightarrow> 0 \<le> idx' ! i \<Longrightarrow> idx' ! i \<noteq> idx' ! k"
    and "i < n \<Longrightarrow> code ! i = CODE_NONE \<Longrightarrow> idx' ! i = -1"
    and "i < n \<Longrightarrow> k < n \<Longrightarrow> code ! i \<noteq> CODE_NONE \<Longrightarrow> code ! k \<noteq> CODE_NONE \<Longrightarrow> idx ! k = idx ! i \<Longrightarrow>
      idx' ! i = idx ! i \<Longrightarrow> getcodepri tbl sys (code ! k) opt \<le> getcodepri tbl sys (code ! i) opt"
proof -
  obtain pri_h index ex where st: "fold (sig_step tbl sys code opt idx) [0..<n]
      (replicate 8 0, replicate 8 0, replicate 32 False) = (pri_h, index, ex)"
    by (metis prod_cases3)
  have inv: "sig_inv tbl sys code opt idx n (pri_h, index, ex)"
    using sig_inv_fold [OF inp order_refl, of tbl sys opt] st by simp
  have idx': "\<And>i. i < n \<Longrightarrow> idx' ! i = (if ex ! i
       then if ex_rank ex i < NEXOBS then int NFREQ + int (ex_rank ex i) else -1 else idx ! i)"
    using slot_fold [of n idx ex] inp unfolding r sigindex_def st Let_def prod.case sig_input_def by auto
  have rng: "\<And>i. i < n \<Longrightarrow> if code ! i = 0 then idx ! i = -1 else 0 \<le> idx ! i \<and> idx ! i < 5"
    and n32: "n \<le> 32" using inp by (auto simp: sig_input_def)
  have stay: "\<And>i. i < n \<Longrightarrow> code ! i \<noteq> 0 \<Longrightarrow> \<not> ex ! i \<Longrightarrow> index ! nat (idx ! i) = i + 1"
    and best: "\<And>i. i < n \<Longrightarrow> code ! i \<noteq> 0 \<Longrightarrow> getcodepri tbl sys (code ! i) opt \<le> pri_h ! nat (idx ! i)"
    and known: "\<And>i. i < n \<Longrightarrow> code ! i = 0 \<Longrightarrow> \<not> ex ! i"
    and pri: "\<And>f. f < 8 \<Longrightarrow> index ! f \<noteq> 0 \<Longrightarrow>
        pri_h ! f = getcodepri tbl sys (code ! (index ! f - 1)) opt"
    using inv n32 unfolding sig_inv_def by auto
  show "i < n \<Longrightarrow> -1 \<le> idx' ! i \<and> idx' ! i < int NOBS"
    using rng [of i] by (auto simp: idx' split: if_splits)
  show "i < n \<Longrightarrow> code ! i = CODE_NONE \<Longrightarrow> idx' ! i = -1"
    using rng [of i] known [of i] by (auto simp: idx')
  have one: "idx' ! i \<noteq> idx' ! k" if "i < k" "k < n" "0 \<le> idx' ! i" for i k
  proof (cases "ex ! i \<and> ex ! k")
    case True
    then show ?thesis using that ex_rank_less [of i k ex] by (auto simp: idx')
  next
    case False
    have "i < n" using that by simp
    then show ?thesis
      using that False rng [of i] rng [of k] stay [of i] stay [of k] known [of i] known [of k]
      by (auto simp: idx' split: if_splits)
  qed
  then show "i < n \<Longrightarrow> k < n \<Longrightarrow> i \<noteq> k \<Longrightarrow> 0 \<le> idx' ! i \<Longrightarrow> idx' ! i \<noteq> idx' ! k"
    by (metis linorder_neqE_nat)
  show "i < n \<Longrightarrow> k < n \<Longrightarrow> code ! i \<noteq> CODE_NONE \<Longrightarrow> code ! k \<noteq> CODE_NONE \<Longrightarrow> idx ! k = idx ! i \<Longrightarrow>
      idx' ! i = idx ! i \<Longrightarrow> getcodepri tbl sys (code ! k) opt \<le> getcodepri tbl sys (code ! i) opt"
  proof -
    assume a: "i < n" "k < n" "code ! i \<noteq> 0" "code ! k \<noteq> 0" "idx ! k = idx ! i" "idx' ! i = idx ! i"
    have f: "nat (idx ! i) < 8" "idx ! i < 5" "0 \<le> idx ! i" using rng [OF a(1)] a(3) by auto
    have "\<not> ex ! i" using a(6) f(2,3) a(1) by (auto simp: idx' split: if_splits)
    then have "index ! nat (idx ! i) = i + 1" using stay a(1,3) by blast
    then have "pri_h ! nat (idx ! i) = getcodepri tbl sys (code ! i) opt" using pri [OF f(1)] by simp
    then show "getcodepri tbl sys (code ! k) opt \<le> getcodepri tbl sys (code ! i) opt"
      using best [OF a(2,4)] a(5) by simp
  qed
qed

section \<open>The header\<close>

lemma mask_bits_spec:
  "sorted (mask_bits b i n)" "distinct (mask_bits b i n)"
  "j \<in> set (mask_bits b i n) \<longleftrightarrow> 1 \<le> j \<and> j \<le> n \<and> getu b (i + (j - 1)) 1 \<noteq> 0"
  by (auto simp: mask_bits_def sorted_wrt_filter simp del: upt_Suc)

definition wf_head :: "msm_h \<Rightarrow> bool" where
  "wf_head h \<longleftrightarrow> sorted (h_sats h) \<and> distinct (h_sats h) \<and> (\<forall>s \<in> set (h_sats h). 1 \<le> s \<and> s \<le> 64) \<and>
     sorted (h_sigs h) \<and> distinct (h_sigs h) \<and> (\<forall>s \<in> set (h_sigs h). 1 \<le> s \<and> s \<le> 32) \<and>
     length (h_cellmask h) = length (h_sats h) * length (h_sigs h) \<and> length (h_cellmask h) \<le> 64 \<and>
     length (h_sigs h) \<le> 32"

lemma run_msm_readers [simp, runs]:
  "run_state (rdus b w n) i = (read_fields (\<lambda>p. getu b p w) w i n, i + n * w)"
  "run_state (rdss b w n) i = (read_fields (\<lambda>p. getbits b p w) w i n, i + n * w)"
  "run_state (rdmask b n) i = (mask_bits b i n, i + n)"
  by (simp_all add: rdus_def rdss_def rdmask_def)

lemma length_mask_bits: "length (mask_bits b i n) \<le> n"
  unfolding mask_bits_def by (rule order_trans [OF length_filter_le]) simp

text \<open>
  What a header gives: satellites and signals in ascending order within their ranges, a mask of at
  most 64 cells, the number of its ones, and a position inside the message.
\<close>

lemma decode_msm_head_spec:
  assumes "decode_msm_head e rtcm sys = (rtcm', Some (ncell, sync, iod, h, i))"
  shows "wf_head h" and "ncell = length (filter (\<lambda>c. c \<noteq> 0) (h_cellmask h))" and "i \<le> r_len rtcm' * 8"
    and "r_buff rtcm' = r_buff rtcm" and "r_len rtcm' = r_len rtcm"
proof -
  have b: "r_buff (adjweek e r t) = r_buff r" "r_buff (adjday_glot e r t) = r_buff r"
    "r_len (adjweek e r t) = r_len r" "r_len (adjday_glot e r t) = r_len r"
    "r_buff (fst (test_staid r s)) = r_buff r" "r_len (fst (test_staid r s)) = r_len r" for r t s
    by (simp_all add: adjweek_def adjday_glot_def get_time_def Let_def case_prod_beta test_staid_def)
  note [simp] = b mask_bits_spec length_mask_bits
  show "r_buff rtcm' = r_buff rtcm" "r_len rtcm' = r_len rtcm"
    using assms unfolding decode_msm_head_def Let_def case_prod_beta
    by (auto split: if_splits)
  show "wf_head h" "ncell = length (filter (\<lambda>c. c \<noteq> 0) (h_cellmask h))" "i \<le> r_len rtcm' * 8"
    using assms unfolding decode_msm_head_def Let_def case_prod_beta wf_head_def
    by (auto split: if_splits simp: mask_bits_spec(3))
qed

section \<open>The operations keep the invariants\<close>

context rtcm_invariant
begin

lemma inv_msm_cell: "P rtcm \<Longrightarrow> P (msm_cell sys md sat index fcn code k i j rtcm)"
  unfolding msm_cell_def Let_def case_prod_beta
  by (auto intro!: wf_intros simp: wf_obsd_def split: option.split)

lemma inv_msm_sigs: "P rtcm \<Longrightarrow> P (fst (msm_sigs sys md h code idx sat index fcn i ks (rtcm, j)))"
  by (induction ks arbitrary: rtcm j) (auto simp: inv_msm_cell)

lemma inv_msm_fcn: "P rtcm \<Longrightarrow> msm_fcn rtcm ex prn sat = Some (rtcm', fcn) \<Longrightarrow> P rtcm'"
  unfolding msm_fcn_def by (auto split: if_splits intro: inv_note_fcn)

lemma inv_msm_sats: "P rtcm \<Longrightarrow> ret_inv P (msm_sats sys md h code idx is (rtcm, j))"
proof (induction "is" arbitrary: rtcm j)
  case Nil
  then show ?case by (simp add: ret_inv_def)
next
  case (Cons i "is")
  have e: "P (fst (obs_entry rtcm (satno sys prn)))" if "satno sys prn \<noteq> 0" for prn
    using Cons.prems that by (rule inv_obs_entry)
  have step: "ret_inv P (msm_sats sys md h code idx is
      (msm_sigs sys md h code idx sat index fcn i ks (r, j)))" if "P r" for r sat index fcn ks
    using Cons.IH [OF inv_msm_sigs [OF that], of sys md h code idx sat index fcn i ks j
      "snd (msm_sigs sys md h code idx sat index fcn i ks (r, j))"]
    by simp
  show ?case
    unfolding msm_sats.simps Let_def case_prod_beta
    using Cons.prems e
    by (intro ret_inv_bind step) (auto split: if_splits dest!: inv_msm_fcn [rotated])
qed

lemma inv_put_msmtype: "P rtcm \<Longrightarrow> put_msmtype rtcm sys sigs = Some rtcm' \<Longrightarrow> P rtcm'"
  unfolding put_msmtype_def by (auto split: option.splits if_splits)

lemma inv_save_msm_obs:
  assumes "P rtcm" and "save_msm_obs e rtcm sys h md = Some rtcm'"
  shows "P rtcm'"
proof -
  obtain r code idx j where r: "put_msmtype rtcm sys (h_sigs h) = Some r"
    "msm_sats sys md h code idx [0..<length (h_sats h)] (r, 0) = Some (rtcm', j)"
    using assms(2) unfolding save_msm_obs_def Let_def by (auto simp: bind_eq_Some_conv)
  have "P r" using inv_put_msmtype [OF assms(1) r(1)] .
  from inv_msm_sats [OF this, of sys md h code idx "[0..<length (h_sats h)]" 0] r(2)
  show ?thesis by (simp add: ret_inv_def)
qed

lemma inv_finish_msm: "P rtcm \<Longrightarrow> ret_inv P (finish_msm e rtcm sys sync h md)"
  unfolding finish_msm_def by (intro ret_inv_intros) (auto dest: inv_save_msm_obs)

lemma inv_decode_msm_head: "P rtcm \<Longrightarrow> P (fst (decode_msm_head e rtcm sys))"
  unfolding decode_msm_head_def Let_def case_prod_beta
  by (simp add: inv_adjweek inv_adjday_glot inv_test_staid)

lemma inv_decode_msm:
  assumes "P rtcm"
  shows "P (fst (decode_msm0 e rtcm sys))" and "ret_inv P (decode_msm4 e rtcm sys)"
    and "ret_inv P (decode_msm5 e rtcm sys)" and "ret_inv P (decode_msm6 e rtcm sys)"
    and "ret_inv P (decode_msm7 e rtcm sys)"
  unfolding decode_msm0_def decode_msm4_def decode_msm5_def decode_msm6_def decode_msm7_def
  using inv_decode_msm_head [OF assms, of e sys]
  by (auto simp: Let_def split: prod.split option.split intro!: inv_finish_msm ret_inv_Some)

end

section \<open>The messages stay within the arrays\<close>

lemma code2idx_none: "code2idx sys CODE_NONE = -1"
  by (simp add: code2idx_def carrier_idx_def carrier_defs code2obs_def cch_def)

lemma sig_codes_input:
  assumes "one_system sys" and "\<forall>s \<in> set sigs. 1 \<le> s \<and> s \<le> 32" and "length sigs \<le> 32"
  shows "sig_input (sig_codes sys sigs) (map (code2idx sys) (sig_codes sys sigs)) (length sigs)"
proof -
  have "0 \<le> code2idx sys (obs2code (msm_sig sys (sigs ! i))) \<and>
      code2idx sys (obs2code (msm_sig sys (sigs ! i))) < 5"
    if "i < length sigs" "obs2code (msm_sig sys (sigs ! i)) \<noteq> 0" for i
    using msm_sig_idx [OF assms(1) _ _ that(2)] carrier_idx_range [of sys "obs2code (msm_sig sys (sigs ! i))"]
      assms(2) that(1) by auto
  then show ?thesis
    using assms(3) by (auto simp: sig_input_def sig_codes_def code2idx_none)
qed

lemma length_sig_text:
  assumes "one_system sys" and "1 \<le> s" and "s \<le> 32"
  shows "length (sig_text sys s) \<le> 4"
proof (cases "obs2code (msm_sig sys s) = 0")
  case True
  have "length (dec s) \<le> 2" using length_dec [of s 2] assms(3) by simp
  then show ?thesis using True by (simp add: sig_text_def)
next
  case False
  then have "length (msm_sig sys s) = 2"
    using code2obs_obs2code [of "msm_sig sys s"] length_code2obs [of "obs2code (msm_sig sys s)"] by simp
  then show ?thesis using False by (simp add: sig_text_def)
qed

lemma length_sigs_text:
  "one_system sys \<Longrightarrow> \<forall>s \<in> set sigs. 1 \<le> s \<and> s \<le> 32 \<Longrightarrow> sigs \<noteq> [] \<Longrightarrow>
   length (sigs_text sys sigs) < 5 * length sigs"
proof (induction sys sigs rule: sigs_text.induct)
  case (2 sys s)
  then show ?case using length_sig_text [of sys s] by simp
next
  case (3 sys s t ss)
  then show ?case using length_sig_text [of sys s] by fastforce
qed simp

lemma put_msmtype_fits:
  assumes "one_system sys" and "\<forall>s \<in> set sigs. 1 \<le> s \<and> s \<le> 32" and "length sigs \<le> 25"
  shows "put_msmtype rtcm sys sigs \<noteq> None"
  using length_sigs_text [OF assms(1,2)] assms(3) by (auto simp: put_msmtype_def split: option.split)

lemma msm_fcn_fits:
  "1 \<le> prn \<Longrightarrow> prn \<le> 27 \<Longrightarrow> msm_fcn rtcm ex prn sat \<noteq> None"
  by (simp add: msm_fcn_def)

lemma bind_total: "m \<noteq> None \<Longrightarrow> (\<And>x. f x \<noteq> None) \<Longrightarrow> Option.bind m f \<noteq> None"
  by (cases m) simp_all

lemma msm_sats_fits:
  assumes "sys = SYS_GLO \<longrightarrow> (\<forall>s \<in> set (h_sats h). 1 \<le> s \<and> s \<le> 27)"
    and "\<forall>i \<in> set is. i < length (h_sats h)"
  shows "msm_sats sys md h code idx is (rtcm, j) \<noteq> None"
  using assms(2)
proof (induction "is" arbitrary: rtcm j)
  case (Cons i "is")
  have i: "sys = SYS_GLO \<Longrightarrow> 1 \<le> msm_prn sys (h_sats h ! i) \<and> msm_prn sys (h_sats h ! i) \<le> 27"
    using assms(1) Cons.prems nth_mem [of i "h_sats h"] by (auto simp: msm_prn_def)
  have ih: "\<And>p. msm_sats sys md h code idx is p \<noteq> None"
    using Cons by (metis list.set_intros(2) surj_pair)
  have f: "(if sys = SYS_GLO then msm_fcn r ex (msm_prn sys (h_sats h ! i)) sat else Some (r, 0)) \<noteq> None"
    for r ex sat
    using i msm_fcn_fits by simp
  show ?case
    unfolding msm_sats.simps Let_def case_prod_beta by (intro bind_total f ih)
qed simp

lemma save_msm_obs_fits:
  assumes "one_system sys" and "wf_head h" and "length (h_sigs h) \<le> 25"
    and "sys = SYS_GLO \<longrightarrow> (\<forall>s \<in> set (h_sats h). s \<le> 27)"
  shows "save_msm_obs e rtcm sys h md \<noteq> None"
proof -
  have "put_msmtype rtcm sys (h_sigs h) \<noteq> None"
    using assms(1-3) by (intro put_msmtype_fits) (auto simp: wf_head_def)
  moreover have "msm_sats sys md h code idx [0..<length (h_sats h)] (r, 0) \<noteq> None" for r code idx
    using assms(2,4) by (intro msm_sats_fits) (auto simp: wf_head_def)
  ultimately show ?thesis
    unfolding save_msm_obs_def Let_def case_prod_beta by (intro bind_total) simp_all
qed

end
