(* ===== verification/Rtcm3Ssr.thy ===== *)
theory Rtcm3Ssr
  imports Rtcm3Obs
begin

text \<open>
  State space representation of \<^verbatim>\<open>rtcm3.c\<close>: the headers and bodies of the seven SSR messages
  in their RTCM form (\<open>subtype = 0\<close>) and IGS form (\<open>subtype > 0\<close>) for every
  satellite system.
\<close>

section \<open>Tables\<close>

definition ssr_sig_gps :: "nat list" where
  "ssr_sig_gps =
    [CODE_L1C,CODE_L1P,CODE_L1W,CODE_L1S,CODE_L1L,CODE_L2C,CODE_L2D,CODE_L2S,
     CODE_L2L,CODE_L2X,CODE_L2P,CODE_L2W,       0,       0,CODE_L5I,CODE_L5Q] @ replicate 16 0"

definition ssr_sig_glo :: "nat list" where
  "ssr_sig_glo =
    [CODE_L1C,CODE_L1P,CODE_L2C,CODE_L2P,CODE_L4A,CODE_L4B,CODE_L6A,CODE_L6B,
     CODE_L3I,CODE_L3Q] @ replicate 22 0"

definition ssr_sig_gal :: "nat list" where
  "ssr_sig_gal =
    [CODE_L1A,CODE_L1B,CODE_L1C,       0,       0,CODE_L5I,CODE_L5Q,       0,
     CODE_L7I,CODE_L7Q,       0,CODE_L8I,CODE_L8Q,       0,CODE_L6A,CODE_L6B,
     CODE_L6C] @ replicate 15 0"

definition ssr_sig_qzs :: "nat list" where
  "ssr_sig_qzs =
    [CODE_L1C,CODE_L1S,CODE_L1L,CODE_L2S,CODE_L2L,       0,CODE_L5I,CODE_L5Q,
            0,CODE_L6S,CODE_L6L,       0,       0,       0,       0,       0,
            0,CODE_L6E] @ replicate 14 0"

definition ssr_sig_cmp :: "nat list" where
  "ssr_sig_cmp =
    [CODE_L2I,CODE_L2Q,       0,CODE_L6I,CODE_L6Q,       0,CODE_L7I,CODE_L7Q,
            0,CODE_L1D,CODE_L1P,       0,CODE_L5D,CODE_L5P,       0,CODE_L1A,
            0,       0,CODE_L6A] @ replicate 13 0"

definition ssr_sig_sbs :: "nat list" where
  "ssr_sig_sbs = [CODE_L1C,CODE_L5I,CODE_L5Q] @ replicate 29 0"

definition ssrudint :: "double list" where
  "ssrudint = [1,2,5,10,15,30,60,120,240,300,600,900,1800,3600,7200,10800]"

text \<open>
  The switches on the system: widths of the satellite number, the issue of data and its CRC, and
  the offset of the satellite number; None where the decoders return without reading satellites.
\<close>

definition ssr_layout :: "int \<Rightarrow> int \<Rightarrow> (nat \<times> nat \<times> nat \<times> int) option" where
  "ssr_layout sys subtype =
    (case (if sys = SYS_GPS then Some (6, 8, 0, 0)
           else if sys = SYS_GLO then Some (5, 8, 0, 0)
           else if sys = SYS_GAL then Some (6, 10, 0, 0)
           else if sys = SYS_QZS then Some (4, 8, 0, 192)
           else if sys = SYS_CMP then Some (6, 10, 24, 1)
           else if sys = SYS_SBS then Some (6, 9, 24, 120)
           else None) of
       None \<Rightarrow> None
     | Some (np, ni, nj, offp) \<Rightarrow>
         Some (if subtype > 0
               then (6, 8, 0, if sys = SYS_CMP then 0 else if sys = SYS_SBS then 119 else offp)
               else (np, ni, nj, offp)))"

definition ssr_sigs :: "int \<Rightarrow> nat list" where
  "ssr_sigs sys =
    (if sys = SYS_GPS then ssr_sig_gps else if sys = SYS_GLO then ssr_sig_glo
     else if sys = SYS_GAL then ssr_sig_gal else if sys = SYS_QZS then ssr_sig_qzs
     else if sys = SYS_CMP then ssr_sig_cmp else ssr_sig_sbs)"

section \<open>Headers\<close>

definition decode_ssr_epoch :: "env \<Rightarrow> rtcm \<Rightarrow> int \<Rightarrow> int \<Rightarrow> rtcm \<times> nat" where
  "decode_ssr_epoch e rtcm sys subtype =
    (let b = r_buff rtcm; i = 24 + 12 in
     if subtype = 0
     then if sys = SYS_GLO then (adjday_glot e rtcm (of_int (getu b i 17)), i + 17)
          else (adjweek e rtcm (of_int (getu b i 20)), i + 20)
     else let i = i + (3 + 8) in (adjweek e rtcm (of_int (getu b i 20)), i + 20))"

text \<open>A header: number of satellites, sync flag, issue of data, update interval, and the position after it.\<close>

definition decode_ssr1_head ::
    "env \<Rightarrow> rtcm \<Rightarrow> int \<Rightarrow> int \<Rightarrow> rtcm \<times> (int \<times> int \<times> int \<times> double \<times> int \<times> nat) option" where
  "decode_ssr1_head e rtcm sys subtype =
    (let ns = (if subtype = 0 then if sys = SYS_QZS then 4 else 6 else 6);
         short = (if subtype = 0 then 36 + (if sys = SYS_GLO then 53 else 50 + ns) > r_len rtcm * 8
                  else 36 + 3 + 8 + 50 + ns > r_len rtcm * 8)
     in if short then (rtcm, None)
        else let (rtcm, i) = decode_ssr_epoch e rtcm sys subtype; b = r_buff rtcm;
                 ((udi, sync, iod, refd, nsat), i) =
                   run_state (do { udi \<leftarrow> rdu b 4; sync \<leftarrow> rdu b 1;
                                   refd0 \<leftarrow> (if subtype = 0 then rdu b 1 else State_Monad.return 0);
                                   iod \<leftarrow> rdu b 4; provid \<leftarrow> rdu b 16; solid \<leftarrow> rdu b 4;
                                   refd \<leftarrow> (if subtype > 0 then rdu b 1 else State_Monad.return refd0);
                                   nsat \<leftarrow> rdu b ns;
                                   State_Monad.return (udi, sync, iod, refd, nsat) }) i
             in (rtcm, Some (nsat, sync, iod, ssrudint ! nat udi, refd, i)))"

definition decode_ssr2_head ::
    "env \<Rightarrow> rtcm \<Rightarrow> int \<Rightarrow> int \<Rightarrow> rtcm \<times> (int \<times> int \<times> int \<times> double \<times> nat) option" where
  "decode_ssr2_head e rtcm sys subtype =
    (let ns = (if subtype = 0 then if sys = SYS_QZS then 4 else 6 else 6);
         short = (if subtype = 0 then 36 + (if sys = SYS_GLO then 52 else 49 + ns) > r_len rtcm * 8
                  else 36 + 3 + 8 + 49 + ns > r_len rtcm * 8)
     in if short then (rtcm, None)
        else let (rtcm, i) = decode_ssr_epoch e rtcm sys subtype; b = r_buff rtcm;
                 ((udi, sync, iod, nsat), i) =
                   run_state (do { udi \<leftarrow> rdu b 4; sync \<leftarrow> rdu b 1; iod \<leftarrow> rdu b 4; provid \<leftarrow> rdu b 16;
                                   solid \<leftarrow> rdu b 4; nsat \<leftarrow> rdu b ns;
                                   State_Monad.return (udi, sync, iod, nsat) }) i
             in (rtcm, Some (nsat, sync, iod, ssrudint ! nat udi, i)))"

definition decode_ssr7_head ::
    "env \<Rightarrow> rtcm \<Rightarrow> int \<Rightarrow> int \<Rightarrow> rtcm \<times> (int \<times> int \<times> int \<times> double \<times> nat) option" where
  "decode_ssr7_head e rtcm sys subtype =
    (let ns = (if subtype = 0 then if sys = SYS_QZS then 4 else 6 else 6);
         short = (if subtype = 0 then 36 + (if sys = SYS_GLO then 54 else 51 + ns) > r_len rtcm * 8
                  else 36 + 3 + 8 + 51 + ns > r_len rtcm * 8)
     in if short then (rtcm, None)
        else let (rtcm, i) = decode_ssr_epoch e rtcm sys subtype; b = r_buff rtcm;
                 ((udi, sync, iod, nsat), i) =
                   run_state (do { udi \<leftarrow> rdu b 4; sync \<leftarrow> rdu b 1; iod \<leftarrow> rdu b 4; provid \<leftarrow> rdu b 16;
                                   solid \<leftarrow> rdu b 4; dispe \<leftarrow> rdu b 1; mw \<leftarrow> rdu b 1; nsat \<leftarrow> rdu b ns;
                                   State_Monad.return (udi, sync, iod, nsat) }) i
             in (rtcm, Some (nsat, sync, iod, ssrudint ! nat udi, i)))"

section \<open>Bodies\<close>

definition ssr_status :: "int \<Rightarrow> int" where
  "ssr_status sync = (if sync \<noteq> 0 then 0 else 10)"

definition upd_ssr :: "rtcm \<Rightarrow> int \<Rightarrow> (ssr \<Rightarrow> ssr) \<Rightarrow> rtcm" where
  "upd_ssr rtcm sat f = rtcm\<lparr>r_ssr := (r_ssr rtcm)[nat (sat - 1) := f (r_ssr rtcm ! nat (sat - 1))]\<rparr>"

definition set_epoch :: "nat \<Rightarrow> gtime \<Rightarrow> double \<Rightarrow> int \<Rightarrow> ssr \<Rightarrow> ssr" where
  "set_epoch k t udint iod s = s\<lparr>ssr_t0 := (ssr_t0 s)[k := t], ssr_udi := (ssr_udi s)[k := udint],
     ssr_iod := (ssr_iod s)[k := iod]\<rparr>"

text \<open>The loop over satellites whose records have a fixed number of bits.\<close>

fun ssr_loop :: "nat \<Rightarrow> (rtcm \<Rightarrow> nat \<Rightarrow> rtcm) \<Rightarrow> nat \<Rightarrow> nat \<Rightarrow> rtcm \<Rightarrow> rtcm" where
  "ssr_loop bits f 0 i rtcm = rtcm"
| "ssr_loop bits f (Suc n) i rtcm =
     (if i + bits \<le> r_len rtcm * 8 then ssr_loop bits f n (i + bits) (f rtcm i) else rtcm)"

definition rd_orbit :: "u8 list \<Rightarrow> (nat, double list \<times> double list) state" where
  "rd_orbit b = do {
     d0 \<leftarrow> rds b 22; d1 \<leftarrow> rds b 20; d2 \<leftarrow> rds b 20; v0 \<leftarrow> rds b 21; v1 \<leftarrow> rds b 19; v2 \<leftarrow> rds b 19;
     State_Monad.return ([of_int d0 * 0.0001, of_int d1 * 0.0004, of_int d2 * 0.0004],
       [of_int v0 * 0.000001, of_int v1 * 0.000004, of_int v2 * 0.000004]) }"

definition rd_clock :: "u8 list \<Rightarrow> (nat, double list) state" where
  "rd_clock b = do {
     c0 \<leftarrow> rds b 22; c1 \<leftarrow> rds b 21; c2 \<leftarrow> rds b 27;
     State_Monad.return [of_int c0 * 0.0001, of_int c1 * 0.000001, of_int c2 * 0.00000002] }"

definition sat_ssr1 :: "int \<Rightarrow> nat \<Rightarrow> nat \<Rightarrow> nat \<Rightarrow> int \<Rightarrow> double \<Rightarrow> int \<Rightarrow> int \<Rightarrow> rtcm \<Rightarrow> nat \<Rightarrow> rtcm" where
  "sat_ssr1 sys np ni nj offp udint iod refd rtcm i =
    (let b = r_buff rtcm;
         (prn, iode, iodcrc, deph, ddeph) =
           fst (run_state (do { prn \<leftarrow> rdu b np; iode \<leftarrow> rdu b ni; iodcrc \<leftarrow> rdu b nj; (deph, ddeph) \<leftarrow> rd_orbit b;
                                State_Monad.return (prn + offp, iode, iodcrc, deph, ddeph) }) i);
         sat = satno sys prn
     in if sat = 0 then rtcm
        else upd_ssr rtcm sat (\<lambda>s. (set_epoch 0 (r_time rtcm) udint iod s)
               \<lparr>ssr_iode := iode, ssr_iodcrc := iodcrc, ssr_refd := refd, ssr_deph := deph,
                ssr_ddeph := ddeph, ssr_update := 1\<rparr>))"

definition decode_ssr1 :: "env \<Rightarrow> rtcm \<Rightarrow> int \<Rightarrow> int \<Rightarrow> rtcm \<times> int" where
  "decode_ssr1 e rtcm sys subtype =
    (case decode_ssr1_head e rtcm sys subtype of
       (rtcm, None) \<Rightarrow> (rtcm, -1)
     | (rtcm, Some (nsat, sync, iod, udint, refd, i)) \<Rightarrow>
        (case ssr_layout sys subtype of None \<Rightarrow> (rtcm, ssr_status sync)
         | Some (np, ni, nj, offp) \<Rightarrow>
            (ssr_loop (121 + np + ni + nj) (sat_ssr1 sys np ni nj offp udint iod refd) (nat nsat) i rtcm,
             ssr_status sync)))"

definition sat_ssr2 :: "int \<Rightarrow> nat \<Rightarrow> int \<Rightarrow> double \<Rightarrow> int \<Rightarrow> rtcm \<Rightarrow> nat \<Rightarrow> rtcm" where
  "sat_ssr2 sys np offp udint iod rtcm i =
    (let b = r_buff rtcm;
         (prn, dclk) = fst (run_state (do { prn \<leftarrow> rdu b np; dclk \<leftarrow> rd_clock b;
                                            State_Monad.return (prn + offp, dclk) }) i);
         sat = satno sys prn
     in if sat = 0 then rtcm
        else upd_ssr rtcm sat (\<lambda>s. (set_epoch 1 (r_time rtcm) udint iod s)
               \<lparr>ssr_dclk := dclk, ssr_update := 1\<rparr>))"

definition decode_ssr2 :: "env \<Rightarrow> rtcm \<Rightarrow> int \<Rightarrow> int \<Rightarrow> rtcm \<times> int" where
  "decode_ssr2 e rtcm sys subtype =
    (case decode_ssr2_head e rtcm sys subtype of
       (rtcm, None) \<Rightarrow> (rtcm, -1)
     | (rtcm, Some (nsat, sync, iod, udint, i)) \<Rightarrow>
        (case ssr_layout sys subtype of None \<Rightarrow> (rtcm, ssr_status sync)
         | Some (np, ni, nj, offp) \<Rightarrow>
            (ssr_loop (70 + np) (sat_ssr2 sys np offp udint iod) (nat nsat) i rtcm, ssr_status sync)))"

text \<open>Code biases of one satellite: at most \<open>nbias\<close> of them, while the message lasts.\<close>

fun cbias_loop :: "u8 list \<Rightarrow> nat \<Rightarrow> nat list \<Rightarrow> nat \<Rightarrow> nat \<Rightarrow> double list \<Rightarrow> double list \<times> nat" where
  "cbias_loop b len sigs 0 i cbias = (cbias, i)"
| "cbias_loop b len sigs (Suc n) i cbias =
     (if i + 19 \<le> len * 8
      then let md = nat (getu b i 5); bias = of_int (getbits b (i + 5) 14) * 0.01
           in cbias_loop b len sigs n (i + 19)
                (if sigs ! md \<noteq> 0 then cbias[sigs ! md - 1 := bias] else cbias)
      else (cbias, i))"

fun loop_ssr3 :: "int \<Rightarrow> nat \<Rightarrow> int \<Rightarrow> double \<Rightarrow> int \<Rightarrow> nat \<Rightarrow> nat \<Rightarrow> rtcm \<Rightarrow> rtcm" where
  "loop_ssr3 sys np offp udint iod 0 i rtcm = rtcm"
| "loop_ssr3 sys np offp udint iod (Suc n) i rtcm =
     (if i + 5 + np \<le> r_len rtcm * 8
      then let b = r_buff rtcm; prn = getu b i np + offp; nbias = nat (getu b (i + np) 5);
               (cbias, i) = cbias_loop b (r_len rtcm) (ssr_sigs sys) nbias (i + np + 5) (replicate MAXCODE 0);
               sat = satno sys prn
           in loop_ssr3 sys np offp udint iod n i
                (if sat = 0 then rtcm
                 else upd_ssr rtcm sat (\<lambda>s. (set_epoch 4 (r_time rtcm) udint iod s)
                        \<lparr>ssr_cbias := cbias, ssr_update := 1\<rparr>))
      else rtcm)"

definition decode_ssr3 :: "env \<Rightarrow> rtcm \<Rightarrow> int \<Rightarrow> int \<Rightarrow> rtcm \<times> int" where
  "decode_ssr3 e rtcm sys subtype =
    (case decode_ssr2_head e rtcm sys subtype of
       (rtcm, None) \<Rightarrow> (rtcm, -1)
     | (rtcm, Some (nsat, sync, iod, udint, i)) \<Rightarrow>
        (case ssr_layout sys subtype of None \<Rightarrow> (rtcm, ssr_status sync)
         | Some (np, ni, nj, offp) \<Rightarrow>
            (loop_ssr3 sys np offp udint iod (nat nsat) i rtcm, ssr_status sync)))"

definition sat_ssr4 :: "int \<Rightarrow> nat \<Rightarrow> nat \<Rightarrow> nat \<Rightarrow> int \<Rightarrow> double \<Rightarrow> int \<Rightarrow> int \<Rightarrow> rtcm \<Rightarrow> nat \<Rightarrow> rtcm" where
  "sat_ssr4 sys np ni nj offp udint iod refd rtcm i =
    (let b = r_buff rtcm;
         (prn, iode, iodcrc, deph, ddeph, dclk) =
           fst (run_state (do { prn \<leftarrow> rdu b np; iode \<leftarrow> rdu b ni; iodcrc \<leftarrow> rdu b nj; (deph, ddeph) \<leftarrow> rd_orbit b;
                                dclk \<leftarrow> rd_clock b;
                                State_Monad.return (prn + offp, iode, iodcrc, deph, ddeph, dclk) }) i);
         sat = satno sys prn
     in if sat = 0 then rtcm
        else upd_ssr rtcm sat (\<lambda>s. (set_epoch 0 (r_time rtcm) udint iod (set_epoch 1 (r_time rtcm) udint iod s))
               \<lparr>ssr_iode := iode, ssr_iodcrc := iodcrc, ssr_refd := refd, ssr_deph := deph,
                ssr_ddeph := ddeph, ssr_dclk := dclk, ssr_update := 1\<rparr>))"

definition decode_ssr4 :: "env \<Rightarrow> rtcm \<Rightarrow> int \<Rightarrow> int \<Rightarrow> rtcm \<times> int" where
  "decode_ssr4 e rtcm sys subtype =
    (case decode_ssr1_head e rtcm sys subtype of
       (rtcm, None) \<Rightarrow> (rtcm, -1)
     | (rtcm, Some (nsat, sync, iod, udint, refd, i)) \<Rightarrow>
        (case ssr_layout sys subtype of None \<Rightarrow> (rtcm, ssr_status sync)
         | Some (np, ni, nj, offp) \<Rightarrow>
            (ssr_loop (191 + np + ni + nj) (sat_ssr4 sys np ni nj offp udint iod refd) (nat nsat) i rtcm,
             ssr_status sync)))"

definition sat_ssr5 :: "int \<Rightarrow> nat \<Rightarrow> int \<Rightarrow> double \<Rightarrow> int \<Rightarrow> rtcm \<Rightarrow> nat \<Rightarrow> rtcm" where
  "sat_ssr5 sys np offp udint iod rtcm i =
    (let b = r_buff rtcm; prn = getu b i np + offp; ura = getu b (i + np) 6; sat = satno sys prn
     in if sat = 0 then rtcm
        else upd_ssr rtcm sat (\<lambda>s. (set_epoch 3 (r_time rtcm) udint iod s)
               \<lparr>ssr_ura := ura, ssr_update := 1\<rparr>))"

definition decode_ssr5 :: "env \<Rightarrow> rtcm \<Rightarrow> int \<Rightarrow> int \<Rightarrow> rtcm \<times> int" where
  "decode_ssr5 e rtcm sys subtype =
    (case decode_ssr2_head e rtcm sys subtype of
       (rtcm, None) \<Rightarrow> (rtcm, -1)
     | (rtcm, Some (nsat, sync, iod, udint, i)) \<Rightarrow>
        (case ssr_layout sys subtype of None \<Rightarrow> (rtcm, ssr_status sync)
         | Some (np, ni, nj, offp) \<Rightarrow>
            (ssr_loop (6 + np) (sat_ssr5 sys np offp udint iod) (nat nsat) i rtcm, ssr_status sync)))"

definition sat_ssr6 :: "int \<Rightarrow> nat \<Rightarrow> int \<Rightarrow> double \<Rightarrow> int \<Rightarrow> rtcm \<Rightarrow> nat \<Rightarrow> rtcm" where
  "sat_ssr6 sys np offp udint iod rtcm i =
    (let b = r_buff rtcm; prn = getu b i np + offp; hrclk = of_int (getbits b (i + np) 22) * 0.0001;
         sat = satno sys prn
     in if sat = 0 then rtcm
        else upd_ssr rtcm sat (\<lambda>s. (set_epoch 2 (r_time rtcm) udint iod s)
               \<lparr>ssr_hrclk := hrclk, ssr_update := 1\<rparr>))"

definition decode_ssr6 :: "env \<Rightarrow> rtcm \<Rightarrow> int \<Rightarrow> int \<Rightarrow> rtcm \<times> int" where
  "decode_ssr6 e rtcm sys subtype =
    (case decode_ssr2_head e rtcm sys subtype of
       (rtcm, None) \<Rightarrow> (rtcm, -1)
     | (rtcm, Some (nsat, sync, iod, udint, i)) \<Rightarrow>
        (case ssr_layout sys subtype of None \<Rightarrow> (rtcm, ssr_status sync)
         | Some (np, ni, nj, offp) \<Rightarrow>
            (ssr_loop (22 + np) (sat_ssr6 sys np offp udint iod) (nat nsat) i rtcm, ssr_status sync)))"

text \<open>Phase biases and their standard deviations, which only the RTCM form has.\<close>

fun pbias_loop :: "u8 list \<Rightarrow> nat \<Rightarrow> int \<Rightarrow> nat list \<Rightarrow> nat \<Rightarrow> nat \<Rightarrow> double list \<times> double list \<Rightarrow>
    (double list \<times> double list) \<times> nat" where
  "pbias_loop b len subtype sigs 0 i pb = (pb, i)"
| "pbias_loop b len subtype sigs (Suc n) i (pbias, stdpb) =
     (let bits = (if subtype = 0 then 49 else 32) in
      if i + bits \<le> len * 8
      then let md = nat (getu b i 5); bias = of_int (getbits b (i + 12) 20);
               std = (if subtype = 0 then of_int (getu b (i + 32) 17) else 0)
           in pbias_loop b len subtype sigs n (i + bits)
                (if sigs ! md \<noteq> 0
                 then (pbias[sigs ! md - 1 := bias * 0.0001], stdpb[sigs ! md - 1 := std * 0.0001])
                 else (pbias, stdpb))
      else ((pbias, stdpb), i))"

fun loop_ssr7 :: "int \<Rightarrow> int \<Rightarrow> nat \<Rightarrow> int \<Rightarrow> double \<Rightarrow> int \<Rightarrow> nat \<Rightarrow> nat \<Rightarrow> rtcm \<Rightarrow> rtcm" where
  "loop_ssr7 sys subtype np offp udint iod 0 i rtcm = rtcm"
| "loop_ssr7 sys subtype np offp udint iod (Suc n) i rtcm =
     (if i + 5 + 17 + np \<le> r_len rtcm * 8
      then let b = r_buff rtcm;
               ((prn, nbias, yaw_ang, yaw_rate), i) =
                 run_state (do { prn \<leftarrow> rdu b np; nbias \<leftarrow> rdu b 5; yaw_ang \<leftarrow> rdu b 9; yaw_rate \<leftarrow> rds b 8;
                                 State_Monad.return (prn + offp, nbias, yaw_ang, yaw_rate) }) i;
               ((pbias, stdpb), i) = pbias_loop b (r_len rtcm) subtype (ssr_sigs sys) (nat nbias) i
                                       (replicate MAXCODE 0, replicate MAXCODE 0);
               sat = satno sys prn
           in loop_ssr7 sys subtype np offp udint iod n i
                (if sat = 0 then rtcm
                 else upd_ssr rtcm sat (\<lambda>s. (set_epoch 5 (r_time rtcm) udint iod s)
                        \<lparr>ssr_yaw_ang := of_int yaw_ang / 256 * 180,
                         ssr_yaw_rate := of_int yaw_rate / 8192 * 180,
                         ssr_pbias := pbias, ssr_stdpb := stdpb\<rparr>))
      else rtcm)"

definition decode_ssr7 :: "env \<Rightarrow> rtcm \<Rightarrow> int \<Rightarrow> int \<Rightarrow> rtcm \<times> int" where
  "decode_ssr7 e rtcm sys subtype =
    (case decode_ssr7_head e rtcm sys subtype of
       (rtcm, None) \<Rightarrow> (rtcm, -1)
     | (rtcm, Some (nsat, sync, iod, udint, i)) \<Rightarrow>
        (if sys = SYS_SBS then (rtcm, ssr_status sync)
         else case ssr_layout sys subtype of None \<Rightarrow> (rtcm, ssr_status sync)
         | Some (np, ni, nj, offp) \<Rightarrow>
            (loop_ssr7 sys subtype np offp udint iod (nat nsat) i rtcm, 20)))"

section \<open>The operations keep the invariants\<close>

lemma length_cbias_loop: "length (fst (cbias_loop b len sigs n i c)) = length c"
  by (induction b len sigs n i c rule: cbias_loop.induct) (simp_all add: Let_def)

lemma length_pbias_loop:
  "length (fst (fst (pbias_loop b len st sigs n i pb))) = length (fst pb) \<and>
   length (snd (fst (pbias_loop b len st sigs n i pb))) = length (snd pb)"
  by (induction b len st sigs n i pb rule: pbias_loop.induct) (simp_all add: Let_def)

lemma length_orbit:
  "length (fst (fst (run_state (rd_orbit b) i))) = 3" "length (snd (fst (run_state (rd_orbit b) i))) = 3"
  by (simp_all add: rd_orbit_def)

lemma length_clock: "length (fst (run_state (rd_clock b) i)) = 3"
  by (simp add: rd_clock_def)

context rtcm_invariant
begin

lemma inv_upd_ssr: "P rtcm \<Longrightarrow> (\<And>s. wf_ssr s \<Longrightarrow> wf_ssr (f s)) \<Longrightarrow> P (upd_ssr rtcm sat f)"
  unfolding upd_ssr_def by (rule P_ssr)

lemma inv_ssr_loop:
  "P rtcm \<Longrightarrow> (\<And>r i. P r \<Longrightarrow> P (f r i)) \<Longrightarrow> P (ssr_loop bits f n i rtcm)"
  by (induction bits f n i rtcm rule: ssr_loop.induct) auto

lemma inv_sat_ssr:
  assumes "P rtcm"
  shows "P (sat_ssr1 sys np ni nj offp udint iod refd rtcm i)"
    and "P (sat_ssr2 sys np offp udint iod rtcm i)"
    and "P (sat_ssr4 sys np ni nj offp udint iod refd rtcm i)"
    and "P (sat_ssr5 sys np offp udint iod rtcm i)"
    and "P (sat_ssr6 sys np offp udint iod rtcm i)"
  unfolding sat_ssr1_def sat_ssr2_def sat_ssr4_def sat_ssr5_def sat_ssr6_def Let_def case_prod_beta
  using assms
  by (auto intro!: inv_upd_ssr simp: wf_ssr_def set_epoch_def length_clock length_orbit case_prod_beta)

lemma inv_loop_ssr3: "P rtcm \<Longrightarrow> P (loop_ssr3 sys np offp udint iod n i rtcm)"
proof (induction n arbitrary: i rtcm)
  case (Suc n)
  show ?case
    using Suc.prems length_cbias_loop
    by (auto simp: Let_def case_prod_beta wf_ssr_def set_epoch_def intro!: Suc.IH inv_upd_ssr)
qed simp

lemma inv_loop_ssr7: "P rtcm \<Longrightarrow> P (loop_ssr7 sys subtype np offp udint iod n i rtcm)"
proof (induction n arbitrary: i rtcm)
  case (Suc n)
  show ?case
    using Suc.prems length_pbias_loop
    by (auto simp: Let_def case_prod_beta wf_ssr_def set_epoch_def intro!: Suc.IH inv_upd_ssr)
qed simp

lemma inv_ssr_heads:
  assumes "P rtcm"
  shows "P (fst (decode_ssr1_head e rtcm sys subtype))"
    and "P (fst (decode_ssr2_head e rtcm sys subtype))"
    and "P (fst (decode_ssr7_head e rtcm sys subtype))"
  using assms
  unfolding decode_ssr1_head_def decode_ssr2_head_def decode_ssr7_head_def decode_ssr_epoch_def
    Let_def case_prod_beta
  by (simp_all add: inv_adjweek inv_adjday_glot)

lemma inv_decode_ssr [wf_intros]:
  assumes "P rtcm"
  shows "P (fst (decode_ssr1 e rtcm sys subtype))" and "P (fst (decode_ssr2 e rtcm sys subtype))"
    and "P (fst (decode_ssr3 e rtcm sys subtype))" and "P (fst (decode_ssr4 e rtcm sys subtype))"
    and "P (fst (decode_ssr5 e rtcm sys subtype))" and "P (fst (decode_ssr6 e rtcm sys subtype))"
    and "P (fst (decode_ssr7 e rtcm sys subtype))"
  using inv_ssr_heads [OF assms, of e sys subtype]
  by (auto simp: decode_ssr1_def decode_ssr2_def decode_ssr3_def decode_ssr4_def decode_ssr5_def
      decode_ssr6_def decode_ssr7_def inv_ssr_loop inv_sat_ssr inv_loop_ssr3 inv_loop_ssr7
      split: prod.split option.split)

end

section \<open>Signals\<close>

text \<open>Every code an SSR signal table names is a code of the table of biases.\<close>

lemma ssr_sigs_range: "length (ssr_sigs sys) = 32 \<and> list_all (\<lambda>c. c \<le> MAXCODE) (ssr_sigs sys)"
  by (simp add: ssr_sigs_def ssr_sig_gps_def ssr_sig_glo_def ssr_sig_gal_def ssr_sig_qzs_def
      ssr_sig_cmp_def ssr_sig_sbs_def numeral_eq_Suc)

end
