(* ===== verification/Rtcm3.thy ===== *)
theory Rtcm3
  imports Rtcm3Msm Rtcm3Ssr
begin

text \<open>
  The entry point of \<^verbatim>\<open>rtcm3.c\<close>: \<open>decode_rtcm3\<close> looks at the message number of the frame
  in the buffer and calls the decoder for it.  The two switch statements of the code are
  association lists from the case label to the decoder.  A decoder that would access memory
  outside its arrays yields None, and so does the whole call.
\<close>

type_synonym decoder = "env \<Rightarrow> rtcm \<Rightarrow> (rtcm \<times> int) option"

section \<open>Messages that are not decoded\<close>

text \<open>1013, 1021 to 1027, 1030 to 1032, 1034, 1035 and 1037 to 1039 only leave a trace.\<close>

definition decode_unsupported :: "rtcm \<Rightarrow> rtcm \<times> int" where
  "decode_unsupported rtcm = (rtcm, 0)"

definition decode_type4073 :: "rtcm \<Rightarrow> rtcm \<times> int" where
  "decode_type4073 rtcm = (let subtype = getu (r_buff rtcm) 36 4 in (rtcm, 0))"

section \<open>The IGS messages\<close>

definition cases4076 :: "(int \<times> (env \<Rightarrow> rtcm \<Rightarrow> rtcm \<times> int)) list" where
  "cases4076 =
    [( 21, \<lambda>e rtcm. decode_ssr1 e rtcm SYS_GPS  21), ( 22, \<lambda>e rtcm. decode_ssr2 e rtcm SYS_GPS  22),
     ( 23, \<lambda>e rtcm. decode_ssr4 e rtcm SYS_GPS  23), ( 24, \<lambda>e rtcm. decode_ssr6 e rtcm SYS_GPS  24),
     ( 25, \<lambda>e rtcm. decode_ssr3 e rtcm SYS_GPS  25), ( 26, \<lambda>e rtcm. decode_ssr7 e rtcm SYS_GPS  26),
     ( 27, \<lambda>e rtcm. decode_ssr5 e rtcm SYS_GPS  27),
     ( 41, \<lambda>e rtcm. decode_ssr1 e rtcm SYS_GLO  41), ( 42, \<lambda>e rtcm. decode_ssr2 e rtcm SYS_GLO  42),
     ( 43, \<lambda>e rtcm. decode_ssr4 e rtcm SYS_GLO  43), ( 44, \<lambda>e rtcm. decode_ssr6 e rtcm SYS_GLO  44),
     ( 45, \<lambda>e rtcm. decode_ssr3 e rtcm SYS_GLO  45), ( 46, \<lambda>e rtcm. decode_ssr7 e rtcm SYS_GLO  46),
     ( 47, \<lambda>e rtcm. decode_ssr5 e rtcm SYS_GLO  47),
     ( 61, \<lambda>e rtcm. decode_ssr1 e rtcm SYS_GAL  61), ( 62, \<lambda>e rtcm. decode_ssr2 e rtcm SYS_GAL  62),
     ( 63, \<lambda>e rtcm. decode_ssr4 e rtcm SYS_GAL  63), ( 64, \<lambda>e rtcm. decode_ssr6 e rtcm SYS_GAL  64),
     ( 65, \<lambda>e rtcm. decode_ssr3 e rtcm SYS_GAL  65), ( 66, \<lambda>e rtcm. decode_ssr7 e rtcm SYS_GAL  66),
     ( 67, \<lambda>e rtcm. decode_ssr5 e rtcm SYS_GAL  67),
     ( 81, \<lambda>e rtcm. decode_ssr1 e rtcm SYS_QZS  81), ( 82, \<lambda>e rtcm. decode_ssr2 e rtcm SYS_QZS  82),
     ( 83, \<lambda>e rtcm. decode_ssr4 e rtcm SYS_QZS  83), ( 84, \<lambda>e rtcm. decode_ssr6 e rtcm SYS_QZS  84),
     ( 85, \<lambda>e rtcm. decode_ssr3 e rtcm SYS_QZS  85), ( 86, \<lambda>e rtcm. decode_ssr7 e rtcm SYS_QZS  86),
     ( 87, \<lambda>e rtcm. decode_ssr5 e rtcm SYS_QZS  87),
     (101, \<lambda>e rtcm. decode_ssr1 e rtcm SYS_CMP 101), (102, \<lambda>e rtcm. decode_ssr2 e rtcm SYS_CMP 102),
     (103, \<lambda>e rtcm. decode_ssr4 e rtcm SYS_CMP 103), (104, \<lambda>e rtcm. decode_ssr6 e rtcm SYS_CMP 104),
     (105, \<lambda>e rtcm. decode_ssr3 e rtcm SYS_CMP 105), (106, \<lambda>e rtcm. decode_ssr7 e rtcm SYS_CMP 106),
     (107, \<lambda>e rtcm. decode_ssr5 e rtcm SYS_CMP 107),
     (121, \<lambda>e rtcm. decode_ssr1 e rtcm SYS_SBS 121), (122, \<lambda>e rtcm. decode_ssr2 e rtcm SYS_SBS 122),
     (123, \<lambda>e rtcm. decode_ssr4 e rtcm SYS_SBS 123), (124, \<lambda>e rtcm. decode_ssr6 e rtcm SYS_SBS 124),
     (125, \<lambda>e rtcm. decode_ssr3 e rtcm SYS_SBS 125), (126, \<lambda>e rtcm. decode_ssr7 e rtcm SYS_SBS 126),
     (127, \<lambda>e rtcm. decode_ssr5 e rtcm SYS_SBS 127)]"

definition decode_type4076 :: "env \<Rightarrow> rtcm \<Rightarrow> rtcm \<times> int" where
  "decode_type4076 e rtcm =
    (if 24 + 12 + 3 + 8 \<ge> r_len rtcm * 8 then (rtcm, -1)
     else let (ver, subtype) =
                fst (run_state (do { ver \<leftarrow> rdu (r_buff rtcm) 3; subtype \<leftarrow> rdu (r_buff rtcm) 8;
                                     State_Monad.return (ver, subtype) }) 36)
          in case map_of cases4076 subtype of Some f \<Rightarrow> f e rtcm | None \<Rightarrow> (rtcm, 0))"

section \<open>The dispatch\<close>

abbreviation total :: "(rtcm \<Rightarrow> rtcm \<times> int) \<Rightarrow> decoder" where
  "total f \<equiv> \<lambda>e rtcm. Some (f rtcm)"

abbreviation total_env :: "(env \<Rightarrow> rtcm \<Rightarrow> rtcm \<times> int) \<Rightarrow> decoder" where
  "total_env f \<equiv> \<lambda>e rtcm. Some (f e rtcm)"

text \<open>The seven MSM messages of a system from message number \<open>t\<close>, the six SSR messages.\<close>

definition msm_cases :: "int \<Rightarrow> int \<Rightarrow> (int \<times> decoder) list" where
  "msm_cases t sys =
    [(t, \<lambda>e rtcm. Some (decode_msm0 e rtcm sys)), (t + 1, \<lambda>e rtcm. Some (decode_msm0 e rtcm sys)),
     (t + 2, \<lambda>e rtcm. Some (decode_msm0 e rtcm sys)), (t + 3, \<lambda>e rtcm. decode_msm4 e rtcm sys),
     (t + 4, \<lambda>e rtcm. decode_msm5 e rtcm sys), (t + 5, \<lambda>e rtcm. decode_msm6 e rtcm sys),
     (t + 6, \<lambda>e rtcm. decode_msm7 e rtcm sys)]"

definition ssr_cases :: "int \<Rightarrow> int \<Rightarrow> (int \<times> decoder) list" where
  "ssr_cases t sys =
    [(t, \<lambda>e rtcm. Some (decode_ssr1 e rtcm sys 0)), (t + 1, \<lambda>e rtcm. Some (decode_ssr2 e rtcm sys 0)),
     (t + 2, \<lambda>e rtcm. Some (decode_ssr3 e rtcm sys 0)), (t + 3, \<lambda>e rtcm. Some (decode_ssr4 e rtcm sys 0)),
     (t + 4, \<lambda>e rtcm. Some (decode_ssr5 e rtcm sys 0)), (t + 5, \<lambda>e rtcm. Some (decode_ssr6 e rtcm sys 0))]"

definition rtcm3_cases :: "(int \<times> decoder) list" where
  "rtcm3_cases =
    [(1001, total_env decode_type1001), (1002, total_env decode_type1002),
     (1003, total_env decode_type1003), (1004, total_env decode_type1004),
     (1005, total decode_type1005), (1006, total decode_type1006),
     (1007, \<lambda>_. decode_type1007), (1008, \<lambda>_. decode_type1008),
     (1009, total_env decode_type1009), (1010, total_env decode_type1010),
     (1011, total_env decode_type1011), (1012, total_env decode_type1012),
     (1013, total decode_unsupported),
     (1019, total_env decode_type1019), (1020, total_env decode_type1020),
     (1021, total decode_unsupported), (1022, total decode_unsupported),
     (1023, total decode_unsupported), (1024, total decode_unsupported),
     (1025, total decode_unsupported), (1026, total decode_unsupported),
     (1027, total decode_unsupported), (1029, total decode_type1029),
     (1030, total decode_unsupported), (1031, total decode_unsupported),
     (1032, total decode_unsupported), (1033, \<lambda>_. decode_type1033),
     (1034, total decode_unsupported), (1035, total decode_unsupported),
     (1037, total decode_unsupported), (1038, total decode_unsupported),
     (1039, total decode_unsupported),
     (1041, total_env decode_type1041), (1044, total_env decode_type1044),
     (1045, total_env decode_type1045), (1046, total_env decode_type1046),
     (63, total_env decode_type1042), (1042, total_env decode_type1042)] @
    ssr_cases 1057 SYS_GPS @ ssr_cases 1063 SYS_GLO @
    msm_cases 1071 SYS_GPS @ msm_cases 1081 SYS_GLO @ msm_cases 1091 SYS_GAL @
    msm_cases 1101 SYS_SBS @ msm_cases 1111 SYS_QZS @ msm_cases 1121 SYS_CMP @
    msm_cases 1131 SYS_IRN @
    [(1230, total decode_type1230)] @
    ssr_cases 1240 SYS_GAL @ ssr_cases 1246 SYS_QZS @ ssr_cases 1252 SYS_SBS @
    ssr_cases 1258 SYS_CMP @
    [(11, \<lambda>e rtcm. Some (decode_ssr7 e rtcm SYS_GPS 0)), (12, \<lambda>e rtcm. Some (decode_ssr7 e rtcm SYS_GAL 0)),
     (13, \<lambda>e rtcm. Some (decode_ssr7 e rtcm SYS_QZS 0)), (14, \<lambda>e rtcm. Some (decode_ssr7 e rtcm SYS_CMP 0)),
     (4073, total decode_type4073), (4076, total_env decode_type4076)]"

definition msg_type :: "rtcm \<Rightarrow> int" where
  "msg_type rtcm = getu (r_buff rtcm) 24 12"

text \<open>The option \<^verbatim>\<open>-RT_INP\<close>: the time of the struct is the clock of the machine.\<close>

definition rt_inp :: "env \<Rightarrow> rtcm \<Rightarrow> rtcm" where
  "rt_inp e rtcm =
    (if strstr (r_opt rtcm) ''-RT_INP'' \<noteq> None
     then let (tow, week) = time2gpst (utc2gpst (now e)) in rtcm\<lparr>r_time := gpst2time week (of_int \<lfloor>tow\<rfloor>)\<rparr>
     else rtcm)"

text \<open>The message counters, of 32 bits.\<close>

definition counter :: "int \<Rightarrow> nat" where
  "counter type = (if 1001 \<le> type \<and> type \<le> 1299 then nat (type - 1000)
                   else if 4070 \<le> type \<and> type \<le> 4099 then nat (type - 3770) else 0)"

definition count_msg :: "rtcm \<Rightarrow> int \<Rightarrow> rtcm" where
  "count_msg rtcm type =
    rtcm\<lparr>r_nmsg3 := (r_nmsg3 rtcm)[counter type := (r_nmsg3 rtcm ! counter type + 1) mod 2 ^ 32]\<rparr>"

definition decode_rtcm3 :: decoder where
  "decode_rtcm3 e rtcm =
    (let type = msg_type rtcm; rtcm = rt_inp e rtcm in
     do { (rtcm, ret) \<leftarrow> (case map_of rtcm3_cases type of Some f \<Rightarrow> f e rtcm | None \<Rightarrow> Some (rtcm, 0));
          Some (if ret \<ge> 0 then (count_msg rtcm type, ret) else (rtcm, ret)) })"

section \<open>Every message keeps the invariants\<close>

context rtcm_invariant
begin

lemma inv_decode_type4076 [wf_intros]:
  assumes "P rtcm"
  shows "P (fst (decode_type4076 e rtcm))"
proof -
  have "\<forall>(t, f) \<in> set cases4076. P (fst (f e rtcm))"
    using inv_decode_ssr [OF assms] by (simp add: cases4076_def)
  then have "map_of cases4076 t = Some f \<Longrightarrow> P (fst (f e rtcm))" for t f
    by (auto dest: map_of_SomeD)
  then show ?thesis
    using assms unfolding decode_type4076_def
    by (auto simp: Let_def split: prod.split option.split)
qed

lemma ret_inv_total: "P (fst r) \<Longrightarrow> ret_inv P (Some r)"
  by (cases r) (simp add: ret_inv_def)

lemma inv_groups:
  assumes "P rtcm"
  shows "\<forall>(t, f) \<in> set (msm_cases t0 sys). ret_inv P (f e rtcm)"
    and "\<forall>(t, f) \<in> set (ssr_cases t0 sys). ret_inv P (f e rtcm)"
  using inv_decode_msm [OF assms] inv_decode_ssr [OF assms]
  by (simp_all add: msm_cases_def ssr_cases_def ret_inv_total)

lemma inv_rtcm3_cases:
  assumes "P rtcm"
  shows "\<forall>(t, f) \<in> set rtcm3_cases. ret_inv P (f e rtcm)"
  unfolding rtcm3_cases_def set_append ball_Un
  using inv_groups [OF assms, of _ _ e] inv_decode_obs [OF assms] inv_decode_eph [OF assms]
    inv_decode_type1020 [OF assms] inv_decode_1005_1006 [OF assms] inv_decode_type1029 [OF assms]
    inv_decode_type1230 [OF assms] inv_decode_descriptors [OF assms] inv_decode_ssr [OF assms]
    inv_decode_type4076 [OF assms] assms
  by (simp add: ret_inv_total decode_unsupported_def decode_type4073_def)

lemma inv_decode_rtcm3:
  assumes "P rtcm"
  shows "ret_inv P (decode_rtcm3 e rtcm)"
proof -
  have rt: "P (rt_inp e rtcm)"
    using assms by (auto simp: rt_inp_def split: prod.split)
  have "P r" if "(case map_of rtcm3_cases t of Some f \<Rightarrow> f e (rt_inp e rtcm) | None \<Rightarrow> Some (rt_inp e rtcm, 0)) = Some (r, ret)"
    for t r ret
    using that inv_rtcm3_cases [OF rt, of e] rt
    by (fastforce dest: map_of_SomeD simp: ret_inv_def split: option.splits)
  then show ?thesis
    unfolding decode_rtcm3_def Let_def
    by (intro ret_inv_bind) (auto intro!: ret_inv_Some simp: count_msg_def)
qed

end

lemma decode_rtcm3_wf: "wf_state rtcm \<Longrightarrow> decode_rtcm3 e rtcm = Some (rtcm', ret) \<Longrightarrow> wf_state rtcm'"
  using wf.inv_decode_rtcm3 by (auto simp: ret_inv_def)

lemma decode_rtcm3_frame: "decode_rtcm3 e rtcm = Some (rtcm', ret) \<Longrightarrow> same_frame rtcm rtcm'"
  using frame.inv_decode_rtcm3 [of rtcm rtcm e] by (auto simp: ret_inv_def)

section \<open>Messages of other types are counted and ignored\<close>

definition known_type :: "int \<Rightarrow> bool" where
  "known_type t \<longleftrightarrow>
     t \<in> {11, 12, 13, 14, 63, 1041, 1042, 1044, 1045, 1046, 1230, 4073, 4076} \<or>
     1001 \<le> t \<and> t \<le> 1013 \<or> 1019 \<le> t \<and> t \<le> 1027 \<or> 1029 \<le> t \<and> t \<le> 1035 \<or>
     1037 \<le> t \<and> t \<le> 1039 \<or> 1057 \<le> t \<and> t \<le> 1068 \<or>
     1071 \<le> t \<and> t \<le> 1137 \<and> 1 \<le> t mod 10 \<and> t mod 10 \<le> 7 \<or> 1240 \<le> t \<and> t \<le> 1263"

lemma rtcm3_types: "\<forall>(t, f) \<in> set rtcm3_cases. known_type t"
  by (simp add: rtcm3_cases_def msm_cases_def ssr_cases_def known_type_def)

lemma decode_rtcm3_other:
  assumes "\<not> known_type (msg_type rtcm)" and "strstr (r_opt rtcm) ''-RT_INP'' = None"
  shows "decode_rtcm3 e rtcm = Some (count_msg rtcm (msg_type rtcm), 0)"
proof -
  have "map_of rtcm3_cases (msg_type rtcm) = None"
    using assms(1) rtcm3_types by (auto dest!: map_of_SomeD simp: map_of_eq_None_iff)
  then show ?thesis using assms(2) by (simp add: decode_rtcm3_def rt_inp_def Let_def)
qed

section \<open>Which messages can make the decoder fail\<close>

text \<open>The antenna and receiver descriptors and the MSM messages that carry observations.\<close>

definition unsafe_type :: "int \<Rightarrow> bool" where
  "unsafe_type t \<longleftrightarrow> t \<in> {1007, 1008, 1033} \<or> 1074 \<le> t \<and> t \<le> 1137 \<and> 4 \<le> t mod 10 \<and> t mod 10 \<le> 7"

lemma rtcm3_cases_total: "\<forall>(t, f) \<in> set rtcm3_cases. unsafe_type t \<or> (\<forall>e rtcm. f e rtcm \<noteq> None)"
  by (simp add: rtcm3_cases_def msm_cases_def ssr_cases_def unsafe_type_def)

lemma decode_rtcm3_None:
  assumes "decode_rtcm3 e rtcm = None"
  shows "unsafe_type (msg_type rtcm)"
proof (cases "map_of rtcm3_cases (msg_type rtcm)")
  case (Some f)
  then have "unsafe_type (msg_type rtcm) \<or> f e (rt_inp e rtcm) \<noteq> None"
    using rtcm3_cases_total by (auto dest!: map_of_SomeD)
  then show ?thesis using assms Some by (auto simp: decode_rtcm3_def Let_def)
qed (use assms in \<open>simp add: decode_rtcm3_def Let_def\<close>)

end
