(* ===== verification/Rtcm.thy ===== *)
theory Rtcm
  imports Rtcm3
begin

text \<open>
  Input of RTCM 3 messages (\<^verbatim>\<open>rtcm.c\<close>): \<open>input_rtcm3\<close> collects the bytes of a frame, checks
  its parity and hands it to the decoder.  The framer is parametrised by the decoder and specified
  by a function that cuts a byte stream into frames.  A store outside the message buffer is None.
\<close>

abbreviation (input) RTCM3PREAMB :: u8 where "RTCM3PREAMB \<equiv> 0xD3"

section \<open>Input\<close>

definition store_byte :: "rtcm \<Rightarrow> u8 \<Rightarrow> rtcm option" where
  "store_byte rtcm data =
    (if r_nbyte rtcm < length (r_buff rtcm)
     then Some (rtcm\<lparr>r_buff := (r_buff rtcm)[r_nbyte rtcm := data], r_nbyte := r_nbyte rtcm + 1\<rparr>)
     else None)"

definition input3 :: "(rtcm \<Rightarrow> (rtcm \<times> int) option) \<Rightarrow> rtcm \<Rightarrow> u8 \<Rightarrow> (rtcm \<times> int) option" where
  "input3 dcd rtcm data =
    (if r_nbyte rtcm = 0
     then if data \<noteq> RTCM3PREAMB then Some (rtcm, 0)
          else do { rtcm \<leftarrow> store_byte rtcm data; Some (rtcm, 0) }
     else do {
       rtcm \<leftarrow> store_byte rtcm data;
       let rtcm = (if r_nbyte rtcm = 3 then rtcm\<lparr>r_len := nat (getu (r_buff rtcm) 14 10) + 3\<rparr> else rtcm);
       if r_nbyte rtcm < 3 \<or> r_nbyte rtcm < r_len rtcm + 3 then Some (rtcm, 0)
       else let rtcm = rtcm\<lparr>r_nbyte := 0\<rparr> in
         if rtk_crc24q (r_buff rtcm) (r_len rtcm) \<noteq> getbitu (r_buff rtcm) (r_len rtcm * 8) 24
         then Some (rtcm, 0)
         else dcd rtcm })"

definition input_rtcm3 :: "env \<Rightarrow> rtcm \<Rightarrow> u8 \<Rightarrow> (rtcm \<times> int) option" where
  "input_rtcm3 e = input3 (decode_rtcm3 e)"

text \<open>
  A file is the list of its bytes from the read position; the result has the bytes that are left.
  Every call reads at most 4096 bytes and returns at the first message, -2 at the end of the file.
\<close>

fun read3f :: "nat \<Rightarrow> env \<Rightarrow> rtcm \<Rightarrow> u8 list \<Rightarrow> (rtcm \<times> int \<times> u8 list) option" where
  "read3f 0 e rtcm fp = Some (rtcm, 0, fp)"
| "read3f (Suc n) e rtcm [] = Some (rtcm, -2, [])"
| "read3f (Suc n) e rtcm (data # fp) =
     do { (rtcm, ret) \<leftarrow> input_rtcm3 e rtcm data;
          if ret \<noteq> 0 then Some (rtcm, ret, fp) else read3f n e rtcm fp }"

definition input_rtcm3f :: "env \<Rightarrow> rtcm \<Rightarrow> u8 list \<Rightarrow> (rtcm \<times> int \<times> u8 list) option" where
  "input_rtcm3f e rtcm fp = read3f 4096 e rtcm fp"

text \<open>A whole stream, byte by byte, with the statuses other than 0.\<close>

fun feed3 :: "(rtcm \<Rightarrow> (rtcm \<times> int) option) \<Rightarrow> rtcm \<Rightarrow> u8 list \<Rightarrow> (rtcm \<times> int list) option" where
  "feed3 dcd rtcm [] = Some (rtcm, [])"
| "feed3 dcd rtcm (b # bs) =
     do { (rtcm, ret) \<leftarrow> input3 dcd rtcm b; (rtcm, rets) \<leftarrow> feed3 dcd rtcm bs;
          Some (rtcm, if ret = 0 then rets else ret # rets) }"

section \<open>Specification: the frames of a stream\<close>

definition frame_len :: "u8 list \<Rightarrow> nat" where
  "frame_len bs = nat (getu bs 14 10) + 6"

text \<open>The first bytes of a frame, without its last one.\<close>

definition partial :: "u8 list \<Rightarrow> bool" where
  "partial bs \<longleftrightarrow> bs \<noteq> [] \<and> hd bs = RTCM3PREAMB \<and> (length bs < 3 \<or> length bs < frame_len bs)"

function split3 :: "u8 list \<Rightarrow> u8 list list \<times> u8 list" where
  "split3 [] = ([], [])"
| "split3 (b # bs) =
     (if b \<noteq> RTCM3PREAMB then split3 bs
      else if partial (b # bs) then ([], b # bs)
      else let n = frame_len (b # bs); (fs, rest) = split3 (drop n (b # bs))
           in (take n (b # bs) # fs, rest))"
  by pat_completeness auto
termination
  by (relation "measure length") (auto simp: frame_len_def)

text \<open>The control struct with the first bytes of a frame in its buffer.\<close>

definition load :: "rtcm \<Rightarrow> u8 list \<Rightarrow> rtcm" where
  "load rtcm bs =
    rtcm\<lparr>r_buff := bs @ drop (length bs) (r_buff rtcm), r_nbyte := length bs,
         r_len := if 3 \<le> length bs then frame_len bs - 3 else r_len rtcm\<rparr>"

definition parity_ok :: "u8 list \<Rightarrow> bool" where
  "parity_ok f \<longleftrightarrow> rtk_crc24q f (length f - 3) = getbitu f ((length f - 3) * 8) 24"

definition is_frame :: "u8 list \<Rightarrow> bool" where
  "is_frame f \<longleftrightarrow> f \<noteq> [] \<and> hd f = RTCM3PREAMB \<and> length f = frame_len f"

definition deliver :: "(rtcm \<Rightarrow> (rtcm \<times> int) option) \<Rightarrow> rtcm \<Rightarrow> u8 list \<Rightarrow> (rtcm \<times> int) option" where
  "deliver dcd rtcm f =
    (let rtcm = (load rtcm f)\<lparr>r_nbyte := 0\<rparr> in if parity_ok f then dcd rtcm else Some (rtcm, 0))"

fun deliver_all :: "(rtcm \<Rightarrow> (rtcm \<times> int) option) \<Rightarrow> rtcm \<Rightarrow> u8 list list \<Rightarrow> (rtcm \<times> int list) option" where
  "deliver_all dcd rtcm [] = Some (rtcm, [])"
| "deliver_all dcd rtcm (f # fs) =
     do { (rtcm, ret) \<leftarrow> deliver dcd rtcm f; (rtcm, rets) \<leftarrow> deliver_all dcd rtcm fs;
          Some (rtcm, if ret = 0 then rets else ret # rets) }"

section \<open>Reading a buffer\<close>

lemma getbitu_append:
  "pos + n \<le> 8 * length bs \<Longrightarrow> getbitu (bs @ cs) pos n = getbitu bs pos n"
  by (rule getbitu_cong) (auto simp: bufbit_def nth_append)

lemma getu_append: "pos + n \<le> 8 * length bs \<Longrightarrow> getu (bs @ cs) pos n = getu bs pos n"
  by (simp add: getu_def getbitu_append)

lemma frame_len_append: "3 \<le> length bs \<Longrightarrow> frame_len (bs @ cs) = frame_len bs"
  by (simp add: frame_len_def getu_append)

lemma frame_len_bounds: "6 \<le> frame_len bs" "frame_len bs \<le> 1029"
  using getu_less [of 10 bs 14] by (auto simp: frame_len_def)

lemma crc_append: "n \<le> length bs \<Longrightarrow> rtk_crc24q (bs @ cs) n = rtk_crc24q bs n"
  by (simp add: rtk_crc24q_register)

lemma drop_update_nth: "n < length xs \<Longrightarrow> (drop n xs)[0 := x] = x # drop (Suc n) xs"
  by (metis Cons_nth_drop_Suc list_update_code(2))

lemma store_load:
  assumes "length bs < length (r_buff rtcm)"
  shows "store_byte (load rtcm bs) b =
     Some (rtcm\<lparr>r_buff := (bs @ [b]) @ drop (length (bs @ [b])) (r_buff rtcm),
              r_nbyte := length (bs @ [b]), r_len := r_len (load rtcm bs)\<rparr>)"
  using assms by (simp add: store_byte_def load_def list_update_append drop_update_nth)

section \<open>The framer implements the specification\<close>

text \<open>The state after the byte is stored and the length is known.\<close>

lemma loaded:
  assumes "bs \<noteq> []" and "length bs < length (r_buff rtcm)"
  shows "do { rtcm \<leftarrow> store_byte (load rtcm bs) b;
      Some (if r_nbyte rtcm = 3 then rtcm\<lparr>r_len := nat (getu (r_buff rtcm) 14 10) + 3\<rparr> else rtcm) } =
    Some (load rtcm (bs @ [b]))"
proof -
  define f cs where "f = bs @ [b]" and "cs = drop (length f) (r_buff rtcm)"
  have st: "store_byte (load rtcm bs) b = Some (rtcm\<lparr>r_buff := f @ cs, r_nbyte := length f,
      r_len := r_len (load rtcm bs)\<rparr>)"
    using store_load [OF assms(2)] by (simp only: f_def cs_def)
  have l: "length f = length bs + 1" by (simp add: f_def)
  have ld: "load rtcm f = rtcm\<lparr>r_buff := f @ cs, r_nbyte := length f,
      r_len := if 3 \<le> length f then frame_len f - 3 else r_len rtcm\<rparr>"
    by (simp only: load_def cs_def)
  have old: "r_len (load rtcm bs) = (if 3 < length f then frame_len f - 3 else r_len rtcm)"
    using frame_len_append [of bs "[b]"] l by (auto simp: load_def f_def)
  have new: "nat (getu (f @ cs) 14 10) + 3 = frame_len f - 3" if "length f = 3"
    using that getu_append [of 14 10 f cs] by (simp add: frame_len_def)
  show ?thesis
    unfolding f_def [symmetric] st ld old Option.bind.simps by (auto simp: new)
qed

lemma input3_load:
  assumes "bs \<noteq> []" and "length bs < length (r_buff rtcm)"
  shows "input3 dcd (load rtcm bs) b =
    (if length (bs @ [b]) < 3 \<or> length (bs @ [b]) < frame_len (bs @ [b])
     then Some (load rtcm (bs @ [b]), 0)
     else let rtcm = (load rtcm (bs @ [b]))\<lparr>r_nbyte := 0\<rparr> in
       if rtk_crc24q (r_buff rtcm) (r_len rtcm) \<noteq> getbitu (r_buff rtcm) (r_len rtcm * 8) 24
       then Some (rtcm, 0) else dcd rtcm)"
proof -
  have nb: "r_nbyte (load rtcm bs) \<noteq> 0" using assms(1) by (simp add: load_def)
  define k where "k r = (if r_nbyte r < 3 \<or> r_nbyte r < r_len r + 3 then Some (r, 0)
       else let rtcm = r\<lparr>r_nbyte := 0\<rparr> in
         if rtk_crc24q (r_buff rtcm) (r_len rtcm) \<noteq> getbitu (r_buff rtcm) (r_len rtcm * 8) 24
         then Some (rtcm, 0) else dcd rtcm)" for r
  have "input3 dcd (load rtcm bs) b = Option.bind (do { rtcm \<leftarrow> store_byte (load rtcm bs) b;
      Some (if r_nbyte rtcm = 3 then rtcm\<lparr>r_len := nat (getu (r_buff rtcm) 14 10) + 3\<rparr> else rtcm) }) k"
    using nb unfolding input3_def k_def [abs_def] Let_def
    by (cases "store_byte (load rtcm bs) b") (simp_all only: if_False Option.bind.simps)
  also have "\<dots> = k (load rtcm (bs @ [b]))" by (simp only: loaded [OF assms] Option.bind.simps)
  finally show ?thesis
    using frame_len_bounds(1) [of "bs @ [b]"] by (auto simp: k_def load_def Let_def)
qed

lemma input3_first:
  assumes "r_nbyte rtcm = 0" and "0 < length (r_buff rtcm)"
  shows "input3 dcd rtcm b = Some (if b = RTCM3PREAMB then load rtcm [b] else rtcm, 0)"
  using assms drop_update_nth [of 0 "r_buff rtcm" b]
  by (cases "b = RTCM3PREAMB") (simp_all add: input3_def store_byte_def load_def drop_Suc)

lemma partial_length: "partial bs \<Longrightarrow> length bs < 1029"
  using frame_len_bounds(2) [of bs] unfolding partial_def by linarith

lemma input3_partial:
  assumes "length (r_buff rtcm) = 1200" and "bs \<noteq> []" and "partial (bs @ [b])"
  shows "input3 dcd (load rtcm bs) b = Some (load rtcm (bs @ [b]), 0)"
  using assms partial_length [OF assms(3)] by (subst input3_load) (auto simp: partial_def)

lemma input3_last:
  assumes "length (r_buff rtcm) = 1200" and "is_frame (bs @ [b])"
  shows "input3 dcd (load rtcm bs) b = deliver dcd rtcm (bs @ [b])"
proof -
  have l: "length (bs @ [b]) = frame_len (bs @ [b])" using assms(2) by (simp add: is_frame_def)
  note fl = frame_len_bounds [of "bs @ [b]"]
  have bs: "bs \<noteq> []" "length bs < length (r_buff rtcm)" using l fl assms(1) by auto
  define f where "f = bs @ [b]"
  have lf: "length f = frame_len f" "6 \<le> frame_len f" using l fl by (simp_all add: f_def)
  have "rtk_crc24q (f @ cs) (length f - 3) = rtk_crc24q f (length f - 3)"
    and "getbitu (f @ cs) ((length f - 3) * 8) 24 = getbitu f ((length f - 3) * 8) 24" for cs
    using lf by (intro crc_append getbitu_append; simp)+
  then have "(rtk_crc24q (r_buff (load rtcm f)) (r_len (load rtcm f)) \<noteq>
      getbitu (r_buff (load rtcm f)) (r_len (load rtcm f) * 8) 24) = (\<not> parity_ok f)"
    using lf unfolding parity_ok_def by (simp add: load_def)
  then show ?thesis
    using lf unfolding input3_load [OF bs] deliver_def f_def [symmetric] by (simp add: Let_def)
qed

lemma partial_prefix:
  assumes "partial (bs @ cs)" and "bs \<noteq> []"
  shows "partial bs"
proof (cases "length bs < 3")
  case False
  then have "frame_len (bs @ cs) = frame_len bs" using frame_len_append [of bs cs] by simp
  then show ?thesis using assms False by (auto simp: partial_def)
qed (use assms in \<open>simp add: partial_def\<close>)

lemma feed3_append:
  "feed3 dcd rtcm (xs @ ys) =
    do { (rtcm, rets) \<leftarrow> feed3 dcd rtcm xs; (rtcm, rets') \<leftarrow> feed3 dcd rtcm ys; Some (rtcm, rets @ rets') }"
proof (induction xs arbitrary: rtcm)
  case (Cons x xs)
  show ?case
    by (cases "input3 dcd rtcm x") (auto simp: Cons.IH split: prod.split Option.bind_split)
qed (simp split: prod.split Option.bind_split)

lemma feed3_partial:
  assumes "length (r_buff rtcm) = 1200" and "r_nbyte rtcm = 0" and "partial bs"
  shows "feed3 dcd rtcm bs = Some (load rtcm bs, [])"
  using assms(3)
proof (induction bs rule: rev_induct)
  case (snoc b bs)
  show ?case
  proof (cases "bs = []")
    case True
    then show ?thesis using snoc.prems assms by (simp add: input3_first partial_def)
  next
    case False
    then show ?thesis
      using snoc partial_prefix [OF snoc.prems] assms(1)
      by (simp add: feed3_append input3_partial)
  qed
qed (simp add: partial_def)

lemma is_frame_butlast:
  assumes "is_frame f"
  shows "f = butlast f @ [last f]" and "partial (butlast f)"
proof -
  have f: "f \<noteq> []" "length f = frame_len f" "6 \<le> frame_len f"
    using assms frame_len_bounds by (auto simp: is_frame_def)
  show s: "f = butlast f @ [last f]" using f(1) by simp
  have "frame_len (butlast f @ [last f]) = frame_len (butlast f)"
    using f by (intro frame_len_append) simp
  moreover have "hd f = hd (butlast f)" "butlast f \<noteq> []"
    using f by (cases f; cases "tl f"; auto)+
  ultimately show "partial (butlast f)"
    using assms f s by (simp add: partial_def is_frame_def)
qed

lemma feed3_frame:
  assumes "length (r_buff rtcm) = 1200" and "r_nbyte rtcm = 0" and "is_frame f"
  shows "feed3 dcd rtcm f =
    do { (rtcm, ret) \<leftarrow> deliver dcd rtcm f; Some (rtcm, if ret = 0 then [] else [ret]) }"
proof -
  note b = is_frame_butlast [OF assms(3)]
  have "is_frame (butlast f @ [last f])" using assms(3) b(1) by simp
  then have "input3 dcd (load rtcm (butlast f)) (last f) = deliver dcd rtcm f"
    using input3_last [OF assms(1)] b(1) by metis
  moreover have "feed3 dcd rtcm f = feed3 dcd rtcm (butlast f @ [last f])" using b(1) by simp
  ultimately show ?thesis
    using feed3_partial [OF assms(1,2) b(2)]
    by (simp add: feed3_append del: append_butlast_last_id split: Option.bind_split prod.split)
qed

section \<open>A stream is the sequence of its frames\<close>

text \<open>What the framer relies on: the decoder leaves the buffer and its counters alone.\<close>

locale frame_decoder =
  fixes dcd :: "rtcm \<Rightarrow> (rtcm \<times> int) option"
  assumes keeps: "dcd rtcm = Some (rtcm', ret) \<Longrightarrow> same_frame rtcm rtcm'"
begin

lemma deliver_frame:
  assumes "deliver dcd rtcm f = Some (rtcm', ret)" and "length (r_buff rtcm) = 1200" and "length f \<le> 1200"
  shows "length (r_buff rtcm') = 1200 \<and> r_nbyte rtcm' = 0 \<and> r_opt rtcm' = r_opt rtcm"
proof -
  define r where "r = (load rtcm f)\<lparr>r_nbyte := 0\<rparr>"
  have r: "length (r_buff r) = 1200" "r_nbyte r = 0" "r_opt r = r_opt rtcm"
    using assms(2,3) by (simp_all add: r_def load_def)
  have "(if parity_ok f then dcd r else Some (r, 0)) = Some (rtcm', ret)"
    using assms(1) by (simp only: deliver_def Let_def r_def)
  then have "same_frame r rtcm'"
    using keeps [of r] by (auto split: if_splits)
  then show ?thesis using r by (simp add: same_frame_def)
qed

lemma feed3_split:
  assumes "length (r_buff rtcm) = 1200" and "r_nbyte rtcm = 0"
  shows "feed3 dcd rtcm bs =
    do { (rtcm, rets) \<leftarrow> deliver_all dcd rtcm (fst (split3 bs)); Some (load rtcm (snd (split3 bs)), rets) }"
  using assms
proof (induction bs arbitrary: rtcm rule: split3.induct)
  case 1
  then show ?case by (simp add: load_def)
next
  case (2 b bs)
  consider "b \<noteq> RTCM3PREAMB" | "b = RTCM3PREAMB" "partial (b # bs)" | "b = RTCM3PREAMB" "\<not> partial (b # bs)"
    by blast
  then show ?case
  proof cases
    case 1
    then have "feed3 dcd rtcm (b # bs) = feed3 dcd rtcm bs"
      using "2.prems" by (simp add: input3_first split: Option.bind_split)
    then show ?thesis using "2.IH"(1) "2.prems" 1 by simp
  next
    case c: 2
    then have "feed3 dcd rtcm (b # bs) = Some (load rtcm (b # bs), [])"
      using "2.prems" by (intro feed3_partial)
    moreover have "split3 (b # bs) = ([], b # bs)" using c by simp
    ultimately show ?thesis by simp
  next
    case c: 3
    define xs n where "xs = b # bs" and "n = frame_len xs"
    have l: "\<not> length xs < 3" "n \<le> length xs" "6 \<le> n" "n \<le> 1029"
      using c frame_len_bounds by (auto simp: partial_def xs_def n_def)
    define f rest where "f = take n xs" and "rest = drop n xs"
    have fr: "is_frame f"
      using l c(1) frame_len_append [of f rest]
      by (simp add: is_frame_def f_def rest_def) (simp add: n_def xs_def frame_len_def)
    have split: "split3 xs = (f # fst (split3 rest), snd (split3 rest))"
      using c by (simp add: xs_def n_def f_def rest_def Let_def split: prod.split)
    have IH: "feed3 dcd r rest = do { (rtcm, rets) \<leftarrow> deliver_all dcd r (fst (split3 rest));
        Some (load rtcm (snd (split3 rest)), rets) }"
      if "length (r_buff r) = 1200" "r_nbyte r = 0" for r
      using "2.IH"(2) [of n r] c that by (simp add: xs_def n_def rest_def)
    have "feed3 dcd rtcm xs = feed3 dcd rtcm (f @ rest)" by (simp add: f_def rest_def)
    also have "\<dots> = do { (rtcm, rets) \<leftarrow> deliver_all dcd rtcm (fst (split3 xs));
        Some (load rtcm (snd (split3 xs)), rets) }"
    proof (cases "deliver dcd rtcm f")
      case None
      then show ?thesis by (simp add: feed3_append feed3_frame [OF "2.prems" fr] split)
    next
      case (Some r)
      obtain r' ret where r: "r = (r', ret)" by fastforce
      have "length (r_buff r') = 1200" "r_nbyte r' = 0"
        using deliver_frame [of rtcm f r' ret] Some r "2.prems" l by (auto simp: f_def)
      then show ?thesis
        using Some r
        by (auto simp: feed3_append feed3_frame [OF "2.prems" fr] split IH split: Option.bind_split prod.split)
    qed
    finally show ?thesis by (simp add: xs_def)
  qed
qed

lemma feed3_safe:
  assumes "length (r_buff rtcm) = 1200" and "r_nbyte rtcm = 0" and "\<And>r. dcd r \<noteq> None"
  shows "feed3 dcd rtcm bs \<noteq> None"
proof -
  have "deliver_all dcd r fs \<noteq> None" for r fs
  proof (induction fs arbitrary: r)
    case (Cons f fs)
    have "deliver dcd r f \<noteq> None" unfolding deliver_def Let_def using assms(3) by auto
    then obtain r' ret where "deliver dcd r f = Some (r', ret)" by fastforce
    moreover obtain r'' rets where "deliver_all dcd r' fs = Some (r'', rets)"
      using Cons.IH [of r'] by fastforce
    ultimately show ?case by simp
  qed simp
  then show ?thesis by (auto simp: feed3_split [OF assms(1,2)] split: Option.bind_split)
qed

end

interpretation rtcm3: frame_decoder "decode_rtcm3 e" for e
  by unfold_locales (rule decode_rtcm3_frame)

lemma deliver_all_None:
  assumes "deliver_all dcd rtcm fs = None"
  shows "\<exists>f \<in> set fs. parity_ok f \<and> (\<exists>r. dcd ((load r f)\<lparr>r_nbyte := 0\<rparr>) = None)"
  using assms
proof (induction fs arbitrary: rtcm)
  case (Cons f fs)
  show ?case
  proof (cases "deliver dcd rtcm f")
    case None
    then show ?thesis by (auto simp: deliver_def Let_def split: if_splits)
  next
    case (Some p)
    then show ?thesis
      using Cons.IH [of "fst p"] Cons.prems by (cases p) (auto split: Option.bind_split_asm prod.splits)
  qed
qed simp

lemma split3_sound:
  "(\<forall>f \<in> set (fst (split3 bs)). is_frame f) \<and> (snd (split3 bs) = [] \<or> partial (snd (split3 bs)))"
proof (induction bs rule: split3.induct)
  case (2 b bs)
  show ?case
  proof (cases "b \<noteq> RTCM3PREAMB \<or> partial (b # bs)")
    case False
    define xs n where "xs = b # bs" and "n = frame_len xs"
    have l: "\<not> length xs < 3" "n \<le> length xs" "6 \<le> n" "hd xs = RTCM3PREAMB"
      using False frame_len_bounds by (auto simp: partial_def xs_def n_def)
    have "frame_len (take n xs) = n"
      using frame_len_append [of "take n xs" "drop n xs"] l by (simp add: n_def)
    then have "is_frame (take n xs)" using l by (auto simp: is_frame_def)
    moreover have "split3 xs = (take n xs # fst (split3 (drop n xs)), snd (split3 (drop n xs)))"
      using False by (simp add: xs_def n_def Let_def split: prod.split)
    moreover have "(\<forall>f \<in> set (fst (split3 (drop n xs))). is_frame f) \<and>
        (snd (split3 (drop n xs)) = [] \<or> partial (snd (split3 (drop n xs))))"
      using "2.IH"(2) [of n] False by (simp add: xs_def n_def)
    ultimately show ?thesis unfolding xs_def [symmetric] by simp
  qed (use 2 in auto)
qed simp

lemma split3_frame:
  assumes "is_frame f"
  shows "split3 (f @ bs) = (f # fst (split3 bs), snd (split3 bs))"
proof -
  have f: "f \<noteq> []" "hd f = RTCM3PREAMB" "length f = frame_len f" "3 \<le> length f"
    using assms frame_len_bounds(1) [of f] by (auto simp: is_frame_def)
  have fl: "frame_len (f @ bs) = length f" using f frame_len_append [of f bs] by simp
  obtain g where g: "f = RTCM3PREAMB # g" using f by (cases f) auto
  have np: "\<not> partial (f @ bs)" using f fl by (simp add: partial_def)
  show ?thesis using np fl unfolding g by (simp add: Let_def split: prod.split)
qed

lemma split3_garbage:
  "RTCM3PREAMB \<notin> set xs \<Longrightarrow> split3 (xs @ bs) = split3 bs"
  by (induction xs) auto

lemma load_nbyte: "r_nbyte (load rtcm bs) = length bs"
  by (simp add: load_def)

lemma input_rtcm3_bound:
  assumes "length (r_buff rtcm) = 1200" and "r_nbyte rtcm = 0"
    and "feed3 (decode_rtcm3 e) rtcm bs = Some (rtcm', rets)"
  shows "r_nbyte rtcm' < 1029"
  using assms(3) split3_sound [of bs] partial_length [of "snd (split3 bs)"]
  unfolding rtcm3.feed3_split [OF assms(1,2)]
  by (auto simp: bind_eq_Some_conv load_nbyte)

text \<open>The message number of a frame.\<close>

definition frame_type :: "u8 list \<Rightarrow> int" where
  "frame_type f = getu f 24 12"

lemma msg_type_load: "5 \<le> length f \<Longrightarrow> msg_type ((load r f)\<lparr>r_nbyte := n\<rparr>) = frame_type f"
  by (simp add: msg_type_def load_def frame_type_def getu_append)

text \<open>The framer itself never writes outside the buffer: only some decoders can.\<close>

lemma input_rtcm3_None:
  assumes "length (r_buff rtcm) = 1200" and "r_nbyte rtcm = 0"
    and "feed3 (decode_rtcm3 e) rtcm bs = None"
  shows "\<exists>f \<in> set (fst (split3 bs)). parity_ok f \<and> unsafe_type (frame_type f)"
proof -
  have "deliver_all (decode_rtcm3 e) rtcm (fst (split3 bs)) = None"
    using assms(3) unfolding rtcm3.feed3_split [OF assms(1,2)] by (auto split: Option.bind_split_asm)
  then obtain f r where f: "f \<in> set (fst (split3 bs))" "parity_ok f"
      "decode_rtcm3 e ((load r f)\<lparr>r_nbyte := 0\<rparr>) = None"
    using deliver_all_None by blast
  have "5 \<le> length f" using split3_sound [of bs] f(1) frame_len_bounds(1) [of f] by (auto simp: is_frame_def)
  then show ?thesis using f decode_rtcm3_None [OF f(3)] msg_type_load [of f 0 r] by auto
qed

lemma feed3_resync:
  assumes "length (r_buff rtcm) = 1200" and "r_nbyte rtcm = 0"
    and "RTCM3PREAMB \<notin> set xs" and "is_frame f" and "parity_ok f"
  shows "feed3 (decode_rtcm3 e) rtcm (xs @ f @ bs) =
    do { (rtcm, ret) \<leftarrow> decode_rtcm3 e ((load rtcm f)\<lparr>r_nbyte := 0\<rparr>);
         (rtcm, rets) \<leftarrow> feed3 (decode_rtcm3 e) rtcm bs;
         Some (rtcm, if ret = 0 then rets else ret # rets) }"
proof -
  have x: "feed3 (decode_rtcm3 e) r xs = Some (r, [])" if "length (r_buff r) = 1200" "r_nbyte r = 0" for r
    using assms(3) that by (induction xs) (simp_all add: input3_first)
  have "deliver (decode_rtcm3 e) rtcm f = decode_rtcm3 e ((load rtcm f)\<lparr>r_nbyte := 0\<rparr>)"
    using assms(5) by (simp add: deliver_def Let_def)
  then show ?thesis
    using x [OF assms(1,2)] feed3_frame [OF assms(1,2,4)]
    by (simp add: feed3_append split: Option.bind_split prod.split)
qed

section \<open>Transmission errors\<close>

text \<open>
  The parity field holds the register after the message, so that the register over message and
  parity is 0: a burst may touch either.
\<close>

lemma take_getbitu: "pos + n \<le> 8 * m \<Longrightarrow> m \<le> length b \<Longrightarrow> getbitu (take m b) pos n = getbitu b pos n"
  using getbitu_append [of pos n "take m b" "drop m b"] by simp

lemma bval_getbitu:
  assumes "n \<le> 24" and "8 * k + n \<le> 8 * length b"
  shows "bval (\<lambda>i. 23 - i) 0 (take n (drop (8 * k) (msg_bits b))) = push_bit (24 - n) (getbitu b (8 * k) n)"
proof (rule bit_word_eqI)
  fix i
  define xs where "xs = take n (drop (8 * k) (msg_bits b))"
  have xs: "length xs = n" "\<And>j. j < n \<Longrightarrow> xs ! j = bufbit b (8 * k + j)"
    using assms by (simp_all add: xs_def nth_msg_bits)
  show "bit (bval (\<lambda>i. 23 - i) 0 xs :: u32) i = bit (push_bit (24 - n) (getbitu b (8 * k) n)) i"
  proof (cases "i < 24")
    case True
    then have "bit (bval (\<lambda>i. 23 - i) 0 xs :: u32) (23 - (23 - i)) \<longleftrightarrow> 23 - i < n \<and> xs ! (23 - i)"
      using crc24.bit_bval [of 0 xs "23 - i"] xs(1) assms(1) by simp
    then show ?thesis
      using True assms xs by (auto simp: bit_push_bit_iff bit_getbitu)
  next
    case False
    have "fits 24 (bval (\<lambda>i. 23 - i) 0 xs :: u32)"
      using crc24.fits_bval [of 0 xs] xs(1) assms(1) by simp
    then show ?thesis
      using False assms by (auto simp: fits_def bit_push_bit_iff bit_getbitu)
  qed
qed

lemma parity_ok_register:
  assumes "3 \<le> length f"
  shows "parity_ok f \<longleftrightarrow> feeds sh24 23 (msg_bits f) 0 = 0"
proof -
  define n where "n = length f - 3"
  have n: "length f = n + 3" "n \<le> length f" using assms by (simp_all add: n_def)
  define xs where "xs = take 24 (drop (8 * n) (msg_bits f))"
  have all: "drop (8 * n) (msg_bits f) = xs" using n by (simp add: xs_def)
  have "msg_bits f = msg_bits (take n f) @ msg_bits (drop n f)"
    by (simp add: msg_bits_def flip: concat_append map_append)
  moreover have "length (msg_bits (take n f)) = 8 * n" using n by simp
  ultimately have split: "msg_bits f = msg_bits (take n f) @ xs"
    using all by (metis append_eq_conv_conj)
  have lx: "length xs = 24" using n by (simp add: xs_def)
  define c where "c = rtk_crc24q f n"
  have c: "c = feeds sh24 23 (msg_bits (take n f)) 0" "fits 24 c"
    using rtk_crc24q_register [OF n(2)] fits_crc24 [OF n(2)] by (simp_all add: c_def)
  have v: "bval (\<lambda>i. 23 - i) 0 xs = getbitu f (8 * n) 24"
    using bval_getbitu [of 24 n f] n by (simp add: xs_def)
  have "feeds sh24 23 (msg_bits f) 0 = feeds sh24 23 xs c"
    unfolding split c(1) by (rule feeds_append)
  also have "\<dots> = (sh24 ^^ 24) (c XOR getbitu f (8 * n) 24)"
    using crc24.feeds_bval [of xs c] lx v by simp
  finally have eq: "feeds sh24 23 (msg_bits f) 0 = (sh24 ^^ 24) (c XOR getbitu f (8 * n) 24)" .
  have f24: "fits 24 (c XOR getbitu f (8 * n) 24)"
    by (intro fits_xor c(2)) (simp add: fits_def bit_getbitu)
  have "feeds sh24 23 (msg_bits f) 0 = 0 \<longleftrightarrow> c = getbitu f (8 * n) 24"
  proof
    assume "feeds sh24 23 (msg_bits f) 0 = 0"
    then have "c XOR getbitu f (8 * n) 24 = 0" using crc24.funpow_ker [OF f24] eq by simp
    then show "c = getbitu f (8 * n) 24" by (simp add: xor_eq_0_iff)
  next
    assume "c = getbitu f (8 * n) 24"
    moreover have "(sh24 ^^ k) 0 = 0" for k by (induction k) (simp_all add: crc24.sh_0)
    ultimately show "feeds sh24 23 (msg_bits f) 0 = 0" unfolding eq by simp
  qed
  then show ?thesis by (simp add: parity_ok_def c_def n_def mult.commute)
qed

lemma burst_breaks_parity:
  assumes "parity_ok f" and "length g = length f" and "3 \<le> length f"
    and "differ_within k 24 (length f) f g"
  shows "\<not> parity_ok g"
  using crc24.burst_detected [OF differ_within_bits [OF assms(4)], of 0] assms(1-3)
  by (simp add: parity_ok_register)

text \<open>A burst of at most 24 bits behind the header keeps the frame together and is not decoded.\<close>

lemma corrupted_frame:
  assumes f: "is_frame f" "parity_ok f" and g: "length g = length f"
    and burst: "differ_within k 24 (length f) f g" and k: "24 \<le> k"
    and r: "length (r_buff rtcm) = 1200" "r_nbyte rtcm = 0"
  shows "feed3 dcd rtcm g = Some ((load rtcm g)\<lparr>r_nbyte := 0\<rparr>, [])"
proof -
  have l: "6 \<le> length f" using f frame_len_bounds(1) [of f] by (simp add: is_frame_def)
  have same: "bufbit f i = bufbit g i" if "i < 24" for i
    using burst k that l unfolding differ_within_def by auto
  have "getbitu f 14 10 = getbitu g 14 10" by (rule getbitu_cong) (simp add: same)
  then have fl: "frame_len g = frame_len f" by (simp add: frame_len_def getu_def)
  have "f ! 0 = g ! 0"
  proof (rule bit_word_eqI)
    fix n assume "n < LENGTH(8)"
    then have "n < 8" by simp
    then show "bit (f ! 0) n = bit (g ! 0) n" using same [of "7 - n"] by (simp add: bufbit_def)
  qed
  then have "hd f = hd g" using l g by (cases f; cases g) auto
  then have fr: "is_frame g" using f g fl l by (auto simp: is_frame_def)
  have "\<not> parity_ok g" using burst_breaks_parity [OF f(2) g _ burst] l by simp
  then show ?thesis by (simp add: feed3_frame [OF r fr] deliver_def Let_def)
qed

end
