(* ===== verification/Descriptors.thy ===== *)
theory Descriptors
  imports Rtcm
begin

text \<open>
  The strings of the messages 1007, 1008 and 1033.  A string is sent with a count of up to 255; the
  decoders copy it with \<^verbatim>\<open>strncpy\<close> and put a null character behind it, into members of 64
  characters, whatever the count: a count of 64 or more stores outside.
\<close>

section \<open>The counts of a message\<close>

definition text_counts :: "int \<Rightarrow> u8 list \<Rightarrow> nat list" where
  "text_counts type b =
    (let c = (\<lambda>i. nat (getu b i 8)); n = c 48; m = c (64 + 8 * n);
         n1 = c (72 + 8 * (n + m)); n2 = c (80 + 8 * (n + m + n1)); n3 = c (88 + 8 * (n + m + n1 + n2))
     in if type = 1007 then [n] else if type = 1008 then [n, m] else [n, m, n1, n2, n3])"

text \<open>The bits of a message besides the characters of its strings, behind the 24 bits of the frame header.\<close>

definition text_fields :: "int \<Rightarrow> nat" where
  "text_fields type = (if type = 1007 then 40 else if type = 1008 then 48 else 72)"

definition text_complete :: "rtcm \<Rightarrow> bool" where
  "text_complete r \<longleftrightarrow>
    24 + text_fields (msg_type r) + 8 * sum_list (text_counts (msg_type r) (r_buff r)) \<le> r_len r * 8"

definition station_accepted :: "rtcm \<Rightarrow> bool" where
  "station_accepted r \<longleftrightarrow> snd (test_staid r (getu (r_buff r) 36 12))"

definition text_too_long :: "rtcm \<Rightarrow> bool" where
  "text_too_long r \<longleftrightarrow> (\<exists>n\<in>set (text_counts (msg_type r) (r_buff r)). 64 \<le> n)"

section \<open>The stores\<close>

lemma strncpy_None: "strncpy s n = None \<longleftrightarrow> 64 \<le> n"
  by (auto simp: strncpy_def)

lemma decode_type1007_None:
  "msg_type r = 1007 \<Longrightarrow> decode_type1007 r = None \<longleftrightarrow> text_complete r \<and> station_accepted r \<and> text_too_long r"
  by (auto simp: decode_type1007_def text_complete_def text_too_long_def text_counts_def text_fields_def
      station_accepted_def Let_def case_prod_beta strncpy_None bind_eq_None_conv split: if_splits)

lemma decode_type1008_None:
  "msg_type r = 1008 \<Longrightarrow> decode_type1008 r = None \<longleftrightarrow> text_complete r \<and> station_accepted r \<and> text_too_long r"
  by (auto simp: decode_type1008_def text_complete_def text_too_long_def text_counts_def text_fields_def
      station_accepted_def Let_def case_prod_beta strncpy_None bind_eq_None_conv algebra_simps split: if_splits)

lemma decode_type1033_None:
  assumes "msg_type r = 1033"
  shows "decode_type1033 r = None \<longleftrightarrow> text_complete r \<and> station_accepted r \<and> text_too_long r"
proof -
  define b where "b = r_buff r"
  define n where "n = nat (getu b (24 + 12 + 12) 8)"
  define m where "m = nat (getu b (24 + 12 + 28 + 8 * n) 8)"
  define n1 where "n1 = nat (getu b (24 + 12 + 36 + 8 * (n + m)) 8)"
  define n2 where "n2 = nat (getu b (24 + 12 + 44 + 8 * (n + m + n1)) 8)"
  define n3 where "n3 = nat (getu b (24 + 12 + 52 + 8 * (n + m + n1 + n2)) 8)"
  note folds = b_def [symmetric] n_def [symmetric] m_def [symmetric] n1_def [symmetric] n2_def [symmetric] n3_def [symmetric]
  have c: "text_counts 1033 b = [n, m, n1, n2, n3]"
    unfolding text_counts_def Let_def by (simp add: n3_def n2_def n1_def m_def n_def)
  have "text_complete r \<longleftrightarrow> 24 + 12 + 60 + 8 * (n + m + n1 + n2 + n3) \<le> r_len r * 8"
    using assms by (simp add: text_complete_def text_fields_def folds(1) c add_ac)
  moreover have "text_too_long r \<longleftrightarrow> 64 \<le> n \<or> 64 \<le> m \<or> 64 \<le> n1 \<or> 64 \<le> n2 \<or> 64 \<le> n3"
    using assms by (simp add: text_too_long_def folds(1) c)
  moreover have "station_accepted r \<longleftrightarrow> snd (test_staid r (getu b (24 + 12) 12))"
    by (simp add: station_accepted_def folds(1))
  moreover have "decode_type1033 r = None \<longleftrightarrow> 24 + 12 + 60 + 8 * (n + m + n1 + n2 + n3) \<le> r_len r * 8 \<and>
      snd (test_staid r (getu b (24 + 12) 12)) \<and> (64 \<le> n \<or> 64 \<le> m \<or> 64 \<le> n1 \<or> 64 \<le> n2 \<or> 64 \<le> n3)"
    unfolding decode_type1033_def Let_def folds case_prod_beta
    by (simp only: strncpy_None bind_eq_None_conv option.distinct if_split_eq1 split: if_split) blast
  ultimately show ?thesis by blast
qed

text \<open>Only the members of the struct that \<^verbatim>\<open>-RT_INP\<close> leaves are used.\<close>

lemma rt_inp_text [simp]:
  "msg_type (rt_inp e r) = msg_type r" "text_complete (rt_inp e r) = text_complete r"
  "station_accepted (rt_inp e r) = station_accepted r" "text_too_long (rt_inp e r) = text_too_long r"
  by (auto simp: rt_inp_def msg_type_def text_complete_def station_accepted_def text_too_long_def test_staid_def
      Let_def split: prod.split option.split)

lemma decode_strings_None:
  assumes "msg_type r \<in> {1007, 1008, 1033}"
  shows "decode_rtcm3 e r = None \<longleftrightarrow> text_complete r \<and> station_accepted r \<and> text_too_long r"
proof -
  let ?r = "rt_inp e r"
  have m: "map_of rtcm3_cases 1007 = Some (\<lambda>e. decode_type1007)" "map_of rtcm3_cases 1008 = Some (\<lambda>e. decode_type1008)"
    "map_of rtcm3_cases 1033 = Some (\<lambda>e. decode_type1033)"
    by (simp_all add: rtcm3_cases_def)
  consider "msg_type r = 1007" | "msg_type r = 1008" | "msg_type r = 1033" using assms by blast
  then show ?thesis
  proof cases
    case 1
    then show ?thesis using decode_type1007_None [of ?r] by (simp add: decode_rtcm3_def Let_def m bind_eq_None_conv case_prod_beta)
  next
    case 2
    then show ?thesis using decode_type1008_None [of ?r] by (simp add: decode_rtcm3_def Let_def m bind_eq_None_conv case_prod_beta)
  next
    case 3
    then show ?thesis using decode_type1033_None [of ?r] by (simp add: decode_rtcm3_def Let_def m bind_eq_None_conv case_prod_beta)
  qed
qed

text \<open>A frame of a stream.\<close>

lemma strings_frame:
  assumes "length (r_buff rtcm) = 1200" and "r_nbyte rtcm = 0" and "is_frame f" and "parity_ok f"
    and "frame_type f \<in> {1007, 1008, 1033}"
  defines "r \<equiv> load rtcm f"
  shows "feed3 (decode_rtcm3 e) rtcm f = None \<longleftrightarrow> text_complete r \<and> station_accepted r \<and> text_too_long r"
proof -
  let ?r = "(load rtcm f)\<lparr>r_nbyte := 0\<rparr>"
  have "5 \<le> length f" using assms(3) frame_len_bounds(1) [of f] by (auto simp: is_frame_def)
  then have t: "msg_type ?r \<in> {1007, 1008, 1033}" using assms(5) msg_type_load [of f 0 rtcm] by simp
  have "deliver (decode_rtcm3 e) rtcm f = decode_rtcm3 e ?r" using assms(4) by (simp add: deliver_def)
  then have "feed3 (decode_rtcm3 e) rtcm f = None \<longleftrightarrow> decode_rtcm3 e ?r = None"
    unfolding feed3_frame [OF assms(1-3)] by (cases "decode_rtcm3 e ?r") (simp_all add: case_prod_beta)
  moreover have "text_complete ?r = text_complete r" "station_accepted ?r = station_accepted r"
    "text_too_long ?r = text_too_long r"
    by (simp_all add: r_def text_complete_def station_accepted_def text_too_long_def msg_type_def test_staid_def Let_def)
  ultimately show ?thesis using decode_strings_None [OF t] by simp
qed

end
