(* ===== verification/Writers.thy ===== *)
theory Writers
  imports RtcmInv
begin

text \<open>
  How the encoders of \<^verbatim>\<open>rtcm3e.c\<close> fill the message buffer: writers of counted strings, of
  fields left out and of sequences, the end of an encoder, and what holds of every writer: it keeps
  the size of the buffer and the bits before its start.  An encoder starts at bit 24, behind the
  frame header.  C writes past the end of the buffer without notice; bit positions only grow, so
  that happens just where the last position is behind the buffer, and the encoder of the model then
  returns None.
\<close>

section \<open>Writers\<close>

text \<open>A position that is moved without writing.\<close>

definition wrskip :: "nat \<Rightarrow> (wstate, unit) state" where
  "wrskip n = State (\<lambda>(b, i). ((), (b, i + n)))"

fun wr_seq :: "(wstate, unit) state list \<Rightarrow> (wstate, unit) state" where
  "wr_seq [] = State_Monad.return ()"
| "wr_seq (w # ws) = do { w; wr_seq ws }"

text \<open>A string: its length, at most 31, and that many characters.\<close>

definition wr_chars :: "string \<Rightarrow> (wstate, unit) state" where
  "wr_chars s =
    (let cs = take 31 s in do { wru 8 (int (length cs)); wr_seq (map (\<lambda>c. wru 8 (of_char c)) cs) })"

definition put_bits :: "rtcm \<Rightarrow> (wstate, unit) state \<Rightarrow> (rtcm \<times> int) option" where
  "put_bits rtcm w =
    (let (b, i) = snd (run_state w (r_buff rtcm, 24))
     in if i > 8 * length b then None else Some (rtcm\<lparr>r_buff := b, r_nbit := i\<rparr>, 1))"

lemma run_wrskip [simp, runs]: "run_state (wrskip n) (b, i) = ((), (b, i + n))"
  by (simp add: wrskip_def)

section \<open>What a writer keeps\<close>

definition writes :: "(wstate, 'a) state \<Rightarrow> bool" where
  "writes w \<longleftrightarrow>
    (\<forall>b i x b' i'. run_state w (b, i) = (x, b', i') \<longrightarrow>
       length b' = length b \<and> i \<le> i' \<and> (\<forall>k < i. bufbit b' k = bufbit b k))"

named_theorems writers \<open>programs that write a message\<close>

lemma writesI:
  "(\<And>b i x b' i'. run_state w (b, i) = (x, b', i') \<Longrightarrow>
     length b' = length b \<and> i \<le> i' \<and> (\<forall>k < i. bufbit b' k = bufbit b k)) \<Longrightarrow> writes w"
  unfolding writes_def by blast

lemma writesD:
  assumes "writes w" and "run_state w (b, i) = (x, b', i')"
  shows "length b' = length b" and "i \<le> i'" and "k < i \<Longrightarrow> bufbit b' k = bufbit b k"
  using assms unfolding writes_def by blast+

lemma writes_return [writers]: "writes (State_Monad.return x)"
  by (rule writesI) simp

lemma writes_bind [writers]:
  assumes "writes w" and "\<And>x. writes (f x)"
  shows "writes (State_Monad.bind w f)"
proof (rule writesI)
  fix b i y b'' i''
  assume r: "run_state (State_Monad.bind w f) (b, i) = (y, b'', i'')"
  obtain x b' i' where w: "run_state w (b, i) = (x, b', i')" by (metis surj_pair)
  then have f: "run_state (f x) (b', i') = (y, b'', i'')" using r by simp
  show "length b'' = length b \<and> i \<le> i'' \<and> (\<forall>k < i. bufbit b'' k = bufbit b k)"
    using writesD [OF assms(1) w] writesD [OF assms(2) f] by simp
qed

lemma bufbit_setu_before: "k < i \<Longrightarrow> bufbit (setu b i n v) k = bufbit b k"
  by (simp add: setu_def bufbit_setbitu_other)

lemma bufbit_setbits_before: "k < i \<Longrightarrow> bufbit (setbits b i n v) k = bufbit b k"
  by (simp add: setbits_def Let_def bufbit_setbitu_other)

lemma writes_fields [writers]: "writes (wru n v)" "writes (wrs n v)" "writes (wrg n v)" "writes (wr38 x)" "writes (wrskip n)"
  by (auto intro!: writesI
      simp: setbitg_def set38bits_def Let_def bufbit_setu_before bufbit_setbits_before)

lemma writes_seq [writers]: "(\<And>w. w \<in> set ws \<Longrightarrow> writes w) \<Longrightarrow> writes (wr_seq ws)"
  by (induction ws) (auto intro!: writers)

lemma writes_chars [writers]: "writes (wr_chars s)"
  by (auto simp: wr_chars_def Let_def intro!: writers)

lemma writes_if [writers]: "writes w \<Longrightarrow> writes w' \<Longrightarrow> writes (if c then w else w')"
  by simp

lemma put_bits_writes:
  assumes "put_bits rtcm w = Some (rtcm', ret)" and "writes w"
  shows "length (r_buff rtcm') = length (r_buff rtcm)" and "24 \<le> r_nbit rtcm'"
    and "r_nbit rtcm' \<le> 8 * length (r_buff rtcm')"
    and "i < 24 \<Longrightarrow> bufbit (r_buff rtcm') i = bufbit (r_buff rtcm) i" and "ret = 1"
proof -
  obtain x b k where r: "run_state w (r_buff rtcm, 24) = (x, b, k)" by (metis surj_pair)
  then have "rtcm' = rtcm\<lparr>r_buff := b, r_nbit := k\<rparr>" "k \<le> 8 * length b" "ret = 1"
    using assms(1) by (auto simp: put_bits_def split: if_splits)
  then show "length (r_buff rtcm') = length (r_buff rtcm)" "24 \<le> r_nbit rtcm'"
    "r_nbit rtcm' \<le> 8 * length (r_buff rtcm')" "ret = 1"
    "i < 24 \<Longrightarrow> bufbit (r_buff rtcm') i = bufbit (r_buff rtcm) i"
    using writesD [OF assms(2) r] by simp_all
qed

section \<open>The size of what a writer writes\<close>

text \<open>A bound of the bits written: an encoder whose bound is below the size of the buffer succeeds.\<close>

definition writes_at_most :: "nat \<Rightarrow> (wstate, 'a) state \<Rightarrow> bool" where
  "writes_at_most n w \<longleftrightarrow> (\<forall>b i x b' i'. run_state w (b, i) = (x, b', i') \<longrightarrow> i' \<le> i + n)"

lemma writes_at_mostI:
  "(\<And>b i x b' i'. run_state w (b, i) = (x, b', i') \<Longrightarrow> i' \<le> i + n) \<Longrightarrow> writes_at_most n w"
  unfolding writes_at_most_def by blast

lemma writes_at_mostD:
  "writes_at_most n w \<Longrightarrow> run_state w (b, i) = (x, b', i') \<Longrightarrow> i' \<le> i + n"
  unfolding writes_at_most_def by blast

lemma writes_at_most_mono: "writes_at_most n w \<Longrightarrow> n \<le> m \<Longrightarrow> writes_at_most m w"
  unfolding writes_at_most_def by (meson add_left_mono le_trans)

lemma writes_at_most_bind:
  assumes "writes_at_most n w" and "\<And>x. writes_at_most m (f x)"
  shows "writes_at_most (n + m) (State_Monad.bind w f)"
proof (rule writes_at_mostI)
  fix b i y b'' i''
  assume r: "run_state (State_Monad.bind w f) (b, i) = (y, b'', i'')"
  obtain x b' i' where w: "run_state w (b, i) = (x, b', i')" by (metis surj_pair)
  then have f: "run_state (f x) (b', i') = (y, b'', i'')" using r by simp
  show "i'' \<le> i + (n + m)"
    using writes_at_mostD [OF assms(1) w] writes_at_mostD [OF assms(2) f] by simp
qed

lemma writes_at_most_fields:
  "writes_at_most 0 (State_Monad.return x)" "writes_at_most n (wru n v)" "writes_at_most n (wrs n v)"
  "writes_at_most n (wrg n v)" "writes_at_most 38 (wr38 y)" "writes_at_most n (wrskip n)"
  by (auto intro!: writes_at_mostI)

lemma writes_at_most_seq:
  "(\<And>w. w \<in> set ws \<Longrightarrow> writes_at_most n w) \<Longrightarrow> writes_at_most (n * length ws) (wr_seq ws)"
proof (induction ws)
  case (Cons w ws)
  then have "writes_at_most (n + n * length ws) (wr_seq (w # ws))"
    by (auto intro!: writes_at_most_bind)
  then show ?case by (simp add: algebra_simps)
qed (simp add: writes_at_most_fields)

lemma writes_at_most_chars: "writes_at_most (8 + 8 * 31) (wr_chars s)"
proof -
  have "writes_at_most (8 + 8 * length (take 31 s)) (wr_chars s)"
    unfolding wr_chars_def Let_def
    by (rule writes_at_most_bind [OF writes_at_most_fields(2)],
        rule writes_at_most_mono [OF writes_at_most_seq [of _ 8]])
       (auto simp: writes_at_most_fields)
  then show ?thesis by (rule writes_at_most_mono) simp
qed

lemma writes_at_most_bindI:
  "writes_at_most n w \<Longrightarrow> n \<le> k \<Longrightarrow> (\<And>x. writes_at_most (k - n) (f x)) \<Longrightarrow>
   writes_at_most k (State_Monad.bind w f)"
  using writes_at_most_bind [of n w "k - n" f] by simp

lemma put_bits_Some:
  assumes "writes w" and "writes_at_most n w" and "24 + n \<le> 8 * length (r_buff rtcm)"
  obtains rtcm' where "put_bits rtcm w = Some (rtcm', 1)"
proof -
  obtain x b k where r: "run_state w (r_buff rtcm, 24) = (x, b, k)" by (metis surj_pair)
  then have "length b = length (r_buff rtcm)" "k \<le> 24 + n"
    using writesD(1) [OF assms(1) r] writes_at_mostD [OF assms(2) r] by simp_all
  then have "\<not> 8 * length b < k" using assms(3) by linarith
  then show thesis using r that by (simp add: put_bits_def)
qed

end
