(* ===== verification/Rtcm3eObs.thy ===== *)
theory Rtcm3eObs
  imports Writers Rtcm3Obs
begin

text \<open>
  Observation messages of \<^verbatim>\<open>rtcm3e.c\<close>: lock times and indicators, the fields of one
  satellite (\<open>gen_obs_gps\<close>, \<open>gen_obs_glo\<close>), the message header and the encoders of 1001
  to 1004 (GPS and SBAS) and 1009 to 1012 (GLONASS).
\<close>

section \<open>Lock time\<close>

text \<open>The start of the lock is kept in the struct; a slip or an unset start resets it.\<close>

definition lock_start :: "gtime \<Rightarrow> gtime \<Rightarrow> int \<Rightarrow> gtime" where
  "lock_start time lltime LLI = (if gt_time lltime = 0 \<or> LLI AND 1 \<noteq> 0 then time else lltime)"

text \<open>
  The conversion \<^verbatim>\<open>(int)x\<close> of a double.  Outside the range of \<^verbatim>\<open>int\<close> C leaves the result open; the
  value here is the one that the processors of the x86 family give.
\<close>

definition int_of_double :: "double \<Rightarrow> int" where
  "int_of_double x = (if - (2 ^ 31) \<le> trunc x \<and> trunc x < 2 ^ 31 then trunc x else - (2 ^ 31))"

definition locktime :: "gtime \<Rightarrow> gtime \<Rightarrow> int \<Rightarrow> gtime \<times> int" where
  "locktime time lltime LLI =
    (let lltime = lock_start time lltime LLI in (lltime, int_of_double (timediff time lltime)))"

definition locktime_d :: "gtime \<Rightarrow> gtime \<Rightarrow> int \<Rightarrow> gtime \<times> double" where
  "locktime_d time lltime LLI =
    (let lltime = lock_start time lltime LLI in (lltime, timediff time lltime))"

definition to_lock :: "int \<Rightarrow> int" where
  "to_lock lock =
    (if lock < 0 then 0
     else if lock < 24 then lock
     else if lock < 72 then (lock + 24) div 2
     else if lock < 168 then (lock + 120) div 4
     else if lock < 360 then (lock + 408) div 8
     else if lock < 744 then (lock + 1176) div 16
     else if lock < 937 then (lock + 3096) div 32
     else 127)"

definition to_msm_lock :: "double \<Rightarrow> int" where
  "to_msm_lock lock =
    (if lock < 0.032 then 0
     else if lock < 0.064 then 1
     else if lock < 0.128 then 2
     else if lock < 0.256 then 3
     else if lock < 0.512 then 4
     else if lock < 1.024 then 5
     else if lock < 2.048 then 6
     else if lock < 4.096 then 7
     else if lock < 8.192 then 8
     else if lock < 16.384 then 9
     else if lock < 32.768 then 10
     else if lock < 65.536 then 11
     else if lock < 131.072 then 12
     else if lock < 262.144 then 13
     else if lock < 524.288 then 14
     else 15)"

definition to_msm_lock_ex :: "double \<Rightarrow> int" where
  "to_msm_lock_ex lock =
    (let lock_ms = int_of_double (lock * 1000) in
     if lock < 0 then 0
     else if lock < 0.064 then lock_ms
     else if lock < 0.128 then (lock_ms + 64) div 2
     else if lock < 0.256 then (lock_ms + 256) div 4
     else if lock < 0.512 then (lock_ms + 768) div 8
     else if lock < 1.024 then (lock_ms + 2048) div 16
     else if lock < 2.048 then (lock_ms + 5120) div 32
     else if lock < 4.096 then (lock_ms + 12288) div 64
     else if lock < 8.192 then (lock_ms + 28672) div 128
     else if lock < 16.384 then (lock_ms + 65536) div 256
     else if lock < 32.768 then (lock_ms + 147456) div 512
     else if lock < 65.536 then (lock_ms + 327680) div 1024
     else if lock < 131.072 then (lock_ms + 720896) div 2048
     else if lock < 262.144 then (lock_ms + 1572864) div 4096
     else if lock < 524.288 then (lock_ms + 3407872) div 8192
     else if lock < 1048.576 then (lock_ms + 7340032) div 16384
     else if lock < 2097.152 then (lock_ms + 15728640) div 32768
     else if lock < 4194.304 then (lock_ms + 33554432) div 65536
     else if lock < 8388.608 then (lock_ms + 71303168) div 131072
     else if lock < 16777.216 then (lock_ms + 150994944) div 262144
     else if lock < 33554.432 then (lock_ms + 318767104) div 524288
     else if lock < 67108.864 then (lock_ms + 671088640) div 1048576
     else 704)"

section \<open>Channels and codes\<close>

definition fcn_glo :: "int \<Rightarrow> rtcm \<Rightarrow> int" where
  "fcn_glo sat rtcm =
    (let (sys, prn) = satsys sat in
     if sys \<noteq> SYS_GLO then -1
     else let g = nav_geph (r_nav rtcm) ! nat (prn - 1); fcn = nav_glo_fcn (r_nav rtcm) ! nat (prn - 1)
          in if ge_sat g = sat then ge_frq g + 7
             else if fcn > 0 then fcn - 8 + 7
             else -1)"

definition to_code1_gps :: "nat \<Rightarrow> int" where
  "to_code1_gps code =
    (if code = CODE_L1C then 0
     else if code = CODE_L1P \<or> code = CODE_L1W \<or> code = CODE_L1Y \<or> code = CODE_L1N then 1
     else 0)"

definition to_code2_gps :: "nat \<Rightarrow> int" where
  "to_code2_gps code =
    (if code = CODE_L2C \<or> code = CODE_L2S \<or> code = CODE_L2L \<or> code = CODE_L2X then 0
     else if code = CODE_L2P \<or> code = CODE_L2Y then 1
     else if code = CODE_L2D then 2
     else if code = CODE_L2W \<or> code = CODE_L2N then 3
     else 0)"

definition to_code1_glo :: "nat \<Rightarrow> int" where
  "to_code1_glo code = (if code = CODE_L1C then 0 else if code = CODE_L1P then 1 else 0)"

definition to_code2_glo :: "nat \<Rightarrow> int" where
  "to_code2_glo code = (if code = CODE_L2C then 0 else if code = CODE_L2P then 1 else 0)"

section \<open>The fields of a satellite\<close>

definition cp_pr :: "double \<Rightarrow> double \<Rightarrow> double" where
  "cp_pr cp pr_cyc = fmod (cp - pr_cyc + 750) 1500 - 750"

text \<open>
  The values the code returns through pointers; an encoder that passes a null pointer ignores the
  member.  The invalid values are the C constants as the \<open>int\<close> they are assigned to.
\<close>

record gobs =
  go_code1 :: int
  go_pr1 :: int
  go_ppr1 :: int
  go_lock1 :: int
  go_amb :: int
  go_cnr1 :: int
  go_code2 :: int
  go_pr21 :: int
  go_ppr2 :: int
  go_lock2 :: int
  go_cnr2 :: int

definition INVALID_PPR :: int where "INVALID_PPR = sint (0xFFF80000 :: u32)"
definition INVALID_PR21 :: int where "INVALID_PR21 = sint (0xFFFFE000 :: u32)"

definition SNR_UNIT :: double where "SNR_UNIT = 0.001"

definition set_lltime :: "rtcm \<Rightarrow> int \<Rightarrow> nat \<Rightarrow> gtime \<Rightarrow> rtcm" where
  "set_lltime rtcm sat k t = rtcm\<lparr>r_lltime := upd2 (r_lltime rtcm) (nat (sat - 1)) k t\<rparr>"

definition get_lltime :: "rtcm \<Rightarrow> int \<Rightarrow> nat \<Rightarrow> gtime" where
  "get_lltime rtcm sat k = r_lltime rtcm ! nat (sat - 1) ! k"

definition gen_obs_gps :: "rtcm \<Rightarrow> obsd \<Rightarrow> rtcm \<times> gobs" where
  "gen_obs_gps rtcm data =
    (let lam1 = CLIGHT / FREQ1; lam2 = CLIGHT / FREQ2;
         P0 = ob_P data ! 0; P1 = ob_P data ! 1; L0 = ob_L data ! 0; L1 = ob_L data ! 1;
         c0 = ob_code data ! 0; c1 = ob_code data ! 1;
         (amb, pr1, pr1c) =
           (if P0 \<noteq> 0 \<and> c0 \<noteq> 0
            then let amb = \<lfloor>P0 / PRUNIT_GPS\<rfloor>;
                     pr1 = ROUND ((P0 - of_int amb * PRUNIT_GPS) / 0.02)
                 in (amb, pr1, of_int pr1 * 0.02 + of_int amb * PRUNIT_GPS)
            else (0, 0, 0));
         ppr1 = (if P0 \<noteq> 0 \<and> L0 \<noteq> 0 \<and> c0 \<noteq> 0
                 then ROUND (cp_pr L0 (pr1c / lam1) * lam1 / 0.0005) else INVALID_PPR);
         pr21 = (if P0 \<noteq> 0 \<and> P1 \<noteq> 0 \<and> c0 \<noteq> 0 \<and> c1 \<noteq> 0 \<and> \<bar>P1 - pr1c\<bar> \<le> 163.82
                 then ROUND ((P1 - pr1c) / 0.02) else INVALID_PR21);
         ppr2 = (if P0 \<noteq> 0 \<and> L1 \<noteq> 0 \<and> c0 \<noteq> 0 \<and> c1 \<noteq> 0
                 then ROUND (cp_pr L1 (pr1c / lam2) * lam2 / 0.0005) else INVALID_PPR);
         sat = ob_sat data;
         (t1, lt1) = locktime (ob_time data) (get_lltime rtcm sat 0) (ob_LLI data ! 0);
         rtcm = set_lltime rtcm sat 0 t1;
         (t2, lt2) = locktime (ob_time data) (get_lltime rtcm sat 1) (ob_LLI data ! 1);
         rtcm = set_lltime rtcm sat 1 t2
     in (rtcm, \<lparr>go_code1 = to_code1_gps c0, go_pr1 = pr1, go_ppr1 = ppr1, go_lock1 = to_lock lt1,
                go_amb = amb, go_cnr1 = ROUND (of_int (ob_SNR data ! 0) * SNR_UNIT / 0.25),
                go_code2 = to_code2_gps c1, go_pr21 = pr21, go_ppr2 = ppr2, go_lock2 = to_lock lt2,
                go_cnr2 = ROUND (of_int (ob_SNR data ! 1) * SNR_UNIT / 0.25)\<rparr>))"

definition gen_obs_glo :: "rtcm \<Rightarrow> obsd \<Rightarrow> int \<Rightarrow> rtcm \<times> gobs" where
  "gen_obs_glo rtcm data fcn =
    (let lam1 = (if fcn \<ge> 0 then CLIGHT / (FREQ1_GLO + DFRQ1_GLO * of_int (fcn - 7)) else 0);
         lam2 = (if fcn \<ge> 0 then CLIGHT / (FREQ2_GLO + DFRQ2_GLO * of_int (fcn - 7)) else 0);
         P0 = ob_P data ! 0; P1 = ob_P data ! 1; L0 = ob_L data ! 0; L1 = ob_L data ! 1;
         c0 = ob_code data ! 0; c1 = ob_code data ! 1;
         (amb, pr1, pr1c) =
           (if P0 \<noteq> 0
            then let amb = \<lfloor>P0 / PRUNIT_GLO\<rfloor>;
                     pr1 = ROUND ((P0 - of_int amb * PRUNIT_GLO) / 0.02)
                 in (amb, pr1, of_int pr1 * 0.02 + of_int amb * PRUNIT_GLO)
            else (0, 0, 0));
         ppr1 = (if P0 \<noteq> 0 \<and> L0 \<noteq> 0 \<and> c0 \<noteq> 0 \<and> lam1 > 0
                 then ROUND (cp_pr L0 (pr1c / lam1) * lam1 / 0.0005) else INVALID_PPR);
         pr21 = (if P0 \<noteq> 0 \<and> P1 \<noteq> 0 \<and> c0 \<noteq> 0 \<and> c1 \<noteq> 0 \<and> \<bar>P1 - pr1c\<bar> \<le> 163.82
                 then ROUND ((P1 - pr1c) / 0.02) else INVALID_PR21);
         ppr2 = (if P0 \<noteq> 0 \<and> L1 \<noteq> 0 \<and> c0 \<noteq> 0 \<and> c1 \<noteq> 0 \<and> lam2 > 0
                 then ROUND (cp_pr L1 (pr1c / lam2) * lam2 / 0.0005) else INVALID_PPR);
         sat = ob_sat data;
         (t1, lt1) = locktime (ob_time data) (get_lltime rtcm sat 0) (ob_LLI data ! 0);
         rtcm = set_lltime rtcm sat 0 t1;
         (t2, lt2) = locktime (ob_time data) (get_lltime rtcm sat 1) (ob_LLI data ! 1);
         rtcm = set_lltime rtcm sat 1 t2
     in (rtcm, \<lparr>go_code1 = to_code1_glo c0, go_pr1 = pr1, go_ppr1 = ppr1, go_lock1 = to_lock lt1,
                go_amb = amb, go_cnr1 = ROUND (of_int (ob_SNR data ! 0) * SNR_UNIT / 0.25),
                go_code2 = to_code2_glo c1, go_pr21 = pr21, go_ppr2 = ppr2, go_lock2 = to_lock lt2,
                go_cnr2 = ROUND (of_int (ob_SNR data ! 1) * SNR_UNIT / 0.25)\<rparr>))"

section \<open>Header\<close>

definition encode_head :: "int \<Rightarrow> rtcm \<Rightarrow> int \<Rightarrow> int \<Rightarrow> int \<Rightarrow> (wstate, unit) state" where
  "encode_head type rtcm sys sync nsat =
    do { wru 12 type; wru 12 (r_staid rtcm);
         (if sys = SYS_GLO
          then let (tow, week) = time2gpst (timeadd (gpst2utc (r_time rtcm)) 10800)
               in wru 27 (ROUND (fmod tow 86400 / 0.001))
          else let (tow, week) = time2gpst (r_time rtcm) in wru 30 (ROUND (tow / 0.001)));
         wru 1 sync; wru 5 nsat; wru 1 0; wru 3 0 }"

section \<open>GPS messages\<close>

text \<open>
  The records of a message: those the loops do not skip.  The loops also stop where \<open>nsat\<close>
  reaches \<open>MAXOBS\<close>; the second does so at once when the first ended with that count.
\<close>

definition gps_obs :: "rtcm \<Rightarrow> obsd list" where
  "gps_obs rtcm =
    filter (\<lambda>d. fst (satsys (ob_sat d)) = SYS_GPS \<or> fst (satsys (ob_sat d)) = SYS_SBS)
      (take (r_obs_n rtcm) (r_obs rtcm))"

definition glo_obs :: "rtcm \<Rightarrow> obsd list" where
  "glo_obs rtcm =
    filter (\<lambda>d. fst (satsys (ob_sat d)) = SYS_GLO \<and> \<not> fcn_glo (ob_sat d) rtcm < 0)
      (take (r_obs_n rtcm) (r_obs rtcm))"

text \<open>The second loop: a satellite may change the lock times and writes its fields.\<close>

fun enc_sats ::
    "(rtcm \<Rightarrow> obsd \<Rightarrow> rtcm \<times> (wstate, unit) state) \<Rightarrow> rtcm \<Rightarrow> obsd list \<Rightarrow> rtcm \<times> (wstate, unit) state list"
  where
  "enc_sats f rtcm [] = (rtcm, [])"
| "enc_sats f rtcm (d # ds) =
     (let (rtcm, w) = f rtcm d; (rtcm, ws) = enc_sats f rtcm ds in (rtcm, w # ws))"

definition enc_obs_msg ::
    "(rtcm \<Rightarrow> obsd \<Rightarrow> rtcm \<times> (wstate, unit) state) \<Rightarrow> int \<Rightarrow> int \<Rightarrow> obsd list \<Rightarrow> rtcm \<Rightarrow> int \<Rightarrow>
     (rtcm \<times> int) option" where
  "enc_obs_msg f type sys ds rtcm sync =
    (let nsat = min MAXOBS (length ds);
         head = encode_head type rtcm sys sync (int nsat);
         (rtcm, ws) = enc_sats f rtcm (if nsat < MAXOBS then ds else [])
     in put_bits rtcm (do { head; wr_seq ws }))"

definition gps_prn :: "obsd \<Rightarrow> int" where
  "gps_prn data = (let (sys, prn) = satsys (ob_sat data) in if sys = SYS_SBS then prn - 80 else prn)"

definition glo_prn :: "obsd \<Rightarrow> int" where
  "glo_prn data = snd (satsys (ob_sat data))"

definition sat1001e :: "rtcm \<Rightarrow> obsd \<Rightarrow> rtcm \<times> (wstate, unit) state" where
  "sat1001e rtcm data =
    (let (rtcm, g) = gen_obs_gps rtcm data in
     (rtcm, do { wru 6 (gps_prn data); wru 1 (go_code1 g); wru 24 (go_pr1 g); wrs 20 (go_ppr1 g);
                 wru 7 (go_lock1 g) }))"

definition sat1002e :: "rtcm \<Rightarrow> obsd \<Rightarrow> rtcm \<times> (wstate, unit) state" where
  "sat1002e rtcm data =
    (let (rtcm, g) = gen_obs_gps rtcm data in
     (rtcm, do { wru 6 (gps_prn data); wru 1 (go_code1 g); wru 24 (go_pr1 g); wrs 20 (go_ppr1 g);
                 wru 7 (go_lock1 g); wru 8 (go_amb g); wru 8 (go_cnr1 g) }))"

definition sat1003e :: "rtcm \<Rightarrow> obsd \<Rightarrow> rtcm \<times> (wstate, unit) state" where
  "sat1003e rtcm data =
    (let (rtcm, g) = gen_obs_gps rtcm data in
     (rtcm, do { wru 6 (gps_prn data); wru 1 (go_code1 g); wru 24 (go_pr1 g); wrs 20 (go_ppr1 g);
                 wru 7 (go_lock1 g); wru 2 (go_code2 g); wrs 14 (go_pr21 g); wrs 20 (go_ppr2 g);
                 wru 7 (go_lock2 g) }))"

definition sat1004e :: "rtcm \<Rightarrow> obsd \<Rightarrow> rtcm \<times> (wstate, unit) state" where
  "sat1004e rtcm data =
    (let (rtcm, g) = gen_obs_gps rtcm data in
     (rtcm, do { wru 6 (gps_prn data); wru 1 (go_code1 g); wru 24 (go_pr1 g); wrs 20 (go_ppr1 g);
                 wru 7 (go_lock1 g); wru 8 (go_amb g); wru 8 (go_cnr1 g); wru 2 (go_code2 g);
                 wrs 14 (go_pr21 g); wrs 20 (go_ppr2 g); wru 7 (go_lock2 g); wru 8 (go_cnr2 g) }))"

definition encode_type1001 :: "rtcm \<Rightarrow> int \<Rightarrow> (rtcm \<times> int) option" where
  "encode_type1001 rtcm sync = enc_obs_msg sat1001e 1001 SYS_GPS (gps_obs rtcm) rtcm sync"

definition encode_type1002 :: "rtcm \<Rightarrow> int \<Rightarrow> (rtcm \<times> int) option" where
  "encode_type1002 rtcm sync = enc_obs_msg sat1002e 1002 SYS_GPS (gps_obs rtcm) rtcm sync"

definition encode_type1003 :: "rtcm \<Rightarrow> int \<Rightarrow> (rtcm \<times> int) option" where
  "encode_type1003 rtcm sync = enc_obs_msg sat1003e 1003 SYS_GPS (gps_obs rtcm) rtcm sync"

definition encode_type1004 :: "rtcm \<Rightarrow> int \<Rightarrow> (rtcm \<times> int) option" where
  "encode_type1004 rtcm sync = enc_obs_msg sat1004e 1004 SYS_GPS (gps_obs rtcm) rtcm sync"

section \<open>GLONASS messages\<close>

definition sat1009e :: "rtcm \<Rightarrow> obsd \<Rightarrow> rtcm \<times> (wstate, unit) state" where
  "sat1009e rtcm data =
    (let fcn = fcn_glo (ob_sat data) rtcm; (rtcm, g) = gen_obs_glo rtcm data fcn in
     (rtcm, do { wru 6 (glo_prn data); wru 1 (go_code1 g); wru 5 fcn; wru 25 (go_pr1 g);
                 wrs 20 (go_ppr1 g); wru 7 (go_lock1 g) }))"

definition sat1010e :: "rtcm \<Rightarrow> obsd \<Rightarrow> rtcm \<times> (wstate, unit) state" where
  "sat1010e rtcm data =
    (let fcn = fcn_glo (ob_sat data) rtcm; (rtcm, g) = gen_obs_glo rtcm data fcn in
     (rtcm, do { wru 6 (glo_prn data); wru 1 (go_code1 g); wru 5 fcn; wru 25 (go_pr1 g);
                 wrs 20 (go_ppr1 g); wru 7 (go_lock1 g); wru 7 (go_amb g); wru 8 (go_cnr1 g) }))"

definition sat1011e :: "rtcm \<Rightarrow> obsd \<Rightarrow> rtcm \<times> (wstate, unit) state" where
  "sat1011e rtcm data =
    (let fcn = fcn_glo (ob_sat data) rtcm; (rtcm, g) = gen_obs_glo rtcm data fcn in
     (rtcm, do { wru 6 (glo_prn data); wru 1 (go_code1 g); wru 5 fcn; wru 25 (go_pr1 g);
                 wrs 20 (go_ppr1 g); wru 7 (go_lock1 g); wru 2 (go_code2 g); wrs 14 (go_pr21 g);
                 wrs 20 (go_ppr2 g); wru 7 (go_lock2 g) }))"

definition sat1012e :: "rtcm \<Rightarrow> obsd \<Rightarrow> rtcm \<times> (wstate, unit) state" where
  "sat1012e rtcm data =
    (let fcn = fcn_glo (ob_sat data) rtcm; (rtcm, g) = gen_obs_glo rtcm data fcn in
     (rtcm, do { wru 6 (glo_prn data); wru 1 (go_code1 g); wru 5 fcn; wru 25 (go_pr1 g);
                 wrs 20 (go_ppr1 g); wru 7 (go_lock1 g); wru 7 (go_amb g); wru 8 (go_cnr1 g);
                 wru 2 (go_code2 g); wrs 14 (go_pr21 g); wrs 20 (go_ppr2 g); wru 7 (go_lock2 g);
                 wru 8 (go_cnr2 g) }))"

definition encode_type1009 :: "rtcm \<Rightarrow> int \<Rightarrow> (rtcm \<times> int) option" where
  "encode_type1009 rtcm sync = enc_obs_msg sat1009e 1009 SYS_GLO (glo_obs rtcm) rtcm sync"

definition encode_type1010 :: "rtcm \<Rightarrow> int \<Rightarrow> (rtcm \<times> int) option" where
  "encode_type1010 rtcm sync = enc_obs_msg sat1010e 1010 SYS_GLO (glo_obs rtcm) rtcm sync"

definition encode_type1011 :: "rtcm \<Rightarrow> int \<Rightarrow> (rtcm \<times> int) option" where
  "encode_type1011 rtcm sync = enc_obs_msg sat1011e 1011 SYS_GLO (glo_obs rtcm) rtcm sync"

definition encode_type1012 :: "rtcm \<Rightarrow> int \<Rightarrow> (rtcm \<times> int) option" where
  "encode_type1012 rtcm sync = enc_obs_msg sat1012e 1012 SYS_GLO (glo_obs rtcm) rtcm sync"

end
