(* ===== verification/Rtcm3eSta.thy ===== *)
theory Rtcm3eSta
  imports Writers Rtcm3Sta
begin

text \<open>
  Station messages of \<^verbatim>\<open>rtcm3e.c\<close>: reference point (1005, 1006), antenna and receiver
  descriptors (1007, 1008, 1033) and GLONASS code-phase biases (1230); and what the decoders of
  \<^verbatim>\<open>rtcm3.c\<close> make of them.  The argument \<open>sync\<close> is traced only.
\<close>

section \<open>Reference point\<close>

definition write_arp :: "int \<Rightarrow> rtcm \<Rightarrow> (wstate, unit) state" where
  "write_arp msgno rtcm =
    (let p = sta_pos (r_sta rtcm) in
     do { wru 12 msgno; wru 12 (r_staid rtcm); wru 6 0; wru 1 1; wru 1 1; wru 1 0; wru 1 0;
          wr38 (p ! 0 / 0.0001); wru 1 1; wru 1 0; wr38 (p ! 1 / 0.0001); wru 2 0;
          wr38 (p ! 2 / 0.0001) })"

definition encode_type1005 :: "rtcm \<Rightarrow> int \<Rightarrow> (rtcm \<times> int) option" where
  "encode_type1005 rtcm sync = put_bits rtcm (write_arp 1005 rtcm)"

definition encode_type1006 :: "rtcm \<Rightarrow> int \<Rightarrow> (rtcm \<times> int) option" where
  "encode_type1006 rtcm sync =
    (let h = sta_hgt (r_sta rtcm); hgt = (if 0 \<le> h \<and> h \<le> 6.5535 then ROUND (h / 0.0001) else 0)
     in put_bits rtcm (do { write_arp 1006 rtcm; wru 16 hgt }))"

section \<open>Descriptors\<close>

definition encode_type1007 :: "rtcm \<Rightarrow> int \<Rightarrow> (rtcm \<times> int) option" where
  "encode_type1007 rtcm sync =
    (let s = r_sta rtcm in
     put_bits rtcm (do { wru 12 1007; wru 12 (r_staid rtcm); wr_chars (sta_antdes s);
                         wru 8 (sta_antsetup s) }))"

definition encode_type1008 :: "rtcm \<Rightarrow> int \<Rightarrow> (rtcm \<times> int) option" where
  "encode_type1008 rtcm sync =
    (let s = r_sta rtcm in
     put_bits rtcm (do { wru 12 1008; wru 12 (r_staid rtcm); wr_chars (sta_antdes s);
                         wru 8 (sta_antsetup s); wr_chars (sta_antsno s) }))"

definition encode_type1033 :: "rtcm \<Rightarrow> int \<Rightarrow> (rtcm \<times> int) option" where
  "encode_type1033 rtcm sync =
    (let s = r_sta rtcm in
     put_bits rtcm (do { wru 12 1033; wru 12 (r_staid rtcm); wr_chars (sta_antdes s);
                         wru 8 (sta_antsetup s); wr_chars (sta_antsno s); wr_chars (sta_rectype s);
                         wr_chars (sta_recver s); wr_chars (sta_recsno s) }))"

section \<open>GLONASS code-phase biases\<close>

definition cp_bias :: "double \<Rightarrow> int" where
  "cp_bias x = (let b = ROUND (x / 0.02) in if b \<le> -32768 \<or> b > 32767 then -32768 else b)"

definition encode_type1230 :: "rtcm \<Rightarrow> int \<Rightarrow> (rtcm \<times> int) option" where
  "encode_type1230 rtcm sync =
    (let s = r_sta rtcm; bias = map cp_bias (sta_glo_cp_bias s) in
     put_bits rtcm (do { wru 12 1230; wru 12 (r_staid rtcm); wru 1 (sta_glo_cp_align s); wru 3 0;
                         wru 4 15; wrs 16 (bias ! 0); wrs 16 (bias ! 1); wrs 16 (bias ! 2);
                         wrs 16 (bias ! 3) }))"

end
