(* ===== verification/Rtcm3eEph.thy ===== *)
theory Rtcm3eEph
  imports Writers Rtcm3Eph
begin

text \<open>
  Broadcast ephemerides of \<^verbatim>\<open>rtcm3e.c\<close>: messages 1019 (GPS), 1020 (GLONASS), 1041 (NavIC),
  1042 and 63 (BeiDou), 1044 (QZSS), 1045 and 1046 (Galileo F/NAV and I/NAV).  A parameter is
  divided by the weight of its field and rounded; the message of a satellite without an ephemeris
  is not encoded (status 0).
\<close>

text \<open>The macro \<open>ROUND_U(x)\<close>.\<close>

definition ROUND_U :: "double \<Rightarrow> int" where
  "ROUND_U x = \<lfloor>x + 1/2\<rfloor>"

section \<open>Common statements\<close>

definition eph_msg ::
    "int \<Rightarrow> int \<Rightarrow> (int \<Rightarrow> eph \<Rightarrow> (wstate, unit) state) \<Rightarrow> rtcm \<Rightarrow> (rtcm \<times> int) option" where
  "eph_msg sys ephset wr rtcm =
    (let (s, prn) = satsys (r_ephsat rtcm) in
     if s \<noteq> sys then Some (rtcm, 0)
     else let eph = old_eph rtcm (r_ephsat rtcm) ephset
          in if eph_sat eph \<noteq> r_ephsat rtcm then Some (rtcm, 0) else put_bits rtcm (wr prn eph))"

text \<open>The integer values of the fields, in the weights most messages have in common.\<close>

definition semi :: "double \<Rightarrow> nat \<Rightarrow> int" where
  "semi x n = ROUND (x / P2 n / SC2RAD)"

definition scaled :: "double \<Rightarrow> nat \<Rightarrow> int" where
  "scaled x n = ROUND (x / P2 n)"

definition sqrtA_field :: "eph \<Rightarrow> int" where
  "sqrtA_field eph = ROUND_U (sqrt (eph_A eph) / P2 19)"

definition e_field :: "eph \<Rightarrow> int" where
  "e_field eph = ROUND_U (eph_e eph / P2 33)"

definition toc_field :: "eph \<Rightarrow> double \<Rightarrow> int" where
  "toc_field eph unit = ROUND (fst (time2gpst (eph_toc eph)) / unit)"

section \<open>GPS\<close>

definition write_1019 :: "int \<Rightarrow> eph \<Rightarrow> (wstate, unit) state" where
  "write_1019 prn eph =
    do { wru 12 1019; wru 6 prn; wru 10 (eph_week eph smod 1024); wru 4 (eph_sva eph);
         wru 2 (eph_code eph); wrs 14 (semi (eph_idot eph) 43); wru 8 (eph_iode eph);
         wru 16 (toc_field eph 16); wrs 8 (scaled (eph_f2 eph) 55); wrs 16 (scaled (eph_f1 eph) 43);
         wrs 22 (scaled (eph_f0 eph) 31); wru 10 (eph_iodc eph); wrs 16 (scaled (eph_crs eph) 5);
         wrs 16 (semi (eph_deln eph) 43); wrs 32 (semi (eph_M0 eph) 31);
         wrs 16 (scaled (eph_cuc eph) 29); wru 32 (e_field eph); wrs 16 (scaled (eph_cus eph) 29);
         wru 32 (sqrtA_field eph); wru 16 (ROUND (eph_toes eph / 16));
         wrs 16 (scaled (eph_cic eph) 29); wrs 32 (semi (eph_OMG0 eph) 31);
         wrs 16 (scaled (eph_cis eph) 29); wrs 32 (semi (eph_i0 eph) 31);
         wrs 16 (scaled (eph_crc eph) 5); wrs 32 (semi (eph_omg eph) 31);
         wrs 24 (semi (eph_OMGd eph) 43); wrs 8 (scaled (eph_tgd eph ! 0) 31); wru 6 (eph_svh eph);
         wru 1 (eph_flag eph); wru 1 (if eph_fit eph > 0 then 0 else 1) }"

definition encode_type1019 :: "rtcm \<Rightarrow> int \<Rightarrow> (rtcm \<times> int) option" where
  "encode_type1019 rtcm sync = eph_msg SYS_GPS 0 write_1019 rtcm"

section \<open>GLONASS\<close>

definition write_1020 :: "int \<Rightarrow> geph \<Rightarrow> (wstate, unit) state" where
  "write_1020 prn geph =
    (let time = timeadd (gpst2utc (ge_tof geph)) 10800;
         ep = time2epoch time;
         tk_h = trunc (ep ! 3); tk_m = trunc (ep ! 4); tk_s = ROUND (ep ! 5 / 30);
         ep0 = [of_int \<lfloor>ep ! 0 / 4\<rfloor> * 4, 1, 1, 0, 0, 0];
         NT = \<lfloor>timediff time (epoch2time ep0) / 86400 + 1\<rfloor>;
         ep = time2epoch (timeadd (gpst2utc (ge_toe geph)) 10800);
         tb = ROUND ((ep ! 3 * 3600 + ep ! 4 * 60 + ep ! 5) / 900);
         pos = map (\<lambda>x. ROUND (x / P2 11 / 1000)) (ge_pos geph);
         vel = map (\<lambda>x. ROUND (x / P2 20 / 1000)) (ge_vel geph);
         acc = map (\<lambda>x. ROUND (x / P2 30 / 1000)) (ge_acc geph)
     in do { wru 12 1020; wru 6 prn; wru 5 (ge_frq geph + 7); wru 4 0; wru 5 tk_h; wru 6 tk_m;
             wru 1 tk_s; wru 1 (ge_svh geph); wru 1 0; wru 7 tb;
             wrg 24 (vel ! 0); wrg 27 (pos ! 0); wrg 5 (acc ! 0);
             wrg 24 (vel ! 1); wrg 27 (pos ! 1); wrg 5 (acc ! 1);
             wrg 24 (vel ! 2); wrg 27 (pos ! 2); wrg 5 (acc ! 2); wru 1 0;
             wrg 11 (scaled (ge_gamn geph) 40); wru 3 0; wrg 22 (scaled (ge_taun geph) 30);
             wrg 5 (scaled (ge_dtaun geph) 30); wru 5 (ge_age geph); wru 1 0; wru 4 0; wru 11 NT;
             wru 2 0; wru 1 0; wru 11 0; wru 32 0; wru 5 0; wru 22 0; wru 1 0; wru 7 0 })"

definition encode_type1020 :: "rtcm \<Rightarrow> int \<Rightarrow> (rtcm \<times> int) option" where
  "encode_type1020 rtcm sync =
    (let (s, prn) = satsys (r_ephsat rtcm) in
     if s \<noteq> SYS_GLO then Some (rtcm, 0)
     else let geph = nav_geph (r_nav rtcm) ! nat (prn - 1)
          in if ge_sat geph \<noteq> r_ephsat rtcm then Some (rtcm, 0) else put_bits rtcm (write_1020 prn geph))"

section \<open>NavIC\<close>

text \<open>Ten bits behind the issue of data and four at the end are skipped, not written.\<close>

definition write_1041 :: "int \<Rightarrow> eph \<Rightarrow> (wstate, unit) state" where
  "write_1041 prn eph =
    do { wru 12 1041; wru 6 prn; wru 10 (eph_week eph smod 1024); wrs 22 (scaled (eph_f0 eph) 31);
         wrs 16 (scaled (eph_f1 eph) 43); wrs 8 (scaled (eph_f2 eph) 55); wru 4 (eph_sva eph);
         wru 16 (toc_field eph 16); wrs 8 (scaled (eph_tgd eph ! 0) 31);
         wrs 22 (semi (eph_deln eph) 41); wru 8 (eph_iode eph); wrskip 10; wru 2 (eph_svh eph);
         wrs 15 (scaled (eph_cuc eph) 28); wrs 15 (scaled (eph_cus eph) 28);
         wrs 15 (scaled (eph_cic eph) 28); wrs 15 (scaled (eph_cis eph) 28);
         wrs 15 (ROUND (eph_crc eph / 0.0625)); wrs 15 (ROUND (eph_crs eph / 0.0625));
         wrs 14 (semi (eph_idot eph) 43); wrs 32 (semi (eph_M0 eph) 31);
         wru 16 (ROUND (eph_toes eph / 16)); wru 32 (e_field eph); wru 32 (sqrtA_field eph);
         wrs 32 (semi (eph_OMG0 eph) 31); wrs 32 (semi (eph_omg eph) 31);
         wrs 22 (semi (eph_OMGd eph) 41); wrs 32 (semi (eph_i0 eph) 31); wrskip 4 }"

definition encode_type1041 :: "rtcm \<Rightarrow> int \<Rightarrow> (rtcm \<times> int) option" where
  "encode_type1041 rtcm sync = eph_msg SYS_IRN 0 write_1041 rtcm"

section \<open>QZSS\<close>

definition write_1044 :: "int \<Rightarrow> eph \<Rightarrow> (wstate, unit) state" where
  "write_1044 prn eph =
    do { wru 12 1044; wru 4 (prn - 192); wru 16 (toc_field eph 16); wrs 8 (scaled (eph_f2 eph) 55);
         wrs 16 (scaled (eph_f1 eph) 43); wrs 22 (scaled (eph_f0 eph) 31); wru 8 (eph_iode eph);
         wrs 16 (scaled (eph_crs eph) 5); wrs 16 (semi (eph_deln eph) 43);
         wrs 32 (semi (eph_M0 eph) 31); wrs 16 (scaled (eph_cuc eph) 29); wru 32 (e_field eph);
         wrs 16 (scaled (eph_cus eph) 29); wru 32 (sqrtA_field eph);
         wru 16 (ROUND (eph_toes eph / 16)); wrs 16 (scaled (eph_cic eph) 29);
         wrs 32 (semi (eph_OMG0 eph) 31); wrs 16 (scaled (eph_cis eph) 29);
         wrs 32 (semi (eph_i0 eph) 31); wrs 16 (scaled (eph_crc eph) 5);
         wrs 32 (semi (eph_omg eph) 31); wrs 24 (semi (eph_OMGd eph) 43);
         wrs 14 (semi (eph_idot eph) 43); wru 2 (eph_code eph); wru 10 (eph_week eph smod 1024);
         wru 4 (eph_sva eph); wru 6 (eph_svh eph); wrs 8 (scaled (eph_tgd eph ! 0) 31);
         wru 10 (eph_iodc eph); wru 1 (if eph_fit eph = 2 then 0 else 1) }"

definition encode_type1044 :: "rtcm \<Rightarrow> int \<Rightarrow> (rtcm \<times> int) option" where
  "encode_type1044 rtcm sync = eph_msg SYS_QZS 0 write_1044 rtcm"

section \<open>Galileo\<close>

text \<open>The fields 1045 and 1046 have in common, up to the rate of the node.\<close>

definition write_gal :: "int \<Rightarrow> int \<Rightarrow> eph \<Rightarrow> (wstate, unit) state" where
  "write_gal msgno prn eph =
    do { wru 12 msgno; wru 6 prn; wru 12 ((eph_week eph - 1024) smod 4096); wru 10 (eph_iode eph);
         wru 8 (eph_sva eph); wrs 14 (semi (eph_idot eph) 43); wru 14 (toc_field eph 60);
         wrs 6 (scaled (eph_f2 eph) 59); wrs 21 (scaled (eph_f1 eph) 46);
         wrs 31 (scaled (eph_f0 eph) 34); wrs 16 (scaled (eph_crs eph) 5);
         wrs 16 (semi (eph_deln eph) 43); wrs 32 (semi (eph_M0 eph) 31);
         wrs 16 (scaled (eph_cuc eph) 29); wru 32 (e_field eph); wrs 16 (scaled (eph_cus eph) 29);
         wru 32 (sqrtA_field eph); wru 14 (ROUND (eph_toes eph / 60));
         wrs 16 (scaled (eph_cic eph) 29); wrs 32 (semi (eph_OMG0 eph) 31);
         wrs 16 (scaled (eph_cis eph) 29); wrs 32 (semi (eph_i0 eph) 31);
         wrs 16 (scaled (eph_crc eph) 5); wrs 32 (semi (eph_omg eph) 31);
         wrs 24 (semi (eph_OMGd eph) 43) }"

definition write_1045 :: "int \<Rightarrow> eph \<Rightarrow> (wstate, unit) state" where
  "write_1045 prn eph =
    (let oshs = drop_bit 4 (eph_svh eph) AND 3; osdvs = drop_bit 3 (eph_svh eph) AND 1 in
     do { write_gal 1045 prn eph; wrs 10 (scaled (eph_tgd eph ! 0) 32); wru 2 oshs; wru 1 osdvs;
          wru 7 0 })"

definition encode_type1045 :: "rtcm \<Rightarrow> int \<Rightarrow> (rtcm \<times> int) option" where
  "encode_type1045 rtcm sync = eph_msg SYS_GAL 1 write_1045 rtcm"

definition write_1046 :: "int \<Rightarrow> eph \<Rightarrow> (wstate, unit) state" where
  "write_1046 prn eph =
    (let oshs1 = drop_bit 7 (eph_svh eph) AND 3; osdvs1 = drop_bit 6 (eph_svh eph) AND 1;
         oshs2 = drop_bit 1 (eph_svh eph) AND 3; osdvs2 = drop_bit 0 (eph_svh eph) AND 1 in
     do { write_gal 1046 prn eph; wrs 10 (scaled (eph_tgd eph ! 0) 32);
          wrs 10 (scaled (eph_tgd eph ! 1) 32); wru 2 oshs1; wru 1 osdvs1; wru 2 oshs2; wru 1 osdvs2 })"

definition encode_type1046 :: "rtcm \<Rightarrow> int \<Rightarrow> (rtcm \<times> int) option" where
  "encode_type1046 rtcm sync = eph_msg SYS_GAL 0 write_1046 rtcm"

section \<open>BeiDou\<close>

text \<open>The messages 1042 and 63 differ in their number only.\<close>

definition write_bds :: "int \<Rightarrow> int \<Rightarrow> eph \<Rightarrow> (wstate, unit) state" where
  "write_bds msgno prn eph =
    (let toc = ROUND (fst (time2bdt (gpst2bdt (eph_toc eph))) / 8) in
     do { wru 12 msgno; wru 6 prn; wru 13 (eph_week eph smod 8192); wru 4 (eph_sva eph);
          wrs 14 (semi (eph_idot eph) 43); wru 5 (eph_iode eph); wru 17 toc;
          wrs 11 (scaled (eph_f2 eph) 66); wrs 22 (scaled (eph_f1 eph) 50);
          wrs 24 (scaled (eph_f0 eph) 33); wru 5 (eph_iodc eph); wrs 18 (scaled (eph_crs eph) 6);
          wrs 16 (semi (eph_deln eph) 43); wrs 32 (semi (eph_M0 eph) 31);
          wrs 18 (scaled (eph_cuc eph) 31); wru 32 (e_field eph); wrs 18 (scaled (eph_cus eph) 31);
          wru 32 (sqrtA_field eph); wru 17 (ROUND (eph_toes eph / 8));
          wrs 18 (scaled (eph_cic eph) 31); wrs 32 (semi (eph_OMG0 eph) 31);
          wrs 18 (scaled (eph_cis eph) 31); wrs 32 (semi (eph_i0 eph) 31);
          wrs 18 (scaled (eph_crc eph) 6); wrs 32 (semi (eph_omg eph) 31);
          wrs 24 (semi (eph_OMGd eph) 43); wrs 10 (ROUND (eph_tgd eph ! 0 / (1 / 10 ^ 10)));
          wrs 10 (ROUND (eph_tgd eph ! 1 / (1 / 10 ^ 10))); wru 1 (eph_svh eph) })"

definition encode_type1042 :: "rtcm \<Rightarrow> int \<Rightarrow> (rtcm \<times> int) option" where
  "encode_type1042 rtcm sync = eph_msg SYS_CMP 0 (write_bds 1042) rtcm"

definition encode_type63 :: "rtcm \<Rightarrow> int \<Rightarrow> (rtcm \<times> int) option" where
  "encode_type63 rtcm sync = eph_msg SYS_CMP 0 (write_bds 63) rtcm"

end
