(* ===== verification/Rtcm3eSsr.thy ===== *)
theory Rtcm3eSsr
  imports Writers Rtcm3Ssr
begin

text \<open>
  State space representation of \<^verbatim>\<open>rtcm3e.c\<close>: the header and the seven SSR messages in
  their RTCM form (\<open>subtype = 0\<close>) and IGS form (\<open>subtype > 0\<close>).  The switches on the
  system and the update intervals are those of the decoder (\<open>ssr_layout\<close>, \<open>ssrudint\<close>);
  the signal tables are the encoder's own.
\<close>

section \<open>Tables\<close>

definition codes_gps :: "nat list" where
  "codes_gps =
    [CODE_L1C,CODE_L1P,CODE_L1W,CODE_L1S,CODE_L1L,CODE_L2C,CODE_L2D,CODE_L2S,
     CODE_L2L,CODE_L2X,CODE_L2P,CODE_L2W,       0,       0,CODE_L5I,CODE_L5Q] @ replicate 16 0"

definition codes_glo :: "nat list" where
  "codes_glo =
    [CODE_L1C,CODE_L1P,CODE_L2C,CODE_L2P,CODE_L4A,CODE_L4B,CODE_L6A,CODE_L6B,
     CODE_L3I,CODE_L3Q] @ replicate 22 0"

definition codes_gal :: "nat list" where
  "codes_gal =
    [CODE_L1A,CODE_L1B,CODE_L1C,       0,       0,CODE_L5I,CODE_L5Q,       0,
     CODE_L7I,CODE_L7Q,       0,CODE_L8I,CODE_L8Q,       0,CODE_L6A,CODE_L6B,
     CODE_L6C] @ replicate 15 0"

definition codes_qzs :: "nat list" where
  "codes_qzs =
    [CODE_L1C,CODE_L1S,CODE_L1L,CODE_L2S,CODE_L2L,       0,CODE_L5I,CODE_L5Q,
            0,CODE_L6S,CODE_L6L,       0,       0,       0,       0,       0,
            0,CODE_L6E] @ replicate 14 0"

definition codes_bds :: "nat list" where
  "codes_bds =
    [CODE_L2I,CODE_L2Q,       0,CODE_L6I,CODE_L6Q,       0,CODE_L7I,CODE_L7Q,
            0,CODE_L1D,CODE_L1P,       0,CODE_L5D,CODE_L5P,       0,CODE_L1A,
            0,       0,CODE_L6A] @ replicate 13 0"

definition codes_sbs :: "nat list" where
  "codes_sbs = [CODE_L1C,CODE_L5I,CODE_L5Q] @ replicate 29 0"

definition ssr_codes :: "int \<Rightarrow> nat list" where
  "ssr_codes sys =
    (if sys = SYS_GPS then codes_gps else if sys = SYS_GLO then codes_glo
     else if sys = SYS_GAL then codes_gal else if sys = SYS_QZS then codes_qzs
     else if sys = SYS_CMP then codes_bds else codes_sbs)"

section \<open>Header\<close>

text \<open>
  The number of a message of the RTCM form, 0 where there is none.  The header of such a message is
  not written, and the position returned is 0, which the encoders do not check.
\<close>

definition ssr_msgno :: "int \<Rightarrow> int \<Rightarrow> int" where
  "ssr_msgno type sys =
    (if sys = SYS_GPS then (if type = 7 then 11 else 1056 + type)
     else if sys = SYS_GLO then (if type = 7 then 0 else 1062 + type)
     else if sys = SYS_GAL then (if type = 7 then 12 else 1239 + type)
     else if sys = SYS_QZS then (if type = 7 then 13 else 1245 + type)
     else if sys = SYS_CMP then (if type = 7 then 14 else 1257 + type)
     else if sys = SYS_SBS then (if type = 7 then 0 else 1251 + type)
     else 0)"

definition wr_restart :: "(wstate, unit) state" where
  "wr_restart = State (\<lambda>(b, i). ((), (b, 0)))"

definition udi_index :: "double \<Rightarrow> int" where
  "udi_index udint = int (length (takeWhile (\<lambda>u. u < udint) (take 15 ssrudint)))"

definition encode_ssr_head ::
    "int \<Rightarrow> rtcm \<Rightarrow> int \<Rightarrow> int \<Rightarrow> int \<Rightarrow> int \<Rightarrow> int \<Rightarrow> double \<Rightarrow> int \<Rightarrow> int \<Rightarrow> int \<Rightarrow> (wstate, unit) state" where
  "encode_ssr_head type rtcm sys subtype nsat sync iod udint refd provid solid =
    (let msgno = ssr_msgno type sys;
         ns = (if subtype = 0 \<and> sys = SYS_QZS then 4 else 6);
         tow = fst (time2gpst (r_time rtcm));
         epoch = wru 20 (ROUND tow smod 604800);
         start =
           (if subtype = 0
            then do { wru 12 msgno;
                      (if sys = SYS_GLO
                       then wru 17 (ROUND (fst (time2gpst (timeadd (gpst2utc (r_time rtcm)) 10800))) smod 86400)
                       else epoch) }
            else do { wru 12 4076; wru 3 1; wru 8 subtype; epoch });
         nothing = State_Monad.return ()
     in if subtype = 0 \<and> msgno = 0 then wr_restart
        else do { start; wru 4 (udi_index udint); wru 1 sync;
                  (if subtype = 0 \<and> (type = 1 \<or> type = 4) then wru 1 refd else nothing);
                  wru 4 iod; wru 16 provid; wru 4 solid;
                  (if subtype > 0 \<and> (type = 1 \<or> type = 4) then wru 1 refd else nothing);
                  (if type = 7 then do { wru 1 0; wru 1 0 } else nothing);
                  wru ns nsat })"

section \<open>Bodies\<close>

text \<open>
  The satellites of a message; the interval, the issue of data and the datum in the header are those
  of the last one.
\<close>

definition get_ssr :: "rtcm \<Rightarrow> int \<Rightarrow> ssr" where
  "get_ssr rtcm sat = r_ssr rtcm ! nat (sat - 1)"

definition ssr_sats :: "rtcm \<Rightarrow> int \<Rightarrow> int list" where
  "ssr_sats rtcm sys =
    filter (\<lambda>sat. fst (satsys sat) = sys \<and> ssr_update (get_ssr rtcm sat) \<noteq> 0) (map int [1..<222])"

definition last_ssr :: "rtcm \<Rightarrow> int \<Rightarrow> (ssr \<Rightarrow> 'a) \<Rightarrow> 'a \<Rightarrow> 'a" where
  "last_ssr rtcm sys f z =
    (let sats = ssr_sats rtcm sys in if sats = [] then z else f (get_ssr rtcm (last sats)))"

text \<open>
  What the seven encoders have in common: the head of type \<open>type\<close> with the interval and issue
  of data number \<open>k\<close>, and the record of every satellite.
\<close>

definition ssr_msg ::
    "int \<Rightarrow> nat \<Rightarrow> (ssr \<Rightarrow> int) \<Rightarrow> (int \<Rightarrow> ssr \<Rightarrow> (wstate, unit) state) \<Rightarrow>
     rtcm \<Rightarrow> int \<Rightarrow> int \<Rightarrow> int \<Rightarrow> (rtcm \<times> int) option" where
  "ssr_msg type k refd rec rtcm sys subtype sync =
    (let sats = ssr_sats rtcm sys;
         head = encode_ssr_head type rtcm sys subtype (int (length sats)) sync
                  (last_ssr rtcm sys (\<lambda>s. ssr_iod s ! k) 0) (last_ssr rtcm sys (\<lambda>s. ssr_udi s ! k) 0)
                  (last_ssr rtcm sys refd 0) 0 0
     in put_bits rtcm (do { head;
          wr_seq (map (\<lambda>sat. rec (snd (satsys sat)) (get_ssr rtcm sat)) sats) }))"

definition wr_orbit :: "ssr \<Rightarrow> (wstate, unit) state" where
  "wr_orbit s = do {
     wrs 22 (ROUND (ssr_deph s ! 0 / 0.0001)); wrs 20 (ROUND (ssr_deph s ! 1 / 0.0004));
     wrs 20 (ROUND (ssr_deph s ! 2 / 0.0004)); wrs 21 (ROUND (ssr_ddeph s ! 0 / 0.000001));
     wrs 19 (ROUND (ssr_ddeph s ! 1 / 0.000004)); wrs 19 (ROUND (ssr_ddeph s ! 2 / 0.000004)) }"

definition wr_clock :: "ssr \<Rightarrow> (wstate, unit) state" where
  "wr_clock s = do {
     wrs 22 (ROUND (ssr_dclk s ! 0 / 0.0001)); wrs 21 (ROUND (ssr_dclk s ! 1 / 0.000001));
     wrs 27 (ROUND (ssr_dclk s ! 2 / 0.00000002)) }"

definition ssr1_rec :: "nat \<Rightarrow> nat \<Rightarrow> nat \<Rightarrow> int \<Rightarrow> int \<Rightarrow> int \<Rightarrow> ssr \<Rightarrow> (wstate, unit) state" where
  "ssr1_rec np ni nj offp subtype prn s =
    do { wru np (prn - offp); wru ni (if subtype > 0 then ssr_iode s AND 0xFF else ssr_iode s);
         wru nj (ssr_iodcrc s); wr_orbit s }"

definition encode_ssr1 :: "rtcm \<Rightarrow> int \<Rightarrow> int \<Rightarrow> int \<Rightarrow> (rtcm \<times> int) option" where
  "encode_ssr1 rtcm sys subtype sync =
    (case ssr_layout sys subtype of None \<Rightarrow> Some (rtcm, 0)
     | Some (np, ni, nj, offp) \<Rightarrow>
        ssr_msg 1 0 ssr_refd (ssr1_rec np ni nj offp subtype) rtcm sys subtype sync)"

definition encode_ssr2 :: "rtcm \<Rightarrow> int \<Rightarrow> int \<Rightarrow> int \<Rightarrow> (rtcm \<times> int) option" where
  "encode_ssr2 rtcm sys subtype sync =
    (case ssr_layout sys subtype of None \<Rightarrow> Some (rtcm, 0)
     | Some (np, ni, nj, offp) \<Rightarrow>
        ssr_msg 2 1 (\<lambda>s. 0) (\<lambda>prn s. do { wru np (prn - offp); wr_clock s }) rtcm sys subtype sync)"

definition bias_codes :: "nat list \<Rightarrow> double list \<Rightarrow> nat list" where
  "bias_codes codes bias = filter (\<lambda>k. codes ! k \<noteq> 0 \<and> bias ! (codes ! k - 1) \<noteq> 0) [0..<32]"

definition ssr3_rec :: "nat \<Rightarrow> int \<Rightarrow> nat list \<Rightarrow> int \<Rightarrow> ssr \<Rightarrow> (wstate, unit) state" where
  "ssr3_rec np offp codes prn s =
    (let ks = bias_codes codes (ssr_cbias s) in
     do { wru np (prn - offp); wru 5 (int (length ks));
          wr_seq (map (\<lambda>k. do { wru 5 (int k); wrs 14 (ROUND (ssr_cbias s ! (codes ! k - 1) / 0.01)) }) ks) })"

definition encode_ssr3 :: "rtcm \<Rightarrow> int \<Rightarrow> int \<Rightarrow> int \<Rightarrow> (rtcm \<times> int) option" where
  "encode_ssr3 rtcm sys subtype sync =
    (case ssr_layout sys subtype of None \<Rightarrow> Some (rtcm, 0)
     | Some (np, ni, nj, offp) \<Rightarrow>
        ssr_msg 3 4 (\<lambda>s. 0) (ssr3_rec np offp (ssr_codes sys)) rtcm sys subtype sync)"

definition encode_ssr4 :: "rtcm \<Rightarrow> int \<Rightarrow> int \<Rightarrow> int \<Rightarrow> (rtcm \<times> int) option" where
  "encode_ssr4 rtcm sys subtype sync =
    (case ssr_layout sys subtype of None \<Rightarrow> Some (rtcm, 0)
     | Some (np, ni, nj, offp) \<Rightarrow>
        ssr_msg 4 0 ssr_refd (\<lambda>prn s. do { ssr1_rec np ni nj offp subtype prn s; wr_clock s })
          rtcm sys subtype sync)"

definition encode_ssr5 :: "rtcm \<Rightarrow> int \<Rightarrow> int \<Rightarrow> int \<Rightarrow> (rtcm \<times> int) option" where
  "encode_ssr5 rtcm sys subtype sync =
    (case ssr_layout sys subtype of None \<Rightarrow> Some (rtcm, 0)
     | Some (np, ni, nj, offp) \<Rightarrow>
        ssr_msg 5 3 (\<lambda>s. 0) (\<lambda>prn s. do { wru np (prn - offp); wru 6 (ssr_ura s) })
          rtcm sys subtype sync)"

definition encode_ssr6 :: "rtcm \<Rightarrow> int \<Rightarrow> int \<Rightarrow> int \<Rightarrow> (rtcm \<times> int) option" where
  "encode_ssr6 rtcm sys subtype sync =
    (case ssr_layout sys subtype of None \<Rightarrow> Some (rtcm, 0)
     | Some (np, ni, nj, offp) \<Rightarrow>
        ssr_msg 6 2 (\<lambda>s. 0) (\<lambda>prn s. do { wru np (prn - offp); wrs 22 (ROUND (ssr_hrclk s / 0.0001)) })
          rtcm sys subtype sync)"

definition ssr7_rec :: "nat \<Rightarrow> int \<Rightarrow> nat list \<Rightarrow> int \<Rightarrow> int \<Rightarrow> ssr \<Rightarrow> (wstate, unit) state" where
  "ssr7_rec np offp codes subtype prn s =
    (let ks = bias_codes codes (ssr_pbias s) in
     do { wru np (prn - offp); wru 5 (int (length ks)); wru 9 (ROUND (ssr_yaw_ang s / 180 * 256));
          wrs 8 (ROUND (ssr_yaw_rate s / 180 * 8192));
          wr_seq (map (\<lambda>k. do { wru 5 (int k); wru 1 0; wru 2 0; wru 4 0;
                                wrs 20 (ROUND (ssr_pbias s ! (codes ! k - 1) / 0.0001));
                                (if subtype = 0 then wrs 17 (ROUND (ssr_stdpb s ! (codes ! k - 1) / 0.0001))
                                 else State_Monad.return ()) }) ks) })"

definition encode_ssr7 :: "rtcm \<Rightarrow> int \<Rightarrow> int \<Rightarrow> int \<Rightarrow> (rtcm \<times> int) option" where
  "encode_ssr7 rtcm sys subtype sync =
    (case ssr_layout sys subtype of None \<Rightarrow> Some (rtcm, 0)
     | Some (np, ni, nj, offp) \<Rightarrow>
        ssr_msg 7 5 (\<lambda>s. 0) (ssr7_rec np offp (ssr_codes sys) subtype) rtcm sys subtype sync)"

end
