(* ===== verification/Rtcm3eMsm.thy ===== *)
theory Rtcm3eMsm
  imports Rtcm3eObs Rtcm3Msm
begin

text \<open>
  Multiple signal messages of \<^verbatim>\<open>rtcm3e.c\<close>: satellite, signal and cell index, the data of
  satellites and cells, the header and the messages MSM1 to MSM7 of every system.  The arrays of lock
  times, half-cycle flags and signal strengths are not initialised by the code: an entry that is not
  set is None, and an encoder that would send it returns None.
\<close>

section \<open>Satellite and signal ids\<close>

definition to_satid :: "int \<Rightarrow> int \<Rightarrow> nat" where
  "to_satid sys sat =
    (let (s, prn) = satsys sat in
     if s \<noteq> sys then 0
     else nat (if sys = SYS_QZS then prn - (MINPRNQZS - 1)
               else if sys = SYS_SBS then prn - (MINPRNSBS - 1) else prn))"

definition msm_table :: "int \<Rightarrow> string list option" where
  "msm_table sys =
    (if sys = SYS_GPS then Some msm_sig_gps else if sys = SYS_GLO then Some msm_sig_glo
     else if sys = SYS_GAL then Some msm_sig_gal else if sys = SYS_QZS then Some msm_sig_qzs
     else if sys = SYS_SBS then Some msm_sig_sbs else if sys = SYS_CMP then Some msm_sig_cmp
     else if sys = SYS_IRN then Some msm_sig_irn else None)"

text \<open>The number of the first entry that is the signal, from 1, 0 where there is none.\<close>

fun sig_pos :: "string list \<Rightarrow> string \<Rightarrow> nat \<Rightarrow> nat" where
  "sig_pos [] s i = 0"
| "sig_pos (t # ts) s i = (if t = s then i else sig_pos ts s (i + 1))"

definition rtcm_code :: "nat \<Rightarrow> nat" where
  "rtcm_code code =
    (if code = CODE_L1Y \<or> code = CODE_L1M \<or> code = CODE_L1N then CODE_L1P
     else if code = CODE_L2D \<or> code = CODE_L2Y \<or> code = CODE_L2M \<or> code = CODE_L2N then CODE_L2P
     else code)"

definition to_sigid :: "int \<Rightarrow> nat \<Rightarrow> nat" where
  "to_sigid sys code =
    (let sig = code2obs (if sys = SYS_GPS then rtcm_code code else code) in
     if sig = '''' then 0
     else case msm_table sys of None \<Rightarrow> 0 | Some ts \<Rightarrow> sig_pos ts sig 1)"

section \<open>Index\<close>

text \<open>
  The double loop over observations and signals that three functions of the code have: the
  observation, the index of the signal in it, the satellite id and the signal id.
\<close>

type_synonym visit = "obsd \<times> nat \<times> nat \<times> nat"

definition msm_visits :: "rtcm \<Rightarrow> int \<Rightarrow> visit list" where
  "msm_visits rtcm sys =
    concat (map (\<lambda>d.
      let sat = to_satid sys (ob_sat d) in
      if sat = 0 then []
      else map (\<lambda>j. (d, j, sat, to_sigid sys (ob_code d ! j)))
             (filter (\<lambda>j. to_sigid sys (ob_code d ! j) \<noteq> 0) [0..<NOBS]))
      (take (r_obs_n rtcm) (r_obs rtcm)))"

text \<open>The entries that are set are numbered from 1, up to a limit; the others stay.\<close>

fun number :: "nat \<Rightarrow> nat list \<Rightarrow> nat \<Rightarrow> nat list \<times> nat" where
  "number mx [] n = ([], n)"
| "number mx (x # xs) n =
     (if x \<noteq> 0 \<and> n < mx then let (ys, m) = number mx xs (n + 1) in ((n + 1) # ys, m)
      else let (ys, m) = number mx xs n in (x # ys, m))"

record msm_index =
  mi_nsat :: nat
  mi_nsig :: nat
  mi_ncell :: nat
  mi_sat :: "nat list"
  mi_sig :: "nat list"
  mi_cell :: "nat list"

definition cell_pos :: "nat list \<Rightarrow> nat list \<Rightarrow> nat \<Rightarrow> nat \<Rightarrow> nat \<Rightarrow> nat" where
  "cell_pos sat_ind sig_ind nsig sat sig = sig_ind ! (sig - 1) - 1 + (sat_ind ! (sat - 1) - 1) * nsig"

text \<open>Satellites and signals are fewer than their limits, the sizes of the arrays.\<close>

definition gen_msm_index :: "rtcm \<Rightarrow> int \<Rightarrow> msm_index" where
  "gen_msm_index rtcm sys =
    (let vs = msm_visits rtcm sys;
         (sat_ind, nsat) = number 64 (fold (\<lambda>(d, j, sat, sig) s. s[sat - 1 := 1]) vs (replicate 64 0)) 0;
         (sig_ind, nsig) = number 32 (fold (\<lambda>(d, j, sat, sig) s. s[sig - 1 := 1]) vs (replicate 32 0)) 0;
         marked = fold (\<lambda>(d, j, sat, sig) c. c[cell_pos sat_ind sig_ind nsig sat sig := 1]) vs
                    (replicate (32 * 64) 0);
         (cells, ncell) = number 64 (take (nsat * nsig) marked) 0
     in \<lparr>mi_nsat = nsat, mi_nsig = nsig, mi_ncell = ncell, mi_sat = sat_ind, mi_sig = sig_ind,
         mi_cell = cells @ drop (nsat * nsig) marked\<rparr>)"

section \<open>Satellite data\<close>

record msm_sat =
  ms_rrng :: "double list"
  ms_rrate :: "double list"
  ms_info :: "int list"

definition gen_msm_sat1 :: "rtcm \<Rightarrow> int \<Rightarrow> nat list \<Rightarrow> visit \<Rightarrow> msm_sat \<Rightarrow> msm_sat" where
  "gen_msm_sat1 rtcm sys sat_ind v ms =
    (let (d, j, sat, sig) = v;
         fcn = fcn_glo (ob_sat d) rtcm;
         k = sat_ind ! (sat - 1) - 1;
         freq = code2freq sys (ob_code d ! j) (fcn - 7);
         P = ob_P d ! j; D = ob_D d ! j
     in ms\<lparr>ms_rrng := (if ms_rrng ms ! k = 0 \<and> P \<noteq> 0
                        then (ms_rrng ms)[k := of_int (ROUND (P / RANGE_MS / P2 10)) * RANGE_MS * P2 10]
                        else ms_rrng ms),
          ms_rrate := (if ms_rrate ms ! k = 0 \<and> D \<noteq> 0 \<and> freq > 0
                       then (ms_rrate ms)[k := of_int (ROUND (- D * CLIGHT / freq)) * 1]
                       else ms_rrate ms),
          ms_info := (ms_info ms)[k := (if sys \<noteq> SYS_GLO then 0 else if fcn < 0 then 15 else fcn) mod 256]\<rparr>)"

definition gen_msm_sat :: "rtcm \<Rightarrow> int \<Rightarrow> nat list \<Rightarrow> msm_sat" where
  "gen_msm_sat rtcm sys sat_ind =
    fold (gen_msm_sat1 rtcm sys sat_ind) (msm_visits rtcm sys)
      \<lparr>ms_rrng = replicate 64 0, ms_rrate = replicate 64 0, ms_info = replicate 64 0\<rparr>"

section \<open>Signal data\<close>

record msm_cells =
  mc_psrng :: "double list"
  mc_phrng :: "double list"
  mc_rate :: "double list"
  mc_lock :: "double option list"
  mc_half :: "int option list"
  mc_cnr :: "double option list"

definition cells0 :: msm_cells where
  "cells0 = \<lparr>mc_psrng = replicate 64 0, mc_phrng = replicate 64 0, mc_rate = replicate 64 0,
     mc_lock = replicate 64 None, mc_half = replicate 64 None, mc_cnr = replicate 64 None\<rparr>"

text \<open>
  One signal.  The cell index is that of the index array, from 1.  Where the frequency is unknown
  the wavelength is 0 and the code computes \<open>ROUND(0/0)*0\<close>, which is 0 whatever the conversion of
  the undefined quotient gives.
\<close>

definition gen_msm_sig1 ::
    "int \<Rightarrow> msm_index \<Rightarrow> double list \<Rightarrow> double list \<Rightarrow> visit \<Rightarrow> rtcm \<times> msm_cells \<Rightarrow> rtcm \<times> msm_cells" where
  "gen_msm_sig1 sys mi rrng rrate v = (\<lambda>(rtcm, mc).
    let (d, j, sat, sig) = v;
        fcn = fcn_glo (ob_sat d) rtcm;
        k = mi_sat mi ! (sat - 1) - 1;
        cell = mi_cell mi ! (mi_sig mi ! (sig - 1) - 1 + k * mi_nsig mi)
    in if cell \<ge> 64 then (rtcm, mc)
       else let freq = code2freq sys (ob_code d ! j) (fcn - 7);
                lambda = (if freq = 0 then 0 else CLIGHT / freq);
                P = ob_P d ! j; L = ob_L d ! j; D = ob_D d ! j;
                psrng_s = (if P = 0 then 0 else P - rrng ! k);
                phrng_s = (if L = 0 \<or> lambda \<le> 0 then 0 else L * lambda - rrng ! k);
                rate_s = (if D = 0 \<or> lambda \<le> 0 then 0 else - D * lambda - rrate ! k);
                LLI = ob_LLI d ! j; s = nat (ob_sat d - 1);
                slip = (LLI AND 1 \<noteq> 0 \<or> \<bar>phrng_s - r_cp rtcm ! s ! j\<bar> > 1171);
                cp = (if slip then of_int (ROUND (phrng_s / lambda)) * lambda else r_cp rtcm ! s ! j);
                phrng_s = phrng_s - cp;
                (lltime, lt) = locktime_d (ob_time d) (get_lltime rtcm (ob_sat d) j)
                                 (if slip then LLI OR 1 else LLI);
                rtcm = set_lltime (rtcm\<lparr>r_cp := upd2 (r_cp rtcm) s j cp\<rparr>) (ob_sat d) j lltime
            in (rtcm, mc\<lparr>
                 mc_psrng := (if psrng_s \<noteq> 0 then (mc_psrng mc)[cell - 1 := psrng_s] else mc_psrng mc),
                 mc_phrng := (if phrng_s \<noteq> 0 then (mc_phrng mc)[cell - 1 := phrng_s] else mc_phrng mc),
                 mc_rate := (if rate_s \<noteq> 0 then (mc_rate mc)[cell - 1 := rate_s] else mc_rate mc),
                 mc_lock := (mc_lock mc)[cell - 1 := Some lt],
                 mc_half := (mc_half mc)[cell - 1 := Some (if LLI AND 2 \<noteq> 0 then 1 else 0)],
                 mc_cnr := (mc_cnr mc)[cell - 1 := Some (of_int (ob_SNR d ! j) * SNR_UNIT)]\<rparr>))"

definition gen_msm_sig ::
    "rtcm \<Rightarrow> int \<Rightarrow> msm_index \<Rightarrow> double list \<Rightarrow> double list \<Rightarrow> rtcm \<times> msm_cells" where
  "gen_msm_sig rtcm sys mi rrng rrate =
    fold (gen_msm_sig1 sys mi rrng rrate) (msm_visits rtcm sys) (rtcm, cells0)"

section \<open>Header\<close>

definition msm_base :: "int \<Rightarrow> int option" where
  "msm_base sys =
    (if sys = SYS_GPS then Some 1070 else if sys = SYS_GLO then Some 1080
     else if sys = SYS_GAL then Some 1090 else if sys = SYS_QZS then Some 1110
     else if sys = SYS_SBS then Some 1100 else if sys = SYS_CMP then Some 1120
     else if sys = SYS_IRN then Some 1130 else None)"

definition msm_epoch :: "rtcm \<Rightarrow> int \<Rightarrow> int" where
  "msm_epoch rtcm sys =
    (if sys = SYS_GLO
     then let tow = fst (time2gpst (timeadd (gpst2utc (r_time rtcm)) 10800));
              dow = trunc (tow / 86400)
          in dow * 2 ^ 27 + ROUND (fmod tow 86400 * 1000)
     else if sys = SYS_CMP then ROUND (fst (time2gpst (gpst2bdt (r_time rtcm))) * 1000)
     else ROUND (fst (time2gpst (r_time rtcm)) * 1000))"

definition wr_mask :: "nat list \<Rightarrow> (wstate, unit) state" where
  "wr_mask xs = wr_seq (map (\<lambda>x. wru 1 (if x \<noteq> 0 then 1 else 0)) xs)"

definition encode_msm_head ::
    "int \<Rightarrow> rtcm \<Rightarrow> int \<Rightarrow> int \<Rightarrow> (rtcm \<times> msm_index \<times> msm_sat \<times> msm_cells \<times> (wstate, unit) state) option"
  where
  "encode_msm_head type rtcm sys sync =
    (case msm_base sys of None \<Rightarrow> None
     | Some base \<Rightarrow>
        (let mi = gen_msm_index rtcm sys;
             ms = gen_msm_sat rtcm sys (mi_sat mi);
             (rtcm', mc) = gen_msm_sig rtcm sys mi (ms_rrng ms) (ms_rrate ms)
         in Some (rtcm', mi, ms, mc,
              do { wru 12 (type + base); wru 12 (r_staid rtcm); wru 30 (msm_epoch rtcm sys); wru 1 sync;
                   wru 3 (r_seqno rtcm); wru 7 0; wru 2 0; wru 2 0; wru 1 0; wru 3 0;
                   wr_mask (mi_sat mi); wr_mask (mi_sig mi);
                   wr_mask (take (min (mi_nsat mi * mi_nsig mi) 64) (mi_cell mi)) })))"

section \<open>Fields\<close>

definition encode_msm_int_rrng :: "double list \<Rightarrow> nat \<Rightarrow> (wstate, unit) state" where
  "encode_msm_int_rrng rrng nsat =
    wr_seq (map (\<lambda>r. wru 8 (if r = 0 then 255
                            else if r < 0 \<or> r > RANGE_MS * 255 then 255
                            else ROUND (r / RANGE_MS / P2 10) div 1024)) (take nsat rrng))"

definition encode_msm_mod_rrng :: "double list \<Rightarrow> nat \<Rightarrow> (wstate, unit) state" where
  "encode_msm_mod_rrng rrng nsat =
    wr_seq (map (\<lambda>r. wru 10 (if r \<le> 0 \<or> r > RANGE_MS * 255 then 0
                             else ROUND (r / RANGE_MS / P2 10) AND 0x3FF)) (take nsat rrng))"

definition encode_msm_info :: "int list \<Rightarrow> nat \<Rightarrow> (wstate, unit) state" where
  "encode_msm_info info nsat = wr_seq (map (wru 4) (take nsat info))"

definition encode_msm_rrate :: "double list \<Rightarrow> nat \<Rightarrow> (wstate, unit) state" where
  "encode_msm_rrate rrate nsat =
    wr_seq (map (\<lambda>r. wrs 14 (if \<bar>r\<bar> > 8191 then -8192 else ROUND (r / 1))) (take nsat rrate))"

text \<open>A fine value: invalid for 0 and outside its range, else rounded.\<close>

definition fine_field :: "int \<Rightarrow> double \<Rightarrow> double \<Rightarrow> double \<Rightarrow> int" where
  "fine_field invalid bound unit x =
    (if x = 0 then invalid else if \<bar>x\<bar> > bound then invalid else ROUND (x / unit))"

definition encode_msm_psrng :: "double list \<Rightarrow> nat \<Rightarrow> (wstate, unit) state" where
  "encode_msm_psrng psrng ncell =
    wr_seq (map (\<lambda>x. wrs 15 (fine_field (-16384) 292.7 (RANGE_MS * P2 24) x)) (take ncell psrng))"

definition encode_msm_psrng_ex :: "double list \<Rightarrow> nat \<Rightarrow> (wstate, unit) state" where
  "encode_msm_psrng_ex psrng ncell =
    wr_seq (map (\<lambda>x. wrs 20 (fine_field (-524288) 292.7 (RANGE_MS * P2 29) x)) (take ncell psrng))"

definition encode_msm_phrng :: "double list \<Rightarrow> nat \<Rightarrow> (wstate, unit) state" where
  "encode_msm_phrng phrng ncell =
    wr_seq (map (\<lambda>x. wrs 22 (fine_field (-2097152) 1171 (RANGE_MS * P2 29) x)) (take ncell phrng))"

definition encode_msm_phrng_ex :: "double list \<Rightarrow> nat \<Rightarrow> (wstate, unit) state" where
  "encode_msm_phrng_ex phrng ncell =
    wr_seq (map (\<lambda>x. wrs 24 (fine_field (-8388608) 1171 (RANGE_MS * P2 31) x)) (take ncell phrng))"

definition encode_msm_lock :: "double list \<Rightarrow> (wstate, unit) state" where
  "encode_msm_lock lock = wr_seq (map (\<lambda>x. wru 4 (to_msm_lock x)) lock)"

definition encode_msm_lock_ex :: "double list \<Rightarrow> (wstate, unit) state" where
  "encode_msm_lock_ex lock = wr_seq (map (\<lambda>x. wru 10 (to_msm_lock_ex x)) lock)"

definition encode_msm_half_amb :: "int list \<Rightarrow> (wstate, unit) state" where
  "encode_msm_half_amb half = wr_seq (map (wru 1) half)"

definition encode_msm_cnr :: "double list \<Rightarrow> (wstate, unit) state" where
  "encode_msm_cnr cnr = wr_seq (map (\<lambda>x. wru 6 (ROUND (x / 1))) cnr)"

definition encode_msm_cnr_ex :: "double list \<Rightarrow> (wstate, unit) state" where
  "encode_msm_cnr_ex cnr = wr_seq (map (\<lambda>x. wru 10 (ROUND (x / 0.0625))) cnr)"

definition encode_msm_rate :: "double list \<Rightarrow> nat \<Rightarrow> (wstate, unit) state" where
  "encode_msm_rate rate ncell =
    wr_seq (map (\<lambda>x. wru 15 (fine_field (-16384) 1.6384 0.0001 x)) (take ncell rate))"

section \<open>Messages\<close>

text \<open>The entries of an array a message sends; None where one of them is not initialised.\<close>

definition sent :: "nat \<Rightarrow> 'a option list \<Rightarrow> 'a list option" where
  "sent n xs = those (take n xs)"

definition encode_msm1 :: "rtcm \<Rightarrow> int \<Rightarrow> int \<Rightarrow> (rtcm \<times> int) option" where
  "encode_msm1 rtcm sys sync =
    (case encode_msm_head 1 rtcm sys sync of None \<Rightarrow> Some (rtcm, 0)
     | Some (rtcm, mi, ms, mc, head) \<Rightarrow>
        put_bits rtcm (do { head; encode_msm_mod_rrng (ms_rrng ms) (mi_nsat mi);
                            encode_msm_psrng (mc_psrng mc) (mi_ncell mi) }))"

definition encode_msm2 :: "rtcm \<Rightarrow> int \<Rightarrow> int \<Rightarrow> (rtcm \<times> int) option" where
  "encode_msm2 rtcm sys sync =
    (case encode_msm_head 2 rtcm sys sync of None \<Rightarrow> Some (rtcm, 0)
     | Some (rtcm, mi, ms, mc, head) \<Rightarrow>
        do { lock \<leftarrow> sent (mi_ncell mi) (mc_lock mc); half \<leftarrow> sent (mi_ncell mi) (mc_half mc);
             put_bits rtcm (do { head; encode_msm_mod_rrng (ms_rrng ms) (mi_nsat mi);
                                 encode_msm_phrng (mc_phrng mc) (mi_ncell mi);
                                 encode_msm_lock lock; encode_msm_half_amb half }) })"

definition encode_msm3 :: "rtcm \<Rightarrow> int \<Rightarrow> int \<Rightarrow> (rtcm \<times> int) option" where
  "encode_msm3 rtcm sys sync =
    (case encode_msm_head 3 rtcm sys sync of None \<Rightarrow> Some (rtcm, 0)
     | Some (rtcm, mi, ms, mc, head) \<Rightarrow>
        do { lock \<leftarrow> sent (mi_ncell mi) (mc_lock mc); half \<leftarrow> sent (mi_ncell mi) (mc_half mc);
             put_bits rtcm (do { head; encode_msm_mod_rrng (ms_rrng ms) (mi_nsat mi);
                                 encode_msm_psrng (mc_psrng mc) (mi_ncell mi);
                                 encode_msm_phrng (mc_phrng mc) (mi_ncell mi);
                                 encode_msm_lock lock; encode_msm_half_amb half }) })"

definition encode_msm4 :: "rtcm \<Rightarrow> int \<Rightarrow> int \<Rightarrow> (rtcm \<times> int) option" where
  "encode_msm4 rtcm sys sync =
    (case encode_msm_head 4 rtcm sys sync of None \<Rightarrow> Some (rtcm, 0)
     | Some (rtcm, mi, ms, mc, head) \<Rightarrow>
        do { lock \<leftarrow> sent (mi_ncell mi) (mc_lock mc); half \<leftarrow> sent (mi_ncell mi) (mc_half mc);
             cnr \<leftarrow> sent (mi_ncell mi) (mc_cnr mc);
             put_bits rtcm (do { head; encode_msm_int_rrng (ms_rrng ms) (mi_nsat mi);
                                 encode_msm_mod_rrng (ms_rrng ms) (mi_nsat mi);
                                 encode_msm_psrng (mc_psrng mc) (mi_ncell mi);
                                 encode_msm_phrng (mc_phrng mc) (mi_ncell mi);
                                 encode_msm_lock lock; encode_msm_half_amb half; encode_msm_cnr cnr }) })"

definition encode_msm5 :: "rtcm \<Rightarrow> int \<Rightarrow> int \<Rightarrow> (rtcm \<times> int) option" where
  "encode_msm5 rtcm sys sync =
    (case encode_msm_head 5 rtcm sys sync of None \<Rightarrow> Some (rtcm, 0)
     | Some (rtcm, mi, ms, mc, head) \<Rightarrow>
        do { lock \<leftarrow> sent (mi_ncell mi) (mc_lock mc); half \<leftarrow> sent (mi_ncell mi) (mc_half mc);
             cnr \<leftarrow> sent (mi_ncell mi) (mc_cnr mc);
             put_bits rtcm (do { head; encode_msm_int_rrng (ms_rrng ms) (mi_nsat mi);
                                 encode_msm_info (ms_info ms) (mi_nsat mi);
                                 encode_msm_mod_rrng (ms_rrng ms) (mi_nsat mi);
                                 encode_msm_rrate (ms_rrate ms) (mi_nsat mi);
                                 encode_msm_psrng (mc_psrng mc) (mi_ncell mi);
                                 encode_msm_phrng (mc_phrng mc) (mi_ncell mi);
                                 encode_msm_lock lock; encode_msm_half_amb half; encode_msm_cnr cnr;
                                 encode_msm_rate (mc_rate mc) (mi_ncell mi) }) })"

definition encode_msm6 :: "rtcm \<Rightarrow> int \<Rightarrow> int \<Rightarrow> (rtcm \<times> int) option" where
  "encode_msm6 rtcm sys sync =
    (case encode_msm_head 6 rtcm sys sync of None \<Rightarrow> Some (rtcm, 0)
     | Some (rtcm, mi, ms, mc, head) \<Rightarrow>
        do { lock \<leftarrow> sent (mi_ncell mi) (mc_lock mc); half \<leftarrow> sent (mi_ncell mi) (mc_half mc);
             cnr \<leftarrow> sent (mi_ncell mi) (mc_cnr mc);
             put_bits rtcm (do { head; encode_msm_int_rrng (ms_rrng ms) (mi_nsat mi);
                                 encode_msm_mod_rrng (ms_rrng ms) (mi_nsat mi);
                                 encode_msm_psrng_ex (mc_psrng mc) (mi_ncell mi);
                                 encode_msm_phrng_ex (mc_phrng mc) (mi_ncell mi);
                                 encode_msm_lock_ex lock; encode_msm_half_amb half;
                                 encode_msm_cnr_ex cnr }) })"

definition encode_msm7 :: "rtcm \<Rightarrow> int \<Rightarrow> int \<Rightarrow> (rtcm \<times> int) option" where
  "encode_msm7 rtcm sys sync =
    (case encode_msm_head 7 rtcm sys sync of None \<Rightarrow> Some (rtcm, 0)
     | Some (rtcm, mi, ms, mc, head) \<Rightarrow>
        do { lock \<leftarrow> sent (mi_ncell mi) (mc_lock mc); half \<leftarrow> sent (mi_ncell mi) (mc_half mc);
             cnr \<leftarrow> sent (mi_ncell mi) (mc_cnr mc);
             put_bits rtcm (do { head; encode_msm_int_rrng (ms_rrng ms) (mi_nsat mi);
                                 encode_msm_info (ms_info ms) (mi_nsat mi);
                                 encode_msm_mod_rrng (ms_rrng ms) (mi_nsat mi);
                                 encode_msm_rrate (ms_rrate ms) (mi_nsat mi);
                                 encode_msm_psrng_ex (mc_psrng mc) (mi_ncell mi);
                                 encode_msm_phrng_ex (mc_phrng mc) (mi_ncell mi);
                                 encode_msm_lock_ex lock; encode_msm_half_amb half;
                                 encode_msm_cnr_ex cnr;
                                 encode_msm_rate (mc_rate mc) (mi_ncell mi) }) })"

end
