(* ===== verification/Rtcm3e.thy ===== *)
theory Rtcm3e
  imports Rtcm3eObs Rtcm3eSta Rtcm3eEph Rtcm3eSsr Rtcm3eMsm Rtcm3
begin

text \<open>
  The entry point of \<^verbatim>\<open>rtcm3e.c\<close>: \<open>encode_rtcm3\<close> calls the encoder of a message type.
  The two switch statements of the code are association lists from the case label to the encoder.
  The encoders keep the size of the message buffer and the bits of the frame header, and report 1
  for a message and 0 for none.
\<close>

type_synonym encoder = "rtcm \<Rightarrow> int \<Rightarrow> (rtcm \<times> int) option"

section \<open>Dispatch\<close>

definition encode_type4073 :: "rtcm \<Rightarrow> int \<Rightarrow> int \<Rightarrow> (rtcm \<times> int) option" where
  "encode_type4073 rtcm subtype sync = Some (rtcm, 0)"

text \<open>The seven IGS messages of a system from subtype \<open>t\<close>.\<close>

definition igs_encoders :: "int \<Rightarrow> int \<Rightarrow> (int \<times> encoder) list" where
  "igs_encoders t sys =
    [(t, \<lambda>rtcm. encode_ssr1 rtcm sys t), (t + 1, \<lambda>rtcm. encode_ssr2 rtcm sys (t + 1)),
     (t + 2, \<lambda>rtcm. encode_ssr4 rtcm sys (t + 2)), (t + 3, \<lambda>rtcm. encode_ssr6 rtcm sys (t + 3)),
     (t + 4, \<lambda>rtcm. encode_ssr3 rtcm sys (t + 4)), (t + 5, \<lambda>rtcm. encode_ssr7 rtcm sys (t + 5)),
     (t + 6, \<lambda>rtcm. encode_ssr5 rtcm sys (t + 6))]"

definition encoders4076 :: "(int \<times> encoder) list" where
  "encoders4076 =
    igs_encoders 21 SYS_GPS @ igs_encoders 41 SYS_GLO @ igs_encoders 61 SYS_GAL @
    igs_encoders 81 SYS_QZS @ igs_encoders 101 SYS_CMP @ igs_encoders 121 SYS_SBS"

definition encode_type4076 :: "rtcm \<Rightarrow> int \<Rightarrow> int \<Rightarrow> (rtcm \<times> int) option" where
  "encode_type4076 rtcm subtype sync =
    (case map_of encoders4076 subtype of Some f \<Rightarrow> f rtcm sync | None \<Rightarrow> Some (rtcm, 0))"

text \<open>The seven MSM messages and the six SSR messages of a system from message number \<open>t\<close>.\<close>

definition msm_encoders :: "int \<Rightarrow> int \<Rightarrow> (int \<times> encoder) list" where
  "msm_encoders t sys =
    [(t, \<lambda>rtcm. encode_msm1 rtcm sys), (t + 1, \<lambda>rtcm. encode_msm2 rtcm sys),
     (t + 2, \<lambda>rtcm. encode_msm3 rtcm sys), (t + 3, \<lambda>rtcm. encode_msm4 rtcm sys),
     (t + 4, \<lambda>rtcm. encode_msm5 rtcm sys), (t + 5, \<lambda>rtcm. encode_msm6 rtcm sys),
     (t + 6, \<lambda>rtcm. encode_msm7 rtcm sys)]"

definition ssr_encoders :: "int \<Rightarrow> int \<Rightarrow> (int \<times> encoder) list" where
  "ssr_encoders t sys =
    [(t, \<lambda>rtcm. encode_ssr1 rtcm sys 0), (t + 1, \<lambda>rtcm. encode_ssr2 rtcm sys 0),
     (t + 2, \<lambda>rtcm. encode_ssr3 rtcm sys 0), (t + 3, \<lambda>rtcm. encode_ssr4 rtcm sys 0),
     (t + 4, \<lambda>rtcm. encode_ssr5 rtcm sys 0), (t + 5, \<lambda>rtcm. encode_ssr6 rtcm sys 0)]"

definition rtcm3_encoders :: "(int \<times> encoder) list" where
  "rtcm3_encoders =
    [(1001, encode_type1001), (1002, encode_type1002), (1003, encode_type1003),
     (1004, encode_type1004), (1005, encode_type1005), (1006, encode_type1006),
     (1007, encode_type1007), (1008, encode_type1008), (1009, encode_type1009),
     (1010, encode_type1010), (1011, encode_type1011), (1012, encode_type1012),
     (1019, encode_type1019), (1020, encode_type1020), (1033, encode_type1033),
     (1041, encode_type1041), (1042, encode_type1042), (1044, encode_type1044),
     (1045, encode_type1045), (1046, encode_type1046), (63, encode_type63)] @
    ssr_encoders 1057 SYS_GPS @ ssr_encoders 1063 SYS_GLO @
    msm_encoders 1071 SYS_GPS @ msm_encoders 1081 SYS_GLO @ msm_encoders 1091 SYS_GAL @
    msm_encoders 1101 SYS_SBS @ msm_encoders 1111 SYS_QZS @ msm_encoders 1121 SYS_CMP @
    msm_encoders 1131 SYS_IRN @
    [(1230, encode_type1230)] @
    ssr_encoders 1240 SYS_GAL @ ssr_encoders 1246 SYS_QZS @ ssr_encoders 1252 SYS_SBS @
    ssr_encoders 1258 SYS_CMP @
    [(11, \<lambda>rtcm. encode_ssr7 rtcm SYS_GPS 0), (12, \<lambda>rtcm. encode_ssr7 rtcm SYS_GAL 0),
     (13, \<lambda>rtcm. encode_ssr7 rtcm SYS_QZS 0), (14, \<lambda>rtcm. encode_ssr7 rtcm SYS_CMP 0)]"

definition encode_rtcm3 :: "rtcm \<Rightarrow> int \<Rightarrow> int \<Rightarrow> int \<Rightarrow> (rtcm \<times> int) option" where
  "encode_rtcm3 rtcm type subtype sync =
    do { (rtcm, ret) \<leftarrow>
           (if type = 4073 then encode_type4073 rtcm subtype sync
            else if type = 4076 then encode_type4076 rtcm subtype sync
            else case map_of rtcm3_encoders type of Some f \<Rightarrow> f rtcm sync | None \<Rightarrow> Some (rtcm, 0));
         Some (if ret > 0 then (count_msg rtcm type, ret) else (rtcm, ret)) }"

section \<open>What an encoder does to the struct\<close>

text \<open>
  A good result: the buffer keeps its size and the header bits, a message (status 1) has its bits
  behind the header and inside the buffer, and no message is status 0.
\<close>

definition enc_ok :: "u8 list \<Rightarrow> (rtcm \<times> int) option \<Rightarrow> bool" where
  "enc_ok b r \<longleftrightarrow> (\<forall>rtcm' ret. r = Some (rtcm', ret) \<longrightarrow>
     length (r_buff rtcm') = length b \<and> (\<forall>i < 24. bufbit (r_buff rtcm') i = bufbit b i) \<and>
     (ret = 0 \<or> ret = 1 \<and> 24 \<le> r_nbit rtcm' \<and> r_nbit rtcm' \<le> 8 * length b))"

lemma enc_ok_0: "r_buff rtcm = b \<Longrightarrow> enc_ok b (Some (rtcm, 0))"
  by (simp add: enc_ok_def)

lemma enc_ok_put:
  assumes "writes w" and "r_buff rtcm = b"
  shows "enc_ok b (put_bits rtcm w)"
  unfolding enc_ok_def
proof (intro allI impI)
  fix rtcm' ret
  assume "put_bits rtcm w = Some (rtcm', ret)"
  note p = put_bits_writes [OF this assms(1)]
  show "length (r_buff rtcm') = length b \<and> (\<forall>i < 24. bufbit (r_buff rtcm') i = bufbit b i) \<and>
     (ret = 0 \<or> ret = 1 \<and> 24 \<le> r_nbit rtcm' \<and> r_nbit rtcm' \<le> 8 * length b)"
    using p(1-3) p(5) p(4) assms(2) by simp
qed

lemma enc_ok_bind: "(\<And>x. m = Some x \<Longrightarrow> enc_ok b (f x)) \<Longrightarrow> enc_ok b (Option.bind m f)"
  by (cases m) (simp_all add: enc_ok_def)

lemma enc_ok_Let: "(\<And>x. x = t \<Longrightarrow> enc_ok b (f x)) \<Longrightarrow> enc_ok b (Let t f)"
  by simp

lemma enc_ok_if: "(c \<Longrightarrow> enc_ok b r) \<Longrightarrow> (\<not> c \<Longrightarrow> enc_ok b r') \<Longrightarrow> enc_ok b (if c then r else r')"
  by simp

lemma writes_Let [writers]: "(\<And>x. writes (f x)) \<Longrightarrow> writes (Let t f)"
  by (simp add: Let_def)

lemma writes_prod [writers]: "(\<And>x y. writes (f x y)) \<Longrightarrow> writes (case p of (x, y) \<Rightarrow> f x y)"
  by (simp split: prod.split)

lemma writes_seq_map [writers]: "(\<And>x. x \<in> set xs \<Longrightarrow> writes (f x)) \<Longrightarrow> writes (wr_seq (map f xs))"
  by (rule writes_seq) auto

subsection \<open>Observations\<close>

lemma enc_sats_buff:
  assumes "\<And>rtcm d. r_buff (fst (f rtcm d)) = r_buff rtcm" and "\<And>rtcm d. writes (snd (f rtcm d))"
    and "enc_sats f rtcm ds = (rtcm', ws)"
  shows "r_buff rtcm' = r_buff rtcm" and "w \<in> set ws \<Longrightarrow> writes w"
  using assms(3)
proof (induction ds arbitrary: rtcm rtcm' ws)
  case (Cons d ds)
  { case 1 then show ?case
      using Cons.IH(1) assms(1) [of rtcm d] by (auto split: prod.splits) }
  { case 2 then show ?case
      using Cons.IH(2) assms(2) [of rtcm d] by (auto split: prod.splits) }
qed auto

lemma writes_head [writers]: "writes (encode_head type rtcm sys sync nsat)"
  unfolding encode_head_def by (intro writers)

lemma enc_ok_obs:
  assumes "\<And>rtcm d. r_buff (fst (f rtcm d)) = r_buff rtcm" and "\<And>rtcm d. writes (snd (f rtcm d))"
  shows "enc_ok (r_buff rtcm) (enc_obs_msg f type sys ds rtcm sync)"
  using enc_sats_buff [of f, OF assms]
  unfolding enc_obs_msg_def Let_def
  by (auto split: prod.split intro!: enc_ok_put writers)

lemma gen_obs_buff: "r_buff (fst (gen_obs_gps rtcm d)) = r_buff rtcm"
  "r_buff (fst (gen_obs_glo rtcm d fcn)) = r_buff rtcm"
  by (simp_all add: gen_obs_gps_def gen_obs_glo_def Let_def set_lltime_def split: prod.split)

lemmas obs_encoders = encode_type1001_def encode_type1002_def encode_type1003_def encode_type1004_def
  encode_type1009_def encode_type1010_def encode_type1011_def encode_type1012_def

lemmas obs_records = sat1001e_def sat1002e_def sat1003e_def sat1004e_def
  sat1009e_def sat1010e_def sat1011e_def sat1012e_def

lemma obs_records_ok:
  "\<forall>f \<in> {sat1001e, sat1002e, sat1003e, sat1004e, sat1009e, sat1010e, sat1011e, sat1012e}.
     r_buff (fst (f rtcm d)) = r_buff rtcm \<and> writes (snd (f rtcm d))"
  by (simp add: obs_records Let_def case_prod_beta gen_obs_buff)
     (intro conjI writers)

lemma enc_ok_observations:
  "enc_ok (r_buff rtcm) (encode_type1001 rtcm sync)"
  "enc_ok (r_buff rtcm) (encode_type1002 rtcm sync)"
  "enc_ok (r_buff rtcm) (encode_type1003 rtcm sync)"
  "enc_ok (r_buff rtcm) (encode_type1004 rtcm sync)"
  "enc_ok (r_buff rtcm) (encode_type1009 rtcm sync)"
  "enc_ok (r_buff rtcm) (encode_type1010 rtcm sync)"
  "enc_ok (r_buff rtcm) (encode_type1011 rtcm sync)"
  "enc_ok (r_buff rtcm) (encode_type1012 rtcm sync)"
  unfolding obs_encoders using obs_records_ok by (auto intro!: enc_ok_obs)

subsection \<open>Station and ephemerides\<close>

lemma writes_arp [writers]: "writes (write_arp msgno rtcm)"
  unfolding write_arp_def Let_def by (intro writers)

lemmas sta_encoders = encode_type1005_def encode_type1006_def encode_type1007_def
  encode_type1008_def encode_type1033_def encode_type1230_def

lemma enc_ok_station:
  "enc_ok (r_buff rtcm) (encode_type1005 rtcm sync)"
  "enc_ok (r_buff rtcm) (encode_type1006 rtcm sync)"
  "enc_ok (r_buff rtcm) (encode_type1007 rtcm sync)"
  "enc_ok (r_buff rtcm) (encode_type1008 rtcm sync)"
  "enc_ok (r_buff rtcm) (encode_type1033 rtcm sync)"
  "enc_ok (r_buff rtcm) (encode_type1230 rtcm sync)"
  by (simp_all add: sta_encoders Let_def enc_ok_put writers)

lemma enc_ok_eph_msg: "(\<And>prn eph. writes (wr prn eph)) \<Longrightarrow> enc_ok (r_buff rtcm) (eph_msg sys ephset wr rtcm)"
  by (auto simp: eph_msg_def Let_def split: prod.split intro!: enc_ok_0 enc_ok_put)

lemma writes_eph [writers]:
  "writes (write_1019 prn eph)" "writes (write_1041 prn eph)" "writes (write_1044 prn eph)"
  "writes (write_gal msgno prn eph)" "writes (write_bds msgno prn eph)"
  unfolding write_1019_def write_1041_def write_1044_def write_gal_def write_bds_def Let_def
  by (intro writers)+

lemma writes_gal [writers]: "writes (write_1045 prn eph)" "writes (write_1046 prn eph)"
  unfolding write_1045_def write_1046_def Let_def by (intro writers)+

lemma writes_1020 [writers]: "writes (write_1020 prn geph)"
  unfolding write_1020_def Let_def by (intro writers)

lemmas eph_encoders = encode_type1019_def encode_type1041_def encode_type1042_def encode_type1044_def
  encode_type1045_def encode_type1046_def encode_type63_def

lemma enc_ok_ephemeris:
  "enc_ok (r_buff rtcm) (encode_type1019 rtcm sync)"
  "enc_ok (r_buff rtcm) (encode_type1041 rtcm sync)"
  "enc_ok (r_buff rtcm) (encode_type1042 rtcm sync)"
  "enc_ok (r_buff rtcm) (encode_type1044 rtcm sync)"
  "enc_ok (r_buff rtcm) (encode_type1045 rtcm sync)"
  "enc_ok (r_buff rtcm) (encode_type1046 rtcm sync)"
  "enc_ok (r_buff rtcm) (encode_type63 rtcm sync)"
  unfolding eph_encoders by (intro enc_ok_eph_msg writers)+

lemma enc_ok_1020: "enc_ok (r_buff rtcm) (encode_type1020 rtcm sync)"
  by (auto simp: encode_type1020_def Let_def split: prod.split intro!: enc_ok_0 enc_ok_put writers)

subsection \<open>State space representation\<close>

text \<open>A header is written where the message has a number.\<close>

lemma writes_ssr_head:
  assumes "subtype \<noteq> 0 \<or> ssr_msgno type sys \<noteq> 0"
  shows "writes (encode_ssr_head type rtcm sys subtype nsat sync iod udint refd provid solid)"
  using assms unfolding encode_ssr_head_def Let_def by (auto intro!: writers)

lemma enc_ok_ssr_msg:
  assumes "subtype \<noteq> 0 \<or> ssr_msgno type sys \<noteq> 0" and "\<And>prn s. writes (rc prn s)"
  shows "enc_ok (r_buff rtcm) (ssr_msg type k refd rc rtcm sys subtype sync)"
  unfolding ssr_msg_def Let_def
  by (intro enc_ok_put writers writes_ssr_head assms refl)

lemma writes_ssr [writers]:
  "writes (wr_orbit s)" "writes (wr_clock s)" "writes (ssr3_rec np offp codes prn s)"
  "writes (ssr7_rec np offp codes subtype prn s)"
  unfolding wr_orbit_def wr_clock_def ssr3_rec_def ssr7_rec_def Let_def
  by (intro writers)+

lemma writes_ssr1_rec [writers]: "writes (ssr1_rec np ni nj offp subtype prn s)"
  unfolding ssr1_rec_def by (intro writers)

definition ssr_encoded :: "int \<Rightarrow> int \<Rightarrow> int \<Rightarrow> bool" where
  "ssr_encoded type sys subtype \<longleftrightarrow> subtype \<noteq> 0 \<or> ssr_msgno type sys \<noteq> 0"

lemma enc_ok_ssr:
  "ssr_encoded 1 sys subtype \<Longrightarrow> enc_ok (r_buff rtcm) (encode_ssr1 rtcm sys subtype sync)"
  "ssr_encoded 2 sys subtype \<Longrightarrow> enc_ok (r_buff rtcm) (encode_ssr2 rtcm sys subtype sync)"
  "ssr_encoded 3 sys subtype \<Longrightarrow> enc_ok (r_buff rtcm) (encode_ssr3 rtcm sys subtype sync)"
  "ssr_encoded 4 sys subtype \<Longrightarrow> enc_ok (r_buff rtcm) (encode_ssr4 rtcm sys subtype sync)"
  "ssr_encoded 5 sys subtype \<Longrightarrow> enc_ok (r_buff rtcm) (encode_ssr5 rtcm sys subtype sync)"
  "ssr_encoded 6 sys subtype \<Longrightarrow> enc_ok (r_buff rtcm) (encode_ssr6 rtcm sys subtype sync)"
  "ssr_encoded 7 sys subtype \<Longrightarrow> enc_ok (r_buff rtcm) (encode_ssr7 rtcm sys subtype sync)"
  unfolding encode_ssr1_def encode_ssr2_def encode_ssr3_def encode_ssr4_def encode_ssr5_def
    encode_ssr6_def encode_ssr7_def ssr_encoded_def
  by (auto split: option.split prod.split intro!: enc_ok_0 enc_ok_ssr_msg writers)

subsection \<open>Multiple signal messages\<close>

lemma gen_msm_sig1_buff: "r_buff (fst (gen_msm_sig1 sys mi rrng rrate v st)) = r_buff (fst st)"
  unfolding gen_msm_sig1_def Let_def case_prod_beta set_lltime_def by simp

lemma gen_msm_sig_buff: "r_buff (fst (gen_msm_sig rtcm sys mi rrng rrate)) = r_buff rtcm"
proof -
  have "r_buff (fst (fold (gen_msm_sig1 sys mi rrng rrate) vs st)) = r_buff (fst st)" for vs st
    by (induction vs arbitrary: st) (simp_all add: gen_msm_sig1_buff)
  then show ?thesis by (simp add: gen_msm_sig_def)
qed

lemma writes_mask [writers]: "writes (wr_mask xs)"
  unfolding wr_mask_def by (intro writers)

lemma encode_msm_head_ok:
  assumes "encode_msm_head type rtcm sys sync = Some (rtcm', mi, ms, mc, head)"
  shows "r_buff rtcm' = r_buff rtcm" and "writes head"
proof -
  obtain base where b: "msm_base sys = Some base"
    using assms by (cases "msm_base sys") (simp_all add: encode_msm_head_def)
  show "r_buff rtcm' = r_buff rtcm"
    using assms b gen_msm_sig_buff [of rtcm sys] by (auto simp: encode_msm_head_def Let_def case_prod_beta)
  show "writes head"
    using assms b by (auto simp: encode_msm_head_def Let_def case_prod_beta intro!: writers)
qed

lemmas msm_fields = encode_msm_int_rrng_def encode_msm_mod_rrng_def encode_msm_info_def
  encode_msm_rrate_def encode_msm_psrng_def encode_msm_psrng_ex_def encode_msm_phrng_def
  encode_msm_phrng_ex_def encode_msm_lock_def encode_msm_lock_ex_def encode_msm_half_amb_def
  encode_msm_cnr_def encode_msm_cnr_ex_def encode_msm_rate_def

lemma writes_msm_fields [writers]:
  "writes (encode_msm_int_rrng xs n)" "writes (encode_msm_mod_rrng xs n)" "writes (encode_msm_info is n)"
  "writes (encode_msm_rrate xs n)" "writes (encode_msm_psrng xs n)" "writes (encode_msm_psrng_ex xs n)"
  "writes (encode_msm_phrng xs n)" "writes (encode_msm_phrng_ex xs n)" "writes (encode_msm_lock xs)"
  "writes (encode_msm_lock_ex xs)" "writes (encode_msm_half_amb is)" "writes (encode_msm_cnr xs)"
  "writes (encode_msm_cnr_ex xs)" "writes (encode_msm_rate xs n)"
  unfolding msm_fields by (intro writers)+

lemmas msm_encode_defs = encode_msm1_def encode_msm2_def encode_msm3_def encode_msm4_def
  encode_msm5_def encode_msm6_def encode_msm7_def

lemma enc_ok_msm:
  assumes "f \<in> {encode_msm1, encode_msm2, encode_msm3, encode_msm4, encode_msm5, encode_msm6, encode_msm7}"
  shows "enc_ok (r_buff rtcm) (f rtcm sys sync)"
  using assms
  by (auto simp: msm_encode_defs dest: encode_msm_head_ok split: option.split prod.split
      intro!: enc_ok_0 enc_ok_bind enc_ok_put writers)

subsection \<open>All messages\<close>

lemma enc_ok_groups:
  "\<forall>(t, f) \<in> set (msm_encoders t0 sys). enc_ok (r_buff rtcm) (f rtcm sync)"
  "\<forall>k \<in> {1, 2, 3, 4, 5, 6}. ssr_encoded k sys 0 \<Longrightarrow>
   \<forall>(t, f) \<in> set (ssr_encoders t0 sys). enc_ok (r_buff rtcm) (f rtcm sync)"
  "0 < t0 \<Longrightarrow> \<forall>(t, f) \<in> set (igs_encoders t0 sys). enc_ok (r_buff rtcm) (f rtcm sync)"
  using enc_ok_msm [of _ rtcm sys sync] enc_ok_ssr [of sys _ rtcm sync]
  by (simp_all add: msm_encoders_def ssr_encoders_def igs_encoders_def ssr_encoded_def)

lemma ssr_encoded_rtcm:
  "sys \<in> {SYS_GPS, SYS_GLO, SYS_GAL, SYS_QZS, SYS_SBS, SYS_CMP} \<Longrightarrow>
   \<forall>k \<in> {1, 2, 3, 4, 5, 6}. ssr_encoded k sys 0"
  by (auto simp: ssr_encoded_def ssr_msgno_def)

lemma ssr7_encoded_rtcm:
  "sys \<in> {SYS_GPS, SYS_GAL, SYS_QZS, SYS_CMP} \<Longrightarrow> ssr_encoded 7 sys 0"
  by (auto simp: ssr_encoded_def ssr_msgno_def)

lemma enc_ok_rtcm3_encoders: "\<forall>(t, f) \<in> set rtcm3_encoders. enc_ok (r_buff rtcm) (f rtcm sync)"
  unfolding rtcm3_encoders_def set_append ball_Un list.set ball_simps case_prod_conv
  by (intro conjI TrueI enc_ok_observations enc_ok_station enc_ok_ephemeris enc_ok_1020
      enc_ok_groups(1) enc_ok_groups(2) enc_ok_ssr(7) ssr_encoded_rtcm ssr7_encoded_rtcm insertI1 insertI2)

lemma enc_ok_encoders4076: "\<forall>(t, f) \<in> set encoders4076. enc_ok (r_buff rtcm) (f rtcm sync)"
  unfolding encoders4076_def set_append ball_Un by (intro conjI enc_ok_groups(3)) simp_all

lemma enc_ok_map_of:
  "\<forall>(t, f) \<in> set cs. enc_ok (r_buff rtcm) (f rtcm sync) \<Longrightarrow>
   enc_ok (r_buff rtcm) (case map_of cs t of Some f \<Rightarrow> f rtcm sync | None \<Rightarrow> Some (rtcm, 0))"
  by (auto split: option.split dest!: map_of_SomeD intro: enc_ok_0)

lemma enc_ok_rtcm3: "enc_ok (r_buff rtcm) (encode_rtcm3 rtcm type subtype sync)"
proof -
  let ?r = "if type = 4073 then encode_type4073 rtcm subtype sync
    else if type = 4076 then encode_type4076 rtcm subtype sync
    else case map_of rtcm3_encoders type of Some f \<Rightarrow> f rtcm sync | None \<Rightarrow> Some (rtcm, 0)"
  have "enc_ok (r_buff rtcm) ?r"
    using enc_ok_map_of [OF enc_ok_rtcm3_encoders] enc_ok_map_of [OF enc_ok_encoders4076]
    by (simp add: encode_type4073_def encode_type4076_def enc_ok_0)
  moreover have "encode_rtcm3 rtcm type subtype sync =
      Option.bind ?r (\<lambda>(r, ret). Some (if ret > 0 then (count_msg r type, ret) else (r, ret)))"
    by (simp add: encode_rtcm3_def)
  ultimately show ?thesis
    by (cases ?r) (auto simp: enc_ok_def count_msg_def)
qed

end
