(* ===== verification/RtcmGen.thy ===== *)
theory RtcmGen
  imports Rtcm Rtcm3e
begin

text \<open>
  Output of \<^verbatim>\<open>rtcm.c\<close>: \<open>gen_rtcm3\<close> writes the frame header, calls the encoder, pads the
  message to a byte boundary and writes length and parity.  What it relies on from the encoder is the
  locale \<open>frame_encoder\<close>, whose instance is \<open>encode_rtcm3\<close>; what it promises is that the bytes
  it leaves are a frame with good parity that carries the bits of the message.
\<close>

section \<open>The operation\<close>

function pad :: "u8 list \<Rightarrow> nat \<Rightarrow> u8 list \<times> nat" where
  "pad b i = (if i mod 8 = 0 then (b, i) else pad (setu b i 1 0) (i + 1))"
  by pat_completeness auto
termination
proof (relation "measure (\<lambda>(b, i). (8 - i mod 8) mod 8)")
  fix b :: "u8 list" and i :: nat
  assume "i mod 8 \<noteq> 0"
  then show "((setu b i 1 0, i + 1), (b, i)) \<in> measure (\<lambda>(b, i). (8 - i mod 8) mod 8)"
    using mod_Suc [of i 8] by auto
qed simp

declare pad.simps [simp del]

text \<open>Length and parity of a message of \<open>len\<close> bytes with its header.\<close>

definition close_frame :: "u8 list \<Rightarrow> nat \<Rightarrow> u8 list" where
  "close_frame b len =
    (let b = setu b 14 10 (int len - 3); crc = rtk_crc24q b len in setbitu b (len * 8) 24 crc)"

definition open_frame :: "u8 list \<Rightarrow> u8 list" where
  "open_frame b = setu (setu (setu b 0 8 0xD3) 8 6 0) 14 10 0"

text \<open>The encoder gets the struct with the header in its buffer; it reports 0 for an error.\<close>

definition gen3 :: "(rtcm \<Rightarrow> (rtcm \<times> int) option) \<Rightarrow> rtcm \<Rightarrow> (rtcm \<times> int) option" where
  "gen3 enc rtcm =
    do { (rtcm, ret) \<leftarrow> enc (rtcm\<lparr>r_nbit := 0, r_len := 0, r_nbyte := 0, r_buff := open_frame (r_buff rtcm)\<rparr>);
         Some (if ret = 0 then (rtcm, 0)
               else let (b, i) = pad (r_buff rtcm) (r_nbit rtcm); len = i div 8 in
                 if len \<ge> 3 + 1024 then (rtcm\<lparr>r_buff := b, r_nbit := 0, r_len := 0\<rparr>, 0)
                 else (rtcm\<lparr>r_buff := close_frame b len, r_len := len, r_nbyte := len + 3\<rparr>, 1)) }"

definition gen_rtcm3 :: "rtcm \<Rightarrow> int \<Rightarrow> int \<Rightarrow> int \<Rightarrow> (rtcm \<times> int) option" where
  "gen_rtcm3 rtcm type subtype sync = gen3 (\<lambda>r. encode_rtcm3 r type subtype sync) rtcm"

definition gen_rtcm2 :: "rtcm \<Rightarrow> int \<Rightarrow> int \<Rightarrow> rtcm \<times> int" where
  "gen_rtcm2 rtcm type sync = (rtcm\<lparr>r_nbit := 0, r_len := 0, r_nbyte := 0\<rparr>, 0)"

section \<open>Padding\<close>

lemma pad_spec:
  "pad b i = (b', j) \<Longrightarrow> length b' = length b \<and> i \<le> j \<and> j < i + 8 \<and> j mod 8 = 0 \<and>
     (\<forall>k. k < i \<or> j \<le> k \<longrightarrow> bufbit b' k = bufbit b k)"
proof (induction b i arbitrary: b' j rule: pad.induct)
  case (1 b i)
  show ?case
  proof (cases "i mod 8 = 0")
    case True
    then show ?thesis using "1.prems" by (simp add: pad.simps [of b i])
  next
    case False
    then have p: "pad (setu b i 1 0) (i + 1) = (b', j)"
      using "1.prems" by (simp add: pad.simps [of b i])
    note IH = "1.IH" [OF False p]
    have "j < i + 9" "j mod 8 = 0" using IH by auto
    then have "j < i + 8" using False by presburger
    moreover have "bufbit (setu b i 1 0) k = bufbit b k" if "k < i \<or> j \<le> k" for k
      unfolding setu_def by (rule bufbit_setbitu_other) (use IH that in auto)
    ultimately show ?thesis using IH by auto
  qed
qed

section \<open>The frame\<close>

lemma getu_first_byte: "0 < length b \<Longrightarrow> getu b 0 8 = v \<Longrightarrow> b ! 0 = word_of_int v"
proof -
  assume v: "getu b 0 8 = v"
  have "b ! 0 = ucast (getbitu b 0 8)"
  proof (rule bit_word_eqI)
    fix n assume "n < LENGTH(8)"
    then have n: "n < 8" by simp
    then have "bit (getbitu b 0 8) n = bufbit b (7 - n)" by (simp add: bit_getbitu)
    then show "bit (b ! 0) n = bit (ucast (getbitu b 0 8) :: u8) n"
      using n by (simp add: bufbit_def bit_ucast_iff)
  qed
  then show "b ! 0 = word_of_int v"
    using v unfolding getu_def by (metis ucast_eq word_of_int_uint)
qed

lemma bufbit_take: "k < 8 * n \<Longrightarrow> bufbit (take n b) k = bufbit b k"
  by (auto simp: bufbit_def)

lemma getu_take: "pos + m \<le> 8 * n \<Longrightarrow> getu (take n b) pos m = getu b pos m"
  unfolding getu_def by (rule arg_cong [of _ _ uint], rule getbitu_cong) (simp add: bufbit_take)

lemma length_open_frame [simp]: "length (open_frame b) = length b"
  by (simp add: open_frame_def)

lemma open_frame_first: "3 \<le> length b \<Longrightarrow> getu (open_frame b) 0 8 = 0xD3"
  by (simp add: open_frame_def bitfield)

lemma length_close_frame [simp]: "length (close_frame b len) = length b"
  by (simp add: close_frame_def Let_def)

text \<open>The bits of the message stay.\<close>

lemma close_frame_bits:
  assumes "24 \<le> k" and "k < 8 * len"
  shows "bufbit (close_frame b len) k = bufbit b k"
  using assms by (simp add: close_frame_def Let_def setu_def bufbit_setbitu_other)

lemma close_frame_field:
  assumes "q + m \<le> 14" and "3 \<le> len"
  shows "getu (close_frame b len) q m = getu b q m"
  using assms by (simp add: close_frame_def Let_def getu_def setu_def getbitu_setbitu_other)

lemma close_frame_length:
  assumes "3 \<le> len" and "len < 1027" and "len + 3 \<le> length b"
  shows "getu (close_frame b len) 14 10 = int len - 3"
proof -
  have "getu (close_frame b len) 14 10 = getu (setu b 14 10 (int len - 3)) 14 10"
    using assms(1) by (simp add: close_frame_def Let_def getu_def getbitu_setbitu_other)
  then show ?thesis using assms by (simp add: getu_setu_same)
qed

lemma close_frame_is_frame:
  assumes "getu b 0 8 = 0xD3" and "3 \<le> len" and "len < 1027" and "len + 3 \<le> length b"
  shows "is_frame (take (len + 3) (close_frame b len))"
proof -
  define f where "f = take (len + 3) (close_frame b len)"
  have lf: "length f = len + 3" using assms by (simp add: f_def)
  have "getu f 0 8 = 0xD3" "getu f 14 10 = int len - 3"
    using assms by (simp_all add: f_def getu_take close_frame_field close_frame_length)
  moreover have "f ! 0 = hd f" "f \<noteq> []" using lf by (cases f; simp)+
  ultimately have "is_frame f"
    using getu_first_byte [of f 211] lf assms(2) by (simp add: is_frame_def frame_len_def)
  then show ?thesis by (simp add: f_def)
qed

lemma close_frame_parity:
  assumes "3 \<le> len" and "len + 3 \<le> length b"
  shows "parity_ok (take (len + 3) (close_frame b len))"
proof -
  define b1 where "b1 = setu b 14 10 (int len - 3)"
  define crc where "crc = rtk_crc24q b1 len"
  have cf: "close_frame b len = setbitu b1 (len * 8) 24 crc"
    by (simp add: close_frame_def b1_def crc_def Let_def)
  let ?f = "take (len + 3) (close_frame b len)"
  have "getbitu ?f (len * 8) 24 = getbitu (close_frame b len) (len * 8) 24"
    by (rule getbitu_cong) (simp add: bufbit_take)
  also have "\<dots> = take_bit 24 crc"
    unfolding cf using assms by (simp add: getbitu_setbitu_same b1_def)
  also have "\<dots> = crc"
    using fits_crc24 [of len b1] assms
    by (intro bit_word_eqI) (auto simp: crc_def b1_def fits_def bit_take_bit_iff)
  finally have c: "getbitu ?f (len * 8) 24 = crc" .
  have "take len ?f = take len b1"
  proof (rule msg_bits_inj)
    show "msg_bits (take len ?f) = msg_bits (take len b1)"
      using assms by (intro nth_equalityI)
        (simp_all add: nth_msg_bits bufbit_take cf b1_def bufbit_setbitu_other)
  qed (use assms in \<open>simp add: b1_def\<close>)
  then have "rtk_crc24q ?f len = crc"
    using assms by (simp add: rtk_crc24q_register crc_def b1_def)
  then show ?thesis using assms c by (simp add: parity_ok_def)
qed

text \<open>What the framer relies on: the encoder writes its bits behind the header.\<close>

locale frame_encoder =
  fixes enc :: "rtcm \<Rightarrow> (rtcm \<times> int) option"
  assumes enc_buff: "enc rtcm = Some (rtcm', ret) \<Longrightarrow> length (r_buff rtcm') = length (r_buff rtcm)"
    and enc_head: "enc rtcm = Some (rtcm', ret) \<Longrightarrow> i < 24 \<Longrightarrow> bufbit (r_buff rtcm') i = bufbit (r_buff rtcm) i"
    and enc_nbit: "enc rtcm = Some (rtcm', ret) \<Longrightarrow> ret \<noteq> 0 \<Longrightarrow> 24 \<le> r_nbit rtcm'"
begin

lemma gen3_frame:
  assumes "gen3 enc rtcm = Some (rtcm', ret)" and "ret \<noteq> 0" and "length (r_buff rtcm) = 1200"
  obtains f r rr where "take (r_nbyte rtcm') (r_buff rtcm') = f" and "is_frame f" and "parity_ok f"
    and "enc (rtcm\<lparr>r_nbit := 0, r_len := 0, r_nbyte := 0, r_buff := open_frame (r_buff rtcm)\<rparr>) = Some (r, rr)"
    and "rr \<noteq> 0" and "r_nbit r \<le> 8 * (length f - 3)" and "8 * (length f - 3) < r_nbit r + 8"
    and "\<And>i. 24 \<le> i \<Longrightarrow> i < r_nbit r \<Longrightarrow> bufbit f i = bufbit (r_buff r) i"
proof -
  let ?r0 = "rtcm\<lparr>r_nbit := 0, r_len := 0, r_nbyte := 0, r_buff := open_frame (r_buff rtcm)\<rparr>"
  obtain r rr where e: "enc ?r0 = Some (r, rr)"
    using assms(1) by (cases "enc ?r0") (auto simp: gen3_def)
  obtain b i where p: "pad (r_buff r) (r_nbit r) = (b, i)" by fastforce
  define len where "len = i div 8"
  have g: "rr \<noteq> 0" "len < 1027" "rtcm' = r\<lparr>r_buff := close_frame b len, r_len := len, r_nbyte := len + 3\<rparr>"
    using assms(1,2) e p unfolding gen3_def len_def by (auto simp: Let_def split: if_splits)
  note ps = pad_spec [OF p]
  have n24: "24 \<le> r_nbit r" using enc_nbit [OF e g(1)] .
  have i: "i = 8 * len" "3 \<le> len" "i < r_nbit r + 8" "r_nbit r \<le> i" using ps n24 by (auto simp: len_def)
  have l: "length b = 1200" using ps enc_buff [OF e] assms(3) by simp
  have "getu b 0 8 = getu (open_frame (r_buff rtcm)) 0 8"
    unfolding getu_def
    by (rule arg_cong [of _ _ uint], rule getbitu_cong) (use ps n24 enc_head [OF e] in simp)
  then have D3: "getu b 0 8 = 0xD3" using assms(3) by (simp add: open_frame_first)
  define f where "f = take (len + 3) (close_frame b len)"
  have lf: "length f = len + 3" using l g by (simp add: f_def)
  show thesis
  proof (rule that [of f r rr])
    show "is_frame f" unfolding f_def using D3 i g l by (intro close_frame_is_frame) simp_all
    show "parity_ok f" unfolding f_def using i g l by (intro close_frame_parity) simp_all
    show "bufbit f k = bufbit (r_buff r) k" if "24 \<le> k" "k < r_nbit r" for k
      using that i ps by (simp add: f_def bufbit_take close_frame_bits)
  qed (use g e i lf in \<open>simp_all add: f_def\<close>)
qed

end

interpretation rtcm3e: frame_encoder "\<lambda>r. encode_rtcm3 r type subtype sync" for type subtype sync
  by unfold_locales (use enc_ok_rtcm3 in \<open>fastforce simp: enc_ok_def\<close>)+

end
