(* ===== verification/Wire.thy ===== *)
theory Wire
  imports RtcmGen
begin

text \<open>
  Writing and reading a message.  \<open>carries w rd v\<close> says of a writer and a reader that, wherever
  the writer starts, a buffer that has the bits it wrote makes the reader return \<open>v\<close> and end at
  the same position.  The rules follow the two programs statement by statement, so the claim for a
  whole message is one proof by introduction rules.  The last section is the way of a message
  from \<open>gen_rtcm3\<close> of one struct to the decoder of another.
\<close>

section \<open>Writers and readers\<close>

definition carries :: "(wstate, unit) state \<Rightarrow> (u8 list \<Rightarrow> (nat, 'a) state) \<Rightarrow> 'a \<Rightarrow> bool" where
  "carries w rd v \<longleftrightarrow> writes w \<and>
     (\<forall>b i x b' i' c. run_state w (b, i) = (x, b', i') \<and> i' \<le> 8 * length b \<and>
        (\<forall>k. i \<le> k \<and> k < i' \<longrightarrow> bufbit c k = bufbit b' k) \<longrightarrow> run_state (rd c) i = (v, i'))"

lemma carriesI:
  assumes "writes w"
    and "\<And>b i x b' i' c. run_state w (b, i) = (x, b', i') \<Longrightarrow> i' \<le> 8 * length b \<Longrightarrow>
      (\<And>k. i \<le> k \<Longrightarrow> k < i' \<Longrightarrow> bufbit c k = bufbit b' k) \<Longrightarrow> run_state (rd c) i = (v, i')"
  shows "carries w rd v"
  using assms unfolding carries_def by blast

lemma carriesD:
  assumes "carries w rd v"
  shows "writes w"
    and "run_state w (b, i) = (x, b', i') \<Longrightarrow> i' \<le> 8 * length b \<Longrightarrow>
      (\<And>k. i \<le> k \<Longrightarrow> k < i' \<Longrightarrow> bufbit c k = bufbit b' k) \<Longrightarrow> run_state (rd c) i = (v, i')"
  using assms unfolding carries_def by blast+

lemma getu_cong: "(\<And>k. pos \<le> k \<Longrightarrow> k < pos + n \<Longrightarrow> bufbit b k = bufbit c k) \<Longrightarrow> getu b pos n = getu c pos n"
  unfolding getu_def by (rule arg_cong [of _ _ uint]) (rule getbitu_cong)

lemma getbits_cong:
  "(\<And>k. pos \<le> k \<Longrightarrow> k < pos + n \<Longrightarrow> bufbit b k = bufbit c k) \<Longrightarrow> getbits b pos n = getbits c pos n"
  using getbitu_cong [of pos n b c] unfolding getbits_def by simp

lemma getbitg_cong_bits:
  "(\<And>k. pos \<le> k \<Longrightarrow> k < pos + n \<Longrightarrow> bufbit b k = bufbit c k) \<Longrightarrow> 0 < n \<Longrightarrow>
   getbitg b pos n = getbitg c pos n"
  by (intro getbitg_cong getu_cong) auto

lemma getbits_38_cong:
  "(\<And>k. pos \<le> k \<Longrightarrow> k < pos + 38 \<Longrightarrow> bufbit b k = bufbit c k) \<Longrightarrow> getbits_38 b pos = getbits_38 c pos"
  unfolding getbits_38_def using getbits_cong [of pos 32 b c] getu_cong [of "pos + 32" 6 b c] by simp

subsection \<open>Fields\<close>

lemma carries_u:
  assumes "n \<le> 32"
  shows "carries (wru n v) (\<lambda>c. rdu c n) (v mod 2 ^ n)"
proof (rule carriesI)
  fix b i x b' i' and c :: "u8 list"
  assume "run_state (wru n v) (b, i) = (x, b', i')" and l: "i' \<le> 8 * length b"
    and c: "\<And>k. i \<le> k \<Longrightarrow> k < i' \<Longrightarrow> bufbit c k = bufbit b' k"
  then have b': "b' = setu b i n v" "i' = i + n" by simp_all
  have "getu c i n = getu b' i n" by (rule getu_cong) (simp add: c b'(2))
  also have "\<dots> = v mod 2 ^ n" using l assms unfolding b' by (simp add: getu_setu_same)
  finally show "run_state (rdu c n) i = (v mod 2 ^ n, i')" by (simp add: b'(2))
qed (rule writers)

lemma carries_s:
  assumes "0 < n" and "n \<le> 32" and "- (2 ^ (n - 1)) \<le> v" and "v < 2 ^ (n - 1)"
  shows "carries (wrs n v) (\<lambda>c. rds c n) v"
proof (rule carriesI)
  fix b i x b' i' and c :: "u8 list"
  assume "run_state (wrs n v) (b, i) = (x, b', i')" and l: "i' \<le> 8 * length b"
    and c: "\<And>k. i \<le> k \<Longrightarrow> k < i' \<Longrightarrow> bufbit c k = bufbit b' k"
  then have b': "b' = setbits b i n v" "i' = i + n" by simp_all
  have "getbits c i n = getbits b' i n" by (rule getbits_cong) (simp add: c b'(2))
  also have "\<dots> = v" using l assms unfolding b' by (simp add: getbits_setbits_in_range)
  finally show "run_state (rds c n) i = (v, i')" by (simp add: b'(2))
qed (rule writers)

lemma carries_g:
  assumes "1 < n" and "n \<le> 32" and "\<bar>v\<bar> < 2 ^ (n - 1)"
  shows "carries (wrg n v) (\<lambda>c. rdg c n) (of_int v)"
proof (rule carriesI)
  fix b i x b' i' and c :: "u8 list"
  assume "run_state (wrg n v) (b, i) = (x, b', i')" and l: "i' \<le> 8 * length b"
    and c: "\<And>k. i \<le> k \<Longrightarrow> k < i' \<Longrightarrow> bufbit c k = bufbit b' k"
  then have b': "b' = setbitg b i n v" "i' = i + n" by simp_all
  have "getbitg c i n = getbitg b' i n" by (rule getbitg_cong_bits) (use c b'(2) assms(1) in simp_all)
  also have "\<dots> = of_int v" using l assms unfolding b' by (simp add: getbitg_setbitg_same)
  finally show "run_state (rdg c n) i = (of_int v, i')" by (simp add: b'(2))
qed (rule writers)

text \<open>A coordinate field is the value rounded down.\<close>

lemma set38bits_floor: "set38bits b pos x = set38bits b pos (of_int \<lfloor>x\<rfloor>)"
proof -
  have h: "\<lfloor>x / 64\<rfloor> = \<lfloor>x\<rfloor> div 64" using floor_divide_real_eq_div [of 64 x] by simp
  have h': "\<lfloor>of_int \<lfloor>x\<rfloor> / (64 :: double)\<rfloor> = \<lfloor>x\<rfloor> div 64"
    using floor_divide_of_int_eq [of "\<lfloor>x\<rfloor>" 64, where 'a = real] by simp
  have "0 \<le> x - of_int (\<lfloor>x\<rfloor> div 64) * 64"
    using div_mult_mod_eq [of "\<lfloor>x\<rfloor>" 64] pos_mod_sign [of 64 "\<lfloor>x\<rfloor>"] by linarith
  then have "trunc (x - of_int (\<lfloor>x\<rfloor> div 64) * 64) = \<lfloor>x - of_int (\<lfloor>x\<rfloor> div 64 * 64)\<rfloor>"
    by (simp add: trunc_nonneg)
  also have "\<dots> = \<lfloor>x\<rfloor> - \<lfloor>x\<rfloor> div 64 * 64"
    by (rule floor_diff_of_int)
  also have "\<dots> = trunc (of_int \<lfloor>x\<rfloor> - of_int (\<lfloor>x\<rfloor> div 64) * 64)"
    using trunc_of_int [of "\<lfloor>x\<rfloor> - \<lfloor>x\<rfloor> div 64 * 64"] by simp
  finally show ?thesis unfolding set38bits_def Let_def h h' by simp
qed

lemma carries_38:
  assumes "- (2 ^ 37) \<le> \<lfloor>x\<rfloor>" and "\<lfloor>x\<rfloor> < 2 ^ 37"
  shows "carries (wr38 x) rd38 (of_int \<lfloor>x\<rfloor>)"
proof (rule carriesI)
  fix b i y b' i' and c :: "u8 list"
  assume "run_state (wr38 x) (b, i) = (y, b', i')" and l: "i' \<le> 8 * length b"
    and c: "\<And>k. i \<le> k \<Longrightarrow> k < i' \<Longrightarrow> bufbit c k = bufbit b' k"
  then have b': "b' = set38bits b i (of_int \<lfloor>x\<rfloor>)" "i' = i + 38"
    using set38bits_floor [of b i x] by simp_all
  have "getbits_38 c i = getbits_38 b' i" by (rule getbits_38_cong) (simp add: c b'(2))
  also have "\<dots> = of_int \<lfloor>x\<rfloor>" using l assms unfolding b' by (simp add: getbits_38_set38bits_same)
  finally show "run_state (rd38 c) i = (of_int \<lfloor>x\<rfloor>, i')" by (simp add: b'(2))
qed (rule writers)

subsection \<open>Sequences\<close>

lemma carries_skip: "carries (wru n v) (\<lambda>c. skip n) ()"
  by (rule carriesI) (auto intro: writers)

lemma carries_return: "carries (State_Monad.return ()) (\<lambda>c. State_Monad.return v) v"
  by (rule carriesI) (auto intro: writers)

lemma carries_bind:
  assumes "carries w rd v" and "carries w' (\<lambda>c. f c v) v'"
  shows "carries (do { w; w' }) (\<lambda>c. State_Monad.bind (rd c) (f c)) v'"
proof (rule carriesI)
  show "writes (do { w; w' })"
    using carriesD(1) [OF assms(1)] carriesD(1) [OF assms(2)] by (intro writers)
next
  fix b i x b2 i2 and c :: "u8 list"
  assume r: "run_state (do { w; w' }) (b, i) = (x, b2, i2)" and l: "i2 \<le> 8 * length b"
    and c: "\<And>k. i \<le> k \<Longrightarrow> k < i2 \<Longrightarrow> bufbit c k = bufbit b2 k"
  obtain y b1 i1 where w: "run_state w (b, i) = (y, b1, i1)" by (metis surj_pair)
  then have w': "run_state w' (b1, i1) = (x, b2, i2)" using r by simp
  note k1 = writesD [OF carriesD(1) [OF assms(1)] w] and k2 = writesD [OF carriesD(1) [OF assms(2)] w']
  have "run_state (rd c) i = (v, i1)"
    by (rule carriesD(2) [OF assms(1) w]) (use k1 k2 l c in auto)
  moreover have "run_state (f c v) i1 = (v', i2)"
    by (rule carriesD(2) [OF assms(2) w']) (use k1 k2 l c in auto)
  ultimately show "run_state (State_Monad.bind (rd c) (f c)) i = (v', i2)" by simp
qed

text \<open>The last field of a message, whose reader goes on to return a value.\<close>

lemma carries_last:
  assumes "carries w rd v"
  shows "carries w (\<lambda>c. State_Monad.bind (rd c) (\<lambda>x. State_Monad.return (g x))) (g v)"
proof (rule carriesI)
  show "writes w" by (rule carriesD(1) [OF assms])
next
  fix b i x b' i' and c :: "u8 list"
  assume "run_state w (b, i) = (x, b', i')" and "i' \<le> 8 * length b"
    and "\<And>k. i \<le> k \<Longrightarrow> k < i' \<Longrightarrow> bufbit c k = bufbit b' k"
  then have "run_state (rd c) i = (v, i')" by (rule carriesD(2) [OF assms])
  then show "run_state (State_Monad.bind (rd c) (\<lambda>x. State_Monad.return (g x))) i = (g v, i')" by simp
qed

lemma carries_eq: "carries w rd v \<Longrightarrow> v = v' \<Longrightarrow> carries w rd v'"
  by simp

lemma skip_add: "State_Monad.bind (skip (m + n)) f = State_Monad.bind (skip m) (\<lambda>_. State_Monad.bind (skip n) f)"
  by (simp add: skip_def State_Monad.bind_def add.assoc)

text \<open>The bits a reader skips are written in several fields.\<close>

lemma carries_skip_two:
  assumes "carries w (\<lambda>c. f c ()) v"
  shows "carries (do { wru m x; wru n y; w }) (\<lambda>c. State_Monad.bind (skip (m + n)) (f c)) v"
  unfolding skip_add by (rule carries_bind [OF carries_skip], rule carries_bind [OF carries_skip], rule assms)

lemma carries_skip_2:
  "carries w (\<lambda>c. f c ()) v \<Longrightarrow> carries (do { wru 1 x; wru 1 y; w }) (\<lambda>c. State_Monad.bind (skip 2) (f c)) v"
  using carries_skip_two [of w f v 1 x 1 y] by (simp add: numeral_2_eq_2)

lemma carries_skip_4:
  "carries w (\<lambda>c. f c ()) v \<Longrightarrow>
   carries (do { wru 1 x1; wru 1 x2; wru 1 x3; wru 1 x4; w }) (\<lambda>c. State_Monad.bind (skip 4) (f c)) v"
  using carries_skip_2 [OF carries_skip_2, of w "\<lambda>c _. f c" v x1 x2 x3 x4] by (simp add: skip_add [of 2 2, simplified])

lemmas carries_rules = carries_skip_4 carries_skip_2 carries_bind carries_last
  carries_u carries_s carries_g carries_38 carries_skip

section \<open>From one struct to another\<close>

lemma encode_put:
  assumes "put_bits rtcm w = Some (r, ret)" and "carries w rd v"
    and "\<And>k. 24 \<le> k \<Longrightarrow> k < r_nbit r \<Longrightarrow> bufbit c k = bufbit (r_buff r) k"
  shows "run_state (rd c) 24 = (v, r_nbit r)"
proof -
  obtain x b i where run: "run_state w (r_buff rtcm, 24) = (x, b, i)" by (metis surj_pair)
  then have r: "r = rtcm\<lparr>r_buff := b, r_nbit := i\<rparr>" "i \<le> 8 * length b"
    using assms(1) by (auto simp: put_bits_def split: if_splits)
  have "length b = length (r_buff rtcm)" by (rule writesD(1) [OF carriesD(1) [OF assms(2)] run])
  then show ?thesis
    using carriesD(2) [OF assms(2) run, of c] assms(3) r by simp
qed

lemma encode_put_msg:
  assumes "put_bits rtcm (do { wru 12 t; w }) = Some (r, ret)" and "carries w rd v"
    and "\<And>k. 24 \<le> k \<Longrightarrow> k < r_nbit r \<Longrightarrow> bufbit c k = bufbit (r_buff r) k"
  shows "getu c 24 12 = t mod 4096" and "run_state (rd c) 36 = (v, r_nbit r)"
proof -
  have "carries (do { wru 12 t; w }) (\<lambda>c. do { x \<leftarrow> rdu c 12; y \<leftarrow> rd c; State_Monad.return (x, y) })
      (t mod 2 ^ 12, v)"
    by (rule carries_bind [OF carries_u]) (simp_all add: carries_last [OF assms(2)])
  from encode_put [OF assms(1) this assms(3)]
  show "getu c 24 12 = t mod 4096" "run_state (rd c) 36 = (v, r_nbit r)"
    by (simp_all add: split_beta prod_eq_iff)
qed

text \<open>
  The bytes of a generated message, fed to an idle struct, reach its decoder in a buffer that has
  the bits the encoder wrote.
\<close>

definition opened :: "rtcm \<Rightarrow> rtcm" where
  "opened tx = tx\<lparr>r_nbit := 0, r_len := 0, r_nbyte := 0, r_buff := open_frame (r_buff tx)\<rparr>"

definition frame_of :: "rtcm \<Rightarrow> u8 list" where
  "frame_of tx = take (r_nbyte tx) (r_buff tx)"

definition received :: "rtcm \<Rightarrow> u8 list \<Rightarrow> rtcm" where
  "received rx f = (load rx f)\<lparr>r_nbyte := 0\<rparr>"

lemma generated_received:
  assumes "gen_rtcm3 tx type subtype sync = Some (tx', ret)" and "ret \<noteq> 0"
    and "length (r_buff tx) = 1200" and "length (r_buff rx) = 1200" and "r_nbyte rx = 0"
  obtains r rr where "encode_rtcm3 (opened tx) type subtype sync = Some (r, rr)" and "rr \<noteq> 0"
    and "is_frame (frame_of tx')" and "parity_ok (frame_of tx')"
    and "feed3 dcd rx (frame_of tx') =
      do { (rtcm, ret) \<leftarrow> dcd (received rx (frame_of tx')); Some (rtcm, if ret = 0 then [] else [ret]) }"
    and "r_nbit r \<le> 8 * r_len (received rx (frame_of tx'))"
    and "8 * r_len (received rx (frame_of tx')) < r_nbit r + 8"
    and "\<And>k. 24 \<le> k \<Longrightarrow> k < r_nbit r \<Longrightarrow> bufbit (r_buff (received rx (frame_of tx'))) k = bufbit (r_buff r) k"
proof -
  from assms(1) have g: "gen3 (\<lambda>r. encode_rtcm3 r type subtype sync) tx = Some (tx', ret)"
    by (simp add: gen_rtcm3_def)
  obtain f r rr where f: "take (r_nbyte tx') (r_buff tx') = f" "is_frame f" "parity_ok f"
    and e: "encode_rtcm3 (opened tx) type subtype sync = Some (r, rr)" "rr \<noteq> 0"
    and n: "r_nbit r \<le> 8 * (length f - 3)" "8 * (length f - 3) < r_nbit r + 8"
    and b: "\<And>i. 24 \<le> i \<Longrightarrow> i < r_nbit r \<Longrightarrow> bufbit f i = bufbit (r_buff r) i"
    using rtcm3e.gen3_frame [OF g assms(2,3)] unfolding opened_def by blast
  have fo: "frame_of tx' = f" using f(1) by (simp add: frame_of_def)
  have lf: "length f = frame_len f" "6 \<le> length f" "length f \<le> 1029"
    using f(2) frame_len_bounds [of f] by (auto simp: is_frame_def)
  have len: "r_len (received rx f) = length f - 3" using lf by (simp add: received_def load_def)
  show thesis
  proof (rule that [of r rr])
    show "feed3 dcd rx (frame_of tx') =
      do { (rtcm, ret) \<leftarrow> dcd (received rx (frame_of tx')); Some (rtcm, if ret = 0 then [] else [ret]) }"
      using feed3_frame [OF assms(4,5) f(2), of dcd] f(3) by (simp add: fo deliver_def received_def)
    show "bufbit (r_buff (received rx (frame_of tx'))) k = bufbit (r_buff r) k" if "24 \<le> k" "k < r_nbit r" for k
      using b [OF that] that n by (simp add: fo received_def load_def bufbit_def nth_append) linarith
  qed (use e f n fo len in simp_all)
qed

text \<open>Where the encoder of a message succeeds and the message is short enough, it is generated.\<close>

lemma gen_rtcm3_Some:
  assumes "encode_rtcm3 (opened tx) type subtype sync = Some (r, rr)" and "rr \<noteq> 0" and "r_nbit r \<le> 8208"
  obtains tx' where "gen_rtcm3 tx type subtype sync = Some (tx', 1)"
proof -
  obtain b i where p: "pad (r_buff r) (r_nbit r) = (b, i)" by fastforce
  have "i < r_nbit r + 8" "i mod 8 = 0" using pad_spec [OF p] by auto
  then have "i \<le> 8208" using assms(3) by presburger
  then have "\<not> 3 + 1024 \<le> i div 8" by simp
  then show thesis
    using that assms(1,2) p by (simp add: gen_rtcm3_def gen3_def opened_def Let_def)
qed

text \<open>
  A message whose encoder writes its number and the fields \<open>w\<close>, which the reader \<open>rd\<close>
  follows: it is generated, and the receiving decoder finds its number, its length and the values.
\<close>

lemma message_received:
  assumes tx: "length (r_buff tx) = 1200" and rx: "length (r_buff rx) = 1200" "r_nbyte rx = 0"
    and f: "type \<notin> {4073, 4076}" "map_of rtcm3_encoders type = Some f" "0 \<le> type" "type < 4096"
    and w: "f (opened tx) sync = put_bits t (do { wru 12 type; w })" "r_buff t = r_buff (opened tx)"
    and c: "carries w rd v" "writes_at_most n w" "n \<le> 8172"
  obtains tx' nbit where "gen_rtcm3 tx type subtype sync = Some (tx', 1)"
    and "is_frame (frame_of tx')" and "parity_ok (frame_of tx')"
    and "feed3 dcd rx (frame_of tx') =
      do { (rtcm, ret) \<leftarrow> dcd (received rx (frame_of tx')); Some (rtcm, if ret = 0 then [] else [ret]) }"
    and "msg_type (received rx (frame_of tx')) = type"
    and "run_state (rd (r_buff (received rx (frame_of tx')))) 36 = (v, nbit)"
    and "nbit \<le> 8 * r_len (received rx (frame_of tx'))" and "8 * r_len (received rx (frame_of tx')) < nbit + 8"
proof -
  have lt: "length (r_buff t) = 1200" using tx w(2) by (simp add: opened_def)
  have wr: "writes (do { wru 12 type; w })" using carriesD(1) [OF c(1)] by (intro writers)
  have n: "writes_at_most (12 + n) (do { wru 12 type; w })"
    by (rule writes_at_most_bind [OF writes_at_most_fields(2) c(2)])
  obtain r where put: "put_bits t (do { wru 12 type; w }) = Some (r, 1)"
    using put_bits_Some [OF wr n, of t] c(3) lt by auto
  have nbit: "r_nbit r \<le> 24 + (12 + n)"
  proof -
    obtain x b i where run: "run_state (do { wru 12 type; w }) (r_buff t, 24) = (x, b, i)" by (metis surj_pair)
    then have "r_nbit r = i" using put by (auto simp: put_bits_def split: if_splits)
    then show ?thesis using writes_at_mostD [OF n run] by simp
  qed
  have e: "encode_rtcm3 (opened tx) type subtype sync = Some (count_msg r type, 1)"
    using f w(1) put by (simp add: encode_rtcm3_def)
  obtain tx' where g: "gen_rtcm3 tx type subtype sync = Some (tx', 1)"
    using gen_rtcm3_Some [OF e] nbit c(3) by (auto simp: count_msg_def)
  obtain r' rr where r': "encode_rtcm3 (opened tx) type subtype sync = Some (r', rr)"
    and fr: "is_frame (frame_of tx')" "parity_ok (frame_of tx')"
    and feed: "feed3 dcd rx (frame_of tx') =
      do { (rtcm, ret) \<leftarrow> dcd (received rx (frame_of tx')); Some (rtcm, if ret = 0 then [] else [ret]) }"
    and len: "r_nbit r' \<le> 8 * r_len (received rx (frame_of tx'))"
      "8 * r_len (received rx (frame_of tx')) < r_nbit r' + 8"
    and bits: "\<And>k. 24 \<le> k \<Longrightarrow> k < r_nbit r' \<Longrightarrow>
      bufbit (r_buff (received rx (frame_of tx'))) k = bufbit (r_buff r') k"
    by (rule generated_received [OF g one_neq_zero tx rx, of dcd]) (rule that)
  have eq: "r_nbit r' = r_nbit r" "r_buff r' = r_buff r" using e r' by (auto simp: count_msg_def)
  note m = encode_put_msg [OF put c(1) bits [unfolded eq]]
  show thesis
    by (rule that [of tx' "r_nbit r"]) (use g fr feed len eq m f(3,4) in \<open>simp_all add: msg_type_def\<close>)
qed

section \<open>The decoder of a message\<close>

lemma decode_rtcm3_case:
  assumes "strstr (r_opt g) ''-RT_INP'' = None" and "map_of rtcm3_cases (msg_type g) = Some f"
  shows "decode_rtcm3 e g =
    do { (r, ret) \<leftarrow> f e g; Some (if ret \<ge> 0 then (count_msg r (msg_type g), ret) else (r, ret)) }"
  using assms by (simp add: decode_rtcm3_def rt_inp_def)

lemma received_simps [simp]:
  "r_opt (received rx f) = r_opt rx" "r_staid (received rx f) = r_staid rx" "r_sta (received rx f) = r_sta rx"
  "r_nav (received rx f) = r_nav rx" "r_time (received rx f) = r_time rx"
  "r_obsflag (received rx f) = r_obsflag rx"
  by (simp_all add: received_def load_def)

lemma opened_simps [simp]:
  "r_staid (opened tx) = r_staid tx" "r_sta (opened tx) = r_sta tx" "r_nav (opened tx) = r_nav tx"
  "r_ephsat (opened tx) = r_ephsat tx" "r_time (opened tx) = r_time tx"
  by (simp_all add: opened_def)

text \<open>A station id is accepted by a struct without options that has no station or the same one.\<close>

lemma test_staid_accepted:
  assumes "r_opt g = []" and "r_staid g = 0 \<or> r_staid g = sid"
  shows "test_staid g sid = (g\<lparr>r_staid := sid\<rparr>, True)"
  using assms by (auto simp: test_staid_def)

end
