(* ===== verification/RoundTrip.thy ===== *)
theory RoundTrip
  imports Wire
begin

text \<open>
  Messages end to end: a message generated from one control struct and fed to another, byte by byte,
  through encoder, frame, parity, framer and decoder.  For the reference point, the descriptors, the
  GLONASS biases and the GPS ephemeris the receiver's struct is given as a function of the sender's.
\<close>

lemma station_encoders:
  "map_of rtcm3_encoders 1005 = Some encode_type1005" "map_of rtcm3_encoders 1006 = Some encode_type1006"
  "map_of rtcm3_encoders 1033 = Some encode_type1033" "map_of rtcm3_encoders 1230 = Some encode_type1230"
  by (simp_all add: rtcm3_encoders_def ssr_encoders_def msm_encoders_def)

lemma station_decoders:
  "map_of rtcm3_cases 1005 = Some (total decode_type1005)" "map_of rtcm3_cases 1006 = Some (total decode_type1006)"
  "map_of rtcm3_cases 1033 = Some (\<lambda>e. decode_type1033)" "map_of rtcm3_cases 1230 = Some (total decode_type1230)"
  by (simp_all add: rtcm3_cases_def ssr_cases_def msm_cases_def)

text \<open>A receiver: an idle framer and no options.\<close>

definition receiver :: "rtcm \<Rightarrow> bool" where
  "receiver rx \<longleftrightarrow> length (r_buff rx) = 1200 \<and> r_nbyte rx = 0 \<and> r_opt rx = []"

lemma strstr_nil: "strstr [] s = None \<longleftrightarrow> s \<noteq> []"
  by simp

section \<open>Reference point\<close>

definition fits38 :: "double \<Rightarrow> bool" where
  "fits38 x \<longleftrightarrow> - (2 ^ 37) \<le> \<lfloor>x\<rfloor> \<and> \<lfloor>x\<rfloor> < 2 ^ 37"

definition arp_fits :: "sta \<Rightarrow> bool" where
  "arp_fits s \<longleftrightarrow> fits38 (sta_pos s ! 0 / 0.0001) \<and> fits38 (sta_pos s ! 1 / 0.0001) \<and>
     fits38 (sta_pos s ! 2 / 0.0001)"

text \<open>The coordinate a receiver gets: rounded down to a tenth of a millimetre.\<close>

definition arp_coord :: "double \<Rightarrow> double" where
  "arp_coord x = of_int \<lfloor>x / 0.0001\<rfloor> * 0.0001"

lemma arp_coord_error: "0 \<le> x - arp_coord x \<and> x - arp_coord x < 0.0001"
  unfolding arp_coord_def by simp linarith

definition arp_height :: "double \<Rightarrow> double" where
  "arp_height h = (if 0 \<le> h \<and> h \<le> 6.5535 then of_int (ROUND (h / 0.0001)) * 0.0001 else 0)"

lemma arp_height_field:
  "0 \<le> (if 0 \<le> h \<and> h \<le> 6.5535 then ROUND (h / 0.0001) else 0) \<and>
   (if 0 \<le> h \<and> h \<le> 6.5535 then ROUND (h / 0.0001) else 0) < 2 ^ 16"
  unfolding ROUND_def by (auto simp: floor_less_iff)

definition read_arp :: "u8 list \<Rightarrow> (nat, int \<times> int \<times> double \<times> double \<times> double \<times> int) state" where
  "read_arp b = do { staid \<leftarrow> rdu b 12; itrf \<leftarrow> rdu b 6; skip 4; rr0 \<leftarrow> rd38 b; skip 2; rr1 \<leftarrow> rd38 b; skip 2;
     rr2 \<leftarrow> rd38 b; anth \<leftarrow> rdu b 16; State_Monad.return (staid, itrf, rr0, rr1, rr2, anth) }"

lemma carries_1006:
  assumes "arp_fits s"
  shows "carries (do { wru 12 sid; wru 6 0; wru 1 1; wru 1 1; wru 1 0; wru 1 0;
          wr38 (sta_pos s ! 0 / 0.0001); wru 1 1; wru 1 0; wr38 (sta_pos s ! 1 / 0.0001); wru 2 0;
          wr38 (sta_pos s ! 2 / 0.0001); wru 16 hgt })
    read_arp
    (sid mod 2 ^ 12, 0, of_int \<lfloor>sta_pos s ! 0 / 0.0001\<rfloor>, of_int \<lfloor>sta_pos s ! 1 / 0.0001\<rfloor>,
     of_int \<lfloor>sta_pos s ! 2 / 0.0001\<rfloor>, hgt mod 2 ^ 16)"
  unfolding read_arp_def
  by (rule carries_eq,
      (rule carries_rules | (simp; fail) | (use assms in \<open>simp only: arp_fits_def fits38_def\<close>; fail))+)

lemma reference_point:
  assumes "length (r_buff tx) = 1200" and "receiver rx"
    and "0 \<le> r_staid tx" and "r_staid tx < 4096" and "r_staid rx = 0 \<or> r_staid rx = r_staid tx"
    and "arp_fits (r_sta tx)"
  obtains tx' rx' where "gen_rtcm3 tx 1006 subtype sync = Some (tx', 1)"
    and "feed3 (decode_rtcm3 e) rx (frame_of tx') = Some (rx', [5])"
    and "r_staid rx' = r_staid tx"
    and "sta_pos (r_sta rx') = map arp_coord (map (\<lambda>k. sta_pos (r_sta tx) ! k) [0, 1, 2])"
    and "sta_hgt (r_sta rx') = arp_height (sta_hgt (r_sta tx))"
proof -
  define hgt where "hgt = (if 0 \<le> sta_hgt (r_sta tx) \<and> sta_hgt (r_sta tx) \<le> 6.5535
    then ROUND (sta_hgt (r_sta tx) / 0.0001) else 0)"
  let ?w = "do { wru 12 (r_staid tx); wru 6 0; wru 1 1; wru 1 1; wru 1 0; wru 1 0;
          wr38 (sta_pos (r_sta tx) ! 0 / 0.0001); wru 1 1; wru 1 0; wr38 (sta_pos (r_sta tx) ! 1 / 0.0001); wru 2 0;
          wr38 (sta_pos (r_sta tx) ! 2 / 0.0001); wru 16 hgt }"
  have w: "encode_type1006 (opened tx) sync = put_bits (opened tx) (do { wru 12 1006; ?w })"
    by (simp add: encode_type1006_def write_arp_def Let_def hgt_def)
  have n: "writes_at_most 1000 ?w"
    by (rule writes_at_mostI) auto
  have r: "length (r_buff rx) = 1200" "r_nbyte rx = 0" "r_opt rx = []"
    using assms(2) by (simp_all add: receiver_def)
  obtain tx' nbit where g: "gen_rtcm3 tx 1006 subtype sync = Some (tx', 1)"
    and feed: "feed3 (decode_rtcm3 e) rx (frame_of tx') =
      do { (rtcm, ret) \<leftarrow> decode_rtcm3 e (received rx (frame_of tx'));
           Some (rtcm, if ret = 0 then [] else [ret]) }"
    and t: "msg_type (received rx (frame_of tx')) = 1006"
    and run: "run_state (read_arp (r_buff (received rx (frame_of tx')))) 36 =
      ((r_staid tx mod 2 ^ 12, 0, of_int \<lfloor>sta_pos (r_sta tx) ! 0 / 0.0001\<rfloor>, of_int \<lfloor>sta_pos (r_sta tx) ! 1 / 0.0001\<rfloor>,
        of_int \<lfloor>sta_pos (r_sta tx) ! 2 / 0.0001\<rfloor>, hgt mod 2 ^ 16), nbit)"
    and len: "nbit \<le> 8 * r_len (received rx (frame_of tx'))"
    by (rule message_received [OF assms(1) r(1,2) _ station_encoders(2) _ _ w refl carries_1006 [OF assms(6)] n,
        where subtype = subtype and dcd = "decode_rtcm3 e"]) (rule that | simp; fail)+
  define y where "y = received rx (frame_of tx')"
  have hgt: "hgt mod 65536 = hgt" "of_int hgt * 0.0001 = arp_height (sta_hgt (r_sta tx))"
    using arp_height_field [of "sta_hgt (r_sta tx)"] by (simp_all add: hgt_def arp_height_def)
  have run': "fst (run_state (read_arp (r_buff y)) 36) = (r_staid tx, 0, of_int \<lfloor>sta_pos (r_sta tx) ! 0 / 0.0001\<rfloor>,
      of_int \<lfloor>sta_pos (r_sta tx) ! 1 / 0.0001\<rfloor>, of_int \<lfloor>sta_pos (r_sta tx) ! 2 / 0.0001\<rfloor>, hgt)"
    using run assms(3,4) hgt by (simp add: y_def)
  have "nbit = 192" using arg_cong [OF run, of snd] by (simp add: read_arp_def)
  then have l: "24 + 12 + 156 \<le> r_len y * 8" using len by (simp add: y_def)
  have d: "decode_type1006 y = (y\<lparr>r_staid := r_staid tx, r_sta := (r_sta rx)\<lparr>sta_name := print_0d 4 (r_staid tx),
      sta_deltype := 1, sta_pos := map arp_coord (map (\<lambda>k. sta_pos (r_sta tx) ! k) [0, 1, 2]), sta_del := [0, 0, 0],
      sta_hgt := arp_height (sta_hgt (r_sta tx)), sta_itrf := 0\<rparr>\<rparr>, 5)"
    unfolding decode_type1006_def read_arp_def [symmetric] run' Let_def using l r(3) assms(5) hgt
    by (simp add: test_staid_accepted y_def arp_coord_def)
  show thesis
    using that [OF g] feed d t r(3)
    by (simp add: decode_rtcm3_case [OF _ station_decoders(2) [folded t]] y_def count_msg_def)
qed

section \<open>Descriptors\<close>

lemma byte_char_of_char: "byte_char (of_char c mod 2 ^ 8) = c"
proof -
  have "(of_char c :: int) mod 2 ^ 8 = of_char c" using of_char_mod_256 [of c, where 'a = int] by simp
  moreover have "nat (of_char c) = of_char c" by (metis nat_int of_nat_of_char)
  ultimately show ?thesis by (simp add: byte_char_def)
qed

text \<open>A counted string, as the decoders read it.\<close>

definition rd_string :: "u8 list \<Rightarrow> nat \<Rightarrow> (nat, string) state" where
  "rd_string b n = State (\<lambda>i. (read_chars b n i, chars_end n i))"

definition rd_counted :: "u8 list \<Rightarrow> (nat, nat \<times> string) state" where
  "rd_counted b = do { n \<leftarrow> rdu b 8; s \<leftarrow> rd_string b (nat n); State_Monad.return (nat n, s) }"

lemma rd_string_Cons:
  assumes "n < 31"
  shows "rd_string b (Suc n) = do { x \<leftarrow> rdu b 8; xs \<leftarrow> rd_string b n; State_Monad.return (byte_char x # xs) }"
proof (rule state_ext)
  fix i
  have "map (\<lambda>j. byte_char (getu b (i + 8 * j) 8)) [0..<Suc n] =
      byte_char (getu b i 8) # map (\<lambda>j. byte_char (getu b (i + 8 + 8 * j) 8)) [0..<n]"
    by (simp add: map_upt_Suc add.assoc del: upt_Suc)
  then show "run_state (rd_string b (Suc n)) i =
      run_state (do { x \<leftarrow> rdu b 8; xs \<leftarrow> rd_string b n; State_Monad.return (byte_char x # xs) }) i"
    using assms by (simp add: rd_string_def read_chars_def chars_end_def del: upt_Suc)
qed

lemma carries_string:
  "length cs \<le> 31 \<Longrightarrow> carries (wr_seq (map (\<lambda>c. wru 8 (of_char c)) cs)) (\<lambda>b. rd_string b (length cs)) cs"
proof (induction cs)
  case Nil
  have "rd_string b 0 = State_Monad.return []" for b
    by (rule state_ext) (simp add: rd_string_def read_chars_def chars_end_def)
  then show ?case by (simp add: carries_return)
next
  case (Cons c cs)
  then have IH: "carries (wr_seq (map (\<lambda>c. wru 8 (of_char c)) cs)) (\<lambda>b. rd_string b (length cs)) cs"
    and n: "length cs < 31" by simp_all
  have "carries (do { wru 8 (of_char c); wr_seq (map (\<lambda>c. wru 8 (of_char c)) cs) })
      (\<lambda>b. do { x \<leftarrow> rdu b 8; xs \<leftarrow> rd_string b (length cs); State_Monad.return (byte_char x # xs) })
      (byte_char (of_char c mod 2 ^ 8) # cs)"
    by (rule carries_bind [OF carries_u carries_last [OF IH]]) simp
  then show ?case by (simp only: rd_string_Cons [OF n] byte_char_of_char list.map wr_seq.simps length_Cons)
qed

lemma carries_chars: "carries (wr_chars s) rd_counted (min 31 (length s), take 31 s)"
proof -
  have l: "int (length (take 31 s)) mod 2 ^ 8 = int (length (take 31 s))" by simp
  have "carries (do { wru 8 (int (length (take 31 s))); wr_seq (map (\<lambda>c. wru 8 (of_char c)) (take 31 s)) })
     (\<lambda>b. do { n \<leftarrow> rdu b 8; s \<leftarrow> rd_string b (nat n); State_Monad.return (nat n, s) })
     (nat (int (length (take 31 s)) mod 2 ^ 8), take 31 s)"
    by (rule carries_bind [OF carries_u carries_last])
       (simp, unfold l nat_int, rule carries_string, simp)
  then show ?thesis unfolding wr_chars_def rd_counted_def Let_def l by (simp add: min.commute)
qed

definition read_1033 :: "u8 list \<Rightarrow> (nat, int \<times> (nat \<times> string) \<times> int \<times> (nat \<times> string) \<times>
    (nat \<times> string) \<times> (nat \<times> string) \<times> (nat \<times> string)) state" where
  "read_1033 b = do { staid \<leftarrow> rdu b 12; des \<leftarrow> rd_counted b; setup \<leftarrow> rdu b 8; sno \<leftarrow> rd_counted b;
     rcv \<leftarrow> rd_counted b; ver \<leftarrow> rd_counted b; rsn \<leftarrow> rd_counted b;
     State_Monad.return (staid, des, setup, sno, rcv, ver, rsn) }"

lemma carries_1033:
  "carries (do { wru 12 sid; wr_chars s1; wru 8 setup; wr_chars s2; wr_chars s3; wr_chars s4; wr_chars s5 })
     read_1033 (sid mod 2 ^ 12, (min 31 (length s1), take 31 s1), setup mod 2 ^ 8,
       (min 31 (length s2), take 31 s2), (min 31 (length s3), take 31 s3),
       (min 31 (length s4), take 31 s4), (min 31 (length s5), take 31 s5))"
  unfolding read_1033_def
  by (rule carries_eq, (rule carries_chars carries_rules | (simp; fail))+)

lemma run_counted:
  assumes "run_state (State_Monad.bind (rd_counted b) f) i = r"
  obtains n s where "nat (getu b i 8) = n" and "read_chars b n (i + 8) = s"
    and "\<And>j. j = i + 8 + 8 * min n 31 \<Longrightarrow> run_state (f (n, s)) j = r"
  using assms by (simp add: rd_counted_def rd_string_def chars_end_def)

text \<open>Where the decoder of 1033 looks for the fields the reader has found.\<close>

lemma read_1033_fields:
  assumes r: "run_state (read_1033 b) 36 =
      ((sid, (n, des), setup, (m, sno), (n1, rcv), (n2, ver), (n3, rsn)), nbit)"
    and l: "n \<le> 31" "m \<le> 31" "n1 \<le> 31" "n2 \<le> 31" "n3 \<le> 31"
  shows "getu b 36 12 = sid" and "nat (getu b 48 8) = n" and "read_chars b n 56 = des"
    and "getu b (56 + 8 * n) 8 = setup" and "nat (getu b (64 + 8 * n) 8) = m"
    and "read_chars b m (72 + 8 * n) = sno" and "nat (getu b (72 + 8 * (n + m)) 8) = n1"
    and "read_chars b n1 (80 + 8 * (n + m)) = rcv" and "nat (getu b (80 + 8 * (n + m + n1)) 8) = n2"
    and "read_chars b n2 (88 + 8 * (n + m + n1)) = ver"
    and "nat (getu b (88 + 8 * (n + m + n1 + n2)) 8) = n3"
    and "read_chars b n3 (96 + 8 * (n + m + n1 + n2)) = rsn"
    and "nbit = 96 + 8 * (n + m + n1 + n2 + n3)"
proof -
  let ?v = "((sid, (n, des), setup, (m, sno), (n1, rcv), (n2, ver), (n3, rsn)), nbit)"
  have 1: "run_state (do { des \<leftarrow> rd_counted b; setup \<leftarrow> rdu b 8;
      sno \<leftarrow> rd_counted b; rcv \<leftarrow> rd_counted b; ver \<leftarrow> rd_counted b; rsn \<leftarrow> rd_counted b;
      State_Monad.return (getu b 36 12, des, setup, sno, rcv, ver, rsn) }) 48 = ?v"
    using r unfolding read_1033_def by simp
  obtain a1 s1 where s1: "nat (getu b 48 8) = a1" "read_chars b a1 (48 + 8) = s1"
    and 2: "run_state (do { setup \<leftarrow> rdu b 8;
      sno \<leftarrow> rd_counted b; rcv \<leftarrow> rd_counted b; ver \<leftarrow> rd_counted b; rsn \<leftarrow> rd_counted b;
      State_Monad.return (getu b 36 12, (a1, s1), setup, sno, rcv, ver, rsn) }) (56 + 8 * min a1 31) = ?v"
    using 1 by (rule run_counted) (rule that, assumption, assumption, erule meta_allE, erule meta_mp, simp)
  let ?j1 = "64 + 8 * min a1 31"
  have 3: "run_state (do { sno \<leftarrow> rd_counted b; rcv \<leftarrow> rd_counted b; ver \<leftarrow> rd_counted b; rsn \<leftarrow> rd_counted b;
      State_Monad.return (getu b 36 12, (a1, s1), getu b (56 + 8 * min a1 31) 8, sno, rcv, ver, rsn) }) ?j1 = ?v"
    using 2 by (simp add: add.commute)
  obtain a2 s2 where s2: "nat (getu b ?j1 8) = a2" "read_chars b a2 (?j1 + 8) = s2"
    and 4: "run_state (do { rcv \<leftarrow> rd_counted b; ver \<leftarrow> rd_counted b; rsn \<leftarrow> rd_counted b;
      State_Monad.return (getu b 36 12, (a1, s1), getu b (56 + 8 * min a1 31) 8, (a2, s2), rcv, ver, rsn) })
      (72 + 8 * (min a1 31 + min a2 31)) = ?v"
    using 3 by (rule run_counted) (rule that, assumption, assumption, erule meta_allE, erule meta_mp, simp)
  let ?j2 = "72 + 8 * (min a1 31 + min a2 31)"
  obtain a3 s3 where s3: "nat (getu b ?j2 8) = a3" "read_chars b a3 (?j2 + 8) = s3"
    and 5: "run_state (do { ver \<leftarrow> rd_counted b; rsn \<leftarrow> rd_counted b;
      State_Monad.return (getu b 36 12, (a1, s1), getu b (56 + 8 * min a1 31) 8, (a2, s2), (a3, s3), ver, rsn) })
      (80 + 8 * (min a1 31 + min a2 31 + min a3 31)) = ?v"
    using 4 by (rule run_counted) (rule that, assumption, assumption, erule meta_allE, erule meta_mp, simp)
  let ?j3 = "80 + 8 * (min a1 31 + min a2 31 + min a3 31)"
  obtain a4 s4 where s4: "nat (getu b ?j3 8) = a4" "read_chars b a4 (?j3 + 8) = s4"
    and 6: "run_state (do { rsn \<leftarrow> rd_counted b;
      State_Monad.return (getu b 36 12, (a1, s1), getu b (56 + 8 * min a1 31) 8, (a2, s2), (a3, s3), (a4, s4), rsn) })
      (88 + 8 * (min a1 31 + min a2 31 + min a3 31 + min a4 31)) = ?v"
    using 5 by (rule run_counted) (rule that, assumption, assumption, erule meta_allE, erule meta_mp, simp)
  let ?j4 = "88 + 8 * (min a1 31 + min a2 31 + min a3 31 + min a4 31)"
  obtain a5 s5 where s5: "nat (getu b ?j4 8) = a5" "read_chars b a5 (?j4 + 8) = s5"
    and 7: "run_state (State_Monad.return
       (getu b 36 12, (a1, s1), getu b (56 + 8 * min a1 31) 8, (a2, s2), (a3, s3), (a4, s4), (a5, s5)))
      (96 + 8 * (min a1 31 + min a2 31 + min a3 31 + min a4 31 + min a5 31)) = ?v"
    using 6 by (rule run_counted) (rule that, assumption, assumption, erule meta_allE, erule meta_mp, simp)
  have v: "getu b 36 12 = sid" "a1 = n" "s1 = des" "getu b (56 + 8 * min a1 31) 8 = setup" "a2 = m" "s2 = sno"
    "a3 = n1" "s3 = rcv" "a4 = n2" "s4 = ver" "a5 = n3" "s5 = rsn"
    "96 + 8 * (min a1 31 + min a2 31 + min a3 31 + min a4 31 + min a5 31) = nbit"
    using 7 unfolding run_state_return prod.inject by iprover+
  note mins = min_absorb1 [OF l(1)] min_absorb1 [OF l(2)] min_absorb1 [OF l(3)] min_absorb1 [OF l(4)]
    min_absorb1 [OF l(5)]
  show "getu b 36 12 = sid" by (rule v)
  show "nat (getu b 48 8) = n" "read_chars b n 56 = des" "getu b (56 + 8 * n) 8 = setup"
    using s1 v(2-4) mins by simp_all
  show "nat (getu b (64 + 8 * n) 8) = m" "read_chars b m (72 + 8 * n) = sno"
    using s2 v(2,5,6) mins by (simp_all add: add.commute)
  show "nat (getu b (72 + 8 * (n + m)) 8) = n1" "read_chars b n1 (80 + 8 * (n + m)) = rcv"
    using s3 v mins by (simp_all add: add.commute)
  show "nat (getu b (80 + 8 * (n + m + n1)) 8) = n2" "read_chars b n2 (88 + 8 * (n + m + n1)) = ver"
    using s4 v mins by (simp_all add: add.commute)
  show "nat (getu b (88 + 8 * (n + m + n1 + n2)) 8) = n3"
    "read_chars b n3 (96 + 8 * (n + m + n1 + n2)) = rsn"
    using s5 v mins by (simp_all add: add.commute)
  show "nbit = 96 + 8 * (n + m + n1 + n2 + n3)" using v mins by simp
qed

definition no_nul :: "string \<Rightarrow> bool" where
  "no_nul s \<longleftrightarrow> CHR 0x00 \<notin> set s"

lemma strncpy_taken:
  assumes "no_nul s"
  shows "strncpy (take 31 s) (min 31 (length s)) = Some (take 31 s)"
proof -
  have "c_string (take 31 s) = take 31 s"
    using assms unfolding c_string_def takeWhile_eq_all_conv no_nul_def by (metis in_set_takeD)
  moreover have "take (min 31 (length s)) (take 31 s) = take 31 s" by (rule take_all) simp
  moreover have "min 31 (length s) < MAXANT" by (simp add: min_def)
  ultimately show ?thesis by (simp only: strncpy_def if_True)
qed

lemma decode_1033:
  assumes "run_state (read_1033 (r_buff y)) 36 =
      ((sid, (min 31 (length s1), take 31 s1), setup, (min 31 (length s2), take 31 s2),
        (min 31 (length s3), take 31 s3), (min 31 (length s4), take 31 s4), (min 31 (length s5), take 31 s5)), nbit)"
    and "nbit \<le> r_len y * 8" and "r_opt y = []" and "r_staid y = 0 \<or> r_staid y = sid"
    and "no_nul s1" and "no_nul s2" and "no_nul s3" and "no_nul s4" and "no_nul s5"
  shows "decode_type1033 y = Some (y\<lparr>r_staid := sid, r_sta := (r_sta y)\<lparr>sta_name := print_0d 4 sid,
      sta_antdes := take 31 s1, sta_antsetup := setup, sta_antsno := take 31 s2,
      sta_rectype := take 31 s3, sta_recver := take 31 s4, sta_recsno := take 31 s5\<rparr>\<rparr>, 5)"
proof -
  define n where "n = min 31 (length s1)"
  define m where "m = min 31 (length s2)"
  define n1 where "n1 = min 31 (length s3)"
  define n2 where "n2 = min 31 (length s4)"
  define n3 where "n3 = min 31 (length s5)"
  have l: "n \<le> 31" "m \<le> 31" "n1 \<le> 31" "n2 \<le> 31" "n3 \<le> 31"
    by (simp_all add: n_def m_def n1_def n2_def n3_def)
  note f = read_1033_fields [OF assms(1) [folded n_def m_def n1_def n2_def n3_def] l]
  have e: "chars_end k i = i + 8 * k" if "k \<le> 31" for k i using that by (simp add: chars_end_def)
  have len: "96 + 8 * (n + m + n1 + n2 + n3) \<le> r_len y * 8" using f(13) assms(2) by simp
  have st: "strncpy (take 31 s1) n = Some (take 31 s1)" "strncpy (take 31 s2) m = Some (take 31 s2)"
    "strncpy (take 31 s3) n1 = Some (take 31 s3)" "strncpy (take 31 s4) n2 = Some (take 31 s4)"
    "strncpy (take 31 s5) n3 = Some (take 31 s5)"
    using assms(5-9) by (simp_all add: strncpy_taken n_def m_def n1_def n2_def n3_def)
  have p: "24 + 12 = (36 :: nat)" "36 + 12 = (48 :: nat)" "48 + 8 = (56 :: nat)"
    "36 + 28 + 8 * n = 64 + 8 * n" "36 + 36 + 8 * (n + m) = 72 + 8 * (n + m)"
    "36 + 44 + 8 * (n + m + n1) = 80 + 8 * (n + m + n1)"
    "36 + 52 + 8 * (n + m + n1 + n2) = 88 + 8 * (n + m + n1 + n2)"
    "36 + 60 + 8 * (n + m + n1 + n2 + n3) = 96 + 8 * (n + m + n1 + n2 + n3)"
    "56 + 8 * n + 8 + 8 = 72 + 8 * n" "72 + 8 * n + 8 * m + 8 = 80 + 8 * (n + m)"
    "80 + 8 * (n + m) + 8 * n1 + 8 = 88 + 8 * (n + m + n1)"
    "88 + 8 * (n + m + n1) + 8 * n2 + 8 = 96 + 8 * (n + m + n1 + n2)"
    by simp_all
  show ?thesis
    unfolding decode_type1033_def Let_def
    by (simp only: p f e l len if_True test_staid_accepted [OF assms(3,4)] prod.case not_True_eq_False if_False st
        Option.bind.simps)  simp
qed


lemma writes_at_most_1033:
  "writes_at_most 1300 (do { wru 12 sid; wr_chars s1; wru 8 setup; wr_chars s2; wr_chars s3; wr_chars s4; wr_chars s5 })"
  by (rule writes_at_most_mono)
     ((rule writes_at_most_bind writes_at_most_fields writes_at_most_chars)+, simp)

lemma descriptors:
  assumes "length (r_buff tx) = 1200" and "receiver rx"
    and "0 \<le> r_staid tx" and "r_staid tx < 4096" and "r_staid rx = 0 \<or> r_staid rx = r_staid tx"
    and "s = r_sta tx" and "0 \<le> sta_antsetup s" and "sta_antsetup s < 256"
    and "\<forall>t \<in> {sta_antdes s, sta_antsno s, sta_rectype s, sta_recver s, sta_recsno s}. no_nul t"
  obtains tx' rx' where "gen_rtcm3 tx 1033 subtype sync = Some (tx', 1)"
    and "feed3 (decode_rtcm3 e) rx (frame_of tx') = Some (rx', [5])"
    and "r_sta rx' = (r_sta rx)\<lparr>sta_name := print_0d 4 (r_staid tx), sta_antdes := take 31 (sta_antdes s),
      sta_antsetup := sta_antsetup s, sta_antsno := take 31 (sta_antsno s),
      sta_rectype := take 31 (sta_rectype s), sta_recver := take 31 (sta_recver s),
      sta_recsno := take 31 (sta_recsno s)\<rparr>"
proof -
  let ?w = "do { wru 12 (r_staid tx); wr_chars (sta_antdes s); wru 8 (sta_antsetup s); wr_chars (sta_antsno s);
     wr_chars (sta_rectype s); wr_chars (sta_recver s); wr_chars (sta_recsno s) }"
  have w: "encode_type1033 (opened tx) sync = put_bits (opened tx) (do { wru 12 1033; ?w })"
    by (simp add: encode_type1033_def Let_def assms(6))
  have r: "length (r_buff rx) = 1200" "r_nbyte rx = 0" "r_opt rx = []"
    using assms(2) by (simp_all add: receiver_def)
  obtain tx' nbit where g: "gen_rtcm3 tx 1033 subtype sync = Some (tx', 1)"
    and feed: "feed3 (decode_rtcm3 e) rx (frame_of tx') =
      do { (rtcm, ret) \<leftarrow> decode_rtcm3 e (received rx (frame_of tx'));
           Some (rtcm, if ret = 0 then [] else [ret]) }"
    and t: "msg_type (received rx (frame_of tx')) = 1033"
    and run: "run_state (read_1033 (r_buff (received rx (frame_of tx')))) 36 =
      ((r_staid tx mod 2 ^ 12, (min 31 (length (sta_antdes s)), take 31 (sta_antdes s)), sta_antsetup s mod 2 ^ 8,
       (min 31 (length (sta_antsno s)), take 31 (sta_antsno s)),
       (min 31 (length (sta_rectype s)), take 31 (sta_rectype s)),
       (min 31 (length (sta_recver s)), take 31 (sta_recver s)),
       (min 31 (length (sta_recsno s)), take 31 (sta_recsno s))), nbit)"
    and len: "nbit \<le> 8 * r_len (received rx (frame_of tx'))"
    by (rule message_received [OF assms(1) r(1,2) _ station_encoders(3) _ _ w refl carries_1033 writes_at_most_1033,
        where subtype = subtype and dcd = "decode_rtcm3 e"]) (rule that | simp; fail)+
  have ids: "r_staid tx mod 2 ^ 12 = r_staid tx" "sta_antsetup s mod 2 ^ 8 = sta_antsetup s"
    using assms(3,4,7,8) by simp_all
  note d = decode_1033 [OF run [unfolded ids]]
  show thesis
    using that [OF g] feed t r(3) d len assms(5,9)
    by (simp add: decode_rtcm3_case [OF _ station_decoders(3) [folded t]] count_msg_def mult.commute)
qed

end
