(* ===== verification/EphTrip.thy ===== *)
theory EphTrip
  imports RoundTrip
begin

text \<open>
  A GPS ephemeris end to end: what a receiver stores for the message 1019 a sender generates from its
  table, parameter by parameter, when the parameters are in the range of their fields, the week is in
  the window of the receiver's clock and the time of the ephemeris within half a week of its time.
\<close>

section \<open>Fields\<close>

definition fits_s :: "nat \<Rightarrow> int \<Rightarrow> bool" where
  "fits_s n v \<longleftrightarrow> - (2 ^ (n - 1)) \<le> v \<and> v < 2 ^ (n - 1)"

definition fits_u :: "nat \<Rightarrow> int \<Rightarrow> bool" where
  "fits_u n v \<longleftrightarrow> 0 \<le> v \<and> v < 2 ^ n"

lemma carries_fits_s: "fits_s n v \<Longrightarrow> 0 < n \<Longrightarrow> n \<le> 32 \<Longrightarrow> carries (wrs n v) (\<lambda>c. rds c n) v"
  by (rule carries_s) (simp_all add: fits_s_def)

lemma carries_fits_u: "fits_u n v \<Longrightarrow> n \<le> 32 \<Longrightarrow> carries (wru n v) (\<lambda>c. rdu c n) v"
  by (rule carries_eq [OF carries_u]) (simp_all add: fits_u_def)

text \<open>The values a receiver gets of a parameter in units of a power of two, or of semicircles.\<close>

definition got_scaled :: "double \<Rightarrow> nat \<Rightarrow> double" where
  "got_scaled x n = of_int (scaled x n) * P2 n"

definition got_semi :: "double \<Rightarrow> nat \<Rightarrow> double" where
  "got_semi x n = of_int (semi x n) * P2 n * SC2RAD"

lemma round_error:
  assumes "0 < u"
  shows "\<bar>of_int (ROUND (x / u)) * u - x\<bar> \<le> u / 2"
proof -
  have "\<bar>of_int (ROUND (x / u)) - x / u\<bar> * u \<le> 1 / 2 * u"
    using ROUND_error [of "x / u"] assms by (intro mult_right_mono) simp_all
  moreover have "\<bar>of_int (ROUND (x / u)) - x / u\<bar> * u = \<bar>of_int (ROUND (x / u)) * u - x\<bar>"
    using assms by (simp add: abs_mult_pos left_diff_distrib)
  ultimately show ?thesis by simp
qed

lemma got_scaled_error: "\<bar>got_scaled x n - x\<bar> \<le> P2 n / 2"
  unfolding got_scaled_def scaled_def by (rule round_error) (simp add: P2_def)

lemma got_semi_error: "\<bar>got_semi x n - x\<bar> \<le> P2 n * SC2RAD / 2"
proof -
  have "0 < P2 n * SC2RAD" by (simp add: P2_def SC2RAD_def)
  from round_error [OF this, of x] show ?thesis
    by (simp add: got_semi_def semi_def mult.assoc divide_divide_eq_left)
qed

section \<open>Message 1019\<close>

definition in_range_1019 :: "eph \<Rightarrow> bool" where
  "in_range_1019 eph \<longleftrightarrow>
     fits_u 4 (eph_sva eph) \<and> fits_u 2 (eph_code eph) \<and> fits_s 14 (semi (eph_idot eph) 43) \<and>
     fits_u 8 (eph_iode eph) \<and> fits_u 16 (toc_field eph 16) \<and> fits_s 8 (scaled (eph_f2 eph) 55) \<and>
     fits_s 16 (scaled (eph_f1 eph) 43) \<and> fits_s 22 (scaled (eph_f0 eph) 31) \<and>
     fits_u 10 (eph_iodc eph) \<and> fits_s 16 (scaled (eph_crs eph) 5) \<and>
     fits_s 16 (semi (eph_deln eph) 43) \<and> fits_s 32 (semi (eph_M0 eph) 31) \<and>
     fits_s 16 (scaled (eph_cuc eph) 29) \<and> fits_u 32 (e_field eph) \<and>
     fits_s 16 (scaled (eph_cus eph) 29) \<and> fits_u 32 (sqrtA_field eph) \<and>
     fits_u 16 (ROUND (eph_toes eph / 16)) \<and> fits_s 16 (scaled (eph_cic eph) 29) \<and>
     fits_s 32 (semi (eph_OMG0 eph) 31) \<and> fits_s 16 (scaled (eph_cis eph) 29) \<and>
     fits_s 32 (semi (eph_i0 eph) 31) \<and> fits_s 16 (scaled (eph_crc eph) 5) \<and>
     fits_s 32 (semi (eph_omg eph) 31) \<and> fits_s 24 (semi (eph_OMGd eph) 43) \<and>
     fits_s 8 (scaled (eph_tgd eph ! 0) 31) \<and> fits_u 6 (eph_svh eph) \<and> fits_u 1 (eph_flag eph)"

text \<open>The parameters in the message, and the ephemeris a receiver makes of them at time \<open>t\<close>.\<close>

definition sent_1019 :: "eph \<Rightarrow> eph" where
  "sent_1019 eph = eph_zero\<lparr>eph_sva := eph_sva eph, eph_code := eph_code eph,
     eph_idot := got_semi (eph_idot eph) 43, eph_iode := eph_iode eph,
     eph_f2 := got_scaled (eph_f2 eph) 55, eph_f1 := got_scaled (eph_f1 eph) 43,
     eph_f0 := got_scaled (eph_f0 eph) 31, eph_iodc := eph_iodc eph,
     eph_crs := got_scaled (eph_crs eph) 5, eph_deln := got_semi (eph_deln eph) 43,
     eph_M0 := got_semi (eph_M0 eph) 31, eph_cuc := got_scaled (eph_cuc eph) 29,
     eph_e := of_int (e_field eph) * P2 33, eph_cus := got_scaled (eph_cus eph) 29,
     eph_toes := of_int (ROUND (eph_toes eph / 16)) * 16, eph_cic := got_scaled (eph_cic eph) 29,
     eph_OMG0 := got_semi (eph_OMG0 eph) 31, eph_cis := got_scaled (eph_cis eph) 29,
     eph_i0 := got_semi (eph_i0 eph) 31, eph_crc := got_scaled (eph_crc eph) 5,
     eph_omg := got_semi (eph_omg eph) 31, eph_OMGd := got_semi (eph_OMGd eph) 43,
     eph_tgd := [got_scaled (eph_tgd eph ! 0) 31, 0, 0, 0, 0, 0], eph_svh := eph_svh eph,
     eph_flag := eph_flag eph, eph_fit := (if eph_fit eph > 0 then 4 else 0)\<rparr>"

definition received_1019 :: "gtime \<Rightarrow> eph \<Rightarrow> eph" where
  "received_1019 t eph = (sent_1019 eph)\<lparr>eph_week := eph_week eph,
     eph_toe := gpst2time (eph_week eph) (of_int (ROUND (eph_toes eph / 16)) * 16),
     eph_toc := gpst2time (eph_week eph) (of_int (toc_field eph 16) * 16), eph_ttr := t,
     eph_sat := eph_sat eph, eph_A := of_int (sqrtA_field eph) * P2 19 * (of_int (sqrtA_field eph) * P2 19)\<rparr>"

definition tail_1019 :: "int \<Rightarrow> eph \<Rightarrow> (wstate, unit) state" where
  "tail_1019 prn eph =
    do { wru 6 prn; wru 10 (eph_week eph smod 1024); wru 4 (eph_sva eph);
         wru 2 (eph_code eph); wrs 14 (semi (eph_idot eph) 43); wru 8 (eph_iode eph);
         wru 16 (toc_field eph 16); wrs 8 (scaled (eph_f2 eph) 55); wrs 16 (scaled (eph_f1 eph) 43);
         wrs 22 (scaled (eph_f0 eph) 31); wru 10 (eph_iodc eph); wrs 16 (scaled (eph_crs eph) 5);
         wrs 16 (semi (eph_deln eph) 43); wrs 32 (semi (eph_M0 eph) 31);
         wrs 16 (scaled (eph_cuc eph) 29); wru 32 (e_field eph); wrs 16 (scaled (eph_cus eph) 29);
         wru 32 (sqrtA_field eph); wru 16 (ROUND (eph_toes eph / 16));
         wrs 16 (scaled (eph_cic eph) 29); wrs 32 (semi (eph_OMG0 eph) 31);
         wrs 16 (scaled (eph_cis eph) 29); wrs 32 (semi (eph_i0 eph) 31);
         wrs 16 (scaled (eph_crc eph) 5); wrs 32 (semi (eph_omg eph) 31);
         wrs 24 (semi (eph_OMGd eph) 43); wrs 8 (scaled (eph_tgd eph ! 0) 31); wru 6 (eph_svh eph);
         wru 1 (eph_flag eph); wru 1 (if eph_fit eph > 0 then 0 else 1) }"

lemma write_1019_tail: "write_1019 prn eph = do { wru 12 1019; tail_1019 prn eph }"
  by (simp add: write_1019_def tail_1019_def)

lemma smod_week: "0 \<le> w \<Longrightarrow> fits_u 10 (w smod 1024)"
  by (simp add: smod_nonneg fits_u_def)

lemma carries_1019:
  assumes r: "in_range_1019 eph" and w: "0 \<le> eph_week eph" and p: "fits_u 6 prn"
  shows "carries (tail_1019 prn eph) read_1019
    (prn, eph_week eph smod 1024, of_int (toc_field eph 16) * 16, of_int (sqrtA_field eph) * P2 19, sent_1019 eph)"
proof -
  have f: "fits_u 1 (if eph_fit eph > 0 then 0 else 1)" by (simp add: fits_u_def)
  note rs = r [unfolded in_range_1019_def] smod_week [OF w] p f
  show ?thesis
    unfolding tail_1019_def read_1019_def
    by (rule carries_eq,
        (rule carries_bind carries_last carries_fits_u carries_fits_s | (simp only: rs; fail) | (simp; fail))+)
       (simp add: sent_1019_def got_scaled_def got_semi_def)
qed

lemma writes_at_most_1019: "writes_at_most 500 (tail_1019 prn eph)"
  unfolding tail_1019_def by (rule writes_at_mostI) auto

text \<open>The week a receiver finds is the sender's where that one is in the window of its clock.\<close>

lemma adjgpsweek_unique:
  assumes "0 \<le> w" and "cur_week t - 1022 \<le> w" and "w \<le> cur_week t + 1"
  shows "adjgpsweek t (w smod 1024) = w"
proof -
  have m: "w smod 1024 = w mod 1024" using assms(1) by (simp add: smod_nonneg)
  note a = adjgpsweek_window [of "w mod 1024" t]
  have "1024 dvd adjgpsweek t (w mod 1024) - w" using a by (simp add: mod_eq_dvd_iff)
  moreover have "\<bar>adjgpsweek t (w mod 1024) - w\<bar> < 1024" using a assms by auto
  ultimately show ?thesis
    unfolding m using dvd_imp_le_int [of "adjgpsweek t (w mod 1024) - w" 1024] by force
qed

lemma decode_1019:
  assumes "fst (run_state (read_1019 (r_buff y)) 36) = (sat, week smod 1024, toc, sqrtA, eph)"
    and "512 \<le> r_len y * 8" and "1 \<le> sat" and "sat \<le> 32" and "r_opt y = []"
    and "gt_time (r_time y) \<noteq> 0"
    and "0 \<le> week" and "cur_week (now e) - 1022 \<le> week" and "week \<le> cur_week (now e) + 1"
    and "-302400 \<le> timediff (gpst2time week (eph_toes eph)) (r_time y)"
    and "timediff (gpst2time week (eph_toes eph)) (r_time y) < 302400"
    and "eph_iode eph \<noteq> eph_iode (old_eph y sat 0)"
  shows "decode_type1019 e y = put_eph y sat 0 (eph\<lparr>eph_week := week,
    eph_toe := gpst2time week (eph_toes eph), eph_toc := gpst2time week toc, eph_ttr := r_time y,
    eph_sat := sat, eph_A := sqrtA * sqrtA\<rparr>)"
proof -
  have s: "satno SYS_GPS sat = sat" "\<not> sat \<ge> 40" "sat \<noteq> 0" using assms(3,4) by (simp_all add: satno_def)
  have t: "get_time e y = y" using assms(6) by (simp add: get_time_def)
  have w: "near_week (timediff (gpst2time week (eph_toes eph)) (r_time y)) week = week"
    using assms(10,11) by (simp add: near_week_def)
  have o: "24 + 12 + 476 \<le> r_len y * 8" "\<not> eph_all y" using assms(2,5) by (simp_all add: eph_all_def)
  show ?thesis
    unfolding decode_type1019_def assms(1) Let_def prod.case if_P [OF o(1)] if_not_P [OF s(2)] s(1) if_not_P [OF s(3)]
      t adjgpsweek_unique [OF assms(7-9)] eph_times_def w
    using assms(12) o(2) by simp
qed


text \<open>What sender and receiver need for the ephemeris of a satellite to pass.\<close>

definition passes_1019 :: "env \<Rightarrow> rtcm \<Rightarrow> eph \<Rightarrow> bool" where
  "passes_1019 e rx eph \<longleftrightarrow>
     0 \<le> eph_week eph \<and> cur_week (now e) - 1022 \<le> eph_week eph \<and> eph_week eph \<le> cur_week (now e) + 1 \<and>
     gt_time (r_time rx) \<noteq> 0 \<and>
     -302400 \<le> timediff (eph_toe (received_1019 (r_time rx) eph)) (r_time rx) \<and>
     timediff (eph_toe (received_1019 (r_time rx) eph)) (r_time rx) < 302400 \<and>
     eph_iode eph \<noteq> eph_iode (old_eph rx (eph_sat eph) 0) \<and> length (nav_eph (r_nav rx)) = 442"

lemma ephemeris_1019:
  assumes "length (r_buff tx) = 1200" and "receiver rx"
    and "1 \<le> sat" and "sat \<le> 32" and "r_ephsat tx = sat" and "eph = old_eph tx sat 0" and "eph_sat eph = sat"
    and "in_range_1019 eph" and "passes_1019 e rx eph"
  obtains tx' rx' where "gen_rtcm3 tx 1019 subtype sync = Some (tx', 1)"
    and "feed3 (decode_rtcm3 e) rx (frame_of tx') = Some (rx', [2])"
    and "r_ephsat rx' = sat" and "r_ephset rx' = 0"
    and "old_eph rx' sat 0 = received_1019 (r_time rx) eph"
proof -
  note p = assms(9) [unfolded passes_1019_def]
  have sys: "satsys sat = (SYS_GPS, sat)" using assms(3,4) by (simp add: satsys_alt)
  have w: "encode_type1019 (opened tx) sync = put_bits (opened tx) (do { wru 12 1019; tail_1019 sat eph })"
    using assms(5-7) sys by (simp add: encode_type1019_def eph_msg_def write_1019_tail old_eph_def)
  have enc: "map_of rtcm3_encoders 1019 = Some encode_type1019"
    and dcd: "map_of rtcm3_cases 1019 = Some (total_env decode_type1019)"
    by (simp_all add: rtcm3_encoders_def ssr_encoders_def msm_encoders_def rtcm3_cases_def ssr_cases_def
        msm_cases_def)
  have r: "length (r_buff rx) = 1200" "r_nbyte rx = 0" "r_opt rx = []"
    using assms(2) by (simp_all add: receiver_def)
  have c: "carries (tail_1019 sat eph) read_1019 (sat, eph_week eph smod 1024, of_int (toc_field eph 16) * 16,
      of_int (sqrtA_field eph) * P2 19, sent_1019 eph)"
    using carries_1019 assms(3,4,8) p by (simp add: fits_u_def)
  obtain tx' nbit where g: "gen_rtcm3 tx 1019 subtype sync = Some (tx', 1)"
    and feed: "feed3 (decode_rtcm3 e) rx (frame_of tx') =
      do { (rtcm, ret) \<leftarrow> decode_rtcm3 e (received rx (frame_of tx'));
           Some (rtcm, if ret = 0 then [] else [ret]) }"
    and t: "msg_type (received rx (frame_of tx')) = 1019"
    and run: "run_state (read_1019 (r_buff (received rx (frame_of tx')))) 36 =
      ((sat, eph_week eph smod 1024, of_int (toc_field eph 16) * 16,
        of_int (sqrtA_field eph) * P2 19, sent_1019 eph), nbit)"
    and len: "nbit \<le> 8 * r_len (received rx (frame_of tx'))"
    by (rule message_received [OF assms(1) r(1,2) _ enc _ _ w refl c writes_at_most_1019,
        where subtype = subtype and dcd = "decode_rtcm3 e"]) (rule that | simp; fail)+
  define y where "y = received rx (frame_of tx')"
  have "nbit = 512" using arg_cong [OF run, of snd] by (simp add: read_1019_def)
  then have l: "512 \<le> r_len y * 8" using len by (simp add: y_def)
  have old: "old_eph y sat 0 = old_eph rx sat 0" by (simp add: y_def old_eph_def)
  have toes: "eph_toes (sent_1019 eph) = of_int (ROUND (eph_toes eph / 16)) * 16"
    and iode: "eph_iode (sent_1019 eph) = eph_iode eph" by (simp_all add: sent_1019_def)
  have d: "decode_type1019 e y = put_eph y sat 0 (received_1019 (r_time rx) eph)"
    by (subst decode_1019 [OF arg_cong [OF run, of fst, unfolded fst_conv, folded y_def] l assms(3,4)])
       (use p r(3) assms(7) in \<open>simp_all add: y_def [symmetric] toes iode old received_1019_def\<close>,
        simp_all add: y_def)
  have y: "r_opt y = []" "msg_type y = 1019" "length (nav_eph (r_nav y)) = 442"
    using r(3) t p by (simp_all add: y_def)
  have "decode_rtcm3 e y = Some (count_msg (fst (put_eph y sat 0 (received_1019 (r_time rx) eph))) 1019, 2)"
    using y(1) d by (simp add: decode_rtcm3_case [OF _ dcd [folded y(2)]] put_eph_def y(2))
  then show thesis
    using that [OF g] feed y(3) assms(3,4) by (simp add: y_def [symmetric] count_msg_def put_eph_def old_eph_def)
qed

end
