(* ===== verification/MsmCells.thy ===== *)
theory MsmCells
  imports Rtcm3e
begin

text \<open>
  The cells of a multiple signal message.  The arrays of lock times, half-cycle flags and signal
  strengths are filled by the loop over the observations, so a message is well defined exactly where
  that loop reaches every cell the cell mask counts.  It does for the cells 1 to 63; the 64th is
  passed over (\<^verbatim>\<open>rtcm3e.c\<close> compares the cell number, which counts from 1, with 64).
\<close>

section \<open>Index\<close>

lemma number_spec:
  "number mx xs n = (ys, m) \<Longrightarrow> n \<le> mx \<Longrightarrow>
   length ys = length xs \<and> m \<le> mx \<and>
   (\<forall>c. n < c \<and> c \<le> m \<longrightarrow> (\<exists>i < length xs. xs ! i \<noteq> 0 \<and> ys ! i = c))"
proof (induction mx xs n arbitrary: ys m rule: number.induct)
  case (2 mx x xs n)
  show ?case
  proof (cases "x \<noteq> 0 \<and> n < mx")
    case True
    then obtain zs where r: "number mx xs (n + 1) = (zs, m)" "ys = (n + 1) # zs"
      using "2.prems"(1) by (auto split: prod.split_asm)
    have IH: "length zs = length xs" "m \<le> mx"
      "\<And>c. n + 1 < c \<Longrightarrow> c \<le> m \<Longrightarrow> \<exists>i < length xs. xs ! i \<noteq> 0 \<and> zs ! i = c"
      using "2.IH"(1) [OF True r(1)] True by auto
    have "\<exists>i < length (x # xs). (x # xs) ! i \<noteq> 0 \<and> ys ! i = c" if "n < c" "c \<le> m" for c
    proof (cases "c = n + 1")
      case False
      then obtain i where "i < length xs" "xs ! i \<noteq> 0" "zs ! i = c" using IH(3) [of c] \<open>n < c\<close> \<open>c \<le> m\<close> by auto
      then show ?thesis unfolding r(2) by (intro exI [of _ "Suc i"]) simp
    qed (use True r(2) in auto)
    then show ?thesis using IH(1,2) r(2) by simp
  next
    case False
    then obtain zs where r: "number mx xs n = (zs, m)" "ys = x # zs"
      using "2.prems"(1) by (auto split: prod.split_asm)
    have IH: "length zs = length xs" "m \<le> mx"
      "\<And>c. n < c \<Longrightarrow> c \<le> m \<Longrightarrow> \<exists>i < length xs. xs ! i \<noteq> 0 \<and> zs ! i = c"
      using "2.IH"(2) [OF False r(1)] "2.prems"(2) by auto
    have "\<exists>i < length (x # xs). (x # xs) ! i \<noteq> 0 \<and> ys ! i = c" if c: "n < c" "c \<le> m" for c
    proof -
      obtain i where "i < length xs" "xs ! i \<noteq> 0" "zs ! i = c" using IH(3) [OF c] by auto
      then show ?thesis unfolding r(2) by (intro exI [of _ "Suc i"]) simp
    qed
    then show ?thesis using IH(1,2) r(2) by simp
  qed
qed simp

lemma fold_mark:
  assumes "fold (\<lambda>v xs. xs[p v := 1]) vs xs ! i \<noteq> (0 :: nat)" and "xs ! i = 0"
  shows "\<exists>v \<in> set vs. p v = i"
proof (rule ccontr)
  assume n: "\<not> (\<exists>v \<in> set vs. p v = i)"
  have "fold (\<lambda>v xs. xs[p v := 1]) vs xs ! i = xs ! i"
    using n by (induction vs arbitrary: xs) (simp_all add: nth_list_update_neq)
  then show False using assms by simp
qed

lemma length_fold_mark [simp]: "length (fold (\<lambda>v xs. xs[p v := x]) vs xs) = length xs"
  by (induction vs arbitrary: xs) simp_all

definition visit_pos :: "msm_index \<Rightarrow> visit \<Rightarrow> nat" where
  "visit_pos mi v = (case v of (d, j, sat, sig) \<Rightarrow> cell_pos (mi_sat mi) (mi_sig mi) (mi_nsig mi) sat sig)"

text \<open>What the index gives: its sizes, and an observed signal for every cell it counts.\<close>

lemma gen_msm_index_spec:
  assumes "mi = gen_msm_index rtcm sys"
  shows "length (mi_sat mi) = 64" and "length (mi_sig mi) = 32" and "mi_nsat mi \<le> 64" and "mi_ncell mi \<le> 64"
    and "1 \<le> c \<Longrightarrow> c \<le> mi_ncell mi \<Longrightarrow> \<exists>v \<in> set (msm_visits rtcm sys). mi_cell mi ! visit_pos mi v = c"
proof -
  define vs where "vs = msm_visits rtcm sys"
  obtain sat_ind nsat where s: "number 64 (fold (\<lambda>(d, j, sat, sig) s. s[sat - 1 := 1]) vs (replicate 64 0)) 0 = (sat_ind, nsat)"
    by fastforce
  obtain sig_ind nsig where g: "number 32 (fold (\<lambda>(d, j, sat, sig) s. s[sig - 1 := 1]) vs (replicate 32 0)) 0 = (sig_ind, nsig)"
    by fastforce
  define p where "p = (\<lambda>v :: visit. case v of (d, j, sat, sig) \<Rightarrow> cell_pos sat_ind sig_ind nsig sat sig)"
  define marked where "marked = fold (\<lambda>v c. c[p v := 1]) vs (replicate (32 * 64) (0 :: nat))"
  obtain cells ncell where c: "number 64 (take (nsat * nsig) marked) 0 = (cells, ncell)" by fastforce
  have pe: "(\<lambda>(d, j, sat, sig) c. c[cell_pos sat_ind sig_ind nsig sat sig := 1]) = (\<lambda>v c. c[p v := 1])"
    "(\<lambda>(d, j, sat, sig) s. s[sat - 1 := 1]) = (\<lambda>v :: visit. \<lambda>s. s[fst (snd (snd v)) - 1 := 1 :: nat])"
    "(\<lambda>(d, j, sat, sig) s. s[sig - 1 := 1]) = (\<lambda>v :: visit. \<lambda>s. s[snd (snd (snd v)) - 1 := 1 :: nat])"
    by (auto simp: p_def fun_eq_iff)
  have mi: "mi = \<lparr>mi_nsat = nsat, mi_nsig = nsig, mi_ncell = ncell, mi_sat = sat_ind, mi_sig = sig_ind,
      mi_cell = cells @ drop (nsat * nsig) marked\<rparr>"
    unfolding assms gen_msm_index_def Let_def vs_def [symmetric]
    unfolding s g prod.case pe(1) marked_def [symmetric] c by simp
  note sn = number_spec [OF s zero_le] and gn = number_spec [OF g zero_le] and cn = number_spec [OF c zero_le]
  show "length (mi_sat mi) = 64" "mi_nsat mi \<le> 64" using sn unfolding pe mi by simp_all
  show "length (mi_sig mi) = 32" using gn unfolding pe mi by simp
  show "mi_ncell mi \<le> 64" using cn unfolding mi by simp
  show "\<exists>v \<in> set (msm_visits rtcm sys). mi_cell mi ! visit_pos mi v = n" if n: "1 \<le> n" "n \<le> mi_ncell mi" for n
  proof -
    have n': "0 < n \<and> n \<le> ncell" using n unfolding mi by simp
    obtain i where i: "i < length (take (nsat * nsig) marked)" "take (nsat * nsig) marked ! i \<noteq> 0" "cells ! i = n"
      using mp [OF spec [OF conjunct2 [OF conjunct2 [OF cn]]] n'] by blast
    then have m: "marked ! i \<noteq> 0" by simp
    have "i < 32 * 64" using i(1) unfolding marked_def by simp
    then have z: "replicate (32 * 64) (0 :: nat) ! i = 0" by (rule nth_replicate)
    then obtain v where v: "v \<in> set vs" "p v = i"
      using fold_mark [OF m [unfolded marked_def] z] by blast
    have "mi_cell mi ! visit_pos mi v = n"
      using v i cn unfolding mi by (simp add: visit_pos_def p_def nth_append split: prod.split_asm)
    then show ?thesis using v(1) unfolding vs_def by blast
  qed
qed

text \<open>The number of cells, without the part of the array that no signal of a short message marks.\<close>

lemma take_fold_mark: "take n (fold (\<lambda>v xs. xs[p v := x]) vs xs) = fold (\<lambda>v xs. xs[p v := x]) vs (take n xs)"
  by (induction vs arbitrary: xs) (simp_all add: take_update_swap)

lemma gen_msm_index_ncell:
  "mi_ncell (gen_msm_index rtcm sys) =
    (let ps = map (\<lambda>(d, j, sat, sig). (sat, sig)) (msm_visits rtcm sys);
         (sat_ind, nsat) = number 64 (fold (\<lambda>(sat, sig) s. s[sat - 1 := 1]) ps (replicate 64 0)) 0;
         (sig_ind, nsig) = number 32 (fold (\<lambda>(sat, sig) s. s[sig - 1 := 1]) ps (replicate 32 0)) 0
     in snd (number 64 (fold (\<lambda>(sat, sig) c. c[cell_pos sat_ind sig_ind nsig sat sig := 1]) ps
          (replicate (min (nsat * nsig) 2048) 0)) 0))"
  unfolding gen_msm_index_def Let_def case_prod_beta fold_map comp_def
  by (simp add: take_fold_mark case_prod_beta)

section \<open>Cells\<close>

text \<open>The entries of a cell are set; the arrays have their sizes.\<close>

definition cell_set :: "nat \<Rightarrow> msm_cells \<Rightarrow> bool" where
  "cell_set c mc \<longleftrightarrow> mc_lock mc ! c \<noteq> None \<and> mc_half mc ! c \<noteq> None \<and> mc_cnr mc ! c \<noteq> None"

definition cells_sized :: "msm_cells \<Rightarrow> bool" where
  "cells_sized mc \<longleftrightarrow> length (mc_lock mc) = 64 \<and> length (mc_half mc) = 64 \<and> length (mc_cnr mc) = 64"

lemma gen_msm_sig1_cells:
  obtains "64 \<le> mi_cell mi ! visit_pos mi v" "gen_msm_sig1 sys mi rrng rrate v st = st"
  | l h n where "mi_cell mi ! visit_pos mi v < 64"
      "mc_lock (snd (gen_msm_sig1 sys mi rrng rrate v st)) = (mc_lock (snd st))[mi_cell mi ! visit_pos mi v - 1 := Some l]"
      "mc_half (snd (gen_msm_sig1 sys mi rrng rrate v st)) = (mc_half (snd st))[mi_cell mi ! visit_pos mi v - 1 := Some h]"
      "mc_cnr (snd (gen_msm_sig1 sys mi rrng rrate v st)) = (mc_cnr (snd st))[mi_cell mi ! visit_pos mi v - 1 := Some n]"
proof (cases "64 \<le> mi_cell mi ! visit_pos mi v")
  case True
  then have "gen_msm_sig1 sys mi rrng rrate v st = st"
    by (simp add: gen_msm_sig1_def Let_def case_prod_beta visit_pos_def cell_pos_def)
  then show thesis using True that(1) by blast
next
  case False
  then show thesis
    by (intro that(2)) (simp_all add: gen_msm_sig1_def Let_def case_prod_beta visit_pos_def cell_pos_def)
qed

lemma gen_msm_sig_invariant:
  assumes "P cells0" and "\<And>v st. P (snd st) \<Longrightarrow> P (snd (gen_msm_sig1 sys mi rrng rrate v st))"
  shows "P (snd (fold (gen_msm_sig1 sys mi rrng rrate) vs (rtcm, cells0)))"
proof -
  have "P (snd st) \<Longrightarrow> P (snd (fold (gen_msm_sig1 sys mi rrng rrate) vs st))" for st
    by (induction vs arbitrary: st) (simp_all add: assms(2))
  then show ?thesis using assms(1) by simp
qed

lemma cells_sized_step: "cells_sized (snd st) \<Longrightarrow> cells_sized (snd (gen_msm_sig1 sys mi rrng rrate v st))"
  by (rule gen_msm_sig1_cells [of mi v sys rrng rrate st]) (simp_all add: cells_sized_def)

lemma cells_sized_sig: "cells_sized (snd (fold (gen_msm_sig1 sys mi rrng rrate) vs (rtcm, cells0)))"
  by (rule gen_msm_sig_invariant) (simp_all add: cells_sized_step, simp add: cells_sized_def cells0_def)

text \<open>No signal sets the entry of the 64th cell.\<close>

lemma cell_index_neq: "n < 64 \<Longrightarrow> n - 1 \<noteq> (63 :: nat)"
  by simp

lemma cell_64_unset: "mc_lock (snd (gen_msm_sig rtcm sys mi rrng rrate)) ! 63 = None"
  unfolding gen_msm_sig_def
proof (rule gen_msm_sig_invariant)
  fix v and st :: "rtcm \<times> msm_cells"
  assume "mc_lock (snd st) ! 63 = None"
  then show "mc_lock (snd (gen_msm_sig1 sys mi rrng rrate v st)) ! 63 = None"
    using gen_msm_sig1_cells [of mi v sys rrng rrate st] by (metis (no_types, lifting) cell_index_neq nth_list_update_neq)
qed (simp add: cells0_def)

text \<open>The entry of any other cell is set by a signal of the cell, and stays set.\<close>

lemma cell_set_step:
  assumes "cells_sized (snd st)"
  shows "cell_set c (snd st) \<Longrightarrow> cell_set c (snd (gen_msm_sig1 sys mi rrng rrate v st))"
    and "mi_cell mi ! visit_pos mi v < 64 \<Longrightarrow> c = mi_cell mi ! visit_pos mi v - 1 \<Longrightarrow>
      cell_set c (snd (gen_msm_sig1 sys mi rrng rrate v st))"
proof -
  show "cell_set c (snd st) \<Longrightarrow> cell_set c (snd (gen_msm_sig1 sys mi rrng rrate v st))"
    by (rule gen_msm_sig1_cells [of mi v sys rrng rrate st])
       (use assms in \<open>simp_all add: cell_set_def cells_sized_def nth_list_update\<close>)
  show "mi_cell mi ! visit_pos mi v < 64 \<Longrightarrow> c = mi_cell mi ! visit_pos mi v - 1 \<Longrightarrow>
      cell_set c (snd (gen_msm_sig1 sys mi rrng rrate v st))"
    by (rule gen_msm_sig1_cells [of mi v sys rrng rrate st])
       (use assms in \<open>simp_all add: cell_set_def cells_sized_def nth_list_update\<close>)
qed

lemma cell_set_fold:
  assumes "cells_sized (snd st)"
    and "cell_set c (snd st) \<or> (\<exists>v \<in> set vs. mi_cell mi ! visit_pos mi v < 64 \<and> c = mi_cell mi ! visit_pos mi v - 1)"
  shows "cell_set c (snd (fold (gen_msm_sig1 sys mi rrng rrate) vs st))"
  using assms
proof (induction vs arbitrary: st)
  case (Cons v vs)
  let ?st = "gen_msm_sig1 sys mi rrng rrate v st"
  have "cells_sized (snd ?st)" using Cons.prems(1) by (rule cells_sized_step)
  moreover have "cell_set c (snd ?st) \<or>
      (\<exists>v \<in> set vs. mi_cell mi ! visit_pos mi v < 64 \<and> c = mi_cell mi ! visit_pos mi v - 1)"
    using Cons.prems(2) cell_set_step [OF Cons.prems(1)] unfolding set_simps(2) bex_simps by blast
  ultimately show ?case using Cons.IH [of ?st] by simp
qed simp

lemma cell_set_sig:
  assumes "mi = gen_msm_index rtcm sys" and "c < mi_ncell mi" and "c < 63"
  shows "cell_set c (snd (gen_msm_sig rtcm sys mi rrng rrate))"
proof -
  obtain v where "v \<in> set (msm_visits rtcm sys)" "mi_cell mi ! visit_pos mi v = Suc c"
    using gen_msm_index_spec(5) [OF assms(1), of "Suc c"] assms(2) by auto
  then have "\<exists>v \<in> set (msm_visits rtcm sys). mi_cell mi ! visit_pos mi v < 64 \<and> c = mi_cell mi ! visit_pos mi v - 1"
    using assms(3) by force
  then show ?thesis
    unfolding gen_msm_sig_def by (intro cell_set_fold disjI2) (simp add: cells_sized_def cells0_def)
qed

section \<open>Messages\<close>

lemma those_None_iff: "those xs = None \<longleftrightarrow> None \<in> set xs"
  by (induction xs) (auto split: option.split)

lemma sent_Some: "(\<And>i. i < n \<Longrightarrow> xs ! i \<noteq> None) \<Longrightarrow> n \<le> length xs \<Longrightarrow> \<exists>ys. sent n xs = Some ys \<and> length ys = n"
proof -
  assume x: "\<And>i. i < n \<Longrightarrow> xs ! i \<noteq> None" and n: "n \<le> length xs"
  have "None \<notin> set (take n xs)" using x by (auto simp: in_set_conv_nth)
  then obtain ys where ys: "those (take n xs) = Some ys" using those_None_iff [of "take n xs"] by auto
  have "those zs = Some ws \<Longrightarrow> length ws = length zs" for zs :: "'a option list" and ws
    by (induction zs arbitrary: ws) (auto split: option.split_asm)
  from this [OF ys] show ?thesis using ys n by (simp add: sent_def)
qed

lemma sent_None: "i < n \<Longrightarrow> i < length xs \<Longrightarrow> xs ! i = None \<Longrightarrow> sent n xs = None"
  unfolding sent_def those_None_iff in_set_conv_nth by (intro exI [of _ i]) simp

text \<open>The sizes of the parts of a message.\<close>

lemma writes_at_most_row:
  assumes "\<And>x. writes_at_most n (f x)" and "length xs \<le> k"
  shows "writes_at_most (n * k) (wr_seq (map f xs))"
  by (rule writes_at_most_mono [OF writes_at_most_seq [of _ n]]) (use assms in auto)

lemma writes_at_most_msm_fields:
  assumes "n \<le> 64" and "length ls \<le> 64" and "length is \<le> 64"
  shows "writes_at_most 512 (encode_msm_int_rrng xs n)" "writes_at_most 640 (encode_msm_mod_rrng xs n)"
    "writes_at_most 256 (encode_msm_info js n)" "writes_at_most 896 (encode_msm_rrate xs n)"
    "writes_at_most 960 (encode_msm_psrng xs n)" "writes_at_most 1280 (encode_msm_psrng_ex xs n)"
    "writes_at_most 1408 (encode_msm_phrng xs n)" "writes_at_most 1536 (encode_msm_phrng_ex xs n)"
    "writes_at_most 256 (encode_msm_lock ls)" "writes_at_most 640 (encode_msm_lock_ex ls)"
    "writes_at_most 64 (encode_msm_half_amb is)" "writes_at_most 384 (encode_msm_cnr ls)"
    "writes_at_most 640 (encode_msm_cnr_ex ls)" "writes_at_most 960 (encode_msm_rate xs n)"
  unfolding msm_fields
  by ((rule writes_at_most_mono, rule writes_at_most_row [where k = 64],
       rule writes_at_most_fields, use assms in \<open>simp add: min_def\<close>, simp)+)

lemma msm_head_size:
  assumes "encode_msm_head type rtcm sys sync = Some (rtcm', mi, ms, mc, head)"
  shows "mi = gen_msm_index rtcm sys" and "mc = snd (gen_msm_sig rtcm sys mi (ms_rrng ms) (ms_rrate ms))"
    and "writes_at_most 233 head" and "r_buff rtcm' = r_buff rtcm" and "writes head"
proof -
  obtain base where b: "msm_base sys = Some base"
    using assms by (cases "msm_base sys") (simp_all add: encode_msm_head_def)
  show mi: "mi = gen_msm_index rtcm sys" "mc = snd (gen_msm_sig rtcm sys mi (ms_rrng ms) (ms_rrate ms))"
    using assms b by (auto simp: encode_msm_head_def Let_def case_prod_beta)
  have h: "head = do { wru 12 (type + base); wru 12 (r_staid rtcm); wru 30 (msm_epoch rtcm sys); wru 1 sync;
                   wru 3 (r_seqno rtcm); wru 7 0; wru 2 0; wru 2 0; wru 1 0; wru 3 0;
                   wr_mask (mi_sat mi); wr_mask (mi_sig mi);
                   wr_mask (take (min (mi_nsat mi * mi_nsig mi) 64) (mi_cell mi)) }"
    using assms b by (auto simp: encode_msm_head_def Let_def case_prod_beta)
  have m: "writes_at_most k (wr_mask xs)" if "length xs \<le> k" for xs k
    unfolding wr_mask_def using writes_at_most_row [of 1 _ xs k] that by (simp add: writes_at_most_fields)
  note sz = gen_msm_index_spec(1,2) [OF mi(1)]
  have "writes_at_most (12 + (12 + (30 + (1 + (3 + (7 + (2 + (2 + (1 + (3 + (64 + (32 + 64)))))))))))) head"
    unfolding h by (intro writes_at_most_bind writes_at_most_fields m) (simp_all add: sz min_def)
  then show "writes_at_most 233 head" by simp
  show "r_buff rtcm' = r_buff rtcm" "writes head" using encode_msm_head_ok [OF assms] by simp_all
qed

lemma msm_sent:
  assumes "encode_msm_head type rtcm sys sync = Some (rtcm', mi, ms, mc, head)"
  shows "mi_ncell mi < 64 \<Longrightarrow> \<exists>lock. sent (mi_ncell mi) (mc_lock mc) = Some lock \<and> length lock \<le> 64"
    and "mi_ncell mi < 64 \<Longrightarrow> \<exists>half. sent (mi_ncell mi) (mc_half mc) = Some half \<and> length half \<le> 64"
    and "mi_ncell mi < 64 \<Longrightarrow> \<exists>cnr. sent (mi_ncell mi) (mc_cnr mc) = Some cnr \<and> length cnr \<le> 64"
    and "\<not> mi_ncell mi < 64 \<Longrightarrow> sent (mi_ncell mi) (mc_lock mc) = None"
proof -
  note h = msm_head_size(1,2) [OF assms]
  have sz: "length (mc_lock mc) = 64" "length (mc_half mc) = 64" "length (mc_cnr mc) = 64"
    using cells_sized_sig unfolding h(2) gen_msm_sig_def cells_sized_def by simp_all
  have set: "cell_set c mc" if "mi_ncell mi < 64" "c < mi_ncell mi" for c
    using cell_set_sig [OF h(1)] that unfolding h(2) by simp
  show "\<exists>lock. sent (mi_ncell mi) (mc_lock mc) = Some lock \<and> length lock \<le> 64" if "mi_ncell mi < 64"
    using sent_Some [of "mi_ncell mi" "mc_lock mc"] set that sz unfolding cell_set_def by auto
  show "\<exists>half. sent (mi_ncell mi) (mc_half mc) = Some half \<and> length half \<le> 64" if "mi_ncell mi < 64"
    using sent_Some [of "mi_ncell mi" "mc_half mc"] set that sz unfolding cell_set_def by auto
  show "\<exists>cnr. sent (mi_ncell mi) (mc_cnr mc) = Some cnr \<and> length cnr \<le> 64" if "mi_ncell mi < 64"
    using sent_Some [of "mi_ncell mi" "mc_cnr mc"] set that sz unfolding cell_set_def by auto
  show "sent (mi_ncell mi) (mc_lock mc) = None" if "\<not> mi_ncell mi < 64"
    using sent_None [of 63 "mi_ncell mi" "mc_lock mc"] that sz(1) cell_64_unset unfolding h(2) by simp
qed

lemma msm_put:
  assumes "encode_msm_head type rtcm sys sync = Some (rtcm', mi, ms, mc, head)"
    and "length (r_buff rtcm) = 1200" and "writes w" and "writes_at_most 9000 w"
  shows "\<exists>r. put_bits rtcm' (do { head; w }) = Some (r, 1)"
proof -
  note h = msm_head_size(3-5) [OF assms(1)]
  have "writes (do { head; w })" using h(3) assms(3) by (intro writers)
  moreover have "writes_at_most 9233 (do { head; w })" using writes_at_most_bind [OF h(1) assms(4)] by simp
  ultimately show ?thesis
    by (rule put_bits_Some [of "do { head; w }" 9233 rtcm']) (use h(2) assms(2) in auto)
qed

text \<open>A message whose fields take any entries of the cells the arrays can give.\<close>

lemma msm_message:
  assumes "msm_base sys \<noteq> None" and "length (r_buff rtcm) = 1200" and "mi_ncell (gen_msm_index rtcm sys) < 64"
    and f: "\<And>r mi ms mc head lock half cnr. encode_msm_head type rtcm sys sync = Some (r, mi, ms, mc, head) \<Longrightarrow>
      sent (mi_ncell mi) (mc_lock mc) = Some lock \<Longrightarrow> sent (mi_ncell mi) (mc_half mc) = Some half \<Longrightarrow>
      sent (mi_ncell mi) (mc_cnr mc) = Some cnr \<Longrightarrow>
      f rtcm sys sync = put_bits r (do { head; w mi ms mc lock half cnr })"
    and w: "\<And>mi ms mc lock half cnr. writes (w mi ms mc lock half cnr)"
    and n: "\<And>mi ms mc lock half cnr. mi_nsat mi \<le> 64 \<Longrightarrow> mi_ncell mi \<le> 64 \<Longrightarrow> length lock \<le> 64 \<Longrightarrow>
      length half \<le> 64 \<Longrightarrow> length cnr \<le> 64 \<Longrightarrow> writes_at_most 9000 (w mi ms mc lock half cnr)"
  shows "\<exists>rtcm'. f rtcm sys sync = Some (rtcm', 1)"
proof -
  have "encode_msm_head type rtcm sys sync \<noteq> None"
    using assms(1) by (auto simp: encode_msm_head_def Let_def split: prod.split)
  then obtain r mi ms mc head where h: "encode_msm_head type rtcm sys sync = Some (r, mi, ms, mc, head)"
    by (metis not_None_eq prod_cases5)
  have mi: "mi = gen_msm_index rtcm sys" by (rule msm_head_size(1) [OF h])
  have c: "mi_ncell mi < 64" using assms(3) mi by simp
  obtain lock half cnr where st: "sent (mi_ncell mi) (mc_lock mc) = Some lock"
      "sent (mi_ncell mi) (mc_half mc) = Some half" "sent (mi_ncell mi) (mc_cnr mc) = Some cnr"
      and l: "length lock \<le> 64" "length half \<le> 64" "length cnr \<le> 64"
    using msm_sent(1-3) [OF h c] by auto
  have "writes_at_most 9000 (w mi ms mc lock half cnr)"
    by (rule n) (use gen_msm_index_spec(3,4) [OF mi] l in simp_all)
  then show ?thesis unfolding f [OF h st] using msm_put [OF h assms(2) w] by blast
qed

lemma msm_encoders_sent:
  assumes "msm_base sys \<noteq> None" and "length (r_buff rtcm) = 1200"
    and "mi_ncell (gen_msm_index rtcm sys) < 64"
    and "f \<in> {encode_msm2, encode_msm3, encode_msm4, encode_msm5, encode_msm6, encode_msm7}"
  shows "\<exists>rtcm'. f rtcm sys sync = Some (rtcm', 1)"
proof -
  note m = msm_message [OF assms(1-3)]
  have 2: "\<exists>rtcm'. encode_msm2 rtcm sys sync = Some (rtcm', 1)"
    by (rule m [where type = 2], simp add: encode_msm2_def, intro writers,
        rule writes_at_most_mono, (rule writes_at_most_bind writes_at_most_msm_fields; assumption?)+, simp)
  have 3: "\<exists>rtcm'. encode_msm3 rtcm sys sync = Some (rtcm', 1)"
    by (rule m [where type = 3], simp add: encode_msm3_def, intro writers,
        rule writes_at_most_mono, (rule writes_at_most_bind writes_at_most_msm_fields; assumption?)+, simp)
  have 4: "\<exists>rtcm'. encode_msm4 rtcm sys sync = Some (rtcm', 1)"
    by (rule m [where type = 4], simp add: encode_msm4_def, intro writers,
        rule writes_at_most_mono, (rule writes_at_most_bind writes_at_most_msm_fields; assumption?)+, simp)
  have 5: "\<exists>rtcm'. encode_msm5 rtcm sys sync = Some (rtcm', 1)"
    by (rule m [where type = 5], simp add: encode_msm5_def, intro writers,
        rule writes_at_most_mono, (rule writes_at_most_bind writes_at_most_msm_fields; assumption?)+, simp)
  have 6: "\<exists>rtcm'. encode_msm6 rtcm sys sync = Some (rtcm', 1)"
    by (rule m [where type = 6], simp add: encode_msm6_def, intro writers,
        rule writes_at_most_mono, (rule writes_at_most_bind writes_at_most_msm_fields; assumption?)+, simp)
  have 7: "\<exists>rtcm'. encode_msm7 rtcm sys sync = Some (rtcm', 1)"
    by (rule m [where type = 7], simp add: encode_msm7_def, intro writers,
        rule writes_at_most_mono, (rule writes_at_most_bind writes_at_most_msm_fields; assumption?)+, simp)
  show ?thesis using assms(4) 2 3 4 5 6 7 by blast
qed

text \<open>
  The messages 2 to 7 of a system are generated exactly where the observations have fewer than 64
  cells.
\<close>

lemma msm_encoders_defined:
  assumes "msm_base sys \<noteq> None" and "length (r_buff rtcm) = 1200"
    and "f \<in> {encode_msm2, encode_msm3, encode_msm4, encode_msm5, encode_msm6, encode_msm7}"
  shows "if mi_ncell (gen_msm_index rtcm sys) < 64 then \<exists>rtcm'. f rtcm sys sync = Some (rtcm', 1)
         else f rtcm sys sync = None"
proof (cases "mi_ncell (gen_msm_index rtcm sys) < 64")
  case False
  have "encode_msm_head k rtcm sys sync \<noteq> None" for k
    using assms(1) by (auto simp: encode_msm_head_def Let_def split: prod.split)
  then have h: "\<exists>r mi ms mc head. encode_msm_head k rtcm sys sync = Some (r, mi, ms, mc, head) \<and>
      sent (mi_ncell mi) (mc_lock mc) = None" for k
    using msm_sent(4) msm_head_size(1) False by (metis not_None_eq prod_cases5)
  have "f rtcm sys sync = None"
    using assms(3) h [of 2] h [of 3] h [of 4] h [of 5] h [of 6] h [of 7] by (auto simp: msm_encode_defs)
  then show ?thesis using False by simp
qed (use msm_encoders_sent [OF assms(1,2) _ assms(3)] in simp)

end
