(* ===== verification/LockTime.thy ===== *)
theory LockTime
  imports Rtcm3eObs Rtcm3Obs
begin

text \<open>
  Lock time indicators.  An encoder sends the time a signal has been tracked without a slip as an
  indicator of 7, 4 or 10 bits, a table of ranges that become coarser; a decoder takes a smaller
  indicator than the last one for a slip.  So the tables have to be monotone and to fit their fields.
\<close>

section \<open>Tables of ranges\<close>

text \<open>
  A table from \<open>t\<close> on whose values are \<open>c\<close> and more, and how a range below is put before it.
\<close>

definition rising :: "'a :: linorder \<Rightarrow> int \<Rightarrow> ('a \<Rightarrow> int) \<Rightarrow> bool" where
  "rising t c g \<longleftrightarrow> (\<forall>x y. t \<le> x \<and> x \<le> y \<longrightarrow> g x \<le> g y) \<and> (\<forall>x \<ge> t. c \<le> g x)"

lemma risingD: "rising t c g \<Longrightarrow> t \<le> x \<Longrightarrow> x \<le> y \<Longrightarrow> g x \<le> g y" "rising t c g \<Longrightarrow> t \<le> x \<Longrightarrow> c \<le> g x"
  by (simp_all add: rising_def)

lemma rising_last: "c \<le> k \<Longrightarrow> rising t c (\<lambda>x. k)"
  by (simp add: rising_def)

lemma rising_if:
  assumes "rising t' c' g" and "t \<le> t'" and "\<And>x y. t \<le> x \<Longrightarrow> x \<le> y \<Longrightarrow> y < t' \<Longrightarrow> f x \<le> f y"
    and "c \<le> f t" and "\<And>x. t \<le> x \<Longrightarrow> x < t' \<Longrightarrow> f x \<le> c'" and "c \<le> c'"
  shows "rising t c (\<lambda>x. if x < t' then f x else g x)"
  unfolding rising_def
proof (intro conjI allI impI)
  fix x y assume xy: "t \<le> x \<and> x \<le> y"
  then consider "y < t'" | "x < t'" "t' \<le> y" | "t' \<le> x" by force
  then show "(if x < t' then f x else g x) \<le> (if y < t' then f y else g y)"
  proof cases
    case 1
    then show ?thesis using assms(3) [of x y] xy by auto
  next
    case 2
    then have "f x \<le> g y" using assms(5) [of x] risingD(2) [OF assms(1), of y] xy by (meson order_trans)
    then show ?thesis using 2 by auto
  next
    case 3
    then show ?thesis using risingD(1) [OF assms(1), of x y] xy by auto
  qed
next
  fix x assume x: "t \<le> x"
  have "c \<le> f x" if "x < t'" using assms(3) [of t x] assms(4) x that by simp
  moreover have "c \<le> g x" if "t' \<le> x" using risingD(2) [OF assms(1) that] assms(6) by simp
  ultimately show "c \<le> (if x < t' then f x else g x)" by auto
qed

lemma trunc_mono: "x \<le> y \<Longrightarrow> trunc x \<le> trunc y"
proof (cases "x < 0 \<and> 0 \<le> y")
  case True
  then have "trunc x \<le> 0" "0 \<le> trunc y" by (simp_all add: trunc_def)
  then show ?thesis by simp
qed (auto simp: trunc_def ceiling_mono floor_mono)

text \<open>The ranges of the three tables, each up to the value at its end.\<close>

lemma rising_int:
  assumes "rising t' ((t' + k) div d) g" and "t \<le> t'" and "0 < d" and "c \<le> (t + k) div d"
  shows "rising (t :: int) c (\<lambda>x. if x < t' then (x + k) div d else g x)"
proof (rule rising_if [OF assms(1,2)])
  show "(x + k) div d \<le> (y + k) div d" if "x \<le> y" for x y using that assms(3) by (simp add: zdiv_mono1)
  then show "c \<le> (t' + k) div d" using assms(2,4) by (meson order_trans)
  show "(x + k) div d \<le> (t' + k) div d" if "x < t'" for x using that assms(3) by (simp add: zdiv_mono1)
qed (rule assms(4))

lemma rising_ms:
  assumes "rising t' ((trunc (t' * 1000) + k) div d) g" and "t \<le> t'" and "0 < d"
    and "c \<le> (trunc (t * 1000) + k) div d"
  shows "rising (t :: double) c (\<lambda>x. if x < t' then (trunc (x * 1000) + k) div d else g x)"
proof (rule rising_if [OF assms(1,2)])
  have m: "(trunc (x * 1000) + k) div d \<le> (trunc (y * 1000) + k) div d" if "x \<le> y" for x y
    using that assms(3) by (intro zdiv_mono1) (simp_all add: trunc_mono)
  show "(trunc (x * 1000) + k) div d \<le> (trunc (y * 1000) + k) div d" if "x \<le> y" for x y using that by (rule m)
  show "c \<le> (trunc (t' * 1000) + k) div d" using m [OF assms(2)] assms(4) by simp
  show "(trunc (x * 1000) + k) div d \<le> (trunc (t' * 1000) + k) div d" if "x < t'" for x using that by (intro m) simp
qed (rule assms(4))

lemma rising_const:
  assumes "rising t' k g" and "t \<le> t'" and "c \<le> k"
  shows "rising t c (\<lambda>x. if x < t' then k else g x)"
  by (rule rising_if [OF assms(1,2)]) (use assms(3) in simp_all)

section \<open>The indicators\<close>

text \<open>The tables from 0 on; a negative time counts as 0.\<close>

lemma rising_to_lock:
  "rising 0 0 (\<lambda>lock. if lock < 24 then (lock + 0) div 1 else if lock < 72 then (lock + 24) div 2
     else if lock < 168 then (lock + 120) div 4 else if lock < 360 then (lock + 408) div 8
     else if lock < 744 then (lock + 1176) div 16 else if lock < 937 then (lock + 3096) div 32 else 127)"
  by ((rule rising_int)+, rule rising_last) simp_all

lemma rising_to_msm_lock:
  "rising 0 0 (\<lambda>lock :: double.
     if lock < 0.032 then 0
     else if lock < 0.064 then 1
     else if lock < 0.128 then 2
     else if lock < 0.256 then 3
     else if lock < 0.512 then 4
     else if lock < 1.024 then 5
     else if lock < 2.048 then 6
     else if lock < 4.096 then 7
     else if lock < 8.192 then 8
     else if lock < 16.384 then 9
     else if lock < 32.768 then 10
     else if lock < 65.536 then 11
     else if lock < 131.072 then 12
     else if lock < 262.144 then 13
     else if lock < 524.288 then 14 else 15)"
  by ((rule rising_const)+, rule rising_last) simp_all

lemma rising_to_msm_lock_ex:
  "rising 0 0 (\<lambda>lock :: double.
     if lock < 0.064 then (trunc (lock * 1000) + 0) div 1
     else if lock < 0.128 then (trunc (lock * 1000) + 64) div 2
     else if lock < 0.256 then (trunc (lock * 1000) + 256) div 4
     else if lock < 0.512 then (trunc (lock * 1000) + 768) div 8
     else if lock < 1.024 then (trunc (lock * 1000) + 2048) div 16
     else if lock < 2.048 then (trunc (lock * 1000) + 5120) div 32
     else if lock < 4.096 then (trunc (lock * 1000) + 12288) div 64
     else if lock < 8.192 then (trunc (lock * 1000) + 28672) div 128
     else if lock < 16.384 then (trunc (lock * 1000) + 65536) div 256
     else if lock < 32.768 then (trunc (lock * 1000) + 147456) div 512
     else if lock < 65.536 then (trunc (lock * 1000) + 327680) div 1024
     else if lock < 131.072 then (trunc (lock * 1000) + 720896) div 2048
     else if lock < 262.144 then (trunc (lock * 1000) + 1572864) div 4096
     else if lock < 524.288 then (trunc (lock * 1000) + 3407872) div 8192
     else if lock < 1048.576 then (trunc (lock * 1000) + 7340032) div 16384
     else if lock < 2097.152 then (trunc (lock * 1000) + 15728640) div 32768
     else if lock < 4194.304 then (trunc (lock * 1000) + 33554432) div 65536
     else if lock < 8388.608 then (trunc (lock * 1000) + 71303168) div 131072
     else if lock < 16777.216 then (trunc (lock * 1000) + 150994944) div 262144
     else if lock < 33554.432 then (trunc (lock * 1000) + 318767104) div 524288
     else if lock < 67108.864 then (trunc (lock * 1000) + 671088640) div 1048576 else 704)"
  by ((rule rising_ms)+, rule rising_last) simp_all

lemma rising_from_0:
  assumes "rising (0 :: 'a :: linordered_idom) 0 g" and "\<And>x. f x = (if x < 0 then 0 else g x)" and "\<And>x. b \<le> x \<Longrightarrow> g x = m"
  shows "x \<le> y \<Longrightarrow> f x \<le> f y" and "0 \<le> f x" and "f x \<le> m"
proof -
  show mono: "f x \<le> f y" if "x \<le> y" for x y
    using that risingD(1) [OF assms(1), of x y] risingD(2) [OF assms(1), of y] by (simp add: assms(2))
  show "0 \<le> f x" using risingD(2) [OF assms(1), of x] by (simp add: assms(2))
  show "f x \<le> m" using mono [of x "max x (max b 0)"] assms(3) [of "max x (max b 0)"] by (simp add: assms(2))
qed

lemma to_lock_table: "x \<le> y \<Longrightarrow> to_lock x \<le> to_lock y" "0 \<le> to_lock x" "to_lock x \<le> 127"
  by (rule rising_from_0 [OF rising_to_lock, where b = 937]; simp add: to_lock_def)+

lemma to_msm_lock_table: "x \<le> y \<Longrightarrow> to_msm_lock x \<le> to_msm_lock y" "0 \<le> to_msm_lock x" "to_msm_lock x \<le> 15"
  by (rule rising_from_0 [OF rising_to_msm_lock, where b = 525]; simp add: to_msm_lock_def)+

text \<open>
  Milliseconds are only used below the last limit of the table, 67108.864 s, where the conversion does
  not overflow: the value it gives for longer times does not matter.
\<close>

lemma int_of_double_trunc: "- (2 ^ 31) \<le> x \<Longrightarrow> x < 2 ^ 31 \<Longrightarrow> int_of_double x = trunc x"
proof -
  assume x: "- (2 ^ 31) \<le> x" "x < 2 ^ 31"
  have "- (2 ^ 31) \<le> trunc x" using trunc_mono [OF x(1)] by (simp add: trunc_def)
  moreover have "trunc x < 2 ^ 31" using x(2) by (auto simp: trunc_def floor_less_iff ceiling_less_iff)
  ultimately show ?thesis by (simp add: int_of_double_def)
qed

lemma lock_ms: "0 \<le> lock \<Longrightarrow> lock < 67108.864 \<Longrightarrow> int_of_double (lock * 1000) = trunc (lock * 1000)"
  by (rule int_of_double_trunc) simp_all

lemma to_msm_lock_ex_table:
  "x \<le> y \<Longrightarrow> to_msm_lock_ex x \<le> to_msm_lock_ex y" "0 \<le> to_msm_lock_ex x" "to_msm_lock_ex x \<le> 704"
  by (rule rising_from_0 [OF rising_to_msm_lock_ex, where b = 67109]; simp add: to_msm_lock_ex_def Let_def lock_ms)+

lemma lock_table_bounds:
  "0 \<le> to_lock n \<and> to_lock n < 2 ^ 7" "0 \<le> to_msm_lock x \<and> to_msm_lock x < 2 ^ 4"
  "0 \<le> to_msm_lock_ex x \<and> to_msm_lock_ex x < 2 ^ 10"
  using to_lock_table(2,3) [of n] to_msm_lock_table(2,3) [of x] to_msm_lock_ex_table(2,3) [of x] by simp_all

lemma int_of_double_mono:
  assumes "x \<le> y" and "y < 2 ^ 31"
  shows "int_of_double x \<le> int_of_double y"
proof -
  have y: "trunc y < 2 ^ 31" using assms(2) by (auto simp: trunc_def floor_less_iff ceiling_less_iff)
  then show ?thesis using trunc_mono [OF assms(1)] by (auto simp: int_of_double_def)
qed

section \<open>From encoder to decoder\<close>

text \<open>
  A receiver that has the indicator of a time and gets that of a longer one takes the signal as
  tracked without a slip, unless both are 0.
\<close>

lemma locked_no_slip:
  assumes "ind \<in> {to_msm_lock, to_msm_lock_ex} \<or> ind = (\<lambda>x. to_lock (int_of_double x)) \<and> y < 2 ^ 31"
    and "x \<le> y" and "r_lock rx ! nat (sat - 1) ! k = ind x" and "ind y \<noteq> 0"
  shows "snd (lossoflock rx sat k (ind y)) = 0"
proof -
  have "ind x \<le> ind y"
    using assms(1,2) to_lock_table(1) [OF int_of_double_mono [of x y]]
    by (auto intro: to_msm_lock_table(1) to_msm_lock_ex_table(1))
  then show ?thesis using assms(3,4) by (simp add: lossoflock_def Let_def)
qed

end
