(* ===== verification/SsrSize.thy ===== *)
theory SsrSize
  imports Rtcm3e
begin

text \<open>
  The size of a combined orbit and clock message (\<^verbatim>\<open>encode_ssr4\<close>).  The encoder puts a record
  for every satellite that has a correction into the 1200 bytes of the message buffer and does not
  compare the position with the size.  Of the systems only BeiDou has enough satellites for that to
  matter: 63, with records of 231 bits in the RTCM form and 205 bits in the IGS form.
\<close>

section \<open>Exact sizes\<close>

definition writes_exactly :: "nat \<Rightarrow> (wstate, 'a) state \<Rightarrow> bool" where
  "writes_exactly n w \<longleftrightarrow> (\<forall>b i. \<exists>x b'. run_state w (b, i) = (x, b', i + n) \<and> length b' = length b)"

lemma writes_exactly_bind:
  assumes "writes_exactly n w" and "\<And>x. writes_exactly m (f x)"
  shows "writes_exactly (n + m) (State_Monad.bind w f)"
  unfolding writes_exactly_def
proof (intro allI)
  fix b i
  obtain x b' where w: "run_state w (b, i) = (x, b', i + n)" "length b' = length b"
    using assms(1) unfolding writes_exactly_def by blast
  obtain y b'' where f: "run_state (f x) (b', i + n) = (y, b'', i + n + m)" "length b'' = length b'"
    using assms(2) unfolding writes_exactly_def by blast
  show "\<exists>y b''. run_state (State_Monad.bind w f) (b, i) = (y, b'', i + (n + m)) \<and> length b'' = length b"
    using w f by (simp add: add.assoc)
qed

lemma writes_exactly_fields:
  "writes_exactly n (wru n v)" "writes_exactly n (wrs n v)" "writes_exactly 0 (State_Monad.return x)"
  by (simp_all add: writes_exactly_def setu_def setbits_def Let_def)

lemma writes_exactly_seq:
  "(\<And>x. x \<in> set xs \<Longrightarrow> writes_exactly n (f x)) \<Longrightarrow> writes_exactly (n * length xs) (wr_seq (map f xs))"
proof (induction xs)
  case (Cons x xs)
  then have "writes_exactly (n + n * length xs) (do { f x; wr_seq (map f xs) })"
    by (intro writes_exactly_bind) auto
  then show ?case by simp
qed (simp add: writes_exactly_fields)

lemma put_bits_None_iff:
  assumes "writes_exactly n w"
  shows "put_bits rtcm w = None \<longleftrightarrow> 8 * length (r_buff rtcm) < 24 + n"
proof -
  obtain x b where "run_state w (r_buff rtcm, 24) = (x, b, 24 + n)" "length b = length (r_buff rtcm)"
    using assms unfolding writes_exactly_def by blast
  then show ?thesis by (simp add: put_bits_def)
qed

section \<open>Combined corrections of BeiDou\<close>

lemma ssr1_rec_size: "writes_exactly (np + (ni + (nj + 121))) (ssr1_rec np ni nj offp subtype prn s)"
proof -
  have "writes_exactly (22 + (20 + (20 + (21 + (19 + 19))))) (wr_orbit s)"
    unfolding wr_orbit_def by (intro writes_exactly_bind writes_exactly_fields)
  then show ?thesis
    unfolding ssr1_rec_def by (intro writes_exactly_bind writes_exactly_fields) simp
qed

lemma wr_clock_size: "writes_exactly 70 (wr_clock s)"
proof -
  have "writes_exactly (22 + (21 + 27)) (wr_clock s)"
    unfolding wr_clock_def by (intro writes_exactly_bind writes_exactly_fields)
  then show ?thesis by simp
qed

lemma ssr4_head_igs:
  assumes "0 < subtype"
  shows "writes_exactly 79 (encode_ssr_head 4 rtcm sys subtype nsat sync iod udint refd provid solid)"
proof -
  have eq: "encode_ssr_head 4 rtcm sys subtype nsat sync iod udint refd provid solid =
      do { wru 12 4076; wru 3 1; wru 8 subtype; wru 20 (ROUND (fst (time2gpst (r_time rtcm))) smod 604800);
           wru 4 (udi_index udint); wru 1 sync; wru 4 iod; wru 16 provid; wru 4 solid; wru 1 refd; wru 6 nsat }"
    using assms by (simp add: encode_ssr_head_def Let_def)
  have "writes_exactly (12 + (3 + (8 + (20 + (4 + (1 + (4 + (16 + (4 + (1 + 6))))))))))
      (encode_ssr_head 4 rtcm sys subtype nsat sync iod udint refd provid solid)"
    unfolding eq by (intro writes_exactly_bind writes_exactly_fields)
  then show ?thesis by simp
qed

lemma ssr4_head_rtcm:
  assumes "ssr_msgno 4 sys \<noteq> 0"
  shows "writes_exactly (42 + (if sys = SYS_GLO then 17 else 20) + (if sys = SYS_QZS then 4 else 6))
    (encode_ssr_head 4 rtcm sys 0 nsat sync iod udint refd provid solid)"
proof -
  let ?e = "if sys = SYS_GLO then 17 else 20 :: nat" and ?ns = "if sys = SYS_QZS then 4 else 6 :: nat"
  let ?v = "if sys = SYS_GLO then ROUND (fst (time2gpst (timeadd (gpst2utc (r_time rtcm)) 10800))) smod 86400
    else ROUND (fst (time2gpst (r_time rtcm))) smod 604800"
  have eq: "encode_ssr_head 4 rtcm sys 0 nsat sync iod udint refd provid solid =
      do { wru 12 (ssr_msgno 4 sys); wru ?e ?v; wru 4 (udi_index udint); wru 1 sync; wru 1 refd; wru 4 iod;
           wru 16 provid; wru 4 solid; wru ?ns nsat }"
    using assms by (simp add: encode_ssr_head_def Let_def)
  have "writes_exactly (12 + (?e + (4 + (1 + (1 + (4 + (16 + (4 + ?ns))))))))
      (encode_ssr_head 4 rtcm sys 0 nsat sync iod udint refd provid solid)"
    unfolding eq by (intro writes_exactly_bind writes_exactly_fields)
  moreover have "12 + (?e + (4 + (1 + (1 + (4 + (16 + (4 + ?ns))))))) = 42 + ?e + ?ns" by simp
  ultimately show ?thesis by metis
qed

text \<open>The size of a whole message.\<close>

lemma ssr4_None:
  assumes "length (r_buff rtcm) = 1200" and l: "ssr_layout sys subtype = Some (np, ni, nj, offp)"
    and h: "\<And>nsat iod udint refd. writes_exactly h (encode_ssr_head 4 rtcm sys subtype nsat sync iod udint refd 0 0)"
  shows "encode_ssr4 rtcm sys subtype sync = None \<longleftrightarrow>
    9600 < 24 + (h + (np + ni + nj + 191) * length (ssr_sats rtcm sys))"
proof -
  define n where "n = length (ssr_sats rtcm sys)"
  have r: "writes_exactly (np + ni + nj + 191) (do { ssr1_rec np ni nj offp subtype prn s; wr_clock s })" for prn s
  proof -
    have "writes_exactly ((np + (ni + (nj + 121))) + 70) (do { ssr1_rec np ni nj offp subtype prn s; wr_clock s })"
      by (intro writes_exactly_bind ssr1_rec_size wr_clock_size)
    moreover have "(np + (ni + (nj + 121))) + 70 = np + ni + nj + 191" by simp
    ultimately show ?thesis by metis
  qed
  have "writes_exactly (h + (np + ni + nj + 191) * n) (do {
      encode_ssr_head 4 rtcm sys subtype (int n) sync a u r 0 0;
      wr_seq (map (\<lambda>sat. do { ssr1_rec np ni nj offp subtype (snd (satsys sat)) (get_ssr rtcm sat); wr_clock (get_ssr rtcm sat) })
        (ssr_sats rtcm sys)) })" for a u r
    unfolding n_def by (intro writes_exactly_bind h writes_exactly_seq r)
  note put = put_bits_None_iff [OF this]
  show ?thesis
    unfolding encode_ssr4_def l option.case prod.case ssr_msg_def Let_def n_def [symmetric] put assms(1) by auto
qed

lemma ssr_sats_count: "length (ssr_sats rtcm sys) \<le> length (filter (\<lambda>sat. fst (satsys sat) = sys) (map int [1..<222]))"
proof -
  have "ssr_sats rtcm sys = filter (\<lambda>sat. ssr_update (get_ssr rtcm sat) \<noteq> 0)
      (filter (\<lambda>sat. fst (satsys sat) = sys) (map int [1..<222]))"
    by (simp add: ssr_sats_def conj_commute del: upt_conv_Cons_Cons)
  then show ?thesis by (metis length_filter_le)
qed

lemma satellites_of_systems:
  "length (filter (\<lambda>sat. fst (satsys sat) = SYS_GPS) (map int [1..<222])) = 32"
  "length (filter (\<lambda>sat. fst (satsys sat) = SYS_GLO) (map int [1..<222])) = 27"
  "length (filter (\<lambda>sat. fst (satsys sat) = SYS_GAL) (map int [1..<222])) = 36"
  "length (filter (\<lambda>sat. fst (satsys sat) = SYS_QZS) (map int [1..<222])) = 10"
  "length (filter (\<lambda>sat. fst (satsys sat) = SYS_SBS) (map int [1..<222])) = 39"
  by code_simp+

lemma ssr_sats_limits:
  "length (ssr_sats rtcm SYS_GPS) \<le> 32" "length (ssr_sats rtcm SYS_GLO) \<le> 27" "length (ssr_sats rtcm SYS_GAL) \<le> 36"
  "length (ssr_sats rtcm SYS_QZS) \<le> 10" "length (ssr_sats rtcm SYS_SBS) \<le> 39"
  by (rule ssr_sats_count [THEN order_trans], simp only: satellites_of_systems order_refl)+

text \<open>The messages that do not fit.\<close>

lemma ssr4_overflow:
  assumes b: "length (r_buff rtcm) = 1200" and "0 \<le> subtype"
  shows "encode_ssr4 rtcm sys subtype sync = None \<longleftrightarrow>
    sys = SYS_CMP \<and> (if subtype = 0 then 41 else 46) < length (ssr_sats rtcm SYS_CMP)"
proof (cases "ssr_layout sys subtype")
  case None
  then have "sys \<noteq> SYS_CMP" by (auto simp: ssr_layout_def)
  then show ?thesis using None by (simp add: encode_ssr4_def)
next
  case (Some l)
  then have sys: "sys \<in> {SYS_GPS, SYS_GLO, SYS_GAL, SYS_QZS, SYS_CMP, SYS_SBS}"
    by (auto simp: ssr_layout_def split: if_splits)
  consider (igs) "0 < subtype" | (rtcm) "subtype = 0" using assms(2) by linarith
  then show ?thesis
  proof cases
    case igs
    then obtain offp where l: "ssr_layout sys subtype = Some (6, 8, 0, offp)"
      using sys by (auto simp: ssr_layout_def)
    show ?thesis
      unfolding ssr4_None [OF b l ssr4_head_igs [OF igs]] using sys igs ssr_sats_limits [of rtcm] by auto
  next
    case rtcm
    have m: "ssr_msgno 4 sys \<noteq> 0" using sys by (auto simp: ssr_msgno_def)
    obtain np ni nj offp where l: "ssr_layout sys 0 = Some (np, ni, nj, offp)" using Some rtcm by (cases l) auto
    show ?thesis
      unfolding rtcm ssr4_None [OF b l ssr4_head_rtcm [OF m]]
      using sys l ssr_sats_limits [of rtcm] by (auto simp: ssr_layout_def)
  qed
qed

end
