(* ===== verification/Concrete.thy ===== *)
theory Concrete
  imports Descriptors EphTrip MsmCells LockTime SsrSize
begin

text \<open>
  Concrete data: an initialised control struct, a clock, and frames given by their bytes.  The
  theorems are applied to them, to show that their hypotheses hold on actual input.
\<close>

definition env0 :: env where "env0 = \<lparr>now = \<lparr>gt_time = 1700000000, gt_sec = 0\<rparr>, pris = codepris\<rparr>"

definition rtcm0 :: rtcm where "rtcm0 = init_rtcm rtcm_zero"

text \<open>An empty message of the unassigned type 4095.\<close>

definition frame4095 :: "u8 list" where
  "frame4095 = [0xD3, 0x00, 0x02, 0xFF, 0xF0, 0x0D, 0x4D, 0x7C]"

text \<open>An antenna descriptor of 64 null characters.\<close>

definition frame1007 :: "u8 list" where
  "frame1007 = [0xD3, 0x00, 69, 0x3E, 0xF0, 0x00, 64] @ replicate 65 0 @ [0x45, 0x0F, 0x98]"

lemma rtcm0_frame [simp]:
  "length (r_buff rtcm0) = 1200" "r_nbyte rtcm0 = 0" "r_opt rtcm0 = []" "r_staid rtcm0 = 0"
  by (simp_all add: rtcm0_def init_rtcm_def rtcm_zero_def)

lemma rtcm0_wf: "wf_state rtcm0"
  unfolding rtcm0_def by (rule wf_init_rtcm) (simp_all add: rtcm_zero_def)

lemma frame4095_ok: "is_frame frame4095" "parity_ok frame4095" "length frame4095 = 8"
  "frame_type frame4095 = 4095"
  by code_simp+

lemma frame1007_ok: "is_frame frame1007" "parity_ok frame1007" "frame_type frame1007 = 1007"
  "length frame1007 = 75"
  by code_simp+

lemma frame4095_burst: "differ_within 32 24 8 frame4095 (frame4095[4 := 0xA5])"
  using differ_byte [of 4 8 frame4095 "0xA5" 24] by (simp add: frame4095_def)

lemma load4095_type: "msg_type (load rtcm0 frame4095) = 4095"
  using frame4095_ok by (simp add: msg_type_def load_def getu_append frame_type_def)

lemma load4095_wf: "wf_state (load rtcm0 frame4095)"
  using rtcm0_wf frame4095_ok(3) by (simp add: load_def wf_state_def wf_obs_def obs_sats_def)

lemma load4095_decoded:
  "decode_rtcm3 env0 (load rtcm0 frame4095) = Some (count_msg (load rtcm0 frame4095) 4095, 0)"
  using decode_rtcm3_other [of "load rtcm0 frame4095"] load4095_type
  by (simp add: known_type_def) (simp add: load_def)

text \<open>The descriptor makes the decoder store outside its array of 64 characters.\<close>

lemma frame1007_fields: "getu frame1007 36 12 = 0" "getu frame1007 48 8 = 64"
  by code_simp+

lemma frame1007_text:
  "text_complete (load rtcm0 frame1007)" "station_accepted (load rtcm0 frame1007)" "text_too_long (load rtcm0 frame1007)"
proof -
  let ?r = "load rtcm0 frame1007"
  have b: "r_buff ?r = frame1007 @ drop 75 (r_buff rtcm0)" "r_len ?r = 72" "r_opt ?r = []" "r_staid ?r = 0"
    using frame1007_ok(1,4) by (simp_all add: load_def is_frame_def)
  have t: "msg_type ?r = 1007" using frame1007_ok(3,4) by (simp add: msg_type_def b getu_append frame_type_def)
  show "text_complete ?r" "station_accepted ?r" "text_too_long ?r"
    using frame1007_fields frame1007_ok(4)
    by (simp_all add: text_complete_def text_too_long_def station_accepted_def test_staid_def text_counts_def text_fields_def
        t b getu_append)
qed

lemma frame1007_overflow: "feed3 (decode_rtcm3 env0) rtcm0 frame1007 = None"
  using strings_frame [of rtcm0 frame1007 env0] frame1007_text frame1007_ok by simp

text \<open>A header without satellites and signals; an ephemeris of GPS satellite 1.\<close>

lemma getu_zero: "pos + n \<le> 8 * m \<Longrightarrow> getu (replicate m 0) pos n = 0"
proof -
  assume "pos + n \<le> 8 * m"
  then have "getbitu (replicate m 0) pos n = getbitu (replicate m 0) pos n AND 0"
  proof (induction n)
    case (Suc n)
    then have "bufbit (replicate m 0) (pos + n) = False" by (simp add: bufbit_def)
    then show ?case using Suc by (simp add: getbitu_Suc)
  qed simp
  then show ?thesis by (simp add: getu_def)
qed

definition no_sats :: msm_h where
  "no_sats = \<lparr>h_time_s = 0, h_clk_str = 0, h_clk_ext = 0, h_smooth = 0, h_tint_s = 0, h_sats = [],
     h_sigs = [], h_cellmask = []\<rparr>"

lemma mask_bits_zero: "i + n \<le> 9600 \<Longrightarrow> mask_bits (replicate 1200 0) i n = []"
  by (auto simp: mask_bits_def filter_empty_conv getu_zero)

lemma msm_head_empty:
  "\<exists>rtcm'. decode_msm_head env0 (rtcm0\<lparr>r_len := 30\<rparr>) SYS_GPS = (rtcm', Some (0, 0, 0, no_sats, 193))"
proof -
  have b: "r_buff rtcm0 = replicate 1200 0" by (simp add: rtcm0_def init_rtcm_def rtcm_zero_def)
  have a: "r_buff (adjweek e r t) = r_buff r" "r_len (adjweek e r t) = r_len r"
    "r_opt (adjweek e r t) = r_opt r" "r_staid (adjweek e r t) = r_staid r" for e r t
    by (simp_all add: adjweek_def get_time_def Let_def case_prod_beta)
  show ?thesis
    unfolding decode_msm_head_def
    by (simp add: b a Let_def case_prod_beta getu_zero mask_bits_zero test_staid_def no_sats_def)
qed

definition msg1019 :: rtcm where
  "msg1019 = rtcm0\<lparr>r_buff := [0xD3, 0, 61, 0x3F, 0xB0, 0x40] @ replicate 1194 0, r_len := 64\<rparr>"

lemma msg1019_prn: "getu (r_buff msg1019) 36 6 = 1"
proof -
  have "getu [0xD3, 0, 61, 0x3F, 0xB0, 0x40] 36 6 = 1" by code_simp
  then show ?thesis
    using getu_append [of 36 6 "[0xD3, 0, 61, 0x3F, 0xB0, 0x40]" "replicate 1194 0"]
    by (simp add: msg1019_def)
qed

lemma msg1019_wf: "wf_state msg1019"
  using rtcm0_wf by (simp add: msg1019_def wf_state_def wf_obs_def obs_sats_def)

lemma msg1019_decoded: "decode_type1019 env0 msg1019 = (fst (decode_type1019 env0 msg1019), 2)"
proof -
  have n: "r_nav (get_time env0 msg1019) = r_nav rtcm0" "r_opt (get_time env0 msg1019) = []"
    "r_buff (get_time env0 msg1019) = r_buff msg1019"
    by (simp_all add: get_time_def msg1019_def)
  have "eph_iode (old_eph (get_time env0 msg1019) 1 0) = -1"
    by (simp add: old_eph_def n rtcm0_def init_rtcm_def eph0_def)
  moreover have "getu b p w \<noteq> -1" for b p w
    using getu_nonneg [of b p w] by linarith
  ultimately have "snd (decode_type1019 env0 msg1019) = 2"
    using msg1019_prn
    by (simp add: decode_type1019_def read_1019_def Let_def case_prod_beta satno_def eph_times_def
        put_eph_def msg1019_def [THEN arg_cong, of r_len])
  then show ?thesis by (simp add: prod_eq_iff)
qed

section \<open>Senders and receivers\<close>

text \<open>A reference station with a point, descriptors and an ephemeris, and a receiver of it.\<close>

definition eph_site :: eph where
  "eph_site = eph_zero\<lparr>eph_sat := 1, eph_iode := 5, eph_iodc := 5, eph_sva := 2, eph_code := 1, eph_week := 2288,
     eph_toc := gpst2time 2288 7200, eph_toes := 7200, eph_A := 26553409, eph_e := 0.01, eph_f0 := 0.0001,
     eph_M0 := 1, eph_crs := -20, eph_fit := 4\<rparr>"

definition site :: rtcm where
  "site = rtcm0\<lparr>r_staid := 7, r_ephsat := 1,
     r_sta := (r_sta rtcm0)\<lparr>sta_pos := [-3961904.123, 3348993.763, 3698211.7], sta_hgt := 0.1,
       sta_antdes := ''TRM59800.00     NONE'', sta_antsno := ''12345'', sta_rectype := ''TRIMBLE NETR9'',
       sta_recver := ''5.45'', sta_recsno := ''678'', sta_antsetup := 1\<rparr>,
     r_nav := (r_nav rtcm0)\<lparr>nav_eph := (nav_eph (r_nav rtcm0))[0 := eph_site]\<rparr>\<rparr>"

definition rover :: rtcm where
  "rover = rtcm0\<lparr>r_time := gpst2time 2288 7000\<rparr>"

lemma rover_receiver: "receiver rover"
  by (simp add: receiver_def rover_def)

lemma site_fields [simp]: "length (r_buff site) = 1200" "r_staid site = 7" "r_ephsat site = 1" "old_eph site 1 0 = eph_site"
  by (simp_all add: site_def old_eph_def rtcm0_def init_rtcm_def rtcm_zero_def)

lemma rover_fields [simp]: "length (r_buff rover) = 1200" "r_nbyte rover = 0" "r_staid rover = 0"
  by (simp_all add: rover_def)

lemma site_point: "arp_fits (r_sta site)"
  by (simp add: arp_fits_def fits38_def site_def)

lemma site_texts: "\<forall>t \<in> {sta_antdes (r_sta site), sta_antsno (r_sta site), sta_rectype (r_sta site),
    sta_recver (r_sta site), sta_recsno (r_sta site)}. no_nul t"
  by (simp add: site_def no_nul_def)

lemma site_setup: "sta_antsetup (r_sta site) = 1"
  by (simp add: site_def)

lemma eph_site_sqrt: "sqrt (eph_A eph_site) = 5153"
  by (simp add: eph_site_def real_sqrt_unique)

lemma eph_site_toc: "fst (time2gpst (eph_toc eph_site)) = 7200"
  by (simp add: eph_site_def time2gpst_gpst2time)

lemma eph_site_range: "in_range_1019 eph_site"
  unfolding in_range_1019_def toc_field_def eph_site_toc sqrtA_field_def eph_site_sqrt
  by (simp add: eph_site_def eph_zero_def fits_u_def fits_s_def semi_def scaled_def e_field_def ROUND_def ROUND_U_def
      P2_def SC2RAD_def)

lemma cur_week_env0: "cur_week (now env0) = 2288"
  by code_simp

lemma eph_site_toe: "eph_toe (received_1019 t eph_site) = gpst2time 2288 7200"
  by (simp add: received_1019_def eph_site_def ROUND_def)

lemma eph_site_passes: "passes_1019 env0 rover eph_site"
proof -
  have "timediff (gpst2time 2288 7200) (gpst2time 2288 7000) = 200"
    by (simp add: timediff_tval tval_gpst2time)
  moreover have "gt_time (gpst2time 2288 7000) \<noteq> 0" by (simp add: gpst2time_def)
  moreover have "eph_iode (old_eph rover 1 0) = -1" "length (nav_eph (r_nav rover)) = 442"
    by (simp_all add: rover_def rtcm0_def init_rtcm_def old_eph_def eph0_def)
  moreover have "r_time rover = gpst2time 2288 7000" by (simp add: rover_def)
  ultimately show ?thesis
    unfolding passes_1019_def cur_week_env0 eph_site_toe by (simp add: eph_site_def)
qed

text \<open>Two signals of the first GPS satellites, up to 32, and corrections of all satellites.\<close>

definition sky :: "nat \<Rightarrow> obsd list" where
  "sky n = map (\<lambda>k. \<lparr>ob_time = time0, ob_sat = int k, ob_rcv = 0, ob_SNR = replicate NOBS 0,
     ob_LLI = replicate NOBS 0, ob_code = CODE_L1C # CODE_L2W # replicate (NOBS - 2) 0,
     ob_L = replicate NOBS 0, ob_P = replicate NOBS 0, ob_D = replicate NOBS 0\<rparr>) [1..<Suc n]"

definition observer :: "nat \<Rightarrow> rtcm" where
  "observer n = rtcm0\<lparr>r_obs_n := n, r_obs := sky n\<rparr>"

lemma observer_buff [simp]: "length (r_buff (observer n)) = 1200"
  by (simp add: observer_def)

lemma observer_visits:
  "map (\<lambda>(d, j, sat, sig). (sat, sig)) (msm_visits (observer 10) SYS_GPS) = concat (map (\<lambda>k. [(k, 2), (k, 10)]) [1..<11])"
  "map (\<lambda>(d, j, sat, sig). (sat, sig)) (msm_visits (observer 32) SYS_GPS) = concat (map (\<lambda>k. [(k, 2), (k, 10)]) [1..<33])"
  by code_simp+

lemma observer_cells: "mi_ncell (gen_msm_index (observer 10) SYS_GPS) = 20"
  "mi_ncell (gen_msm_index (observer 32) SYS_GPS) = 64"
  unfolding gen_msm_index_ncell observer_visits Let_def
  by code_simp+

definition corrections :: rtcm where
  "corrections = rtcm_zero\<lparr>r_ssr := replicate 221 (ssr0\<lparr>ssr_update := 1\<rparr>)\<rparr>"

lemma corrections_buff: "length (r_buff corrections) = 1200"
  by (simp add: corrections_def rtcm_zero_def)

lemma corrections_sats: "length (ssr_sats corrections SYS_CMP) = 63"
proof -
  have "ssr_update (get_ssr corrections sat) = 1" if "sat \<in> set (map int [1..<222])" for sat
    using that by (auto simp: get_ssr_def corrections_def nth_replicate)
  then have "ssr_sats corrections SYS_CMP = filter (\<lambda>sat. fst (satsys sat) = SYS_CMP) (map int [1..<222])"
    unfolding ssr_sats_def by (intro filter_cong) simp_all
  also have "length \<dots> = 63" by code_simp
  finally show ?thesis .
qed

end
