(* ===== verification/Rtcm2.thy ===== *)
theory Rtcm2
  imports Rtcm3Sta Rtcm3Eph
begin

text \<open>
  Messages of RTCM 2 (\<^verbatim>\<open>rtcm2.c\<close>): differential corrections (1, 9), reference station
  (3, 22), time (14), text (16), ephemerides (17), carrier phases (18) and pseudoranges (19), and
  the entry point \<open>decode_rtcm2\<close>.  The loops over the records of a message run while a whole
  record is left in the message; each is a recursive function with its termination proof.
\<close>

section \<open>Time\<close>

definition adjhour :: "env \<Rightarrow> rtcm \<Rightarrow> double \<Rightarrow> rtcm" where
  "adjhour e rtcm zcnt =
    (let rtcm = get_time e rtcm;
         (tow, week) = time2gpst (r_time rtcm);
         hour = of_int \<lfloor>tow / 3600\<rfloor>;
         sec = tow - hour * 3600;
         zcnt = (if zcnt < sec - 1800 then zcnt + 3600
                 else if zcnt > sec + 1800 then zcnt - 3600 else zcnt)
     in rtcm\<lparr>r_time := gpst2time week (hour * 3600 + zcnt)\<rparr>)"

section \<open>The observation buffer\<close>

text \<open>
  \<open>obsindex\<close> of \<^verbatim>\<open>rtcm2.c\<close>: unlike the routine of the same name in \<^verbatim>\<open>rtcm3.c\<close> it clears
  the first \<^verbatim>\<open>NFREQ\<close> entries of a new record only.
\<close>

definition clear5 :: "'a \<Rightarrow> 'a list \<Rightarrow> 'a list" where
  "clear5 x xs = replicate NFREQ x @ drop NFREQ xs"

definition obsindex2 :: "rtcm \<Rightarrow> gtime \<Rightarrow> int \<Rightarrow> rtcm \<times> int" where
  "obsindex2 rtcm time sat =
    (case find_sat (take (r_obs_n rtcm) (r_obs rtcm)) sat 0 of
       Some i \<Rightarrow> (rtcm, int i)
     | None \<Rightarrow>
         (let i = r_obs_n rtcm; d = r_obs rtcm ! i in
          if i \<ge> MAXOBS then (rtcm, -1)
          else (rtcm\<lparr>r_obs := (r_obs rtcm)[i := d
                   \<lparr>ob_time := time, ob_sat := sat, ob_L := clear5 0 (ob_L d),
                    ob_P := clear5 0 (ob_P d), ob_D := clear5 0 (ob_D d), ob_SNR := clear5 0 (ob_SNR d),
                    ob_LLI := clear5 0 (ob_LLI d), ob_code := clear5 0 (ob_code d)\<rparr>],
                 r_obs_n := i + 1\<rparr>, int i)))"

text \<open>A record of another epoch empties the buffer.\<close>

definition new_epoch2 :: "rtcm \<Rightarrow> gtime \<Rightarrow> rtcm" where
  "new_epoch2 rtcm time =
    (let tt = timediff (ob_time (r_obs rtcm ! 0)) time in
     if r_obsflag rtcm \<noteq> 0 \<or> \<bar>tt\<bar> > 1 / 10 ^ 9 then rtcm\<lparr>r_obs_n := 0, r_obsflag := 0\<rparr> else rtcm)"

section \<open>Differential corrections\<close>

definition read_type1 :: "u8 list \<Rightarrow> (nat, int \<times> int \<times> int \<times> int \<times> int \<times> int) state" where
  "read_type1 b = do {
     fact \<leftarrow> rdu b 1; udre \<leftarrow> rdu b 2; prn \<leftarrow> rdu b 5; prc \<leftarrow> rds b 16; rrc \<leftarrow> rds b 8; iod \<leftarrow> rds b 8;
     State_Monad.return (fact, udre, prn, prc, rrc, iod) }"

text \<open>
  The test for the values that mean a problem of the satellite compares with constants of 32 bits.
\<close>

definition rec1 :: "rtcm \<Rightarrow> nat \<Rightarrow> rtcm" where
  "rec1 rtcm i =
    (let (fact, udre, prn, prc, rrc, iod) = fst (run_state (read_type1 (r_buff rtcm)) i);
         prn = (if prn = 0 then 32 else prn)
     in if real_of_int prc = 0x80000000 \<or> real_of_int rrc = 0xFFFF8000 then rtcm
        else case r_dgps rtcm of
          None \<Rightarrow> rtcm
        | Some ds \<Rightarrow>
            (let sat = satno SYS_GPS prn in
             rtcm\<lparr>r_dgps := Some (ds[nat (sat - 1) :=
               \<lparr>dg_t0 = r_time rtcm, dg_prc = of_int prc * (if fact \<noteq> 0 then 0.32 else 0.02),
                dg_rrc = of_int rrc * (if fact \<noteq> 0 then 0.032 else 0.002),
                dg_iod = iod, dg_udre = of_int udre\<rparr>])\<rparr>))"

lemma rec1_len [simp]: "r_len (rec1 rtcm i) = r_len rtcm"
  by (simp add: rec1_def Let_def split: option.split prod.split)

function loop1 :: "nat \<Rightarrow> rtcm \<Rightarrow> rtcm" where
  "loop1 i rtcm = (if i + 40 \<le> r_len rtcm * 8 then loop1 (i + 40) (rec1 rtcm i) else rtcm)"
  by pat_completeness auto
termination
  by (relation "measure (\<lambda>(i, rtcm). r_len rtcm * 8 - i)") auto

declare loop1.simps [simp del]

definition decode_type1 :: "rtcm \<Rightarrow> rtcm \<times> int" where
  "decode_type1 rtcm = (loop1 48 rtcm, 7)"

section \<open>Station, time and text\<close>

definition decode_type3 :: "rtcm \<Rightarrow> rtcm \<times> int" where
  "decode_type3 rtcm =
    (if 48 + 96 \<le> r_len rtcm * 8
     then let b = r_buff rtcm in
       (rtcm\<lparr>r_sta := (r_sta rtcm)\<lparr>sta_pos :=
          [of_int (getbits b 48 32) * 0.01, of_int (getbits b 80 32) * 0.01,
           of_int (getbits b 112 32) * 0.01]\<rparr>\<rparr>, 5)
     else (rtcm, -1))"

definition decode_type14 :: "env \<Rightarrow> rtcm \<Rightarrow> rtcm \<times> int" where
  "decode_type14 e rtcm =
    (let b = r_buff rtcm; zcnt = getu b 24 13 in
     if 48 + 24 \<le> r_len rtcm * 8
     then let (week, hour, leaps) =
                fst (run_state (do { week \<leftarrow> rdu b 10; hour \<leftarrow> rdu b 8; leaps \<leftarrow> rdu b 6;
                                     State_Monad.return (week, hour, leaps) }) 48);
              week = adjgpsweek (now e) week
          in (rtcm\<lparr>r_time := gpst2time week (of_int hour * 3600 + of_int zcnt * 0.6),
                r_nav := (r_nav rtcm)\<lparr>nav_utc_gps := (nav_utc_gps (r_nav rtcm))[4 := of_int leaps]\<rparr>\<rparr>, 6)
     else (rtcm, -1))"

text \<open>The loop that copies at most 90 characters.\<close>

function loop16 :: "u8 list \<Rightarrow> nat \<Rightarrow> nat \<Rightarrow> nat \<Rightarrow> string" where
  "loop16 b len i n =
    (if i + 8 \<le> len * 8 \<and> n < 90 then byte_char (getu b i 8) # loop16 b len (i + 8) (n + 1) else [])"
  by pat_completeness auto
termination
  by (relation "measure (\<lambda>(b, len, i, n). 90 - n)") auto

declare loop16.simps [simp del]

definition decode_type16 :: "rtcm \<Rightarrow> rtcm \<times> int" where
  "decode_type16 rtcm = (rtcm\<lparr>r_msg := c_string (loop16 (r_buff rtcm) (r_len rtcm) 48 0)\<rparr>, 9)"

text \<open>
  The antenna offset of the first frequency and the height; the offset of the second frequency is
  read and dropped.
\<close>

definition decode_type22 :: "rtcm \<Rightarrow> rtcm \<times> int" where
  "decode_type22 rtcm =
    (let b = r_buff rtcm in
     if 48 + 24 \<le> r_len rtcm * 8
     then let del0 = [of_int (getbits b 48 8) / 25600, of_int (getbits b 56 8) / 25600,
                      of_int (getbits b 64 8) / 25600];
              hgt = (if 72 + 24 \<le> r_len rtcm * 8
                     then (let noh = getbits b 77 1
                           in if noh \<noteq> 0 then 0 else of_int (getu b 78 18) / 25600)
                     else 0)
          in (rtcm\<lparr>r_sta := (r_sta rtcm)\<lparr>sta_deltype := 1, sta_del := del0, sta_hgt := hgt\<rparr>\<rparr>, 5)
     else (rtcm, -1))"

section \<open>Ephemerides\<close>

definition read_type17 :: "u8 list \<Rightarrow> (nat, int \<times> double \<times> double \<times> int \<times> eph) state" where
  "read_type17 b = do {
     week \<leftarrow> rdu b 10; idot \<leftarrow> rds b 14; iode \<leftarrow> rdu b 8; toc \<leftarrow> rdu b 16; f1 \<leftarrow> rds b 16; f2 \<leftarrow> rds b 8;
     crs \<leftarrow> rds b 16; deln \<leftarrow> rds b 16; cuc \<leftarrow> rds b 16; e \<leftarrow> rdu b 32; cus \<leftarrow> rds b 16; sqrtA \<leftarrow> rdu b 32;
     toes \<leftarrow> rdu b 16; OMG0 \<leftarrow> rds b 32; cic \<leftarrow> rds b 16; i0 \<leftarrow> rds b 32; cis \<leftarrow> rds b 16; omg \<leftarrow> rds b 32;
     crc \<leftarrow> rds b 16; OMGd \<leftarrow> rds b 24; M0 \<leftarrow> rds b 32; iodc \<leftarrow> rdu b 10; f0 \<leftarrow> rds b 22; prn \<leftarrow> rdu b 5; skip 3;
     tgd \<leftarrow> rds b 8; code \<leftarrow> rdu b 2; sva \<leftarrow> rdu b 4; svh \<leftarrow> rdu b 6; flag \<leftarrow> rdu b 1;
     State_Monad.return (week, of_int toc * 16, of_int sqrtA * P2 19, prn,
       eph_zero\<lparr>eph_idot := of_int idot * P2 43 * SC2RAD, eph_iode := iode,
         eph_f1 := of_int f1 * P2 43, eph_f2 := of_int f2 * P2 55, eph_crs := of_int crs * P2 5,
         eph_deln := of_int deln * P2 43 * SC2RAD, eph_cuc := of_int cuc * P2 29,
         eph_e := of_int e * P2 33, eph_cus := of_int cus, eph_toes := of_int toes,
         eph_OMG0 := of_int OMG0 * P2 31 * SC2RAD, eph_cic := of_int cic * P2 29,
         eph_i0 := of_int i0 * P2 31 * SC2RAD, eph_cis := of_int cis * P2 29,
         eph_omg := of_int omg * P2 31 * SC2RAD, eph_crc := of_int crc * P2 5,
         eph_OMGd := of_int OMGd * P2 43 * SC2RAD, eph_M0 := of_int M0 * P2 31 * SC2RAD,
         eph_iodc := iodc, eph_f0 := of_int f0 * P2 31,
         eph_tgd := [of_int tgd * P2 31, 0, 0, 0, 0, 0], eph_code := code, eph_sva := sva,
         eph_svh := svh, eph_flag := flag\<rparr>) }"

definition decode_type17 :: "env \<Rightarrow> rtcm \<Rightarrow> rtcm \<times> int" where
  "decode_type17 e rtcm =
    (if 48 + 480 \<le> r_len rtcm * 8
     then let (week, toc, sqrtA, prn, eph) = fst (run_state (read_type17 (r_buff rtcm)) 48);
              prn = (if prn = 0 then 32 else prn);
              sat = satno SYS_GPS prn;
              week = adjgpsweek (now e) week;
              eph = eph\<lparr>eph_sat := sat, eph_week := week, eph_toe := gpst2time week (eph_toes eph),
                        eph_toc := gpst2time week toc, eph_ttr := r_time rtcm, eph_A := sqrtA * sqrtA\<rparr>
          in put_eph rtcm sat 0 eph
     else (rtcm, -1))"

section \<open>Observations\<close>

text \<open>The header of messages 18 and 19: the index of the frequency and the time offset, None for -1.\<close>

definition head18 :: "rtcm \<Rightarrow> (nat \<times> int) option" where
  "head18 rtcm =
    (if 48 + 24 \<le> r_len rtcm * 8
     then let (freq, usec) =
                fst (run_state (do { freq \<leftarrow> rdu (r_buff rtcm) 2; skip 2; usec \<leftarrow> rdu (r_buff rtcm) 20;
                                     State_Monad.return (freq, usec) }) 48)
          in if odd freq then None else Some (nat (freq div 2), usec)
     else None)"

text \<open>The statements that find the entry of a record: its time, a new epoch, its index.\<close>

definition entry2 :: "rtcm \<Rightarrow> int \<Rightarrow> int \<Rightarrow> int \<Rightarrow> rtcm \<times> int" where
  "entry2 rtcm usec sys sat =
    (let time = timeadd (r_time rtcm) (of_int usec * 0.000001);
         time = (if sys \<noteq> 0 then utc2gpst time else time)
     in obsindex2 (new_epoch2 rtcm time) time sat)"

definition code2 :: "nat \<Rightarrow> int \<Rightarrow> nat" where
  "code2 freq code =
    (if freq = 0 then (if code \<noteq> 0 then CODE_L1P else CODE_L1C)
     else (if code \<noteq> 0 then CODE_L2P else CODE_L2C))"

text \<open>One record of message 18: the struct and the multiple-message indicator of the record.\<close>

definition rec18 :: "nat \<Rightarrow> int \<Rightarrow> rtcm \<Rightarrow> nat \<Rightarrow> rtcm \<times> int" where
  "rec18 freq usec rtcm i =
    (let b = r_buff rtcm;
         (sync, code, sys, prn, loss, cp) =
           fst (run_state (do { sync \<leftarrow> rdu b 1; code \<leftarrow> rdu b 1; sys \<leftarrow> rdu b 1; prn \<leftarrow> rdu b 5; skip 3;
                                loss \<leftarrow> rdu b 5; cp \<leftarrow> rds b 32;
                                State_Monad.return (sync, code, sys, prn, loss, cp) }) i);
         prn = (if prn = 0 then 32 else prn);
         sat = satno (if sys \<noteq> 0 then SYS_GLO else SYS_GPS) prn
     in if sat = 0 then (rtcm, sync)
        else let (rtcm, index) = entry2 rtcm usec sys sat
             in if index < 0 then (rtcm, sync)
                else let lli = (if r_loss rtcm ! nat (sat - 1) ! freq \<noteq> loss then 1 else 0);
                         rtcm = upd_obs rtcm (nat index) (\<lambda>d. d\<lparr>ob_L := (ob_L d)[freq := - of_int cp / 256],
                                  ob_LLI := (ob_LLI d)[freq := lli],
                                  ob_code := (ob_code d)[freq := code2 freq code]\<rparr>)
                     in (rtcm\<lparr>r_loss := upd2 (r_loss rtcm) (nat (sat - 1)) freq loss\<rparr>, sync))"

definition rec19 :: "nat \<Rightarrow> int \<Rightarrow> rtcm \<Rightarrow> nat \<Rightarrow> rtcm \<times> int" where
  "rec19 freq usec rtcm i =
    (let b = r_buff rtcm;
         (sync, code, sys, prn, pr) =
           fst (run_state (do { sync \<leftarrow> rdu b 1; code \<leftarrow> rdu b 1; sys \<leftarrow> rdu b 1; prn \<leftarrow> rdu b 5; skip 8;
                                pr \<leftarrow> rdu b 32; State_Monad.return (sync, code, sys, prn, pr) }) i);
         prn = (if prn = 0 then 32 else prn);
         sat = satno (if sys \<noteq> 0 then SYS_GLO else SYS_GPS) prn
     in if sat = 0 then (rtcm, sync)
        else let (rtcm, index) = entry2 rtcm usec sys sat
             in if index < 0 then (rtcm, sync)
                else (upd_obs rtcm (nat index) (\<lambda>d. d\<lparr>ob_P := (ob_P d)[freq := of_int pr * 0.02],
                        ob_code := (ob_code d)[freq := code2 freq code]\<rparr>), sync))"

text \<open>Every record takes 48 bits; the length of the message stays.\<close>

lemma entry2_len [simp]: "r_len (fst (entry2 rtcm usec sys sat)) = r_len rtcm"
  by (simp add: entry2_def obsindex2_def new_epoch2_def Let_def split: option.split)

lemma recs_len [simp]:
  "r_len (fst (rec18 freq usec rtcm i)) = r_len rtcm" "r_len (fst (rec19 freq usec rtcm i)) = r_len rtcm"
  using entry2_len [of rtcm usec]
  by (simp_all add: rec18_def rec19_def upd_obs_def Let_def case_prod_beta)

lemma rec18_len: "rec18 freq usec rtcm i = (rtcm', sync) \<Longrightarrow> r_len rtcm' = r_len rtcm"
  and rec19_len: "rec19 freq usec rtcm i = (rtcm', sync) \<Longrightarrow> r_len rtcm' = r_len rtcm"
  using recs_len [of freq usec rtcm i] by simp_all

function loop18 :: "nat \<Rightarrow> int \<Rightarrow> nat \<Rightarrow> rtcm \<Rightarrow> int \<Rightarrow> rtcm \<times> int" where
  "loop18 freq usec i rtcm sync =
    (if i + 48 \<le> r_len rtcm * 8 \<and> r_obs_n rtcm < MAXOBS
     then loop18 freq usec (i + 48) (fst (rec18 freq usec rtcm i)) (snd (rec18 freq usec rtcm i))
     else (rtcm, sync))"
  by pat_completeness auto
termination
  by (relation "measure (\<lambda>(freq, usec, i, rtcm, sync). r_len rtcm * 8 - i)") (auto dest!: rec18_len split: prod.split)

function loop19 :: "nat \<Rightarrow> int \<Rightarrow> nat \<Rightarrow> rtcm \<Rightarrow> int \<Rightarrow> rtcm \<times> int" where
  "loop19 freq usec i rtcm sync =
    (if i + 48 \<le> r_len rtcm * 8 \<and> r_obs_n rtcm < MAXOBS
     then loop19 freq usec (i + 48) (fst (rec19 freq usec rtcm i)) (snd (rec19 freq usec rtcm i))
     else (rtcm, sync))"
  by pat_completeness auto
termination
  by (relation "measure (\<lambda>(freq, usec, i, rtcm, sync). r_len rtcm * 8 - i)") (auto dest!: rec19_len split: prod.split)

declare loop18.simps [simp del] loop19.simps [simp del]

definition sync_status :: "rtcm \<times> int \<Rightarrow> rtcm \<times> int" where
  "sync_status r =
    (case r of (rtcm, sync) \<Rightarrow>
       (rtcm\<lparr>r_obsflag := (if sync = 0 then 1 else 0)\<rparr>, if sync \<noteq> 0 then 0 else 1))"

definition decode_type18 :: "rtcm \<Rightarrow> rtcm \<times> int" where
  "decode_type18 rtcm =
    (case head18 rtcm of
       None \<Rightarrow> (rtcm, -1)
     | Some (freq, usec) \<Rightarrow> sync_status (loop18 freq usec 72 rtcm 1))"

definition decode_type19 :: "rtcm \<Rightarrow> rtcm \<times> int" where
  "decode_type19 rtcm =
    (case head18 rtcm of
       None \<Rightarrow> (rtcm, -1)
     | Some (freq, usec) \<Rightarrow> sync_status (loop19 freq usec 72 rtcm 1))"

section \<open>The dispatch\<close>

text \<open>Messages 23, 24, 31, 32, 34, 36, 37 and 59 have stubs that return 0.\<close>

definition decode_stub :: "rtcm \<Rightarrow> rtcm \<times> int" where
  "decode_stub rtcm = (rtcm, 0)"

definition rtcm2_cases :: "env \<Rightarrow> (int \<times> (rtcm \<Rightarrow> rtcm \<times> int)) list" where
  "rtcm2_cases e =
    [(1, decode_type1), (3, decode_type3), (9, decode_type1), (14, decode_type14 e),
     (16, decode_type16), (17, decode_type17 e), (18, decode_type18), (19, decode_type19),
     (22, decode_type22), (23, decode_stub), (24, decode_stub), (31, decode_stub),
     (32, decode_stub), (34, decode_stub), (36, decode_stub), (37, decode_stub), (59, decode_stub)]"

definition count_msg2 :: "rtcm \<Rightarrow> int \<Rightarrow> rtcm" where
  "count_msg2 rtcm type =
    (let k = (if 1 \<le> type \<and> type \<le> 99 then nat type else 0)
     in rtcm\<lparr>r_nmsg2 := (r_nmsg2 rtcm)[k := (r_nmsg2 rtcm ! k + 1) mod 2 ^ 32]\<rparr>)"

definition decode_rtcm2 :: "env \<Rightarrow> rtcm \<Rightarrow> rtcm \<times> int" where
  "decode_rtcm2 e rtcm =
    (let b = r_buff rtcm; type = getu b 8 6; zcnt = of_int (getu b 24 13) * 0.6 in
     if zcnt \<ge> 3600 then (rtcm, -1)
     else
      let rtcm = adjhour e rtcm zcnt;
          staid = getu b 14 10; seqno = getu b 37 3; stah = getu b 45 3;
          rtcm = rtcm\<lparr>r_seqno := seqno, r_stah := stah\<rparr>;
          rtcm = (if type \<in> {3, 22, 23, 24} then rtcm\<lparr>r_staid := staid\<rparr> else rtcm)
      in if r_staid rtcm \<noteq> 0 \<and> staid \<noteq> r_staid rtcm then (rtcm, -1)
         else let (rtcm, ret) = (case map_of (rtcm2_cases e) type of Some f \<Rightarrow> f rtcm | None \<Rightarrow> (rtcm, 0))
              in (if ret \<ge> 0 then count_msg2 rtcm type else rtcm, ret))"

section \<open>What the decoders keep\<close>

text \<open>The interface of \<open>RtcmInv\<close>, with the members that only RTCM 2 writes.\<close>

locale rtcm2_invariant = rtcm_invariant +
  assumes P_seqno: "P rtcm \<Longrightarrow> P (rtcm\<lparr>r_seqno := i\<rparr>)"
    and P_stah: "P rtcm \<Longrightarrow> P (rtcm\<lparr>r_stah := i\<rparr>)"
    and P_loss: "P rtcm \<Longrightarrow> P (rtcm\<lparr>r_loss := upd2 (r_loss rtcm) j k i\<rparr>)"
    and P_nmsg2: "P rtcm \<Longrightarrow> P (rtcm\<lparr>r_nmsg2 := (r_nmsg2 rtcm)[k := i]\<rparr>)"
    and P_dgps: "P rtcm \<Longrightarrow> r_dgps rtcm = Some ds \<Longrightarrow> P (rtcm\<lparr>r_dgps := Some (ds[k := x])\<rparr>)"
    and P_obs_reuse: "P rtcm \<Longrightarrow> r_obs_n rtcm < MAXOBS \<Longrightarrow> 1 \<le> sat \<Longrightarrow> sat \<le> MAXSAT \<Longrightarrow>
      sat \<notin> set (obs_sats rtcm) \<Longrightarrow> (\<And>d. ob_sat (f d) = sat) \<Longrightarrow> (\<And>d. wf_obsd d \<Longrightarrow> wf_obsd (f d)) \<Longrightarrow>
      P (rtcm\<lparr>r_obs := (r_obs rtcm)[r_obs_n rtcm := f (r_obs rtcm ! r_obs_n rtcm)],
             r_obs_n := r_obs_n rtcm + 1\<rparr>)"
begin

lemma inv_adjhour: "P rtcm \<Longrightarrow> P (adjhour e rtcm zcnt)"
  by (simp add: adjhour_def Let_def inv_get_time split: prod.split)

lemma inv_new_epoch2: "P rtcm \<Longrightarrow> P (new_epoch2 rtcm time)"
  by (simp add: new_epoch2_def Let_def)

lemma inv_obsindex2:
  assumes "P rtcm" and "1 \<le> sat" and "sat \<le> MAXSAT"
  shows "P (fst (obsindex2 rtcm t sat))"
proof (cases "find_sat (take (r_obs_n rtcm) (r_obs rtcm)) sat 0")
  case None
  then have "sat \<notin> set (obs_sats rtcm)" by (simp add: find_sat_None obs_sats_def)
  then show ?thesis
    using assms None
    by (auto simp: obsindex2_def Let_def wf_obsd_def clear5_def
        intro!: P_obs_reuse [of _ sat "\<lambda>d. d\<lparr>ob_time := t, ob_sat := sat, ob_L := clear5 0 (ob_L d),
          ob_P := clear5 0 (ob_P d), ob_D := clear5 0 (ob_D d), ob_SNR := clear5 0 (ob_SNR d),
          ob_LLI := clear5 0 (ob_LLI d), ob_code := clear5 0 (ob_code d)\<rparr>", simplified])
qed (use assms(1) in \<open>simp add: obsindex2_def\<close>)

lemma inv_entry2:
  "P rtcm \<Longrightarrow> satno sys prn \<noteq> 0 \<Longrightarrow> P (fst (entry2 rtcm usec s (satno sys prn)))"
  unfolding entry2_def Let_def
  using satno_pos_bounds [of sys prn] by (intro inv_obsindex2 inv_new_epoch2) auto

lemma inv_rec1: "P rtcm \<Longrightarrow> P (rec1 rtcm i)"
  unfolding rec1_def Let_def case_prod_beta by (auto intro: P_dgps split: option.split)

lemma inv_rec18: "P rtcm \<Longrightarrow> P (fst (rec18 freq usec rtcm i))"
  unfolding rec18_def Let_def case_prod_beta
  by (auto intro!: P_loss inv_entry2 inv_upd_obs simp: wf_obsd_def)

lemma inv_rec19: "P rtcm \<Longrightarrow> P (fst (rec19 freq usec rtcm i))"
  unfolding rec19_def Let_def case_prod_beta
  by (auto intro!: inv_entry2 inv_upd_obs simp: wf_obsd_def)

lemma inv_loop1: "P rtcm \<Longrightarrow> P (loop1 i rtcm)"
proof (induction i rtcm rule: loop1.induct)
  case (1 i rtcm)
  then show ?case by (subst loop1.simps) (simp add: inv_rec1)
qed

lemma inv_loop18: "P rtcm \<Longrightarrow> P (fst (loop18 freq usec i rtcm sync))"
proof (induction freq usec i rtcm sync rule: loop18.induct)
  case (1 freq usec i rtcm sync)
  then show ?case by (subst loop18.simps) (simp add: inv_rec18)
qed

lemma inv_loop19: "P rtcm \<Longrightarrow> P (fst (loop19 freq usec i rtcm sync))"
proof (induction freq usec i rtcm sync rule: loop19.induct)
  case (1 freq usec i rtcm sync)
  then show ?case by (subst loop19.simps) (simp add: inv_rec19)
qed

lemma length_loop16: "n \<le> 90 \<Longrightarrow> length (loop16 b len i n) \<le> 90 - n"
proof (induction b len i n rule: loop16.induct)
  case (1 b len i n)
  then show ?case by (subst loop16.simps) auto
qed

lemma inv_decode2:
  assumes "P rtcm"
  shows "P (fst (decode_type1 rtcm))" and "P (fst (decode_type3 rtcm))"
    and "P (fst (decode_type14 e rtcm))" and "P (fst (decode_type16 rtcm))"
    and "P (fst (decode_type17 e rtcm))" and "P (fst (decode_type18 rtcm))"
    and "P (fst (decode_type19 rtcm))" and "P (fst (decode_type22 rtcm))"
    and "P (fst (decode_stub rtcm))"
proof -
  have "length (c_string (loop16 b len 48 0)) < 128" for b len
    using length_takeWhile_le [of "\<lambda>c. c \<noteq> CHR 0x00" "loop16 b len 48 0"] length_loop16 [of 0 b len 48]
    unfolding c_string_def by simp
  then show "P (fst (decode_type16 rtcm))"
    using assms by (simp add: decode_type16_def P_msg)
  show "P (fst (decode_type1 rtcm))" using assms by (simp add: decode_type1_def inv_loop1)
  show "P (fst (decode_type3 rtcm))" "P (fst (decode_type22 rtcm))" "P (fst (decode_stub rtcm))"
    using assms by (auto simp: decode_type3_def decode_type22_def decode_stub_def Let_def wf_sta_def
        intro!: P_sta)
  show "P (fst (decode_type14 e rtcm))"
    using assms unfolding decode_type14_def Let_def case_prod_beta
    by (auto intro!: P_nav [of "rtcm\<lparr>r_time := t\<rparr>" for t, simplified] simp: wf_nav_def)
  show "P (fst (decode_type17 e rtcm))"
    using assms unfolding decode_type17_def Let_def case_prod_beta by (simp add: inv_put_eph)
  show "P (fst (decode_type18 rtcm))" "P (fst (decode_type19 rtcm))"
    using inv_loop18 [OF assms] inv_loop19 [OF assms] assms
    by (auto simp: decode_type18_def decode_type19_def sync_status_def case_prod_beta split: option.split)
qed

lemma inv_count_msg2: "P rtcm \<Longrightarrow> P (count_msg2 rtcm type)"
  by (simp add: count_msg2_def Let_def P_nmsg2)

lemma inv_rtcm2_case:
  "P rtcm \<Longrightarrow> P (fst (case map_of (rtcm2_cases e) type of Some f \<Rightarrow> f rtcm | None \<Rightarrow> (rtcm, 0)))"
  by (simp add: rtcm2_cases_def inv_decode2)

lemma inv_decode_rtcm2: "P rtcm \<Longrightarrow> P (fst (decode_rtcm2 e rtcm))"
  unfolding decode_rtcm2_def Let_def case_prod_beta
  by (simp add: inv_count_msg2 inv_rtcm2_case P_seqno P_stah inv_adjhour)

end

interpretation wf2: rtcm2_invariant wf_state
proof
  fix rtcm sat f
  assume a: "wf_state rtcm" "r_obs_n rtcm < MAXOBS" "1 \<le> sat" "sat \<le> MAXSAT"
    "sat \<notin> set (obs_sats rtcm)" "\<And>d. ob_sat (f d) = sat" "\<And>d. wf_obsd d \<Longrightarrow> wf_obsd (f d)"
  then have "wf_obsd (f (r_obs rtcm ! r_obs_n rtcm))" by (auto simp: wf_state_def wf_obs_def)
  then show "wf_state (rtcm\<lparr>r_obs := (r_obs rtcm)[r_obs_n rtcm := f (r_obs rtcm ! r_obs_n rtcm)],
      r_obs_n := r_obs_n rtcm + 1\<rparr>)"
    using a by (intro wf.P_obs_new)
qed (simp_all add: wf_state_def wf_obs_def obs_sats_def rect_upd2)

interpretation frame2: rtcm2_invariant "same_frame r0" for r0
  by unfold_locales (simp_all add: same_frame_def)

section \<open>Loops\<close>

text \<open>
  The loop of message 1 ends after as many rounds as whole records fit behind the header, and does
  one round for each of them, in order.
\<close>

lemma loop1_rounds:
  "loop1 i rtcm = fold (\<lambda>k r. rec1 r (i + 40 * k)) [0..<(r_len rtcm * 8 - i) div 40] rtcm"
proof (induction i rtcm rule: loop1.induct)
  case (1 i rtcm)
  show ?case
  proof (cases "i + 40 \<le> r_len rtcm * 8")
    case True
    then have n: "(r_len rtcm * 8 - i) div 40 = Suc ((r_len rtcm * 8 - (i + 40)) div 40)"
      by (simp add: le_div_geq)
    have "loop1 i rtcm = loop1 (i + 40) (rec1 rtcm i)" using True by (subst loop1.simps) simp
    also have "\<dots> = fold (\<lambda>k r. rec1 r (i + 40 * k)) [1..<Suc ((r_len rtcm * 8 - (i + 40)) div 40)] (rec1 rtcm i)"
      unfolding 1 [OF True] One_nat_def map_Suc_upt [symmetric] fold_map by (simp add: comp_def add.assoc)
    also have "\<dots> = fold (\<lambda>k r. rec1 r (i + 40 * k)) [0..<(r_len rtcm * 8 - i) div 40] rtcm"
      unfolding n by (simp add: upt_conv_Cons del: upt_Suc)
    finally show ?thesis .
  next
    case False
    then have "(r_len rtcm * 8 - i) div 40 = 0" by simp
    then show ?thesis using False by (subst loop1.simps) simp
  qed
qed

text \<open>The test for a problem of the satellite is never true: every record is stored.\<close>

lemma rec1_test: "(real_of_int (getbits b i 16) = 0x80000000 \<or> real_of_int (getbits b j 8) = 0xFFFF8000) = False"
  using getbits_bounds [of 16 b i] getbits_bounds [of 8 b j] by auto

lemma run_type1:
  "fst (run_state (read_type1 b) i) =
    (getu b i 1, getu b (i + 1) 2, getu b (i + 3) 5, getbits b (i + 8) 16, getbits b (i + 24) 8,
     getbits b (i + 32) 8)"
  by (simp add: read_type1_def add.commute [of i] numeral_3_eq_3)

definition dgps_rec :: "rtcm \<Rightarrow> nat \<Rightarrow> dgps" where
  "dgps_rec rtcm i =
    (let b = r_buff rtcm; fact = getu b i 1 in
     \<lparr>dg_t0 = r_time rtcm, dg_prc = of_int (getbits b (i + 8) 16) * (if fact \<noteq> 0 then 0.32 else 0.02),
      dg_rrc = of_int (getbits b (i + 24) 8) * (if fact \<noteq> 0 then 0.032 else 0.002),
      dg_iod = getbits b (i + 32) 8, dg_udre = of_int (getu b (i + 1) 2)\<rparr>)"

definition dgps_slot :: "rtcm \<Rightarrow> nat \<Rightarrow> nat" where
  "dgps_slot rtcm i = (let prn = getu (r_buff rtcm) (i + 3) 5 in if prn = 0 then 31 else nat (prn - 1))"

lemma satno_gps: "1 \<le> prn \<Longrightarrow> prn \<le> 32 \<Longrightarrow> satno SYS_GPS prn = prn"
  by (simp add: satno_def)

lemma rec1_stores:
  "rec1 rtcm i = (case r_dgps rtcm of None \<Rightarrow> rtcm
     | Some ds \<Rightarrow> rtcm\<lparr>r_dgps := Some (ds[dgps_slot rtcm i := dgps_rec rtcm i])\<rparr>)"
proof -
  define prn where "prn = getu (r_buff rtcm) (i + 3) 5"
  have p: "0 \<le> prn" "prn < 32" using getu_nonneg [of "r_buff rtcm" "i + 3" 5] getu_less [of 5 "r_buff rtcm" "i + 3"]
    by (simp_all add: prn_def)
  have "nat (satno SYS_GPS (if prn = 0 then 32 else prn) - 1) = dgps_slot rtcm i"
    using p by (simp add: dgps_slot_def satno_gps prn_def [symmetric])
  then show ?thesis
    unfolding rec1_def Let_def run_type1 prod.case prn_def [symmetric] dgps_rec_def rec1_test if_False
    by (simp only:)
qed


text \<open>
  The loops of messages 18 and 19 end after all records that fit behind the header, or earlier
  with a full observation buffer.
\<close>

definition rounds :: "(rtcm \<Rightarrow> nat \<Rightarrow> rtcm \<times> int) \<Rightarrow> nat \<Rightarrow> nat \<Rightarrow> rtcm \<times> int \<Rightarrow> rtcm \<times> int" where
  "rounds f i n r = fold (\<lambda>k (rtcm, sync). f rtcm (i + 48 * k)) [0..<n] r"

lemma rounds_0 [simp]: "rounds f i 0 r = r"
  by (simp add: rounds_def)

lemma rounds_Suc: "rounds f i (Suc n) r = rounds f (i + 48) n (f (fst r) i)"
proof -
  have "rounds f i (Suc n) r = fold (\<lambda>k (rtcm, sync). f rtcm (i + 48 * k)) (0 # map Suc [0..<n]) r"
    unfolding rounds_def by (simp add: map_Suc_upt upt_conv_Cons del: upt_Suc)
  then show ?thesis unfolding rounds_def by (simp add: fold_map comp_def case_prod_beta add.assoc)
qed

text \<open>What it means that a loop ran: \<open>n\<close> rounds, and why it stopped.\<close>

definition ran :: "(rtcm \<Rightarrow> nat \<Rightarrow> rtcm \<times> int) \<Rightarrow> nat \<Rightarrow> rtcm \<Rightarrow> int \<Rightarrow> rtcm \<times> int \<Rightarrow> nat \<Rightarrow> bool" where
  "ran f i rtcm sync r n \<longleftrightarrow> r = rounds f i n (rtcm, sync) \<and> n \<le> (r_len rtcm * 8 - i) div 48 \<and>
     (n = (r_len rtcm * 8 - i) div 48 \<or> r_obs_n (fst r) \<ge> MAXOBS)"

lemma ran_step:
  assumes "i + 48 \<le> r_len rtcm * 8" and "r_len (fst (f rtcm i)) = r_len rtcm"
    and "ran f (i + 48) (fst (f rtcm i)) (snd (f rtcm i)) r n"
  shows "ran f i rtcm sync r (Suc n)"
proof -
  have "(r_len rtcm * 8 - i) div 48 = Suc ((r_len rtcm * 8 - (i + 48)) div 48)"
    using assms(1) by (simp add: le_div_geq)
  then show ?thesis using assms(2,3) by (auto simp: ran_def rounds_Suc)
qed

lemma ran_stop:
  assumes "\<not> (i + 48 \<le> r_len rtcm * 8 \<and> r_obs_n rtcm < MAXOBS)"
  shows "ran f i rtcm sync (rtcm, sync) 0"
proof (cases "i + 48 \<le> r_len rtcm * 8")
  case False
  then have "(r_len rtcm * 8 - i) div 48 = 0" by simp
  then show ?thesis by (simp add: ran_def)
qed (use assms in \<open>simp add: ran_def\<close>)

lemma loop18_ran: "\<exists>n. ran (rec18 freq usec) i rtcm sync (loop18 freq usec i rtcm sync) n"
proof (induction freq usec i rtcm sync rule: loop18.induct)
  case (1 freq usec i rtcm sync)
  show ?case
  proof (cases "i + 48 \<le> r_len rtcm * 8 \<and> r_obs_n rtcm < MAXOBS")
    case True
    then have l: "loop18 freq usec i rtcm sync =
        loop18 freq usec (i + 48) (fst (rec18 freq usec rtcm i)) (snd (rec18 freq usec rtcm i))"
      by (subst loop18.simps) simp
    from 1 [OF True] show ?thesis using True unfolding l by (blast intro: ran_step recs_len)
  next
    case False
    then show ?thesis by (subst loop18.simps) (auto intro: ran_stop)
  qed
qed

lemma loop19_ran: "\<exists>n. ran (rec19 freq usec) i rtcm sync (loop19 freq usec i rtcm sync) n"
proof (induction freq usec i rtcm sync rule: loop19.induct)
  case (1 freq usec i rtcm sync)
  show ?case
  proof (cases "i + 48 \<le> r_len rtcm * 8 \<and> r_obs_n rtcm < MAXOBS")
    case True
    then have l: "loop19 freq usec i rtcm sync =
        loop19 freq usec (i + 48) (fst (rec19 freq usec rtcm i)) (snd (rec19 freq usec rtcm i))"
      by (subst loop19.simps) simp
    from 1 [OF True] show ?thesis using True unfolding l by (blast intro: ran_step recs_len)
  next
    case False
    then show ?thesis by (subst loop19.simps) (auto intro: ran_stop)
  qed
qed

section \<open>Time and status\<close>

lemma adjhour_nearest:
  assumes "normal_time (ref_time e rtcm)" and "315964800 \<le> gt_time (ref_time e rtcm)"
    and "0 \<le> zcnt" and "zcnt < 3600"
  shows "\<bar>timediff (r_time (adjhour e rtcm zcnt)) (ref_time e rtcm)\<bar> \<le> 1800"
    and "\<exists>k :: int. tval (r_time (adjhour e rtcm zcnt)) = 315964800 + 3600 * of_int k + zcnt"
proof -
  define t where "t = ref_time e rtcm"
  define tow where "tow = fst (time2gpst t)"
  define week where "week = snd (time2gpst t)"
  define h where "h = \<lfloor>tow / 3600\<rfloor>"
  define sec where "sec = tow - of_int h * 3600"
  define z where "z = (if zcnt < sec - 1800 then zcnt + 3600
                 else if zcnt > sec + 1800 then zcnt - 3600 else zcnt)"
  have p: "0 \<le> tow" "tow < 604800" "tval t = 315964800 + 604800 * of_int week + tow"
    using time2gpst_parts [OF assms(1,2)] by (simp_all add: t_def tow_def week_def)
  have "of_int h \<le> tow / 3600" "tow / 3600 < of_int h + 1" unfolding h_def by linarith+
  then have s: "0 \<le> sec" "sec < 3600" by (simp_all add: sec_def field_simps)
  have r: "r_time (adjhour e rtcm zcnt) = gpst2time week (of_int h * 3600 + z)"
    by (simp add: adjhour_def Let_def tow_def week_def t_def ref_time_def h_def sec_def z_def case_prod_beta)
  have "-1000000000 \<le> of_int h * 3600 + z" "of_int h * 3600 + z \<le> 1000000000"
    using assms(3,4) p s unfolding z_def sec_def by (auto split: if_split)
  then have v: "tval (gpst2time week (of_int h * 3600 + z)) =
      315964800 + 604800 * of_int week + (of_int h * 3600 + z)"
    by (rule tval_gpst2time)
  show "\<bar>timediff (r_time (adjhour e rtcm zcnt)) (ref_time e rtcm)\<bar> \<le> 1800"
    unfolding r timediff_tval v t_def [symmetric] p(3) using s assms(3,4) by (auto simp: z_def sec_def)
  have "z = zcnt + 3600 * of_int (if zcnt < sec - 1800 then 1 else if zcnt > sec + 1800 then -1 else 0 :: int)"
    by (simp add: z_def)
  then have "tval (r_time (adjhour e rtcm zcnt)) = 315964800 + 3600 * of_int (168 * week + h +
      (if zcnt < sec - 1800 then 1 else if zcnt > sec + 1800 then -1 else 0)) + zcnt"
    unfolding r v by (simp only: of_int_add) (simp add: algebra_simps)
  then show "\<exists>k :: int. tval (r_time (adjhour e rtcm zcnt)) = 315964800 + 3600 * of_int k + zcnt"
    by blast
qed

text \<open>The statuses of the decoders, and the two checks of the header.\<close>

lemma sync_status_range: "snd (sync_status r) \<in> {0, 1}"
  by (simp add: sync_status_def case_prod_beta)

lemma decode2_status:
  "snd (decode_type1 rtcm) = 7" "snd (decode_type3 rtcm) \<in> {-1, 5}"
  "snd (decode_type14 e rtcm) \<in> {-1, 6}" "snd (decode_type16 rtcm) = 9"
  "snd (decode_type17 e rtcm) \<in> {-1, 2}" "snd (decode_type18 rtcm) \<in> {-1, 0, 1}"
  "snd (decode_type19 rtcm) \<in> {-1, 0, 1}" "snd (decode_type22 rtcm) \<in> {-1, 5}"
  "snd (decode_stub rtcm) = 0"
  using sync_status_range
  by (auto simp: decode_type1_def decode_type3_def decode_type14_def decode_type16_def
      decode_type17_def decode_type18_def decode_type19_def decode_type22_def decode_stub_def
      put_eph_def Let_def case_prod_beta split: option.split)

lemma decode_rtcm2_status: "snd (decode_rtcm2 e rtcm) \<in> {-1, 0, 1, 2, 5, 6, 7, 9}"
proof -
  have "snd (case map_of (rtcm2_cases e) type of Some f \<Rightarrow> f r | None \<Rightarrow> (r, 0)) \<in> {-1, 0, 1, 2, 5, 6, 7, 9}"
    for type r
    using decode2_status(1,2,4,6-9) [of r] decode2_status(3,5) [of e r]
    by (auto simp: rtcm2_cases_def)
  then show ?thesis unfolding decode_rtcm2_def Let_def case_prod_beta by simp
qed


end
