(* ===== verification/NavWord.thy ===== *)
theory NavWord
  imports Bits
begin

text \<open>
  The 30-bit word of the GPS navigation message, which RTCM 2 uses too (\<open>decode_word\<close> of
  \<^verbatim>\<open>rtkcmn.c\<close>): 24 data bits and 6 parity bits, checked together with the last two bits of
  the word before.  The routine is specified by the parity equations of the interface document,
  and its code has distance four: it finds every error of up to three bits.
\<close>

section \<open>The routine\<close>

definition hamming :: "u32 list" where
  "hamming = [0xBB1F3480, 0x5D8F9A40, 0xAEC7CD00, 0x5763E680, 0x6BB1F340, 0x8B7A89C0]"

lemma unat_shift_less: "w \<noteq> 0 \<Longrightarrow> unat (drop_bit 1 (w :: u32)) < unat w"
  using div_less_dividend [of 2 "unat w"] unat_gt_0 [of w] unat_div [of w 2]
  by (simp add: drop_bit_eq_div)

text \<open>The inner loop \<^verbatim>\<open>for (w=...;w;w>>=1) parity^=w&1\<close>.\<close>

function parity_loop :: "u32 \<Rightarrow> u32 \<Rightarrow> u32" where
  "parity_loop w parity = (if w = 0 then parity else parity_loop (drop_bit 1 w) (parity XOR (w AND 1)))"
  by pat_completeness auto

termination
  by (relation "measure (\<lambda>(w, parity). unat w)") (use unat_shift_less in auto)

declare parity_loop.simps [simp del]

definition word_parity :: "u32 \<Rightarrow> u32" where
  "word_parity word =
    fold (\<lambda>h parity. parity_loop (drop_bit 6 (word AND h)) (push_bit 1 parity)) hamming 0"

text \<open>The three bytes of data, None for a parity error.\<close>

definition decode_word :: "u32 \<Rightarrow> u8 list option" where
  "decode_word word =
    (let word = (if word AND 0x40000000 \<noteq> 0 then word XOR 0x3FFFFFC0 else word)
     in if word_parity word \<noteq> word AND 0x3F then None
        else Some (map (\<lambda>i. ucast (drop_bit (22 - i * 8) word)) [0..<3]))"

section \<open>Sums of bits\<close>

text \<open>The sum modulo two of a list of bits.\<close>

definition xors :: "bool list \<Rightarrow> bool" where
  "xors bs = foldr (\<noteq>) bs False"

lemma xors_simps [simp]: "xors [] = False" "xors (b # bs) = (b \<noteq> xors bs)"
  by (simp_all add: xors_def)

lemma xors_append [simp]: "xors (bs @ cs) = (xors bs \<noteq> xors cs)"
  by (induction bs) auto

lemma xors_linear: "xors (map (\<lambda>n. P n \<noteq> Q n) ns) = (xors (map P ns) \<noteq> xors (map Q ns))"
  by (induction ns) auto

lemma xors_False [simp]: "xors (map (\<lambda>n. False) ns) = False"
  by (induction ns) auto

lemma xors_card: "xors (map P [0..<n]) = odd (card {i. i < n \<and> P i})"
proof (induction n)
  case (Suc n)
  have "{i. i < Suc n \<and> P i} = (if P n then insert n {i. i < n \<and> P i} else {i. i < n \<and> P i})"
    by (auto simp: less_Suc_eq)
  then show ?case using Suc.IH by simp
qed simp

lemma xors_single: "i < n \<Longrightarrow> xors (map (\<lambda>k. k = i \<and> P k) [0..<n]) = P i"
proof -
  assume "i < n"
  then have "{k. k < n \<and> (k = i \<and> P k)} = (if P i then {i} else {})" by auto
  then show ?thesis unfolding xors_card by simp
qed

text \<open>The loop over the bits of a word adds their sum to the last bit of its accumulator.\<close>

lemma map_bit_shift:
  "map (bit (w :: u32)) [0..<Suc n] = odd w # map (bit (drop_bit 1 w)) [0..<n]"
  unfolding upt_conv_Cons [OF zero_less_Suc] map_Suc_upt [symmetric]
  by (simp add: bit_0 bit_drop_bit_eq comp_def del: upt_Suc)

lemma parity_loop_sum:
  "w = take_bit n w \<Longrightarrow> parity_loop w p = p XOR of_bool (xors (map (bit w) [0..<n]))"
proof (induction n arbitrary: w p)
  case 0
  then show ?case by (simp add: parity_loop.simps)
next
  case (Suc n)
  have w: "drop_bit 1 w = take_bit n (drop_bit 1 w)"
    using Suc.prems by (simp add: take_bit_drop_bit)
  show ?case
  proof (cases "w = 0")
    case True
    then show ?thesis by (simp add: parity_loop.simps)
  next
    case False
    have one: "w AND 1 = of_bool (odd w)" by (simp add: and_one_eq odd_iff_mod_2_eq_one)
    have "of_bool a XOR of_bool b = (of_bool (a \<noteq> b) :: u32)" for a b by (cases a; cases b) simp_all
    then show ?thesis
      using False Suc.IH [OF w] unfolding map_bit_shift
      by (subst parity_loop.simps) (simp add: one xor.assoc)
  qed
qed

section \<open>Specification: the parity equations\<close>

text \<open>
  Table 20-XIV of IS-GPS-200: for each parity bit the last bit of the word before that takes part
  (bit 31 of the word register is D29*, bit 30 is D30*) and the numbers of the data bits.
\<close>

definition icd_parity :: "(nat \<times> nat list) list" where
  "icd_parity =
    [(31, [1, 2, 3, 5, 6, 10, 11, 12, 13, 14, 17, 18, 20, 23]),
     (30, [2, 3, 4, 6, 7, 11, 12, 13, 14, 15, 18, 19, 21, 24]),
     (31, [1, 3, 4, 5, 7, 8, 12, 13, 14, 15, 16, 19, 20, 22]),
     (30, [2, 4, 5, 6, 8, 9, 13, 14, 15, 16, 17, 20, 21, 23]),
     (30, [1, 3, 5, 6, 7, 9, 10, 14, 15, 16, 17, 18, 21, 22, 24]),
     (31, [3, 5, 6, 8, 9, 10, 11, 13, 15, 19, 22, 23, 24])]"

text \<open>The source bits are sent complemented where D30* is set.\<close>

definition source_bit :: "u32 \<Rightarrow> nat \<Rightarrow> bool" where
  "source_bit w i \<longleftrightarrow> bit w (30 - i) \<noteq> bit w 30"

definition parity_equations :: "u32 \<Rightarrow> bool" where
  "parity_equations w \<longleftrightarrow>
    map (bit w) [5, 4, 3, 2, 1, 0] =
    map (\<lambda>(s, is). bit w s \<noteq> xors (map (source_bit w) is)) icd_parity"

section \<open>The routine implements it\<close>

definition plain :: "u32 \<Rightarrow> u32" where
  "plain word = (if word AND 0x40000000 \<noteq> 0 then word XOR 0x3FFFFFC0 else word)"

lemma bit_complement: "bit (0x3FFFFFC0 :: u32) n \<longleftrightarrow> 6 \<le> n \<and> n < 30"
proof -
  have "(0x3FFFFFC0 :: u32) = push_bit 6 (mask 24)" by (simp add: mask_eq_exp_minus_1 push_bit_eq_mult)
  then show ?thesis by (simp only: bit_push_bit_iff bit_mask_iff) auto
qed

lemma bit_30: "word AND 0x40000000 \<noteq> 0 \<longleftrightarrow> bit (word::u32) 30"
proof -
  have "(0x40000000 :: u32) = push_bit 30 1" by (simp add: push_bit_eq_mult)
  then show ?thesis by (simp only: bit_iff_and_push_bit_not_eq_0)
qed
lemma bit_plain: "bit (plain w) n = (if 6 \<le> n \<and> n < 30 then bit w n \<noteq> bit w 30 else bit w n)"
  unfolding plain_def bit_30 by (auto simp: bit_xor_iff bit_complement simp del: bit_numeral_word_iff)

lemma xors_filter: "xors (map (\<lambda>n. P n \<and> Q n) ns) = xors (map P (filter Q ns))"
  by (induction ns) auto
lemma xors_rev: "xors (rev bs) = xors bs"
  by (induction bs) auto

lemma icd_masks: "map (\<lambda>h. filter (bit h) [6..<32]) hamming =
   map (\<lambda>(s, is). rev (s # map (\<lambda>i. 30 - i) is)) icd_parity"
  by code_simp

lemma masked_sum: "parity_loop (drop_bit 6 (w AND h)) p = p XOR of_bool (xors (map (bit w) (filter (bit h) [6..<32])))"
proof -
  let ?v = "drop_bit 6 (w AND h)"
  have "?v = take_bit 26 ?v"
    by (rule bit_eqI) (auto simp: bit_simps dest: bit_imp_le_length simp del: take_bit_and drop_bit_and)
  then have "parity_loop ?v p = p XOR of_bool (xors (map (bit ?v) [0..<26]))" by (rule parity_loop_sum)
  also have "map (bit ?v) [0..<26] = map (\<lambda>n. bit w n \<and> bit h n) (map (\<lambda>n. n + 6) [0..<26])"
    by (simp add: bit_drop_bit_eq bit_and_iff comp_def add.commute del: upt_conv_Cons_Cons)
  also have "map (\<lambda>n. n + 6) [0..<26] = [6..<32]" unfolding map_add_upt by simp
  finally show ?thesis unfolding xors_filter .
qed

definition shift_bits :: "bool list \<Rightarrow> u32 \<Rightarrow> u32" where
  "shift_bits bs w = fold (\<lambda>b w. push_bit 1 w XOR of_bool b) bs w"

lemma bit_shift_in: "n < 32 \<Longrightarrow> bit (push_bit 1 w XOR of_bool b :: u32) n = (if n = 0 then b else bit w (n - 1))"
proof -
  assume n: "n < 32"
  have "LENGTH(32) = 32" by simp
  then have "bit (push_bit 1 w) n \<longleftrightarrow> 0 < n \<and> bit w (n - 1)"
    unfolding bit_push_bit_iff possible_bit_word using n by auto
  moreover have "bit (of_bool b :: u32) n \<longleftrightarrow> b \<and> n = 0" by (cases b) (simp_all add: bit_1_iff)
  ultimately show ?thesis unfolding bit_xor_iff by auto
qed

lemma bit_shift_bits:
  "n < 32 \<Longrightarrow> bit (shift_bits bs w) n = (if n < length bs then bs ! (length bs - 1 - n) else bit w (n - length bs))"
proof (induction bs arbitrary: n rule: rev_induct)
  case (snoc b bs)
  have "bit (shift_bits (bs @ [b]) w) n = (if n = 0 then b else bit (shift_bits bs w) (n - 1))"
    using snoc.prems by (simp add: shift_bits_def bit_shift_in del: One_nat_def)
  also have "\<dots> = (if n < length (bs @ [b]) then (bs @ [b]) ! (length (bs @ [b]) - 1 - n) else bit w (n - length (bs @ [b])))"
    using snoc.IH [of "n - 1"] snoc.prems by (auto simp: nth_append)
  finally show ?case .
qed (simp add: shift_bits_def)

lemma word_parity_bits:
  "word_parity w = shift_bits (map (\<lambda>(s, is). bit w s \<noteq> xors (map (\<lambda>i. bit w (30 - i)) is)) icd_parity) 0"
proof -
  have "word_parity w = shift_bits (map (\<lambda>ns. xors (map (bit w) ns)) (map (\<lambda>h. filter (bit h) [6..<32]) hamming)) 0"
    unfolding word_parity_def shift_bits_def masked_sum by (simp add: fold_map comp_def)
  also have "map (\<lambda>ns. xors (map (bit w) ns)) (map (\<lambda>h. filter (bit h) [6..<32]) hamming) =
    map (\<lambda>(s, is). bit w s \<noteq> xors (map (\<lambda>i. bit w (30 - i)) is)) icd_parity"
    unfolding icd_masks map_map
    by (rule map_cong) (auto simp: rev_map [symmetric] xors_rev comp_def)
  finally show ?thesis .
qed

lemma low_bits_eq:
  assumes "length bs = 6"
  shows "shift_bits bs 0 = w AND 0x3F \<longleftrightarrow> map (bit w) [5, 4, 3, 2, 1, 0] = bs"
proof -
  have "shift_bits bs 0 = w AND 0x3F \<longleftrightarrow> (\<forall>n < 6. bit (shift_bits bs 0) n = bit w n)"
  proof -
    have m: "bit (w AND 0x3F) n \<longleftrightarrow> n < 6 \<and> bit w n" for n
    proof -
      have "(0x3F :: u32) = mask 6" by (simp add: mask_eq_exp_minus_1)
      then show ?thesis by (simp only: bit_and_iff bit_mask_iff) (auto dest: bit_imp_le_length)
    qed
    show ?thesis unfolding bit_eq_iff m
      using assms bit_imp_le_length [of "shift_bits bs 0"] by (auto simp: bit_shift_bits)
  qed
  also have "\<dots> \<longleftrightarrow> (\<forall>n < 6. bs ! (5 - n) = bit w n)"
    using assms by (auto simp: bit_shift_bits)
  also have "\<dots> \<longleftrightarrow> map (bit w) [5, 4, 3, 2, 1, 0] = bs"
    using assms by (auto simp: numeral_eq_Suc length_Suc_conv All_less_Suc)
  finally show ?thesis .
qed


text \<open>The data bytes of an accepted word.\<close>

definition nav_bytes :: "u32 \<Rightarrow> u8 list" where
  "nav_bytes w = map (\<lambda>i. ucast (drop_bit (22 - i * 8) (plain w))) [0..<3]"

lemma decode_word_icd: "decode_word w = (if parity_equations w then Some (nav_bytes w) else None)"
proof -
  have "map (\<lambda>(s, is). bit (plain w) s \<noteq> xors (map (\<lambda>i. bit (plain w) (30 - i)) is)) icd_parity =
      map (\<lambda>(s, is). bit w s \<noteq> xors (map (source_bit w) is)) icd_parity"
    by (simp add: icd_parity_def bit_plain source_bit_def)
  moreover have "map (bit (plain w)) [5, 4, 3, 2, 1, 0] = map (bit w) [5, 4, 3, 2, 1, 0]"
    by (simp add: bit_plain)
  ultimately have "word_parity (plain w) = plain w AND 0x3F \<longleftrightarrow> parity_equations w"
    unfolding word_parity_bits parity_equations_def
    by (subst low_bits_eq) (simp_all add: icd_parity_def)
  then show ?thesis
    unfolding decode_word_def Let_def plain_def [symmetric] nav_bytes_def by simp
qed

lemma bufbit_nav_bytes: "n < 24 \<Longrightarrow> bufbit (nav_bytes w) n = source_bit w (n + 1)"
proof -
  assume n: "n < 24"
  then have i: "n div 8 < 3" by simp
  have m: "22 - n div 8 * 8 + (7 - n mod 8) = 29 - n" using n by presburger
  have "bufbit (nav_bytes w) n = bit (plain w) (22 - n div 8 * 8 + (7 - n mod 8))"
    unfolding bufbit_def nav_bytes_def using i
    by (simp add: bit_ucast_iff bit_drop_bit_eq less_imp_diff_less del: upt_conv_Cons_Cons)
  moreover have "6 \<le> 29 - n" "29 - n < 30" using n by linarith+
  ultimately show ?thesis unfolding m by (simp add: bit_plain source_bit_def)
qed

lemma length_nav_bytes [simp]: "length (nav_bytes w) = 3"
  by (simp add: nav_bytes_def)

section \<open>Detected errors\<close>

definition checks :: "nat list list" where
  "checks = map (\<lambda>(k, s, is). k # s # map (\<lambda>i. 30 - i) is) (zip [5, 4, 3, 2, 1, 0] icd_parity)"

lemma parity_checks: "parity_equations w \<longleftrightarrow> (\<forall>ns \<in> set checks. \<not> xors (map (bit (plain w)) ns))"
  unfolding parity_equations_def checks_def
  by (simp add: icd_parity_def bit_plain source_bit_def)

lemma xors_count:
  "\<forall>n \<in> set ns. n < k \<Longrightarrow> xors (map P ns) = xors (map (\<lambda>n. odd (count_list ns n) \<and> P n) [0..<k])"
proof (induction ns)
  case (Cons m ns)
  have "xors (map (\<lambda>n. odd (count_list (m # ns) n) \<and> P n) [0..<k]) =
    xors (map (\<lambda>n. (n = m \<and> P n) \<noteq> (odd (count_list ns n) \<and> P n)) [0..<k])"
    by (rule arg_cong [where f = xors], rule map_cong) auto
  also have "\<dots> = (P m \<noteq> xors (map P ns))"
    using Cons unfolding xors_linear by (simp add: xors_single)
  finally show ?case by simp
qed simp

lemma checks_odd: "\<forall>n < 32. odd (count_list (concat checks) n)"
  and checks_less: "\<forall>n \<in> set (concat checks). n < 32"
  and checks_distinct: "\<forall>ns \<in> set checks. distinct ns"
  and columns_distinct: "distinct (map (\<lambda>n. map (\<lambda>ns. n \<in> set ns) checks) [0..<30])"
proof -
  have "list_all (\<lambda>n. odd (count_list (concat checks) n)) [0..<32]" by code_simp
  then show "\<forall>n < 32. odd (count_list (concat checks) n)" by (simp add: list_all_iff)
  show "\<forall>n \<in> set (concat checks). n < 32" by code_simp
  show "\<forall>ns \<in> set checks. distinct ns" by code_simp
  show "distinct (map (\<lambda>n. map (\<lambda>ns. n \<in> set ns) checks) [0..<30])" by code_simp
qed

lemma xors_concat: "\<forall>ns \<in> set nss. \<not> xors (map P ns) \<Longrightarrow> \<not> xors (map P (concat nss))"
  by (induction nss) auto

lemma checks_detect:
  assumes "0 < card {n. bit e n}" and "card {n. bit e n} \<le> 3" and "\<And>n. bit e n \<Longrightarrow> n < 30"
  shows "\<exists>ns \<in> set checks. xors (map (bit (e :: u32)) ns)"
proof (rule ccontr)
  assume none: "\<not> ?thesis"
  then have "\<not> xors (map (bit e) (concat checks))" by (intro xors_concat) blast
  moreover have "map (\<lambda>n. odd (count_list (concat checks) n) \<and> bit e n) [0..<32] = map (bit e) [0..<32]"
    by (rule map_cong) (use checks_odd in auto)
  ultimately have "\<not> xors (map (bit e) [0..<32])"
    unfolding xors_count [OF checks_less] by simp
  moreover have "{n. n < 32 \<and> bit e n} = {n. bit e n}" using assms(3) by force
  ultimately have "even (card {n. bit e n})" unfolding xors_card by simp
  moreover have "c = 2" if "even c" "0 < c" "c \<le> 3" for c :: nat using that by presburger
  ultimately have "card {n. bit e n} = 2" using assms(1,2) by blast
  then obtain a b where ab: "{n. bit e n} = {a, b}" "a \<noteq> b" by (auto simp: card_2_iff)
  then have e: "bit e n \<longleftrightarrow> n = a \<or> n = b" for n by blast
  have "a \<in> set ns \<longleftrightarrow> b \<in> set ns" if "ns \<in> set checks" for ns
  proof -
    have d: "distinct ns" using that checks_distinct by blast
    have "xors (map (\<lambda>n. n = a \<or> n = b) ns) = ((a \<in> set ns) \<noteq> (b \<in> set ns))"
      using d ab(2) by (induction ns) auto
    moreover have "map (bit e) ns = map (\<lambda>n. n = a \<or> n = b) ns" by (simp add: e)
    moreover have "\<not> xors (map (bit e) ns)" using none that by blast
    ultimately show ?thesis by argo
  qed
  then have "map (\<lambda>ns. a \<in> set ns) checks = map (\<lambda>ns. b \<in> set ns) checks" by simp
  moreover have "a < 30" "b < 30" using assms(3) e by blast+
  ultimately show False
    using columns_distinct ab(2) unfolding distinct_map inj_on_def by (auto dest: bspec)
qed

lemma plain_xor:
  assumes "\<And>n. bit e n \<Longrightarrow> n < 30"
  shows "bit (plain (w XOR e)) n \<longleftrightarrow> bit (plain w) n \<noteq> bit e n"
  using assms [of 30] by (auto simp: bit_plain bit_xor_iff)

theorem decode_word_detects:
  assumes "decode_word w \<noteq> None" and "drop_bit 30 w' = drop_bit 30 w"
    and "0 < card {n. bit w n \<noteq> bit w' n}" and "card {n. bit w n \<noteq> bit w' n} \<le> 3"
  shows "decode_word w' = None"
proof -
  define e where "e = w XOR w'"
  have be: "bit e n \<longleftrightarrow> bit w n \<noteq> bit w' n" for n by (simp add: e_def bit_xor_iff)
  have lt: "n < 30" if "bit e n" for n
  proof (rule ccontr)
    assume "\<not> n < 30"
    then have "bit (drop_bit 30 w') (n - 30) \<noteq> bit (drop_bit 30 w) (n - 30)"
      using that be by (simp add: bit_drop_bit_eq)
    then show False using assms(2) by simp
  qed
  have w': "w' = w XOR e" by (simp add: e_def xor.assoc [symmetric])
  have "\<exists>ns \<in> set checks. xors (map (bit e) ns)"
    using assms(3,4) lt unfolding be [symmetric] by (rule checks_detect)
  then obtain ns where ns: "ns \<in> set checks" "xors (map (bit e) ns)" by blast
  have "\<not> xors (map (bit (plain w)) ns)"
    using assms(1) ns(1) by (auto simp: decode_word_icd parity_checks split: if_split_asm)
  moreover have "map (bit (plain w')) ns = map (\<lambda>n. bit (plain w) n \<noteq> bit e n) ns"
    unfolding w' using plain_xor [OF lt] by simp
  then have "xors (map (bit (plain w')) ns) = (xors (map (bit (plain w)) ns) \<noteq> xors (map (bit e) ns))"
    by (simp only: xors_linear)
  ultimately have "xors (map (bit (plain w')) ns)" using ns(2) by blast
  then show ?thesis using ns(1) by (auto simp: decode_word_icd parity_checks)
qed


section \<open>Sending a word\<close>

text \<open>
  What a transmitter sends for 24 data bits after a word that ended in \<open>s29\<close> and \<open>s30\<close>.
\<close>

definition nav_word :: "bool \<Rightarrow> bool \<Rightarrow> bool list \<Rightarrow> bool list" where
  "nav_word s29 s30 ds =
    map (\<lambda>d. d \<noteq> s30) ds @
    map (\<lambda>(s, is). (if s = 31 then s29 else s30) \<noteq> xors (map (\<lambda>i. ds ! (i - 1)) is)) icd_parity"

lemma length_nav_word [simp]: "length (nav_word s29 s30 ds) = length ds + 6"
  by (simp add: nav_word_def icd_parity_def)

lemma bytes_eqI:
  assumes "length bs = length cs" and "\<And>n. n < 8 * length cs \<Longrightarrow> bufbit bs n = bufbit cs n"
  shows "bs = cs"
proof (rule nth_equalityI)
  fix i assume i: "i < length bs"
  show "bs ! i = cs ! i"
  proof (rule bit_word_eqI)
    fix m assume "m < LENGTH(8)"
    then have m: "m < 8" by simp
    have "8 * i + (7 - m) < 8 * length cs" using i assms(1) m by linarith
    from assms(2) [OF this]
    have "bit (bs ! ((8 * i + (7 - m)) div 8)) (7 - (8 * i + (7 - m)) mod 8) =
        bit (cs ! ((8 * i + (7 - m)) div 8)) (7 - (8 * i + (7 - m)) mod 8)"
      unfolding bufbit_def .
    moreover have "(8 * i + (7 - m)) mod 8 = 7 - m" unfolding mod_mult_self4 using m by simp
    moreover have "(8 * i + (7 - m)) div 8 = i" "7 - (7 - m) = m" using m by simp_all
    ultimately show "bit (bs ! i) m = bit (cs ! i) m" by (simp only:)
  qed
qed (rule assms(1))

lemma nav_word_data: "n < length ds \<Longrightarrow> nav_word s29 s30 ds ! n = (ds ! n \<noteq> s30)"
  by (simp add: nav_word_def nth_append)

lemma source_bit_sent:
  assumes "length ds = 24" and "1 \<le> i" and "i \<le> 24"
  shows "source_bit (shift_bits (nav_word (bit w 1) (bit w 0) ds) w) i = ds ! (i - 1)"
proof -
  let ?bs = "nav_word (bit w 1) (bit w 0) ds"
  have len: "length ?bs = 30" using assms(1) by simp
  have "bit (shift_bits ?bs w) (30 - i) = ?bs ! (i - 1)"
  proof -
    have "30 - i < 30" "length ?bs - 1 - (30 - i) = i - 1" using assms(2,3) len by linarith+
    then show ?thesis using len assms(1) by (simp add: bit_shift_bits)
  qed
  moreover have "bit (shift_bits ?bs w) 30 = bit w 0" using assms(1) by (simp add: bit_shift_bits)
  moreover have "?bs ! (i - 1) = (ds ! (i - 1) \<noteq> bit w 0)"
    using assms by (intro nav_word_data) simp
  ultimately show ?thesis unfolding source_bit_def by blast
qed

theorem decode_word_sent:
  assumes "length bs = 3"
  shows "decode_word (shift_bits (nav_word (bit w 1) (bit w 0) (map (bufbit bs) [0..<24])) w) = Some bs"
proof -
  define ds where "ds = map (bufbit bs) [0..<24]"
  define w2 where "w2 = shift_bits (nav_word (bit w 1) (bit w 0) ds) w"
  have len: "length ds = 24" by (simp add: ds_def)
  have src: "source_bit w2 i = ds ! (i - 1)" if "1 \<le> i" "i \<le> 24" for i
    unfolding w2_def using len that by (rule source_bit_sent)
  have top: "bit w2 31 = bit w 1" "bit w2 30 = bit w 0"
    unfolding w2_def using len by (simp_all add: bit_shift_bits)
  have low: "map (bit w2) [5, 4, 3, 2, 1, 0] =
      map (\<lambda>(s, is). (if s = 31 then bit w 1 else bit w 0) \<noteq> xors (map (\<lambda>i. ds ! (i - 1)) is)) icd_parity"
    unfolding w2_def using len
    by (simp add: bit_shift_bits nav_word_def nth_append icd_parity_def)
  have "map (\<lambda>(s, is). (if s = 31 then bit w 1 else bit w 0) \<noteq> xors (map (\<lambda>i. ds ! (i - 1)) is)) icd_parity =
      map (\<lambda>(s, is). bit w2 s \<noteq> xors (map (source_bit w2) is)) icd_parity"
    by (simp add: icd_parity_def src top)
  then have "parity_equations w2" unfolding parity_equations_def low .
  moreover have "nav_bytes w2 = bs"
    using assms by (intro bytes_eqI) (simp_all add: bufbit_nav_bytes src ds_def)
  ultimately show ?thesis unfolding ds_def [symmetric] w2_def [symmetric] by (simp add: decode_word_icd)
qed


end
