(* ===== verification/Rtcm2In.thy ===== *)
theory Rtcm2In
  imports Rtcm2 Rtcm NavWord
begin

text \<open>
  Input of RTCM 2 messages (\<^verbatim>\<open>rtcm.c\<close>): a byte of the stream carries six bits, which
  \<open>input_rtcm2\<close> shifts into its word register, first bit lowest.  The framer looks for the preamble
  at every bit, checks the parity of every word and hands a complete message to the decoder.
  A store outside the message buffer is None.
\<close>

abbreviation (input) RTCM2PREAMB :: u8 where "RTCM2PREAMB \<equiv> 0x66"

section \<open>Input\<close>

text \<open>The call \<open>decode_word(word, buff+k)\<close>: the buffer after it, and whether the parity was right.\<close>

definition word_into :: "rtcm \<Rightarrow> nat \<Rightarrow> (rtcm \<times> bool) option" where
  "word_into rtcm k =
    (case decode_word (r_word rtcm) of
       None \<Rightarrow> Some (rtcm, False)
     | Some bs \<Rightarrow>
         if k + 3 \<le> length (r_buff rtcm)
         then Some (rtcm\<lparr>r_buff := (r_buff rtcm)[k := bs ! 0, k + 1 := bs ! 1, k + 2 := bs ! 2]\<rparr>, True)
         else None)"

definition preamble :: "u32 \<Rightarrow> u8" where
  "preamble word =
    (let preamb = ucast (drop_bit 22 word)
     in if word AND 0x40000000 \<noteq> 0 then preamb XOR 0xFF else preamb)"

text \<open>The search for the preamble, in the word register after a bit.\<close>

definition sync2 :: "rtcm \<Rightarrow> (rtcm \<times> int option) option" where
  "sync2 rtcm =
    (if preamble (r_word rtcm) \<noteq> RTCM2PREAMB then Some (rtcm, None)
     else do { (rtcm, ok) \<leftarrow> word_into rtcm 0;
               Some (if ok then rtcm\<lparr>r_nbyte := 3, r_nbit := 0\<rparr> else rtcm, None) })"

text \<open>The statements after the thirtieth bit of a word of a frame.\<close>

definition finish2 :: "(rtcm \<Rightarrow> rtcm \<times> int) \<Rightarrow> rtcm \<Rightarrow> rtcm \<times> int option" where
  "finish2 dcd rtcm =
    (let rtcm = rtcm\<lparr>r_nbyte := r_nbyte rtcm + 3\<rparr>;
         rtcm = (if r_nbyte rtcm = 6
                 then rtcm\<lparr>r_len := unat (drop_bit 3 (r_buff rtcm ! 5)) * 3 + 6\<rparr> else rtcm)
     in if r_nbyte rtcm < r_len rtcm then (rtcm, None)
        else let (rtcm, ret) = dcd (rtcm\<lparr>r_nbyte := 0, r_word := r_word rtcm AND 3\<rparr>)
             in (rtcm, Some ret))"

definition word2 :: "(rtcm \<Rightarrow> rtcm \<times> int) \<Rightarrow> rtcm \<Rightarrow> (rtcm \<times> int option) option" where
  "word2 dcd rtcm =
    do { (rtcm, ok) \<leftarrow> word_into rtcm (r_nbyte rtcm);
         Some (if \<not> ok then (rtcm\<lparr>r_nbyte := 0, r_word := r_word rtcm AND 3\<rparr>, None)
               else finish2 dcd rtcm) }"

text \<open>The body of the loop over the bits of a byte; a status is the return of the function.\<close>

definition bit2 :: "(rtcm \<Rightarrow> rtcm \<times> int) \<Rightarrow> rtcm \<Rightarrow> bool \<Rightarrow> (rtcm \<times> int option) option" where
  "bit2 dcd rtcm b =
    (let rtcm = rtcm\<lparr>r_word := push_bit 1 (r_word rtcm) + of_bool b\<rparr> in
     if r_nbyte rtcm = 0 then sync2 rtcm
     else let rtcm = rtcm\<lparr>r_nbit := r_nbit rtcm + 1\<rparr> in
       if r_nbit rtcm < 30 then Some (rtcm, None) else word2 dcd (rtcm\<lparr>r_nbit := 0\<rparr>))"

fun bits2 :: "(rtcm \<Rightarrow> rtcm \<times> int) \<Rightarrow> nat \<Rightarrow> rtcm \<Rightarrow> u8 \<Rightarrow> (rtcm \<times> int) option" where
  "bits2 dcd 0 rtcm data = Some (rtcm, 0)"
| "bits2 dcd (Suc n) rtcm data =
     do { (rtcm, ret) \<leftarrow> bit2 dcd rtcm (odd data);
          case ret of Some ret \<Rightarrow> Some (rtcm, ret) | None \<Rightarrow> bits2 dcd n rtcm (drop_bit 1 data) }"

definition input2 :: "(rtcm \<Rightarrow> rtcm \<times> int) \<Rightarrow> rtcm \<Rightarrow> u8 \<Rightarrow> (rtcm \<times> int) option" where
  "input2 dcd rtcm data =
    (if data AND 0xC0 \<noteq> 0x40 then Some (rtcm, 0) else bits2 dcd 6 rtcm data)"

definition input_rtcm2 :: "env \<Rightarrow> rtcm \<Rightarrow> u8 \<Rightarrow> (rtcm \<times> int) option" where
  "input_rtcm2 e = input2 (decode_rtcm2 e)"

text \<open>A file, as for RTCM 3.\<close>

fun read2f :: "nat \<Rightarrow> env \<Rightarrow> rtcm \<Rightarrow> u8 list \<Rightarrow> (rtcm \<times> int \<times> u8 list) option" where
  "read2f 0 e rtcm fp = Some (rtcm, 0, fp)"
| "read2f (Suc n) e rtcm [] = Some (rtcm, -2, [])"
| "read2f (Suc n) e rtcm (data # fp) =
     do { (rtcm, ret) \<leftarrow> input_rtcm2 e rtcm data;
          if ret \<noteq> 0 then Some (rtcm, ret, fp) else read2f n e rtcm fp }"

definition input_rtcm2f :: "env \<Rightarrow> rtcm \<Rightarrow> u8 list \<Rightarrow> (rtcm \<times> int \<times> u8 list) option" where
  "input_rtcm2f e rtcm fp = read2f 4096 e rtcm fp"

text \<open>A whole stream, with the statuses other than 0.\<close>

fun feed2 :: "(rtcm \<Rightarrow> rtcm \<times> int) \<Rightarrow> rtcm \<Rightarrow> u8 list \<Rightarrow> (rtcm \<times> int list) option" where
  "feed2 dcd rtcm [] = Some (rtcm, [])"
| "feed2 dcd rtcm (b # bs) =
     do { (rtcm, ret) \<leftarrow> input2 dcd rtcm b; (rtcm, rets) \<leftarrow> feed2 dcd rtcm bs;
          Some (rtcm, if ret = 0 then rets else ret # rets) }"

text \<open>The generator of RTCM 2 messages is not implemented by the code: it only resets the counters.\<close>

definition gen_rtcm2 :: "rtcm \<Rightarrow> int \<Rightarrow> int \<Rightarrow> rtcm \<times> int" where
  "gen_rtcm2 rtcm type sync = (rtcm\<lparr>r_nbit := 0, r_len := 0, r_nbyte := 0\<rparr>, 0)"

section \<open>The framer stays inside its buffer\<close>

definition framed2 :: "rtcm \<Rightarrow> bool" where
  "framed2 rtcm \<longleftrightarrow> length (r_buff rtcm) = 1200 \<and> r_nbit rtcm < 30 \<and> r_nbyte rtcm \<le> 96 \<and>
     r_nbyte rtcm mod 3 = 0 \<and> (6 \<le> r_nbyte rtcm \<longrightarrow> r_nbyte rtcm < r_len rtcm \<and> r_len rtcm \<le> 99)"

lemma framed2_word [simp]: "framed2 (rtcm\<lparr>r_word := w\<rparr>) = framed2 rtcm"
  by (simp add: framed2_def)

lemma word_into_total:
  assumes "k + 3 \<le> length (r_buff rtcm)"
  shows "word_into rtcm k = Some (case decode_word (r_word rtcm) of None \<Rightarrow> (rtcm, False)
    | Some bs \<Rightarrow> (rtcm\<lparr>r_buff := (r_buff rtcm)[k := bs ! 0, k + 1 := bs ! 1, k + 2 := bs ! 2]\<rparr>, True))"
  using assms by (simp add: word_into_def split: option.split)

lemma len2_bound: "unat (drop_bit 3 (b :: u8)) * 3 + 6 \<le> 99"
proof -
  have d: "unat (drop_bit 3 b) = unat b div 8"
    unfolding drop_bit_eq_div using unat_div [of b 8] by simp
  have "n div 8 * 3 + 6 \<le> 99" if "n < 256" for n :: nat
  proof -
    have "n div 8 < 32" using that by (simp add: div_less_iff_less_mult)
    then show ?thesis by linarith
  qed
  moreover have "unat b < 256" using unsigned_less [of b] by simp
  ultimately show ?thesis unfolding d by blast
qed

lemma sync2_framed:
  "framed2 rtcm \<Longrightarrow> \<exists>rtcm'. sync2 rtcm = Some (rtcm', None) \<and> framed2 rtcm'"
  by (auto simp: sync2_def word_into_total framed2_def split: option.split)

locale frame_decoder2 =
  fixes dcd :: "rtcm \<Rightarrow> rtcm \<times> int"
  assumes keeps: "same_frame rtcm (fst (dcd rtcm))"
begin

lemma dcd_framed: "framed2 rtcm \<Longrightarrow> framed2 (fst (dcd rtcm))"
  using keeps [of rtcm] by (simp add: framed2_def same_frame_def)

lemma finish2_framed:
  assumes "length (r_buff rtcm) = 1200" and "r_nbit rtcm = 0" and "r_nbyte rtcm \<le> 96"
    and "r_nbyte rtcm mod 3 = 0" and "0 < r_nbyte rtcm"
    and "6 \<le> r_nbyte rtcm \<Longrightarrow> r_nbyte rtcm < r_len rtcm \<and> r_len rtcm \<le> 99"
  shows "framed2 (fst (finish2 dcd rtcm))"
proof -
  define r where "r = (if r_nbyte rtcm + 3 = 6
    then rtcm\<lparr>r_nbyte := r_nbyte rtcm + 3, r_len := unat (drop_bit 3 (r_buff rtcm ! 5)) * 3 + 6\<rparr>
    else rtcm\<lparr>r_nbyte := r_nbyte rtcm + 3\<rparr>)"
  have r: "length (r_buff r) = 1200" "r_nbit r = 0" "r_nbyte r mod 3 = 0" "r_len r \<le> 99" "r_nbyte r \<ge> 6"
    using assms len2_bound by (auto simp: r_def)
  have f: "finish2 dcd rtcm = (if r_nbyte r < r_len r then (r, None)
      else (fst (dcd (r\<lparr>r_nbyte := 0, r_word := r_word r AND 3\<rparr>)),
            Some (snd (dcd (r\<lparr>r_nbyte := 0, r_word := r_word r AND 3\<rparr>)))))"
    by (simp add: finish2_def r_def Let_def case_prod_beta)
  have "framed2 (r\<lparr>r_nbyte := 0, r_word := r_word r AND 3\<rparr>)" using r by (simp add: framed2_def)
  moreover have "n \<le> 96" if "n < l" "l \<le> 99" "n mod 3 = 0" for n l :: nat using that by presburger
  then have "framed2 r" if "r_nbyte r < r_len r" using r that by (simp add: framed2_def)
  ultimately show ?thesis unfolding f by (simp add: dcd_framed)
qed

lemma word2_framed:
  assumes "framed2 rtcm" and "0 < r_nbyte rtcm" and "r_nbit rtcm = 0"
  shows "\<exists>r. word2 dcd rtcm = Some r \<and> framed2 (fst r)"
proof -
  have k: "r_nbyte rtcm + 3 \<le> length (r_buff rtcm)" using assms(1) by (simp add: framed2_def)
  have "framed2 (fst (finish2 dcd (rtcm\<lparr>r_buff := b\<rparr>)))" if "length b = 1200" for b
    using assms that by (intro finish2_framed) (auto simp: framed2_def)
  moreover have "length (r_buff rtcm) = 1200" using assms(1) by (simp add: framed2_def)
  moreover have "framed2 (rtcm\<lparr>r_nbyte := 0, r_word := w\<rparr>)" for w
    using assms by (simp add: framed2_def)
  ultimately show ?thesis
    unfolding word2_def word_into_total [OF k] by (cases "decode_word (r_word rtcm)") simp_all
qed

lemma bit2_framed:
  assumes "framed2 rtcm"
  shows "\<exists>r. bit2 dcd rtcm b = Some r \<and> framed2 (fst r)"
proof -
  let ?r = "rtcm\<lparr>r_word := push_bit 1 (r_word rtcm) + of_bool b\<rparr>"
  have r: "framed2 ?r" using assms by simp
  show ?thesis
  proof (cases "r_nbyte rtcm = 0")
    case True
    then show ?thesis using sync2_framed [OF r] by (auto simp: bit2_def Let_def)
  next
    case False
    have "framed2 (?r\<lparr>r_nbit := 0\<rparr>)" using r by (simp add: framed2_def)
    then have w: "\<exists>x. word2 dcd (?r\<lparr>r_nbit := 0\<rparr>) = Some x \<and> framed2 (fst x)"
      by (rule word2_framed) (use False in simp_all)
    show ?thesis using assms w False unfolding bit2_def Let_def
      by (auto simp: framed2_def)
  qed
qed

lemma bits2_framed: "framed2 rtcm \<Longrightarrow> \<exists>r. bits2 dcd n rtcm data = Some r \<and> framed2 (fst r)"
proof (induction n arbitrary: rtcm data)
  case (Suc n)
  from bit2_framed [OF Suc.prems] obtain rtcm' ret where
    "bit2 dcd rtcm (odd data) = Some (rtcm', ret)" "framed2 rtcm'" by force
  then show ?case using Suc.IH [of rtcm'] by (cases ret) auto
qed simp

lemma input2_framed: "framed2 rtcm \<Longrightarrow> \<exists>r. input2 dcd rtcm data = Some r \<and> framed2 (fst r)"
  using bits2_framed by (simp add: input2_def)

lemma feed2_framed: "framed2 rtcm \<Longrightarrow> \<exists>r. feed2 dcd rtcm bs = Some r \<and> framed2 (fst r)"
proof (induction bs arbitrary: rtcm)
  case (Cons b bs)
  from input2_framed [OF Cons.prems, of b] obtain rtcm' ret where
    "input2 dcd rtcm b = Some (rtcm', ret)" "framed2 rtcm'" by force
  then show ?case using Cons.IH [of rtcm'] by (force simp: case_prod_beta)
qed simp

end

interpretation rtcm2: frame_decoder2 "decode_rtcm2 e" for e
  by unfold_locales (rule frame2.inv_decode_rtcm2, simp)

section \<open>Specification: sending a message\<close>

text \<open>
  The bits of a message whose bytes are the data of its words, sent after a word that ended in
  \<open>s29\<close> and \<open>s30\<close>, and the bytes of the stream that carry six bits each.
\<close>

fun send2 :: "bool \<Rightarrow> bool \<Rightarrow> u8 list \<Rightarrow> bool list" where
  "send2 s29 s30 (a # b # c # msg) =
     (let w = nav_word s29 s30 (map (bufbit [a, b, c]) [0..<24])
      in w @ send2 (w ! 28) (w ! 29) msg)"
| "send2 s29 s30 msg = []"

fun pack6 :: "bool list \<Rightarrow> u8 list" where
  "pack6 (a # b # c # d # e # f # bits) =
     (0x40 + of_bool a + 2 * of_bool b + 4 * of_bool c + 8 * of_bool d + 16 * of_bool e + 32 * of_bool f)
       # pack6 bits"
| "pack6 bits = []"

definition len2 :: "u8 list \<Rightarrow> nat" where
  "len2 msg = unat (drop_bit 3 (msg ! 5)) * 3 + 6"

definition is_message2 :: "u8 list \<Rightarrow> bool" where
  "is_message2 msg \<longleftrightarrow> 6 \<le> length msg \<and> hd msg = RTCM2PREAMB \<and> length msg = len2 msg"

text \<open>The control struct with the first words of a message in its buffer.\<close>

definition load2 :: "rtcm \<Rightarrow> u8 list \<Rightarrow> u32 \<Rightarrow> rtcm" where
  "load2 rtcm bs w =
    rtcm\<lparr>r_buff := bs @ drop (length bs) (r_buff rtcm), r_nbyte := length bs, r_nbit := 0, r_word := w,
         r_len := if 6 \<le> length bs then len2 bs else r_len rtcm\<rparr>"

section \<open>Bits\<close>

text \<open>The framer over a list of bits: the status and the bits that are left, None at the end.\<close>

fun run2 :: "(rtcm \<Rightarrow> rtcm \<times> int) \<Rightarrow> rtcm \<Rightarrow> bool list \<Rightarrow> (rtcm \<times> (int \<times> bool list) option) option" where
  "run2 dcd rtcm [] = Some (rtcm, None)"
| "run2 dcd rtcm (b # bs) =
     do { (rtcm, ret) \<leftarrow> bit2 dcd rtcm b;
          case ret of Some ret \<Rightarrow> Some (rtcm, Some (ret, bs)) | None \<Rightarrow> run2 dcd rtcm bs }"

lemma run2_append:
  "run2 dcd rtcm (bs @ cs) =
    do { (rtcm, r) \<leftarrow> run2 dcd rtcm bs;
         case r of None \<Rightarrow> run2 dcd rtcm cs | Some (ret, rest) \<Rightarrow> Some (rtcm, Some (ret, rest @ cs)) }"
proof (induction bs arbitrary: rtcm)
  case (Cons b bs)
  show ?case
  proof (cases "bit2 dcd rtcm b")
    case (Some r)
    then show ?thesis using Cons.IH by (cases r; cases "snd r") auto
  qed simp
qed simp

lemma bits2_run:
  "bits2 dcd n rtcm data = map_option (\<lambda>(rtcm, r). (rtcm, case r of None \<Rightarrow> 0 | Some (ret, _) \<Rightarrow> ret))
     (run2 dcd rtcm (map (bit data) [0..<n]))"
proof (induction n arbitrary: rtcm data)
  case (Suc n)
  have m: "map (bit data) [0..<Suc n] = odd data # map (bit (drop_bit 1 data)) [0..<n]"
    unfolding upt_conv_Cons [OF zero_less_Suc] map_Suc_upt [symmetric]
    by (simp add: bit_0 bit_drop_bit_eq comp_def del: upt_Suc)
  show ?case
  proof (cases "bit2 dcd rtcm (odd data)")
    case (Some r)
    then show ?thesis using Suc.IH [of _ "drop_bit 1 data"] unfolding m by (cases r; cases "snd r") auto
  next
    case None
    then show ?thesis unfolding m by simp
  qed
qed simp

lemma pack6_byte:
  "\<exists>x. pack6 [a, b, c, d, e, f] = [x] \<and> x AND 0xC0 = 0x40 \<and> map (bit x) [0..<6] = [a, b, c, d, e, f]"
  by (cases a; cases b; cases c; cases d; cases e; cases f) (simp, code_simp)+

lemma pack6_split:
  assumes "length bits = 6 * Suc k"
  obtains x cs bs where "bits = cs @ bs" and "length bs = 6 * k" and "pack6 bits = x # pack6 bs"
    and "x AND 0xC0 = 0x40" and "map (bit x) [0..<6] = cs"
proof -
  have "6 \<le> length bits" using assms by simp
  then obtain a b c d e f bs where bits: "bits = a # b # c # d # e # f # bs"
    by (auto simp: numeral_eq_Suc Suc_le_length_iff)
  from pack6_byte [of a b c d e f] obtain x where
    x: "pack6 [a, b, c, d, e, f] = [x]" "x AND 0xC0 = 0x40" "map (bit x) [0..<6] = [a, b, c, d, e, f]"
    by (elim exE conjE)
  have "pack6 bits = pack6 [a, b, c, d, e, f] @ pack6 bs"
    unfolding bits by (simp only: append.simps pack6.simps)
  then have "pack6 bits = x # pack6 bs" unfolding x(1) by simp
  moreover have "bits = [a, b, c, d, e, f] @ bs" "length bs = 6 * k" using assms bits by simp_all
  ultimately show thesis using that x(2,3) by metis
qed

text \<open>Packed bits are read back; a status at the end of the bits is the status of the last byte.\<close>

lemma feed2_pack6:
  assumes "length bits = 6 * k" and "run2 dcd rtcm bits = Some (rtcm', r)"
    and "\<And>ret rest. r = Some (ret, rest) \<Longrightarrow> rest = []"
  shows "feed2 dcd rtcm (pack6 bits) =
    Some (rtcm', case r of None \<Rightarrow> [] | Some (ret, _) \<Rightarrow> if ret = 0 then [] else [ret])"
  using assms
proof (induction k arbitrary: bits rtcm)
  case (Suc k)
  from pack6_split [OF Suc.prems(1)] obtain x cs bs where
    b: "bits = cs @ bs" "length bs = 6 * k" and p: "pack6 bits = x # pack6 bs"
      and x: "x AND 0xC0 = 0x40" "map (bit x) [0..<6] = cs" by metis
  obtain r1 q where q: "run2 dcd rtcm cs = Some (r1, q)"
    using Suc.prems(2) unfolding b(1) run2_append by (cases "run2 dcd rtcm cs") auto
  have i: "input2 dcd rtcm x = Some (r1, case q of None \<Rightarrow> 0 | Some (ret, _) \<Rightarrow> ret)"
    using x(1) unfolding input2_def bits2_run x(2) q by simp
  show ?case
  proof (cases q)
    case None
    then have "run2 dcd r1 bs = Some (rtcm', r)" using Suc.prems(2) unfolding b(1) run2_append q by simp
    from Suc.IH [OF b(2) this Suc.prems(3)] show ?thesis unfolding p using i None by simp
  next
    case (Some y)
    obtain ret rest where y: "y = (ret, rest)" by (cases y)
    have e: "r1 = rtcm'" "r = Some (ret, rest @ bs)"
      using Suc.prems(2) Some y unfolding b(1) run2_append q by auto
    with Suc.prems(3) have "bs = []" by simp
    then show ?thesis using i Some y e unfolding p by simp
  qed
qed simp

section \<open>A sent message is received\<close>

lemma shift_plus: "push_bit 1 w + of_bool b = (push_bit 1 w XOR of_bool b :: u32)"
  by (cases b) (simp_all add: xor_one_eq push_bit_eq_mult)

lemma shift_bits_simps [simp]:
  "shift_bits [] w = w" "shift_bits (b # bs) w = shift_bits bs (push_bit 1 w XOR of_bool b)"
  "shift_bits (bs @ cs) w = shift_bits cs (shift_bits bs w)"
  by (simp_all add: shift_bits_def)

lemma run2_collect:
  assumes "r_nbyte rtcm \<noteq> 0" and "r_nbit rtcm + length bs < 30"
  shows "run2 dcd rtcm bs =
    Some (rtcm\<lparr>r_word := shift_bits bs (r_word rtcm), r_nbit := r_nbit rtcm + length bs\<rparr>, None)"
  using assms
proof (induction bs arbitrary: rtcm)
  case (Cons b bs)
  let ?r = "rtcm\<lparr>r_word := push_bit 1 (r_word rtcm) XOR of_bool b, r_nbit := r_nbit rtcm + 1\<rparr>"
  have "bit2 dcd rtcm b = Some (?r, None)"
    using Cons.prems unfolding bit2_def Let_def shift_plus by simp
  moreover have "run2 dcd ?r bs = Some (?r\<lparr>r_word := shift_bits bs (r_word ?r), r_nbit := r_nbit ?r + length bs\<rparr>, None)"
    using Cons.prems by (intro Cons.IH) simp_all
  ultimately show ?case by simp
qed simp

lemma run2_word:
  assumes "r_nbyte rtcm \<noteq> 0" and "r_nbit rtcm = 0" and "length bs = 30"
  shows "run2 dcd rtcm bs =
    do { (rtcm, ret) \<leftarrow> word2 dcd (rtcm\<lparr>r_word := shift_bits bs (r_word rtcm)\<rparr>);
         Some (rtcm, map_option (\<lambda>ret. (ret, [])) ret) }"
proof -
  obtain cs b where bs: "bs = cs @ [b]" using assms(3) by (cases bs rule: rev_cases) auto
  have l: "length cs = 29" using assms(3) bs by simp
  have c: "run2 dcd rtcm cs = Some (rtcm\<lparr>r_word := shift_bits cs (r_word rtcm), r_nbit := 29\<rparr>, None)"
    using run2_collect [of rtcm cs dcd] assms(1,2) l by simp
  have z: "rtcm\<lparr>r_word := w, r_nbit := 0\<rparr> = rtcm\<lparr>r_word := w\<rparr>" for w
    using assms(2) by (cases rtcm) simp
  have "bit2 dcd (rtcm\<lparr>r_word := shift_bits cs (r_word rtcm), r_nbit := 29\<rparr>) b =
      word2 dcd (rtcm\<lparr>r_word := shift_bits bs (r_word rtcm)\<rparr>)"
    using assms(1,2) unfolding bit2_def Let_def shift_plus bs by (simp add: z)
  then show ?thesis
    unfolding bs run2_append c
    by (cases "word2 dcd (rtcm\<lparr>r_word := shift_bits bs (r_word rtcm)\<rparr>)") (auto simp: bs split: option.split)
qed

text \<open>The search for the preamble, over bits that do not show it before the last one.\<close>

lemma run2_search:
  assumes "r_nbyte rtcm = 0"
    and "\<And>j. 0 < j \<Longrightarrow> j \<le> length bs \<Longrightarrow> preamble (shift_bits (take j bs) (r_word rtcm)) \<noteq> RTCM2PREAMB"
  shows "run2 dcd rtcm bs = Some (rtcm\<lparr>r_word := shift_bits bs (r_word rtcm)\<rparr>, None)"
  using assms
proof (induction bs arbitrary: rtcm)
  case (Cons b bs)
  let ?r = "rtcm\<lparr>r_word := push_bit 1 (r_word rtcm) XOR of_bool b\<rparr>"
  have "bit2 dcd rtcm b = Some (?r, None)"
    using Cons.prems(1) Cons.prems(2) [of 1] unfolding bit2_def Let_def shift_plus by (simp add: sync2_def)
  moreover have "run2 dcd ?r bs = Some (?r\<lparr>r_word := shift_bits bs (r_word ?r)\<rparr>, None)"
  proof (rule Cons.IH)
    fix j assume "0 < j" "j \<le> length bs"
    then show "preamble (shift_bits (take j bs) (r_word ?r)) \<noteq> RTCM2PREAMB"
      using Cons.prems(2) [of "Suc j"] by simp
  qed (use Cons.prems(1) in simp)
  ultimately show ?case by simp
qed simp

text \<open>The first byte of a word whose parity is right is what the search looks at.\<close>

lemma preamble_byte: "preamble w = ucast (drop_bit 22 (plain w))"
proof (rule bit_word_eqI)
  fix n assume "n < LENGTH(8)"
  then have n: "n < 8" by simp
  have "bit (ucast (drop_bit 22 (plain w)) :: u8) n \<longleftrightarrow> bit (plain w) (22 + n)"
    using n by (simp add: bit_ucast_iff bit_drop_bit_eq)
  also have "\<dots> \<longleftrightarrow> bit w (22 + n) \<noteq> bit w 30" using n by (simp add: bit_plain)
  also have "\<dots> \<longleftrightarrow> bit (preamble w) n"
  proof -
    have "(0xFF :: u8) = mask 8" by (simp add: mask_eq_exp_minus_1)
    then have "bit (0xFF :: u8) n" using n by (simp only: bit_mask_iff) simp
    then show ?thesis
      using n unfolding preamble_def Let_def bit_30
      by (simp add: bit_ucast_iff bit_drop_bit_eq bit_xor_iff del: bit_numeral_word_iff)
  qed
  finally show "bit (preamble w) n = bit (ucast (drop_bit 22 (plain w)) :: u8) n" by simp
qed

lemma preamble_nav_bytes: "preamble w = nav_bytes w ! 0"
  by (simp add: preamble_byte nav_bytes_def del: upt_conv_Cons_Cons)

text \<open>The word register after the bits of a word.\<close>

definition sent_word :: "u32 \<Rightarrow> u8 list \<Rightarrow> bool list" where
  "sent_word w bs = nav_word (bit w 1) (bit w 0) (map (bufbit bs) [0..<24])"

lemma length_sent_word [simp]: "length (sent_word w bs) = 30"
  by (simp add: sent_word_def)

lemma sent_word_decoded:
  "length bs = 3 \<Longrightarrow> decode_word (shift_bits (sent_word w bs) w) = Some bs"
  unfolding sent_word_def by (rule decode_word_sent)

lemma sent_word_end:
  "bit (shift_bits (sent_word w bs) w) 1 = sent_word w bs ! 28"
  "bit (shift_bits (sent_word w bs) w) 0 = sent_word w bs ! 29"
  by (simp_all add: bit_shift_bits)

lemma send2_word:
  "send2 (bit w 1) (bit w 0) (a # b # c # msg) =
    sent_word w [a, b, c] @ send2 (bit (shift_bits (sent_word w [a, b, c]) w) 1)
                                  (bit (shift_bits (sent_word w [a, b, c]) w) 0) msg"
  unfolding sent_word_end by (simp add: sent_word_def Let_def)

text \<open>A word is added to a message in the buffer.\<close>

lemma store_word:
  assumes "k + 3 \<le> length xs" and "length bs = k"
  shows "(bs @ drop k xs)[k := a, k + 1 := b, k + 2 := c] = (bs @ [a, b, c]) @ drop (k + 3) xs"
proof -
  have "drop k xs = xs ! k # xs ! Suc k # xs ! Suc (Suc k) # drop (k + 3) xs"
    using assms(1) by (simp add: Cons_nth_drop_Suc numeral_3_eq_3)
  then show ?thesis using assms(2) by (simp add: list_update_append)
qed

lemma len2_append: "6 \<le> length bs \<Longrightarrow> len2 (bs @ cs) = len2 bs"
  by (simp add: len2_def nth_append)

lemma finish2_alt:
  assumes "(if r_nbyte r + 3 = 6
    then r\<lparr>r_nbyte := r_nbyte r + 3, r_len := unat (drop_bit 3 (r_buff r ! 5)) * 3 + 6\<rparr>
    else r\<lparr>r_nbyte := r_nbyte r + 3\<rparr>) = r'"
  shows "finish2 dcd r = (if r_nbyte r' < r_len r' then (r', None)
      else (fst (dcd (r'\<lparr>r_nbyte := 0, r_word := r_word r' AND 3\<rparr>)),
            Some (snd (dcd (r'\<lparr>r_nbyte := 0, r_word := r_word r' AND 3\<rparr>)))))"
  unfolding assms [symmetric] by (simp add: finish2_def Let_def case_prod_beta)

lemma word2_load:
  assumes "length (r_buff rtcm) = 1200" and "length bs + 3 \<le> 1200" and "length bs = 3 \<or> 6 \<le> length bs"
    and w': "w' = shift_bits (sent_word w [a, b, c]) w" and bs': "bs' = bs @ [a, b, c]"
  shows "word2 dcd ((load2 rtcm bs w)\<lparr>r_word := w'\<rparr>) =
    Some (if length bs' < len2 bs' then (load2 rtcm bs' w', None)
          else (fst (dcd ((load2 rtcm bs' (w' AND 3))\<lparr>r_nbyte := 0\<rparr>)),
                Some (snd (dcd ((load2 rtcm bs' (w' AND 3))\<lparr>r_nbyte := 0\<rparr>)))))"
proof -
  define r where "r = (load2 rtcm bs w)\<lparr>r_word := w', r_buff := bs' @ drop (length bs') (r_buff rtcm)\<rparr>"
  have dw: "decode_word w' = Some [a, b, c]" unfolding w' by (rule sent_word_decoded) simp
  have l: "length (r_buff (load2 rtcm bs w)) = 1200" "r_nbyte (load2 rtcm bs w) = length bs"
    "r_buff (load2 rtcm bs w) = bs @ drop (length bs) (r_buff rtcm)"
    using assms(1,2) by (simp_all add: load2_def)
  have st: "(bs @ drop (length bs) (r_buff rtcm))[length bs := a, length bs + 1 := b, length bs + 2 := c] =
      bs' @ drop (length bs') (r_buff rtcm)"
    using assms(1,2) unfolding bs' by (subst store_word) (simp_all add: numeral_3_eq_3)
  have "word2 dcd ((load2 rtcm bs w)\<lparr>r_word := w'\<rparr>) = Some (finish2 dcd r)"
    using assms(2) l dw st by (simp add: word2_def word_into_def r_def del: drop_append)
  moreover have "r\<lparr>r_nbyte := length bs + 3, r_len := len2 bs'\<rparr> = load2 rtcm bs' w'"
    using assms(3) by (cases rtcm) (auto simp: r_def load2_def bs')
  moreover have "(if length bs + 3 = 6 then r\<lparr>r_nbyte := length bs + 3, r_len := unat (drop_bit 3 (r_buff r ! 5)) * 3 + 6\<rparr>
      else r\<lparr>r_nbyte := length bs + 3\<rparr>) = r\<lparr>r_nbyte := length bs + 3, r_len := len2 bs'\<rparr>"
  proof (cases "length bs = 3")
    case True
    then have "r_buff r ! 5 = bs' ! 5" by (simp add: r_def load2_def bs' nth_append)
    then show ?thesis using True by (simp add: len2_def)
  next
    case False
    then show ?thesis using assms(3) by (cases rtcm) (simp add: r_def load2_def bs' len2_append)
  qed
  moreover have "r_nbyte r = length bs" by (simp add: r_def load2_def)
  ultimately have "word2 dcd ((load2 rtcm bs w)\<lparr>r_word := w'\<rparr>) = Some (finish2 dcd r)"
    and f: "(if r_nbyte r + 3 = 6
      then r\<lparr>r_nbyte := r_nbyte r + 3, r_len := unat (drop_bit 3 (r_buff r ! 5)) * 3 + 6\<rparr>
      else r\<lparr>r_nbyte := r_nbyte r + 3\<rparr>) = load2 rtcm bs' w'" by (auto split: if_splits)
  moreover have "(load2 rtcm bs' w')\<lparr>r_nbyte := 0, r_word := w' AND 3\<rparr> = (load2 rtcm bs' (w' AND 3))\<lparr>r_nbyte := 0\<rparr>"
    by (simp add: load2_def)
  moreover have "r_nbyte (load2 rtcm bs' w') = length bs'" "r_len (load2 rtcm bs' w') = len2 bs'"
    "r_word (load2 rtcm bs' w') = w'" using assms(3) by (auto simp: load2_def bs')
  ultimately show ?thesis using finish2_alt [OF f, of dcd] by simp
qed


lemma run2_rest:
  assumes "length (r_buff rtcm) = 1200" and "length bs = 3 \<or> 6 \<le> length bs" and "rest \<noteq> []"
    and "length rest mod 3 = 0" and "length (bs @ rest) = len2 (bs @ rest)"
  shows "run2 dcd (load2 rtcm bs w) (send2 (bit w 1) (bit w 0) rest) =
    (let w' = shift_bits (send2 (bit w 1) (bit w 0) rest) w;
         (r, ret) = dcd ((load2 rtcm (bs @ rest) (w' AND 3))\<lparr>r_nbyte := 0\<rparr>)
     in Some (r, Some (ret, [])))"
  using assms(2-5)
proof (induction rest arbitrary: bs w rule: length_induct)
  case (1 rest)
  have l99: "length (bs @ rest) \<le> 99" unfolding 1(5) len2_def by (rule len2_bound)
  have "3 \<le> length rest" using 1(3,4) by (cases rest; cases "tl rest"; cases "tl (tl rest)") auto
  then obtain a b c rs where rest: "rest = a # b # c # rs"
    by (cases rest; cases "tl rest"; cases "tl (tl rest)") auto
  define w1 where "w1 = shift_bits (sent_word w [a, b, c]) w"
  let ?bs = "bs @ [a, b, c]"
  have s: "send2 (bit w 1) (bit w 0) rest = sent_word w [a, b, c] @ send2 (bit w1 1) (bit w1 0) rs"
    unfolding rest w1_def by (rule send2_word)
  have lw: "r_nbyte (load2 rtcm bs w) \<noteq> 0" "r_nbit (load2 rtcm bs w) = 0" "r_word (load2 rtcm bs w) = w"
    using 1(2) by (auto simp: load2_def)
  have bs3: "length bs + 3 \<le> 1200" using l99 rest by simp
  have w2: "word2 dcd ((load2 rtcm bs w)\<lparr>r_word := w1\<rparr>) =
    Some (if length ?bs < len2 ?bs then (load2 rtcm ?bs w1, None)
          else (fst (dcd ((load2 rtcm ?bs (w1 AND 3))\<lparr>r_nbyte := 0\<rparr>)),
                Some (snd (dcd ((load2 rtcm ?bs (w1 AND 3))\<lparr>r_nbyte := 0\<rparr>)))))"
    by (rule word2_load [OF assms(1) bs3 1(2) w1_def refl])
  have len: "len2 ?bs = length (bs @ rest)"
    using len2_append [of ?bs rs] 1(2,5) by (auto simp: rest)
  have r: "run2 dcd (load2 rtcm bs w) (sent_word w [a, b, c]) =
      do { (r, ret) \<leftarrow> word2 dcd ((load2 rtcm bs w)\<lparr>r_word := w1\<rparr>); Some (r, map_option (\<lambda>ret. (ret, [])) ret) }"
    using run2_word [OF lw(1,2), of "sent_word w [a, b, c]" dcd] by (simp add: lw(3) w1_def)
  show ?case
  proof (cases "rs = []")
    case True
    then have "\<not> length ?bs < len2 ?bs" using len rest by simp
    then show ?thesis
      unfolding s r run2_append w2 using True rest
      by (simp add: w1_def [symmetric] case_prod_beta Let_def)
  next
    case False
    then have "length ?bs < len2 ?bs" using len rest by simp
    then have r1: "run2 dcd (load2 rtcm bs w) (sent_word w [a, b, c]) = Some (load2 rtcm ?bs w1, None)"
      unfolding r w2 by simp
    have "length rs < length rest" "length rs mod 3 = 0" using 1(4) rest by simp_all
    moreover have "length ?bs = 3 \<or> 6 \<le> length ?bs" using 1(2) by auto
    ultimately have "run2 dcd (load2 rtcm ?bs w1) (send2 (bit w1 1) (bit w1 0) rs) =
      (let w' = shift_bits (send2 (bit w1 1) (bit w1 0) rs) w1;
         (r, ret) = dcd ((load2 rtcm (?bs @ rs) (w' AND 3))\<lparr>r_nbyte := 0\<rparr>)
       in Some (r, Some (ret, [])))"
      using 1(1) [rule_format, of rs ?bs w1] 1(5) False rest by simp
    then show ?thesis
      unfolding s run2_append r1 using rest by (simp add: w1_def [symmetric])
  qed
qed

text \<open>
  The preamble does not show before the word is complete, unless the word before ended in the bits
  0 and 1.
\<close>

definition pre10 :: "u32 \<Rightarrow> u8" where
  "pre10 u = (if bit u 8 then ucast u XOR 0xFF else ucast u)"

lemma preamble_pre10: "preamble w = pre10 (drop_bit 22 w)"
  unfolding preamble_def Let_def bit_30 pre10_def by (simp add: bit_drop_bit_eq)

lemma early_preamble_table:
  "list_all (\<lambda>w. list_all (\<lambda>k. pre10 (shift_bits (take k (map (\<lambda>i. bit (0x66 :: u8) (7 - i) \<noteq> bit w 0) [0..<8])) w)
      \<noteq> RTCM2PREAMB) [0..<8]) [0, 2, 3]"
  by code_simp

lemma sent_word_start:
  "k \<le> 8 \<Longrightarrow> take k (sent_word w (a # bs)) = take k (map (\<lambda>i. bit a (7 - i) \<noteq> bit w 0) [0..<8])"
  by (rule nth_equalityI) (simp_all add: sent_word_def nav_word_data bufbit_def)

lemma u32_bit: "bit (w :: u32) n \<Longrightarrow> n < 32"
  using bit_imp_le_length [of w n] by simp

lemma length_send2: "length msg mod 3 = 0 \<Longrightarrow> length (send2 s29 s30 msg) = 10 * length msg"
  by (induction s29 s30 msg rule: send2.induct) (simp_all add: Let_def)

lemma two_bits: "take_bit 2 w = w \<Longrightarrow> 2 \<le> n \<Longrightarrow> \<not> bit (w :: u32) n"
  by (metis bit_take_bit_iff not_less)

lemma shift_drop:
  assumes "take_bit 2 w = w" and "22 \<le> j" and "j \<le> 29" and "j \<le> length bs"
  shows "drop_bit 22 (shift_bits (take j bs) w) = shift_bits (take (j - 22) bs) w"
proof (rule bit_word_eqI)
  fix n assume "n < LENGTH(32)"
  then have n: "n < 32" by simp
  show "bit (drop_bit 22 (shift_bits (take j bs) w)) n = bit (shift_bits (take (j - 22) bs) w) n"
  proof (cases "22 + n < 32")
    case True
    have "22 + n - j = n - (j - 22)" using assms(2) by simp
    then show ?thesis
      using True n assms(2-4) by (auto simp: bit_drop_bit_eq bit_shift_bits min_def add.commute)
  next
    case False
    then have "\<not> bit (shift_bits (take j bs) w) (22 + n)" using u32_bit [of _ "22 + n"] by auto
    moreover have "\<not> bit (shift_bits (take (j - 22) bs) w) n"
      using False n assms two_bits [OF assms(1), of "n + 22 - j"] by (auto simp: bit_shift_bits min_def)
    ultimately show ?thesis by (simp add: bit_drop_bit_eq)
  qed
qed

lemma no_early_preamble:
  assumes "w \<in> {0, 2, 3}" and "j \<le> 29"
  shows "preamble (shift_bits (take j (sent_word w (RTCM2PREAMB # bs))) w) \<noteq> RTCM2PREAMB"
proof -
  have "take_bit 2 (0 :: u32) = 0" "take_bit 2 (2 :: u32) = 2" "take_bit 2 (3 :: u32) = 3" by code_simp+
  then have w4: "take_bit 2 w = w" using assms(1) by auto
  show ?thesis
  proof (cases "22 \<le> j")
    case True
    then have "j - 22 \<in> set [0..<8]" using assms(2) by auto
    then have "pre10 (shift_bits (take (j - 22) (map (\<lambda>i. bit (0x66 :: u8) (7 - i) \<noteq> bit w 0) [0..<8])) w) \<noteq> RTCM2PREAMB"
      using early_preamble_table assms(1) unfolding list_all_iff by auto
    moreover have "j - 22 \<le> 8" using assms(2) by simp
    ultimately show ?thesis
      unfolding preamble_pre10 using True assms(2) w4
      by (subst shift_drop) (simp_all add: sent_word_start)
  next
    case False
    have "drop_bit 22 (shift_bits (take j (sent_word w (RTCM2PREAMB # bs))) w) = of_bool (j = 21 \<and> bit w 1)"
    proof (rule bit_word_eqI)
      fix n assume "n < LENGTH(32)"
      show "bit (drop_bit 22 (shift_bits (take j (sent_word w (RTCM2PREAMB # bs))) w)) n =
          bit (of_bool (j = 21 \<and> bit w 1) :: u32) n"
      proof (cases "22 + n < 32")
        case True
        have "bit w (22 + n - j) \<longleftrightarrow> n = 0 \<and> j = 21 \<and> bit w 1"
        proof (cases "2 \<le> 22 + n - j")
          case True
          then show ?thesis using two_bits [OF w4 True] False by auto
        next
          case le: False
          then have "22 + n - j = 1" "n = 0" "j = 21" using False by simp_all
          then show ?thesis by simp
        qed
        then show ?thesis
          using True False by (auto simp: bit_drop_bit_eq bit_shift_bits bit_1_iff of_bool_def add.commute)
      next
        case f: False
        then show ?thesis using u32_bit [of _ "22 + n"]
          by (auto simp: bit_drop_bit_eq bit_1_iff of_bool_def)
      qed
    qed
    moreover have "pre10 (of_bool b) \<noteq> RTCM2PREAMB" for b by (cases b) (simp_all add: pre10_def)
    ultimately show ?thesis unfolding preamble_pre10 by simp
  qed
qed

theorem message2_received:
  assumes "length (r_buff rtcm) = 1200" and "r_nbyte rtcm = 0" and "r_word rtcm \<in> {0, 2, 3}"
    and "is_message2 msg"
  shows "feed2 dcd rtcm (pack6 (send2 (bit (r_word rtcm) 1) (bit (r_word rtcm) 0) msg)) =
    (let w = shift_bits (send2 (bit (r_word rtcm) 1) (bit (r_word rtcm) 0) msg) (r_word rtcm);
         (rtcm, ret) = dcd ((load2 rtcm msg (w AND 3))\<lparr>r_nbyte := 0\<rparr>)
     in Some (rtcm, if ret = 0 then [] else [ret]))"
proof -
  define w where "w = r_word rtcm"
  have m: "6 \<le> length msg" "hd msg = RTCM2PREAMB" "length msg = len2 msg"
    using assms(4) by (simp_all add: is_message2_def)
  then obtain b c rest where msg: "msg = RTCM2PREAMB # b # c # rest"
    by (cases msg; cases "tl msg"; cases "tl (tl msg)") auto
  define fst3 where "fst3 = [RTCM2PREAMB, b, c]"
  have mf: "msg = fst3 @ rest" "length fst3 = 3" by (simp_all add: msg fst3_def)
  have m3: "length msg mod 3 = 0" unfolding m(3) len2_def by simp
  then have r3: "length rest mod 3 = 0" "rest \<noteq> []" using m(1) mf by (auto simp: mod_add_left_eq)
  define w1 where "w1 = shift_bits (sent_word w fst3) w"
  have s: "send2 (bit w 1) (bit w 0) msg = sent_word w fst3 @ send2 (bit w1 1) (bit w1 0) rest"
    unfolding msg w1_def fst3_def by (rule send2_word)
  obtain cs x where cs: "sent_word w fst3 = cs @ [x]" "length cs = 29"
    using length_sent_word [of w fst3] by (cases "sent_word w fst3" rule: rev_cases) auto
  have dw: "decode_word w1 = Some fst3" unfolding w1_def using mf(2) by (rule sent_word_decoded)
  then have "nav_bytes w1 = fst3" by (simp add: decode_word_icd split: if_split_asm)
  then have pre: "preamble w1 = RTCM2PREAMB" by (simp add: preamble_nav_bytes fst3_def)
  have "run2 dcd rtcm cs = Some (rtcm\<lparr>r_word := shift_bits cs w\<rparr>, None)"
    unfolding w_def
  proof (rule run2_search [OF assms(2)])
    fix j assume "j \<le> length cs"
    then have "take j cs = take j (sent_word w fst3)" "j \<le> 29" using cs by simp_all
    then show "preamble (shift_bits (take j cs) (r_word rtcm)) \<noteq> RTCM2PREAMB"
      using no_early_preamble [OF assms(3), of j "[b, c]"] by (simp add: w_def fst3_def)
  qed
  moreover have "bit2 dcd (rtcm\<lparr>r_word := shift_bits cs w\<rparr>) x = sync2 (rtcm\<lparr>r_word := w1\<rparr>)"
    using assms(2) unfolding bit2_def Let_def shift_plus w1_def cs(1) by simp
  moreover have "sync2 (rtcm\<lparr>r_word := w1\<rparr>) = Some (load2 rtcm fst3 w1, None)"
  proof -
    have "(r_buff rtcm)[0 := fst3 ! 0, 0 + 1 := fst3 ! 1, 0 + 2 := fst3 ! 2] = fst3 @ drop 3 (r_buff rtcm)"
      using store_word [of 0 "r_buff rtcm" "[]"] assms(1) by (simp add: fst3_def)
    then show ?thesis
      using assms(1,2) pre dw mf(2) by (cases rtcm) (simp add: sync2_def word_into_def load2_def)
  qed
  ultimately have "run2 dcd rtcm (sent_word w fst3) = Some (load2 rtcm fst3 w1, None)"
    unfolding cs(1) run2_append by simp
  then have "run2 dcd rtcm (send2 (bit w 1) (bit w 0) msg) =
      (let w' = shift_bits (send2 (bit w1 1) (bit w1 0) rest) w1;
         (r, ret) = dcd ((load2 rtcm msg (w' AND 3))\<lparr>r_nbyte := 0\<rparr>)
       in Some (r, Some (ret, [])))"
    unfolding s run2_append using run2_rest [OF assms(1), of fst3 rest dcd w1] r3 m(3) mf by simp
  moreover have "shift_bits (send2 (bit w1 1) (bit w1 0) rest) w1 = shift_bits (send2 (bit w 1) (bit w 0) msg) w"
    unfolding s w1_def by simp
  moreover have "length (send2 (bit w 1) (bit w 0) msg) = 6 * (5 * (length msg div 3))"
    unfolding length_send2 [OF m3] using m3 by auto
  ultimately show ?thesis
    unfolding w_def [symmetric] by (subst feed2_pack6) (auto simp: Let_def case_prod_beta)
qed

end
