(* ===== verification/RawNav.thy ===== *)
theory RawNav
  imports Rtcm3Eph
begin

text \<open>
  Navigation data of the broadcast signals (\<^verbatim>\<open>rcvraw.c\<close>): fields in two or three pieces, and the
  decoders of NavIC, Galileo I/NAV and Galileo F/NAV.  A decoder takes the subframes collected from
  a receiver; an output pointer is an option, None for NULL, and an error leaves it as it was.
\<close>

section \<open>Fields in pieces\<close>

text \<open>The conversion of an unsigned value of 32 bits to a signed one.\<close>

definition to_int32 :: "int \<Rightarrow> int" where
  "to_int32 v = sint (word_of_int v :: u32)"

definition getbitu2 :: "u8 list \<Rightarrow> nat \<Rightarrow> nat \<Rightarrow> nat \<Rightarrow> nat \<Rightarrow> int" where
  "getbitu2 b p1 l1 p2 l2 = (getu b p1 l1 * 2 ^ l2 + getu b p2 l2) mod 2 ^ 32"

definition getbits2 :: "u8 list \<Rightarrow> nat \<Rightarrow> nat \<Rightarrow> nat \<Rightarrow> nat \<Rightarrow> int" where
  "getbits2 b p1 l1 p2 l2 =
    (if getu b p1 1 \<noteq> 0 then to_int32 (getbits b p1 l1 * 2 ^ l2 + getu b p2 l2)
     else to_int32 (getbitu2 b p1 l1 p2 l2))"

definition getbitu3 :: "u8 list \<Rightarrow> nat \<Rightarrow> nat \<Rightarrow> nat \<Rightarrow> nat \<Rightarrow> nat \<Rightarrow> nat \<Rightarrow> int" where
  "getbitu3 b p1 l1 p2 l2 p3 l3 =
    (getu b p1 l1 * 2 ^ (l2 + l3) + getu b p2 l2 * 2 ^ l3 + getu b p3 l3) mod 2 ^ 32"

definition getbits3 :: "u8 list \<Rightarrow> nat \<Rightarrow> nat \<Rightarrow> nat \<Rightarrow> nat \<Rightarrow> nat \<Rightarrow> nat \<Rightarrow> int" where
  "getbits3 b p1 l1 p2 l2 p3 l3 =
    (if getu b p1 1 \<noteq> 0
     then to_int32 (getbits b p1 l1 * 2 ^ (l2 + l3) + getu b p2 l2 * 2 ^ l3 + getu b p3 l3)
     else to_int32 (getbitu3 b p1 l1 p2 l2 p3 l3))"

definition merge_two_u :: "int \<Rightarrow> int \<Rightarrow> nat \<Rightarrow> int" where
  "merge_two_u a b n = (a * 2 ^ n + b) mod 2 ^ 32"

definition merge_two_s :: "int \<Rightarrow> int \<Rightarrow> nat \<Rightarrow> int" where
  "merge_two_s a b n = to_int32 (a * 2 ^ n + b)"

section \<open>Outputs\<close>

text \<open>
  \<^verbatim>\<open>if (p\&\&!decode(buff,p)) return 0\<close>: nothing to do for a null pointer, an error where the
  decoder has one (None), otherwise the value it stores.
\<close>

definition out :: "('a \<Rightarrow> 'a option) \<Rightarrow> 'a option \<Rightarrow> 'a option option" where
  "out f p = (case p of None \<Rightarrow> Some None | Some x \<Rightarrow> map_option Some (f x))"

text \<open>The chain of the three outputs that the decoders of a signal have: status and outputs.\<close>

definition nav_outputs ::
    "('a \<Rightarrow> 'a option) \<Rightarrow> ('b \<Rightarrow> 'b option) \<Rightarrow> ('c \<Rightarrow> 'c option) \<Rightarrow>
     'a option \<Rightarrow> 'b option \<Rightarrow> 'c option \<Rightarrow> int \<times> 'a option \<times> 'b option \<times> 'c option" where
  "nav_outputs f g h eph ion utc =
    (case out f eph of None \<Rightarrow> (0, eph, ion, utc) | Some eph \<Rightarrow>
      (case out g ion of None \<Rightarrow> (0, eph, ion, utc) | Some ion \<Rightarrow>
        (case out h utc of None \<Rightarrow> (0, eph, ion, utc) | Some utc \<Rightarrow> (1, eph, ion, utc))))"

text \<open>Assignments to elements of an array, in order.\<close>

definition put_at :: "(nat \<times> double) list \<Rightarrow> double list \<Rightarrow> double list" where
  "put_at kvs xs = fold (\<lambda>(k, v) xs. xs[k := v]) kvs xs"

text \<open>Eight parameters of the ionosphere in consecutive fields, as GPS, QZSS and NavIC send them.\<close>

definition read_ion8 :: "u8 list \<Rightarrow> nat \<Rightarrow> double list \<Rightarrow> double list" where
  "read_ion8 b i ion =
    fst (run_state (do {
      i0 \<leftarrow> rds b 8; i1 \<leftarrow> rds b 8; i2 \<leftarrow> rds b 8; i3 \<leftarrow> rds b 8; i4 \<leftarrow> rds b 8; i5 \<leftarrow> rds b 8; i6 \<leftarrow> rds b 8;
      i7 \<leftarrow> rds b 8;
      State_Monad.return (put_at [(0, of_int i0 * P2 30), (1, of_int i1 * P2 27), (2, of_int i2 * P2 24),
        (3, of_int i3 * P2 24), (4, of_int i4 * 2 ^ 11), (5, of_int i5 * 2 ^ 14),
        (6, of_int i6 * 2 ^ 16), (7, of_int i7 * 2 ^ 16)] ion) }) i)"

section \<open>NavIC\<close>

definition read_irn1 :: "u8 list \<Rightarrow> (nat, double \<times> int \<times> int \<times> double \<times> eph) state" where
  "read_irn1 b = do {
     tow1 \<leftarrow> rdu b 17; skip 2; id1 \<leftarrow> rdu b 2; skip 1; week \<leftarrow> rdu b 10; f0 \<leftarrow> rds b 22; f1 \<leftarrow> rds b 16;
     f2 \<leftarrow> rds b 8; sva \<leftarrow> rdu b 4; toc \<leftarrow> rdu b 16; tgd \<leftarrow> rds b 8; deln \<leftarrow> rds b 22; iode \<leftarrow> rdu b 8; skip 10;
     svh \<leftarrow> rdu b 2; cuc \<leftarrow> rds b 15; cus \<leftarrow> rds b 15; cic \<leftarrow> rds b 15; cis \<leftarrow> rds b 15; crc \<leftarrow> rds b 15;
     crs \<leftarrow> rds b 15; idot \<leftarrow> rds b 14;
     State_Monad.return (of_int tow1 * 12, id1, week, of_int toc * 16,
       eph_zero\<lparr>eph_f0 := of_int f0 * P2 31, eph_f1 := of_int f1 * P2 43, eph_f2 := of_int f2 * P2 55,
         eph_sva := sva, eph_tgd := [of_int tgd * P2 31, 0, 0, 0, 0, 0],
         eph_deln := of_int deln * P2 41 * SC2RAD, eph_iode := iode, eph_svh := svh,
         eph_cuc := of_int cuc * P2 28, eph_cus := of_int cus * P2 28, eph_cic := of_int cic * P2 28,
         eph_cis := of_int cis * P2 28, eph_crc := of_int crc * 0.0625, eph_crs := of_int crs * 0.0625,
         eph_idot := of_int idot * P2 43 * SC2RAD\<rparr>) }"

definition read_irn2 :: "u8 list \<Rightarrow> eph \<Rightarrow> (nat, double \<times> int \<times> double \<times> eph) state" where
  "read_irn2 b eph = do {
     tow2 \<leftarrow> rdu b 17; skip 2; id2 \<leftarrow> rdu b 2; skip 1; M0 \<leftarrow> rds b 32; toes \<leftarrow> rdu b 16; e \<leftarrow> rdu b 32;
     sqrtA \<leftarrow> rdu b 32; OMG0 \<leftarrow> rds b 32; omg \<leftarrow> rds b 32; OMGd \<leftarrow> rds b 22; i0 \<leftarrow> rds b 32;
     State_Monad.return (of_int tow2 * 12, id2, of_int sqrtA * P2 19,
       eph\<lparr>eph_M0 := of_int M0 * P2 31 * SC2RAD, eph_toes := of_int toes * 16, eph_e := of_int e * P2 33,
         eph_OMG0 := of_int OMG0 * P2 31 * SC2RAD, eph_omg := of_int omg * P2 31 * SC2RAD,
         eph_OMGd := of_int OMGd * P2 41 * SC2RAD, eph_i0 := of_int i0 * P2 31 * SC2RAD\<rparr>) }"

definition decode_irn_eph :: "env \<Rightarrow> u8 list \<Rightarrow> eph \<Rightarrow> eph option" where
  "decode_irn_eph e buff eph =
    (let (tow1, id1, week, toc, eph_irn) = fst (run_state (read_irn1 buff) 8);
         (tow2, id2, sqrtA, eph_irn) = fst (run_state (read_irn2 buff eph_irn) (8 * 37 + 8));
         toes = eph_toes eph_irn
     in if id1 \<noteq> 0 \<or> id2 \<noteq> 1 \<or> tow1 + 12 \<noteq> tow2 \<or> toc \<noteq> toes then None
        else let week = adjgpsweek (now e) week;
                 toe = gpst2time week toes;
                 week' = (if tow1 < toes - 302400 then week + 1
                          else if tow1 > toes + 302400 then week - 1 else week)
             in Some (eph_irn\<lparr>eph_A := sqrtA * sqrtA, eph_iodc := eph_iode eph_irn, eph_week := week,
                  eph_toe := toe, eph_toc := toe, eph_ttr := gpst2time week' tow1\<rparr>))"

definition decode_irn_ion :: "u8 list \<Rightarrow> double list \<Rightarrow> double list option" where
  "decode_irn_ion buff ion =
    (let id3 = getu buff (8 * 37 * 2 + 30) 6; id4 = getu buff (8 * 37 * 3 + 30) 6
     in if id3 = 11 then Some (read_ion8 buff (8 * 37 * 2 + 174) ion)
        else if id4 = 11 then Some (read_ion8 buff (8 * 37 * 3 + 174) ion)
        else None)"

definition read_irn_utc :: "u8 list \<Rightarrow> nat \<Rightarrow> double list \<Rightarrow> double list" where
  "read_irn_utc b i utc =
    fst (run_state (do {
      a0 \<leftarrow> rds b 16; a1 \<leftarrow> rds b 13; a2 \<leftarrow> rds b 7; dtls \<leftarrow> rds b 8; tot \<leftarrow> rdu b 16; wnt \<leftarrow> rdu b 10;
      wnlsf \<leftarrow> rdu b 10; dn \<leftarrow> rdu b 4; dtlsf \<leftarrow> rds b 8;
      State_Monad.return (put_at [(0, of_int a0 * P2 35), (1, of_int a1 * P2 51), (8, of_int a2 * P2 68),
        (4, of_int dtls), (2, of_int tot * 16), (3, of_int wnt), (5, of_int wnlsf), (6, of_int dn),
        (7, of_int dtlsf)] utc) }) i)"

text \<open>The second test looks at \<open>id3\<close> again where \<open>id4\<close> is meant.\<close>

definition decode_irn_utc :: "u8 list \<Rightarrow> double list \<Rightarrow> double list option" where
  "decode_irn_utc buff utc =
    (let id3 = getu buff (8 * 37 * 2 + 30) 6; id4 = getu buff (8 * 37 * 3 + 30) 6
     in if id3 = 9 \<or> id3 = 26 then Some (read_irn_utc buff (8 * 37 * 2 + 36) utc)
        else if id4 = 9 \<or> id3 = 26 then Some (read_irn_utc buff (8 * 37 * 3 + 36) utc)
        else None)"

definition decode_irn_nav ::
    "env \<Rightarrow> u8 list \<Rightarrow> eph option \<Rightarrow> double list option \<Rightarrow> double list option \<Rightarrow>
     int \<times> eph option \<times> double list option \<times> double list option" where
  "decode_irn_nav e buff eph ion utc =
    nav_outputs (decode_irn_eph e buff) (decode_irn_ion buff) (decode_irn_utc buff) eph ion utc"

section \<open>Galileo I/NAV\<close>

definition read_inav1 :: "u8 list \<Rightarrow> eph \<Rightarrow> (nat, int \<times> int \<times> double \<times> eph) state" where
  "read_inav1 b eph = do {
     type \<leftarrow> rdu b 6; iod \<leftarrow> rdu b 10; toes \<leftarrow> rdu b 14; M0 \<leftarrow> rds b 32; e \<leftarrow> rdu b 32; sqrtA \<leftarrow> rdu b 32;
     State_Monad.return (type, iod, of_int sqrtA * P2 19,
       eph\<lparr>eph_toes := of_int toes * 60, eph_M0 := of_int M0 * P2 31 * SC2RAD, eph_e := of_int e * P2 33\<rparr>) }"

definition read_inav2 :: "u8 list \<Rightarrow> eph \<Rightarrow> (nat, int \<times> int \<times> eph) state" where
  "read_inav2 b eph = do {
     type \<leftarrow> rdu b 6; iod \<leftarrow> rdu b 10; OMG0 \<leftarrow> rds b 32; i0 \<leftarrow> rds b 32; omg \<leftarrow> rds b 32; idot \<leftarrow> rds b 14;
     State_Monad.return (type, iod,
       eph\<lparr>eph_OMG0 := of_int OMG0 * P2 31 * SC2RAD, eph_i0 := of_int i0 * P2 31 * SC2RAD,
         eph_omg := of_int omg * P2 31 * SC2RAD, eph_idot := of_int idot * P2 43 * SC2RAD\<rparr>) }"

definition read_inav3 :: "u8 list \<Rightarrow> eph \<Rightarrow> (nat, int \<times> int \<times> eph) state" where
  "read_inav3 b eph = do {
     type \<leftarrow> rdu b 6; iod \<leftarrow> rdu b 10; OMGd \<leftarrow> rds b 24; deln \<leftarrow> rds b 16; cuc \<leftarrow> rds b 16; cus \<leftarrow> rds b 16;
     crc \<leftarrow> rds b 16; crs \<leftarrow> rds b 16; sva \<leftarrow> rdu b 8;
     State_Monad.return (type, iod,
       eph\<lparr>eph_OMGd := of_int OMGd * P2 43 * SC2RAD, eph_deln := of_int deln * P2 43 * SC2RAD,
         eph_cuc := of_int cuc * P2 29, eph_cus := of_int cus * P2 29, eph_crc := of_int crc * P2 5,
         eph_crs := of_int crs * P2 5, eph_sva := sva\<rparr>) }"

definition read_inav4 :: "u8 list \<Rightarrow> eph \<Rightarrow> (nat, int \<times> int \<times> int \<times> double \<times> eph) state" where
  "read_inav4 b eph = do {
     type \<leftarrow> rdu b 6; iod \<leftarrow> rdu b 10; svid \<leftarrow> rdu b 6; cic \<leftarrow> rds b 16; cis \<leftarrow> rds b 16; toc \<leftarrow> rdu b 14;
     f0 \<leftarrow> rds b 31; f1 \<leftarrow> rds b 21; f2 \<leftarrow> rds b 6;
     State_Monad.return (type, iod, svid, of_int toc * 60,
       eph\<lparr>eph_cic := of_int cic * P2 29, eph_cis := of_int cis * P2 29, eph_f0 := of_int f0 * P2 34,
         eph_f1 := of_int f1 * P2 46, eph_f2 := of_int f2 * P2 59\<rparr>) }"

text \<open>Word type 5 returns its type, the health and validity bits, the week and the time of week.\<close>

definition read_inav5 :: "u8 list \<Rightarrow> eph \<Rightarrow> (nat, int \<times> (int \<times> int \<times> int \<times> int) \<times> int \<times> int \<times> eph) state" where
  "read_inav5 b eph = do {
     type \<leftarrow> rdu b 6; skip (11 + 11 + 14 + 5); bgda \<leftarrow> rds b 10; bgdb \<leftarrow> rds b 10; e5b_hs \<leftarrow> rdu b 2;
     e1b_hs \<leftarrow> rdu b 2; e5b_dvs \<leftarrow> rdu b 1; e1b_dvs \<leftarrow> rdu b 1; week \<leftarrow> rdu b 12; tow \<leftarrow> rdu b 20;
     State_Monad.return (type, (e5b_hs, e1b_hs, e5b_dvs, e1b_dvs), week, tow,
       eph\<lparr>eph_tgd := [of_int bgda * P2 32, of_int bgdb * P2 32, 0, 0, 0, 0]\<rparr>) }"

text \<open>
  The statements both Galileo decoders end with: times from the week and time of week of the
  transmission, the week of the ephemeris within half a week of it.
\<close>

definition gal_times :: "int \<Rightarrow> int \<Rightarrow> double \<Rightarrow> eph \<Rightarrow> eph" where
  "gal_times week tow toc eph =
    (let ttr = gst2time week (of_int tow);
         tt = timediff (gst2time week (eph_toes eph)) ttr;
         week = (if tt > 302400 then week - 1 else if tt < -302400 then week + 1 else week)
     in eph\<lparr>eph_ttr := ttr, eph_toe := gst2time week (eph_toes eph), eph_toc := gst2time week toc,
          eph_week := week + 1024\<rparr>)"

definition decode_gal_inav_eph :: "u8 list \<Rightarrow> eph \<Rightarrow> eph option" where
  "decode_gal_inav_eph buff eph =
    (let (type0, iod0, sqrtA, g) = fst (run_state (read_inav1 buff eph_zero) 128);
         (type1, iod1, g) = fst (run_state (read_inav2 buff g) (128 * 2));
         (type2, iod2, g) = fst (run_state (read_inav3 buff g) (128 * 3));
         (type3, iod3, svid, toc, g) = fst (run_state (read_inav4 buff g) (128 * 4));
         (type4, (e5b_hs, e1b_hs, e5b_dvs, e1b_dvs), week, tow, g) =
           fst (run_state (read_inav5 buff g) (128 * 5));
         sat = satno SYS_GAL svid
     in if type0 \<noteq> 1 \<or> type1 \<noteq> 2 \<or> type2 \<noteq> 3 \<or> type3 \<noteq> 4 \<or> type4 \<noteq> 5 then None
        else if iod0 \<noteq> iod1 \<or> iod0 \<noteq> iod2 \<or> iod0 \<noteq> iod3 then None
        else if sat = 0 then None
        else Some (gal_times week tow toc
               (g\<lparr>eph_sat := sat, eph_A := sqrtA * sqrtA, eph_iode := iod0, eph_iodc := iod0,
                  eph_svh := push_bit 7 e5b_hs OR push_bit 6 e5b_dvs OR push_bit 1 e1b_hs OR e1b_dvs,
                  eph_code := push_bit 9 1\<rparr>)))"

definition read_gal_ion :: "u8 list \<Rightarrow> nat \<Rightarrow> double list \<Rightarrow> double list" where
  "read_gal_ion b i ion =
    fst (run_state (do {
      a0 \<leftarrow> rdu b 11; a1 \<leftarrow> rds b 11; a2 \<leftarrow> rds b 14; flags \<leftarrow> rdu b 5;
      State_Monad.return (put_at [(0, of_int a0 * 0.25), (1, of_int a1 * P2 8), (2, of_int a2 * P2 15),
        (3, of_int flags)] ion) }) i)"

definition read_gal_utc :: "u8 list \<Rightarrow> nat \<Rightarrow> double list \<Rightarrow> double list" where
  "read_gal_utc b i utc =
    fst (run_state (do {
      a0 \<leftarrow> rds b 32; a1 \<leftarrow> rds b 24; dtls \<leftarrow> rds b 8; tot \<leftarrow> rdu b 8; wnt \<leftarrow> rdu b 8; wnlsf \<leftarrow> rdu b 8;
      dn \<leftarrow> rdu b 3; dtlsf \<leftarrow> rds b 8;
      State_Monad.return (put_at [(0, of_int a0 * P2 30), (1, of_int a1 * P2 50), (4, of_int dtls),
        (2, of_int tot * 3600), (3, of_int wnt), (5, of_int wnlsf), (6, of_int dn),
        (7, of_int dtlsf)] utc) }) i)"

definition decode_gal_inav_ion :: "u8 list \<Rightarrow> double list \<Rightarrow> double list option" where
  "decode_gal_inav_ion buff ion =
    (if getu buff (128 * 5) 6 \<noteq> 5 then None else Some (read_gal_ion buff (128 * 5 + 6) ion))"

definition decode_gal_inav_utc :: "u8 list \<Rightarrow> double list \<Rightarrow> double list option" where
  "decode_gal_inav_utc buff utc =
    (if getu buff (128 * 6) 6 \<noteq> 6 then None else Some (read_gal_utc buff (128 * 6 + 6) utc))"

definition decode_gal_inav ::
    "u8 list \<Rightarrow> eph option \<Rightarrow> double list option \<Rightarrow> double list option \<Rightarrow>
     int \<times> eph option \<times> double list option \<times> double list option" where
  "decode_gal_inav buff eph ion utc =
    nav_outputs (decode_gal_inav_eph buff) (decode_gal_inav_ion buff) (decode_gal_inav_utc buff) eph ion utc"

section \<open>Galileo F/NAV\<close>

definition read_fnav1 :: "u8 list \<Rightarrow> eph \<Rightarrow>
    (nat, int \<times> int \<times> int \<times> double \<times> int \<times> int \<times> int \<times> int \<times> eph) state" where
  "read_fnav1 b eph = do {
     type \<leftarrow> rdu b 6; svid \<leftarrow> rdu b 6; iod \<leftarrow> rdu b 10; toc \<leftarrow> rdu b 14; f0 \<leftarrow> rds b 31; f1 \<leftarrow> rds b 21;
     f2 \<leftarrow> rds b 6; sva \<leftarrow> rdu b 8; skip (11 + 11 + 14 + 5); bgd \<leftarrow> rds b 10; hs \<leftarrow> rdu b 2; week \<leftarrow> rdu b 12;
     tow \<leftarrow> rdu b 20; dvs \<leftarrow> rdu b 1;
     State_Monad.return (type, svid, iod, of_int toc * 60, hs, dvs, week, tow,
       eph\<lparr>eph_f0 := of_int f0 * P2 34, eph_f1 := of_int f1 * P2 46, eph_f2 := of_int f2 * P2 59,
         eph_sva := sva, eph_tgd := [of_int bgd * P2 32, 0, 0, 0, 0, 0]\<rparr>) }"

text \<open>The weeks and times of week of pages 2 and 3 are read and not used.\<close>

definition read_fnav2 :: "u8 list \<Rightarrow> eph \<Rightarrow> (nat, int \<times> int \<times> double \<times> eph) state" where
  "read_fnav2 b eph = do {
     type \<leftarrow> rdu b 6; iod \<leftarrow> rdu b 10; M0 \<leftarrow> rds b 32; OMGd \<leftarrow> rds b 24; e \<leftarrow> rdu b 32; sqrtA \<leftarrow> rdu b 32;
     OMG0 \<leftarrow> rds b 32; idot \<leftarrow> rds b 14; week \<leftarrow> rdu b 12; tow \<leftarrow> rdu b 20;
     State_Monad.return (type, iod, of_int sqrtA * P2 19,
       eph\<lparr>eph_M0 := of_int M0 * P2 31 * SC2RAD, eph_OMGd := of_int OMGd * P2 43 * SC2RAD,
         eph_e := of_int e * P2 33, eph_OMG0 := of_int OMG0 * P2 31 * SC2RAD,
         eph_idot := of_int idot * P2 43 * SC2RAD\<rparr>) }"

definition read_fnav3 :: "u8 list \<Rightarrow> eph \<Rightarrow> (nat, int \<times> int \<times> eph) state" where
  "read_fnav3 b eph = do {
     type \<leftarrow> rdu b 6; iod \<leftarrow> rdu b 10; i0 \<leftarrow> rds b 32; omg \<leftarrow> rds b 32; deln \<leftarrow> rds b 16; cuc \<leftarrow> rds b 16;
     cus \<leftarrow> rds b 16; crc \<leftarrow> rds b 16; crs \<leftarrow> rds b 16; toes \<leftarrow> rdu b 14; week \<leftarrow> rdu b 12; tow \<leftarrow> rdu b 20;
     State_Monad.return (type, iod,
       eph\<lparr>eph_i0 := of_int i0 * P2 31 * SC2RAD, eph_omg := of_int omg * P2 31 * SC2RAD,
         eph_deln := of_int deln * P2 43 * SC2RAD, eph_cuc := of_int cuc * P2 29,
         eph_cus := of_int cus * P2 29, eph_crc := of_int crc * P2 5, eph_crs := of_int crs * P2 5,
         eph_toes := of_int toes * 60\<rparr>) }"

definition read_fnav4 :: "u8 list \<Rightarrow> eph \<Rightarrow> (nat, int \<times> int \<times> eph) state" where
  "read_fnav4 b eph = do {
     type \<leftarrow> rdu b 6; iod \<leftarrow> rdu b 10; cic \<leftarrow> rds b 16; cis \<leftarrow> rds b 16;
     State_Monad.return (type, iod, eph\<lparr>eph_cic := of_int cic * P2 29, eph_cis := of_int cis * P2 29\<rparr>) }"

definition decode_gal_fnav_eph :: "u8 list \<Rightarrow> eph \<Rightarrow> eph option" where
  "decode_gal_fnav_eph buff eph =
    (let (type0, svid, iod0, toc, e5a_hs, e5a_dvs, week, tow, g) = fst (run_state (read_fnav1 buff eph_zero) 0);
         (type1, iod1, sqrtA, g) = fst (run_state (read_fnav2 buff g) (31 * 8));
         (type2, iod2, g) = fst (run_state (read_fnav3 buff g) (62 * 8));
         (type3, iod3, g) = fst (run_state (read_fnav4 buff g) (93 * 8));
         sat = satno SYS_GAL svid
     in if type0 \<noteq> 1 \<or> type1 \<noteq> 2 \<or> type2 \<noteq> 3 \<or> type3 \<noteq> 4 then None
        else if iod0 \<noteq> iod1 \<or> iod0 \<noteq> iod2 \<or> iod0 \<noteq> iod3 then None
        else if sat = 0 then None
        else Some (gal_times week tow toc
               (g\<lparr>eph_sat := sat, eph_A := sqrtA * sqrtA, eph_tgd := (eph_tgd g)[1 := 0],
                  eph_iode := iod0, eph_iodc := iod0,
                  eph_svh := push_bit 4 e5a_hs OR push_bit 3 e5a_dvs, eph_code := push_bit 8 1\<rparr>)))"

definition decode_gal_fnav_ion :: "u8 list \<Rightarrow> double list \<Rightarrow> double list option" where
  "decode_gal_fnav_ion buff ion =
    (if getu buff 0 6 \<noteq> 1 then None
     else Some (read_gal_ion buff (6 + 6 + 10 + 14 + 31 + 21 + 6 + 8) ion))"

definition decode_gal_fnav_utc :: "u8 list \<Rightarrow> double list \<Rightarrow> double list option" where
  "decode_gal_fnav_utc buff utc =
    (if getu buff (93 * 8) 6 \<noteq> 4 then None
     else Some (read_gal_utc buff (93 * 8 + 6 + 10 + 16 + 16) utc))"

definition decode_gal_fnav ::
    "u8 list \<Rightarrow> eph option \<Rightarrow> double list option \<Rightarrow> double list option \<Rightarrow>
     int \<times> eph option \<times> double list option \<times> double list option" where
  "decode_gal_fnav buff eph ion utc =
    nav_outputs (decode_gal_fnav_eph buff) (decode_gal_fnav_ion buff) (decode_gal_fnav_utc buff) eph ion utc"

end
