(* ===== verification/RawBds.thy ===== *)
theory RawBds
  imports RawNav
begin

text \<open>
  BeiDou navigation data of \<^verbatim>\<open>rcvraw.c\<close>: D1 (IGSO and MEO satellites) and D2 (GEO satellites).
  The fields are at fixed places of the subframes and many are in pieces on both sides of parity
  bits.
\<close>

section \<open>D1\<close>

text \<open>Subframe number and seconds of week, at the start of a subframe.\<close>

definition bds_frn :: "u8 list \<Rightarrow> nat \<Rightarrow> int" where
  "bds_frn b i = getu b (i + 15) 3"

definition bds_sow :: "u8 list \<Rightarrow> nat \<Rightarrow> int" where
  "bds_sow b i = getbitu2 b (i + 18) 8 (i + 30) 12"

text \<open>The statements both ephemeris decoders end with.\<close>

definition bds_times :: "int \<Rightarrow> double \<Rightarrow> int \<Rightarrow> eph \<Rightarrow> eph" where
  "bds_times sow1 toc flag eph =
    (let ttr = bdt2gpst (bdt2time (eph_week eph) (of_int sow1));
         week = (if eph_toes eph > of_int sow1 + 302400 then eph_week eph + 1
                 else if eph_toes eph < of_int sow1 - 302400 then eph_week eph - 1 else eph_week eph)
     in eph\<lparr>eph_ttr := ttr, eph_week := week, eph_toe := bdt2gpst (bdt2time week (eph_toes eph)),
          eph_toc := bdt2gpst (bdt2time week toc), eph_code := 0, eph_flag := flag\<rparr>)"

definition bds_d1_sf1 :: "u8 list \<Rightarrow> nat \<Rightarrow> eph \<Rightarrow> eph" where
  "bds_d1_sf1 b i eph =
    eph\<lparr>eph_svh := getu b (i + 42) 1, eph_iodc := getu b (i + 43) 5, eph_sva := getu b (i + 48) 4,
      eph_week := getu b (i + 60) 13,
      eph_tgd := [of_int (getbits b (i + 98) 10) * 0.1 * 0.000000001,
                  of_int (getbits2 b (i + 108) 4 (i + 120) 6) * 0.1 * 0.000000001, 0, 0, 0, 0],
      eph_f2 := of_int (getbits b (i + 214) 11) * P2 66,
      eph_f0 := of_int (getbits2 b (i + 225) 7 (i + 240) 17) * P2 33,
      eph_f1 := of_int (getbits2 b (i + 257) 5 (i + 270) 17) * P2 50,
      eph_iode := getu b (i + 287) 5\<rparr>"

definition bds_d1_sf2 :: "u8 list \<Rightarrow> nat \<Rightarrow> eph \<Rightarrow> eph" where
  "bds_d1_sf2 b i eph =
    (let sqrtA = of_int (getbitu2 b (i + 250) 12 (i + 270) 20) * P2 19 in
     eph\<lparr>eph_deln := of_int (getbits2 b (i + 42) 10 (i + 60) 6) * P2 43 * SC2RAD,
      eph_cuc := of_int (getbits2 b (i + 66) 16 (i + 90) 2) * P2 31,
      eph_M0 := of_int (getbits2 b (i + 92) 20 (i + 120) 12) * P2 31 * SC2RAD,
      eph_e := of_int (getbitu2 b (i + 132) 10 (i + 150) 22) * P2 33,
      eph_cus := of_int (getbits b (i + 180) 18) * P2 31,
      eph_crc := of_int (getbits2 b (i + 198) 4 (i + 210) 14) * P2 6,
      eph_crs := of_int (getbits2 b (i + 224) 8 (i + 240) 10) * P2 6, eph_A := sqrtA * sqrtA\<rparr>)"

definition bds_d1_sf3 :: "u8 list \<Rightarrow> nat \<Rightarrow> int \<Rightarrow> eph \<Rightarrow> eph" where
  "bds_d1_sf3 b i toe1 eph =
    (let toe2 = getbitu2 b (i + 42) 10 (i + 60) 5 in
     eph\<lparr>eph_i0 := of_int (getbits2 b (i + 65) 17 (i + 90) 15) * P2 31 * SC2RAD,
      eph_cic := of_int (getbits2 b (i + 105) 7 (i + 120) 11) * P2 31,
      eph_OMGd := of_int (getbits2 b (i + 131) 11 (i + 150) 13) * P2 43 * SC2RAD,
      eph_cis := of_int (getbits2 b (i + 163) 9 (i + 180) 9) * P2 31,
      eph_idot := of_int (getbits2 b (i + 189) 13 (i + 210) 1) * P2 43 * SC2RAD,
      eph_OMG0 := of_int (getbits2 b (i + 211) 21 (i + 240) 11) * P2 31 * SC2RAD,
      eph_omg := of_int (getbits2 b (i + 251) 11 (i + 270) 21) * P2 31 * SC2RAD,
      eph_toes := of_int (merge_two_u toe1 toe2 15) * 8\<rparr>)"

definition decode_bds_d1_eph :: "u8 list \<Rightarrow> eph \<Rightarrow> eph option" where
  "decode_bds_d1_eph buff eph =
    (let i1 = 8 * 38 * 0; i2 = 8 * 38 * 1; i3 = 8 * 38 * 2;
         sow1 = bds_sow buff i1; sow2 = bds_sow buff i2; sow3 = bds_sow buff i3;
         toc_bds = of_int (getbitu2 buff (i1 + 73) 9 (i1 + 90) 8) * 8;
         toe1 = getu buff (i2 + 290) 2;
         g = bds_d1_sf3 buff i3 toe1 (bds_d1_sf2 buff i2 (bds_d1_sf1 buff i1 eph_zero))
     in if bds_frn buff i1 \<noteq> 1 \<or> bds_frn buff i2 \<noteq> 2 \<or> bds_frn buff i3 \<noteq> 3 then None
        else if sow2 \<noteq> sow1 + 6 \<or> sow3 \<noteq> sow2 + 6 then None
        else if toc_bds \<noteq> eph_toes g then None
        else Some (bds_times sow1 toc_bds 1 g))"

definition decode_bds_d1_ion :: "u8 list \<Rightarrow> double list \<Rightarrow> double list option" where
  "decode_bds_d1_ion buff ion =
    (let i = 8 * 38 * 0 in
     if getu buff (i + 15) 3 \<noteq> 1 then None
     else Some (put_at [(0, of_int (getbits buff (i + 126) 8) * P2 30),
       (1, of_int (getbits buff (i + 134) 8) * P2 27), (2, of_int (getbits buff (i + 150) 8) * P2 24),
       (3, of_int (getbits buff (i + 158) 8) * P2 24),
       (4, of_int (getbits2 buff (i + 166) 6 (i + 180) 2) * 2 ^ 11),
       (5, of_int (getbits buff (i + 182) 8) * 2 ^ 14), (6, of_int (getbits buff (i + 190) 8) * 2 ^ 16),
       (7, of_int (getbits2 buff (i + 198) 4 (i + 210) 4) * 2 ^ 16)] ion))"

text \<open>
  The parameters both UTC decoders take from the subframe at \<open>i\<close>; D1 and D2 differ in the time of
  week (the decoder of D2 reads it as a signed number) and in the place of the week.
\<close>

definition bds_utc :: "u8 list \<Rightarrow> nat \<Rightarrow> int \<Rightarrow> nat \<Rightarrow> double list \<Rightarrow> double list" where
  "bds_utc b i sow wn =
    put_at [(4, of_int (getbits2 b (i + 50) 2 (i + 60) 6)), (7, of_int (getbits b (i + 66) 8)),
      (5, of_int (getu b (i + 74) 8)), (0, of_int (getbits2 b (i + 90) 22 (i + 120) 10) * P2 30),
      (1, of_int (getbits2 b (i + 130) 12 (i + 150) 12) * P2 50), (6, of_int (getu b (i + 162) 8)),
      (2, of_int sow), (3, of_int (getu b wn 13))]"

definition decode_bds_d1_utc :: "u8 list \<Rightarrow> double list \<Rightarrow> double list option" where
  "decode_bds_d1_utc buff utc =
    (let i = 8 * 38 * 4 in
     if getu buff 15 3 \<noteq> 1 then None
     else if getu buff (i + 15) 3 \<noteq> 5 \<or> getu buff (i + 43) 7 \<noteq> 10 then None
     else Some (bds_utc buff i (getbitu2 buff (i + 18) 8 (i + 30) 12) 60 utc))"

definition decode_bds_d1 ::
    "u8 list \<Rightarrow> eph option \<Rightarrow> double list option \<Rightarrow> double list option \<Rightarrow>
     int \<times> eph option \<times> double list option \<times> double list option" where
  "decode_bds_d1 buff eph ion utc =
    nav_outputs (decode_bds_d1_eph buff) (decode_bds_d1_ion buff) (decode_bds_d1_utc buff) eph ion utc"

section \<open>D2\<close>

definition bds_pgn :: "u8 list \<Rightarrow> nat \<Rightarrow> int" where
  "bds_pgn b i = getu b (i + 42) 4"

definition bds_d2_page1 :: "u8 list \<Rightarrow> nat \<Rightarrow> eph \<Rightarrow> eph" where
  "bds_d2_page1 b i eph =
    eph\<lparr>eph_svh := getu b (i + 46) 1, eph_iodc := getu b (i + 47) 5, eph_sva := getu b (i + 60) 4,
      eph_week := getu b (i + 64) 13,
      eph_tgd := [of_int (getbits b (i + 102) 10) * 0.1 * 0.000000001,
                  of_int (getbits b (i + 120) 10) * 0.1 * 0.000000001, 0, 0, 0, 0]\<rparr>"

text \<open>The fields that are complete in one of the pages 3 to 10.\<close>

definition bds_d2_pages :: "u8 list \<Rightarrow> eph \<Rightarrow> eph" where
  "bds_d2_pages b eph =
    (let p3 = 8 * 38 * 2; p4 = 8 * 38 * 3; p5 = 8 * 38 * 4; p6 = 8 * 38 * 5; p7 = 8 * 38 * 6;
         p8 = 8 * 38 * 7; p9 = 8 * 38 * 8; p10 = 8 * 38 * 9;
         sqrtA = of_int (getbitu3 b (p6 + 76) 6 (p6 + 90) 22 (p6 + 120) 4) * P2 19
     in eph\<lparr>eph_f0 := of_int (getbits2 b (p3 + 100) 12 (p3 + 120) 12) * P2 33,
      eph_f2 := of_int (getbits2 b (p4 + 72) 10 (p4 + 90) 1) * P2 66,
      eph_iode := getu b (p4 + 91) 5,
      eph_deln := of_int (getbits b (p4 + 96) 16) * P2 43 * SC2RAD,
      eph_M0 := of_int (getbits3 b (p5 + 50) 2 (p5 + 60) 22 (p5 + 90) 8) * P2 31 * SC2RAD,
      eph_cus := of_int (getbits2 b (p5 + 98) 14 (p5 + 120) 4) * P2 31,
      eph_A := sqrtA * sqrtA,
      eph_cis := of_int (getbits b (p7 + 62) 18) * P2 31,
      eph_toes := of_int (getbitu2 b (p7 + 80) 2 (p7 + 90) 15) * 8,
      eph_crc := of_int (getbits2 b (p8 + 65) 17 (p8 + 90) 1) * P2 6,
      eph_crs := of_int (getbits b (p8 + 91) 18) * P2 6,
      eph_OMG0 := of_int (getbits3 b (p9 + 51) 1 (p9 + 60) 22 (p9 + 90) 9) * P2 31 * SC2RAD,
      eph_idot := of_int (getbits2 b (p10 + 51) 1 (p10 + 60) 13) * P2 43 * SC2RAD\<rparr>)"

text \<open>The fields in pieces on two pages; the first piece of the eccentricity is read signed.\<close>

definition bds_d2_merge :: "u8 list \<Rightarrow> eph \<Rightarrow> eph" where
  "bds_d2_merge b eph =
    (let p3 = 8 * 38 * 2; p4 = 8 * 38 * 3; p5 = 8 * 38 * 4; p6 = 8 * 38 * 5; p7 = 8 * 38 * 6;
         p8 = 8 * 38 * 7; p9 = 8 * 38 * 8; p10 = 8 * 38 * 9;
         f1p3 = getbits b (p3 + 132) 4; f1p4 = getbitu2 b (p4 + 46) 6 (p4 + 60) 12;
         cucp4 = getbits b (p4 + 120) 14; cucp5 = getu b (p5 + 46) 4;
         ep5 = getbits b (p5 + 124) 10; ep6 = getbitu2 b (p6 + 46) 6 (p6 + 60) 16;
         cicp6 = getbits b (p6 + 124) 10; cicp7 = getbitu2 b (p7 + 46) 6 (p7 + 60) 2;
         i0p7 = getbits2 b (p7 + 105) 7 (p7 + 120) 14; i0p8 = getbitu2 b (p8 + 46) 6 (p8 + 60) 5;
         OMGdp8 = getbits2 b (p8 + 109) 3 (p8 + 120) 16; OMGdp9 = getu b (p9 + 46) 5;
         omgp9 = getbits2 b (p9 + 99) 13 (p9 + 120) 14; omgp10 = getu b (p10 + 46) 5
     in eph\<lparr>eph_f1 := of_int (merge_two_s f1p3 f1p4 18) * P2 50,
          eph_cuc := of_int (merge_two_s cucp4 cucp5 4) * P2 31,
          eph_e := of_int (merge_two_s ep5 ep6 22) * P2 33,
          eph_cic := of_int (merge_two_s cicp6 cicp7 8) * P2 31,
          eph_i0 := of_int (merge_two_s i0p7 i0p8 11) * P2 31 * SC2RAD,
          eph_OMGd := of_int (merge_two_s OMGdp8 OMGdp9 5) * P2 43 * SC2RAD,
          eph_omg := of_int (merge_two_s omgp9 omgp10 5) * P2 31 * SC2RAD\<rparr>)"

definition decode_bds_d2_eph :: "u8 list \<Rightarrow> eph \<Rightarrow> eph option" where
  "decode_bds_d2_eph buff eph =
    (let i = (\<lambda>page. 8 * 38 * (page - 1)); sow = (\<lambda>page. bds_sow buff (i page));
         toc_bds = of_int (getbitu2 buff (i 1 + 77) 5 (i 1 + 90) 12) * 8;
         g = bds_d2_pages buff (bds_d2_page1 buff (i 1) eph_zero)
     in if \<not> list_all (\<lambda>page. bds_pgn buff (i page) = int page) [1, 3, 4, 5, 6, 7, 8, 9, 10] then None
        else if sow 3 \<noteq> sow 1 + 6 \<or> sow 4 \<noteq> sow 3 + 3 \<or> sow 5 \<noteq> sow 4 + 3 \<or> sow 6 \<noteq> sow 5 + 3 \<or>
          sow 7 \<noteq> sow 6 + 3 \<or> sow 8 \<noteq> sow 7 + 3 \<or> sow 9 \<noteq> sow 8 + 3 \<or> sow 10 \<noteq> sow 9 + 3 then None
        else if toc_bds \<noteq> eph_toes g then None
        else Some (bds_times (sow 1) toc_bds 2 (bds_d2_merge buff g)))"

definition decode_bds_d2_utc :: "u8 list \<Rightarrow> double list \<Rightarrow> double list option" where
  "decode_bds_d2_utc buff utc =
    (let i = 8 * 38 * 10 in
     if getu buff 15 3 \<noteq> 1 \<or> getu buff 42 4 \<noteq> 1 then None
     else if getu buff (i + 15) 3 \<noteq> 5 \<or> getu buff (i + 43) 7 \<noteq> 102 then None
     else Some (bds_utc buff i (getbits2 buff (i + 18) 8 (i + 30) 12) 64 utc))"

definition decode_bds_d2 ::
    "u8 list \<Rightarrow> eph option \<Rightarrow> double list option \<Rightarrow> int \<times> eph option \<times> double list option" where
  "decode_bds_d2 buff eph utc =
    (case out (decode_bds_d2_eph buff) eph of None \<Rightarrow> (0, eph, utc) | Some eph \<Rightarrow>
      (case out (decode_bds_d2_utc buff) utc of None \<Rightarrow> (0, eph, utc) | Some utc \<Rightarrow> (1, eph, utc)))"

end
