(* ===== verification/RawGlo.thy ===== *)
theory RawGlo
  imports RawNav NavWord
begin

text \<open>
  GLONASS navigation strings (\<^verbatim>\<open>rcvraw.c\<close>): the test of the check bits, specified by the check sums
  of the interface document, and the decoders of the ephemeris and the time parameters.
\<close>

section \<open>The test of a string\<close>

definition xor_8bit :: "u8 list" where
  "xor_8bit = [
   0, 1, 1, 0, 1, 0, 0, 1, 1, 0, 0, 1, 0, 1, 1, 0, 1, 0, 0, 1, 0, 1, 1, 0, 0, 1, 1, 0, 1, 0, 0, 1,
   1, 0, 0, 1, 0, 1, 1, 0, 0, 1, 1, 0, 1, 0, 0, 1, 0, 1, 1, 0, 1, 0, 0, 1, 1, 0, 0, 1, 0, 1, 1, 0,
   1, 0, 0, 1, 0, 1, 1, 0, 0, 1, 1, 0, 1, 0, 0, 1, 0, 1, 1, 0, 1, 0, 0, 1, 1, 0, 0, 1, 0, 1, 1, 0,
   0, 1, 1, 0, 1, 0, 0, 1, 1, 0, 0, 1, 0, 1, 1, 0, 1, 0, 0, 1, 0, 1, 1, 0, 0, 1, 1, 0, 1, 0, 0, 1,
   1, 0, 0, 1, 0, 1, 1, 0, 0, 1, 1, 0, 1, 0, 0, 1, 0, 1, 1, 0, 1, 0, 0, 1, 1, 0, 0, 1, 0, 1, 1, 0,
   0, 1, 1, 0, 1, 0, 0, 1, 1, 0, 0, 1, 0, 1, 1, 0, 1, 0, 0, 1, 0, 1, 1, 0, 0, 1, 1, 0, 1, 0, 0, 1,
   0, 1, 1, 0, 1, 0, 0, 1, 1, 0, 0, 1, 0, 1, 1, 0, 1, 0, 0, 1, 0, 1, 1, 0, 0, 1, 1, 0, 1, 0, 0, 1,
   1, 0, 0, 1, 0, 1, 1, 0, 0, 1, 1, 0, 1, 0, 0, 1, 0, 1, 1, 0, 1, 0, 0, 1, 1, 0, 0, 1, 0, 1, 1, 0]"

definition mask_hamming :: "u8 list list" where
  "mask_hamming = [
   [0x55, 0x55, 0x5A, 0xAA, 0xAA, 0xAA, 0xB5, 0x55, 0x6A, 0xD8, 0x08, 0x00],
   [0x66, 0x66, 0x6C, 0xCC, 0xCC, 0xCC, 0xD9, 0x99, 0xB3, 0x68, 0x10, 0x00],
   [0x87, 0x87, 0x8F, 0x0F, 0x0F, 0x0F, 0x1E, 0x1E, 0x3C, 0x70, 0x20, 0x00],
   [0x07, 0xF8, 0x0F, 0xF0, 0x0F, 0xF0, 0x1F, 0xE0, 0x3F, 0x80, 0x40, 0x00],
   [0xF8, 0x00, 0x0F, 0xFF, 0xF0, 0x00, 0x1F, 0xFF, 0xC0, 0x00, 0x80, 0x00],
   [0x00, 0x00, 0x0F, 0xFF, 0xFF, 0xFF, 0xE0, 0x00, 0x00, 0x01, 0x00, 0x00],
   [0xFF, 0xFF, 0xF0, 0x00, 0x00, 0x00, 0x00, 0x00, 0x00, 0x02, 0x00, 0x00],
   [0xFF, 0xFF, 0xFF, 0xFF, 0xFF, 0xFF, 0xFF, 0xFF, 0xFF, 0xFF, 0xF8, 0x00]]"

text \<open>The inner loop: one check sum.\<close>

definition glo_check :: "u8 list \<Rightarrow> u8 list \<Rightarrow> u8" where
  "glo_check buff m = fold (\<lambda>j cs. cs XOR xor_8bit ! unat (buff ! j AND m ! j)) [0..<11] 0"

definition test_glostr :: "u8 list \<Rightarrow> bool" where
  "test_glostr buff =
    (let (n, cs) = fold (\<lambda>m (n, cs). let cs = glo_check buff m in (if cs \<noteq> 0 then n + 1 else n, cs))
                     mask_hamming (0 :: nat, 0)
     in n = 0 \<or> n = 2 \<and> cs \<noteq> 0)"

section \<open>Specification: the check sums\<close>

text \<open>
  The numbers of the bits of the eight check sums (interface document of GLONASS, section 4.7);
  bit 85 of a string is the first of the buffer, bits 1 to 8 are the check bits.
\<close>

definition string_bit :: "u8 list \<Rightarrow> nat \<Rightarrow> bool" where
  "string_bit buff n = bufbit buff (85 - n)"

definition icd_checks :: "nat list list" where
  "icd_checks =
    [[1, 9, 10, 12, 13, 15, 17, 19, 20, 22, 24, 26, 28, 30, 32, 34, 35, 37, 39, 41, 43, 45, 47, 49, 51,
      53, 55, 57, 59, 61, 63, 65, 66, 68, 70, 72, 74, 76, 78, 80, 82, 84],
     [2, 9, 11, 12, 14, 15, 18, 19, 21, 22, 25, 26, 29, 30, 33, 34, 36, 37, 40, 41, 44, 45, 48, 49, 52,
      53, 56, 57, 60, 61, 64, 65, 67, 68, 71, 72, 75, 76, 79, 80, 83, 84],
     3 # [10..<13] @ [16..<20] @ [23..<27] @ [31..<35] @ [38..<42] @ [46..<50] @ [54..<58] @ [62..<66] @
       [69..<73] @ [77..<81] @ [85],
     4 # [13..<20] @ [27..<35] @ [42..<50] @ [58..<66] @ [73..<81],
     5 # [20..<35] @ [50..<66] @ [81..<86],
     6 # [35..<66],
     7 # [66..<86],
     [1..<86]]"

definition check_sums :: "u8 list \<Rightarrow> bool list" where
  "check_sums buff = map (\<lambda>ns. xors (map (string_bit buff) ns)) icd_checks"

lemma xor_8bit_xors: "xor_8bit ! unat (b :: u8) = of_bool (xors (map (\<lambda>k. bit b (7 - k)) [0..<8]))"
proof -
  have t: "list_all (\<lambda>v. xor_8bit ! v = of_bool (xors (map (\<lambda>k. bit (word_of_nat v :: u8) (7 - k)) [0..<8])))
    [0..<256]"
    by code_simp
  have "unat b < 256" using unsigned_less [of b] by simp
  then show ?thesis using t unfolding list_all_iff by (auto dest: bspec [of _ _ "unat b"])
qed

lemma xors_blocks: "xors (map P [0..<8 * n]) = xors (map (\<lambda>j. xors (map (\<lambda>k. P (8 * j + k)) [0..<8])) [0..<n])"
proof (induction n)
  case (Suc n)
  have "[0..<8 * Suc n] = [0..<8 * n] @ map (\<lambda>k. k + 8 * n) [0..<8]"
    unfolding map_add_upt using upt_add_eq_append [of 0 "8 * n" 8] by (simp add: add.commute)
  then show ?case using Suc.IH by (simp add: comp_def add.commute del: upt_conv_Cons_Cons)
qed simp

lemma glo_check_xors: "glo_check buff m = of_bool (xors (map (\<lambda>i. bufbit buff i \<and> bufbit m i) [0..<88]))"
proof -
  have f: "fold (\<lambda>j cs. cs XOR of_bool (P j)) js a = a XOR of_bool (xors (map P js))" for P js and a :: u8
  proof (induction js arbitrary: a)
    case (Cons j js)
    have "of_bool p XOR of_bool q = (of_bool (p \<noteq> q) :: u8)" for p q by (cases p; cases q) simp_all
    then show ?case using Cons.IH by (simp add: xor.assoc)
  qed simp
  have "glo_check buff m =
      of_bool (xors (map (\<lambda>j. xors (map (\<lambda>k. bit (buff ! j AND m ! j) (7 - k)) [0..<8])) [0..<11]))"
    unfolding glo_check_def xor_8bit_xors f xor.left_neutral ..
  also have "(\<lambda>j. xors (map (\<lambda>k. bit (buff ! j AND m ! j) (7 - k)) [0..<8])) =
      (\<lambda>j. xors (map (\<lambda>k. bufbit buff (8 * j + k) \<and> bufbit m (8 * j + k)) [0..<8]))"
    by (rule ext, rule arg_cong [where f = xors], rule map_cong)
      (auto simp: bufbit_def bit_and_iff)
  also have "of_bool (xors (map (\<lambda>j. xors (map (\<lambda>k. bufbit buff (8 * j + k) \<and> bufbit m (8 * j + k)) [0..<8]))
      [0..<11])) = (of_bool (xors (map (\<lambda>i. bufbit buff i \<and> bufbit m i) [0..<8 * 11])) :: u8)"
    unfolding xors_blocks [where n = 11] ..
  finally show ?thesis by (simp only: mult_numeral_1_right numeral_times_numeral arith_simps)
qed

text \<open>The masks select the bits of the check sums.\<close>

lemma mask_positions:
  "map (\<lambda>m. map (\<lambda>i. 85 - i) (filter (bufbit m) [0..<88])) mask_hamming = map rev icd_checks"
  by code_simp

lemma mask_pad: "\<forall>m \<in> set mask_hamming. \<forall>i \<in> set (filter (bufbit m) [0..<88]). i \<le> 85"
  by code_simp

lemma glo_checks: "map (glo_check buff) mask_hamming = map of_bool (check_sums buff)"
proof -
  have "glo_check buff m = of_bool (xors (map (string_bit buff) (map (\<lambda>i. 85 - i) (filter (bufbit m) [0..<88]))))"
    if m: "m \<in> set mask_hamming" for m
  proof -
    have e: "map (string_bit buff) (map (\<lambda>i. 85 - i) (filter (bufbit m) [0..<88])) =
        map (bufbit buff) (filter (bufbit m) [0..<88])"
      unfolding map_map using mask_pad m by (intro map_cong) (auto simp: string_bit_def)
    show ?thesis unfolding glo_check_xors xors_filter e ..
  qed
  then have "map (glo_check buff) mask_hamming =
      map (\<lambda>ns. of_bool (xors (map (string_bit buff) ns)))
        (map (\<lambda>m. map (\<lambda>i. 85 - i) (filter (bufbit m) [0..<88])) mask_hamming)"
    unfolding map_map by simp
  also have "\<dots> = map of_bool (check_sums buff)"
    unfolding mask_positions check_sums_def map_map comp_def rev_map [symmetric] xors_rev ..
  finally show ?thesis .
qed

text \<open>
  The test: all sums are zero, or the sum over the whole string and exactly one other are not.
\<close>

lemma test_glostr_icd:
  "test_glostr buff \<longleftrightarrow>
    (let cs = check_sums buff; n = length (filter id cs) in n = 0 \<or> n = 2 \<and> last cs)"
proof -
  have f: "fold (\<lambda>m (n, cs). let cs = glo_check buff m in (if cs \<noteq> 0 then n + 1 else n, cs)) ms (n, c) =
      (n + length (filter (\<lambda>c. c \<noteq> 0) (map (glo_check buff) ms)), last (c # map (glo_check buff) ms))"
    for ms n c
    by (induction ms arbitrary: n c) (simp_all add: Let_def)
  have "filter (\<lambda>c. c \<noteq> 0) (map of_bool bs) = map (of_bool :: _ \<Rightarrow> u8) (filter id bs)" for bs
    by (induction bs) auto
  moreover have "check_sums buff \<noteq> []" by (simp add: check_sums_def icd_checks_def)
  ultimately show ?thesis
    unfolding test_glostr_def f glo_checks by (simp add: Let_def last_map)
qed

section \<open>Errors in a string\<close>

text \<open>A string is in error in the bits of a set \<open>D\<close>: the sums change by the columns of \<open>D\<close>.\<close>

lemma checks_change:
  assumes "ns \<in> set icd_checks"
  shows "xors (map (string_bit b') ns) =
    (xors (map (string_bit b) ns) \<noteq> odd (card {n \<in> set ns. string_bit b n \<noteq> string_bit b' n}))"
proof -
  have d: "distinct ns" using assms by (simp add: icd_checks_def) (elim disjE; simp)
  have "xors (map P ns) = odd (card {n \<in> set ns. P n})" if "distinct ns" for P ns
    using that
  proof (induction ns)
    case (Cons n ns)
    have "{m \<in> set (n # ns). P m} = (if P n then insert n {m \<in> set ns. P m} else {m \<in> set ns. P m})"
      by auto
    then show ?case using Cons by auto
  qed simp
  from this [OF d] have "odd (card {n \<in> set ns. string_bit b n \<noteq> string_bit b' n}) =
      xors (map (\<lambda>n. string_bit b n \<noteq> string_bit b' n) ns)" by simp
  also have "\<dots> = (xors (map (string_bit b) ns) \<noteq> xors (map (string_bit b') ns))" by (rule xors_linear)
  finally show ?thesis by blast
qed

definition column :: "nat \<Rightarrow> bool list" where
  "column n = map (\<lambda>ns. n \<in> set ns) icd_checks"

text \<open>The columns as numbers: bit \<open>k\<close> of the entry of a string bit says whether sum \<open>k\<close> has it.\<close>

definition glo_codes :: "int list" where
  "glo_codes =
    [129, 130, 132, 136, 144, 160, 192, 128, 131, 133, 134, 135, 137, 138, 139, 140, 141,
     142, 143, 145, 146, 147, 148, 149, 150, 151, 152, 153, 154, 155, 156, 157, 158, 159,
     161, 162, 163, 164, 165, 166, 167, 168, 169, 170, 171, 172, 173, 174, 175, 176, 177,
     178, 179, 180, 181, 182, 183, 184, 185, 186, 187, 188, 189, 190, 191, 193, 194, 195,
     196, 197, 198, 199, 200, 201, 202, 203, 204, 205, 206, 207, 208, 209, 210, 211, 212]"

lemma icd_codes:
  "icd_checks = map (\<lambda>k. map fst (filter (\<lambda>(n, c). bit c k) (zip [1..<86] glo_codes))) [0..<8]"
  by code_simp

lemma codes_facts:
  "length glo_codes = 85" "distinct glo_codes"
  "list_all (\<lambda>c. 3 \<le> length (filter (bit c) [0..<8])) (drop 8 glo_codes)"
  "list_all (\<lambda>c. bit c 7) glo_codes"
  "list_all (\<lambda>c. take_bit 8 c = c) glo_codes"
  by (simp add: glo_codes_def, simp add: glo_codes_def, code_simp, code_simp, code_simp)

lemma column_bits:
  assumes "1 \<le> n" and "n \<le> 85"
  shows "column n = map (bit (glo_codes ! (n - 1))) [0..<8]"
proof -
  have "n \<in> set (map fst (filter (\<lambda>(n, c). P c) (zip [1..<86] glo_codes))) \<longleftrightarrow> P (glo_codes ! (n - 1))" for P
    using assms codes_facts(1) by (force simp: set_zip image_iff Bex_def)
  then show ?thesis unfolding column_def icd_codes map_map comp_def by simp
qed

lemma column_data: "9 \<le> n \<Longrightarrow> n \<le> 85 \<Longrightarrow> 3 \<le> length (filter id (column n))"
  and column_last: "1 \<le> n \<Longrightarrow> n \<le> 85 \<Longrightarrow> last (column n)"
  and column_inj: "1 \<le> m \<Longrightarrow> m \<le> 85 \<Longrightarrow> 1 \<le> n \<Longrightarrow> n \<le> 85 \<Longrightarrow> column m = column n \<Longrightarrow> m = n"
proof -
  assume n: "9 \<le> n" "n \<le> 85"
  then have "glo_codes ! (n - 1) \<in> set (drop 8 glo_codes)"
    using codes_facts(1) unfolding in_set_conv_nth by (intro exI [of _ "n - 9"]) auto
  then show "3 \<le> length (filter id (column n))"
    using codes_facts(3) n unfolding list_all_iff by (simp add: column_bits filter_map comp_def)
next
  assume n: "1 \<le> n" "n \<le> 85"
  then show "last (column n)"
    using codes_facts(1,4) by (simp add: column_bits list_all_length last_map)
next
  assume n: "1 \<le> m" "m \<le> 85" "1 \<le> n" "n \<le> 85" "column m = column n"
  let ?c = "\<lambda>k. glo_codes ! (k - 1)"
  have t: "take_bit 8 (?c k) = ?c k" if "1 \<le> k" "k \<le> 85" for k
    using codes_facts(1,5) that by (simp add: list_all_length)
  have "map (bit (?c m)) [0..<8] = map (bit (?c n)) [0..<8]"
    using n(5) unfolding column_bits [OF n(1,2)] column_bits [OF n(3,4)] .
  then have "\<forall>i < 8. bit (?c m) i = bit (?c n) i" unfolding map_eq_conv set_upt by auto
  then have "take_bit 8 (?c m) = take_bit 8 (?c n)" by (intro bit_eqI) (auto simp: bit_take_bit_iff)
  then have "?c m = ?c n" unfolding t [OF n(1,2)] t [OF n(3,4)] .
  then have "m - 1 = n - 1"
    using nth_eq_iff_index_eq [OF codes_facts(2), of "m - 1" "n - 1"] codes_facts(1) n by simp
  then show "m = n" using n by linarith
qed

text \<open>
  A string whose sums are all zero is changed in one or two of its 85 bits.  If the test accepts
  the result, the 77 bits of data are the ones that were sent.
\<close>

lemma test_glostr_data:
  assumes valid: "\<not> (\<exists>c \<in> set (check_sums b). c)" and acc: "test_glostr b'"
    and D: "card {n. 1 \<le> n \<and> n \<le> 85 \<and> string_bit b n \<noteq> string_bit b' n} \<le> 2" and n: "9 \<le> n" "n \<le> 85"
  shows "string_bit b' n = string_bit b n"
proof (rule ccontr)
  let ?D = "{n. 1 \<le> n \<and> n \<le> 85 \<and> string_bit b n \<noteq> string_bit b' n}"
  assume "\<not> ?thesis"
  then have nD: "n \<in> ?D" using n by auto
  have fin: "finite ?D" by (rule finite_subset [of _ "{..85}"]) auto
  have range: "\<forall>ns \<in> set icd_checks. \<forall>k \<in> set ns. 1 \<le> k \<and> k \<le> 85" by code_simp
  have sums: "check_sums b' = map (\<lambda>ns. odd (card (set ns \<inter> ?D))) icd_checks"
    unfolding check_sums_def
  proof (rule map_cong [OF refl])
    fix ns assume ns: "ns \<in> set icd_checks"
    have "{k \<in> set ns. string_bit b k \<noteq> string_bit b' k} = set ns \<inter> ?D" using range ns by auto
    moreover have "\<not> xors (map (string_bit b) ns)" using valid ns by (auto simp: check_sums_def)
    ultimately show "xors (map (string_bit b') ns) = odd (card (set ns \<inter> ?D))"
      using checks_change [OF ns, of b' b] by simp
  qed
  consider "?D = {n}" | m where "?D = {n, m}" "m \<noteq> n"
  proof -
    have "0 < card ?D" using nD fin by (auto simp: card_gt_0_iff)
    then have "card ?D = 1 \<or> card ?D = 2" using D by linarith
    then show thesis
    proof
      assume "card ?D = 1"
      then obtain x where x: "?D = {x}" by (rule card_1_singletonE)
      have "n = x" using nD unfolding x by simp
      then show thesis using that(1) x by blast
    next
      assume "card ?D = 2"
      then obtain x y where xy: "?D = {x, y}" "x \<noteq> y" unfolding card_2_iff by blast
      have "n = x \<or> n = y" using nD unfolding xy(1) by simp
      then show thesis using that(2) [of x] that(2) [of y] xy by blast
    qed
  qed
  then show False
  proof cases
    case 1
    have odd: "odd (card (set ns \<inter> {n})) \<longleftrightarrow> n \<in> set ns" for ns
      by (cases "n \<in> set ns") (simp_all add: Int_insert_right)
    have "check_sums b' = column n" unfolding sums 1 column_def odd ..
    moreover have "3 \<le> length (filter id (column n))" using n by (rule column_data)
    ultimately show False using acc unfolding test_glostr_icd Let_def by auto
  next
    case (2 m)
    have m: "1 \<le> m" "m \<le> 85" using 2(1) by auto
    have odd: "odd (card (set ns \<inter> {n, m})) \<longleftrightarrow> (n \<in> set ns) \<noteq> (m \<in> set ns)" for ns
      using 2(2) by (cases "n \<in> set ns"; cases "m \<in> set ns") (simp_all add: Int_insert_right)
    have cs: "check_sums b' = map (\<lambda>ns. (n \<in> set ns) \<noteq> (m \<in> set ns)) icd_checks"
      unfolding sums 2(1) odd ..
    have "icd_checks \<noteq> []" by (simp add: icd_checks_def)
    then have "\<not> last (check_sums b')"
      unfolding cs using column_last [of n] column_last [of m] n m by (simp add: column_def last_map)
    then have "\<not> (\<exists>c \<in> set (check_sums b'). c)"
      using acc unfolding test_glostr_icd Let_def by (auto simp: filter_empty_conv)
    then have "column n = column m" unfolding cs column_def by auto
    then show False using column_inj [of n m] n m 2(2) by simp
  qed
qed

section \<open>Ephemeris and time\<close>

text \<open>
  The four strings are read one behind the other.  The first reads the frame number, the time of
  the frame (hours, minutes, units of 30 s) and the first components of the state vector.
\<close>

definition read_glo1 :: "u8 list \<Rightarrow> (nat, int \<times> double \<times> geph) state" where
  "read_glo1 b = do {
     frn1 \<leftarrow> rdu b 4; skip 2; P1 \<leftarrow> rdu b 2; tk_h \<leftarrow> rdu b 5; tk_m \<leftarrow> rdu b 6; tk_s \<leftarrow> rdu b 1;
     v \<leftarrow> rdg b 24; a \<leftarrow> rdg b 5; p \<leftarrow> rdg b 27; skip 4;
     State_Monad.return (frn1, of_int tk_h * 3600 + of_int tk_m * 60 + of_int (tk_s * 30),
       geph_zero\<lparr>ge_vel := [v * P2 20 * 1000, 0, 0], ge_acc := [a * P2 30 * 1000, 0, 0],
         ge_pos := [p * P2 11 * 1000, 0, 0]\<rparr>) }"

definition read_glo2 :: "u8 list \<Rightarrow> geph \<Rightarrow> (nat, int \<times> int \<times> geph) state" where
  "read_glo2 b geph = do {
     frn2 \<leftarrow> rdu b 4; svh \<leftarrow> rdu b 1; skip 2; P2' \<leftarrow> rdu b 1; tb \<leftarrow> rdu b 7; skip 5;
     v \<leftarrow> rdg b 24; a \<leftarrow> rdg b 5; p \<leftarrow> rdg b 27; skip 4;
     State_Monad.return (frn2, tb,
       geph\<lparr>ge_svh := svh, ge_vel := (ge_vel geph)[1 := v * P2 20 * 1000],
         ge_acc := (ge_acc geph)[1 := a * P2 30 * 1000], ge_pos := (ge_pos geph)[1 := p * P2 11 * 1000]\<rparr>) }"

definition read_glo3 :: "u8 list \<Rightarrow> geph \<Rightarrow> (nat, int \<times> geph) state" where
  "read_glo3 b geph = do {
     frn3 \<leftarrow> rdu b 4; P3 \<leftarrow> rdu b 1; gamn \<leftarrow> rdg b 11; skip 1; P \<leftarrow> rdu b 2; ln \<leftarrow> rdu b 1;
     v \<leftarrow> rdg b 24; a \<leftarrow> rdg b 5; p \<leftarrow> rdg b 27; skip 4;
     State_Monad.return (frn3,
       geph\<lparr>ge_gamn := gamn * P2 40, ge_vel := (ge_vel geph)[2 := v * P2 20 * 1000],
         ge_acc := (ge_acc geph)[2 := a * P2 30 * 1000], ge_pos := (ge_pos geph)[2 := p * P2 11 * 1000]\<rparr>) }"

definition read_glo4 :: "u8 list \<Rightarrow> geph \<Rightarrow> (nat, int \<times> int \<times> geph) state" where
  "read_glo4 b geph = do {
     frn4 \<leftarrow> rdu b 4; taun \<leftarrow> rdg b 22; dtaun \<leftarrow> rdg b 5; age \<leftarrow> rdu b 5; skip 14; P4 \<leftarrow> rdu b 1;
     sva \<leftarrow> rdu b 4; skip 3; NT \<leftarrow> rdu b 11; slot \<leftarrow> rdu b 5; M \<leftarrow> rdu b 2;
     State_Monad.return (frn4, slot,
       geph\<lparr>ge_taun := taun * P2 30, ge_dtaun := dtaun * P2 30, ge_age := age, ge_sva := sva\<rparr>) }"

definition read_glostr :: "u8 list \<Rightarrow> (nat, int list \<times> double \<times> int \<times> int \<times> geph) state" where
  "read_glostr b = do {
     (frn1, tk, geph) \<leftarrow> read_glo1 b; (frn2, tb, geph) \<leftarrow> read_glo2 b geph;
     (frn3, geph) \<leftarrow> read_glo3 b geph; (frn4, slot, geph) \<leftarrow> read_glo4 b geph;
     State_Monad.return ([frn1, frn2, frn3, frn4], tk, tb, slot, geph) }"

definition decode_glostr_eph :: "u8 list \<Rightarrow> geph \<Rightarrow> geph option" where
  "decode_glostr_eph buff geph =
    (let (frn, tk, tb, slot, g) = fst (run_state (read_glostr buff) 1);
         sat = satno SYS_GLO slot
     in if frn \<noteq> [1, 2, 3, 4] then None
        else if sat = 0 then None
        else let (tow, week) = time2gpst (gpst2utc (ge_tof geph));
                 tod = fmod tow 86400;
                 tow = tow - tod;
                 tof = near_day tod (tk - 10800);
                 toe = near_day tod (of_int tb * 900 - 10800)
             in Some (g\<lparr>ge_sat := sat, ge_frq := 0, ge_iode := tb,
                  ge_tof := utc2gpst (gpst2time week (tow + tof)),
                  ge_toe := utc2gpst (gpst2time week (tow + toe))\<rparr>))"

definition decode_glostr_utc :: "u8 list \<Rightarrow> double list \<Rightarrow> double list option" where
  "decode_glostr_utc buff utc =
    (let i = 1 + 80 * 4 in
     if getu buff i 4 \<noteq> 5 then None
     else let i = i + 4 + 11 in
       Some (put_at ([(0, of_int (getbits buff i 32) * P2 31),
         (1, of_int (getbits buff (i + 32 + 1 + 6) 22) * P2 30)] @ map (\<lambda>k. (k, 0)) [2..<8]) utc))"

definition decode_glostr :: "u8 list \<Rightarrow> geph option \<Rightarrow> double list option \<Rightarrow>
    int \<times> geph option \<times> double list option" where
  "decode_glostr buff geph utc =
    (case out (decode_glostr_eph buff) geph of None \<Rightarrow> (0, geph, utc) | Some geph \<Rightarrow>
      (case out (decode_glostr_utc buff) utc of None \<Rightarrow> (0, geph, utc) | Some utc \<Rightarrow> (1, geph, utc)))"

end
