(* ===== verification/RawGps.thy ===== *)
theory RawGps
  imports RawNav
begin

text \<open>
  GPS and QZSS navigation data of \<^verbatim>\<open>rcvraw.c\<close>: the five subframes without parity bits.  The
  ephemeris is in subframes 1 to 3; subframes 4 and 5 are pages of the almanac, the ionosphere and
  the time parameters.
\<close>

section \<open>Almanac\<close>

record alm =
  al_sat :: int
  al_svh :: int
  al_svconf :: int
  al_week :: int
  al_toa :: gtime
  al_A :: double
  al_e :: double
  al_i0 :: double
  al_OMG0 :: double
  al_omg :: double
  al_M0 :: double
  al_OMGd :: double
  al_toas :: double
  al_f0 :: double
  al_f1 :: double

definition alm_zero :: alm where
  "alm_zero = \<lparr>al_sat = 0, al_svh = 0, al_svconf = 0, al_week = 0, al_toa = time0, al_A = 0, al_e = 0,
     al_i0 = 0, al_OMG0 = 0, al_omg = 0, al_M0 = 0, al_OMGd = 0, al_toas = 0, al_f0 = 0, al_f1 = 0\<rparr>"

section \<open>Ephemeris\<close>

definition read_sf1 :: "u8 list \<Rightarrow> (nat, double \<times> int \<times> int \<times> int \<times> double \<times> eph) state" where
  "read_sf1 b = do {
     tow1 \<leftarrow> rdu b 17; skip 2; id1 \<leftarrow> rdu b 3; skip 2; week \<leftarrow> rdu b 10; code \<leftarrow> rdu b 2; sva \<leftarrow> rdu b 4;
     svh \<leftarrow> rdu b 6; iodc0 \<leftarrow> rdu b 2; flag \<leftarrow> rdu b 1; skip 87; tgd \<leftarrow> rds b 8; iodc1 \<leftarrow> rdu b 8;
     toc \<leftarrow> rdu b 16; f2 \<leftarrow> rds b 8; f1 \<leftarrow> rds b 16; f0 \<leftarrow> rds b 22;
     State_Monad.return (of_int tow1 * 6, id1, week, tgd, of_int toc * 16,
       eph_zero\<lparr>eph_code := code, eph_sva := sva, eph_svh := svh, eph_flag := flag,
         eph_iodc := push_bit 8 iodc0 + iodc1, eph_f2 := of_int f2 * P2 55, eph_f1 := of_int f1 * P2 43,
         eph_f0 := of_int f0 * P2 31\<rparr>) }"

definition read_sf2 :: "u8 list \<Rightarrow> eph \<Rightarrow> (nat, int \<times> double \<times> eph) state" where
  "read_sf2 b eph = do {
     tow2 \<leftarrow> rdu b 17; skip 2; id2 \<leftarrow> rdu b 3; skip 2; iode \<leftarrow> rdu b 8; crs \<leftarrow> rds b 16; deln \<leftarrow> rds b 16;
     M0 \<leftarrow> rds b 32; cuc \<leftarrow> rds b 16; e \<leftarrow> rdu b 32; cus \<leftarrow> rds b 16; sqrtA \<leftarrow> rdu b 32; toes \<leftarrow> rdu b 16;
     fit \<leftarrow> rdu b 1;
     State_Monad.return (id2, of_int sqrtA * P2 19,
       eph\<lparr>eph_iode := iode, eph_crs := of_int crs * P2 5, eph_deln := of_int deln * P2 43 * SC2RAD,
         eph_M0 := of_int M0 * P2 31 * SC2RAD, eph_cuc := of_int cuc * P2 29, eph_e := of_int e * P2 33,
         eph_cus := of_int cus * P2 29, eph_toes := of_int toes * 16,
         eph_fit := (if fit \<noteq> 0 then 0 else 4)\<rparr>) }"

definition read_sf3 :: "u8 list \<Rightarrow> eph \<Rightarrow> (nat, int \<times> int \<times> eph) state" where
  "read_sf3 b eph = do {
     tow3 \<leftarrow> rdu b 17; skip 2; id3 \<leftarrow> rdu b 3; skip 2; cic \<leftarrow> rds b 16; OMG0 \<leftarrow> rds b 32; cis \<leftarrow> rds b 16;
     i0 \<leftarrow> rds b 32; crc \<leftarrow> rds b 16; omg \<leftarrow> rds b 32; OMGd \<leftarrow> rds b 24; iode \<leftarrow> rdu b 8; idot \<leftarrow> rds b 14;
     State_Monad.return (id3, iode,
       eph\<lparr>eph_cic := of_int cic * P2 29, eph_OMG0 := of_int OMG0 * P2 31 * SC2RAD,
         eph_cis := of_int cis * P2 29, eph_i0 := of_int i0 * P2 31 * SC2RAD, eph_crc := of_int crc * P2 5,
         eph_omg := of_int omg * P2 31 * SC2RAD, eph_OMGd := of_int OMGd * P2 43 * SC2RAD,
         eph_idot := of_int idot * P2 43 * SC2RAD\<rparr>) }"

definition decode_frame_eph :: "env \<Rightarrow> u8 list \<Rightarrow> eph \<Rightarrow> eph option" where
  "decode_frame_eph e buff eph =
    (let (tow1, id1, week, tgd, toc, g) = fst (run_state (read_sf1 buff) (240 * 0 + 24));
         (id2, sqrtA, g) = fst (run_state (read_sf2 buff g) (240 * 1 + 24));
         (id3, iode, g) = fst (run_state (read_sf3 buff g) (240 * 2 + 24));
         g = g\<lparr>eph_A := sqrtA * sqrtA,
               eph_tgd := (eph_tgd g)[0 := (if tgd = -128 then 0 else of_int tgd * P2 31)]\<rparr>
     in if id1 \<noteq> 1 \<or> id2 \<noteq> 2 \<or> id3 \<noteq> 3 then None
        else if iode \<noteq> eph_iode g \<or> iode \<noteq> eph_iodc g AND 0xFF then None
        else let week = adjgpsweek (now e) week;
                 ttr = gpst2time week tow1;
                 week = (if eph_toes g < tow1 - 302400 then week + 1
                         else if eph_toes g > tow1 + 302400 then week - 1 else week)
             in Some (g\<lparr>eph_week := week, eph_ttr := ttr, eph_toe := gpst2time week (eph_toes g),
                  eph_toc := gpst2time week toc\<rparr>))"

section \<open>Almanac pages\<close>

definition decode_alm_sat :: "u8 list \<Rightarrow> int \<Rightarrow> alm \<Rightarrow> alm" where
  "decode_alm_sat buff type alm =
    (let e_ref = (if type = 0 then 0 else if type = 1 then 0.06 else 0);
         i_ref = (if type = 0 then 0.3 else if type = 1 then 0.25 else 0)
     in fst (run_state (do {
       e \<leftarrow> rds buff 16; toas \<leftarrow> rdu buff 8; deltai \<leftarrow> rds buff 16; OMGd \<leftarrow> rds buff 16; svh \<leftarrow> rdu buff 8;
       sqrtA \<leftarrow> rdu buff 24; OMG0 \<leftarrow> rds buff 24; omg \<leftarrow> rds buff 24; M0 \<leftarrow> rds buff 24; f0 \<leftarrow> rds buff 8;
       f1 \<leftarrow> rds buff 11; f0' \<leftarrow> rdu buff 3;
       State_Monad.return (alm\<lparr>al_e := of_int e * P2 21 + e_ref, al_toas := of_int toas * 4096,
         al_OMGd := of_int OMGd * P2 38 * SC2RAD, al_svh := svh, al_OMG0 := of_int OMG0 * P2 23 * SC2RAD,
         al_omg := of_int omg * P2 23 * SC2RAD, al_M0 := of_int M0 * P2 23 * SC2RAD,
         al_f1 := of_int f1 * P2 38, al_f0 := of_int f0' * P2 17 + of_int f0 * P2 20,
         al_A := (of_int sqrtA * P2 11) * (of_int sqrtA * P2 11),
         al_i0 := (i_ref + of_int deltai * P2 19) * SC2RAD, al_week := 0, al_toa := time0\<rparr>) }) 50))"

text \<open>\<^verbatim>\<open>alm[k]=...\<close>, for an index computed as an int.\<close>

definition alm_upd :: "int \<Rightarrow> (alm \<Rightarrow> alm) \<Rightarrow> alm list \<Rightarrow> alm list" where
  "alm_upd k f alm = alm[nat k := f (alm ! nat k)]"

text \<open>The satellite is noted in its own entry, its almanac is written to the next one.\<close>

definition alm_store :: "u8 list \<Rightarrow> int \<Rightarrow> int \<Rightarrow> alm list \<Rightarrow> alm list" where
  "alm_store buff sat type alm =
    alm_upd sat (decode_alm_sat buff type) (alm_upd (sat - 1) (\<lambda>a. a\<lparr>al_sat := sat\<rparr>) alm)"

text \<open>Health of \<open>n\<close> satellites from \<open>prn\<close> on, six bits each from position \<open>i\<close>.\<close>

definition alm_health :: "u8 list \<Rightarrow> int \<Rightarrow> int \<Rightarrow> nat \<Rightarrow> nat \<Rightarrow> alm list \<Rightarrow> alm list" where
  "alm_health buff sys prn n i alm =
    fold (\<lambda>j alm. let sat = satno sys (prn + int j) in
            if sat = 0 then alm
            else alm_upd (sat - 1) (\<lambda>a. a\<lparr>al_svh := getu buff (i + 6 * j) 6\<rparr>) alm) [0..<n] alm"

text \<open>Reference week of \<open>n\<close> satellites from \<open>prn\<close> on whose reference time is the one of the page.\<close>

definition alm_weeks :: "env \<Rightarrow> int \<Rightarrow> int \<Rightarrow> int \<Rightarrow> int \<Rightarrow> nat \<Rightarrow> alm list \<Rightarrow> alm list" where
  "alm_weeks e toas week sys prn n alm =
    fold (\<lambda>j alm. let sat = satno sys (prn + int j) in
            if sat = 0 \<or> al_sat (alm ! nat (sat - 1)) \<noteq> sat \<or> al_toas (alm ! nat (sat - 1)) \<noteq> of_int toas
            then alm
            else alm_upd (sat - 1) (\<lambda>a. a\<lparr>al_week := adjgpsweek (now e) week,
                   al_toa := gpst2time (adjgpsweek (now e) week) (of_int toas)\<rparr>) alm) [0..<n] alm"

definition decode_alm_gps :: "env \<Rightarrow> u8 list \<Rightarrow> int \<Rightarrow> alm list \<Rightarrow> alm list \<times> int" where
  "decode_alm_gps e buff frm alm =
    (let svid = getu buff 50 6 in
     if frm = 5 \<and> 1 \<le> svid \<and> svid \<le> 24 \<or> frm = 4 \<and> 25 \<le> svid \<and> svid \<le> 32
     then let sat = satno SYS_GPS svid in
       if sat = 0 then (alm, 0) else (alm_store buff sat 0 alm, 1)
     else if frm = 5 \<and> svid = 51
     then (alm_weeks e (getu buff 56 8 * 4096) (getu buff 64 8) SYS_GPS 1 32
             (alm_health buff SYS_GPS 1 24 72 alm), 1)
     else if frm = 4 \<and> svid = 63 then (alm_health buff SYS_GPS 25 8 186 alm, 1)
     else (alm, 0))"

definition decode_alm_qzs :: "env \<Rightarrow> u8 list \<Rightarrow> alm list \<Rightarrow> alm list \<times> int" where
  "decode_alm_qzs e buff alm =
    (let svid = getu buff 50 6 in
     if 1 \<le> svid \<and> svid \<le> 9
     then let sat = satno SYS_QZS (192 + svid) in
       if sat = 0 then (alm, 0) else (alm_store buff sat (if svid \<le> 6 then 1 else 2) alm, 1)
     else if svid = 51
     then (alm_weeks e (getu buff 56 8 * 4096) (getu buff 64 8) SYS_QZS 193 10
             (alm_health buff SYS_QZS 193 10 72 alm), 1)
     else (alm, 0))"

text \<open>Subframes 4 and 5; the pointer moves by 30 bytes from one to the next.\<close>

definition decode_frame_alm :: "env \<Rightarrow> u8 list \<Rightarrow> alm list \<Rightarrow> alm list \<times> int" where
  "decode_frame_alm e buff alm =
    fold (\<lambda>(frm, off) (alm, ret).
            let b = drop off buff; dataid = getu b 48 2 in
            if getu b 43 3 \<noteq> frm then (alm, ret)
            else if dataid = 1 then (let (alm, r) = decode_alm_gps e b frm alm in (alm, ret OR r))
            else if dataid = 3 then (let (alm, r) = decode_alm_qzs e b alm in (alm, ret OR r))
            else (alm, ret)) [(4, 90), (5, 120)] (alm, 0)"

section \<open>Ionosphere and time\<close>

text \<open>The first of the subframes 4 and 5 with the page of the ionosphere and time parameters.\<close>

definition page18 :: "u8 list \<Rightarrow> u8 list option" where
  "page18 buff =
    (case filter (\<lambda>(frm, off). let b = drop off buff in
            \<not> (frm = 5 \<and> getu b 48 2 = 1) \<and> getu b 43 3 = frm \<and> getu b 50 6 = 56) [(4, 90), (5, 120)] of
       [] \<Rightarrow> None | (frm, off) # _ \<Rightarrow> Some (drop off buff))"

definition decode_frame_ion :: "u8 list \<Rightarrow> double list \<Rightarrow> double list option" where
  "decode_frame_ion buff ion = map_option (\<lambda>b. read_ion8 b 56 ion) (page18 buff)"

definition read_frame_utc :: "u8 list \<Rightarrow> double list \<Rightarrow> double list" where
  "read_frame_utc b utc =
    fst (run_state (do {
      a1 \<leftarrow> rds b 24; a0 \<leftarrow> rds b 32; tot \<leftarrow> rdu b 8; wnt \<leftarrow> rdu b 8; dtls \<leftarrow> rds b 8; wnlsf \<leftarrow> rdu b 8;
      dn \<leftarrow> rdu b 8; dtlsf \<leftarrow> rds b 8;
      State_Monad.return (put_at [(1, of_int a1 * P2 50), (0, of_int a0 * P2 30), (2, of_int tot * 2 ^ 12),
        (3, of_int wnt), (4, of_int dtls), (5, of_int wnlsf), (6, of_int dn), (7, of_int dtlsf)] utc) }) 120)"

definition decode_frame_utc :: "u8 list \<Rightarrow> double list \<Rightarrow> double list option" where
  "decode_frame_utc buff utc = map_option (\<lambda>b. read_frame_utc b utc) (page18 buff)"

definition decode_frame ::
    "env \<Rightarrow> u8 list \<Rightarrow> eph option \<Rightarrow> alm list option \<Rightarrow> double list option \<Rightarrow> double list option \<Rightarrow>
     int \<times> eph option \<times> alm list option \<times> double list option \<times> double list option" where
  "decode_frame e buff eph alm ion utc =
    (case out (decode_frame_eph e buff) eph of None \<Rightarrow> (0, eph, alm, ion, utc) | Some eph \<Rightarrow>
       let (alm, ret) = (case alm of None \<Rightarrow> (None, 1) | Some a \<Rightarrow> apfst Some (decode_frame_alm e buff a))
       in if ret = 0 then (0, eph, alm, ion, utc)
          else (case out (decode_frame_ion buff) ion of None \<Rightarrow> (0, eph, alm, ion, utc) | Some ion \<Rightarrow>
                  (case out (decode_frame_utc buff) utc of None \<Rightarrow> (0, eph, alm, ion, utc)
                   | Some utc \<Rightarrow> (1, eph, alm, ion, utc))))"

end
