(* ===== verification/RawFacts.thy ===== *)
theory RawFacts
  imports RawBds RawGlo RawGps
begin

text \<open>
  Properties of the decoders of navigation data: fields in pieces are read as one field, the time
  of an ephemeris is the one next to its transmission (for BeiDou it is not), and the almanac of a
  GPS satellite is stored in the entry of the next one.
\<close>

section \<open>Fields in pieces\<close>

lemma to_int32_id: "- (2 ^ 31) \<le> v \<Longrightarrow> v < 2 ^ 31 \<Longrightarrow> to_int32 v = v"
  unfolding to_int32_def by (simp add: signed_of_int signed_take_bit_int_eq_self)

text \<open>A number in pieces: the bounds of the upper piece and of the whole.\<close>

lemma piece_bounds:
  fixes hi lo m M :: int
  assumes "0 \<le> lo" and "lo < 2 ^ l2" and "m \<le> hi" and "hi < M"
  shows "m * 2 ^ l2 \<le> hi * 2 ^ l2 + lo" and "hi * 2 ^ l2 + lo < M * 2 ^ l2"
proof -
  have "m * 2 ^ l2 \<le> hi * 2 ^ l2" using assms(3) by (intro mult_right_mono) simp_all
  then show "m * 2 ^ l2 \<le> hi * 2 ^ l2 + lo" using assms(1) by linarith
  have "(hi + 1) * 2 ^ l2 \<le> M * 2 ^ l2" using assms(4) by (intro mult_right_mono) simp_all
  then show "hi * 2 ^ l2 + lo < M * 2 ^ l2" using assms(2) by (simp add: algebra_simps)
qed

lemma pow_le_32: "n \<le> 32 \<Longrightarrow> (2 ^ n :: int) \<le> 2 ^ 32" and pow_le_31: "n \<le> 31 \<Longrightarrow> (2 ^ n :: int) \<le> 2 ^ 31"
  by (rule power_increasing; simp)+

lemma getbitu2_value:
  assumes "l1 + l2 \<le> 32"
  shows "getbitu2 b p1 l1 p2 l2 = getu b p1 l1 * 2 ^ l2 + getu b p2 l2"
proof -
  have "getu b p1 l1 < 2 ^ l1" "getu b p2 l2 < 2 ^ l2" using assms by (simp_all add: getu_less)
  note p = piece_bounds [OF getu_nonneg this(2) getu_nonneg this(1)]
  have "(2 :: int) ^ l1 * 2 ^ l2 \<le> 2 ^ 32" unfolding power_add [symmetric] using assms by (rule pow_le_32)
  then show ?thesis unfolding getbitu2_def using p by (intro mod_pos_pos_trivial) simp_all
qed

lemma getbitu3_value:
  assumes "l1 + l2 + l3 \<le> 32"
  shows "getbitu3 b p1 l1 p2 l2 p3 l3 = (getu b p1 l1 * 2 ^ l2 + getu b p2 l2) * 2 ^ l3 + getu b p3 l3"
proof -
  have "getu b p1 l1 < 2 ^ l1" "getu b p2 l2 < 2 ^ l2" "getu b p3 l3 < 2 ^ l3"
    using assms by (simp_all add: getu_less)
  note q = piece_bounds [OF getu_nonneg this(2) getu_nonneg this(1)] this(3)
  note p = piece_bounds [OF getu_nonneg q(3) q(1,2)]
  have "(2 :: int) ^ l1 * 2 ^ l2 * 2 ^ l3 \<le> 2 ^ 32"
    unfolding power_add [symmetric] using assms by (rule pow_le_32)
  then show ?thesis
    unfolding getbitu3_def using p
    by (subst mod_pos_pos_trivial) (simp_all add: algebra_simps power_add)
qed

text \<open>The sign of a field is its first bit.\<close>

lemma getbits_sign:
  assumes "0 < n" and "n \<le> 32"
  shows "getu b pos 1 \<noteq> 0 \<longleftrightarrow> getbits b pos n < 0" and "getu b pos 1 = 0 \<Longrightarrow> getbits b pos n = getu b pos n"
proof -
  have top: "getu b pos 1 \<noteq> 0 \<longleftrightarrow> bit (getu b pos n) (n - 1)"
    using getbitu_Suc [of b pos 0] bit_getbitu [OF assms(2), of b pos "n - 1"] assms
    by (auto simp: getu_def bit_uint_iff)
  have s: "getbits b pos n = signed_take_bit (n - 1) (getu b pos n)" using assms by (rule getbits_signed)
  show "getu b pos 1 \<noteq> 0 \<longleftrightarrow> getbits b pos n < 0" unfolding top s by (simp add: signed_take_bit_negative_iff)
  assume "getu b pos 1 = 0"
  then have not: "\<not> bit (getu b pos n) (n - 1)" using top by blast
  have "take_bit n (getu b pos n) = getu b pos n"
    using getu_less [OF assms(2)] by (simp add: take_bit_int_eq_self)
  then have "bit (getu b pos n) k \<Longrightarrow> k < n" for k by (metis bit_take_bit_iff)
  then have "take_bit (n - 1) (getu b pos n) = getu b pos n"
    using not by (intro bit_eqI) (metis One_nat_def Suc_pred assms(1) bit_take_bit_iff less_antisym)
  then show "getbits b pos n = getu b pos n"
    unfolding s signed_take_bit_eq_if_positive [OF not] .
qed

lemma signed_pieces:
  assumes "0 < l1" and "l1 + l2 \<le> 32"
  shows "to_int32 (getbits b p1 l1 * 2 ^ l2 + getu b p2 l2) = getbits b p1 l1 * 2 ^ l2 + getu b p2 l2"
proof (rule to_int32_id)
  have "getu b p2 l2 < 2 ^ l2" using assms by (simp add: getu_less)
  moreover have "- (2 ^ (l1 - 1)) \<le> getbits b p1 l1" "getbits b p1 l1 < 2 ^ (l1 - 1)"
    using getbits_bounds [of l1 b p1] assms by simp_all
  ultimately have p: "- (2 ^ (l1 - 1)) * 2 ^ l2 \<le> getbits b p1 l1 * 2 ^ l2 + getu b p2 l2"
      "getbits b p1 l1 * 2 ^ l2 + getu b p2 l2 < 2 ^ (l1 - 1) * 2 ^ l2"
    using piece_bounds [OF getu_nonneg] by blast+
  have "(2 :: int) ^ (l1 - 1) * 2 ^ l2 \<le> 2 ^ 31"
    unfolding power_add [symmetric] using assms by (intro pow_le_31) simp
  then show "- (2 ^ 31) \<le> getbits b p1 l1 * 2 ^ l2 + getu b p2 l2"
    "getbits b p1 l1 * 2 ^ l2 + getu b p2 l2 < 2 ^ 31" using p by linarith+
qed

text \<open>A signed field in pieces has the sign of its first piece.\<close>

lemma getbits2_value:
  assumes "0 < l1" and "l1 + l2 \<le> 32"
  shows "getbits2 b p1 l1 p2 l2 = getbits b p1 l1 * 2 ^ l2 + getu b p2 l2"
proof (cases "getu b p1 1 = 0")
  case True
  have e: "getu b p1 l1 = getbits b p1 l1" using getbits_sign(2) [OF _ _ True] assms by simp
  show ?thesis using True signed_pieces [OF assms] unfolding getbits2_def getbitu2_value [OF assms(2)] e by simp
qed (simp add: getbits2_def signed_pieces [OF assms])

lemma getbits3_value:
  assumes "0 < l1" and "l1 + l2 + l3 \<le> 32"
  shows "getbits3 b p1 l1 p2 l2 p3 l3 = (getbits b p1 l1 * 2 ^ l2 + getu b p2 l2) * 2 ^ l3 + getu b p3 l3"
    (is "_ = ?v")
proof -
  have u: "getu b p2 l2 < 2 ^ l2" "getu b p3 l3 < 2 ^ l3" using assms by (simp_all add: getu_less)
  have "- (2 ^ (l1 - 1)) \<le> getbits b p1 l1" "getbits b p1 l1 < 2 ^ (l1 - 1)"
    using getbits_bounds [of l1 b p1] assms by simp_all
  note p = piece_bounds [OF getu_nonneg u(2) piece_bounds [OF getu_nonneg u(1) this]]
  have "(2 :: int) ^ (l1 - 1) * 2 ^ l2 * 2 ^ l3 \<le> 2 ^ 31"
    unfolding power_add [symmetric] using assms by (intro pow_le_31) simp
  then have id: "to_int32 ?v = ?v" using p by (intro to_int32_id) linarith+
  show ?thesis
  proof (cases "getu b p1 1 = 0")
    case True
    have e: "getu b p1 l1 = getbits b p1 l1" using getbits_sign(2) [OF _ _ True] assms by simp
    show ?thesis using True id unfolding getbits3_def getbitu3_value [OF assms(2)] e by simp
  next
    case False
    then show ?thesis using id by (simp add: getbits3_def power_add algebra_simps)
  qed
qed

text \<open>What a sender writes: the value cut into pieces from its high end, at disjoint places.\<close>

definition set2 :: "u8 list \<Rightarrow> nat \<Rightarrow> nat \<Rightarrow> nat \<Rightarrow> nat \<Rightarrow> int \<Rightarrow> u8 list" where
  "set2 b p1 l1 p2 l2 v = setu (setbits b p1 l1 (v div 2 ^ l2)) p2 l2 (v mod 2 ^ l2)"

definition set3 :: "u8 list \<Rightarrow> nat \<Rightarrow> nat \<Rightarrow> nat \<Rightarrow> nat \<Rightarrow> nat \<Rightarrow> nat \<Rightarrow> int \<Rightarrow> u8 list" where
  "set3 b p1 l1 p2 l2 p3 l3 v = setu (set2 b p1 l1 p2 l2 (v div 2 ^ l3)) p3 l3 (v mod 2 ^ l3)"

lemma div_bounds:
  assumes "- (2 ^ (k + l)) \<le> v" and "v < (2 :: int) ^ (k + l)"
  shows "- (2 ^ k) \<le> v div 2 ^ l" and "v div 2 ^ l < 2 ^ k"
proof -
  have "- (2 ^ k) * 2 ^ l \<le> v" using assms(1) by (simp add: power_add)
  then have "- (2 ^ k) * 2 ^ l div 2 ^ l \<le> v div 2 ^ l" by (rule zdiv_mono1) simp
  then show "- (2 ^ k) \<le> v div 2 ^ l" by (simp del: mult_minus_left)
  have "0 \<le> v mod 2 ^ l" by simp
  then have "v div 2 ^ l * 2 ^ l \<le> v" using div_mult_mod_eq [of v "2 ^ l"] by linarith
  then have "v div 2 ^ l * 2 ^ l < 2 ^ k * 2 ^ l" using assms(2) unfolding power_add by (rule le_less_trans)
  then show "v div 2 ^ l < 2 ^ k" by (rule mult_right_less_imp_less) simp
qed

lemma getbits2_set2:
  assumes "0 < l1" and "l1 + l2 \<le> 32" and "p1 + l1 \<le> 8 * length b" and "p2 + l2 \<le> 8 * length b"
    and "p1 + l1 \<le> p2 \<or> p2 + l2 \<le> p1"
    and "- (2 ^ (l1 + l2 - 1)) \<le> v" and "v < 2 ^ (l1 + l2 - 1)"
  shows "getbits2 (set2 b p1 l1 p2 l2 v) p1 l1 p2 l2 = v"
proof -
  have "l1 + l2 - 1 = (l1 - 1) + l2" using assms(1) by simp
  note d = div_bounds [OF assms(6,7) [unfolded this]]
  have "getbits (set2 b p1 l1 p2 l2 v) p1 l1 = v div 2 ^ l2"
    using assms d unfolding set2_def
    by (subst getbits_setu_other) (auto intro: getbits_setbits_in_range)
  moreover have "getu (set2 b p1 l1 p2 l2 v) p2 l2 = v mod 2 ^ l2"
    using assms unfolding set2_def by (subst getu_setu_same) simp_all
  ultimately show ?thesis unfolding getbits2_value [OF assms(1,2)] by (simp add: div_mult_mod_eq)
qed

lemma getbits3_set3:
  assumes "0 < l1" and "l1 + l2 + l3 \<le> 32" and "p1 + l1 \<le> 8 * length b" and "p2 + l2 \<le> 8 * length b"
    and "p3 + l3 \<le> 8 * length b" and "p1 + l1 \<le> p2 \<or> p2 + l2 \<le> p1"
    and "p1 + l1 \<le> p3 \<or> p3 + l3 \<le> p1" and "p2 + l2 \<le> p3 \<or> p3 + l3 \<le> p2"
    and "- (2 ^ (l1 + l2 + l3 - 1)) \<le> v" and "v < 2 ^ (l1 + l2 + l3 - 1)"
  shows "getbits3 (set3 b p1 l1 p2 l2 p3 l3 v) p1 l1 p2 l2 p3 l3 = v"
proof -
  let ?b = "set3 b p1 l1 p2 l2 p3 l3 v" and ?c = "set2 b p1 l1 p2 l2 (v div 2 ^ l3)"
  have "l1 + l2 + l3 - 1 = (l1 + l2 - 1) + l3" using assms(1) by simp
  note d = div_bounds [OF assms(9,10) [unfolded this]]
  have "getbits2 ?c p1 l1 p2 l2 = v div 2 ^ l3"
    using assms d by (intro getbits2_set2) simp_all
  moreover have "getbits ?b p1 l1 = getbits ?c p1 l1" "getu ?b p2 l2 = getu ?c p2 l2"
    using assms(7,8) unfolding set3_def by (auto intro: getbits_setu_other getu_setu_other)
  moreover have "getu ?b p3 l3 = v mod 2 ^ l3"
    using assms(2,5) unfolding set3_def by (subst getu_setu_same) (simp_all add: set2_def)
  ultimately show ?thesis
    using getbits2_value [of l1 l2 ?c p1 p2] assms(1,2)
    unfolding getbits3_value [OF assms(1,2)] by (simp add: div_mult_mod_eq)
qed

section \<open>The week of an ephemeris\<close>

lemma tval_gst2time:
  "-1000000000 \<le> s \<Longrightarrow> s \<le> 1000000000 \<Longrightarrow> tval (gst2time w s) = 935280000 + 604800 * of_int w + s"
  by (simp add: tval_def gst2time_def Let_def)

lemma tval_bdt2time:
  "-1000000000 \<le> s \<Longrightarrow> s \<le> 1000000000 \<Longrightarrow> tval (bdt2time w s) = 1136073600 + 604800 * of_int w + s"
  by (simp add: tval_def bdt2time_def Let_def)

lemma tval_bdt2gpst: "tval (bdt2gpst t) = tval t + 14"
  by (simp add: bdt2gpst_def)

text \<open>Two times of week, the week of the first moved to the one next to the second.\<close>

lemma half_week:
  fixes toes tow :: real
  assumes "0 \<le> toes" and "toes < 604800" and "0 \<le> tow" and "tow < 604800"
    and "w' = (if toes < tow - 302400 then w + 1 else if toes > tow + 302400 then w - 1 else w)"
  shows "\<bar>timediff (gpst2time w' toes) (gpst2time w tow)\<bar> \<le> 302400"
  using assms by (auto simp: timediff_tval tval_gpst2time split: if_split_asm)

text \<open>The time of week of subframe 1 and the reference time of subframe 2.\<close>

lemma sf1_tow: "fst (run_state (read_sf1 b) i) = (tow, x) \<Longrightarrow> tow = of_int (getu b i 17) * 6"
  and sf2_toes: "fst (run_state (read_sf2 b g) i) = (id2, sqrtA, g') \<Longrightarrow>
    eph_toes g' = of_int (getu b (192 + i) 16) * 16"
  and sf3_toes: "fst (run_state (read_sf3 b g) i) = (id3, iode, g') \<Longrightarrow> eph_toes g' = eph_toes g"
  by (auto simp: read_sf1_def read_sf2_def read_sf3_def)

lemma decode_frame_eph_times:
  assumes "decode_frame_eph e buff eph = Some g"
  obtains w where "eph_week g = (if eph_toes g < of_int (getu buff 24 17) * 6 - 302400 then w + 1
      else if eph_toes g > of_int (getu buff 24 17) * 6 + 302400 then w - 1 else w)"
    and "eph_toe g = gpst2time (eph_week g) (eph_toes g)"
    and "eph_ttr g = gpst2time w (of_int (getu buff 24 17) * 6)" and "0 \<le> eph_toes g"
  using assms unfolding decode_frame_eph_def Let_def
  by (auto split: prod.splits if_split_asm dest!: sf1_tow sf2_toes sf3_toes)

lemma decode_frame_week:
  assumes "decode_frame_eph e buff eph = Some g" and "getu buff 24 17 < 100800" and "eph_toes g < 604800"
  shows "\<bar>timediff (eph_toe g) (eph_ttr g)\<bar> \<le> 302400"
proof -
  obtain w where w: "eph_week g = (if eph_toes g < of_int (getu buff 24 17) * 6 - 302400 then w + 1
      else if eph_toes g > of_int (getu buff 24 17) * 6 + 302400 then w - 1 else w)"
    and t: "eph_toe g = gpst2time (eph_week g) (eph_toes g)" "eph_ttr g = gpst2time w (of_int (getu buff 24 17) * 6)"
    and s: "0 \<le> eph_toes g"
    using assms(1) by (rule decode_frame_eph_times)
  have "real_of_int (getu buff 24 17) < 100800" using assms(2) by (simp only: of_int_less_numeral_iff)
  then show ?thesis unfolding t by (intro half_week [OF s assms(3) _ _ w]) simp_all
qed

lemma irn1_tow: "fst (run_state (read_irn1 b) i) = (tow, x) \<Longrightarrow> tow = of_int (getu b i 17) * 12"
  and irn2_toes: "fst (run_state (read_irn2 b g) i) = (tow2, id2, sqrtA, g') \<Longrightarrow> 0 \<le> eph_toes g'"
  by (auto simp: read_irn1_def read_irn2_def)

lemma decode_irn_times:
  assumes "decode_irn_eph e buff eph = Some g"
  obtains w where "w = (if of_int (getu buff 8 17) * 12 < eph_toes g - 302400 then eph_week g + 1
      else if of_int (getu buff 8 17) * 12 > eph_toes g + 302400 then eph_week g - 1 else eph_week g)"
    and "eph_toe g = gpst2time (eph_week g) (eph_toes g)"
    and "eph_ttr g = gpst2time w (of_int (getu buff 8 17) * 12)" and "0 \<le> eph_toes g"
  using assms unfolding decode_irn_eph_def Let_def
  by (auto split: prod.splits if_split_asm dest!: irn1_tow irn2_toes)

lemma decode_irn_week:
  assumes "decode_irn_eph e buff eph = Some g" and "getu buff 8 17 < 50400" and "eph_toes g < 604800"
  shows "\<bar>timediff (eph_toe g) (eph_ttr g)\<bar> \<le> 302400"
proof -
  obtain w where w: "w = (if of_int (getu buff 8 17) * 12 < eph_toes g - 302400 then eph_week g + 1
      else if of_int (getu buff 8 17) * 12 > eph_toes g + 302400 then eph_week g - 1 else eph_week g)"
    and t: "eph_toe g = gpst2time (eph_week g) (eph_toes g)" "eph_ttr g = gpst2time w (of_int (getu buff 8 17) * 12)"
    and s: "0 \<le> eph_toes g"
    using assms(1) by (rule decode_irn_times)
  have "real_of_int (getu buff 8 17) < 50400" using assms(2) by (simp only: of_int_less_numeral_iff)
  then have "\<bar>timediff (eph_ttr g) (eph_toe g)\<bar> \<le> 302400"
    unfolding t by (intro half_week [OF _ _ s assms(3) w]) simp_all
  then show ?thesis by (simp add: timediff_tval abs_minus_commute)
qed

lemma gal_times_week:
  assumes "0 \<le> eph_toes g" and "eph_toes g < 604800" and "0 \<le> tow" and "tow < 604800"
  shows "\<bar>timediff (eph_toe (gal_times week tow toc g)) (eph_ttr (gal_times week tow toc g))\<bar> \<le> 302400"
proof -
  have "real_of_int tow < 604800" using assms(4) by (simp only: of_int_less_numeral_iff)
  then show ?thesis
    using assms(1-3) by (auto simp: gal_times_def Let_def timediff_tval tval_gst2time)
qed

lemma gal_times_toes [simp]: "eph_toes (gal_times week tow toc g) = eph_toes g"
  by (simp add: gal_times_def Let_def)

lemma inav1_toes: "fst (run_state (read_inav1 b g) i) = (t, iod, sqrtA, g') \<Longrightarrow> 0 \<le> eph_toes g'"
  and inav2_toes: "fst (run_state (read_inav2 b g) i) = (t, iod, g') \<Longrightarrow> eph_toes g' = eph_toes g"
  and inav3_toes: "fst (run_state (read_inav3 b g) i) = (t, iod, g') \<Longrightarrow> eph_toes g' = eph_toes g"
  and inav4_toes: "fst (run_state (read_inav4 b g) i) = (t, iod, svid, toc, g') \<Longrightarrow> eph_toes g' = eph_toes g"
  and inav5_toes: "fst (run_state (read_inav5 b g) i) = (t, h, week, tow, g') \<Longrightarrow>
    eph_toes g' = eph_toes g \<and> tow = getu b (85 + i) 20"
  by (auto simp: read_inav1_def read_inav2_def read_inav3_def read_inav4_def read_inav5_def)

lemma decode_inav_week:
  assumes "decode_gal_inav_eph buff eph = Some g" and "getu buff 725 20 < 604800" and "eph_toes g < 604800"
  shows "\<bar>timediff (eph_toe g) (eph_ttr g)\<bar> \<le> 302400"
  using assms unfolding decode_gal_inav_eph_def Let_def
  by (auto split: prod.splits if_split_asm simp del: One_nat_def intro!: gal_times_week
      dest!: inav1_toes inav2_toes inav3_toes inav4_toes inav5_toes)

lemma fnav1_tow: "fst (run_state (read_fnav1 b g) i) = (t, svid, iod, toc, hs, dvs, week, tow, g') \<Longrightarrow>
    tow = getu b (167 + i) 20"
  and fnav3_toes: "fst (run_state (read_fnav3 b g) i) = (t, iod, g') \<Longrightarrow> 0 \<le> eph_toes g'"
  and fnav4_toes: "fst (run_state (read_fnav4 b g) i) = (t, iod, g') \<Longrightarrow> eph_toes g' = eph_toes g"
  by (auto simp: read_fnav1_def read_fnav3_def read_fnav4_def)

lemma decode_fnav_week:
  assumes "decode_gal_fnav_eph buff eph = Some g" and "getu buff 167 20 < 604800" and "eph_toes g < 604800"
  shows "\<bar>timediff (eph_toe g) (eph_ttr g)\<bar> \<le> 302400"
  using assms unfolding decode_gal_fnav_eph_def Let_def
  by (auto split: prod.splits if_split_asm simp del: One_nat_def intro!: gal_times_week
      dest!: fnav1_tow fnav3_toes fnav4_toes)

text \<open>
  The decoders of BeiDou move the week the other way: an ephemeris whose time is in the other week
  than its transmission gets a time more than ten days away from it.
\<close>

lemma bds_times_week:
  assumes "0 \<le> eph_toes g" and "eph_toes g < 604800" and "0 \<le> sow" and "sow < 604800"
  shows "\<bar>eph_toes g - of_int sow\<bar> \<le> 302400 \<Longrightarrow>
      timediff (eph_toe (bds_times sow toc flag g)) (eph_ttr (bds_times sow toc flag g)) = eph_toes g - of_int sow"
    and "302400 < \<bar>eph_toes g - of_int sow\<bar> \<Longrightarrow>
      907200 < \<bar>timediff (eph_toe (bds_times sow toc flag g)) (eph_ttr (bds_times sow toc flag g))\<bar>"
proof -
  have "real_of_int sow < 604800" using assms(4) by (simp only: of_int_less_numeral_iff)
  note b = this assms(1-3)
  show "\<bar>eph_toes g - of_int sow\<bar> \<le> 302400 \<Longrightarrow>
      timediff (eph_toe (bds_times sow toc flag g)) (eph_ttr (bds_times sow toc flag g)) = eph_toes g - of_int sow"
    using b by (auto simp: bds_times_def Let_def timediff_tval tval_bdt2gpst tval_bdt2time)
  show "302400 < \<bar>eph_toes g - of_int sow\<bar> \<Longrightarrow>
      907200 < \<bar>timediff (eph_toe (bds_times sow toc flag g)) (eph_ttr (bds_times sow toc flag g))\<bar>"
    using b by (auto simp: bds_times_def Let_def timediff_tval tval_bdt2gpst tval_bdt2time)
qed

lemma bds_times_toes [simp]: "eph_toes (bds_times sow toc flag g) = eph_toes g"
  by (simp add: bds_times_def Let_def)

lemma getbitu2_nonneg: "0 \<le> getbitu2 b p1 l1 p2 l2"
  by (simp add: getbitu2_def)

lemma bds_toes_nonneg: "0 \<le> eph_toes (bds_d1_sf3 b i toe1 g)" "0 \<le> eph_toes (bds_d2_pages b g)"
  by (simp_all add: bds_d1_sf3_def bds_d2_pages_def merge_two_u_def Let_def getbitu2_nonneg)

lemma bds_merge_toes: "eph_toes (bds_d2_merge b g) = eph_toes g"
  by (simp add: bds_d2_merge_def Let_def)

lemma decode_bds_times:
  "decode_bds_d1_eph buff eph = Some g \<Longrightarrow>
    \<exists>toc flag h. g = bds_times (bds_sow buff 0) toc flag h \<and> 0 \<le> eph_toes h"
  "decode_bds_d2_eph buff eph = Some g \<Longrightarrow>
    \<exists>toc flag h. g = bds_times (bds_sow buff 0) toc flag h \<and> 0 \<le> eph_toes h"
proof -
  assume "decode_bds_d1_eph buff eph = Some g"
  then have "g = bds_times (bds_sow buff 0) (of_int (getbitu2 buff 73 9 90 8) * 8) 1
      (bds_d1_sf3 buff 608 (getu buff 594 2) (bds_d1_sf2 buff 304 (bds_d1_sf1 buff 0 eph_zero)))"
    unfolding decode_bds_d1_eph_def Let_def by (simp split: if_split_asm)
  then show "\<exists>toc flag h. g = bds_times (bds_sow buff 0) toc flag h \<and> 0 \<le> eph_toes h"
    using bds_toes_nonneg(1) by blast
next
  assume "decode_bds_d2_eph buff eph = Some g"
  then have "g = bds_times (bds_sow buff 0) (of_int (getbitu2 buff 77 5 90 12) * 8) 2
      (bds_d2_merge buff (bds_d2_pages buff (bds_d2_page1 buff 0 eph_zero)))"
    unfolding decode_bds_d2_eph_def Let_def by (simp split: if_split_asm)
  moreover have "0 \<le> eph_toes (bds_d2_merge buff (bds_d2_pages buff (bds_d2_page1 buff 0 eph_zero)))"
    unfolding bds_merge_toes by (rule bds_toes_nonneg(2))
  ultimately show "\<exists>toc flag h. g = bds_times (bds_sow buff 0) toc flag h \<and> 0 \<le> eph_toes h" by blast
qed

lemma decode_bds_week:
  assumes "decode_bds_d1_eph buff eph = Some g \<or> decode_bds_d2_eph buff eph = Some g"
    and "bds_sow buff 0 < 604800" and "eph_toes g < 604800"
  shows "(if \<bar>eph_toes g - of_int (bds_sow buff 0)\<bar> \<le> 302400
      then \<bar>timediff (eph_toe g) (eph_ttr g)\<bar> \<le> 302400 else 907200 < \<bar>timediff (eph_toe g) (eph_ttr g)\<bar>)"
proof -
  obtain toc flag h where g: "g = bds_times (bds_sow buff 0) toc flag h" and h: "0 \<le> eph_toes h"
    using assms(1) decode_bds_times by blast
  have s: "0 \<le> bds_sow buff 0" by (simp add: bds_sow_def getbitu2_nonneg)
  show ?thesis
    using bds_times_week [OF h _ s assms(2), of toc flag] assms(3) unfolding g by simp
qed

text \<open>The almanac of a satellite goes to the entry behind its own.\<close>

lemma alm_store_entry:
  assumes "1 \<le> sat" and "nat sat < length alm"
  shows "alm_store buff sat type alm ! nat sat = decode_alm_sat buff type (alm ! nat sat)"
    and "alm_store buff sat type alm ! nat (sat - 1) = (alm ! nat (sat - 1))\<lparr>al_sat := sat\<rparr>"
  using assms by (auto simp: alm_store_def alm_upd_def nth_list_update)

end
