(* ===== verification/Sbas.thy ===== *)
theory Sbas
  imports Rtcm3Eph Crc
begin

text \<open>
  SBAS messages (\<^verbatim>\<open>sbas.c\<close>): the message buffer with its parity, the grid of the ionosphere, and the
  decoders that keep the corrections of satellites and grid points.  Every access to an array, the
  29 bytes of the message, the tables of the state and the local ones, goes through an operation that
  compares the index with the length: the result of an access outside is None.
\<close>

section \<open>State\<close>

record sbsmsg =
  sm_week :: int
  sm_tow :: int
  sm_prn :: int
  sm_msg :: "u8 list"

record sbsfcorr =
  fc_t0 :: gtime
  fc_prc :: double
  fc_rrc :: double
  fc_dt :: double
  fc_iodf :: int
  fc_udre :: int
  fc_ai :: int

record sbslcorr =
  lc_t0 :: gtime
  lc_iode :: int
  lc_dpos :: "double list"
  lc_dvel :: "double list"
  lc_daf0 :: double
  lc_daf1 :: double

record sbssatp =
  sp_sat :: int
  sp_fcorr :: sbsfcorr
  sp_lcorr :: sbslcorr

record sbssat =
  ss_iodp :: int
  ss_nsat :: nat
  ss_tlat :: int
  ss_sat :: "sbssatp list"

record sbsigp =
  ig_t0 :: gtime
  ig_lat :: int
  ig_lon :: int
  ig_give :: int
  ig_delay :: double

record sbsion =
  io_iodi :: int
  io_nigp :: nat
  io_igp :: "sbsigp list"

record seph =
  se_sat :: int
  se_t0 :: gtime
  se_tof :: gtime
  se_sva :: int
  se_svh :: int
  se_pos :: "double list"
  se_vel :: "double list"
  se_acc :: "double list"
  se_af0 :: double
  se_af1 :: double

text \<open>The members of the navigation data that SBAS uses; \<open>sn_seph\<close> is None for a null pointer.\<close>

record sbsnav =
  sn_sat :: sbssat
  sn_ion :: "sbsion list"
  sn_seph :: "seph list option"

definition MAXBAND :: int where "MAXBAND = 10"
definition MAXNIGP :: nat where "MAXNIGP = 201"

section \<open>The message\<close>

text \<open>
  The 226 bits of a message from ten words of a receiver, and its parity: the frame is shifted by
  six bits so that it fills 29 bytes.
\<close>

definition sbs_bytes :: "u32 list \<Rightarrow> u8 list" where
  "sbs_bytes words =
    map (\<lambda>k. ucast (drop_bit ((3 - k mod 4) * 8) (words ! (k div 4)))) [0..<28] @
    [ucast (drop_bit 18 (words ! 7)) AND 0xC0]"

definition sbs_frame :: "u8 list \<Rightarrow> u8 list" where
  "sbs_frame m = drop_bit 6 (m ! 0) # map (\<lambda>i. drop_bit 6 (m ! i) + push_bit 2 (m ! (i - 1))) [1..<29]"

text \<open>\<^verbatim>\<open>DTTOL\<close> is the tolerance of the build.\<close>

definition sbsdecodemsg :: "double \<Rightarrow> gtime \<Rightarrow> int \<Rightarrow> u32 list \<Rightarrow> sbsmsg \<Rightarrow> sbsmsg \<times> bool" where
  "sbsdecodemsg dttol time prn words sbsmsg =
    (if gt_time time = 0 then (sbsmsg, False)
     else let (tow, week) = time2gpst time; m = sbs_bytes words
       in (sbsmsg\<lparr>sm_week := week, sm_tow := trunc (tow + dttol), sm_prn := prn mod 256, sm_msg := m\<rparr>,
           rtk_crc24q (sbs_frame m) 29 = words ! 7 AND 0xFFFFFF))"

text \<open>The order in which the messages of a file are sorted.\<close>

definition cmpmsgs :: "sbsmsg \<Rightarrow> sbsmsg \<Rightarrow> int" where
  "cmpmsgs q1 q2 =
    (if sm_week q1 \<noteq> sm_week q2 then sm_week q1 - sm_week q2
     else if sm_tow q1 < sm_tow q2 then -1 else if sm_tow q1 > sm_tow q2 then 1
     else sm_prn q1 - sm_prn q2)"

section \<open>Access to arrays\<close>

text \<open>Fields of the message, unsigned and signed.\<close>

definition msg_u :: "sbsmsg \<Rightarrow> nat \<Rightarrow> nat \<Rightarrow> int option" where
  "msg_u msg p n = (if p + n \<le> 8 * length (sm_msg msg) then Some (getu (sm_msg msg) p n) else None)"

definition msg_s :: "sbsmsg \<Rightarrow> nat \<Rightarrow> nat \<Rightarrow> int option" where
  "msg_s msg p n = (if p + n \<le> 8 * length (sm_msg msg) then Some (getbits (sm_msg msg) p n) else None)"

text \<open>Reading an element, writing one, and a loop whose body may fail.\<close>

definition arr_get :: "'a list \<Rightarrow> int \<Rightarrow> 'a option" where
  "arr_get xs i = (if 0 \<le> i \<and> i < int (length xs) then Some (xs ! nat i) else None)"

definition arr_put :: "'a list \<Rightarrow> int \<Rightarrow> 'a \<Rightarrow> 'a list option" where
  "arr_put xs i x = (if 0 \<le> i \<and> i < int (length xs) then Some (xs[nat i := x]) else None)"

fun each :: "('i \<Rightarrow> 's \<Rightarrow> 's option) \<Rightarrow> 'i list \<Rightarrow> 's \<Rightarrow> 's option" where
  "each f [] s = Some s"
| "each f (i # is) s = do { s \<leftarrow> f i s; each f is s }"

fun collect :: "('i \<Rightarrow> 'a option) \<Rightarrow> 'i list \<Rightarrow> 'a list option" where
  "collect f [] = Some []"
| "collect f (i # is) = do { x \<leftarrow> f i; xs \<leftarrow> collect f is; Some (x # xs) }"

definition upd_sat :: "int \<Rightarrow> (sbssatp \<Rightarrow> sbssatp) \<Rightarrow> sbssat \<Rightarrow> sbssat option" where
  "upd_sat j f s = do { p \<leftarrow> arr_get (ss_sat s) j; ps \<leftarrow> arr_put (ss_sat s) j (f p); Some (s\<lparr>ss_sat := ps\<rparr>) }"

section \<open>Masks and fast corrections\<close>

definition mask_sat :: "nat \<Rightarrow> int" where
  "mask_sat i =
    (if i \<le> 37 then satno SYS_GPS (int i)
     else if i \<le> 61 then satno SYS_GLO (int i - 37)
     else if i \<le> 119 then 0
     else if i \<le> 138 then satno SYS_SBS (int i)
     else if i \<le> 182 then 0
     else if i \<le> 192 then satno SYS_SBS (int i + 10)
     else if i \<le> 202 then satno SYS_QZS (int i)
     else 0)"

definition mask_bit :: "sbsmsg \<Rightarrow> nat \<Rightarrow> nat \<times> sbssat \<Rightarrow> (nat \<times> sbssat) option" where
  "mask_bit msg i = (\<lambda>(n, s).
    if n < nat MAXSAT
    then do { v \<leftarrow> msg_u msg (13 + i) 1;
              if v \<noteq> 0 then do { s \<leftarrow> upd_sat (int n) (\<lambda>p. p\<lparr>sp_sat := mask_sat i\<rparr>) s; Some (n + 1, s) }
              else Some (n, s) }
    else Some (n, s))"

definition decode_sbstype1 :: "sbsmsg \<Rightarrow> sbssat \<Rightarrow> (sbssat \<times> int) option" where
  "decode_sbstype1 msg sbssat =
    do { (n, s) \<leftarrow> each (mask_bit msg) [1..<211] (0, sbssat);
         iodp \<leftarrow> msg_u msg 224 2;
         Some (s\<lparr>ss_iodp := iodp, ss_nsat := n\<rparr>, 1) }"

text \<open>A fast correction with the rate from the one before.\<close>

definition fast_corr :: "sbsmsg \<Rightarrow> int \<Rightarrow> int \<Rightarrow> int \<Rightarrow> sbsfcorr \<Rightarrow> sbsfcorr" where
  "fast_corr msg prc udre iodf fc =
    (let t0 = fc_t0 fc; prc0 = fc_prc fc;
         fc = fc\<lparr>fc_t0 := gpst2time (sm_week msg) (of_int (sm_tow msg)), fc_prc := of_int prc * 0.125,
                fc_udre := udre + 1\<rparr>;
         dt = timediff (fc_t0 fc) t0;
         fc = (if gt_time t0 = 0 \<or> dt \<le> 0 \<or> 18 < dt \<or> fc_ai fc = 0 then fc\<lparr>fc_rrc := 0, fc_dt := 0\<rparr>
               else fc\<lparr>fc_rrc := (fc_prc fc - prc0) / dt, fc_dt := dt\<rparr>)
     in fc\<lparr>fc_iodf := iodf\<rparr>)"

text \<open>The body of the loop of types 0 and 2 to 5; the loop ends at the first entry behind the mask.\<close>

definition fast_entry :: "sbsmsg \<Rightarrow> int \<Rightarrow> int \<Rightarrow> nat \<Rightarrow> sbssat \<Rightarrow> sbssat option" where
  "fast_entry msg j0 iodf i s =
    do { udre \<leftarrow> msg_u msg (174 + 4 * i) 4; prc \<leftarrow> msg_s msg (18 + i * 12) 12;
         upd_sat (j0 + int i) (\<lambda>p. p\<lparr>sp_fcorr := fast_corr msg prc udre iodf (sp_fcorr p)\<rparr>) s }"

definition decode_sbstype2 :: "sbsmsg \<Rightarrow> sbssat \<Rightarrow> (sbssat \<times> int) option" where
  "decode_sbstype2 msg sbssat =
    do { iodp \<leftarrow> msg_u msg 16 2;
         if ss_iodp sbssat \<noteq> iodp then Some (sbssat, 0)
         else do { type \<leftarrow> msg_u msg 8 6; iodf \<leftarrow> msg_u msg 14 2;
                   let j0 = 13 * ((if type = 0 then 2 else type) - 2);
                   s \<leftarrow> each (fast_entry msg j0 iodf) (takeWhile (\<lambda>i. j0 + int i < int (ss_nsat sbssat)) [0..<13]) sbssat;
                   Some (s, 1) } }"

definition integrity_entry :: "sbsmsg \<Rightarrow> int list \<Rightarrow> nat \<Rightarrow> sbssat \<Rightarrow> sbssat option" where
  "integrity_entry msg iodf i s =
    do { p \<leftarrow> arr_get (ss_sat s) (int i); v \<leftarrow> arr_get iodf (int (i div 13));
         if fc_iodf (sp_fcorr p) \<noteq> v then Some s
         else do { udre \<leftarrow> msg_u msg (22 + i * 4) 4;
                   upd_sat (int i) (\<lambda>p. p\<lparr>sp_fcorr := (sp_fcorr p)\<lparr>fc_udre := udre + 1\<rparr>\<rparr>) s } }"

definition decode_sbstype6 :: "sbsmsg \<Rightarrow> sbssat \<Rightarrow> (sbssat \<times> int) option" where
  "decode_sbstype6 msg sbssat =
    do { iodf \<leftarrow> collect (\<lambda>i. msg_u msg (14 + i * 2) 2) [0..<4];
         s \<leftarrow> each (integrity_entry msg iodf) [0..<min (ss_nsat sbssat) (nat MAXSAT)] sbssat;
         Some (s, 1) }"

definition degradation_entry :: "sbsmsg \<Rightarrow> nat \<Rightarrow> sbssat \<Rightarrow> sbssat option" where
  "degradation_entry msg i s =
    do { ai \<leftarrow> msg_u msg (22 + i * 4) 4;
         upd_sat (int i) (\<lambda>p. p\<lparr>sp_fcorr := (sp_fcorr p)\<lparr>fc_ai := ai\<rparr>\<rparr>) s }"

definition decode_sbstype7 :: "sbsmsg \<Rightarrow> sbssat \<Rightarrow> (sbssat \<times> int) option" where
  "decode_sbstype7 msg sbssat =
    do { iodp \<leftarrow> msg_u msg 18 2;
         if ss_iodp sbssat \<noteq> iodp then Some (sbssat, 0)
         else do { tlat \<leftarrow> msg_u msg 14 4;
                   s \<leftarrow> each (degradation_entry msg) [0..<min (ss_nsat sbssat) (nat MAXSAT)] (sbssat\<lparr>ss_tlat := tlat\<rparr>);
                   Some (s, 1) } }"

section \<open>Ephemeris of the SBAS satellite\<close>

text \<open>Seconds from the time of the message to a time of day, moved to the nearest day.\<close>

definition day_diff :: "int \<Rightarrow> int \<Rightarrow> int" where
  "day_diff tod tow =
    (let t = tod - tow smod 86400 in if t \<le> -43200 then t + 86400 else if t > 43200 then t - 86400 else t)"

definition read_seph :: "sbsmsg \<Rightarrow> int \<Rightarrow> seph option" where
  "read_seph msg sat =
    do { tod \<leftarrow> msg_u msg 22 13; sva \<leftarrow> msg_u msg 35 4;
         px \<leftarrow> msg_s msg 39 30; py \<leftarrow> msg_s msg 69 30; pz \<leftarrow> msg_s msg 99 25;
         vx \<leftarrow> msg_s msg 124 17; vy \<leftarrow> msg_s msg 141 17; vz \<leftarrow> msg_s msg 158 18;
         ax \<leftarrow> msg_s msg 176 10; ay \<leftarrow> msg_s msg 186 10; az \<leftarrow> msg_s msg 196 10;
         af0 \<leftarrow> msg_s msg 206 12; af1 \<leftarrow> msg_s msg 218 8;
         let t = day_diff (tod * 16) (sm_tow msg);
         Some \<lparr>se_sat = sat, se_t0 = gpst2time (sm_week msg) (of_int (sm_tow msg + t)),
           se_tof = gpst2time (sm_week msg) (of_int (sm_tow msg)), se_sva = sva,
           se_svh = (if sva = 15 then 1 else 0),
           se_pos = [of_int px * 0.08, of_int py * 0.08, of_int pz * 0.4],
           se_vel = [of_int vx * 0.000625, of_int vy * 0.000625, of_int vz * 0.004],
           se_acc = [of_int ax * 0.0000125, of_int ay * 0.0000125, of_int az * 0.0000625],
           se_af0 = of_int af0 * P2 31, se_af1 = of_int af1 * P2 39 / 2\<rparr> }"

definition decode_sbstype9 :: "sbsmsg \<Rightarrow> sbsnav \<Rightarrow> (sbsnav \<times> int) option" where
  "decode_sbstype9 msg nav =
    (let sat = satno SYS_SBS (sm_prn msg) in
     if sat = 0 then Some (nav, 0)
     else do { seph \<leftarrow> read_seph msg sat;
       let i = sm_prn msg - MINPRNSBS;
       case sn_seph nav of None \<Rightarrow> Some (nav, 0)
       | Some sephs \<Rightarrow>
         do { cur \<leftarrow> arr_get sephs i;
              if \<bar>timediff (se_t0 cur) (se_t0 seph)\<bar> < 0.001 then Some (nav, 0)
              else do { sephs \<leftarrow> arr_put sephs (NSATSBS + i) cur; sephs \<leftarrow> arr_put sephs i seph;
                        Some (nav\<lparr>sn_seph := Some sephs\<rparr>, 1) } } })"

section \<open>The grid of the ionosphere\<close>

definition igp_x1 :: "int list" where
  "igp_x1 =
    [-75, -65, -55, -50, -45, -40, -35, -30, -25, -20, -15, -10, -5, 0, 5, 10, 15, 20, 25, 30,
     35, 40, 45, 50, 55, 65, 75, 85]"

definition igp_x2 :: "int list" where
  "igp_x2 =
    [-55, -50, -45, -40, -35, -30, -25, -20, -15, -10, -5, 0, 5, 10, 15, 20, 25, 30, 35, 40,
     45, 50, 55]"

definition igp_x3 :: "int list" where
  "igp_x3 =
    [-75, -65, -55, -50, -45, -40, -35, -30, -25, -20, -15, -10, -5, 0, 5, 10, 15, 20, 25, 30,
     35, 40, 45, 50, 55, 65, 75]"

definition igp_x4 :: "int list" where
  "igp_x4 =
    [-85, -75, -65, -55, -50, -45, -40, -35, -30, -25, -20, -15, -10, -5, 0, 5, 10, 15, 20, 25,
     30, 35, 40, 45, 50, 55, 65, 75]"

definition igp_x5 :: "int list" where
  "igp_x5 =
    [-180, -175, -170, -165, -160, -155, -150, -145, -140, -135, -130, -125, -120, -115, -110,
     -105, -100, -95, -90, -85, -80, -75, -70, -65, -60, -55, -50, -45, -40, -35, -30, -25,
     -20, -15, -10, -5, 0, 5, 10, 15, 20, 25, 30, 35, 40, 45, 50, 55, 60, 65, 70, 75, 80, 85,
     90, 95, 100, 105, 110, 115, 120, 125, 130, 135, 140, 145, 150, 155, 160, 165, 170, 175]"

definition igp_x6 :: "int list" where
  "igp_x6 =
    [-180, -170, -160, -150, -140, -130, -120, -110, -100, -90, -80, -70, -60, -50, -40, -30,
     -20, -10, 0, 10, 20, 30, 40, 50, 60, 70, 80, 90, 100, 110, 120, 130, 140, 150, 160, 170]"

definition igp_x7 :: "int list" where
  "igp_x7 =
    [-180, -150, -120, -90, -60, -30, 0, 30, 60, 90, 120, 150]"

definition igp_x8 :: "int list" where
  "igp_x8 =
    [-170, -140, -110, -80, -50, -20, 10, 40, 70, 100, 130, 160]"

text \<open>
  A band is a list of its columns (for bands 0 to 8) or rows: the fixed coordinate, the other
  coordinates, and the first and last number of the mask.
\<close>

definition igpband1 :: "(int \<times> int list \<times> nat \<times> nat) list list" where
  "igpband1 =
    [[(-180, igp_x1, 1, 28), (-175, igp_x2, 29, 51), (-170, igp_x3, 52, 78), (-165, igp_x2, 79, 101),
      (-160, igp_x3, 102, 128), (-155, igp_x2, 129, 151), (-150, igp_x3, 152, 178), (-145, igp_x2, 179, 201)],
     [(-140, igp_x4, 1, 28), (-135, igp_x2, 29, 51), (-130, igp_x3, 52, 78), (-125, igp_x2, 79, 101),
      (-120, igp_x3, 102, 128), (-115, igp_x2, 129, 151), (-110, igp_x3, 152, 178), (-105, igp_x2, 179, 201)],
     [(-100, igp_x3, 1, 27), (-95, igp_x2, 28, 50), (-90, igp_x1, 51, 78), (-85, igp_x2, 79, 101),
      (-80, igp_x3, 102, 128), (-75, igp_x2, 129, 151), (-70, igp_x3, 152, 178), (-65, igp_x2, 179, 201)],
     [(-60, igp_x3, 1, 27), (-55, igp_x2, 28, 50), (-50, igp_x4, 51, 78), (-45, igp_x2, 79, 101),
      (-40, igp_x3, 102, 128), (-35, igp_x2, 129, 151), (-30, igp_x3, 152, 178), (-25, igp_x2, 179, 201)],
     [(-20, igp_x3, 1, 27), (-15, igp_x2, 28, 50), (-10, igp_x3, 51, 77), (-5, igp_x2, 78, 100),
      (0, igp_x1, 101, 128), (5, igp_x2, 129, 151), (10, igp_x3, 152, 178), (15, igp_x2, 179, 201)],
     [(20, igp_x3, 1, 27), (25, igp_x2, 28, 50), (30, igp_x3, 51, 77), (35, igp_x2, 78, 100),
      (40, igp_x4, 101, 128), (45, igp_x2, 129, 151), (50, igp_x3, 152, 178), (55, igp_x2, 179, 201)],
     [(60, igp_x3, 1, 27), (65, igp_x2, 28, 50), (70, igp_x3, 51, 77), (75, igp_x2, 78, 100),
      (80, igp_x3, 101, 127), (85, igp_x2, 128, 150), (90, igp_x1, 151, 178), (95, igp_x2, 179, 201)],
     [(100, igp_x3, 1, 27), (105, igp_x2, 28, 50), (110, igp_x3, 51, 77), (115, igp_x2, 78, 100),
      (120, igp_x3, 101, 127), (125, igp_x2, 128, 150), (130, igp_x4, 151, 178), (135, igp_x2, 179, 201)],
     [(140, igp_x3, 1, 27), (145, igp_x2, 28, 50), (150, igp_x3, 51, 77), (155, igp_x2, 78, 100),
      (160, igp_x3, 101, 127), (165, igp_x2, 128, 150), (170, igp_x3, 151, 177), (175, igp_x2, 178, 200)]]"

definition igpband2 :: "(int \<times> int list \<times> nat \<times> nat) list list" where
  "igpband2 =
    [[(60, igp_x5, 1, 72), (65, igp_x6, 73, 108), (70, igp_x6, 109, 144), (75, igp_x6, 145, 180),
      (85, igp_x7, 181, 192)],
     [(-60, igp_x5, 1, 72), (-65, igp_x6, 73, 108), (-70, igp_x6, 109, 144), (-75, igp_x6, 145, 180),
      (-85, igp_x8, 181, 192)]]"

text \<open>
  Type 18: the grid points of a band.  A number of the mask that no column has is passed over.
\<close>

definition igp_column :: "int \<Rightarrow> nat \<Rightarrow> (int \<times> int list \<times> nat \<times> nat) option option" where
  "igp_column band i =
    map_option (List.find (\<lambda>(x, y, bits, bite). bits \<le> i \<and> i \<le> bite))
      (if band \<le> 8 then arr_get igpband1 band else arr_get igpband2 (band - 9))"

text \<open>Latitude and longitude of a number in its column.\<close>

definition igp_place :: "int \<Rightarrow> nat \<Rightarrow> int \<times> int list \<times> nat \<times> nat \<Rightarrow> (int \<times> int) option" where
  "igp_place band i = (\<lambda>(x, y, bits, bite).
    do { v \<leftarrow> arr_get y (int i - int bits); Some (if band \<le> 8 then (v, x) else (x, v)) })"

definition igp_bit :: "sbsmsg \<Rightarrow> int \<Rightarrow> nat \<Rightarrow> nat \<times> sbsigp list \<Rightarrow> (nat \<times> sbsigp list) option" where
  "igp_bit msg band i = (\<lambda>(n, igp).
    do { v \<leftarrow> msg_u msg (23 + i) 1;
         if v = 0 then Some (n, igp)
         else do { col \<leftarrow> igp_column band i;
           case col of None \<Rightarrow> Some (n, igp)
           | Some c \<Rightarrow>
             do { (lat, lon) \<leftarrow> igp_place band i c; p \<leftarrow> arr_get igp (int n);
                  igp \<leftarrow> arr_put igp (int n) (p\<lparr>ig_lat := lat, ig_lon := lon\<rparr>);
                  Some (n + 1, igp) } } })"

definition decode_sbstype18 :: "sbsmsg \<Rightarrow> sbsion list \<Rightarrow> (sbsion list \<times> int) option" where
  "decode_sbstype18 msg sbsion =
    do { band \<leftarrow> msg_u msg 18 4;
         if band > 10 then Some (sbsion, 0)
         else do { iodi \<leftarrow> msg_u msg 22 2; ion \<leftarrow> arr_get sbsion band;
                   (n, igp) \<leftarrow> each (igp_bit msg band) [1..<202] (0, io_igp ion);
                   sbsion \<leftarrow> arr_put sbsion band (ion\<lparr>io_iodi := iodi, io_igp := igp, io_nigp := n\<rparr>);
                   Some (sbsion, 1) } }"

text \<open>Type 26: delays and their accuracy for fifteen points of a band.\<close>

definition put_delay :: "sbsmsg \<Rightarrow> int \<Rightarrow> int \<Rightarrow> sbsigp \<Rightarrow> sbsigp" where
  "put_delay msg give delay p =
    p\<lparr>ig_t0 := gpst2time (sm_week msg) (of_int (sm_tow msg)),
      ig_delay := (if delay = 0x1FF then 0 else of_int delay * 0.125),
      ig_give := (if give + 1 \<ge> 16 then 0 else give + 1)\<rparr>"

definition delay_entry :: "sbsmsg \<Rightarrow> int \<Rightarrow> nat \<Rightarrow> nat \<Rightarrow> sbsigp list \<Rightarrow> sbsigp list option" where
  "delay_entry msg block nigp i igp =
    (let j = block * 15 + int i in
     if j \<ge> int nigp then Some igp
     else do { give \<leftarrow> msg_u msg (22 + i * 13 + 9) 4; delay \<leftarrow> msg_u msg (22 + i * 13) 9;
               p \<leftarrow> arr_get igp j; arr_put igp j (put_delay msg give delay p) })"

definition decode_sbstype26 :: "sbsmsg \<Rightarrow> sbsion list \<Rightarrow> (sbsion list \<times> int) option" where
  "decode_sbstype26 msg sbsion =
    do { band \<leftarrow> msg_u msg 14 4;
         if band > MAXBAND then Some (sbsion, 0)
         else do { ion \<leftarrow> arr_get sbsion band; iodi \<leftarrow> msg_u msg 217 2;
           if io_iodi ion \<noteq> iodi then Some (sbsion, 0)
           else do { block \<leftarrow> msg_u msg 18 4;
                     igp \<leftarrow> each (delay_entry msg block (io_nigp ion)) [0..<15] (io_igp ion);
                     sbsion \<leftarrow> arr_put sbsion band (ion\<lparr>io_igp := igp\<rparr>);
                     Some (sbsion, 1) } } }"

section \<open>Long-term corrections\<close>

text \<open>The entry is the one in front of the number of the message.\<close>

definition decode_longcorr0 :: "sbsmsg \<Rightarrow> nat \<Rightarrow> sbssat \<Rightarrow> (sbssat \<times> int) option" where
  "decode_longcorr0 msg p sbssat =
    do { n \<leftarrow> msg_u msg p 6;
         if n = 0 \<or> n > MAXSAT then Some (sbssat, 0)
         else do { iode \<leftarrow> msg_u msg (p + 6) 8; dpos \<leftarrow> collect (\<lambda>i. msg_s msg (p + 14 + 9 * i) 9) [0..<3];
                   daf0 \<leftarrow> msg_s msg (p + 41) 10;
                   s \<leftarrow> upd_sat (n - 1) (\<lambda>s. s\<lparr>sp_lcorr :=
                     \<lparr>lc_t0 = gpst2time (sm_week msg) (of_int (sm_tow msg)), lc_iode = iode,
                      lc_dpos = map (\<lambda>v. of_int v * 0.125) dpos, lc_dvel = [0, 0, 0],
                      lc_daf0 = of_int daf0 * P2 31, lc_daf1 = 0\<rparr>\<rparr>) sbssat;
                   Some (s, 1) } }"

definition decode_longcorr1 :: "sbsmsg \<Rightarrow> nat \<Rightarrow> sbssat \<Rightarrow> (sbssat \<times> int) option" where
  "decode_longcorr1 msg p sbssat =
    do { n \<leftarrow> msg_u msg p 6;
         if n = 0 \<or> n > MAXSAT then Some (sbssat, 0)
         else do { iode \<leftarrow> msg_u msg (p + 6) 8;
                   dpos \<leftarrow> collect (\<lambda>i. msg_s msg (p + 14 + i * 11) 11) [0..<3];
                   dvel \<leftarrow> collect (\<lambda>i. msg_s msg (p + 58 + i * 8) 8) [0..<3];
                   daf0 \<leftarrow> msg_s msg (p + 47) 11; daf1 \<leftarrow> msg_s msg (p + 82) 8; tod \<leftarrow> msg_u msg (p + 90) 13;
                   let t = day_diff (tod * 16) (sm_tow msg);
                   s \<leftarrow> upd_sat (n - 1) (\<lambda>s. s\<lparr>sp_lcorr :=
                     \<lparr>lc_t0 = gpst2time (sm_week msg) (of_int (sm_tow msg + t)), lc_iode = iode,
                      lc_dpos = map (\<lambda>v. of_int v * 0.125) dpos, lc_dvel = map (\<lambda>v. of_int v * P2 11) dvel,
                      lc_daf0 = of_int daf0 * P2 31, lc_daf1 = of_int daf1 * P2 39\<rparr>\<rparr>) sbssat;
                   Some (s, 1) } }"

text \<open>\<^verbatim>\<open>f(...)\&\&g(...)\<close> on the state: the second decoder runs where the first succeeds.\<close>

definition and_then :: "(sbssat \<Rightarrow> (sbssat \<times> int) option) \<Rightarrow> (sbssat \<Rightarrow> (sbssat \<times> int) option) \<Rightarrow>
    sbssat \<Rightarrow> (sbssat \<times> int) option" where
  "and_then f g s =
    do { (s, ok) \<leftarrow> f s;
         if ok = 0 then Some (s, 0) else do { (s, ok) \<leftarrow> g s; Some (s, if ok = 0 then 0 else 1) } }"

definition decode_longcorrh :: "sbsmsg \<Rightarrow> nat \<Rightarrow> sbssat \<Rightarrow> (sbssat \<times> int) option" where
  "decode_longcorrh msg p sbssat =
    do { v \<leftarrow> msg_u msg p 1;
         if v = 0
         then do { iodp \<leftarrow> msg_u msg (p + 103) 2;
                   if ss_iodp sbssat = iodp
                   then and_then (decode_longcorr0 msg (p + 1)) (decode_longcorr0 msg (p + 52)) sbssat
                   else Some (sbssat, 0) }
         else do { iodp \<leftarrow> msg_u msg (p + 104) 2;
                   if ss_iodp sbssat = iodp then decode_longcorr1 msg (p + 1) sbssat else Some (sbssat, 0) } }"

text \<open>The body of the loop of type 24, which ends at the first entry behind the mask.\<close>

definition mixed_entry :: "sbsmsg \<Rightarrow> int \<Rightarrow> int \<Rightarrow> nat \<Rightarrow> sbssat \<Rightarrow> sbssat option" where
  "mixed_entry msg blk iodf i s =
    do { udre \<leftarrow> msg_u msg (86 + 4 * i) 4; prc \<leftarrow> msg_s msg (14 + i * 12) 12;
         upd_sat (13 * blk + int i) (\<lambda>p. p\<lparr>sp_fcorr := (sp_fcorr p)
           \<lparr>fc_t0 := gpst2time (sm_week msg) (of_int (sm_tow msg)), fc_prc := of_int prc * 0.125,
            fc_udre := udre + 1, fc_iodf := iodf\<rparr>\<rparr>) s }"

definition decode_sbstype24 :: "sbsmsg \<Rightarrow> sbssat \<Rightarrow> (sbssat \<times> int) option" where
  "decode_sbstype24 msg sbssat =
    do { iodp \<leftarrow> msg_u msg 110 2;
         if ss_iodp sbssat \<noteq> iodp then Some (sbssat, 0)
         else do { blk \<leftarrow> msg_u msg 112 2; iodf \<leftarrow> msg_u msg 114 2;
                   s \<leftarrow> each (mixed_entry msg blk iodf)
                         (takeWhile (\<lambda>i. 13 * blk + int i < int (ss_nsat sbssat)) [0..<6]) sbssat;
                   decode_longcorrh msg 120 s } }"

definition decode_sbstype25 :: "sbsmsg \<Rightarrow> sbssat \<Rightarrow> (sbssat \<times> int) option" where
  "decode_sbstype25 msg = and_then (decode_longcorrh msg 14) (decode_longcorrh msg 120)"

section \<open>Dispatch\<close>

definition on_sat :: "sbsnav \<Rightarrow> (sbssat \<times> int) option \<Rightarrow> (sbsnav \<times> int) option" where
  "on_sat nav r = do { (s, stat) \<leftarrow> r; Some (nav\<lparr>sn_sat := s\<rparr>, stat) }"

definition on_ion :: "sbsnav \<Rightarrow> (sbsion list \<times> int) option \<Rightarrow> (sbsnav \<times> int) option" where
  "on_ion nav r = do { (ions, stat) \<leftarrow> r; Some (nav\<lparr>sn_ion := ions\<rparr>, stat) }"

definition sbs_decode :: "int \<Rightarrow> sbsmsg \<Rightarrow> sbsnav \<Rightarrow> (sbsnav \<times> int) option" where
  "sbs_decode type msg nav =
    (if type = 0 then on_sat nav (decode_sbstype2 msg (sn_sat nav))
     else if type = 1 then on_sat nav (decode_sbstype1 msg (sn_sat nav))
     else if 2 \<le> type \<and> type \<le> 5 then on_sat nav (decode_sbstype2 msg (sn_sat nav))
     else if type = 6 then on_sat nav (decode_sbstype6 msg (sn_sat nav))
     else if type = 7 then on_sat nav (decode_sbstype7 msg (sn_sat nav))
     else if type = 9 then decode_sbstype9 msg nav
     else if type = 18 then on_ion nav (decode_sbstype18 msg (sn_ion nav))
     else if type = 24 then on_sat nav (decode_sbstype24 msg (sn_sat nav))
     else if type = 25 then on_sat nav (decode_sbstype25 msg (sn_sat nav))
     else if type = 26 then on_ion nav (decode_sbstype26 msg (sn_ion nav))
     else Some (nav, -1))"

definition sbsupdatecorr :: "sbsmsg \<Rightarrow> sbsnav \<Rightarrow> (sbsnav \<times> int) option" where
  "sbsupdatecorr msg nav =
    do { type \<leftarrow> msg_u msg 8 6;
         if sm_week msg = 0 then Some (nav, -1)
         else do { (nav, stat) \<leftarrow> sbs_decode type msg nav; Some (nav, if stat \<noteq> 0 then type else -1) } }"

end
