(* ===== verification/SbasCorr.thy ===== *)
theory SbasCorr
  imports Sbas
begin

text \<open>
  The use of the SBAS corrections (\<^verbatim>\<open>sbas.c\<close>): satellite corrections, the delay of the ionosphere
  from the grid points around the pierce point, and the model of the troposphere with the values it
  keeps from call to call.  Floating-point numbers are reals; the functions of \<^verbatim>\<open>math.h\<close> are those of
  the library.
\<close>

definition MAXSBSAGEF :: double where "MAXSBSAGEF = 30"
definition MAXSBSAGEL :: double where "MAXSBSAGEL = 1800"

section \<open>Tables\<close>

definition varfcorr :: "int \<Rightarrow> double" where
  "varfcorr udre =
    (let var = [0.052, 0.0924, 0.1444, 0.283, 0.4678, 0.8315, 1.2992, 1.8709, 2.5465, 3.326, 5.1968, 20.7870,
                230.9661, 2078.695]
     in if 0 < udre \<and> udre \<le> 14 then var ! nat (udre - 1) else 0)"

definition varicorr :: "int \<Rightarrow> double" where
  "varicorr give =
    (let var = [0.0084, 0.0333, 0.0749, 0.1331, 0.2079, 0.2994, 0.4075, 0.5322, 0.6735, 0.8315, 1.1974, 1.8709,
                3.326, 20.787, 187.0826]
     in if 0 < give \<and> give \<le> 15 then var ! nat (give - 1) else 0)"

definition degfcorr :: "int \<Rightarrow> double" where
  "degfcorr ai =
    (let degf = [0.00000, 0.00005, 0.00009, 0.00012, 0.00015, 0.00020, 0.00030, 0.00045, 0.00060, 0.00090,
                 0.00150, 0.00210, 0.00270, 0.00330, 0.00460, 0.00580]
     in if 0 < ai \<and> ai \<le> 15 then degf ! nat ai else 0.0058)"

section \<open>Satellites\<close>

text \<open>Status, position correction and clock correction.\<close>

definition sbslongcorr :: "gtime \<Rightarrow> int \<Rightarrow> sbssat \<Rightarrow> double list \<Rightarrow> double \<Rightarrow> bool \<times> double list \<times> double" where
  "sbslongcorr time sat sbssat drs ddts =
    (case List.find (\<lambda>p. sp_sat p = sat \<and> gt_time (lc_t0 (sp_lcorr p)) \<noteq> 0)
            (take (ss_nsat sbssat) (ss_sat sbssat)) of
       Some p \<Rightarrow>
         let l = sp_lcorr p; t = timediff time (lc_t0 l) in
         if \<bar>t\<bar> > MAXSBSAGEL then (False, drs, ddts)
         else (True, map (\<lambda>i. lc_dpos l ! i + lc_dvel l ! i * t) [0..<3], lc_daf0 l + lc_daf1 l * t)
     | None \<Rightarrow> (fst (satsys sat) = SYS_SBS, drs, ddts))"

text \<open>
  The loop of the fast corrections: it goes on behind a correction that is too old or not
  monitored and ends at one that was never set.
\<close>

fun fast_loop :: "gtime \<Rightarrow> int \<Rightarrow> int \<Rightarrow> sbssatp list \<Rightarrow> (double \<times> double) option" where
  "fast_loop time sat tlat [] = None"
| "fast_loop time sat tlat (p # ps) =
    (let f = sp_fcorr p; t = timediff time (fc_t0 f) + of_int tlat in
     if sp_sat p \<noteq> sat then fast_loop time sat tlat ps
     else if gt_time (fc_t0 f) = 0 then None
     else if \<bar>t\<bar> > MAXSBSAGEF \<or> fc_udre f \<ge> 15 then fast_loop time sat tlat ps
     else Some (fc_prc f, varfcorr (fc_udre f) + degfcorr (fc_ai f) * t * t / 2))"

definition sbsfastcorr :: "gtime \<Rightarrow> int \<Rightarrow> sbssat \<Rightarrow> (double \<times> double) option" where
  "sbsfastcorr time sat sbssat = fast_loop time sat (ss_tlat sbssat) (take (ss_nsat sbssat) (ss_sat sbssat))"

text \<open>Corrected position, clock bias and variance, None for no correction.\<close>

definition sbssatcorr :: "gtime \<Rightarrow> int \<Rightarrow> sbsnav \<Rightarrow> double list \<Rightarrow> double \<Rightarrow> (double list \<times> double \<times> double) option" where
  "sbssatcorr time sat nav rs dts =
    (case sbslongcorr time sat (sn_sat nav) [0, 0, 0] 0 of (ok, drs, dclk) \<Rightarrow>
       if \<not> ok then None
       else case sbsfastcorr time sat (sn_sat nav) of None \<Rightarrow> None
            | Some (prc, var) \<Rightarrow>
                Some (map (\<lambda>i. if i < 3 then rs ! i + drs ! i else rs ! i) [0..<length rs],
                  dts + (dclk + prc / CLIGHT), var))"

section \<open>Ionosphere\<close>

definition PI :: double where "PI = 3.1415926535897932"
definition D2R :: double where "D2R = PI / 180"
definition R2D :: double where "R2D = 180 / PI"

text \<open>The position of the pierce point and the factor of the slant, from latitude and longitude of
  the receiver, azimuth and elevation.\<close>

definition ionppp :: "double \<Rightarrow> double \<Rightarrow> double \<Rightarrow> double \<Rightarrow> double \<Rightarrow> double \<Rightarrow> double \<times> double \<times> double" where
  "ionppp lat lon az el re hion =
    (let rp = re / (re + hion) * cos el;
         ap = PI / 2 - el - arcsin rp;
         sinap = sin ap; tanap = tan ap; cosaz = cos az;
         plat = arcsin (sin lat * cos ap + cos lat * sinap * cosaz);
         plon = (if lat > 70 * D2R \<and> tanap * cosaz > tan (PI / 2 - lat) \<or>
                    lat < -70 * D2R \<and> - tanap * cosaz > tan (PI / 2 + lat)
                 then lon + PI - arcsin (sinap * sin az / cos plat)
                 else lon + arcsin (sinap * sin az / cos plat))
     in (1 / sqrt (1 - rp * rp), plat, plon))"

text \<open>
  The cell of the grid around a point in degrees: latitudes of its lower and upper side, longitudes
  of the four corners (lower left, upper left, lower right, upper right), and the place in the cell.
\<close>

definition grid :: "double \<Rightarrow> int \<Rightarrow> int" where
  "grid v n = \<lfloor>v / of_int n\<rfloor> * n"

definition igp_cell :: "double \<Rightarrow> double \<Rightarrow> int list \<times> int list \<times> double \<times> double" where
  "igp_cell lat lon =
    (let lon = (if lon \<ge> 180 then lon - 360 else lon);
         (latp, lonp, x, y) =
           (if -55 \<le> lat \<and> lat < 55
            then let la = grid lat 5; lo = grid lon 5
                 in ([la, la + 5], [lo, lo, lo + 5, lo + 5], (lon - of_int lo) / 5, (lat - of_int la) / 5)
            else let la = grid (lat - 5) 10 + 5; lo = grid lon 10;
                     lonp = [lo, lo, lo + 10, lo + 10];
                     lonp = (if 75 \<le> lat \<and> lat < 85 then lonp[1 := grid lon 90, 3 := grid lon 90 + 90]
                             else if -85 \<le> lat \<and> lat < -75
                             then lonp[0 := grid (lon - 50) 90 + 40, 2 := grid (lon - 50) 90 + 40 + 90]
                             else if lat \<ge> 85 then replicate 4 (grid lon 90)
                             else if lat < -85 then replicate 4 (grid (lon - 50) 90 + 40) else lonp)
                 in ([la, la + 10], lonp, (lon - of_int lo) / 10, (lat - of_int la) / 10))
     in (latp, map (\<lambda>l. if l = 180 then -180 else l) lonp, x, y))"

text \<open>
  The search for the corners: a point of the grid takes the first corner it fits; the search ends
  when all four are found.
\<close>

definition corner :: "int list \<Rightarrow> int list \<Rightarrow> sbsigp \<Rightarrow> nat option" where
  "corner latp lonp p =
    (let fits = (\<lambda>la lo. ig_lat p = la \<and> ig_lon p = lo \<and> ig_give p > 0) in
     if fits (latp ! 0) (lonp ! 0) then Some 0
     else if fits (latp ! 1) (lonp ! 1) then Some 1
     else if fits (latp ! 0) (lonp ! 2) then Some 2
     else if fits (latp ! 1) (lonp ! 3) then Some 3 else None)"

fun search_points :: "int list \<Rightarrow> int list \<Rightarrow> sbsigp list \<Rightarrow> sbsigp option list \<Rightarrow> sbsigp option list" where
  "search_points latp lonp [] igp = igp"
| "search_points latp lonp (p # ps) igp =
    (if gt_time (ig_t0 p) = 0 then search_points latp lonp ps igp
     else let igp = (case corner latp lonp p of None \<Rightarrow> igp | Some k \<Rightarrow> igp[k := Some p])
          in if list_all (\<lambda>g. g \<noteq> None) igp then igp else search_points latp lonp ps igp)"

definition searchigp :: "double \<Rightarrow> double \<Rightarrow> sbsion list \<Rightarrow> sbsigp option list \<times> double \<times> double" where
  "searchigp lat lon ion =
    (let (latp, lonp, x, y) = igp_cell (lat * R2D) (lon * R2D);
         points = concat (map (\<lambda>i. take (io_nigp i) (io_igp i)) (take (nat MAXBAND + 1) ion))
     in (search_points latp lonp points (replicate 4 None), x, y))"

text \<open>The weights of the corners, None for an error.\<close>

definition igp_weights :: "bool list \<Rightarrow> double \<Rightarrow> double \<Rightarrow> double list option" where
  "igp_weights found x y =
    (let w0 = (\<lambda>w k. if w ! k < 0 then None else Some w) in
     if found ! 0 \<and> found ! 1 \<and> found ! 2 \<and> found ! 3
     then Some [(1 - x) * (1 - y), (1 - x) * y, x * (1 - y), x * y]
     else if found ! 0 \<and> found ! 1 \<and> found ! 2 then w0 [1 - y - x, y, x, 0] 0
     else if found ! 0 \<and> found ! 2 \<and> found ! 3 then w0 [1 - x, 0, 1 - (1 - x) - y, y] 2
     else if found ! 0 \<and> found ! 1 \<and> found ! 3 then w0 [1 - y, 1 - (1 - y) - x, 0, x] 1
     else if found ! 1 \<and> found ! 2 \<and> found ! 3 then w0 [0, 1 - x, 1 - y, 1 - (1 - x) - (1 - y)] 3
     else None)"

text \<open>Status, delay and variance.\<close>

definition sbsioncorr ::
    "gtime \<Rightarrow> sbsnav \<Rightarrow> double list \<Rightarrow> double list \<Rightarrow> bool \<times> double \<times> double" where
  "sbsioncorr time nav pos azel =
    (if pos ! 2 < -100 \<or> azel ! 1 \<le> 0 then (True, 0, 0)
     else let (fp, plat, plon) = ionppp (pos ! 0) (pos ! 1) (azel ! 0) (azel ! 1) 6378.1363 350;
              (igp, x, y) = searchigp plat plon (sn_ion nav)
          in case igp_weights (map (\<lambda>g. g \<noteq> None) igp) x y of None \<Rightarrow> (False, 0, 0)
             | Some w \<Rightarrow>
                 let (delay, var) = fold (\<lambda>i (delay, var). case igp ! i of None \<Rightarrow> (delay, var)
                       | Some p \<Rightarrow> (delay + w ! i * ig_delay p,
                           var + w ! i * varicorr (ig_give p) * 0.00000009 * \<bar>timediff time (ig_t0 p)\<bar>)) [0..<4] (0, 0)
                 in (True, delay * fp, var * (fp * fp)))"

section \<open>Troposphere\<close>

definition metprm :: "double list list" where
  "metprm =
    [[1013.25, 299.65, 26.31, 0.00630, 2.77,  0.00,  0.00, 0.00, 0.00000, 0.00],
     [1017.25, 294.15, 21.79, 0.00605, 3.15, -3.75,  7.00, 8.85, 0.00025, 0.33],
     [1015.75, 283.15, 11.66, 0.00558, 2.57, -2.25, 11.00, 7.24, 0.00032, 0.46],
     [1011.75, 272.15,  6.78, 0.00539, 1.81, -1.75, 15.00, 5.36, 0.00081, 0.74],
     [1013.00, 263.65,  4.11, 0.00453, 1.55, -0.50, 14.50, 3.39, 0.00062, 0.30]]"

definition getmet :: "double \<Rightarrow> double list" where
  "getmet lat =
    (let lat = \<bar>lat\<bar> in
     if lat \<le> 15 then metprm ! 0
     else if lat \<ge> 75 then metprm ! 4
     else let j = nat (trunc (lat / 15)); a = (lat - of_nat j * 15) / 15
          in map (\<lambda>i. (1 - a) * metprm ! (j - 1) ! i + a * metprm ! j ! i) [0..<10])"

text \<open>The static variables: the position of the last computation and the two zenith delays.\<close>

record trop =
  tr_pos :: "double list"
  tr_zh :: double
  tr_zw :: double

definition trop_zero :: trop where "trop_zero = \<lparr>tr_pos = [0, 0, 0], tr_zh = 0, tr_zw = 0\<rparr>"

definition zenith_delays :: "gtime \<Rightarrow> double list \<Rightarrow> double \<times> double" where
  "zenith_delays time pos =
    (let k1 = 77.604; k2 = 382000; rd = 287.054; gm = 9.784; g = 9.80665; h = pos ! 2;
         met = getmet (pos ! 0 * R2D);
         c = cos (2 * PI * (time2doy time - (if pos ! 0 \<ge> 0 then 28 else 211)) / 365.25);
         met = map (\<lambda>i. if i < 5 then met ! i - met ! (i + 5) * c else met ! i) [0..<10];
         zh = 0.000001 * k1 * rd * met ! 0 / gm;
         zw = 0.000001 * k2 * rd / (gm * (met ! 4 + 1) - met ! 3 * rd) * met ! 2 / met ! 1
     in (zh * (1 - met ! 3 * h / met ! 1) powr (g / (rd * met ! 3)),
         zw * (1 - met ! 3 * h / met ! 1) powr ((met ! 4 + 1) * g / (rd * met ! 3) - 1)))"

text \<open>The delay and its variance, and the static variables after the call.\<close>

definition sbstropcorr :: "gtime \<Rightarrow> double list \<Rightarrow> double list \<Rightarrow> trop \<Rightarrow> (double \<times> double) \<times> trop" where
  "sbstropcorr time pos azel st =
    (if pos ! 2 < -100 \<or> 10000 < pos ! 2 \<or> azel ! 1 \<le> 0 then ((0, 0), st)
     else let st = (if tr_zh st = 0 \<or> \<bar>pos ! 0 - tr_pos st ! 0\<bar> > 0.0000001 \<or> \<bar>pos ! 1 - tr_pos st ! 1\<bar> > 0.0000001 \<or>
                       \<bar>pos ! 2 - tr_pos st ! 2\<bar> > 1
                    then let (zh, zw) = zenith_delays time pos
                         in \<lparr>tr_pos = take 3 pos, tr_zh = zh, tr_zw = zw\<rparr>
                    else st);
              sinel = sin (azel ! 1); m = 1.001 / sqrt (0.002001 + sinel * sinel)
          in (((tr_zh st + tr_zw st) * m, 0.12 * 0.12 * m * m), st))"

end
