(* ===== verification/SbasInv.thy ===== *)
theory SbasInv
  imports Sbas
begin

text \<open>
  The state of the SBAS part: the tables of the grid, the invariant that the messages keep, what they
  leave alone, and the messages that access an array outside.
\<close>

section \<open>Loops that may fail\<close>

text \<open>The computation succeeds, and its result has a property.\<close>

definition yields :: "('a \<Rightarrow> bool) \<Rightarrow> 'a option \<Rightarrow> bool" where
  "yields P x \<longleftrightarrow> (\<exists>y. x = Some y \<and> P y)"

named_theorems yields_intros \<open>computations that succeed\<close>

lemma yields_Some [simp]: "yields P (Some y) = P y"
  by (simp add: yields_def)

lemma yields_None [simp]: "\<not> yields P None"
  by (simp add: yields_def)

lemma yields_bind [yields_intros]: "yields Q x \<Longrightarrow> (\<And>y. Q y \<Longrightarrow> yields P (f y)) \<Longrightarrow> yields P (x \<bind> f)"
  by (auto simp: yields_def)

lemma yields_mono: "yields Q x \<Longrightarrow> (\<And>y. Q y \<Longrightarrow> P y) \<Longrightarrow> yields P x"
  by (auto simp: yields_def)

lemma yieldsD: "yields P x \<Longrightarrow> x = Some y \<Longrightarrow> P y"
  by (simp add: yields_def)

lemma each_append: "each f (is @ js) s = each f is s \<bind> each f js"
  by (induction "is" arbitrary: s) (simp_all split: Option.bind_split)

lemma each_yields:
  assumes "\<And>i s. i \<in> set is \<Longrightarrow> J s \<Longrightarrow> yields J (f i s)" and "J s"
  shows "yields J (each f is s)"
  using assms
proof (induction "is" arbitrary: s)
  case (Cons i "is")
  have "yields J (f i s)" using Cons.prems by simp
  then show ?case unfolding each.simps by (rule yields_bind) (use Cons in auto)
qed simp

lemma each_counted:
  assumes "\<And>k s. k < length is \<Longrightarrow> J k s \<Longrightarrow> yields (J (Suc k)) (f (is ! k) s)" and "J 0 s"
  shows "yields (J (length is)) (each f is s)"
  using assms
proof (induction "is" arbitrary: s J)
  case (Cons i "is")
  have "yields (J (Suc 0)) (f i s)" using Cons.prems(1) [of 0] Cons.prems(2) by simp
  then show ?case unfolding each.simps
  proof (rule yields_bind)
    fix s assume "J (Suc 0) s"
    then show "yields (J (length (i # is))) (each f is s)"
      using Cons.IH [of "\<lambda>k. J (Suc k)" s] Cons.prems(1) [of "Suc _"] by simp
  qed
qed simp

text \<open>A loop whose accesses are all inside is a fold.\<close>

lemma each_fold:
  assumes "\<And>i s. i \<in> set is \<Longrightarrow> J s \<Longrightarrow> f i s = Some (g i s) \<and> J (g i s)" and "J s"
  shows "each f is s = Some (fold g is s)"
  using assms by (induction "is" arbitrary: s) auto

lemma collect_map: "(\<And>i. i \<in> set is \<Longrightarrow> f i = Some (g i)) \<Longrightarrow> collect f is = Some (map g is)"
  by (induction "is") auto

lemma msg_in:
  "length (sm_msg msg) = 29 \<Longrightarrow> p + n \<le> 232 \<Longrightarrow> msg_u msg p n = Some (getu (sm_msg msg) p n)"
  "length (sm_msg msg) = 29 \<Longrightarrow> p + n \<le> 232 \<Longrightarrow> msg_s msg p n = Some (getbits (sm_msg msg) p n)"
  by (simp_all add: msg_u_def msg_s_def)

lemma getu_range: "n \<le> 32 \<Longrightarrow> getu b p n \<le> 2 ^ n - 1"
  using getu_less [of n b p] by simp

lemma arr_in: "0 \<le> i \<Longrightarrow> i < int (length xs) \<Longrightarrow> arr_get xs i = Some (xs ! nat i)"
  "0 \<le> i \<Longrightarrow> i < int (length xs) \<Longrightarrow> arr_put xs i x = Some (xs[nat i := x])"
  by (simp_all add: arr_get_def arr_put_def)

section \<open>The grid\<close>

definition bands :: "(int \<times> int list \<times> nat \<times> nat) list list" where
  "bands = igpband1 @ igpband2"

text \<open>A table is in order: the arrays have the length of the part of the mask, nothing is there twice.\<close>

definition table_ok :: "(int \<times> int list \<times> nat \<times> nat) list \<Rightarrow> bool" where
  "table_ok cols \<longleftrightarrow> distinct (map fst cols) \<and>
    list_all (\<lambda>(x, y, bits, bite). bits \<le> bite \<and> length y = bite + 1 - bits \<and> distinct y) cols"

lemma tables_ok: "list_all table_ok bands"
  by code_simp

lemma length_bands: "length igpband1 = 9" "length igpband2 = 2"
  by (simp_all add: igpband1_def igpband2_def)

definition band_of :: "int \<Rightarrow> (int \<times> int list \<times> nat \<times> nat) list" where
  "band_of band = (if band \<le> 8 then igpband1 ! nat band else igpband2 ! nat (band - 9))"

lemma band_ok:
  assumes "0 \<le> band" and "band \<le> 10"
  shows "table_ok (band_of band)"
proof -
  have "band_of band \<in> set bands"
    unfolding band_of_def bands_def using assms length_bands by (auto intro!: nth_mem)
  then show ?thesis using tables_ok by (simp add: list_all_iff)
qed

lemma igp_column_band:
  assumes "0 \<le> band" and "band \<le> 10"
  shows "igp_column band i = Some (List.find (\<lambda>(x, y, bits, bite). bits \<le> i \<and> i \<le> bite) (band_of band))"
  using assms by (auto simp: igp_column_def arr_get_def band_of_def length_bands nat_diff_distrib)

lemma igp_column_entry:
  assumes "0 \<le> band" and "band \<le> 10" and "igp_column band i = Some (Some (x, y, bits, bite))"
  shows "(x, y, bits, bite) \<in> set (band_of band)" and "bits \<le> i" and "i \<le> bite"
proof -
  have f: "List.find (\<lambda>(x, y, bits, bite). bits \<le> i \<and> i \<le> bite) (band_of band) = Some (x, y, bits, bite)"
    using assms by (simp add: igp_column_band)
  then show "(x, y, bits, bite) \<in> set (band_of band)" by (metis (no_types, lifting) find_Some_iff nth_mem)
  show "bits \<le> i" "i \<le> bite" using f unfolding find_Some_iff by auto
qed

text \<open>The place of a number is read inside the array of its column, and is a latitude and a longitude.\<close>

lemma places_ok:
  "list_all (list_all (\<lambda>(x, y, bits, bite). list_all (\<lambda>v. \<bar>x\<bar> \<le> 180 \<and> \<bar>v\<bar> \<le> 90) y)) igpband1"
  "list_all (list_all (\<lambda>(x, y, bits, bite). list_all (\<lambda>v. \<bar>x\<bar> \<le> 90 \<and> \<bar>v\<bar> \<le> 180) y)) igpband2"
  by code_simp+

lemma igp_place_in:
  assumes b: "0 \<le> band" "band \<le> 10" and c: "igp_column band i = Some (Some (x, y, bits, bite))"
  shows "\<exists>lat lon. igp_place band i (x, y, bits, bite) = Some (lat, lon) \<and> \<bar>lat\<bar> \<le> 90 \<and> \<bar>lon\<bar> \<le> 180 \<and>
    i - bits < length y \<and> (lat, lon) = (if band \<le> 8 then (y ! (i - bits), x) else (x, y ! (i - bits)))"
proof -
  note e = igp_column_entry [OF b c]
  have l: "i - bits < length y"
    using band_ok [OF b] e unfolding table_ok_def list_all_iff by auto
  have n: "nat (int i - int bits) = i - bits" by simp
  have g: "arr_get y (int i - int bits) = Some (y ! (i - bits))" using l e(2) by (simp add: arr_get_def n)
  have v: "y ! (i - bits) \<in> set y" using l by simp
  show ?thesis
  proof (cases "band \<le> 8")
    case True
    then have "band_of band \<in> set igpband1" using b(1) by (simp add: band_of_def length_bands)
    then have "\<bar>x\<bar> \<le> 180 \<and> \<bar>y ! (i - bits)\<bar> \<le> 90" using places_ok(1) e(1) v by (fastforce simp: list_all_iff)
    then show ?thesis using True g l by (simp add: igp_place_def)
  next
    case False
    then have "band_of band \<in> set igpband2" using b by (simp add: band_of_def length_bands)
    then have "\<bar>x\<bar> \<le> 90 \<and> \<bar>y ! (i - bits)\<bar> \<le> 180" using places_ok(2) e(1) v by (fastforce simp: list_all_iff)
    then show ?thesis using False g l by (simp add: igp_place_def)
  qed
qed

text \<open>The point of a number of the mask.\<close>

definition igp_point :: "int \<Rightarrow> nat \<Rightarrow> (int \<times> int) option" where
  "igp_point band i = do { col \<leftarrow> igp_column band i; c \<leftarrow> col; igp_place band i c }"

lemma igp_point_entry:
  assumes b: "0 \<le> band" "band \<le> 10" and p: "igp_point band i = Some p"
  obtains x y bits bite where "(x, y, bits, bite) \<in> set (band_of band)" and "bits \<le> i" and "i \<le> bite"
    and "p = (if band \<le> 8 then (y ! (i - bits), x) else (x, y ! (i - bits)))"
proof -
  obtain c where c: "igp_column band i = Some (Some c)" "igp_place band i c = Some p"
    using p by (auto simp: igp_point_def bind_eq_Some_conv simp del: split_paired_Ex)
  obtain x y bits bite where q: "c = (x, y, bits, bite)" by (cases c) auto
  show thesis using that igp_column_entry [OF b c(1) [unfolded q]] igp_place_in [OF b c(1) [unfolded q]] c(2) q by auto
qed

text \<open>
  The numbers of the mask of a band are read from inside the arrays and stand for different points.
\<close>

lemma igp_points:
  assumes band: "0 \<le> band" "band \<le> 10" and i: "igp_point band i = Some p" and j: "igp_point band j = Some p"
  shows "i = j"
proof -
  note ok = band_ok [OF band, unfolded table_ok_def list_all_iff]
  obtain x y b e where 1: "(x, y, b, e) \<in> set (band_of band)" "b \<le> i" "i \<le> e"
      "p = (if band \<le> 8 then (y ! (i - b), x) else (x, y ! (i - b)))"
    using igp_point_entry [OF band i] by blast
  obtain x' y' b' e' where 2: "(x', y', b', e') \<in> set (band_of band)" "b' \<le> j" "j \<le> e'"
      "p = (if band \<le> 8 then (y' ! (j - b'), x') else (x', y' ! (j - b')))"
    using igp_point_entry [OF band j] by blast
  have "x = x'" "y ! (i - b) = y' ! (j - b')" using 1(4) 2(4) by (auto split: if_split_asm)
  then have s: "(x', y', b', e') = (x, y, b, e)"
    using ok 1(1) 2(1) unfolding distinct_map inj_on_def by fastforce
  have "distinct y" "length y = e + 1 - b" using ok 1(1) by auto
  then have "i - b = j - b"
    using \<open>y ! (i - b) = y' ! (j - b')\<close> s 1(2,3) 2(2,3) by (simp add: nth_eq_iff_index_eq)
  then show ?thesis using s 1(2) 2(2) by simp
qed

section \<open>The invariant\<close>

text \<open>
  The arrays have their lengths, the counters stay within them, and the members their ranges: an
  accuracy (UDRE+1) is at most 16, a degradation indicator 15, an accuracy of a grid point 15.
\<close>

definition ok_satp :: "sbssatp \<Rightarrow> bool" where
  "ok_satp p \<longleftrightarrow> 0 \<le> sp_sat p \<and> sp_sat p \<le> MAXSAT \<and> 0 \<le> fc_udre (sp_fcorr p) \<and> fc_udre (sp_fcorr p) \<le> 16 \<and>
    0 \<le> fc_ai (sp_fcorr p) \<and> fc_ai (sp_fcorr p) \<le> 15 \<and> 0 \<le> fc_iodf (sp_fcorr p) \<and> fc_iodf (sp_fcorr p) \<le> 3 \<and>
    length (lc_dpos (sp_lcorr p)) = 3 \<and> length (lc_dvel (sp_lcorr p)) = 3"

definition wf_sbssat :: "sbssat \<Rightarrow> bool" where
  "wf_sbssat s \<longleftrightarrow> length (ss_sat s) = nat MAXSAT \<and> ss_nsat s \<le> nat MAXSAT \<and> (\<forall>p\<in>set (ss_sat s). ok_satp p)"

definition ok_igp :: "sbsigp \<Rightarrow> bool" where
  "ok_igp p \<longleftrightarrow> \<bar>ig_lat p\<bar> \<le> 90 \<and> \<bar>ig_lon p\<bar> \<le> 180 \<and> 0 \<le> ig_give p \<and> ig_give p \<le> 15"

definition wf_ion :: "sbsion \<Rightarrow> bool" where
  "wf_ion ion \<longleftrightarrow> length (io_igp ion) = MAXNIGP \<and> io_nigp ion \<le> MAXNIGP \<and> (\<forall>p\<in>set (io_igp ion). ok_igp p)"

definition wf_sbsion :: "sbsion list \<Rightarrow> bool" where
  "wf_sbsion ions \<longleftrightarrow> length ions = nat MAXBAND + 1 \<and> (\<forall>ion\<in>set ions. wf_ion ion)"

definition wf_sbsnav :: "sbsnav \<Rightarrow> bool" where
  "wf_sbsnav nav \<longleftrightarrow> wf_sbssat (sn_sat nav) \<and> wf_sbsion (sn_ion nav) \<and>
    (case sn_seph nav of None \<Rightarrow> True | Some s \<Rightarrow> length s = 2 * nat NSATSBS)"

text \<open>
  What messages other than masks leave: the mask, and the fast corrections of the entries behind it.
\<close>

definition sat_mask_kept :: "sbssat \<Rightarrow> sbssat \<Rightarrow> bool" where
  "sat_mask_kept s s' \<longleftrightarrow> ss_nsat s' = ss_nsat s \<and> ss_iodp s' = ss_iodp s \<and> length (ss_sat s') = length (ss_sat s) \<and>
    (\<forall>k < length (ss_sat s). sp_sat (ss_sat s' ! k) = sp_sat (ss_sat s ! k) \<and>
      (ss_nsat s \<le> k \<longrightarrow> sp_fcorr (ss_sat s' ! k) = sp_fcorr (ss_sat s ! k)))"

text \<open>The same for the grid: its points, and the delays of the entries behind them.\<close>

definition ion_mask_kept :: "sbsion \<Rightarrow> sbsion \<Rightarrow> bool" where
  "ion_mask_kept ion ion' \<longleftrightarrow> io_iodi ion' = io_iodi ion \<and> io_nigp ion' = io_nigp ion \<and>
    length (io_igp ion') = length (io_igp ion) \<and>
    (\<forall>k < length (io_igp ion). ig_lat (io_igp ion' ! k) = ig_lat (io_igp ion ! k) \<and>
      ig_lon (io_igp ion' ! k) = ig_lon (io_igp ion ! k) \<and> (io_nigp ion \<le> k \<longrightarrow> io_igp ion' ! k = io_igp ion ! k))"

definition sat_keeps :: "sbssat \<Rightarrow> sbssat \<Rightarrow> bool" where
  "sat_keeps s0 s \<longleftrightarrow> wf_sbssat s \<and> sat_mask_kept s0 s"

lemma sat_keeps_refl: "wf_sbssat s \<Longrightarrow> sat_keeps s s"
  by (simp add: sat_keeps_def sat_mask_kept_def)

lemma sat_keeps_nsat: "sat_keeps s0 s \<Longrightarrow> ss_nsat s = ss_nsat s0 \<and> ss_iodp s = ss_iodp s0 \<and> length (ss_sat s) = 221"
  by (simp add: sat_keeps_def sat_mask_kept_def wf_sbssat_def)

text \<open>An update of an entry, at a place inside the array.\<close>

definition put_sat :: "nat \<Rightarrow> (sbssatp \<Rightarrow> sbssatp) \<Rightarrow> sbssat \<Rightarrow> sbssat" where
  "put_sat j f s = s\<lparr>ss_sat := (ss_sat s)[j := f (ss_sat s ! j)]\<rparr>"

lemma put_sat_simps [simp]:
  "length (ss_sat (put_sat j f s)) = length (ss_sat s)" "ss_nsat (put_sat j f s) = ss_nsat s"
  "ss_iodp (put_sat j f s) = ss_iodp s" "ss_tlat (put_sat j f s) = ss_tlat s"
  by (simp_all add: put_sat_def)

lemma put_sat_nth: "j < length (ss_sat s) \<Longrightarrow> ss_sat (put_sat k f s) ! j = (if j = k then f (ss_sat s ! j) else ss_sat s ! j)"
  by (auto simp: put_sat_def nth_list_update)

lemma upd_sat_in: "0 \<le> j \<Longrightarrow> j < int (length (ss_sat s)) \<Longrightarrow> upd_sat j f s = Some (put_sat (nat j) f s)"
  by (simp add: upd_sat_def arr_in put_sat_def)

lemma wf_put_sat:
  assumes "wf_sbssat s" and "\<And>p. ok_satp p \<Longrightarrow> ok_satp (f p)" and "j < 221"
  shows "wf_sbssat (put_sat j f s)"
proof -
  have "ok_satp (f (ss_sat s ! j))" using assms by (auto simp: wf_sbssat_def)
  then show ?thesis
    using assms(1) set_update_subset_insert [of "ss_sat s" j "f (ss_sat s ! j)"] by (auto simp: wf_sbssat_def put_sat_def)
qed

lemma upd_sat_keeps:
  assumes "sat_keeps s0 s" and "0 \<le> j" and "j < 221"
    and f: "\<And>p. ok_satp p \<Longrightarrow> ok_satp (f p) \<and> sp_sat (f p) = sp_sat p \<and> (int (ss_nsat s0) \<le> j \<longrightarrow> sp_fcorr (f p) = sp_fcorr p)"
  shows "yields (sat_keeps s0) (upd_sat j f s)"
proof -
  have w: "wf_sbssat s" and m: "sat_mask_kept s0 s" using assms(1) by (simp_all add: sat_keeps_def)
  have l: "length (ss_sat s) = 221" "length (ss_sat s0) = 221" using w m by (simp_all add: wf_sbssat_def sat_mask_kept_def)
  have p: "ok_satp (ss_sat s ! nat j)" using w assms(2,3) l by (simp add: wf_sbssat_def)
  have n: "ss_nsat s0 \<le> nat j \<longleftrightarrow> int (ss_nsat s0) \<le> j" using assms(2) by linarith
  have "sat_mask_kept s0 (put_sat (nat j) f s)"
    using m f [OF p] l n by (auto simp: sat_mask_kept_def put_sat_nth)
  moreover have "wf_sbssat (put_sat (nat j) f s)" using w f assms(2,3) by (intro wf_put_sat) auto
  ultimately show ?thesis using assms(2,3) l by (simp add: upd_sat_in sat_keeps_def)
qed

section \<open>Messages of satellites\<close>

lemma takeWhile_in: "i \<in> set (takeWhile P xs) \<Longrightarrow> P i \<and> i \<in> set xs"
  by (auto dest: set_takeWhileD)

lemma mask_sat_range: "0 \<le> mask_sat i \<and> mask_sat i \<le> MAXSAT"
  using satno_bounds by (simp add: mask_sat_def)

lemma type1_yields:
  assumes s: "wf_sbssat s" and L: "length (sm_msg msg) = 29"
  shows "yields (\<lambda>(s', r). wf_sbssat s' \<and> r = 1) (decode_sbstype1 msg s)"
proof -
  let ?J = "\<lambda>(n, s). n \<le> nat MAXSAT \<and> wf_sbssat s"
  have "yields ?J (each (mask_bit msg) [1..<211] (0, s))"
  proof (rule each_yields)
    fix i q assume i: "i \<in> set [1..<211]" and J: "?J q"
    obtain n s where q: "q = (n, s)" by (cases q)
    have u: "msg_u msg (13 + i) 1 = Some (getu (sm_msg msg) (13 + i) 1)" using i by (intro msg_in [OF L]) simp
    have w: "wf_sbssat s" "n \<le> 221" using J by (simp_all add: q)
    have "yields ?J (Some (n + 1, put_sat n (\<lambda>p. p\<lparr>sp_sat := mask_sat i\<rparr>) s))" if "n < 221"
      using w that mask_sat_range [of i] by (auto simp: ok_satp_def intro!: wf_put_sat)
    moreover have "length (ss_sat s) = 221" using w(1) by (simp add: wf_sbssat_def)
    ultimately show "yields ?J (mask_bit msg i q)"
      using w by (auto simp: q mask_bit_def u upd_sat_in simp del: One_nat_def)
  qed (use s in simp)
  then show ?thesis
    unfolding decode_sbstype1_def by (rule yields_bind) (auto simp: msg_in [OF L] wf_sbssat_def)
qed

lemma fast_corr_ok:
  "fc_udre (fast_corr msg prc udre iodf fc) = udre + 1" "fc_ai (fast_corr msg prc udre iodf fc) = fc_ai fc"
  "fc_iodf (fast_corr msg prc udre iodf fc) = iodf"
  by (simp_all add: fast_corr_def Let_def)

lemma getu_4: "0 \<le> getu b p 4 + 1 \<and> getu b p 4 + 1 \<le> 16" "getu b p 4 \<le> 15"
  using getu_range [of 4 b p] getu_nonneg [of b p 4] by simp_all

lemma getu_2: "getu b p 2 \<le> 3"
  using getu_range [of 2 b p] by simp

lemma type2_yields:
  assumes s: "wf_sbssat s" and L: "length (sm_msg msg) = 29" and t: "getu (sm_msg msg) 8 6 \<in> {0, 2, 3, 4, 5}"
  shows "yields (\<lambda>(s', r). sat_keeps s s') (decode_sbstype2 msg s)"
proof -
  let ?j0 = "13 * ((if getu (sm_msg msg) 8 6 = 0 then 2 else getu (sm_msg msg) 8 6) - 2)"
  have "yields (sat_keeps s) (each (fast_entry msg ?j0 (getu (sm_msg msg) 14 2))
      (takeWhile (\<lambda>i. ?j0 + int i < int (ss_nsat s)) [0..<13]) s)"
  proof (rule each_yields)
    fix i s1 assume i: "i \<in> set (takeWhile (\<lambda>i. ?j0 + int i < int (ss_nsat s)) [0..<13])" and J: "sat_keeps s s1"
    have "?j0 + int i < int (ss_nsat s)" "i < 13" using takeWhile_in [OF i] by auto
    moreover have "0 \<le> ?j0" using t by auto
    moreover have "ss_nsat s \<le> 221" using s by (simp add: wf_sbssat_def)
    ultimately show "yields (sat_keeps s) (fast_entry msg ?j0 (getu (sm_msg msg) 14 2) i s1)"
      using J getu_4 getu_2 by (auto simp: fast_entry_def msg_in [OF L] ok_satp_def fast_corr_ok intro!: upd_sat_keeps)
  qed (rule sat_keeps_refl [OF s])
  then show ?thesis
    using s by (auto simp: decode_sbstype2_def msg_in [OF L] Let_def sat_keeps_refl intro: yields_bind)
qed

text \<open>Types 6 and 7 read all entries of the mask; the fields end with the 52nd.\<close>

lemma type6_iodf:
  assumes L: "length (sm_msg msg) = 29"
  shows "collect (\<lambda>i. msg_u msg (14 + i * 2) 2) [0..<4] = Some (map (\<lambda>i. getu (sm_msg msg) (14 + i * 2) 2) [0..<4])"
  by (rule collect_map) (auto intro: msg_in [OF L])

lemma type6_entry:
  assumes L: "length (sm_msg msg) = 29" and J: "sat_keeps s s1" and i: "i < ss_nsat s" "i < 52"
  shows "yields (sat_keeps s) (integrity_entry msg (map (\<lambda>i. getu (sm_msg msg) (14 + i * 2) 2) [0..<4]) i s1)"
proof -
  have l: "length (ss_sat s1) = 221" using sat_keeps_nsat [OF J] by simp
  have "i div 13 < 4" using i(2) by linarith
  then have v: "arr_get (map f [0..<4]) (int (i div 13)) = Some (f (i div 13))" for f :: "nat \<Rightarrow> int"
    by (subst arr_in) auto
  have "yields (sat_keeps s) (upd_sat (int i) (\<lambda>p. p\<lparr>sp_fcorr := (sp_fcorr p)
      \<lparr>fc_udre := getu (sm_msg msg) (22 + i * 4) 4 + 1\<rparr>\<rparr>) s1)"
    using J i getu_4 by (intro upd_sat_keeps) (auto simp: ok_satp_def)
  then show ?thesis using i l J by (simp add: integrity_entry_def arr_in(1) v msg_in [OF L] del: upt_Suc upt_conv_Cons_Cons)
qed

lemma type7_entry:
  assumes L: "length (sm_msg msg) = 29" and J: "sat_keeps s s1" and i: "i < ss_nsat s" "i < 52"
  shows "yields (sat_keeps s) (degradation_entry msg i s1)"
proof -
  have "yields (sat_keeps s) (upd_sat (int i) (\<lambda>p. p\<lparr>sp_fcorr := (sp_fcorr p)\<lparr>fc_ai := getu (sm_msg msg) (22 + i * 4) 4\<rparr>\<rparr>) s1)"
    using J i getu_4 by (intro upd_sat_keeps) (auto simp: ok_satp_def)
  then show ?thesis using i by (simp add: degradation_entry_def msg_in [OF L])
qed

lemma type7_start: "wf_sbssat s \<Longrightarrow> sat_keeps s (s\<lparr>ss_tlat := t\<rparr>)"
  by (simp add: sat_keeps_def wf_sbssat_def sat_mask_kept_def)

lemma type67_yields:
  assumes s: "wf_sbssat s" and L: "length (sm_msg msg) = 29" and n: "ss_nsat s \<le> 52"
  shows "yields (\<lambda>(s', r). sat_keeps s s') (decode_sbstype6 msg s)" and "yields (\<lambda>(s', r). sat_keeps s s') (decode_sbstype7 msg s)"
proof -
  have m: "min (ss_nsat s) (nat MAXSAT) = ss_nsat s" using n by simp
  have "yields (sat_keeps s) (each (integrity_entry msg (map (\<lambda>i. getu (sm_msg msg) (14 + i * 2) 2) [0..<4])) [0..<ss_nsat s] s)"
    using n by (intro each_yields type6_entry [OF L] sat_keeps_refl [OF s]) auto
  then show "yields (\<lambda>(s', r). sat_keeps s s') (decode_sbstype6 msg s)"
    unfolding decode_sbstype6_def type6_iodf [OF L] m by (auto intro: yields_bind)
  have "yields (sat_keeps s) (each (degradation_entry msg) [0..<ss_nsat s] (s\<lparr>ss_tlat := getu (sm_msg msg) 14 4\<rparr>))"
    using n by (intro each_yields type7_entry [OF L] type7_start [OF s]) auto
  then show "yields (\<lambda>(s', r). sat_keeps s s') (decode_sbstype7 msg s)"
    unfolding decode_sbstype7_def m using s by (auto simp: msg_in [OF L] sat_keeps_refl intro: yields_bind)
qed

lemma upt_52: "52 < n \<Longrightarrow> [0..<n] = [0..<52] @ 52 # [53..<n]"
  using upt_add_eq_append [of 0 52 "n - 52"] upt_conv_Cons [of 52 n] by simp

lemma type67_outside:
  assumes s: "wf_sbssat s" and L: "length (sm_msg msg) = 29" and n: "52 < ss_nsat s"
  shows "decode_sbstype6 msg s = None" and "decode_sbstype7 msg s = None \<longleftrightarrow> ss_iodp s = getu (sm_msg msg) 18 2"
proof -
  have m: "min (ss_nsat s) (nat MAXSAT) = ss_nsat s" using s by (simp add: wf_sbssat_def)
  let ?iodf = "map (\<lambda>i. getu (sm_msg msg) (14 + i * 2) 2) [0..<4]"
  have a: "arr_get ?iodf (int (52 div 13)) = None" by (simp add: arr_get_def)
  have six: "integrity_entry msg ?iodf 52 s1 = None" for s1
    unfolding integrity_entry_def a by (cases "arr_get (ss_sat s1) (int 52)") simp_all
  have seven: "degradation_entry msg 52 s1 = None" for s1 by (simp add: degradation_entry_def msg_u_def L)
  have e: "each f [0..<ss_nsat s] s1 = None" if "\<And>s1. f 52 s1 = None" for f and s1 :: sbssat
    unfolding upt_52 [OF n] each_append each.simps that by (cases "each f [0..<52] s1") simp_all
  show "decode_sbstype6 msg s = None"
    unfolding decode_sbstype6_def type6_iodf [OF L] m using e [of "integrity_entry msg ?iodf" s, OF six] by simp
  show "decode_sbstype7 msg s = None \<longleftrightarrow> ss_iodp s = getu (sm_msg msg) 18 2"
    unfolding decode_sbstype7_def m using e [of "degradation_entry msg", OF seven] by (simp add: msg_in [OF L])
qed

section \<open>Long-term and mixed corrections\<close>

lemma longcorr_yields:
  assumes J: "sat_keeps s0 s" and L: "length (sm_msg msg) = 29"
  shows "p \<le> 181 \<Longrightarrow> yields (\<lambda>(s', r). sat_keeps s0 s') (decode_longcorr0 msg p s)"
    and "p \<le> 129 \<Longrightarrow> yields (\<lambda>(s', r). sat_keeps s0 s') (decode_longcorr1 msg p s)"
proof -
  have n: "getu (sm_msg msg) p 6 \<le> 63" using getu_range [of 6 "sm_msg msg" p] by simp
  have j: "getu (sm_msg msg) p 6 \<noteq> 0 \<Longrightarrow> 0 \<le> getu (sm_msg msg) p 6 - 1" using getu_nonneg [of "sm_msg msg" p 6] by linarith
  have u: "yields (sat_keeps s0) (upd_sat (getu (sm_msg msg) p 6 - 1) (\<lambda>q. q\<lparr>sp_lcorr := c\<rparr>) s)"
    if "getu (sm_msg msg) p 6 \<noteq> 0" "length (lc_dpos c) = 3" "length (lc_dvel c) = 3" for c
    using J n j [OF that(1)] that(2,3) by (intro upd_sat_keeps) (auto simp: ok_satp_def)
  show "yields (\<lambda>(s', r). sat_keeps s0 s') (decode_longcorr0 msg p s)" if p: "p \<le> 181"
  proof -
    have c: "collect (\<lambda>i. msg_s msg (p + 14 + 9 * i) 9) [0..<3] = Some (map (\<lambda>i. getbits (sm_msg msg) (p + 14 + 9 * i) 9) [0..<3])"
      using p by (intro collect_map msg_in [OF L]) simp
    show ?thesis
      using J p n unfolding decode_longcorr0_def c
      by (auto simp: msg_in [OF L] intro!: yields_bind [OF u])
  qed
  show "yields (\<lambda>(s', r). sat_keeps s0 s') (decode_longcorr1 msg p s)" if p: "p \<le> 129"
  proof -
    have c: "collect (\<lambda>i. msg_s msg (p + 14 + i * 11) 11) [0..<3] = Some (map (\<lambda>i. getbits (sm_msg msg) (p + 14 + i * 11) 11) [0..<3])"
      "collect (\<lambda>i. msg_s msg (p + 58 + i * 8) 8) [0..<3] = Some (map (\<lambda>i. getbits (sm_msg msg) (p + 58 + i * 8) 8) [0..<3])"
      using p by (intro collect_map msg_in [OF L]; simp)+
    show ?thesis
      using J p n unfolding decode_longcorr1_def c
      by (auto simp: msg_in [OF L] Let_def intro!: yields_bind [OF u])
  qed
qed

lemma and_then_yields:
  assumes "yields (\<lambda>(s', r). J s') (f s)" and "\<And>s. J s \<Longrightarrow> yields (\<lambda>(s', r). J s') (g s)"
  shows "yields (\<lambda>(s', r). J s') (and_then f g s)"
  unfolding and_then_def
  by (rule yields_bind [OF assms(1)]) (auto intro!: yields_bind [OF assms(2)])

lemma longcorrh_yields:
  assumes J: "sat_keeps s0 s" and L: "length (sm_msg msg) = 29" and p: "p \<le> 126"
  shows "yields (\<lambda>(s', r). sat_keeps s0 s') (decode_longcorrh msg p s)"
  using J p unfolding decode_longcorrh_def
  by (auto simp: msg_in [OF L] intro!: and_then_yields longcorr_yields [OF _ L])

lemma type24_yields:
  assumes s: "wf_sbssat s" and L: "length (sm_msg msg) = 29"
  shows "yields (\<lambda>(s', r). sat_keeps s s') (decode_sbstype24 msg s)"
proof -
  let ?blk = "getu (sm_msg msg) 112 2" and ?iodf = "getu (sm_msg msg) 114 2"
  have "yields (sat_keeps s) (each (mixed_entry msg ?blk ?iodf) (takeWhile (\<lambda>i. 13 * ?blk + int i < int (ss_nsat s)) [0..<6]) s)"
  proof (rule each_yields)
    fix i s1 assume i: "i \<in> set (takeWhile (\<lambda>i. 13 * ?blk + int i < int (ss_nsat s)) [0..<6])" and J: "sat_keeps s s1"
    have "13 * ?blk + int i < int (ss_nsat s)" "i < 6" using takeWhile_in [OF i] by auto
    moreover have "ss_nsat s \<le> 221" using s by (simp add: wf_sbssat_def)
    ultimately show "yields (sat_keeps s) (mixed_entry msg ?blk ?iodf i s1)"
      using J getu_4 getu_2 by (auto simp: mixed_entry_def msg_in [OF L] ok_satp_def intro!: upd_sat_keeps)
  qed (rule sat_keeps_refl [OF s])
  then show ?thesis
    using s longcorrh_yields [OF _ L, of s _ 120]
    by (auto simp: decode_sbstype24_def msg_in [OF L] sat_keeps_refl intro: yields_bind)
qed

lemma type25_yields:
  assumes s: "wf_sbssat s" and L: "length (sm_msg msg) = 29"
  shows "yields (\<lambda>(s', r). sat_keeps s s') (decode_sbstype25 msg s)"
  unfolding decode_sbstype25_def
  by (intro and_then_yields longcorrh_yields [OF _ L] sat_keeps_refl [OF s]) simp_all

text \<open>An empty first correction ends a half of velocity code 0, and the first half ends the message.\<close>

lemma type25_skipped:
  assumes L: "length (sm_msg msg) = 29" and "getu (sm_msg msg) 14 1 = 0" and "getu (sm_msg msg) 15 6 = 0"
  shows "decode_sbstype25 msg s = Some (s, 0)"
  using assms(2,3)
  by (simp add: decode_sbstype25_def and_then_def decode_longcorrh_def decode_longcorr0_def msg_in [OF L])

section \<open>Ephemerides and the ionosphere\<close>

lemma satno_sbs: "satno SYS_SBS prn \<noteq> 0 \<Longrightarrow> 120 \<le> prn \<and> prn \<le> 158"
  by (simp add: satno_def split: if_split_asm)

lemma read_seph_in: "length (sm_msg msg) = 29 \<Longrightarrow> \<exists>seph. read_seph msg sat = Some seph"
  by (simp add: read_seph_def msg_in Let_def)

lemma type9_yields:
  assumes w: "wf_sbsnav nav" and L: "length (sm_msg msg) = 29"
  shows "yields (\<lambda>(nav', r). wf_sbsnav nav' \<and> sn_sat nav' = sn_sat nav \<and> sn_ion nav' = sn_ion nav) (decode_sbstype9 msg nav)"
proof -
  obtain seph where seph: "read_seph msg (satno SYS_SBS (sm_prn msg)) = Some seph" using read_seph_in [OF L] by blast
  show ?thesis
  proof (cases "satno SYS_SBS (sm_prn msg) = 0 \<or> sn_seph nav = None")
    case True
    then show ?thesis using w by (auto simp: decode_sbstype9_def seph Let_def)
  next
    case False
    then obtain t where t: "sn_seph nav = Some t" and l: "length t = 78" using w by (auto simp: wf_sbsnav_def)
    have p: "120 \<le> sm_prn msg" "sm_prn msg \<le> 158" using satno_sbs [of "sm_prn msg"] False by simp_all
    then have n: "nat (sm_prn msg - 120) < 78" by linarith
    show ?thesis using False w p n l by (simp add: decode_sbstype9_def seph t arr_get_def arr_put_def wf_sbsnav_def Let_def)
  qed
qed

lemma igp_bit_yields:
  assumes L: "length (sm_msg msg) = 29" and b: "0 \<le> band" "band \<le> 10" and i: "i \<le> 201" and n: "n < 201"
    and l: "length igp = 201" "\<forall>p\<in>set igp. ok_igp p"
  shows "yields (\<lambda>(n', igp'). n' \<le> n + 1 \<and> length igp' = 201 \<and> (\<forall>p\<in>set igp'. ok_igp p)) (igp_bit msg band i (n, igp))"
proof (cases "getu (sm_msg msg) (23 + i) 1 = 0 \<or> igp_column band i = Some None")
  case True
  then show ?thesis using i l by (auto simp: igp_bit_def msg_in [OF L])
next
  case False
  then obtain x y bits bite where c: "igp_column band i = Some (Some (x, y, bits, bite))"
    using igp_column_band [OF b, of i] by (metis (no_types, lifting) not_Some_eq prod_cases4)
  obtain lat lon where p: "igp_place band i (x, y, bits, bite) = Some (lat, lon)" "\<bar>lat\<bar> \<le> 90" "\<bar>lon\<bar> \<le> 180"
    using igp_place_in [OF b c] by blast
  have "ok_igp (igp ! n)" using l n by simp
  then have o: "ok_igp ((igp ! n)\<lparr>ig_lat := lat, ig_lon := lon\<rparr>)" using p(2,3) by (simp add: ok_igp_def)
  have "igp_bit msg band i (n, igp) = Some (n + 1, igp[n := (igp ! n)\<lparr>ig_lat := lat, ig_lon := lon\<rparr>])"
    using False i n l(1) by (simp add: igp_bit_def msg_in [OF L] c p(1) arr_in del: One_nat_def)
  then show ?thesis using l o set_update_subset_insert [of igp n] by fastforce
qed

lemma wf_ion_nth: "wf_sbsion ions \<Longrightarrow> k < 11 \<Longrightarrow> wf_ion (ions ! k)"
  by (simp add: wf_sbsion_def MAXBAND_def)

lemma wf_ion_update: "wf_sbsion ions \<Longrightarrow> wf_ion ion \<Longrightarrow> wf_sbsion (ions[k := ion])"
  using set_update_subset_insert [of ions k ion] by (auto simp: wf_sbsion_def)

lemma wf_ion_length: "wf_sbsion ions \<Longrightarrow> length ions = 11"
  by (simp add: wf_sbsion_def MAXBAND_def)

lemma type18_yields:
  assumes w: "wf_sbsion ions" and L: "length (sm_msg msg) = 29"
  shows "yields (\<lambda>(ions', r). wf_sbsion ions' \<and> (\<forall>k < 11. int k \<noteq> getu (sm_msg msg) 18 4 \<longrightarrow> ions' ! k = ions ! k))
    (decode_sbstype18 msg ions)"
proof (cases "getu (sm_msg msg) 18 4 > 10")
  case True
  then show ?thesis using w by (simp add: decode_sbstype18_def msg_in [OF L])
next
  case False
  let ?b = "getu (sm_msg msg) 18 4"
  have b: "0 \<le> ?b" "?b \<le> 10" using False getu_nonneg by simp_all
  let ?J = "\<lambda>k (n, igp). n \<le> k \<and> length igp = 201 \<and> (\<forall>p\<in>set igp. ok_igp p)"
  have i: "wf_ion (ions ! nat ?b)" using w b by (intro wf_ion_nth) simp_all
  have "yields (?J (length [1..<202])) (each (igp_bit msg ?b) [1..<202] (0, io_igp (ions ! nat ?b)))"
  proof (rule each_counted)
    fix k q assume k: "k < length [1..<202]" and J: "?J k q"
    obtain n igp where q: "q = (n, igp)" by (cases q)
    have e: "[1..<202] ! k = k + 1" "k < 201" using k by simp_all
    have "yields (\<lambda>(n', igp'). n' \<le> n + 1 \<and> length igp' = 201 \<and> (\<forall>p\<in>set igp'. ok_igp p)) (igp_bit msg ?b ([1..<202] ! k) q)"
      unfolding q e(1) using J e(2) q by (intro igp_bit_yields [OF L b]) simp_all
    then show "yields (?J (Suc k)) (igp_bit msg ?b ([1..<202] ! k) q)"
      by (rule yields_mono) (use J q in auto)
  qed (use i in \<open>simp add: wf_ion_def MAXNIGP_def\<close>)
  then obtain n igp where e: "each (igp_bit msg ?b) [1..<202] (0, io_igp (ions ! nat ?b)) = Some (n, igp)"
    and k: "n \<le> 201" "length igp = 201" "\<forall>p\<in>set igp. ok_igp p" by (auto simp: yields_def simp del: One_nat_def upt_conv_Cons_Cons)
  have "decode_sbstype18 msg ions = Some (ions[nat ?b := (ions ! nat ?b)
      \<lparr>io_iodi := getu (sm_msg msg) 22 2, io_igp := igp, io_nigp := n\<rparr>], 1)"
    using b wf_ion_length [OF w] e
    by (simp add: decode_sbstype18_def msg_in [OF L] arr_in del: One_nat_def upt_conv_Cons_Cons)
  then show ?thesis
    using b k w wf_ion_length [OF w] by (auto simp: wf_ion_def MAXNIGP_def nth_list_update intro!: wf_ion_update)
qed

lemma put_delay_ok:
  "ig_lat (put_delay msg give delay p) = ig_lat p" "ig_lon (put_delay msg give delay p) = ig_lon p"
  "0 \<le> give \<Longrightarrow> ok_igp p \<Longrightarrow> ok_igp (put_delay msg give delay p)"
  by (auto simp: put_delay_def ok_igp_def)

definition ion_keeps :: "sbsion \<Rightarrow> sbsigp list \<Rightarrow> bool" where
  "ion_keeps ion igp \<longleftrightarrow> wf_ion (ion\<lparr>io_igp := igp\<rparr>) \<and> ion_mask_kept ion (ion\<lparr>io_igp := igp\<rparr>)"

lemma ion_mask_kept_refl: "ion_mask_kept ion ion"
  by (simp add: ion_mask_kept_def)

lemma ion_mask_kept_update:
  "k < length ions \<Longrightarrow> ion_mask_kept (ions ! j) ion \<Longrightarrow> ion_mask_kept (ions ! k) (ions[j := ion] ! k)"
  by (cases "j = k") (simp_all add: ion_mask_kept_refl)

lemma delay_entry_yields:
  assumes L: "length (sm_msg msg) = 29" and i: "i < 15" and b: "0 \<le> block" and J: "ion_keeps ion igp"
  shows "yields (ion_keeps ion) (delay_entry msg block (io_nigp ion) i igp)"
proof (cases "block * 15 + int i \<ge> int (io_nigp ion)")
  case True
  then show ?thesis using J by (simp add: delay_entry_def Let_def)
next
  case False
  define j where "j = nat (block * 15 + int i)"
  have j: "block * 15 + int i = int j" using b by (simp add: j_def)
  have l: "length igp = 201" "io_nigp ion \<le> 201" "\<forall>p\<in>set igp. ok_igp p"
    using J by (simp_all add: ion_keeps_def wf_ion_def MAXNIGP_def)
  have n: "j < io_nigp ion" "j < 201" using False j l(2) by linarith+
  let ?p = "put_delay msg (getu (sm_msg msg) (22 + i * 13 + 9) 4) (getu (sm_msg msg) (22 + i * 13) 9) (igp ! j)"
  have o: "ok_igp ?p" using l n getu_nonneg by (intro put_delay_ok) simp_all
  have "delay_entry msg block (io_nigp ion) i igp = Some (igp[j := ?p])"
    using n l(1) i by (simp add: delay_entry_def j msg_in [OF L] arr_in)
  moreover have "ion_keeps ion (igp[j := ?p])"
  proof -
    have "\<forall>p\<in>set (igp[j := ?p]). ok_igp p" using l(3) o set_update_subset_insert [of igp j ?p] by auto
    moreover have "ion_mask_kept ion (ion\<lparr>io_igp := igp[j := ?p]\<rparr>)"
      using J n l(1) by (auto simp: ion_keeps_def ion_mask_kept_def nth_list_update put_delay_ok)
    ultimately show ?thesis using l by (simp add: ion_keeps_def wf_ion_def MAXNIGP_def)
  qed
  ultimately show ?thesis by simp
qed

lemma type26_yields:
  assumes w: "wf_sbsion ions" and L: "length (sm_msg msg) = 29"
  shows "yields (\<lambda>(ions', r). wf_sbsion ions' \<and> (\<forall>k < 11. ion_mask_kept (ions ! k) (ions' ! k))) (decode_sbstype26 msg ions)"
proof -
  let ?b = "getu (sm_msg msg) 14 4"
  have same: "yields (\<lambda>(ions', r). wf_sbsion ions' \<and> (\<forall>k < 11. ion_mask_kept (ions ! k) (ions' ! k))) (Some (ions, 0))"
    using w by (simp add: ion_mask_kept_refl)
  show ?thesis
  proof (cases "?b > MAXBAND")
    case True
    then show ?thesis using same by (simp add: decode_sbstype26_def msg_in [OF L])
  next
    case False
    have b: "0 \<le> ?b" "?b \<le> 10" using False getu_nonneg by (simp_all add: MAXBAND_def)
    define ion where "ion = ions ! nat ?b"
    have i: "wf_ion ion" using w b unfolding ion_def by (intro wf_ion_nth) simp_all
    have g: "arr_get ions ?b = Some ion" using b wf_ion_length [OF w] by (simp add: arr_in ion_def)
    show ?thesis
    proof (cases "io_iodi ion = getu (sm_msg msg) 217 2")
      case False
      then show ?thesis using same \<open>\<not> ?b > MAXBAND\<close> by (simp add: decode_sbstype26_def msg_in [OF L] g)
    next
      case True
      have "yields (ion_keeps ion) (each (delay_entry msg (getu (sm_msg msg) 18 4) (io_nigp ion)) [0..<15] (io_igp ion))"
        using i by (intro each_yields delay_entry_yields [OF L]) (simp_all add: getu_nonneg ion_keeps_def ion_mask_kept_refl)
      then obtain igp where e: "each (delay_entry msg (getu (sm_msg msg) 18 4) (io_nigp ion)) [0..<15] (io_igp ion) = Some igp"
        and k: "ion_keeps ion igp" unfolding yields_def by blast
      have "decode_sbstype26 msg ions = Some (ions[nat ?b := ion\<lparr>io_igp := igp\<rparr>], 1)"
        using True False \<open>\<not> ?b > MAXBAND\<close> b wf_ion_length [OF w]
        by (simp add: decode_sbstype26_def msg_in [OF L] g e arr_in(2))
      then show ?thesis
        using k w wf_ion_length [OF w]
        by (auto simp: ion_keeps_def ion_def intro!: wf_ion_update ion_mask_kept_update)
    qed
  qed
qed

section \<open>All messages\<close>

text \<open>The issue of the mask that a message names is the one in use.\<close>

definition issue_current :: "sbsmsg \<Rightarrow> sbsnav \<Rightarrow> bool" where
  "issue_current msg nav =
    (let b = sm_msg msg; type = getu b 8 6; iodp = ss_iodp (sn_sat nav) in
     if type \<in> {0, 2, 3, 4, 5} then iodp = getu b 16 2
     else if type = 7 then iodp = getu b 18 2
     else if type = 24 then iodp = getu b 110 2
     else if type = 25 then iodp = getu b (14 + (if getu b 14 1 = 0 then 103 else 104)) 2
     else if type = 26 then getu b 14 4 \<le> 10 \<and> io_iodi (sn_ion nav ! nat (getu b 14 4)) = getu b 217 2
     else True)"

text \<open>What a message leaves: masks are changed by messages of masks only.\<close>

definition masks_kept :: "sbsmsg \<Rightarrow> sbsnav \<Rightarrow> sbsnav \<Rightarrow> bool" where
  "masks_kept msg nav nav' \<longleftrightarrow>
    (let b = sm_msg msg; type = getu b 8 6 in
     (type \<noteq> 1 \<longrightarrow> sat_mask_kept (sn_sat nav) (sn_sat nav')) \<and>
     (\<forall>k < 11. \<not> (type = 18 \<and> int k = getu b 18 4) \<longrightarrow> ion_mask_kept (sn_ion nav ! k) (sn_ion nav' ! k)))"

lemma on_sat_yields:
  assumes "wf_sbsnav nav" and "yields (\<lambda>(s', r). sat_keeps (sn_sat nav) s') q"
  shows "yields (\<lambda>(nav', r). wf_sbsnav nav' \<and> masks_kept msg nav nav') (on_sat nav q)"
  unfolding on_sat_def
  by (rule yields_bind [OF assms(2)])
    (use assms(1) in \<open>auto simp: sat_keeps_def wf_sbsnav_def masks_kept_def ion_mask_kept_refl Let_def\<close>)

lemma sat_mask_kept_refl: "sat_mask_kept s s"
  by (simp add: sat_mask_kept_def)

lemma masks_kept_refl: "masks_kept msg nav nav"
  by (simp add: masks_kept_def sat_mask_kept_refl ion_mask_kept_refl)

lemma sbs_decode_yields:
  assumes w: "wf_sbsnav nav" and L: "length (sm_msg msg) = 29"
    and n: "\<not> (52 < ss_nsat (sn_sat nav) \<and> (getu (sm_msg msg) 8 6 = 6 \<or>
      getu (sm_msg msg) 8 6 = 7 \<and> ss_iodp (sn_sat nav) = getu (sm_msg msg) 18 2))"
  shows "yields (\<lambda>(nav', r). wf_sbsnav nav' \<and> masks_kept msg nav nav') (sbs_decode (getu (sm_msg msg) 8 6) msg nav)"
proof -
  let ?t = "getu (sm_msg msg) 8 6" and ?G = "\<lambda>(nav', r). wf_sbsnav nav' \<and> masks_kept msg nav nav'"
  have s: "wf_sbssat (sn_sat nav)" and i: "wf_sbsion (sn_ion nav)" using w by (simp_all add: wf_sbsnav_def)
  have two: "yields ?G (on_sat nav (decode_sbstype2 msg (sn_sat nav)))" if "?t \<in> {0, 2, 3, 4, 5}"
    by (intro on_sat_yields type2_yields w s L that)
  have one: "yields ?G (on_sat nav (decode_sbstype1 msg (sn_sat nav)))" if "?t = 1"
    unfolding on_sat_def by (rule yields_bind [OF type1_yields [OF s L]])
      (use w that in \<open>auto simp: wf_sbsnav_def masks_kept_def ion_mask_kept_refl\<close>)
  have six: "yields ?G (on_sat nav (decode_sbstype6 msg (sn_sat nav)))" if "?t = 6"
    using n that by (intro on_sat_yields type67_yields w s L) simp
  have seven: "yields ?G (on_sat nav (decode_sbstype7 msg (sn_sat nav)))" if "?t = 7"
  proof (cases "ss_nsat (sn_sat nav) \<le> 52")
    case True
    then show ?thesis by (intro on_sat_yields type67_yields w s L)
  next
    case False
    then have "decode_sbstype7 msg (sn_sat nav) = Some (sn_sat nav, 0)"
      using n that by (simp add: decode_sbstype7_def msg_in [OF L])
    then show ?thesis using w by (simp add: on_sat_def masks_kept_refl)
  qed
  have nine: "yields ?G (decode_sbstype9 msg nav)"
    by (rule yields_mono [OF type9_yields [OF w L]]) (auto simp: masks_kept_def sat_mask_kept_refl ion_mask_kept_refl)
  have b18: "yields ?G (on_ion nav (decode_sbstype18 msg (sn_ion nav)))" if "?t = 18"
    unfolding on_ion_def by (rule yields_bind [OF type18_yields [OF i L]])
      (use w that in \<open>auto simp: wf_sbsnav_def masks_kept_def sat_mask_kept_refl ion_mask_kept_refl\<close>)
  have b26: "yields ?G (on_ion nav (decode_sbstype26 msg (sn_ion nav)))"
    unfolding on_ion_def by (rule yields_bind [OF type26_yields [OF i L]])
      (use w in \<open>auto simp: wf_sbsnav_def masks_kept_def sat_mask_kept_refl\<close>)
  have b24: "yields ?G (on_sat nav (decode_sbstype24 msg (sn_sat nav)))"
    and b25: "yields ?G (on_sat nav (decode_sbstype25 msg (sn_sat nav)))"
    by (intro on_sat_yields type24_yields type25_yields w s L)+
  have r: "?t \<in> {0, 2, 3, 4, 5}" if "2 \<le> ?t \<and> ?t \<le> 5" using that by auto
  have none: "yields ?G (Some (nav, r))" for r using w by (simp add: masks_kept_refl)
  show ?thesis
    unfolding sbs_decode_def using two one six seven nine b18 b24 b25 b26 r none by simp
qed

lemma week_zero: "length (sm_msg msg) = 29 \<Longrightarrow> sm_week msg = 0 \<Longrightarrow> sbsupdatecorr msg nav = Some (nav, -1)"
  by (simp add: sbsupdatecorr_def msg_in)

lemma sbsupdatecorr_decode:
  assumes "length (sm_msg msg) = 29" and "sm_week msg \<noteq> 0"
  shows "sbsupdatecorr msg nav = map_option (\<lambda>(nav', stat). (nav', if stat \<noteq> 0 then getu (sm_msg msg) 8 6 else -1))
    (sbs_decode (getu (sm_msg msg) 8 6) msg nav)"
  using assms by (cases "sbs_decode (getu (sm_msg msg) 8 6) msg nav") (auto simp: sbsupdatecorr_def msg_in)

text \<open>
  An access outside an array happens only with a mask of more than 52 satellites, in the messages
  of types 6 and 7.
\<close>

lemma sbsupdatecorr_fails:
  assumes w: "wf_sbsnav nav" and L: "length (sm_msg msg) = 29"
  shows "sbsupdatecorr msg nav = None \<longleftrightarrow> sm_week msg \<noteq> 0 \<and> 52 < ss_nsat (sn_sat nav) \<and>
    (getu (sm_msg msg) 8 6 = 6 \<or>
     getu (sm_msg msg) 8 6 = 7 \<and> ss_iodp (sn_sat nav) = getu (sm_msg msg) 18 2)"
proof (cases "sm_week msg = 0")
  case True
  then show ?thesis using L by (simp add: week_zero)
next
  case False
  have s: "wf_sbssat (sn_sat nav)" using w by (simp add: wf_sbsnav_def)
  let ?out = "52 < ss_nsat (sn_sat nav) \<and> (getu (sm_msg msg) 8 6 = 6 \<or>
     getu (sm_msg msg) 8 6 = 7 \<and> ss_iodp (sn_sat nav) = getu (sm_msg msg) 18 2)"
  have "sbs_decode (getu (sm_msg msg) 8 6) msg nav = None" if "?out"
    using that type67_outside [OF s L conjunct1 [OF that]] by (auto simp: sbs_decode_def on_sat_def)
  moreover have "sbs_decode (getu (sm_msg msg) 8 6) msg nav \<noteq> None" if "\<not> ?out"
    using sbs_decode_yields [OF w L that] by (auto simp: yields_def)
  ultimately have "sbs_decode (getu (sm_msg msg) 8 6) msg nav = None \<longleftrightarrow> ?out" by blast
  then show ?thesis using False by (simp add: sbsupdatecorr_decode [OF L])
qed

lemma sbsupdatecorr_keeps:
  assumes w: "wf_sbsnav nav" and L: "length (sm_msg msg) = 29" and r: "sbsupdatecorr msg nav = Some (nav', r)"
  shows "wf_sbsnav nav' \<and> masks_kept msg nav nav'"
proof (cases "sm_week msg = 0")
  case True
  then show ?thesis using r w by (simp add: week_zero [OF L] masks_kept_refl)
next
  case False
  have "sbsupdatecorr msg nav \<noteq> None" using r by simp
  then have "\<not> (52 < ss_nsat (sn_sat nav) \<and> (getu (sm_msg msg) 8 6 = 6 \<or>
      getu (sm_msg msg) 8 6 = 7 \<and> ss_iodp (sn_sat nav) = getu (sm_msg msg) 18 2))"
    using False unfolding sbsupdatecorr_fails [OF w L] by blast
  from sbs_decode_yields [OF w L this] show ?thesis
    using r False by (auto simp: sbsupdatecorr_decode [OF L] yields_def)
qed

text \<open>A message of another issue, or of no week, changes nothing.\<close>

lemma sbsupdatecorr_other_issue:
  assumes w: "wf_sbsnav nav" and L: "length (sm_msg msg) = 29" and c: "sm_week msg = 0 \<or> \<not> issue_current msg nav"
  shows "sbsupdatecorr msg nav = Some (nav, -1)"
proof (cases "sm_week msg = 0")
  case True
  then show ?thesis by (rule week_zero [OF L])
next
  case False
  then have c: "\<not> issue_current msg nav" using c by simp
  let ?t = "getu (sm_msg msg) 8 6" and ?b = "getu (sm_msg msg) 14 4"
  have "?t \<in> {0, 2, 3, 4, 5, 7, 24, 25, 26}" using c by (auto simp: issue_current_def Let_def split: if_split_asm)
  have two: "decode_sbstype2 msg (sn_sat nav) = Some (sn_sat nav, 0)" if "?t \<in> {0, 2, 3, 4, 5}"
    using c that by (simp add: issue_current_def Let_def decode_sbstype2_def msg_in [OF L])
  have seven: "decode_sbstype7 msg (sn_sat nav) = Some (sn_sat nav, 0)" if "?t = 7"
    using c that by (simp add: issue_current_def Let_def decode_sbstype7_def msg_in [OF L])
  have b24: "decode_sbstype24 msg (sn_sat nav) = Some (sn_sat nav, 0)" if "?t = 24"
    using c that by (simp add: issue_current_def Let_def decode_sbstype24_def msg_in [OF L])
  have b25: "decode_sbstype25 msg (sn_sat nav) = Some (sn_sat nav, 0)" if "?t = 25"
    using c that by (simp add: issue_current_def Let_def decode_sbstype25_def and_then_def decode_longcorrh_def msg_in [OF L] split: if_split_asm)
  have b26: "decode_sbstype26 msg (sn_ion nav) = Some (sn_ion nav, 0)" if "?t = 26"
  proof -
    have "length (sn_ion nav) = 11" using w wf_ion_length by (simp add: wf_sbsnav_def)
    then show ?thesis
      using c that getu_nonneg [of "sm_msg msg" 14 4]
      by (auto simp: issue_current_def Let_def decode_sbstype26_def msg_in [OF L] arr_in MAXBAND_def)
  qed
  have "sbs_decode ?t msg nav = Some (nav, 0)"
    using \<open>?t \<in> _\<close> two seven b24 b25 b26
    by (elim insertE emptyE) (simp_all add: sbs_decode_def on_sat_def on_ion_def)
  then show ?thesis using False by (simp add: sbsupdatecorr_decode [OF L])
qed

text \<open>The result of the routine: the type of the message, also where no decoder takes it.\<close>

lemma sbsupdatecorr_unsupported:
  assumes L: "length (sm_msg msg) = 29" and w: "sm_week msg \<noteq> 0"
    and t: "getu (sm_msg msg) 8 6 \<notin> {0, 1, 2, 3, 4, 5, 6, 7, 9, 18, 24, 25, 26}"
  shows "sbsupdatecorr msg nav = Some (nav, getu (sm_msg msg) 8 6)"
proof -
  have "\<not> (2 \<le> getu (sm_msg msg) 8 6 \<and> getu (sm_msg msg) 8 6 \<le> 5)" using t by auto
  then have "sbs_decode (getu (sm_msg msg) 8 6) msg nav = Some (nav, -1)" using t unfolding sbs_decode_def by auto
  then show ?thesis using w by (simp add: sbsupdatecorr_decode [OF L])
qed

section \<open>Entries of fast corrections\<close>

text \<open>
  Messages of types 0 and 2 to 5: the entries of their block are replaced, the others and the mask
  are kept.
\<close>

lemma fold_put_nth:
  "distinct is \<Longrightarrow> k < length (ss_sat s) \<Longrightarrow>
   ss_sat (fold (\<lambda>i. put_sat (j0 + i) (g i)) is s) ! k =
     (if j0 \<le> k \<and> k - j0 \<in> set is then g (k - j0) (ss_sat s ! k) else ss_sat s ! k)"
proof (induction "is" arbitrary: s)
  case (Cons i "is")
  then show ?case by (auto simp: put_sat_nth)
qed simp

lemma takeWhile_below: "takeWhile (\<lambda>i. j0 + int i < int n) [0..<m] = [0..<min m (nat (int n - j0))]"
proof -
  have "takeWhile (\<lambda>i. j0 + int i < int n) [0..<m] = take (min m (nat (int n - j0))) [0..<m]"
    by (rule takeWhile_eq_take_P_nth) auto
  then show ?thesis by (simp add: take_upt)
qed

definition block :: "int \<Rightarrow> nat" where
  "block type = 13 * nat ((if type = 0 then 2 else type) - 2)"

lemma type2_entries:
  assumes c: "ss_iodp s = getu (sm_msg msg) 16 2" and t: "getu (sm_msg msg) 8 6 \<in> {0, 2, 3, 4, 5}"
    and w: "wf_sbssat s" and L: "length (sm_msg msg) = 29" and k: "k < nat MAXSAT"
  shows "\<exists>s'. decode_sbstype2 msg s = Some (s', 1) \<and> ss_sat s' ! k =
    (let b = sm_msg msg; i = k - block (getu b 8 6) in
     if block (getu b 8 6) \<le> k \<and> i < 13 \<and> k < ss_nsat s
     then (ss_sat s ! k)\<lparr>sp_fcorr := fast_corr msg (getbits b (18 + i * 12) 12) (getu b (174 + 4 * i) 4)
            (getu b 14 2) (sp_fcorr (ss_sat s ! k))\<rparr>
     else ss_sat s ! k)"
proof -
  let ?t = "getu (sm_msg msg) 8 6" and ?b = "block (getu (sm_msg msg) 8 6)"
  have j0: "13 * ((if ?t = 0 then 2 else ?t) - 2) = int ?b" using t by (auto simp: block_def)
  have kl: "k < length (ss_sat s)" using w k by (simp add: wf_sbssat_def)
  define ns where "ns = [0..<min 13 (nat (int (ss_nsat s) - int ?b))]"
  define g where "g i = (\<lambda>p :: sbssatp. p\<lparr>sp_fcorr := fast_corr msg (getbits (sm_msg msg) (18 + i * 12) 12)
      (getu (sm_msg msg) (174 + 4 * i) 4) (getu (sm_msg msg) 14 2) (sp_fcorr p)\<rparr>)" for i
  have n: "ss_nsat s \<le> 221" "length (ss_sat s) = 221" using w by (simp_all add: wf_sbssat_def)
  have "each (fast_entry msg (int ?b) (getu (sm_msg msg) 14 2)) ns s = Some (fold (\<lambda>i. put_sat (?b + i) (g i)) ns s)"
  proof (rule each_fold [where J = "\<lambda>s. length (ss_sat s) = 221"])
    fix i and s1 :: sbssat
    assume i: "i \<in> set ns" and l: "length (ss_sat s1) = 221"
    have "i < 13" "?b + i < 221" using i n(1) by (auto simp: ns_def)
    then show "fast_entry msg (int ?b) (getu (sm_msg msg) 14 2) i s1 = Some (put_sat (?b + i) (g i) s1) \<and>
        length (ss_sat (put_sat (?b + i) (g i) s1)) = 221"
      using l by (simp add: fast_entry_def msg_in [OF L] upd_sat_in nat_int_add g_def)
  qed (rule n(2))
  then have e: "decode_sbstype2 msg s = Some (fold (\<lambda>i. put_sat (?b + i) (g i)) ns s, 1)"
    using c unfolding decode_sbstype2_def Let_def
    by (simp add: msg_in [OF L] j0 [simplified] takeWhile_below ns_def del: upt_conv_Cons_Cons)
  have "distinct ns" by (simp add: ns_def)
  have m: "?b \<le> k \<and> k - ?b \<in> set ns \<longleftrightarrow> ?b \<le> k \<and> k - ?b < 13 \<and> k < ss_nsat s" by (auto simp: ns_def)
  show ?thesis
    unfolding e Let_def using fold_put_nth [OF \<open>distinct ns\<close> kl, of ?b g, unfolded m] by (simp add: g_def)
qed

end
