(* ===== verification/SbasFacts.thy ===== *)
theory SbasFacts
  imports SbasCorr NavWord SbasInv
begin

text \<open>
  Properties of the use of the SBAS corrections: the fast corrections that are applied, the delays of
  the ionosphere and of the troposphere, and the messages of a receiver.
\<close>

section \<open>Fast corrections\<close>

text \<open>A fast correction that is used is one of the satellite, not older than 30 s and monitored.\<close>

lemma fast_loop_sound:
  "fast_loop time sat tlat ps = Some (prc, var) \<Longrightarrow>
    \<exists>p \<in> set ps. sp_sat p = sat \<and> gt_time (fc_t0 (sp_fcorr p)) \<noteq> 0 \<and> prc = fc_prc (sp_fcorr p) \<and>
      fc_udre (sp_fcorr p) < 15 \<and> \<bar>timediff time (fc_t0 (sp_fcorr p)) + of_int tlat\<bar> \<le> 30 \<and>
      varfcorr (fc_udre (sp_fcorr p)) \<le> var"
proof (induction ps)
  case (Cons p ps)
  have deg: "0 \<le> degfcorr a" for a
    unfolding degfcorr_def Let_def
    by (auto simp: nth_Cons split: nat.split)
  show ?case
  proof (cases "fast_loop time sat tlat ps = Some (prc, var)")
    case True
    then show ?thesis using Cons.IH by auto
  next
    case False
    then show ?thesis
      using Cons.prems deg [of "fc_ai (sp_fcorr p)"]
      by (auto simp: Let_def MAXSBSAGEF_def mult.assoc split: if_split_asm intro!: mult_nonneg_nonneg)
  qed
qed simp

section \<open>The delay of the ionosphere\<close>

lemma grid_cell: "0 < n \<Longrightarrow> 0 \<le> (v - of_int (grid v n)) / of_int n \<and> (v - of_int (grid v n)) / of_int n \<le> 1"
proof -
  assume n: "0 < n"
  have "of_int \<lfloor>v / of_int n\<rfloor> \<le> v / of_int n" "v / of_int n \<le> of_int \<lfloor>v / of_int n\<rfloor> + 1" by linarith+
  moreover have "(v - of_int (grid v n)) / of_int n = v / of_int n - of_int \<lfloor>v / of_int n\<rfloor>"
    using n by (simp add: grid_def diff_divide_distrib)
  ultimately show ?thesis by linarith
qed

lemma igp_cell_unit: "igp_cell lat lon = (latp, lonp, x, y) \<Longrightarrow> 0 \<le> x \<and> x \<le> 1 \<and> 0 \<le> y \<and> y \<le> 1"
proof -
  assume c: "igp_cell lat lon = (latp, lonp, x, y)"
  define lo where "lo = (if lon \<ge> 180 then lon - 360 else lon)"
  have "x = (lo - of_int (grid lo 5)) / 5 \<and> y = (lat - of_int (grid lat 5)) / 5 \<or>
      x = (lo - of_int (grid lo 10)) / 10 \<and> y = ((lat - 5) - of_int (grid (lat - 5) 10)) / 10"
    using c unfolding igp_cell_def Let_def lo_def [symmetric] by (auto split: if_split_asm)
  then show ?thesis
    using grid_cell [of 5 lo] grid_cell [of 5 lat] grid_cell [of 10 lo] grid_cell [of 10 "lat - 5"] by auto
qed

text \<open>The weights are those of a mean: not negative, of sum one, zero for a corner not found.\<close>

lemma igp_weights_mean:
  assumes "igp_weights found x y = Some w" and "0 \<le> x" "x \<le> 1" "0 \<le> y" "y \<le> 1"
  shows "(\<forall>k < 4. 0 \<le> w ! k \<and> (found ! k \<or> w ! k = 0)) \<and> w ! 0 + w ! 1 + w ! 2 + w ! 3 = 1"
proof -
  have p: "0 \<le> (1 - x) * (1 - y)" "0 \<le> (1 - x) * y" "0 \<le> x * (1 - y)" "0 \<le> x * y" using assms(2-5) by simp_all
  have all4: "(\<forall>k < 4. P k) \<longleftrightarrow> P 0 \<and> P 1 \<and> P 2 \<and> P 3" for P :: "nat \<Rightarrow> bool"
    by (auto simp: numeral_eq_Suc less_Suc_eq)
  show ?thesis
    using assms p unfolding igp_weights_def Let_def all4
    by (auto split: if_split_asm simp: algebra_simps)
qed

lemma search_points_sound:
  assumes "\<And>p. p \<in> set ps \<Longrightarrow> gt_time (ig_t0 p) \<noteq> 0 \<Longrightarrow> 0 < ig_give p \<Longrightarrow> Q p"
    and "\<forall>g \<in> set igp. case g of None \<Rightarrow> True | Some p \<Rightarrow> Q p"
  shows "length (search_points latp lonp ps igp) = length igp \<and>
    (\<forall>g \<in> set (search_points latp lonp ps igp). case g of None \<Rightarrow> True | Some p \<Rightarrow> Q p)"
  using assms
proof (induction ps arbitrary: igp)
  case (Cons p ps)
  show ?case
  proof (cases "gt_time (ig_t0 p) = 0")
    case True
    then show ?thesis using Cons by simp
  next
    case False
    define igp' where "igp' = (case corner latp lonp p of None \<Rightarrow> igp | Some k \<Rightarrow> igp[k := Some p])"
    have "corner latp lonp p \<noteq> None \<Longrightarrow> 0 < ig_give p" by (auto simp: corner_def Let_def split: if_split_asm)
    then have q: "corner latp lonp p \<noteq> None \<Longrightarrow> Q p" using Cons.prems(1) False by simp
    have "length igp' = length igp" "\<forall>g \<in> set igp'. case g of None \<Rightarrow> True | Some p \<Rightarrow> Q p"
      unfolding igp'_def using Cons.prems(2) q
      by (auto split: option.split dest!: subsetD [OF set_update_subset_insert])
    then show ?thesis
      using False Cons.IH [of igp'] Cons.prems(1) by (auto simp: igp'_def [symmetric] Let_def)
  qed
qed simp

text \<open>
  The delay is a mean of delays of the grid, times the factor of the slant: it lies between the
  smallest and the largest delay that is set.
\<close>

lemma mean_bounds:
  fixes t w :: "nat \<Rightarrow> real"
  assumes "\<forall>k < 4. lo * w k \<le> t k \<and> t k \<le> hi * w k" and "w 0 + w 1 + w 2 + w 3 = 1"
  shows "lo \<le> t 0 + t 1 + t 2 + t 3 \<and> t 0 + t 1 + t 2 + t 3 \<le> hi"
proof -
  have "lo * (w 0 + w 1 + w 2 + w 3) \<le> t 0 + t 1 + t 2 + t 3"
    "t 0 + t 1 + t 2 + t 3 \<le> hi * (w 0 + w 1 + w 2 + w 3)"
    using assms(1)[rule_format, of 0] assms(1)[rule_format, of 1] assms(1)[rule_format, of 2]
      assms(1)[rule_format, of 3] by (simp_all add: distrib_left)
  then show ?thesis unfolding assms(2) by simp
qed

lemma varicorr_nonneg: "0 \<le> varicorr give"
  unfolding varicorr_def Let_def by (auto simp: nth_Cons split: nat.split)

lemma ionppp_factor: "0 \<le> fst (ionppp lat lon az el 6378.1363 350)"
proof -
  have "cos el * cos el \<le> 1"
    using sin_cos_squared_add [of el] zero_le_power2 [of "sin el"] unfolding power2_eq_square by linarith
  then show ?thesis by (simp add: ionppp_def Let_def)
qed

lemma sbsioncorr_bounds:
  assumes corr: "sbsioncorr time nav pos azel = (True, delay, var)" and "-100 \<le> pos ! 2" and "0 < azel ! 1"
    and grid: "\<And>ion p. ion \<in> set (sn_ion nav) \<Longrightarrow> p \<in> set (io_igp ion) \<Longrightarrow> gt_time (ig_t0 p) \<noteq> 0 \<Longrightarrow>
      0 < ig_give p \<Longrightarrow> lo \<le> ig_delay p \<and> ig_delay p \<le> hi"
    and fp: "fp = fst (ionppp (pos ! 0) (pos ! 1) (azel ! 0) (azel ! 1) 6378.1363 350)"
  shows "lo * fp \<le> delay \<and> delay \<le> hi * fp \<and> 0 \<le> var"
proof -
  obtain fp' plat plon where pp: "ionppp (pos ! 0) (pos ! 1) (azel ! 0) (azel ! 1) 6378.1363 350 = (fp', plat, plon)"
    by (cases "ionppp (pos ! 0) (pos ! 1) (azel ! 0) (azel ! 1) 6378.1363 350") auto
  have fp': "fp' = fp" using fp pp by simp
  have fp0: "0 \<le> fp" unfolding fp by (rule ionppp_factor)
  obtain igp x y where s: "searchigp plat plon (sn_ion nav) = (igp, x, y)" by (cases "searchigp plat plon (sn_ion nav)") auto
  have xy: "0 \<le> x" "x \<le> 1" "0 \<le> y" "y \<le> 1"
    using s igp_cell_unit unfolding searchigp_def Let_def by (auto split: prod.splits)
  define points where "points = concat (map (\<lambda>i. take (io_nigp i) (io_igp i)) (take (nat MAXBAND + 1) (sn_ion nav)))"
  have Q: "lo \<le> ig_delay p \<and> ig_delay p \<le> hi" if p: "p \<in> set points" "gt_time (ig_t0 p) \<noteq> 0" "0 < ig_give p" for p
  proof -
    obtain ion where "ion \<in> set (sn_ion nav)" "p \<in> set (io_igp ion)"
      using p(1) unfolding points_def by (auto dest: in_set_takeD)
    then show ?thesis using grid p(2,3) by blast
  qed
  have found: "length igp = 4 \<and> (\<forall>g \<in> set igp. case g of None \<Rightarrow> True | Some p \<Rightarrow> lo \<le> ig_delay p \<and> ig_delay p \<le> hi)"
    using s search_points_sound [of points "\<lambda>p. lo \<le> ig_delay p \<and> ig_delay p \<le> hi" "replicate 4 None"] Q
    unfolding searchigp_def Let_def points_def [symmetric] by (auto split: prod.splits)
  obtain w where w: "igp_weights (map (\<lambda>g. g \<noteq> None) igp) x y = Some w"
    using corr assms(2,3) unfolding sbsioncorr_def pp by (auto simp: s split: option.splits)
  note m = igp_weights_mean [OF w xy]
  define t where "t k = (case igp ! k of None \<Rightarrow> 0 | Some p \<Rightarrow> w ! k * ig_delay p)" for k
  define v where "v k = (case igp ! k of None \<Rightarrow> 0
      | Some p \<Rightarrow> w ! k * varicorr (ig_give p) * 0.00000009 * \<bar>timediff time (ig_t0 p)\<bar>)" for k
  have fold: "fold (\<lambda>i (delay, var). case igp ! i of None \<Rightarrow> (delay, var)
      | Some p \<Rightarrow> (delay + w ! i * ig_delay p,
          var + w ! i * varicorr (ig_give p) * 0.00000009 * \<bar>timediff time (ig_t0 p)\<bar>)) is (d, e) =
      (d + sum_list (map t is), e + sum_list (map v is))" for "is" d e
    by (induction "is" arbitrary: d e) (auto simp: t_def v_def split: option.split)
  have dv: "delay = (t 0 + t 1 + t 2 + t 3) * fp" "var = (v 0 + v 1 + v 2 + v 3) * (fp * fp)"
  proof -
    have four: "[0..<4] = [0, 1, 2, 3 :: nat]" by (simp add: upt_conv_Cons)
    have c: "(pos ! 2 < - 100 \<or> azel ! 1 \<le> 0) = False" using assms(2,3) by auto
    have "(True, delay, var) = (True, (0 + sum_list (map t [0..<4])) * fp, (0 + sum_list (map v [0..<4])) * (fp * fp))"
      unfolding corr [symmetric] sbsioncorr_def
      by (simp only: c if_False pp s w fold Let_def prod.case option.case fp')
    then show "delay = (t 0 + t 1 + t 2 + t 3) * fp" "var = (v 0 + v 1 + v 2 + v 3) * (fp * fp)"
      by (simp_all add: four add.assoc)
  qed
  have tk: "lo * w ! k \<le> t k \<and> t k \<le> hi * w ! k" and vk: "0 \<le> v k" if k: "k < 4" for k
  proof -
    have g: "case igp ! k of None \<Rightarrow> True | Some p \<Rightarrow> lo \<le> ig_delay p \<and> ig_delay p \<le> hi"
      using found k by (metis nth_mem)
    have wk: "0 \<le> w ! k" "igp ! k = None \<Longrightarrow> w ! k = 0" using m k found by auto
    show "lo * w ! k \<le> t k \<and> t k \<le> hi * w ! k"
      using g wk by (auto simp: t_def mult.commute [of _ "w ! k"] intro: mult_left_mono split: option.splits)
    show "0 \<le> v k" using wk varicorr_nonneg by (auto simp: v_def split: option.split)
  qed
  have "lo \<le> t 0 + t 1 + t 2 + t 3 \<and> t 0 + t 1 + t 2 + t 3 \<le> hi"
    using m tk by (intro mean_bounds [of lo "\<lambda>k. w ! k"]) simp_all
  moreover have "0 \<le> v 0 + v 1 + v 2 + v 3" using vk [of 0] vk [of 1] vk [of 2] vk [of 3] by simp
  ultimately show ?thesis unfolding dv using fp0 by (simp add: mult_right_mono)
qed

lemma sbsioncorr_zero: "sbsioncorr time nav pos azel = (False, delay, var) \<Longrightarrow> delay = 0 \<and> var = 0"
  by (auto simp: sbsioncorr_def split: if_split_asm prod.splits option.splits)

lemma sbsioncorr_total:
  assumes "\<forall>ion \<in> set (sn_ion nav). \<forall>p \<in> set (io_igp ion). gt_time (ig_t0 p) \<noteq> 0 \<and> 0 < ig_give p \<longrightarrow>
      lo \<le> ig_delay p \<and> ig_delay p \<le> hi"
    and "lo \<le> 0" and "0 \<le> hi" and fp: "fp = fst (ionppp (pos ! 0) (pos ! 1) (azel ! 0) (azel ! 1) 6378.1363 350)"
  shows "case sbsioncorr time nav pos azel of (ok, delay, var) \<Rightarrow> lo * fp \<le> delay \<and> delay \<le> hi * fp \<and> 0 \<le> var"
proof -
  have z: "lo * fp \<le> 0" "0 \<le> hi * fp"
    using assms(2,3) ionppp_factor fp by (simp_all add: mult_nonpos_nonneg)
  obtain ok delay var where r: "sbsioncorr time nav pos azel = (ok, delay, var)"
    by (cases "sbsioncorr time nav pos azel") auto
  show ?thesis
  proof (cases "ok \<and> \<not> (pos ! 2 < -100 \<or> azel ! 1 \<le> 0)")
    case True
    then have ok: "sbsioncorr time nav pos azel = (True, delay, var)" and c: "-100 \<le> pos ! 2" "0 < azel ! 1"
      using r by simp_all
    have "lo * fp \<le> delay \<and> delay \<le> hi * fp \<and> 0 \<le> var"
      by (rule sbsioncorr_bounds [OF ok c _ fp]) (use assms(1) in blast)
    then show ?thesis unfolding r by simp
  next
    case False
    have "delay = 0 \<and> var = 0"
    proof (cases ok)
      case True
      then have "pos ! 2 < -100 \<or> azel ! 1 \<le> 0" using False by blast
      then show ?thesis using r by (simp add: sbsioncorr_def)
    next
      case False
      then show ?thesis using r sbsioncorr_zero [of time nav pos azel delay var] by simp
    qed
    then show ?thesis using r z by simp
  qed
qed

section \<open>The delay of the troposphere\<close>

text \<open>
  The zenith delays are kept while the position does not change, for any time: the second call
  returns the values of the first time.
\<close>

lemma trop_kept:
  assumes "length pos = 3" and "sbstropcorr t1 pos azel trop_zero = (r, st)" and "tr_zh st \<noteq> 0"
  shows "sbstropcorr t2 pos azel st = (r, st)"
proof -
  have c: "\<not> (pos ! 2 < -100 \<or> 10000 < pos ! 2 \<or> azel ! 1 \<le> 0)"
    using assms(2,3) unfolding sbstropcorr_def by (auto simp: trop_zero_def split: if_split_asm)
  have "st = \<lparr>tr_pos = take 3 pos, tr_zh = fst (zenith_delays t1 pos), tr_zw = snd (zenith_delays t1 pos)\<rparr>"
    and r: "r = (let sinel = sin (azel ! 1); m = 1.001 / sqrt (0.002001 + sinel * sinel)
      in ((tr_zh st + tr_zw st) * m, 0.12 * 0.12 * m * m))"
    using assms(2) c unfolding sbstropcorr_def Let_def by (auto simp: trop_zero_def split: prod.splits)
  then have "tr_pos st = pos" using assms(1) by simp
  then show ?thesis using c assms(3) unfolding r sbstropcorr_def Let_def by simp
qed

section \<open>Messages of a receiver\<close>

text \<open>
  What a receiver delivers for the 226 bits of a message: seven words of 32 bits and one with the
  last two bits and the parity of 24 bits, which is computed over the bits behind six zeros.
\<close>

definition bytes_of :: "nat \<Rightarrow> bool list \<Rightarrow> u8 list" where
  "bytes_of n bs = map (\<lambda>i. ucast (shift_bits (take 8 (drop (8 * i) bs)) 0)) [0..<n]"

definition sbs_parity :: "bool list \<Rightarrow> bool list" where
  "sbs_parity m = map (\<lambda>k. bit (rtk_crc24q (bytes_of 29 (replicate 6 False @ m)) 29) (23 - k)) [0..<24]"

definition sbs_words :: "bool list \<Rightarrow> u32 list" where
  "sbs_words m = map (\<lambda>i. shift_bits (take 32 (drop (32 * i) (m @ sbs_parity m))) 0) [0..<8]"

lemma bit_take_word:
  assumes "n < 32" and "l \<le> 32" and "k + l \<le> length bs"
  shows "bit (shift_bits (take l (drop k bs)) 0) n \<longleftrightarrow> n < l \<and> bs ! (k + (l - 1 - n))"
  using assms by (auto simp: bit_shift_bits)

lemma length_bytes_of [simp]: "length (bytes_of n bs) = n"
  by (simp add: bytes_of_def)

lemma bufbit_bytes_of:
  assumes "length bs = 8 * n" and "j < 8 * n"
  shows "bufbit (bytes_of n bs) j = bs ! j"
proof -
  have d: "j div 8 < n" using assms(2) by linarith
  have "bufbit (bytes_of n bs) j = bit (shift_bits (take 8 (drop (8 * (j div 8)) bs)) 0) (7 - j mod 8)"
    unfolding bufbit_def bytes_of_def using d by (simp add: bit_ucast_iff less_imp_diff_less)
  also have "\<dots> = bs ! (8 * (j div 8) + (8 - 1 - (7 - j mod 8)))"
    using assms d by (subst bit_take_word) auto
  also have "8 * (j div 8) + (8 - 1 - (7 - j mod 8)) = j" by simp
  finally show ?thesis .
qed

lemma length_sbs_frame [simp]: "length (sbs_frame m) = 29"
  by (simp add: sbs_frame_def)

lemma shifted_byte: "k < 8 \<Longrightarrow> bit (drop_bit 6 a + push_bit 2 b :: u8) k = (if k < 2 then bit a (k + 6) else bit b (k - 2))"
proof -
  assume k: "k < 8"
  have "drop_bit 6 a + push_bit 2 b = drop_bit 6 a OR push_bit 2 b"
    by (rule disjunctive_add) (auto simp: bit_drop_bit_eq bit_push_bit_iff dest: bit_imp_le_length)
  then show ?thesis
    using k by (auto simp: bit_or_iff bit_drop_bit_eq bit_push_bit_iff add.commute dest: bit_imp_le_length)
qed

text \<open>The frame is the message moved by six bits.\<close>

lemma bufbit_at: "k < 8 \<Longrightarrow> bufbit m (8 * i + k) = bit (m ! i) (7 - k)"
  by (simp add: bufbit_def)

lemma byte_place: obtains i k where "n = 8 * i + k" and "k < (8 :: nat)"
proof
  show "n = 8 * (n div 8) + n mod 8" by simp
qed simp

lemma bufbit_sbs_frame: "n < 232 \<Longrightarrow> bufbit (sbs_frame m) n = (6 \<le> n \<and> bufbit m (n - 6))"
proof -
  assume n: "n < 232"
  obtain i k where ik: "n = 8 * i + k" "k < 8" by (rule byte_place)
  then have i: "i < 29" using n by linarith
  have f: "bufbit (sbs_frame m) n = bit (sbs_frame m ! i) (7 - k)" unfolding ik(1) by (rule bufbit_at [OF ik(2)])
  show ?thesis
  proof (cases i)
    case 0
    then have "bufbit (sbs_frame m) n = bit (m ! 0) (6 + (7 - k))"
      unfolding f by (simp add: sbs_frame_def bit_drop_bit_eq)
    moreover have "\<not> bit (m ! 0) (6 + (7 - k))" if "k < 6"
      using bit_imp_le_length [of "m ! 0" "6 + (7 - k)"] that by auto
    moreover have "6 + (7 - k) = 7 - (k - 6)" if "6 \<le> k" using that ik(2) by linarith
    ultimately show ?thesis using 0 ik by (cases "k < 6") (simp_all add: bufbit_def)
  next
    case (Suc l)
    have "sbs_frame m ! i = drop_bit 6 (m ! i) + push_bit 2 (m ! l)"
      using Suc i by (simp add: sbs_frame_def del: upt_conv_Cons_Cons)
    then have g: "bufbit (sbs_frame m) n = (if 7 - k < 2 then bit (m ! i) (7 - k + 6) else bit (m ! l) (7 - k - 2))"
      unfolding f using shifted_byte [of "7 - k"] by simp
    show ?thesis
    proof (cases "7 - k < 2")
      case True
      then have e: "n - 6 = 8 * i + (k - 6)" "7 - k + 6 = 7 - (k - 6)" "k - 6 < 8" using ik by linarith+
      show ?thesis unfolding g e(1) bufbit_at [OF e(3)] using True e(2) ik Suc by simp
    next
      case False
      then have e: "n - 6 = 8 * l + (k + 2)" "7 - k - 2 = 7 - (k + 2)" "k + 2 < 8" using ik Suc by linarith+
      show ?thesis unfolding g e(1) bufbit_at [OF e(3)] using False e(2) ik Suc by simp
    qed
  qed
qed

lemma length_sbs_parity [simp]: "length (sbs_parity m) = 24"
  by (simp add: sbs_parity_def)

lemma length_sbs_bytes [simp]: "length (sbs_bytes words) = 29"
  by (simp add: sbs_bytes_def)

lemma sbs_words_bit:
  assumes "length m = 226" and "i < 8" and "n < 32"
  shows "bit (sbs_words m ! i) n \<longleftrightarrow>
    (if i = 7 then n < 26 \<and> (m @ sbs_parity m) ! (249 - n) else (m @ sbs_parity m) ! (32 * i + (31 - n)))"
proof -
  have w: "sbs_words m ! i = shift_bits (take 32 (drop (32 * i) (m @ sbs_parity m))) 0"
    using assms(2) by (simp add: sbs_words_def del: upt_conv_Cons_Cons)
  show ?thesis
  proof (cases "i = 7")
    case True
    then have "take 32 (drop (32 * i) (m @ sbs_parity m)) = take 26 (drop 224 (m @ sbs_parity m))"
      using assms(1) by simp
    moreover have "n < 26 \<Longrightarrow> 224 + (26 - 1 - n) = 249 - n" by linarith
    ultimately show ?thesis
      unfolding w using True bit_take_word [of n 26 224 "m @ sbs_parity m"] assms by auto
  next
    case False
    then have "32 * i + 32 \<le> 250" using assms(2) by linarith
    then show ?thesis
      unfolding w using False bit_take_word [of n 32 "32 * i" "m @ sbs_parity m"] assms by simp
  qed
qed

lemma sbs_bytes_words:
  assumes "length m = 226"
  shows "sbs_bytes (sbs_words m) = bytes_of 29 (m @ replicate 6 False)"
proof (rule bytes_eqI)
  fix n assume "n < 8 * length (bytes_of 29 (m @ replicate 6 False))"
  then have n: "n < 232" by simp
  have r: "bufbit (bytes_of 29 (m @ replicate 6 False)) n = (m @ replicate 6 False) ! n"
    using assms n by (intro bufbit_bytes_of) simp_all
  show "bufbit (sbs_bytes (sbs_words m)) n = bufbit (bytes_of 29 (m @ replicate 6 False)) n"
  proof (cases "n < 224")
    case True
    obtain i k where ik: "n = 8 * i + k" "k < 8" by (rule byte_place)
    define w q where "w = i div 4" and "q = i mod 4"
    have wq: "i = 4 * w + q" "q < 4" by (simp_all add: w_def q_def)
    have d: "i < 28" "w < 7" using True ik wq by linarith+
    have "sbs_bytes (sbs_words m) ! i = ucast (drop_bit ((3 - q) * 8) (sbs_words m ! w))"
      unfolding sbs_bytes_def using d(1) by (simp add: nth_append w_def q_def del: upt_conv_Cons_Cons)
    then have "bufbit (sbs_bytes (sbs_words m)) n = bit (sbs_words m ! w) ((3 - q) * 8 + (7 - k))"
      unfolding ik(1) bufbit_at [OF ik(2)] by (simp add: bit_ucast_iff bit_drop_bit_eq less_imp_diff_less)
    also have "\<dots> = (m @ sbs_parity m) ! (32 * w + (31 - ((3 - q) * 8 + (7 - k))))"
    proof -
      have "(3 - q) * 8 + (7 - k) < 32" using wq(2) ik(2) by linarith
      then show ?thesis using sbs_words_bit [OF assms, of w "(3 - q) * 8 + (7 - k)"] d(2) by simp
    qed
    also have "32 * w + (31 - ((3 - q) * 8 + (7 - k))) = n" using ik wq by linarith
    finally show ?thesis unfolding r using True assms by (simp add: nth_append)
  next
    case False
    then have d: "n div 8 = 28" using n by linarith
    have "sbs_bytes (sbs_words m) ! 28 = ucast (drop_bit 18 (sbs_words m ! 7)) AND 0xC0"
      by (simp add: sbs_bytes_def nth_append)
    moreover have "bit (0xC0 :: u8) k \<longleftrightarrow> k = 6 \<or> k = 7" for k
    proof -
      have "(0xC0 :: u8) = push_bit 6 (mask 2)" by (simp add: mask_eq_exp_minus_1 push_bit_eq_mult)
      then show ?thesis by (simp only: bit_push_bit_iff bit_mask_iff possible_bit_word) auto
    qed
    ultimately have b: "bufbit (sbs_bytes (sbs_words m)) n =
        ((7 - n mod 8 = 6 \<or> 7 - n mod 8 = 7) \<and> bit (sbs_words m ! 7) (18 + (7 - n mod 8)))"
      unfolding bufbit_def d by (auto simp: bit_and_iff bit_ucast_iff bit_drop_bit_eq)
    show ?thesis
    proof (cases "n < 226")
      case True
      then have "n = 224 \<or> n = 225" using False by linarith
      then show ?thesis
        unfolding b r using sbs_words_bit [OF assms, of 7 25] sbs_words_bit [OF assms, of 7 24] assms
        by (auto simp: nth_append)
    next
      case c: False
      then have "n mod 8 = n - 224" using n d div_mult_mod_eq [of n 8] by linarith
      then have "\<not> (7 - n mod 8 = 6 \<or> 7 - n mod 8 = 7)" using c by linarith
      then show ?thesis unfolding b r using assms c n by (simp add: nth_append)
    qed
  qed
qed simp

lemma sbs_frame_bytes:
  assumes "length m = 226"
  shows "sbs_frame (bytes_of 29 (m @ replicate 6 False)) = bytes_of 29 (replicate 6 False @ m)"
proof (rule bytes_eqI)
  fix n assume "n < 8 * length (bytes_of 29 (replicate 6 False @ m))"
  then have n: "n < 232" by simp
  have "bufbit (bytes_of 29 (replicate 6 False @ m)) n = (replicate 6 False @ m) ! n"
    using assms n by (intro bufbit_bytes_of) simp_all
  moreover have "bufbit (bytes_of 29 (m @ replicate 6 False)) (n - 6) = (m @ replicate 6 False) ! (n - 6)"
    using assms n by (intro bufbit_bytes_of) simp_all
  ultimately show "bufbit (sbs_frame (bytes_of 29 (m @ replicate 6 False))) n =
      bufbit (bytes_of 29 (replicate 6 False @ m)) n"
    using assms n unfolding bufbit_sbs_frame [OF n] by (auto simp: nth_append)
qed simp

text \<open>A message that is sent is accepted, and its bits are those of the message buffer.\<close>

lemma sbsdecodemsg_sent:
  assumes "length m = 226" and "gt_time time \<noteq> 0"
  shows "snd (sbsdecodemsg dttol time prn (sbs_words m) sm) \<and>
    sm_msg (fst (sbsdecodemsg dttol time prn (sbs_words m) sm)) = bytes_of 29 (m @ replicate 6 False)"
proof -
  define crc where "crc = rtk_crc24q (bytes_of 29 (replicate 6 False @ m)) 29"
  have "sbs_words m ! 7 AND 0xFFFFFF = crc"
  proof (rule bit_word_eqI)
    fix n assume "n < LENGTH(32)"
    then have n: "n < 32" by simp
    have "(0xFFFFFF :: u32) = mask 24" by (simp add: mask_eq_exp_minus_1)
    then have "bit (sbs_words m ! 7 AND 0xFFFFFF) n \<longleftrightarrow> n < 24 \<and> bit (sbs_words m ! 7) n"
      by (simp only: bit_and_iff bit_mask_iff possible_bit_word) (use n in auto)
    also have "\<dots> \<longleftrightarrow> n < 24 \<and> sbs_parity m ! (23 - n)"
      using sbs_words_bit [OF assms(1), of 7 n] n assms(1) by (auto simp: nth_append)
    also have "\<dots> \<longleftrightarrow> bit crc n"
      using fits_crc24 [of 29 "bytes_of 29 (replicate 6 False @ m)"]
      by (auto simp: sbs_parity_def crc_def [symmetric] fits_def simp del: upt_conv_Cons_Cons)
    finally show "bit (sbs_words m ! 7 AND 0xFFFFFF) n = bit crc n" .
  qed
  then show ?thesis
    using assms(2) unfolding sbsdecodemsg_def Let_def
    by (simp add: sbs_bytes_words [OF assms(1)] sbs_frame_bytes [OF assms(1)] crc_def split: prod.split)
qed

end
