(* ===== verification/Concrete2.thy ===== *)
theory Concrete2
  imports Concrete Rtcm2In RawFacts SbasFacts
begin

text \<open>
  Concrete data for RTCM 2, the navigation data of the signals and SBAS: words, messages, subframes
  and corrections the theorems are applied to.
\<close>

section \<open>RTCM 2\<close>

lemma three_bits: "{n. bit (0 :: u32) n \<noteq> bit (7 :: u32) n} = {0, 1, 2}"
proof -
  have "(7 :: u32) = mask 3" by (simp add: mask_eq_exp_minus_1)
  then have "bit (7 :: u32) n \<longleftrightarrow> n < 3" for n by (simp only: bit_mask_iff possible_bit_word) auto
  then have "bit (0 :: u32) n \<noteq> bit (7 :: u32) n \<longleftrightarrow> n < 3" for n by (simp only: bit_0_eq bot_apply bot_bool_def simp_thms)
  then have "{n. bit (0 :: u32) n \<noteq> bit (7 :: u32) n} = {..<3}" unfolding lessThan_def by simp
  also have "\<dots> = {0, 1, 2 :: nat}" by auto
  finally show ?thesis .
qed

lemma decode_word_zero: "decode_word 0 \<noteq> None"
  by code_simp

lemma rtcm0_framed2: "framed2 rtcm0"
  by (simp add: framed2_def rtcm0_def init_rtcm_def rtcm_zero_def)

text \<open>A message 6 of two words.\<close>

definition message6 :: "u8 list" where
  "message6 = [0x66, 0x18, 0x00, 0x00, 0x00, 0x00]"

lemma message6_ok: "is_message2 message6"
  by code_simp

lemma rtcm0_word: "r_word rtcm0 = 0"
  by (simp add: rtcm0_def init_rtcm_def rtcm_zero_def)

text \<open>
  A message whose first thirty bits, taken two bits early after a word that ended in 01, show the
  preamble and a correct parity as well.
\<close>

definition early_message :: "u8 list" where
  "early_message = [0x66, 0x76, 0xCF, 0xB0, 0xB4, 0x07]"

lemma early_message_ok: "is_message2 early_message"
  by code_simp

lemma bits2_code [code]:
  "bits2 dcd 0 rtcm data = Some (rtcm, 0)"
  "bits2 dcd (Suc n) rtcm data =
     do { (rtcm, ret) \<leftarrow> bit2 dcd rtcm (data AND 1 \<noteq> 0);
          case ret of Some ret \<Rightarrow> Some (rtcm, ret) | None \<Rightarrow> bits2 dcd n rtcm (drop_bit 1 data) }"
  by (simp_all add: and_one_eq mod_2_eq_odd del: One_nat_def)

lemma early_message_missed:
  "map_option snd (feed2 dcd (rtcm_zero\<lparr>r_word := 1\<rparr>) (pack6 (send2 False True early_message))) = Some []"
  by code_simp

section \<open>Navigation data\<close>

definition sf_gps :: "u8 list" where
  "sf_gps = (replicate 90 0)[5 := 0x04, 35 := 0x08, 65 := 0x0C]"

lemma sf_gps_fields:
  "getu sf_gps 43 3 = 1" "getu sf_gps 283 3 = 2" "getu sf_gps 523 3 = 3" "getu sf_gps 288 8 = 0"
  "getu sf_gps 696 8 = 0" "getu sf_gps 70 2 = 0" "getu sf_gps 168 8 = 0" "getu sf_gps 456 16 = 0"
  "getu sf_gps 24 17 = 0"
  by code_simp+

lemma sf_gps_decoded: "\<exists>g. decode_frame_eph env0 sf_gps eph_zero = Some g \<and> eph_toes g = 0"
  by (simp add: decode_frame_eph_def read_sf1_def read_sf2_def read_sf3_def Let_def sf_gps_fields)

text \<open>Subframes of BeiDou: sent at the start of a week, for a time in the second half of it.\<close>

definition sf_bds :: "u8 list" where
  "sf_bds = (replicate 114 0)[2 := 0x40, 9 := 0x30, 10 := 0xC0, 11 := 0x14, 40 := 0x80, 42 := 0x01,
     43 := 0x80, 74 := 0x10, 78 := 0xC0, 80 := 0x03, 81 := 0x21, 82 := 0xA0, 83 := 0x08]"

lemma sf_bds_fields:
  "getu sf_bds 15 3 = 1" "getu sf_bds 319 3 = 2" "getu sf_bds 623 3 = 3"
  "getu sf_bds 18 8 = 0" "getu sf_bds 30 12 = 0" "getu sf_bds 322 8 = 0" "getu sf_bds 334 12 = 6"
  "getu sf_bds 626 8 = 0" "getu sf_bds 638 12 = 12" "getu sf_bds 73 9 = 195" "getu sf_bds 90 8 = 80"
  "getu sf_bds 594 2 = 1" "getu sf_bds 650 10 = 538" "getu sf_bds 668 5 = 16"
  by code_simp+

lemma sf_bds_decoded: "\<exists>g. decode_bds_d1_eph sf_bds eph_zero = Some g \<and> eph_toes g = 400000"
  by (simp add: decode_bds_d1_eph_def bds_frn_def bds_sow_def bds_d1_sf3_def getbitu2_def
      merge_two_u_def Let_def sf_bds_fields)

lemma sf_bds_sow: "bds_sow sf_bds 0 = 0"
  by (simp add: bds_sow_def getbitu2_def sf_bds_fields)

text \<open>A GLONASS string of zeros, and the same with its first check bit changed.\<close>

definition glo_sent :: "u8 list" where "glo_sent = replicate 11 0"
definition glo_received :: "u8 list" where "glo_received = glo_sent[10 := 0x08]"

lemma glo_sent_ok: "\<not> (\<exists>c \<in> set (check_sums glo_sent). c)"
  by code_simp

lemma glo_received_ok: "test_glostr glo_received"
  by code_simp

lemma glo_errors:
  "card {n. 1 \<le> n \<and> n \<le> 85 \<and> string_bit glo_sent n \<noteq> string_bit glo_received n} \<le> 2"
proof -
  have t: "list_all (\<lambda>n. string_bit glo_sent n = string_bit glo_received n) [2..<86]" by code_simp
  have "{n. 1 \<le> n \<and> n \<le> 85 \<and> string_bit glo_sent n \<noteq> string_bit glo_received n} \<subseteq> {1}"
  proof
    fix n assume n: "n \<in> {n. 1 \<le> n \<and> n \<le> 85 \<and> string_bit glo_sent n \<noteq> string_bit glo_received n}"
    then have "n \<notin> set [2..<86]" using t unfolding list_all_iff by blast
    then have "\<not> (2 \<le> n \<and> n < 86)" unfolding set_upt atLeastLessThan_iff .
    moreover have "1 \<le> n" "n \<le> 85" using n by blast+
    ultimately show "n \<in> {1}" unfolding singleton_iff by linarith
  qed
  from card_mono [OF _ this] show ?thesis by simp
qed

section \<open>SBAS\<close>

definition sat_zero :: sbssatp where
  "sat_zero = \<lparr>sp_sat = 0,
     sp_fcorr = \<lparr>fc_t0 = time0, fc_prc = 0, fc_rrc = 0, fc_dt = 0, fc_iodf = 0, fc_udre = 0, fc_ai = 0\<rparr>,
     sp_lcorr = \<lparr>lc_t0 = time0, lc_iode = 0, lc_dpos = [0, 0, 0], lc_dvel = [0, 0, 0], lc_daf0 = 0, lc_daf1 = 0\<rparr>\<rparr>"

definition igp_zero :: sbsigp where
  "igp_zero = \<lparr>ig_t0 = time0, ig_lat = 0, ig_lon = 0, ig_give = 0, ig_delay = 0\<rparr>"

definition ion_zero :: sbsion where
  "ion_zero = \<lparr>io_iodi = 0, io_nigp = 0, io_igp = replicate 201 igp_zero\<rparr>"

definition sbs0 :: sbsnav where
  "sbs0 = \<lparr>sn_sat = \<lparr>ss_iodp = 0, ss_nsat = 0, ss_tlat = 0, ss_sat = replicate 221 sat_zero\<rparr>,
     sn_ion = replicate 11 ion_zero, sn_seph = None\<rparr>"

lemma sat_zero_ok: "ok_satp sat_zero"
  by (simp add: ok_satp_def sat_zero_def)

lemma igp_zero_ok: "ok_igp igp_zero"
  by (simp add: ok_igp_def igp_zero_def)

lemma sbs0_wf: "wf_sbsnav sbs0"
  by (simp add: wf_sbsnav_def wf_sbssat_def wf_sbsion_def wf_ion_def sbs0_def ion_zero_def MAXBAND_def MAXNIGP_def
      sat_zero_ok igp_zero_ok)

text \<open>A mask of 60 satellites and a message of a type.\<close>

definition sbs60 :: sbsnav where "sbs60 = sbs0\<lparr>sn_sat := (sn_sat sbs0)\<lparr>ss_nsat := 60\<rparr>\<rparr>"

lemma sbs60_wf: "wf_sbsnav sbs60"
  using sbs0_wf by (simp add: wf_sbsnav_def wf_sbssat_def sbs60_def)

definition sbs_msg :: "u8 \<Rightarrow> sbsmsg" where
  "sbs_msg b = \<lparr>sm_week = 2200, sm_tow = 345600, sm_prn = 133, sm_msg = (replicate 29 0)[1 := b]\<rparr>"

lemma sbs_msg_length: "length (sm_msg (sbs_msg b)) = 29"
  by (simp add: sbs_msg_def)

lemma sbs_msg_week: "sm_week (sbs_msg b) = 2200"
  by (simp add: sbs_msg_def)

lemma sbs_msg_types: "getu (sm_msg (sbs_msg 24)) 8 6 = 6" "getu (sm_msg (sbs_msg 8)) 8 6 = 2"
  "getu (sm_msg (sbs_msg 40)) 8 6 = 10"
  "getu (sm_msg (sbs_msg 8)) 16 2 = 0" "getu (sm_msg (sbs_msg 8)) 14 2 = 0"
  by code_simp+

text \<open>One satellite with a fast correction.\<close>

definition sat5 :: sbssat where
  "sat5 = \<lparr>ss_iodp = 0, ss_nsat = 1, ss_tlat = 0, ss_sat = sat_zero\<lparr>sp_sat := 5, sp_fcorr :=
     (sp_fcorr sat_zero)\<lparr>fc_t0 := \<lparr>gt_time = 1000, gt_sec = 0\<rparr>, fc_prc := 3, fc_udre := 1\<rparr>\<rparr> # replicate 220 sat_zero\<rparr>"

lemma sat5_wf: "wf_sbssat sat5"
  using sat_zero_ok by (simp add: wf_sbssat_def sat5_def ok_satp_def)

lemma sat5_fields: "ss_nsat sat5 = 1" "ss_iodp sat5 = 0"
  by (simp_all add: sat5_def)

lemma sat5_corr: "sbsfastcorr \<lparr>gt_time = 1010, gt_sec = 0\<rparr> 5 sat5 = Some (3, 0.052 + 0.0058 * 10 * 10 / 2)"
  by (simp add: sbsfastcorr_def sat5_def sat_zero_def Let_def timediff_def MAXSBSAGEF_def varfcorr_def degfcorr_def)

text \<open>One grid point with a delay of one metre.\<close>

definition igp1 :: sbsigp where
  "igp1 = igp_zero\<lparr>ig_t0 := \<lparr>gt_time = 1000, gt_sec = 0\<rparr>, ig_give := 1, ig_delay := 1\<rparr>"

definition sbs1 :: sbsnav where
  "sbs1 = sbs0\<lparr>sn_ion := \<lparr>io_iodi = 0, io_nigp = 1, io_igp = igp1 # replicate 200 igp_zero\<rparr> # replicate 10 ion_zero\<rparr>"

lemma sbs1_delays:
  "\<forall>ion \<in> set (sn_ion sbs1). \<forall>p \<in> set (io_igp ion). gt_time (ig_t0 p) \<noteq> 0 \<and> 0 < ig_give p \<longrightarrow>
    0 \<le> ig_delay p \<and> ig_delay p \<le> 1"
  by (auto simp: sbs1_def igp1_def igp_zero_def ion_zero_def time0_def)

end
