(* ===== verification/Mat.thy ===== *)
theory Mat
  imports NavPrelude
begin

text \<open>
  Matrices and vectors (the routines of \<^verbatim>\<open>rtkcmn.c\<close> that are compiled without LAPACK): products, LU
  decomposition, inverse, linear equations, least squares, the Kalman filter and the smoother.

  A matrix is a function of row and column: \<open>A i j\<close> stands for \<^verbatim>\<open>A[i+j*n]\<close>; a vector is a function of
  the index, and \<open>colm v\<close> is the matrix of one column.  Loops over elements are folds over their
  indexes, in the order of the code.  A local matrix that the code allocates and fills before it reads
  it starts as \<open>zeros\<close>; where it may be read before, its content is an argument.  A routine that fails
  gives None, or its status and what it leaves in its output arguments.
\<close>

type_synonym mat = "nat \<Rightarrow> nat \<Rightarrow> double"
type_synonym vec = "nat \<Rightarrow> double"

definition put :: "mat \<Rightarrow> nat \<Rightarrow> nat \<Rightarrow> double \<Rightarrow> mat" where
  "put M i j v = M(i := (M i)(j := v))"

definition zeros :: mat where "zeros = (\<lambda>i j. 0)"
definition eye :: mat where "eye = (\<lambda>i j. if i = j then 1 else 0)"
definition colm :: "vec \<Rightarrow> mat" where "colm v = (\<lambda>i j. v i)"

section \<open>Vectors\<close>

definition dot :: "vec \<Rightarrow> vec \<Rightarrow> nat \<Rightarrow> double" where
  "dot a b n = fold (\<lambda>i c. c + a i * b i) (rev [0..<n]) 0"

definition norm_v :: "vec \<Rightarrow> nat \<Rightarrow> double" where
  "norm_v a n = sqrt (dot a a n)"

definition cross3 :: "vec \<Rightarrow> vec \<Rightarrow> vec \<Rightarrow> vec" where
  "cross3 a b c = c(0 := a 1 * b 2 - a 2 * b 1, 1 := a 2 * b 0 - a 0 * b 2, 2 := a 0 * b 1 - a 1 * b 0)"

definition normv3 :: "vec \<Rightarrow> vec \<Rightarrow> vec option" where
  "normv3 a b =
    (let r = norm_v a 3 in if r \<le> 0 then None else Some (b(0 := a 0 / r, 1 := a 1 / r, 2 := a 2 / r)))"

section \<open>Products\<close>

definition matmul :: "string \<Rightarrow> nat \<Rightarrow> nat \<Rightarrow> nat \<Rightarrow> double \<Rightarrow> mat \<Rightarrow> mat \<Rightarrow> double \<Rightarrow> mat \<Rightarrow> mat" where
  "matmul t n k m alpha A B beta C =
    fold (\<lambda>i C. fold (\<lambda>j C.
      let d = fold (\<lambda>x d. d + (if t ! 0 = CHR ''N'' then A i x else A x i) * (if t ! 1 = CHR ''N'' then B x j else B j x))
                [0..<m] 0
      in put C i j (if beta = 0 then alpha * d else alpha * d + beta * C i j)) [0..<k] C) [0..<n] C"

section \<open>LU decomposition\<close>

definition row_big :: "nat \<Rightarrow> mat \<Rightarrow> nat \<Rightarrow> double" where
  "row_big n A i = fold (\<lambda>j big. let tmp = \<bar>A i j\<bar> in if tmp > big then tmp else big) [0..<n] 0"

fun lu_scale :: "nat \<Rightarrow> mat \<Rightarrow> nat list \<Rightarrow> vec \<Rightarrow> vec option" where
  "lu_scale n A [] vv = Some vv"
| "lu_scale n A (i # is) vv =
    (let big = row_big n A i in if big > 0 then lu_scale n A is (vv(i := 1 / big)) else None)"

text \<open>The element \<open>i, j\<close> less the products of the first \<open>m\<close> elements of its row and column.\<close>

definition lu_elem :: "mat \<Rightarrow> nat \<Rightarrow> nat \<Rightarrow> nat \<Rightarrow> double" where
  "lu_elem A i j m = fold (\<lambda>k s. s - A i k * A k j) [0..<m] (A i j)"

definition lu_upper :: "nat \<Rightarrow> mat \<Rightarrow> mat" where
  "lu_upper j A = fold (\<lambda>i A. put A i j (lu_elem A i j i)) [0..<j] A"

text \<open>The elements from the diagonal down, and the row of the pivot.\<close>

definition lu_lower :: "nat \<Rightarrow> nat \<Rightarrow> vec \<Rightarrow> mat \<Rightarrow> nat \<Rightarrow> mat \<times> double \<times> nat" where
  "lu_lower n j vv A imax =
    fold (\<lambda>i (A, big, imax).
      let s = lu_elem A i j j; A = put A i j s; tmp = vv i * \<bar>s\<bar>
      in if tmp \<ge> big then (A, tmp, i) else (A, big, imax)) [j..<n] (A, 0, imax)"

definition swap_rows :: "nat \<Rightarrow> nat \<Rightarrow> nat \<Rightarrow> mat \<Rightarrow> mat" where
  "swap_rows n p j A = fold (\<lambda>k A. put (put A p k (A j k)) j k (A p k)) [0..<n] A"

definition lu_div :: "nat \<Rightarrow> nat \<Rightarrow> mat \<Rightarrow> mat" where
  "lu_div n j A = (let tmp = 1 / A j j in fold (\<lambda>i A. put A i j (A i j * tmp)) [j + 1..<n] A)"

record lu =
  lu_A :: mat
  lu_indx :: "nat \<Rightarrow> nat"
  lu_d :: double
  lu_vv :: vec
  lu_imax :: nat

text \<open>One column.\<close>

definition lu_col :: "nat \<Rightarrow> nat \<Rightarrow> lu \<Rightarrow> lu option" where
  "lu_col n j st =
    (case lu_lower n j (lu_vv st) (lu_upper j (lu_A st)) (lu_imax st) of (A, big, imax) \<Rightarrow>
      let st = (if j \<noteq> imax
                then st\<lparr>lu_A := swap_rows n imax j A, lu_d := - lu_d st, lu_vv := (lu_vv st)(imax := lu_vv st j)\<rparr>
                else st\<lparr>lu_A := A\<rparr>);
          st = st\<lparr>lu_imax := imax, lu_indx := (lu_indx st)(j := imax)\<rparr>
      in if lu_A st j j = 0 then None
         else Some (if j \<noteq> n - 1 then st\<lparr>lu_A := lu_div n j (lu_A st)\<rparr> else st))"

fun lu_cols :: "nat \<Rightarrow> nat list \<Rightarrow> lu \<Rightarrow> lu option" where
  "lu_cols n [] st = Some st"
| "lu_cols n (j # js) st = (case lu_col n j st of None \<Rightarrow> None | Some st \<Rightarrow> lu_cols n js st)"

definition ludcmp :: "nat \<Rightarrow> mat \<Rightarrow> lu option" where
  "ludcmp n A =
    (case lu_scale n A [0..<n] (\<lambda>i. 0) of None \<Rightarrow> None
     | Some vv \<Rightarrow> lu_cols n [0..<n] \<lparr>lu_A = A, lu_indx = (\<lambda>i. 0), lu_d = 1, lu_vv = vv, lu_imax = 0\<rparr>)"

text \<open>\<open>ii\<close> is None for \<^verbatim>\<open>-1\<close>: all elements so far are 0.\<close>

definition lub_fwd :: "mat \<Rightarrow> (nat \<Rightarrow> nat) \<Rightarrow> nat \<Rightarrow> vec \<times> nat option \<Rightarrow> vec \<times> nat option" where
  "lub_fwd A indx i = (\<lambda>(b, ii).
    let ip = indx i; s = b ip; b = b(ip := b i)
    in case ii of
        Some ii0 \<Rightarrow> (b(i := fold (\<lambda>j s. s - A i j * b j) [ii0..<i] s), ii)
      | None \<Rightarrow> (b(i := s), if s \<noteq> 0 then Some i else None))"

definition lub_back :: "nat \<Rightarrow> mat \<Rightarrow> nat \<Rightarrow> vec \<Rightarrow> vec" where
  "lub_back n A i b = b(i := fold (\<lambda>j s. s - A i j * b j) [i + 1..<n] (b i) / A i i)"

definition lubksb :: "mat \<Rightarrow> nat \<Rightarrow> (nat \<Rightarrow> nat) \<Rightarrow> vec \<Rightarrow> vec" where
  "lubksb A n indx b =
    fold (lub_back n A) (rev [0..<n]) (fst (fold (lub_fwd A indx) [0..<n] (b, None)))"

section \<open>Inverse and linear equations\<close>

definition inv_col :: "nat \<Rightarrow> lu \<Rightarrow> nat \<Rightarrow> mat \<Rightarrow> mat" where
  "inv_col n st j A =
    (let A = put (fold (\<lambda>i A. put A i j 0) [0..<n] A) j j 1;
         b = lubksb (lu_A st) n (lu_indx st) (\<lambda>i. A i j)
     in (\<lambda>i k. if k = j then b i else A i k))"

definition matinv :: "mat \<Rightarrow> nat \<Rightarrow> mat option" where
  "matinv A n = (case ludcmp n A of None \<Rightarrow> None | Some st \<Rightarrow> Some (fold (inv_col n st) [0..<n] A))"

definition solve :: "string \<Rightarrow> mat \<Rightarrow> mat \<Rightarrow> nat \<Rightarrow> nat \<Rightarrow> mat \<Rightarrow> mat option" where
  "solve t A Y n m X =
    (case matinv A n of None \<Rightarrow> None
     | Some B \<Rightarrow> Some (matmul (if t ! 0 = CHR ''N'' then ''NN'' else ''TN'') n m n 1 B Y 0 X))"

section \<open>Estimation\<close>

text \<open>The status, the parameters and their covariance.\<close>

definition lsq :: "mat \<Rightarrow> vec \<Rightarrow> nat \<Rightarrow> nat \<Rightarrow> vec \<Rightarrow> mat \<Rightarrow> int \<times> vec \<times> mat" where
  "lsq A y n m x Q =
    (if m < n then (-1, x, Q)
     else let Ay = matmul ''NN'' n 1 m 1 A (colm y) 0 zeros; Q = matmul ''NT'' n n m 1 A A 0 Q
       in case matinv Q n of None \<Rightarrow> (-1, x, Q)
          | Some Q \<Rightarrow> (0, (\<lambda>i. matmul ''NN'' n 1 n 1 Q Ay 0 (colm x) i 0), Q))"

text \<open>
  The Kalman filter; \<open>Pp\<close> is what its output argument holds before the call.
\<close>

definition filter1 :: "vec \<Rightarrow> mat \<Rightarrow> mat \<Rightarrow> vec \<Rightarrow> mat \<Rightarrow> nat \<Rightarrow> nat \<Rightarrow> mat \<Rightarrow> int \<times> vec \<times> mat" where
  "filter1 x P H v R n m Pp =
    (let F = matmul ''NN'' n m n 1 P H 0 zeros; Q = matmul ''TN'' m m n 1 H F 1 R
     in case matinv Q m of None \<Rightarrow> (-1, x, Pp)
        | Some Q \<Rightarrow>
          let K = matmul ''NN'' n m m 1 F Q 0 zeros;
              xp = (\<lambda>i. matmul ''NN'' n 1 m 1 K (colm v) 1 (colm x) i 0);
              I = matmul ''NT'' n n m (-1) K H 1 eye
          in (0, xp, matmul ''NN'' n n n 1 I P 0 Pp))"

definition filter_states :: "vec \<Rightarrow> mat \<Rightarrow> nat \<Rightarrow> nat list" where
  "filter_states x P n = filter (\<lambda>i. x i \<noteq> 0 \<and> P i i > 0) [0..<n]"

text \<open>
  The filter on the states in use; \<open>Pp\<close> is the content of the memory that the code allocates for the
  covariance of the update.
\<close>

definition kfilter :: "mat \<Rightarrow> vec \<Rightarrow> mat \<Rightarrow> mat \<Rightarrow> vec \<Rightarrow> mat \<Rightarrow> nat \<Rightarrow> nat \<Rightarrow> int \<times> vec \<times> mat" where
  "kfilter Pp x P H v R n m =
    (let ix = filter_states x P n; k = length ix
     in case filter1 (\<lambda>i. x (ix ! i)) (\<lambda>i j. P (ix ! i) (ix ! j)) (\<lambda>i j. H (ix ! i) j) v R k m Pp of
        (info, xp, Pp) \<Rightarrow>
          (info, fold (\<lambda>i x. x(ix ! i := xp i)) [0..<k] x,
           fold (\<lambda>i P. fold (\<lambda>j P. put P (ix ! i) (ix ! j) (Pp i j)) [0..<k] P) [0..<k] P))"

definition smoother :: "vec \<Rightarrow> mat \<Rightarrow> vec \<Rightarrow> mat \<Rightarrow> nat \<Rightarrow> vec \<Rightarrow> mat \<Rightarrow> int \<times> vec \<times> mat" where
  "smoother xf Qf xb Qb n xs Qs =
    (case matinv Qf n of None \<Rightarrow> (-1, xs, Qs)
     | Some invQf \<Rightarrow> (case matinv Qb n of None \<Rightarrow> (-1, xs, Qs)
       | Some invQb \<Rightarrow>
         let Qs = fold (\<lambda>j Q. fold (\<lambda>i Q. put Q i j (invQf i j + invQb i j)) [0..<n] Q) [0..<n] Qs
         in case matinv Qs n of None \<Rightarrow> (-1, xs, Qs)
            | Some Qs \<Rightarrow>
              let xx = matmul ''NN'' n 1 n 1 invQf (colm xf) 0 zeros;
                  xx = matmul ''NN'' n 1 n 1 invQb (colm xb) 1 xx
              in (0, (\<lambda>i. matmul ''NN'' n 1 n 1 Qs xx 0 (colm xs) i 0), Qs)))"

end
