(* ===== verification/Lambda.thy ===== *)
theory Lambda
  imports Mat
begin

text \<open>
  Integer least squares (\<^verbatim>\<open>lambda.c\<close>): the factorisation of the covariance matrix, the reduction
  of the lattice and the search for the best integer vectors.
  Matrices are those of \<^verbatim>\<open>Mat\<close>; elements that \<^verbatim>\<open>mat\<close> leaves uninitialised are 0 here; the code
  writes them before it reads them.
\<close>

text \<open>\<^verbatim>\<open>ROUND(x)\<close> gives a floating point number here.\<close>

definition SGN :: "double \<Rightarrow> double" where "SGN x = (if x \<le> 0 then -1 else 1)"
definition RND :: "double \<Rightarrow> double" where "RND x = of_int \<lfloor>x + 0.5\<rfloor>"

section \<open>Factorisation\<close>

text \<open>One round of the loop: row \<open>i\<close> of \<open>L\<close> and the rest of \<open>A\<close>.\<close>

definition LD_row :: "nat \<Rightarrow> mat \<Rightarrow> mat \<Rightarrow> mat \<times> mat" where
  "LD_row i A L =
    (let a = sqrt (A i i);
         L = fold (\<lambda>j L. put L i j (A i j / a)) [0..<i + 1] L;
         A = fold (\<lambda>j A. fold (\<lambda>k A. put A j k (A j k - L i k * L i j)) [0..<j + 1] A) [0..<i] A;
         L = fold (\<lambda>j L. put L i j (L i j / L i i)) [0..<i + 1] L
     in (A, L))"

fun LD_loop :: "nat \<Rightarrow> mat \<Rightarrow> mat \<Rightarrow> vec \<Rightarrow> (mat \<times> vec) option" where
  "LD_loop 0 A L D = Some (L, D)"
| "LD_loop (Suc i) A L D =
    (if A i i \<le> 0 then None
     else case LD_row i A L of (A', L) \<Rightarrow> LD_loop i A' L (D(i := A i i)))"

definition LD :: "nat \<Rightarrow> mat \<Rightarrow> mat \<Rightarrow> vec \<Rightarrow> (mat \<times> vec) option" where
  "LD n Q L D = LD_loop n Q L D"

section \<open>Reduction\<close>

definition gauss :: "nat \<Rightarrow> mat \<Rightarrow> mat \<Rightarrow> nat \<Rightarrow> nat \<Rightarrow> mat \<times> mat" where
  "gauss n L Z i j =
    (let mu = trunc (RND (L i j)) in
     if mu \<noteq> 0
     then (fold (\<lambda>k L. put L k j (L k j - of_int mu * L k i)) [i..<n] L,
           fold (\<lambda>k Z. put Z k j (Z k j - of_int mu * Z k i)) [0..<n] Z)
     else (L, Z))"

definition swap_cols :: "nat list \<Rightarrow> nat \<Rightarrow> mat \<Rightarrow> mat" where
  "swap_cols ks j M = fold (\<lambda>k M. put (put M k j (M k (j + 1))) k (j + 1) (M k j)) ks M"

definition perm :: "nat \<Rightarrow> mat \<Rightarrow> vec \<Rightarrow> nat \<Rightarrow> double \<Rightarrow> mat \<Rightarrow> mat \<times> vec \<times> mat" where
  "perm n L D j del Z =
    (let eta = D j / del;
         lam = D (j + 1) * L (j + 1) j / del;
         D = D(j := eta * D (j + 1), j + 1 := del);
         L = fold (\<lambda>k L. let a0 = L j k; a1 = L (j + 1) k
                         in put (put L j k (- L (j + 1) j * a0 + a1)) (j + 1) k (eta * a0 + lam * a1))
               [0..<j] L;
         L = put L (j + 1) j lam
     in (swap_cols [j + 2..<n] j L, D, swap_cols [0..<n] j Z))"

text \<open>The loop, from any column \<open>j\<close>; None stands for a loop that does not end.\<close>

partial_function (option) red_loop ::
    "nat \<Rightarrow> int \<Rightarrow> int \<Rightarrow> mat \<Rightarrow> vec \<Rightarrow> mat \<Rightarrow> (mat \<times> vec \<times> mat) option" where
  "red_loop n j k L D Z =
    (if j < 0 then Some (L, D, Z)
     else case (if j \<le> k then fold (\<lambda>i (L, Z). gauss n L Z i (nat j)) [nat j + 1..<n] (L, Z) else (L, Z))
       of (L, Z) \<Rightarrow>
         let del = D (nat j) + L (nat j + 1) (nat j) * L (nat j + 1) (nat j) * D (nat j + 1)
         in if del + 0.000001 < D (nat j + 1)
            then case perm n L D (nat j) del Z of (L, D, Z) \<Rightarrow> red_loop n (int n - 2) j L D Z
            else red_loop n (j - 1) k L D Z)"

definition reduction :: "nat \<Rightarrow> mat \<Rightarrow> vec \<Rightarrow> mat \<Rightarrow> (mat \<times> vec \<times> mat) option" where
  "reduction n L D Z = red_loop n (int n - 2) (int n - 2) L D Z"

section \<open>Search\<close>

definition LOOPMAX :: nat where "LOOPMAX = 10000"

text \<open>The variables of the search.\<close>

record srch =
  sr_k :: nat
  sr_y :: double
  sr_dist :: vec
  sr_zb :: vec
  sr_z :: vec
  sr_step :: vec
  sr_S :: mat
  sr_nn :: nat
  sr_imax :: nat
  sr_maxdist :: double
  sr_zn :: mat
  sr_s :: vec

text \<open>The statements at the entry of a level: round the centre.\<close>

definition enter :: "nat \<Rightarrow> double \<Rightarrow> srch \<Rightarrow> srch" where
  "enter k zb st =
    (let z = RND zb; y = zb - z
     in st\<lparr>sr_zb := (sr_zb st)(k := zb), sr_z := (sr_z st)(k := z), sr_y := y,
           sr_step := (sr_step st)(k := SGN y)\<rparr>)"

text \<open>The next value of a level: to the other side of those taken so far.\<close>

definition next_z :: "nat \<Rightarrow> srch \<Rightarrow> srch" where
  "next_z k st =
    (let z = sr_z st k + sr_step st k
     in st\<lparr>sr_z := (sr_z st)(k := z), sr_y := sr_zb st k - z,
           sr_step := (sr_step st)(k := - sr_step st k - SGN (sr_step st k))\<rparr>)"

definition put_col :: "nat \<Rightarrow> vec \<Rightarrow> nat \<Rightarrow> mat \<Rightarrow> mat" where
  "put_col n z c zn = fold (\<lambda>i zn. put zn i c (z i)) [0..<n] zn"

text \<open>A vector is complete: keep it if there is room or it is better than the worst one kept.\<close>

definition argmax :: "nat \<Rightarrow> vec \<Rightarrow> nat" where
  "argmax m s = fold (\<lambda>i imax. if s imax < s i then i else imax) [0..<m] 0"

definition store :: "nat \<Rightarrow> nat \<Rightarrow> double \<Rightarrow> srch \<Rightarrow> srch" where
  "store n m newdist st =
    (if sr_nn st < m
     then st\<lparr>sr_imax := if sr_nn st = 0 \<or> newdist > sr_s st (sr_imax st) then sr_nn st else sr_imax st,
             sr_zn := put_col n (sr_z st) (sr_nn st) (sr_zn st),
             sr_s := (sr_s st)(sr_nn st := newdist), sr_nn := sr_nn st + 1\<rparr>
     else let st = (if newdist < sr_s st (sr_imax st)
                    then let s = (sr_s st)(sr_imax st := newdist)
                         in st\<lparr>sr_zn := put_col n (sr_z st) (sr_imax st) (sr_zn st),
                               sr_s := s, sr_imax := argmax m s\<rparr>
                    else st)
          in st\<lparr>sr_maxdist := sr_s st (sr_imax st)\<rparr>)"

text \<open>The body of the loop; None is the break.\<close>

definition search_step :: "nat \<Rightarrow> nat \<Rightarrow> mat \<Rightarrow> vec \<Rightarrow> vec \<Rightarrow> srch \<Rightarrow> srch option" where
  "search_step n m L D zs st =
    (let k = sr_k st; newdist = sr_dist st k + sr_y st * sr_y st / D k in
     if newdist < sr_maxdist st
     then if k \<noteq> 0
       then let k' = k - 1;
                S = fold (\<lambda>i S. put S k' i (S (k' + 1) i + (sr_z st (k' + 1) - sr_zb st (k' + 1)) * L (k' + 1) i))
                      [0..<k' + 1] (sr_S st)
            in Some (enter k' (zs k' + S k' k')
                 (st\<lparr>sr_k := k', sr_dist := (sr_dist st)(k' := newdist), sr_S := S\<rparr>))
       else Some (next_z 0 (store n m newdist st))
     else if k = n - 1 then None
     else Some (next_z (k + 1) (st\<lparr>sr_k := k + 1\<rparr>)))"

text \<open>None for too many rounds.\<close>

fun search_loop :: "nat \<Rightarrow> nat \<Rightarrow> nat \<Rightarrow> mat \<Rightarrow> vec \<Rightarrow> vec \<Rightarrow> srch \<Rightarrow> srch option" where
  "search_loop 0 n m L D zs st = None"
| "search_loop (Suc c) n m L D zs st =
    (case search_step n m L D zs st of None \<Rightarrow> Some st | Some st' \<Rightarrow> search_loop c n m L D zs st')"

definition search_init :: "nat \<Rightarrow> vec \<Rightarrow> mat \<Rightarrow> vec \<Rightarrow> srch" where
  "search_init n zs zn s =
    enter (n - 1) (zs (n - 1))
      \<lparr>sr_k = n - 1, sr_y = 0, sr_dist = (\<lambda>i. 0), sr_zb = (\<lambda>i. 0), sr_z = (\<lambda>i. 0), sr_step = (\<lambda>i. 0),
       sr_S = zeros, sr_nn = 0, sr_imax = 0, sr_maxdist = 10 ^ 99, sr_zn = zn, sr_s = s\<rparr>"

text \<open>Sort the vectors by their distance.\<close>

definition swap_at :: "nat \<Rightarrow> nat \<Rightarrow> nat \<Rightarrow> mat \<times> vec \<Rightarrow> mat \<times> vec" where
  "swap_at n i j = (\<lambda>(zn, s). (fold (\<lambda>k zn. put (put zn k i (zn k j)) k j (zn k i)) [0..<n] zn,
     s(i := s j, j := s i)))"

definition sort_s :: "nat \<Rightarrow> nat \<Rightarrow> mat \<times> vec \<Rightarrow> mat \<times> vec" where
  "sort_s n m p =
    fold (\<lambda>i p. fold (\<lambda>j p. if snd p i < snd p j then p else swap_at n i j p) [i + 1..<m] p) [0..<m - 1] p"

text \<open>
  The search: the vectors and their distances from the memory the caller passed, None for the status
  -1.
\<close>

definition search :: "nat \<Rightarrow> nat \<Rightarrow> mat \<Rightarrow> vec \<Rightarrow> vec \<Rightarrow> mat \<Rightarrow> vec \<Rightarrow> (mat \<times> vec) option" where
  "search n m L D zs zn s =
    map_option (\<lambda>st. sort_s n m (sr_zn st, sr_s st))
      (search_loop LOOPMAX n m L D zs (search_init n zs zn s))"

section \<open>Interface\<close>

text \<open>
  \<open>E\<close> is the content of the memory that the code allocates for the vectors of the search.  None is a
  status that is not 0 (or, for the reduction, a loop that does not end; \<^verbatim>\<open>LambdaRed\<close> shows that it
  ends).
\<close>

definition lambda :: "mat \<Rightarrow> nat \<Rightarrow> nat \<Rightarrow> vec \<Rightarrow> mat \<Rightarrow> mat \<Rightarrow> vec \<Rightarrow> (mat \<times> vec) option" where
  "lambda E n m a Q F s =
    (if n = 0 \<or> m = 0 then None
     else case LD n Q zeros (\<lambda>i. 0) of None \<Rightarrow> None
       | Some (L, D) \<Rightarrow> (case reduction n L D eye of None \<Rightarrow> None
         | Some (L, D, Z) \<Rightarrow>
           let z = (\<lambda>i. matmul ''TN'' n 1 n 1 Z (colm a) 0 zeros i 0)
           in case search n m L D z E s of None \<Rightarrow> None
              | Some (E, s) \<Rightarrow> map_option (\<lambda>F. (F, s)) (solve ''T'' Z E n m F)))"

definition lambda_reduction :: "nat \<Rightarrow> mat \<Rightarrow> (mat option) option" where
  "lambda_reduction n Q =
    (if n = 0 then Some None
     else case LD n Q zeros (\<lambda>i. 0) of None \<Rightarrow> Some None
       | Some (L, D) \<Rightarrow> map_option (\<lambda>(L, D, Z). Some Z) (reduction n L D eye))"

definition lambda_search :: "nat \<Rightarrow> nat \<Rightarrow> vec \<Rightarrow> mat \<Rightarrow> mat \<Rightarrow> vec \<Rightarrow> (mat \<times> vec) option" where
  "lambda_search n m a Q F s =
    (if n = 0 \<or> m = 0 then None
     else case LD n Q zeros (\<lambda>i. 0) of None \<Rightarrow> None | Some (L, D) \<Rightarrow> search n m L D a F s)"

end
