(* ===== verification/MatLu.thy ===== *)
theory MatLu
  imports Mat
begin

text \<open>
  What the loops of the matrix routines compute: products, and the LU decomposition with its row
  exchanges; a matrix whose decomposition fails is singular, and the inverse is the inverse.
\<close>

lemma put_apply [simp]: "put M i j v r c = (if r = i \<and> c = j then v else M r c)"
  by (simp add: put_def)

definition mv :: "nat \<Rightarrow> mat \<Rightarrow> vec \<Rightarrow> vec" where
  "mv n M x = (\<lambda>r. \<Sum>c<n. M r c * x c)"

lemma mv_cong: "(\<And>c. c < n \<Longrightarrow> M r c = M' r c) \<Longrightarrow> (\<And>c. c < n \<Longrightarrow> x c = x' c) \<Longrightarrow> mv n M x r = mv n M' x' r"
  by (simp add: mv_def)

lemma mv_eye: "r < n \<Longrightarrow> mv n eye x r = x r"
  using sum.delta [of "{..<n}" r x]
  by (simp add: mv_def eye_def if_distrib [of "\<lambda>y. y * _"] cong: if_cong)

lemma mv_prod: "mv n (\<lambda>i j. \<Sum>k<m. A i k * B k j) x i = mv m A (mv n B x) i"
proof -
  have "mv n (\<lambda>i j. \<Sum>k<m. A i k * B k j) x i = (\<Sum>c<n. \<Sum>k<m. A i k * B k c * x c)"
    by (simp add: mv_def sum_distrib_right)
  also have "\<dots> = (\<Sum>k<m. \<Sum>c<n. A i k * B k c * x c)" by (rule sum.swap)
  finally show ?thesis by (simp add: mv_def sum_distrib_left mult.assoc)
qed

definition mat_prod :: "nat \<Rightarrow> mat \<Rightarrow> mat \<Rightarrow> mat" where
  "mat_prod n A B = (\<lambda>i j. \<Sum>k<n. A i k * B k j)"

text \<open>\<open>B\<close> is the inverse of \<open>A\<close>.\<close>

definition is_inv :: "nat \<Rightarrow> mat \<Rightarrow> mat \<Rightarrow> bool" where
  "is_inv n A B \<longleftrightarrow> (\<forall>i<n. \<forall>j<n. mat_prod n A B i j = eye i j \<and> mat_prod n B A i j = eye i j)"

lemma is_inv_mv:
  assumes "is_inv n A B" and "i < n"
  shows "mv n A (mv n B x) i = x i" and "mv n B (mv n A x) i = x i"
proof -
  have "mv n (mat_prod n A B) x i = mv n eye x i" "mv n (mat_prod n B A) x i = mv n eye x i"
    using assms by (auto intro!: mv_cong simp: is_inv_def)
  then show "mv n A (mv n B x) i = x i" "mv n B (mv n A x) i = x i"
    using assms(2) by (simp_all add: mat_prod_def mv_prod mv_eye)
qed

text \<open>Exchange of two indexes.\<close>

definition exch :: "nat \<Rightarrow> nat \<Rightarrow> nat \<Rightarrow> nat" where
  "exch i j c = (if c = i then j else if c = j then i else c)"

section \<open>Loops\<close>

lemma fold_plus_upt: "fold (\<lambda>x d. d + f x) [0..<m] s = s + (\<Sum>x<m. f x :: double)"
  by (induction m) simp_all

lemma fold_minus_upt: "a \<le> b \<Longrightarrow> fold (\<lambda>k s. s - f k) [a..<b] s = s - (\<Sum>k=a..<b. f k :: double)"
  by (induction b) (auto simp: le_Suc_eq)

lemma matmul_row:
  "fold (\<lambda>j C. put C i j (if beta = 0 then f j else f j + beta * C i j)) [0..<k] C =
    (\<lambda>r c. if r = i \<and> c < k then f c + beta * C r c else C r c)" for beta :: double
  by (induction k) (auto simp: fun_eq_iff less_Suc_eq)

lemma matmul_value:
  "matmul t n k m alpha A B beta C =
    (\<lambda>i j. if i < n \<and> j < k
      then alpha * (\<Sum>x<m. (if t ! 0 = CHR ''N'' then A i x else A x i) * (if t ! 1 = CHR ''N'' then B x j else B j x)) +
        beta * C i j
      else C i j)"
  unfolding matmul_def fold_plus_upt Let_def matmul_row
  by (induction n) (auto simp: fun_eq_iff less_Suc_eq)

section \<open>One column of the decomposition\<close>

definition lu_prod :: "mat \<Rightarrow> nat \<Rightarrow> nat \<Rightarrow> nat \<Rightarrow> double" where
  "lu_prod A i c m = (\<Sum>k<m. A i k * A k c)"

lemma lu_prod_cong:
  "(\<And>k. k < m \<Longrightarrow> A i k = B i' k) \<Longrightarrow> (\<And>k. k < m \<Longrightarrow> A k c = B k c) \<Longrightarrow> lu_prod A i c m = lu_prod B i' c m"
  by (simp add: lu_prod_def)

lemma lu_elem_value: "lu_elem A i j m = A i j - lu_prod A i j m"
  by (simp add: lu_elem_def fold_minus_upt lu_prod_def atLeast0LessThan)

lemma lu_upper_value:
  shows "\<not> (c = j \<and> r < j) \<Longrightarrow> lu_upper j A r c = A r c"
    and "i < j \<Longrightarrow> A i j = lu_prod (lu_upper j A) i j i + lu_upper j A i j"
proof -
  have "(\<forall>r c. \<not> (c = j \<and> r < m) \<longrightarrow> B r c = A r c) \<and> (\<forall>i<m. A i j = lu_prod B i j i + B i j)"
    if "m \<le> j" "B = fold (\<lambda>i A. put A i j (lu_elem A i j i)) [0..<m] A" for m B
    using that
  proof (induction m arbitrary: B)
    case (Suc m)
    define B0 where "B0 = fold (\<lambda>i A. put A i j (lu_elem A i j i)) [0..<m] A"
    have B: "B = put B0 m j (lu_elem B0 m j m)" using Suc(3) by (simp add: B0_def del: put_apply)
    have I: "\<And>r c. \<not> (c = j \<and> r < m) \<Longrightarrow> B0 r c = A r c" "\<And>i. i < m \<Longrightarrow> A i j = lu_prod B0 i j i + B0 i j"
      using Suc(1) [OF _ B0_def] Suc(2) by auto
    have p: "lu_prod B i j i = lu_prod B0 i j i" if "i \<le> m" for i
      unfolding B by (rule lu_prod_cong) (use that Suc(2) in auto)
    have "A i j = lu_prod B i j i + B i j" if "i < Suc m" for i
      using that p [of i] I(2) [of i] I(1) [of j m] by (cases "i = m") (auto simp: B lu_elem_value)
    moreover have "B r c = A r c" if "\<not> (c = j \<and> r < Suc m)" for r c using that I(1) by (auto simp: B)
    ultimately show ?case by blast
  qed simp
  from this [OF order_refl refl]
  show "\<not> (c = j \<and> r < j) \<Longrightarrow> lu_upper j A r c = A r c"
    and "i < j \<Longrightarrow> A i j = lu_prod (lu_upper j A) i j i + lu_upper j A i j"
    by (auto simp: lu_upper_def)
qed

lemma lu_lower_fold:
  assumes "j \<le> t" and "\<And>i. i < t \<Longrightarrow> 0 < vv i"
    and "fold (\<lambda>i (A, big, imax).
      let s = lu_elem A i j j; A = put A i j s; tmp = vv i * \<bar>s\<bar>
      in if tmp \<ge> big then (A, tmp, i) else (A, big, imax)) [j..<t] (A, 0, imax0) = (B, big, imax)"
  shows "(\<forall>r c. \<not> (c = j \<and> j \<le> r \<and> r < t) \<longrightarrow> B r c = A r c) \<and>
    (\<forall>i. j \<le> i \<and> i < t \<longrightarrow> A i j = lu_prod B i j j + B i j) \<and> 0 \<le> big \<and>
    (j < t \<longrightarrow> j \<le> imax \<and> imax < t \<and> big = vv imax * \<bar>B imax j\<bar>) \<and>
    (\<forall>i. j \<le> i \<and> i < t \<longrightarrow> vv i * \<bar>B i j\<bar> \<le> big)"
  using assms
proof (induction t arbitrary: B big imax)
  case (Suc t)
  show ?case
  proof (cases "j = Suc t")
    case False
    then have jt: "j \<le> t" using Suc(2) by simp
    obtain B0 big0 imax0' where F: "fold (\<lambda>i (A, big, imax).
      let s = lu_elem A i j j; A = put A i j s; tmp = vv i * \<bar>s\<bar>
      in if tmp \<ge> big then (A, tmp, i) else (A, big, imax)) [j..<t] (A, 0, imax0) = (B0, big0, imax0')"
      by (cases "fold (\<lambda>i (A, big, imax).
      let s = lu_elem A i j j; A = put A i j s; tmp = vv i * \<bar>s\<bar>
      in if tmp \<ge> big then (A, tmp, i) else (A, big, imax)) [j..<t] (A, 0, imax0)") auto
    note I = Suc(1) [OF jt _ F]
    have vv: "\<And>i. i < t \<Longrightarrow> 0 < vv i" "0 < vv t" using Suc(3) by auto
    define s where "s = lu_elem B0 t j j"
    have R: "(B, big, imax) = (if vv t * \<bar>s\<bar> \<ge> big0 then (put B0 t j s, vv t * \<bar>s\<bar>, t) else (put B0 t j s, big0, imax0'))"
      using Suc(4) jt unfolding s_def upt_Suc_append [OF jt] fold_append comp_apply F
      by (simp add: Let_def del: put_apply)
    then have B: "B = put B0 t j s" by (auto split: if_splits)
    have I1: "\<And>r c. \<not> (c = j \<and> j \<le> r \<and> r < t) \<Longrightarrow> B0 r c = A r c" using I [OF vv(1)] by blast
    have I2: "\<And>i. j \<le> i \<Longrightarrow> i < t \<Longrightarrow> A i j = lu_prod B0 i j j + B0 i j" using I [OF vv(1)] by blast
    have I3: "0 \<le> big0" "j < t \<Longrightarrow> j \<le> imax0' \<and> imax0' < t \<and> big0 = vv imax0' * \<bar>B0 imax0' j\<bar>"
      "\<And>i. j \<le> i \<Longrightarrow> i < t \<Longrightarrow> vv i * \<bar>B0 i j\<bar> \<le> big0" using I [OF vv(1)] by blast+
    have p: "lu_prod B i j j = lu_prod B0 i j j" for i
      unfolding B by (rule lu_prod_cong) (use jt in auto)
    have z: "big0 = 0" if "j = t" using that F by simp
    have "A i j = lu_prod B i j j + B i j" if "j \<le> i" "i < Suc t" for i
      using that I2 [of i] I1 [of j t] by (cases "i = t") (auto simp: p, simp_all add: B s_def lu_elem_value)
    moreover have "B r c = A r c" if "\<not> (c = j \<and> j \<le> r \<and> r < Suc t)" for r c
      using that I1 jt by (auto simp: B)
    moreover have "0 \<le> big" using R I3(1) by (auto split: if_splits)
    moreover have "j \<le> imax \<and> imax < Suc t \<and> big = vv imax * \<bar>B imax j\<bar>"
    proof (cases "vv t * \<bar>s\<bar> \<ge> big0")
      case True
      then show ?thesis using R jt by (simp add: B)
    next
      case F: False
      then have "j < t" using z vv(2) jt by (cases "j = t") auto
      then show ?thesis using F R I3(2) by (auto simp: B)
    qed
    moreover have "vv i * \<bar>B i j\<bar> \<le> big" if "j \<le> i" "i < Suc t" for i
      using that R I3(3) [of i] by (cases "i = t") (auto simp: B split: if_splits)
    ultimately show ?thesis by blast
  qed (use Suc in auto)
qed simp

lemma swap_rows_value:
  "p \<noteq> j \<Longrightarrow> swap_rows n p j A = (\<lambda>r c. if c < n then A (exch p j r) c else A r c)"
  unfolding swap_rows_def by (induction n) (auto simp: exch_def less_Suc_eq fun_eq_iff)

lemma lu_div_value:
  "lu_div n j A = (\<lambda>r c. if c = j \<and> j < r \<and> r < n then A r c / A j j else A r c)"
proof -
  have "fold (\<lambda>i A. put A i j (A i j * tmp)) [j + 1..<n] A = (\<lambda>r c. if c = j \<and> j < r \<and> r < n then A r c * tmp else A r c)"
    for tmp
  proof (induction n)
    case (Suc n)
    then show ?case by (cases "j < n") (auto simp: fun_eq_iff less_Suc_eq)
  qed simp
  from this [of "1 / A j j"] show ?thesis unfolding lu_div_def Let_def by simp (simp add: fun_eq_iff)
qed

section \<open>The decomposition\<close>

text \<open>Where the row exchanges of the first columns have taken a row from.\<close>

fun pm :: "(nat \<Rightarrow> nat) \<Rightarrow> nat \<Rightarrow> nat \<Rightarrow> nat" where
  "pm indx 0 i = i"
| "pm indx (Suc j) i = pm indx j (exch (indx j) j i)"

lemma pm_cong: "(\<And>k. k < j \<Longrightarrow> indx k = indx' k) \<Longrightarrow> pm indx j i = pm indx' j i"
  by (induction j arbitrary: i) simp_all

definition pivots :: "nat \<Rightarrow> nat \<Rightarrow> (nat \<Rightarrow> nat) \<Rightarrow> bool" where
  "pivots n j indx \<longleftrightarrow> (\<forall>k<j. k \<le> indx k \<and> indx k < n)"

lemma exch_less: "p < n \<Longrightarrow> j < n \<Longrightarrow> i < n \<Longrightarrow> exch p j i < n"
  by (simp add: exch_def)

lemma exch_exch [simp]: "exch p j (exch p j i) = i"
  by (simp add: exch_def)

lemma pm_less: "pivots n j indx \<Longrightarrow> j \<le> n \<Longrightarrow> i < n \<Longrightarrow> pm indx j i < n"
  by (induction j arbitrary: i) (auto simp: pivots_def exch_less)

lemma pm_inj: "pm indx j a = pm indx j b \<Longrightarrow> a = b"
proof (induction j arbitrary: a b)
  case (Suc j)
  then have "exch (indx j) j a = exch (indx j) j b" by simp
  then show ?case by (metis exch_exch)
qed simp

text \<open>An index is final when its own column is done.\<close>

lemma pm_final: "pivots n j indx \<Longrightarrow> i < k \<Longrightarrow> k \<le> j \<Longrightarrow> pm indx j i = pm indx k i"
proof (induction j)
  case (Suc j)
  show ?case
  proof (cases "k = Suc j")
    case False
    then have "i < j" "j \<le> indx j" using Suc by (auto simp: pivots_def)
    then have "exch (indx j) j i = i" by (simp add: exch_def)
    then show ?thesis using Suc False by (simp add: pivots_def)
  qed simp
qed simp

declare pm.simps [simp del]

text \<open>
  The first \<open>j\<close> columns hold the factors of the matrix with its rows exchanged; the others are those of
  the matrix.
\<close>

definition lu_inv :: "nat \<Rightarrow> mat \<Rightarrow> nat \<Rightarrow> lu \<Rightarrow> bool" where
  "lu_inv n A0 j st \<longleftrightarrow>
    (\<forall>i<n. \<forall>c<j. A0 (pm (lu_indx st) j i) c =
      (if i \<le> c then lu_prod (lu_A st) i c i + lu_A st i c else lu_prod (lu_A st) i c (Suc c))) \<and>
    (\<forall>i<n. \<forall>c<n. j \<le> c \<longrightarrow> lu_A st i c = A0 (pm (lu_indx st) j i) c) \<and>
    (\<forall>c<j. lu_A st c c \<noteq> 0) \<and> (\<forall>i<n. 0 < lu_vv st i) \<and> pivots n j (lu_indx st)"

lemma lu_lower_value:
  assumes I: "lu_inv n A0 j st" and j: "j < n" and F: "lu_lower n j (lu_vv st) (lu_upper j (lu_A st)) imax0 = (B, big, imax)"
  shows "\<And>i c. c \<noteq> j \<Longrightarrow> B i c = lu_A st i c"
    and "\<And>i. i < j \<Longrightarrow> A0 (pm (lu_indx st) j i) j = lu_prod B i j i + B i j"
    and "\<And>i. j \<le> i \<Longrightarrow> i < n \<Longrightarrow> A0 (pm (lu_indx st) j i) j = lu_prod B i j j + B i j"
    and "j \<le> imax" and "imax < n"
    and "\<And>i. j \<le> i \<Longrightarrow> i < n \<Longrightarrow> lu_vv st i * \<bar>B i j\<bar> \<le> lu_vv st imax * \<bar>B imax j\<bar>"
proof -
  let ?A = "lu_A st" and ?U = "lu_upper j (lu_A st)"
  have vv: "\<And>i. i < n \<Longrightarrow> 0 < lu_vv st i" using I by (simp add: lu_inv_def)
  note L = lu_lower_fold [OF less_imp_le [OF j] vv F [unfolded lu_lower_def]]
  have L1: "B r c = ?U r c" if "\<not> (c = j \<and> j \<le> r \<and> r < n)" for r c using L that by blast
  have L2: "?U i j = lu_prod B i j j + B i j" if "j \<le> i" "i < n" for i using L that by blast
  have L3: "j \<le> imax" "imax < n" "big = lu_vv st imax * \<bar>B imax j\<bar>"
    "\<And>i. j \<le> i \<Longrightarrow> i < n \<Longrightarrow> lu_vv st i * \<bar>B i j\<bar> \<le> big" using L j by blast+
  have A: "?A i j = A0 (pm (lu_indx st) j i) j" if "i < n" for i using I that j by (simp add: lu_inv_def)
  show "B i c = ?A i c" if "c \<noteq> j" for i c
    using L1 [of c i] lu_upper_value(1) [of c j i ?A] that by simp
  have p: "lu_prod B i j i = lu_prod ?U i j i" if "i < j" for i
    by (rule lu_prod_cong) (use L1 that in auto)
  show "A0 (pm (lu_indx st) j i) j = lu_prod B i j i + B i j" if "i < j" for i
    using lu_upper_value(2) [OF that, of ?A] A [of i] p [OF that] L1 [of j i] that j by simp
  show "A0 (pm (lu_indx st) j i) j = lu_prod B i j j + B i j" if "j \<le> i" "i < n" for i
    using L2 [OF that] A [OF that(2)] lu_upper_value(1) [of j j i ?A] that by simp
  show "j \<le> imax" "imax < n" by fact+
  show "lu_vv st i * \<bar>B i j\<bar> \<le> lu_vv st imax * \<bar>B imax j\<bar>" if "j \<le> i" "i < n" for i
    using L3(4) [OF that] L3(3) by simp
qed

text \<open>The same with the exchange of the rows.\<close>

lemma lu_swap_value:
  assumes I: "lu_inv n A0 j st" and j: "j < n" and F: "lu_lower n j (lu_vv st) (lu_upper j (lu_A st)) imax0 = (B, big, imax)"
    and C: "C = (if j \<noteq> imax then swap_rows n imax j B else B)"
    and indx: "indx = (lu_indx st)(j := imax)"
  shows "\<And>i c. i < n \<Longrightarrow> c < j \<Longrightarrow> A0 (pm indx (Suc j) i) c =
      (if i \<le> c then lu_prod C i c i + C i c else lu_prod C i c (Suc c))"
    and "\<And>i. i < j \<Longrightarrow> A0 (pm indx (Suc j) i) j = lu_prod C i j i + C i j"
    and "\<And>i. j \<le> i \<Longrightarrow> i < n \<Longrightarrow> A0 (pm indx (Suc j) i) j = lu_prod C i j j + C i j"
    and "\<And>i c. i < n \<Longrightarrow> j < c \<Longrightarrow> c < n \<Longrightarrow> C i c = A0 (pm indx (Suc j) i) c"
    and "\<And>c. c < j \<Longrightarrow> C c c \<noteq> 0"
    and "pivots n (Suc j) indx"
proof -
  let ?t = "exch imax j"
  note B = lu_lower_value [OF I j F]
  have Cv: "C i c = B (?t i) c" if "c < n" for i c
    using that by (auto simp: C swap_rows_value exch_def)
  have t: "?t i < n" if "i < n" for i using that B(5) j by (simp add: exch_less)
  have ti: "?t i = i" if "i < j" for i using that B(4) by (simp add: exch_def)
  have tj: "j \<le> ?t i" if "j \<le> i" for i using that B(4) by (simp add: exch_def)
  have pmv: "pm indx (Suc j) i = pm (lu_indx st) j (?t i)" for i
    using pm_cong [of j indx "lu_indx st" "?t i"] by (simp add: indx pm.simps(2))
  have I': "A0 (pm (lu_indx st) j i) c =
      (if i \<le> c then lu_prod (lu_A st) i c i + lu_A st i c else lu_prod (lu_A st) i c (Suc c))" if "i < n" "c < j" for i c
    using I that by (simp add: lu_inv_def)
  have pc: "lu_prod C i c m = lu_prod B (?t i) c m" if "m \<le> j" "c < n" for i c m
    by (rule lu_prod_cong) (use that j ti in \<open>simp_all add: Cv\<close>)
  have pB: "lu_prod B i c m = lu_prod (lu_A st) i c m" if "m \<le> j" "c < j" for i c m
    by (rule lu_prod_cong) (use that B(1) in auto)
  show "A0 (pm indx (Suc j) i) c = (if i \<le> c then lu_prod C i c i + C i c else lu_prod C i c (Suc c))"
    if ic: "i < n" "c < j" for i c
  proof (cases "i \<le> c")
    case True
    then have "?t i = i" using ic ti by simp
    then show ?thesis using True I' [OF ic] pc [of i c i] pB [of i c i] B(1) [of c i] ic j by (simp add: pmv Cv)
  next
    case False
    then have "c < ?t i" using ic ti [of i] tj [of i] by (cases "i < j") auto
    then show ?thesis using False I' [OF t [OF ic(1)] ic(2)] pc [of "Suc c" c i] pB [of "Suc c" c "?t i"] ic j
      by (simp add: pmv)
  qed
  show "A0 (pm indx (Suc j) i) j = lu_prod C i j i + C i j" if "i < j" for i
    using B(2) [OF that] pc [of i j i] that j by (simp add: pmv ti Cv)
  show "A0 (pm indx (Suc j) i) j = lu_prod C i j j + C i j" if "j \<le> i" "i < n" for i
    using B(3) [OF tj t, OF that] pc [of j j i] j by (simp add: pmv Cv)
  show "C i c = A0 (pm indx (Suc j) i) c" if "i < n" "j < c" "c < n" for i c
    using I t [OF that(1)] that B(1) [of c "?t i"] by (simp add: pmv Cv lu_inv_def)
  show "C c c \<noteq> 0" if "c < j" for c
    using I that B(1) [of c c] j by (simp add: Cv ti lu_inv_def)
  show "pivots n (Suc j) indx" using I B(4,5) by (auto simp: lu_inv_def pivots_def indx less_Suc_eq)
qed

lemma lu_col_cases:
  assumes F: "lu_lower n j (lu_vv st) (lu_upper j (lu_A st)) (lu_imax st) = (B, big, imax)"
    and C: "C = (if j \<noteq> imax then swap_rows n imax j B else B)"
  shows "lu_col n j st = None \<longleftrightarrow> C j j = 0"
    and "lu_col n j st = Some st' \<Longrightarrow> C j j \<noteq> 0 \<and> lu_A st' = lu_div n j C \<and> lu_indx st' = (lu_indx st)(j := imax) \<and>
      (\<forall>i. lu_vv st' i = lu_vv st i \<or> lu_vv st' i = lu_vv st j)"
proof -
  have "lu_div (Suc j) j C = C" by (simp add: lu_div_value fun_eq_iff)
  then have d: "j = n - 1 \<Longrightarrow> lu_div n j C = C" by (cases n) (auto simp: lu_div_def)
  show "lu_col n j st = None \<longleftrightarrow> C j j = 0" unfolding lu_col_def F by (simp add: Let_def C)
  show "lu_col n j st = Some st' \<Longrightarrow> C j j \<noteq> 0 \<and> lu_A st' = lu_div n j C \<and> lu_indx st' = (lu_indx st)(j := imax) \<and>
      (\<forall>i. lu_vv st' i = lu_vv st i \<or> lu_vv st' i = lu_vv st j)"
    unfolding lu_col_def F using d by (auto simp: Let_def C split: if_splits)
qed

lemma lu_col_some:
  assumes I: "lu_inv n A0 j st" and j: "j < n" and S: "lu_col n j st = Some st'"
  shows "lu_inv n A0 (Suc j) st'"
proof -
  obtain B big imax where F: "lu_lower n j (lu_vv st) (lu_upper j (lu_A st)) (lu_imax st) = (B, big, imax)"
    by (cases "lu_lower n j (lu_vv st) (lu_upper j (lu_A st)) (lu_imax st)") auto
  define C where C: "C = (if j \<noteq> imax then swap_rows n imax j B else B)"
  define indx where indx: "indx = (lu_indx st)(j := imax)"
  have R: "C j j \<noteq> 0" "lu_A st' = lu_div n j C" "lu_indx st' = indx" "\<And>i. lu_vv st' i = lu_vv st i \<or> lu_vv st' i = lu_vv st j"
    using lu_col_cases(2) [OF F C S] by (simp_all add: indx)
  note V = lu_swap_value [OF I j F C indx]
  have A': "lu_A st' r c = (if c = j \<and> j < r \<and> r < n then C r c / C j j else C r c)" for r c
    unfolding R(2) lu_div_value ..
  have p: "lu_prod (lu_A st') i c m = lu_prod C i c m" if "m \<le> j" "c < j \<or> m \<le> Suc j" for i c m
    by (rule lu_prod_cong) (use that in \<open>auto simp: A'\<close>)
  have "A0 (pm indx (Suc j) i) c =
      (if i \<le> c then lu_prod (lu_A st') i c i + lu_A st' i c else lu_prod (lu_A st') i c (Suc c))"
    if ic: "i < n" "c < Suc j" for i c
  proof (cases "c = j")
    case False
    then have c: "c < j" using ic by simp
    show ?thesis using V(1) [OF ic(1) c] p [of i c i] p [of "Suc c" c i] c by (simp add: A')
  next
    case True
    consider "i < j" | "i = j" | "j < i" by linarith
    then show ?thesis
    proof cases
      case 1
      then show ?thesis using V(2) [OF 1] p [of i j i] True by (simp add: A')
    next
      case 2
      then show ?thesis using V(3) [of j] p [of j j j] True j by (simp add: A')
    next
      case 3
      have "lu_prod (lu_A st') i j (Suc j) = lu_prod (lu_A st') i j j + lu_A st' i j * lu_A st' j j"
        by (simp add: lu_prod_def)
      also have "\<dots> = lu_prod C i j j + C i j" using p [of j j i] 3 ic R(1) by (simp add: A')
      finally show ?thesis using V(3) [of i] 3 ic True by simp
    qed
  qed
  moreover have "lu_A st' i c = A0 (pm indx (Suc j) i) c" if "i < n" "c < n" "Suc j \<le> c" for i c
    using V(4) [of i c] that by (simp add: A')
  moreover have "lu_A st' c c \<noteq> 0" if "c < Suc j" for c
    using that V(5) [of c] R(1) by (cases "c = j") (simp_all add: A')
  moreover have "0 < lu_vv st' i" if "i < n" for i
    using I R(4) [of i] that j by (auto simp: lu_inv_def)
  ultimately show ?thesis using V(6) by (simp add: lu_inv_def R(3))
qed

text \<open>The factors as triangular matrices.\<close>

definition lu_lo :: "mat \<Rightarrow> mat" where
  "lu_lo A = (\<lambda>i k. if k < i then A i k else if k = i then 1 else 0)"

definition lu_up :: "mat \<Rightarrow> mat" where
  "lu_up A = (\<lambda>k c. if k \<le> c then A k c else 0)"

lemma lu_split:
  assumes "c < m"
  shows "(if i \<le> c then lu_prod A i c i + A i c else lu_prod A i c (Suc c)) = (\<Sum>k<m. lu_lo A i k * lu_up A k c)"
proof (cases "i \<le> c")
  case True
  have "(\<Sum>k<m. lu_lo A i k * lu_up A k c) = (\<Sum>k<Suc i. lu_lo A i k * lu_up A k c)"
    by (rule sum.mono_neutral_right) (use True assms in \<open>auto simp: lu_lo_def\<close>)
  then show ?thesis using True by (simp add: lu_prod_def lu_lo_def lu_up_def)
next
  case False
  have "(\<Sum>k<m. lu_lo A i k * lu_up A k c) = (\<Sum>k<Suc c. lu_lo A i k * lu_up A k c)"
    by (rule sum.mono_neutral_right) (use assms in \<open>auto simp: lu_up_def\<close>)
  then show ?thesis using False by (simp add: lu_prod_def lu_lo_def lu_up_def)
qed

text \<open>Back substitution on the first \<open>j\<close> columns.\<close>

function bsub :: "mat \<Rightarrow> vec \<Rightarrow> nat \<Rightarrow> nat \<Rightarrow> double" where
  "bsub A b j k = (b k - (\<Sum>l\<leftarrow>[Suc k..<j]. A k l * bsub A b j l)) / A k k"
  by pat_completeness auto
termination
  by (relation "measure (\<lambda>(A, b, j, k). j - k)") auto

declare bsub.simps [simp del]

lemma bsub_solves:
  assumes "A k k \<noteq> 0" and "k < j"
  shows "(\<Sum>l<j. lu_up A k l * bsub A b j l) = b k"
proof -
  have "(\<Sum>l<j. lu_up A k l * bsub A b j l) = (\<Sum>l=k..<j. lu_up A k l * bsub A b j l)"
    by (rule sum.mono_neutral_right) (auto simp: lu_up_def)
  also have "\<dots> = A k k * bsub A b j k + (\<Sum>l=Suc k..<j. A k l * bsub A b j l)"
    using assms(2) by (simp add: sum.atLeast_Suc_lessThan lu_up_def)
  also have "A k k * bsub A b j k = b k - (\<Sum>l=Suc k..<j. A k l * bsub A b j l)"
    by (subst bsub.simps) (use assms(1) in \<open>simp add: interv_sum_list_conv_sum_set_nat\<close>)
  finally show ?thesis by simp
qed

text \<open>When no pivot is left, the columns so far depend on each other.\<close>

lemma pm_onto:
  assumes "pivots n j indx" and "j \<le> n" and "i < n"
  obtains k where "k < n" and "pm indx j k = i"
proof -
  have "pm indx j ` {..<n} = {..<n}"
    by (rule endo_inj_surj) (use pm_less [OF assms(1,2)] pm_inj in \<open>auto simp: inj_on_def\<close>)
  then show thesis using assms(3) that by (metis imageE lessThan_iff)
qed

lemma sum_last: "(\<And>c. m < c \<Longrightarrow> c < n \<Longrightarrow> f c = 0) \<Longrightarrow> m < (n :: nat) \<Longrightarrow> (\<Sum>c<n. f c) = (\<Sum>c<m. f c) + (f m :: double)"
  using sum.mono_neutral_right [of "{..<n}" "{..<Suc m}" f] by force

lemma lu_col_none:
  assumes I: "lu_inv n A0 j st" and j: "j < n" and N: "lu_col n j st = None"
  shows "\<not> is_inv n A0 B0"
proof
  assume inv: "is_inv n A0 B0"
  obtain B big imax where F: "lu_lower n j (lu_vv st) (lu_upper j (lu_A st)) (lu_imax st) = (B, big, imax)"
    by (cases "lu_lower n j (lu_vv st) (lu_upper j (lu_A st)) (lu_imax st)") auto
  define C where C: "C = (if j \<noteq> imax then swap_rows n imax j B else B)"
  define indx where indx: "indx = (lu_indx st)(j := imax)"
  note V = lu_swap_value [OF I j F C indx] and L = lu_lower_value [OF I j F]
  have z: "C j j = 0" using lu_col_cases(1) [OF F C] N by simp
  have Cv: "C i c = B (exch imax j i) c" if "c < n" for i c
    using that by (auto simp: C swap_rows_value exch_def)
  have "B imax j = 0" using z Cv [OF j, of j] by (simp add: exch_def split: if_splits)
  then have "lu_vv st i * \<bar>B i j\<bar> \<le> 0" if "j \<le> i" "i < n" for i using L(6) [OF that] by simp
  moreover have "0 < lu_vv st i" if "i < n" for i using I that by (simp add: lu_inv_def)
  ultimately have B0: "B i j = 0" if "j \<le> i" "i < n" for i
    using that by (metis abs_ge_zero abs_le_zero_iff mult_le_0_iff not_less order_antisym_conv)
  have C0: "C i j = 0" if "j \<le> i" "i < n" for i
    unfolding Cv [OF j] by (rule B0) (use that L(4,5) j in \<open>auto simp: exch_def\<close>)
  have col: "A0 (pm indx (Suc j) i) j = (\<Sum>k<j. lu_lo C i k * C k j)" if "i < n" for i
  proof (cases "i < j")
    case True
    have "(\<Sum>k<j. lu_lo C i k * C k j) = (\<Sum>k<Suc i. lu_lo C i k * C k j)"
      by (rule sum.mono_neutral_right) (use True in \<open>auto simp: lu_lo_def\<close>)
    then show ?thesis using V(2) [OF True] by (simp add: lu_lo_def lu_prod_def)
  next
    case False
    then show ?thesis using V(3) [of i] C0 [of i] that by (simp add: lu_lo_def lu_prod_def)
  qed
  define x where "x = (\<lambda>c. if c < j then bsub C (\<lambda>k. C k j) j c else if c = j then -1 else 0 :: double)"
  have ux: "(\<Sum>c<j. lu_up C k c * x c) = C k j" if "k < j" for k
    using bsub_solves [of C k j "\<lambda>k. C k j"] V(5) [OF that] that by (simp add: x_def)
  have "mv n A0 x i = 0" if i: "i < n" for i
  proof -
    obtain k where k: "k < n" "pm indx (Suc j) k = i" using pm_onto [OF V(6) _ i] j by auto
    have "mv n A0 x i = (\<Sum>c<j. A0 i c * x c) - A0 i j"
      unfolding mv_def by (subst sum_last [of j]) (use j in \<open>auto simp: x_def\<close>)
    also have "(\<Sum>c<j. A0 i c * x c) = (\<Sum>c<j. \<Sum>l<j. lu_lo C k l * lu_up C l c * x c)"
      using V(1) [OF k(1)] lu_split [of _ j k C] by (simp add: k(2) sum_distrib_right)
    also have "\<dots> = (\<Sum>l<j. \<Sum>c<j. lu_lo C k l * lu_up C l c * x c)" by (rule sum.swap)
    also have "\<dots> = (\<Sum>l<j. lu_lo C k l * (\<Sum>c<j. lu_up C l c * x c))" by (simp add: sum_distrib_left mult.assoc)
    also have "\<dots> = A0 i j" using col [OF k(1)] ux by (simp add: k(2))
    finally show ?thesis by simp
  qed
  then have "mv n B0 (mv n A0 x) j = 0" by (simp add: mv_def)
  then show False using is_inv_mv(2) [OF inv j, of x] by (simp add: x_def)
qed

section \<open>The whole decomposition\<close>

lemma row_big_value:
  "0 \<le> row_big n A i \<and> (row_big n A i = 0 \<longrightarrow> (\<forall>j<n. A i j = 0))"
proof (induction n)
  case (Suc n)
  have "row_big (Suc n) A i = (if \<bar>A i n\<bar> > row_big n A i then \<bar>A i n\<bar> else row_big n A i)"
    by (simp add: row_big_def Let_def)
  then show ?case using Suc by (auto simp: less_Suc_eq)
qed (simp add: row_big_def)

lemma lu_scale_cases:
  shows "lu_scale n A is vv = None \<Longrightarrow> \<exists>i\<in>List.set is. \<forall>j<n. A i j = 0"
    and "lu_scale n A is vv = Some vv' \<Longrightarrow> (\<forall>i\<in>List.set is. 0 < vv' i) \<and> (\<forall>i. 0 < vv i \<longrightarrow> 0 < vv' i)"
proof -
  show "lu_scale n A is vv = None \<Longrightarrow> \<exists>i\<in>List.set is. \<forall>j<n. A i j = 0"
  proof (induction "is" arbitrary: vv)
    case (Cons i "is")
    show ?case
    proof (cases "row_big n A i > 0")
      case True
      then show ?thesis using Cons by (simp add: Let_def)
    next
      case False
      then have "\<forall>j<n. A i j = 0" using row_big_value [of n A i] by simp
      then show ?thesis by simp
    qed
  qed simp
  show "lu_scale n A is vv = Some vv' \<Longrightarrow> (\<forall>i\<in>List.set is. 0 < vv' i) \<and> (\<forall>i. 0 < vv i \<longrightarrow> 0 < vv' i)"
  proof (induction "is" arbitrary: vv)
    case (Cons i "is")
    let ?vv = "vv(i := 1 / row_big n A i)"
    have b: "0 < row_big n A i" and S: "lu_scale n A is ?vv = Some vv'"
      using Cons(2) by (auto simp: Let_def split: if_splits)
    have "0 < ?vv i" using b by simp
    then show ?case using Cons(1) [OF S] b by auto
  qed simp
qed

lemma lu_cols_result:
  assumes "lu_inv n A0 j st" and "j \<le> n"
  shows "case lu_cols n [j..<n] st of None \<Rightarrow> \<forall>B. \<not> is_inv n A0 B | Some st' \<Rightarrow> lu_inv n A0 n st'"
  using assms
proof (induction "n - j" arbitrary: j st)
  case (Suc d)
  then have j: "j < n" by simp
  show ?case
  proof (cases "lu_col n j st")
    case None
    then show ?thesis using lu_col_none [OF Suc(3) j] by (simp add: upt_conv_Cons [OF j])
  next
    case (Some st')
    then show ?thesis using Suc(1) [of "Suc j" st'] Suc(2) lu_col_some [OF Suc(3) j Some] j
      by (simp add: upt_conv_Cons [OF j])
  qed
qed simp

lemma ludcmp_result:
  "case ludcmp n A of None \<Rightarrow> \<forall>B. \<not> is_inv n A B | Some st \<Rightarrow> lu_inv n A n st"
proof (cases "lu_scale n A [0..<n] (\<lambda>i. 0)")
  case None
  then obtain i where i: "i < n" "\<forall>j<n. A i j = 0" using lu_scale_cases(1) [OF None] by auto
  have "\<not> is_inv n A B" for B
  proof
    assume "is_inv n A B"
    then have "mat_prod n A B i i = 1" using i(1) by (simp add: is_inv_def eye_def)
    then show False using i(2) by (simp add: mat_prod_def)
  qed
  then show ?thesis using None by (simp add: ludcmp_def)
next
  case (Some vv)
  let ?st = "\<lparr>lu_A = A, lu_indx = (\<lambda>i. 0), lu_d = 1, lu_vv = vv, lu_imax = 0\<rparr>"
  have "lu_inv n A 0 ?st" using lu_scale_cases(2) [OF Some] by (auto simp: lu_inv_def pivots_def pm.simps)
  then show ?thesis using lu_cols_result [of n A 0 ?st] Some by (simp add: ludcmp_def)
qed

section \<open>Substitution\<close>

lemma sum_zero_prefix: "(\<And>k. k < a \<Longrightarrow> f k = 0) \<Longrightarrow> a \<le> i \<Longrightarrow> (\<Sum>k<i. f k) = (\<Sum>k=a..<i. f k :: double)"
  for a i :: nat
  by (rule sum.mono_neutral_right) auto

text \<open>Forward: the right hand side with its rows exchanged, less the columns done.\<close>

lemma lub_fwd_result:
  assumes "pivots n j indx" and "j \<le> n"
  shows "case fold (lub_fwd A indx) [0..<j] (b, None) of (y, ii) \<Rightarrow>
    (\<forall>i<j. y i + (\<Sum>k<i. A i k * y k) = b (pm indx j i)) \<and>
    (\<forall>i. j \<le> i \<longrightarrow> i < n \<longrightarrow> y i = b (pm indx j i)) \<and>
    (case ii of None \<Rightarrow> \<forall>i<j. y i = 0 | Some a \<Rightarrow> a < j \<and> (\<forall>i<a. y i = 0))"
  using assms
proof (induction j)
  case (Suc j)
  obtain y ii where F: "fold (lub_fwd A indx) [0..<j] (b, None) = (y, ii)"
    by (cases "fold (lub_fwd A indx) [0..<j] (b, None)")
  have P: "pivots n j indx" and j: "j \<le> indx j" "indx j < n" and jn: "j < n"
    using Suc(2,3) by (auto simp: pivots_def)
  have I: "\<And>i. i < j \<Longrightarrow> y i + (\<Sum>k<i. A i k * y k) = b (pm indx j i)"
    "\<And>i. j \<le> i \<Longrightarrow> i < n \<Longrightarrow> y i = b (pm indx j i)"
    "case ii of None \<Rightarrow> \<forall>i<j. y i = 0 | Some a \<Rightarrow> a < j \<and> (\<forall>i<a. y i = 0)"
    using Suc(1) [OF P] jn by (auto simp: F)
  define s where "s = y (indx j) - (\<Sum>k<j. A j k * y k)"
  define y' where "y' = y(indx j := y j, j := s)"
  have out: "\<exists>ii'. lub_fwd A indx j (y, ii) = (y', ii') \<and>
      (case ii' of None \<Rightarrow> \<forall>i<Suc j. y' i = 0 | Some a \<Rightarrow> a < Suc j \<and> (\<forall>i<a. y' i = 0))"
  proof (cases ii)
    case None
    then have z: "\<forall>i<j. y i = 0" using I(3) by simp
    then have "s = y (indx j)" by (simp add: s_def)
    moreover have "\<forall>i<j. y' i = 0" using z j by (auto simp: y'_def)
    ultimately show ?thesis using None j
      by (auto simp: lub_fwd_def Let_def y'_def less_Suc_eq)
  next
    case (Some a)
    then have a: "a < j" "\<forall>i<a. y i = 0" using I(3) by simp_all
    have "fold (\<lambda>k s. s - A j k * (y(indx j := y j)) k) [a..<j] (y (indx j)) =
        y (indx j) - (\<Sum>k=a..<j. A j k * (y(indx j := y j)) k)"
      by (rule fold_minus_upt) (use a in simp)
    also have "(\<Sum>k=a..<j. A j k * (y(indx j := y j)) k) = (\<Sum>k=a..<j. A j k * y k)"
      by (rule sum.cong) (use j in auto)
    also have "\<dots> = (\<Sum>k<j. A j k * y k)" by (rule sum_zero_prefix [symmetric]) (use a in auto)
    finally have "lub_fwd A indx j (y, ii) = (y', ii)" by (simp add: lub_fwd_def Let_def Some y'_def s_def)
    moreover have "\<forall>i<a. y' i = 0" using a j by (auto simp: y'_def)
    ultimately show ?thesis using a Some by auto
  qed
  then obtain ii' where R: "fold (lub_fwd A indx) [0..<Suc j] (b, None) = (y', ii')"
    and ii': "case ii' of None \<Rightarrow> \<forall>i<Suc j. y' i = 0 | Some a \<Rightarrow> a < Suc j \<and> (\<forall>i<a. y' i = 0)"
    by (auto simp: F)
  have y'l: "y' k = y k" if "k < j" for k using that j by (simp add: y'_def)
  have "y' i + (\<Sum>k<i. A i k * y' k) = b (pm indx (Suc j) i)" if i: "i < Suc j" for i
  proof (cases "i = j")
    case True
    have "y' j + (\<Sum>k<j. A j k * y' k) = y (indx j)" by (simp add: y'l) (simp add: y'_def s_def)
    also have "\<dots> = b (pm indx (Suc j) j)" using I(2) [of "indx j"] j by (simp add: pm.simps exch_def)
    finally show ?thesis using True by simp
  next
    case False
    then have ij: "i < j" using i by simp
    then have "y' i + (\<Sum>k<i. A i k * y' k) = b (pm indx j i)" using I(1) [OF ij] y'l by simp
    moreover have "exch (indx j) j i = i" using ij j by (simp add: exch_def)
    ultimately show ?thesis by (simp add: pm.simps)
  qed
  moreover have "y' i = b (pm indx (Suc j) i)" if i: "Suc j \<le> i" "i < n" for i
  proof (cases "i = indx j")
    case True
    then show ?thesis using I(2) [of j] i jn by (simp add: y'_def pm.simps exch_def)
  next
    case False
    then show ?thesis using I(2) [of i] i by (simp add: y'_def pm.simps exch_def)
  qed
  ultimately show ?case using ii' by (simp only: R prod.case) blast
qed (simp add: pm.simps)

text \<open>Backward.\<close>

lemma lub_back_result:
  assumes "\<And>i. i < n \<Longrightarrow> A i i \<noteq> 0" and "j \<le> n" and "\<And>i. i < n \<Longrightarrow> j \<le> i \<Longrightarrow> (\<Sum>k=i..<n. A i k * x k) = y i"
    and "\<And>i. i < j \<Longrightarrow> x i = y i" and "i < n"
  shows "mv n (lu_up A) (fold (lub_back n A) (rev [0..<j]) x) i = y i"
  using assms(2-4)
proof (induction j arbitrary: x)
  case 0
  have "mv n (lu_up A) x i = (\<Sum>k=i..<n. A i k * x k)"
    unfolding mv_def by (rule sum.mono_neutral_cong_right) (auto simp: lu_up_def)
  then show ?case using 0 assms(5) by simp
next
  case (Suc j)
  let ?x = "lub_back n A j x"
  have jn: "j < n" using Suc(2) by simp
  have xj: "?x j = (x j - (\<Sum>k=Suc j..<n. A j k * x k)) / A j j"
    using jn by (simp add: lub_back_def fold_minus_upt)
  have xo: "?x k = x k" if "k \<noteq> j" for k using that by (simp add: lub_back_def)
  have "(\<Sum>k=r..<n. A r k * ?x k) = y r" if r: "r < n" "j \<le> r" for r
  proof (cases "r = j")
    case True
    have "(\<Sum>k=j..<n. A j k * ?x k) = A j j * ?x j + (\<Sum>k=Suc j..<n. A j k * x k)"
      using jn by (simp add: sum.atLeast_Suc_lessThan xo)
    also have "\<dots> = x j" unfolding xj using assms(1) [OF jn] by simp
    finally show ?thesis using True Suc(4) by simp
  next
    case False
    have "(\<Sum>k=r..<n. A r k * ?x k) = (\<Sum>k=r..<n. A r k * x k)"
      by (rule sum.cong) (use r False xo in auto)
    then show ?thesis using Suc(3) [of r] r False by simp
  qed
  moreover have "?x k = y k" if "k < j" for k using that Suc(4) xo by simp
  ultimately have "mv n (lu_up A) (fold (lub_back n A) (rev [0..<j]) ?x) i = y i"
    using Suc(1) [of ?x] jn by simp
  then show ?case by simp
qed

section \<open>The inverse\<close>

lemma lu_mv:
  assumes I: "lu_inv n A0 n st" and i: "i < n"
  shows "mv n A0 x (pm (lu_indx st) n i) = mv n (lu_lo (lu_A st)) (mv n (lu_up (lu_A st)) x) i"
proof -
  let ?A = "lu_A st"
  have "mv n A0 x (pm (lu_indx st) n i) = mv n (mat_prod n (lu_lo ?A) (lu_up ?A)) x i"
    unfolding mv_def
  proof (rule sum.cong [OF refl])
    fix c assume "c \<in> {..<n}"
    then have c: "c < n" by simp
    have "A0 (pm (lu_indx st) n i) c = mat_prod n (lu_lo ?A) (lu_up ?A) i c"
      using I i c lu_split [OF c, of i ?A] by (simp add: lu_inv_def mat_prod_def)
    then show "A0 (pm (lu_indx st) n i) c * x c = mat_prod n (lu_lo ?A) (lu_up ?A) i c * x c" by simp
  qed
  then show ?thesis by (simp add: mat_prod_def mv_prod)
qed

lemma mv_lo: "i < n \<Longrightarrow> mv n (lu_lo A) y i = y i + (\<Sum>k<i. A i k * y k)"
proof -
  assume i: "i < n"
  have "mv n (lu_lo A) y i = (\<Sum>k<Suc i. lu_lo A i k * y k)"
    unfolding mv_def by (rule sum.mono_neutral_right) (use i in \<open>auto simp: lu_lo_def\<close>)
  then show ?thesis by (simp add: lu_lo_def)
qed

lemma lubksb_solves:
  assumes I: "lu_inv n A0 n st" and i: "i < n"
  shows "mv n A0 (lubksb (lu_A st) n (lu_indx st) b) i = b i"
proof -
  let ?A = "lu_A st" and ?x = "lubksb (lu_A st) n (lu_indx st) b"
  have P: "pivots n n (lu_indx st)" and d: "\<And>i. i < n \<Longrightarrow> ?A i i \<noteq> 0" using I by (auto simp: lu_inv_def)
  obtain k where k: "k < n" "pm (lu_indx st) n k = i" using pm_onto [OF P order_refl i] by auto
  obtain y ii where F: "fold (lub_fwd ?A (lu_indx st)) [0..<n] (b, None) = (y, ii)"
    by (cases "fold (lub_fwd ?A (lu_indx st)) [0..<n] (b, None)")
  have y: "y i + (\<Sum>k<i. ?A i k * y k) = b (pm (lu_indx st) n i)" if "i < n" for i
    using lub_fwd_result [OF P order_refl, of ?A b] that by (simp add: F)
  have U: "mv n (lu_up ?A) ?x l = y l" if "l < n" for l
    unfolding lubksb_def F fst_conv by (rule lub_back_result [OF d order_refl]) (use that in auto)
  have "mv n A0 ?x i = mv n (lu_lo ?A) (mv n (lu_up ?A) ?x) k" using lu_mv [OF I k(1), of ?x] by (simp add: k(2))
  also have "\<dots> = mv n (lu_lo ?A) y k" by (rule mv_cong) (simp_all add: U)
  also have "\<dots> = b i" using y [OF k(1)] by (simp add: mv_lo [OF k(1)] k(2))
  finally show ?thesis .
qed

text \<open>A matrix with a decomposition maps nothing but 0 to 0.\<close>

lemma lu_inj:
  assumes I: "lu_inv n A0 n st" and z: "\<And>i. i < n \<Longrightarrow> mv n A0 x i = 0" and i: "i < n"
  shows "x i = 0"
proof -
  let ?A = "lu_A st" and ?y = "mv n (lu_up (lu_A st)) x"
  have P: "pivots n n (lu_indx st)" and d: "\<And>i. i < n \<Longrightarrow> ?A i i \<noteq> 0" using I by (auto simp: lu_inv_def)
  have y: "?y k = 0" if "k < n" for k
    using that
  proof (induction k rule: less_induct)
    case (less k)
    have "mv n (lu_lo ?A) ?y k = 0" using lu_mv [OF I less(2), of x] z pm_less [OF P order_refl less(2)] by simp
    then show ?case using less by (simp add: mv_lo)
  qed
  show ?thesis using i
  proof (induction "n - i" arbitrary: i rule: less_induct)
    case (less i)
    have "?y i = (\<Sum>k=i..<n. ?A i k * x k)"
      unfolding mv_def by (rule sum.mono_neutral_cong_right) (auto simp: lu_up_def)
    also have "\<dots> = ?A i i * x i + (\<Sum>k=Suc i..<n. ?A i k * x k)" using less(2) by (simp add: sum.atLeast_Suc_lessThan)
    also have "(\<Sum>k=Suc i..<n. ?A i k * x k) = 0" by (rule sum.neutral) (use less(1) less(2) in auto)
    finally show ?case using y [OF less(2)] d [OF less(2)] by simp
  qed
qed

lemma inv_cols:
  assumes "m \<le> n" and "c < m"
  shows "\<exists>b. (\<forall>i<n. b i = eye i c) \<and> (\<forall>i. fold (inv_col n st) [0..<m] A i c = lubksb (lu_A st) n (lu_indx st) b i)"
  using assms
proof (induction m)
  case (Suc m)
  let ?R = "fold (inv_col n st) [0..<m] A"
  have z: "fold (\<lambda>i A. put A i m 0) [0..<n] M = (\<lambda>r c. if r < n \<and> c = m then 0 else M r c)" for M
    by (induction n) (auto simp: fun_eq_iff less_Suc_eq)
  show ?case
  proof (cases "c = m")
    case True
    let ?b = "\<lambda>i. put (fold (\<lambda>i A. put A i m 0) [0..<n] ?R) m m 1 i m"
    have "?b i = eye i c" if "i < n" for i unfolding z using that Suc(2) True by (simp add: eye_def)
    moreover have "inv_col n st m ?R i c = lubksb (lu_A st) n (lu_indx st) ?b i" for i
      by (simp add: inv_col_def True Let_def del: put_apply)
    ultimately show ?thesis by (intro exI [of _ ?b]) (simp del: put_apply)
  next
    case False
    have "inv_col n st m M i c = M i c" for i M unfolding inv_col_def z Let_def using False by simp
    then show ?thesis using Suc False by simp
  qed
qed simp

lemma mat_prod_mv: "mat_prod n A B i j = mv n A (\<lambda>k. B k j) i"
  by (simp add: mat_prod_def mv_def)

lemma matinv_cases:
  "case matinv A n of None \<Rightarrow> \<forall>B. \<not> is_inv n A B | Some B \<Rightarrow> is_inv n A B"
proof (cases "ludcmp n A")
  case None
  then show ?thesis using ludcmp_result [of n A] by (simp add: matinv_def)
next
  case (Some st)
  have I: "lu_inv n A n st" using ludcmp_result [of n A] Some by simp
  let ?B = "fold (inv_col n st) [0..<n] A"
  have AB: "mat_prod n A ?B i j = eye i j" if ij: "i < n" "j < n" for i j
  proof -
    obtain b where b: "\<forall>i<n. b i = eye i j" "\<forall>i. ?B i j = lubksb (lu_A st) n (lu_indx st) b i"
      using inv_cols [OF order_refl ij(2)] by blast
    then show ?thesis using lubksb_solves [OF I ij(1), of b] ij(1) by (simp add: mat_prod_mv)
  qed
  have ABx: "mv n A (mv n ?B x) i = x i" if "i < n" for x i
  proof -
    have "mv n A (mv n ?B x) i = mv n (mat_prod n A ?B) x i" by (simp add: mat_prod_def mv_prod)
    also have "\<dots> = mv n eye x i" by (rule mv_cong) (use AB that in auto)
    finally show ?thesis using that by (simp add: mv_eye)
  qed
  have "mat_prod n ?B A i j = eye i j" if ij: "i < n" "j < n" for i j
  proof -
    let ?e = "\<lambda>k. eye k j"
    have e: "mv n A ?e i = A i j" for i
      unfolding mv_def eye_def using ij(2) by (simp add: if_distrib [of "\<lambda>y. _ * y"] cong: if_cong)
    have "mv n ?B (mv n A ?e) i - ?e i = 0"
    proof (rule lu_inj [OF I _ ij(1), where x = "\<lambda>i. mv n ?B (mv n A ?e) i - ?e i"])
      fix r assume r: "r < n"
      have "mv n A (\<lambda>i. mv n ?B (mv n A ?e) i - ?e i) r = mv n A (mv n ?B (mv n A ?e)) r - mv n A ?e r"
        by (simp add: mv_def sum_subtractf right_diff_distrib)
      then show "mv n A (\<lambda>i. mv n ?B (mv n A ?e) i - ?e i) r = 0" using ABx [OF r] by simp
    qed
    moreover have "mv n A ?e = (\<lambda>i. A i j)" using e by (simp add: fun_eq_iff)
    ultimately show ?thesis unfolding mat_prod_mv by simp
  qed
  then have "is_inv n A ?B" using AB by (simp add: is_inv_def)
  then show ?thesis using Some by (simp add: matinv_def)
qed

end
