(* ===== verification/LambdaRed.thy ===== *)
theory LambdaRed
  imports Lambda MatLu
begin

text \<open>
  The factorisation and the reduction of the integer least squares: what the loops compute, that the
  reduction ends, and that what it gives is the quadratic form in another basis of the lattice,
  size-reduced and ordered.
\<close>

section \<open>Factorisation\<close>

lemma fold_row:
  "fold (\<lambda>j L. put L i j (f j)) [0..<m] L = (\<lambda>r c. if r = i \<and> c < m then f c else L r c)"
  by (induction m) (auto simp: fun_eq_iff less_Suc_eq)

lemma fold_rest_row:
  "fold (\<lambda>k A. put A j k (A j k - f k * g)) [0..<m] A =
    (\<lambda>r c. if r = j \<and> c < m then A j c - f c * g else A r c)"
  by (induction m) (auto simp: fun_eq_iff less_Suc_eq)

lemma fold_rest:
  "fold (\<lambda>j A. fold (\<lambda>k A. put A j k (A j k - f k * f j)) [0..<j + 1] A) [0..<m] A =
    (\<lambda>r c. if r < m \<and> c \<le> r then A r c - f c * f r else A r c)"
  unfolding fold_rest_row
  by (induction m) (auto simp: fun_eq_iff less_Suc_eq)

lemma fold_scale:
  "m \<le> i \<Longrightarrow> fold (\<lambda>j L. put L i j (L i j / L i i)) [0..<m] L =
    (\<lambda>r c. if r = i \<and> c < m then L i c / L i i else L r c)"
  by (induction m) (auto simp: fun_eq_iff less_Suc_eq)

lemma LD_row_value:
  assumes "0 < A i i"
  shows "LD_row i A L =
    ((\<lambda>r c. if r < i \<and> c \<le> r then A r c - A i c * A i r / A i i else A r c),
     (\<lambda>r c. if r = i \<and> c \<le> i then A i c / A i i else L r c))"
proof -
  let ?a = "sqrt (A i i)"
  have a: "?a * ?a = A i i" "?a \<noteq> 0" using assms by simp_all
  have d: "x / ?a / (A i i / ?a) = x / A i i" for x using a by (simp add: field_simps)
  define L1 where "L1 = (\<lambda>r c. if r = i \<and> c < i + 1 then A i c / ?a else L r c)"
  have L1: "L1 i c = A i c / ?a" if "c \<le> i" for c using that by (simp add: L1_def)
  have A: "fold (\<lambda>j A. fold (\<lambda>k A. put A j k (A j k - L1 i k * L1 i j)) [0..<j + 1] A) [0..<i] A =
      (\<lambda>r c. if r < i \<and> c \<le> r then A r c - A i c * A i r / A i i else A r c)"
    unfolding fold_rest by (use assms in \<open>auto simp: fun_eq_iff L1\<close>)
  have "fold (\<lambda>j L. put L i j (L i j / L i i)) [0..<i + 1] L1 =
      (let L2 = fold (\<lambda>j L. put L i j (L i j / L i i)) [0..<i] L1 in put L2 i i (L2 i i / L2 i i))"
    by simp
  also have "\<dots> = (\<lambda>r c. if r = i \<and> c \<le> i then A i c / A i i else L r c)"
    unfolding fold_scale [OF order_refl] using assms
    by (auto simp: fun_eq_iff L1 d L1_def)
  finally have L2: "fold (\<lambda>j L. put L i j (L i j / L i i)) [0..<i + 1] L1 = \<dots>" .
  have L0: "fold (\<lambda>j L. put L i j (A i j / ?a)) [0..<i + 1] L = L1"
    unfolding fold_row L1_def ..
  show ?thesis by (simp only: LD_row_def Let_def L0 A L2)
qed

definition unit_lower :: "nat \<Rightarrow> mat \<Rightarrow> bool" where
  "unit_lower n L \<longleftrightarrow> (\<forall>i<n. L i i = 1 \<and> (\<forall>j<n. i < j \<longrightarrow> L i j = 0))"

text \<open>The elements of \<open>L' diag(D) L\<close>.\<close>

definition ltdl :: "nat \<Rightarrow> mat \<Rightarrow> vec \<Rightarrow> nat \<Rightarrow> nat \<Rightarrow> double" where
  "ltdl n L D r c = (\<Sum>k<n. D k * L k r * L k c)"

lemma LD_loop_result:
  assumes "LD_loop i A L D = Some (L', D')"
  shows "(\<forall>r<i. \<forall>c\<le>r. A r c = (\<Sum>k=r..<i. D' k * L' k r * L' k c)) \<and> (\<forall>k<i. 0 < D' k \<and> L' k k = 1) \<and>
    (\<forall>k. i \<le> k \<longrightarrow> D' k = D k \<and> (\<forall>c. L' k c = L k c)) \<and> (\<forall>k<i. \<forall>c>k. L' k c = L k c)"
  using assms
proof (induction i A L D rule: LD_loop.induct)
  case (2 i A L D)
  then have pos: "0 < A i i" by (auto split: if_split_asm)
  define A1 where "A1 = (\<lambda>r c. if r < i \<and> c \<le> r then A r c - A i c * A i r / A i i else A r c)"
  define L1 where "L1 = (\<lambda>r c. if r = i \<and> c \<le> i then A i c / A i i else L r c)"
  have row: "LD_row i A L = (A1, L1)" unfolding A1_def L1_def by (rule LD_row_value [of A i L, OF pos])
  have "LD_loop i A1 L1 (D(i := A i i)) = Some (L', D')" using 2(2) pos row by simp
  note IH = 2(1) [OF _ row [symmetric] this]
  have p: "\<not> A i i \<le> 0" using pos by simp
  note IH = IH [OF p]
  have Di: "D' i = A i i" and Li: "L' i c = L1 i c" for c using IH by auto
  have "A r c = (\<Sum>k=r..<Suc i. D' k * L' k r * L' k c)" if rc: "r < Suc i" "c \<le> r" for r c
  proof (cases "r = i")
    case True
    then show ?thesis using rc pos by (simp add: Di Li L1_def)
  next
    case False
    then have r: "r < i" using rc by simp
    then have "A r c - A i c * A i r / A i i = (\<Sum>k=r..<i. D' k * L' k r * L' k c)"
      using IH rc by (auto simp: A1_def dest!: conjunct1)
    then show ?thesis using r rc pos by (simp add: Di Li L1_def mult.commute)
  qed
  moreover have "0 < D' k \<and> L' k k = 1" if "k < Suc i" for k
    using that IH pos by (cases "k = i") (auto simp: Di Li L1_def)
  moreover have "D' k = D k \<and> (\<forall>c. L' k c = L k c)" if "Suc i \<le> k" for k
    using that IH by (auto simp: L1_def)
  moreover have "L' k c = L k c" if "k < Suc i" "k < c" for k c
    using that IH by (cases "k = i") (auto simp: Li L1_def)
  ultimately show ?case by blast
qed simp

lemma LD_result:
  assumes "LD n Q zeros D0 = Some (L, D)"
  shows "unit_lower n L" and "\<And>i. i < n \<Longrightarrow> 0 < D i"
    and "\<And>r c. r < n \<Longrightarrow> c \<le> r \<Longrightarrow> Q r c = ltdl n L D r c"
proof -
  note R = LD_loop_result [OF assms [unfolded LD_def]]
  then show u: "unit_lower n L" by (auto simp: unit_lower_def zeros_def)
  show "0 < D i" if "i < n" for i using R that by blast
  fix r c assume rc: "r < n" "c \<le> r"
  have "ltdl n L D r c = (\<Sum>k=r..<n. D k * L k r * L k c)"
    unfolding ltdl_def by (rule sum.mono_neutral_right) (use rc u in \<open>auto simp: unit_lower_def\<close>)
  also have "\<dots> = Q r c" using R rc by auto
  finally show "Q r c = ltdl n L D r c" ..
qed

section \<open>Matrices as maps\<close>

lemma sum_two:
  assumes "i < n" and "j < n" and "i \<noteq> (j :: nat)"
  shows "(\<Sum>c<n. f c) = f i + f j + (\<Sum>c\<in>{..<n} - {i, j}. f c :: real)"
proof -
  have "(\<Sum>c<n. f c) = f i + (\<Sum>c\<in>{..<n} - {i}. f c)" using assms by (intro sum.remove) auto
  also have "(\<Sum>c\<in>{..<n} - {i}. f c) = f j + (\<Sum>c\<in>{..<n} - {i} - {j}. f c)"
    using assms by (intro sum.remove) auto
  also have "{..<n} - {i} - {j} = {..<n} - {i, j}" by auto
  finally show ?thesis by simp
qed

text \<open>Adding a multiple of column \<open>i\<close> to column \<open>j\<close>, swapping \<open>j\<close> and \<open>j + 1\<close>.\<close>

lemma mv_add_col:
  assumes "i < n" and "j < n" and "i \<noteq> j" and "\<And>c. c < n \<Longrightarrow> M' r c = (if c = j then M r j - mu * M r i else M r c)"
  shows "mv n M' x r = mv n M (x(i := x i - mu * x j)) r"
  unfolding mv_def sum_two [OF assms(1-3)] using assms by (simp add: algebra_simps)

definition sw :: "nat \<Rightarrow> nat \<Rightarrow> nat" where
  "sw j c = (if c = j then j + 1 else if c = j + 1 then j else c)"

lemma sw_simps [simp]: "sw j (sw j c) = c" "sw j j = j + 1" "sw j (Suc j) = j" "c < j \<Longrightarrow> sw j c = c" "Suc j < c \<Longrightarrow> sw j c = c"
  by (simp_all add: sw_def)

lemma sw_less: "j + 1 < n \<Longrightarrow> sw j c < n \<longleftrightarrow> c < n"
  by (auto simp: sw_def)

lemma mv_swap:
  assumes "j + 1 < n" and "\<And>c. c < n \<Longrightarrow> M' r c = M r (sw j c)"
  shows "mv n M' x r = mv n M (\<lambda>c. x (sw j c)) r"
proof -
  have "mv n M' x r = (\<Sum>c<n. M r (sw j c) * x (sw j (sw j c)))" using assms(2) by (simp add: mv_def)
  also have "\<dots> = (\<Sum>c<n. M r c * x (sw j c))"
    by (rule sum.reindex_bij_witness [where i = "sw j" and j = "sw j"]) (use assms(1) in \<open>auto simp: sw_less\<close>)
  finally show ?thesis by (simp add: mv_def)
qed

section \<open>Steps of the reduction\<close>

lemma fold_col:
  assumes "i \<noteq> j"
  shows "fold (\<lambda>k L. put L k j (L k j - m * L k i)) [a..<b] L =
    (\<lambda>r c. if c = j \<and> a \<le> r \<and> r < b then L r j - m * L r i else L r c)"
  using assms by (induction b) (auto simp: fun_eq_iff less_Suc_eq le_Suc_eq not_le)

lemma RND_trunc: "trunc (RND x) = \<lfloor>x + 1 / 2\<rfloor>"
  by (simp add: RND_def)

lemma gauss_value:
  assumes "j < i" and "mu = \<lfloor>L i j + 1 / 2\<rfloor>"
  shows "gauss n L Z i j =
    ((\<lambda>r c. if c = j \<and> i \<le> r \<and> r < n then L r j - of_int mu * L r i else L r c),
     (\<lambda>r c. if c = j \<and> r < n then Z r j - of_int mu * Z r i else Z r c))"
proof -
  have ij: "i \<noteq> j" using assms(1) by simp
  show ?thesis
    unfolding gauss_def Let_def RND_trunc assms(2) [symmetric] fold_col [OF ij]
    by (auto simp: fun_eq_iff)
qed

lemma swap_cols_value:
  "swap_cols [a..<b] j M = (\<lambda>r c. if a \<le> r \<and> r < b then M r (sw j c) else M r c)"
proof (induction b)
  case (Suc b)
  then show ?case by (cases "a \<le> b") (auto simp: swap_cols_def fun_eq_iff sw_def less_Suc_eq)
qed (auto simp: swap_cols_def)

lemma fold_rows:
  "fold (\<lambda>k L. let a0 = L j k; a1 = L (j + 1) k
      in put (put L j k (- L (j + 1) j * a0 + a1)) (j + 1) k (eta * a0 + lam * a1)) [0..<m] L =
    (\<lambda>r c. if c < m \<and> r = j then - L (j + 1) j * L j c + L (j + 1) c
           else if c < m \<and> r = j + 1 then eta * L j c + lam * L (j + 1) c else L r c)"
  if "m \<le> j" for m
  using that by (induction m) (auto simp: fun_eq_iff less_Suc_eq Let_def)

lemma perm_value:
  assumes "eta = D j / del" and "lam = D (j + 1) * L (j + 1) j / del"
  shows "perm n L D j del Z =
    ((\<lambda>r c. if j + 2 \<le> r \<and> r < n then L r (sw j c)
            else if r = j \<and> c < j then - L (j + 1) j * L j c + L (j + 1) c
            else if r = j + 1 \<and> c < j then eta * L j c + lam * L (j + 1) c
            else if r = j + 1 \<and> c = j then lam else L r c),
     D(j := eta * D (j + 1), j + 1 := del), (\<lambda>r c. if r < n then Z r (sw j c) else Z r c))"
  unfolding perm_def Let_def assms [symmetric]
  unfolding fold_rows [OF order_refl, unfolded Let_def] swap_cols_value
  by (auto simp: fun_eq_iff sw_def)

section \<open>What a step keeps\<close>

text \<open>Integer matrices with an integer inverse.\<close>

definition int_mat :: "nat \<Rightarrow> mat \<Rightarrow> bool" where
  "int_mat n M \<longleftrightarrow> (\<forall>r<n. \<forall>c<n. M r c \<in> \<int>)"

definition unimodular :: "nat \<Rightarrow> mat \<Rightarrow> bool" where
  "unimodular n Z \<longleftrightarrow> int_mat n Z \<and>
    (\<exists>W. int_mat n W \<and> (\<forall>x. \<forall>r<n. mv n Z (mv n W x) r = x r \<and> mv n W (mv n Z x) r = x r))"

lemma int_eye: "int_mat n eye"
  by (simp add: int_mat_def eye_def)

lemma unimodular_eye: "unimodular n eye"
  unfolding unimodular_def by (intro conjI exI [of _ eye] allI impI) (simp_all add: int_eye mv_eye cong: mv_cong)

text \<open>The form \<open>\<Sum> D k * u k * v k\<close>.\<close>

definition dform :: "nat \<Rightarrow> vec \<Rightarrow> vec \<Rightarrow> vec \<Rightarrow> double" where
  "dform n D u v = (\<Sum>k<n. D k * u k * v k)"

text \<open>
  \<open>L\<close> and \<open>D\<close> stand for the form of \<open>L0\<close> and \<open>D0\<close> in the basis \<open>Z\<close>.
\<close>

definition in_basis :: "nat \<Rightarrow> mat \<Rightarrow> vec \<Rightarrow> mat \<Rightarrow> vec \<Rightarrow> mat \<Rightarrow> bool" where
  "in_basis n L0 D0 L D Z \<longleftrightarrow> unit_lower n L \<and> (\<forall>i<n. 0 < D i) \<and> unimodular n Z \<and>
    (\<forall>x y. dform n D (mv n L x) (mv n L y) = dform n D0 (mv n L0 (mv n Z x)) (mv n L0 (mv n Z y)))"

lemma dform_cong: "(\<And>k. k < n \<Longrightarrow> u k = u' k) \<Longrightarrow> (\<And>k. k < n \<Longrightarrow> v k = v' k) \<Longrightarrow> dform n D u v = dform n D u' v'"
  by (simp add: dform_def)

lemma mv_mv_cong: "(\<And>c. c < n \<Longrightarrow> x c = x' c) \<Longrightarrow> mv n M x = mv n M x'"
  by (simp add: mv_def fun_eq_iff)

text \<open>A step composes both sides with the same invertible integer map.\<close>

lemma unimodular_comp:
  assumes "unimodular n Z" and "int_mat n Z'" and "int_mat n T'"
    and T: "\<And>x r. r < n \<Longrightarrow> mv n Z' x r = mv n Z (T x) r"
    and T': "\<And>x r. r < n \<Longrightarrow> T (U x) r = x r" "\<And>x r. r < n \<Longrightarrow> U (T x) r = x r"
    and U: "\<And>x r. r < n \<Longrightarrow> mv n T' x r = U x r" and Uc: "\<And>x x' r. (\<And>r. r < n \<Longrightarrow> x r = x' r) \<Longrightarrow> r < n \<Longrightarrow> U x r = U x' r"
  shows "unimodular n Z'"
proof -
  obtain W where W: "int_mat n W" "\<And>x r. r < n \<Longrightarrow> mv n Z (mv n W x) r = x r" "\<And>x r. r < n \<Longrightarrow> mv n W (mv n Z x) r = x r"
    using assms(1) by (auto simp: unimodular_def)
  define V where "V = (\<lambda>r c. \<Sum>k<n. T' r k * W k c)"
  have V: "mv n V x r = U (mv n W x) r" if "r < n" for x r
  proof -
    have "mv n V x r = (\<Sum>c<n. \<Sum>k<n. T' r k * W k c * x c)" by (simp add: mv_def V_def sum_distrib_right)
    also have "\<dots> = (\<Sum>k<n. \<Sum>c<n. T' r k * W k c * x c)" by (rule sum.swap)
    also have "\<dots> = mv n T' (mv n W x) r" by (simp add: mv_def sum_distrib_left mult.assoc)
    finally show ?thesis using U [OF that] by simp
  qed
  have "int_mat n V" using assms(3) W(1) by (auto simp: int_mat_def V_def intro!: Ints_sum Ints_mult)
  moreover have "mv n Z' (mv n V x) r = x r" if "r < n" for x r
  proof -
    have a: "mv n V x c = U (mv n W x) c" if "c < n" for c using that by (rule V)
    have "mv n Z' (mv n V x) r = mv n Z' (U (mv n W x)) r" by (rule mv_cong) (simp_all add: a)
    also have "\<dots> = mv n Z (T (U (mv n W x))) r" using that by (rule T)
    also have "\<dots> = mv n Z (mv n W x) r" by (rule mv_cong) (simp_all add: T')
    finally show ?thesis using W(2) that by simp
  qed
  moreover have "mv n V (mv n Z' x) r = x r" if "r < n" for x r
  proof -
    have "mv n V (mv n Z' x) r = U (mv n W (mv n Z' x)) r" using that by (rule V)
    also have "\<dots> = U (T x) r"
    proof (rule Uc [OF _ that])
      fix k assume k: "k < n"
      have "mv n W (mv n Z' x) k = mv n W (mv n Z (T x)) k" by (rule mv_cong) (simp_all add: T)
      then show "mv n W (mv n Z' x) k = T x k" using W(3) k by simp
    qed
    finally show ?thesis using T'(2) that by simp
  qed
  ultimately show ?thesis using assms(2) unfolding unimodular_def by blast
qed

lemma half_round: "\<bar>x - of_int \<lfloor>x + 1 / 2\<rfloor>\<bar> \<le> (1 / 2 :: real)"
  by linarith

lemma gauss_keeps:
  assumes "in_basis n L0 D0 L D Z" and "j < i" and "i < n" and "gauss n L Z i j = (L', Z')"
  shows "in_basis n L0 D0 L' D Z'" and "\<And>r c. c \<noteq> j \<or> r < i \<Longrightarrow> L' r c = L r c" and "\<bar>L' i j\<bar> \<le> 1 / 2"
proof -
  define mu where "mu = real_of_int \<lfloor>L i j + 1 / 2\<rfloor>"
  have L': "L' = (\<lambda>r c. if c = j \<and> i \<le> r \<and> r < n then L r j - mu * L r i else L r c)"
    and Z': "Z' = (\<lambda>r c. if c = j \<and> r < n then Z r j - mu * Z r i else Z r c)"
    using assms(4) unfolding gauss_value [OF assms(2) refl] mu_def by auto
  have u: "unit_lower n L" and um: "unimodular n Z" using assms(1) by (simp_all add: in_basis_def)
  have ij: "j < n" "i \<noteq> j" using assms(2,3) by simp_all
  define T where "T x = x(i := x i - mu * x j)" for x :: vec
  have LT: "mv n L' x r = mv n L (T x) r" if "r < n" for x r
    unfolding T_def by (rule mv_add_col [OF assms(3) ij]) (use u that assms(3) in \<open>auto simp: L' unit_lower_def\<close>)
  have ZT: "mv n Z' x r = mv n Z (T x) r" if "r < n" for x r
    unfolding T_def by (rule mv_add_col [OF assms(3) ij]) (use that in \<open>auto simp: Z'\<close>)
  define T' where "T' = (\<lambda>r c. if r = i \<and> c = j then mu else eye r c)"
  have "mv n T' x r = (x(i := x i + mu * x j)) r" if "r < n" for x r
  proof -
    have "mv n T' x r = mv n eye x r + (\<Sum>c<n. if c = j then (if r = i then mu * x c else 0) else 0)"
      unfolding mv_def sum.distrib [symmetric]
      by (rule sum.cong) (use ij in \<open>auto simp: T'_def eye_def\<close>)
    then show ?thesis using mv_eye [OF that] ij by (simp add: sum.delta)
  qed
  moreover have "int_mat n T'" using int_eye by (auto simp: int_mat_def T'_def mu_def)
  moreover have "int_mat n Z'" using um by (auto simp: unimodular_def int_mat_def Z' mu_def assms(3))
  ultimately have "unimodular n Z'"
    by (intro unimodular_comp [OF um, of Z' T' T "\<lambda>x. x(i := x i + mu * x j)"])
      (use ij ZT in \<open>auto simp: T_def\<close>)
  moreover have "unit_lower n L'" using u assms(2,3) by (auto simp: unit_lower_def L')
  moreover have "dform n D (mv n L' x) (mv n L' y) = dform n D0 (mv n L0 (mv n Z' x)) (mv n L0 (mv n Z' y))" for x y
  proof -
    have "dform n D (mv n L' x) (mv n L' y) = dform n D (mv n L (T x)) (mv n L (T y))"
      by (rule dform_cong) (simp_all add: LT)
    also have "\<dots> = dform n D0 (mv n L0 (mv n Z (T x))) (mv n L0 (mv n Z (T y)))"
      using assms(1) by (simp add: in_basis_def)
    also have "\<dots> = dform n D0 (mv n L0 (mv n Z' x)) (mv n L0 (mv n Z' y))"
      by (simp only: mv_mv_cong [OF ZT])
    finally show ?thesis .
  qed
  ultimately show "in_basis n L0 D0 L' D Z'" using assms(1) by (simp add: in_basis_def)
  show "L' r c = L r c" if "c \<noteq> j \<or> r < i" for r c using that by (auto simp: L')
  have "L' i j = L i j - mu" using u assms(3) by (simp add: L' unit_lower_def)
  then show "\<bar>L' i j\<bar> \<le> 1 / 2" using half_round [of "L i j"] by (simp add: mu_def)
qed

lemma perm_form:
  fixes d0 d1 l del u v u' v' :: real
  assumes "0 < d0" and "0 < d1" and del: "del = d0 + l * l * d1"
  shows "d0 / del * d1 * (v - l * u) * (v' - l * u') +
      del * (d0 / del * u + d1 * l / del * v) * (d0 / del * u' + d1 * l / del * v') =
    d0 * u * u' + d1 * v * v'"
proof -
  have "0 < del" unfolding del using assms(1,2) by (intro add_pos_nonneg) simp_all
  then have "d0 / del * d1 * (v - l * u) * (v' - l * u') +
      del * (d0 / del * u + d1 * l / del * v) * (d0 / del * u' + d1 * l / del * v') =
      (d0 * d1 * (v - l * u) * (v' - l * u') + (d0 * u + d1 * l * v) * (d0 * u' + d1 * l * v')) / del"
    by (simp add: field_simps)
  also have "d0 * d1 * (v - l * u) * (v' - l * u') + (d0 * u + d1 * l * v) * (d0 * u' + d1 * l * v') =
      (d0 * u * u' + d1 * v * v') * del"
    unfolding del by (simp add: algebra_simps)
  finally show ?thesis using \<open>0 < del\<close> by simp
qed

lemma perm_keeps:
  assumes "in_basis n L0 D0 L D Z" and j: "j + 1 < n" and del: "del = D j + L (j + 1) j * L (j + 1) j * D (j + 1)"
    and "perm n L D j del Z = (L', D', Z')"
  shows "in_basis n L0 D0 L' D' Z'" and "D' (j + 1) = del" and "\<And>i. j + 1 < i \<Longrightarrow> D' i = D i"
    and "\<And>r c. j < c \<Longrightarrow> c < r \<Longrightarrow> r < n \<Longrightarrow> L' r c = L r (sw j c)" and "0 < del"
proof -
  define eta where "eta = D j / del"
  define lam where "lam = D (j + 1) * L (j + 1) j / del"
  note P = perm_value [where n = n and L = L and D = D and j = j and del = del and Z = Z, OF eta_def lam_def,
      unfolded assms(4) prod.inject]
  have L': "L' = (\<lambda>r c. if j + 2 \<le> r \<and> r < n then L r (sw j c)
            else if r = j \<and> c < j then - L (j + 1) j * L j c + L (j + 1) c
            else if r = j + 1 \<and> c < j then eta * L j c + lam * L (j + 1) c
            else if r = j + 1 \<and> c = j then lam else L r c)"
    and D': "D' = D(j := eta * D (j + 1), j + 1 := del)" and Z': "Z' = (\<lambda>r c. if r < n then Z r (sw j c) else Z r c)"
    using P by simp_all
  have u: "unit_lower n L" and um: "unimodular n Z" and pos: "0 < D j" "0 < D (j + 1)"
    using assms(1) j by (simp_all add: in_basis_def)
  show del0: "0 < del" unfolding del using pos by (intro add_pos_nonneg) simp_all
  define T where "T x = (\<lambda>c. x (sw j c))" for x :: vec
  have ZT: "mv n Z' x r = mv n Z (T x) r" if "r < n" for x r
    unfolding T_def by (rule mv_swap [OF j]) (use that in \<open>simp add: Z'\<close>)
  have "mv n (\<lambda>r c. eye r (sw j c)) x r = T x r" if "r < n" for x r
    using mv_swap [OF j, of "\<lambda>r c. eye r (sw j c)" r eye x] mv_eye [OF that] by (simp add: T_def)
  moreover have "int_mat n (\<lambda>r c. eye r (sw j c))" by (simp add: int_mat_def eye_def)
  moreover have "int_mat n Z'" using um j by (auto simp: unimodular_def int_mat_def Z' sw_less)
  ultimately have "unimodular n Z'"
    by (intro unimodular_comp [OF um, of Z' _ T T]) (use ZT j in \<open>auto simp: T_def sw_less\<close>)
  moreover have "unit_lower n L'" using u j by (auto simp: unit_lower_def L' sw_def)
  moreover have "dform n D' (mv n L' x) (mv n L' y) = dform n D0 (mv n L0 (mv n Z' x)) (mv n L0 (mv n Z' y))" for x y
  proof -
    define R where "R = (\<lambda>r c. L r (sw j c))"
    let ?l = "L (j + 1) j"
    have LT: "mv n L (T x) r = mv n R x r" for x r
      unfolding T_def by (rule mv_swap [OF j, symmetric]) (simp add: R_def)
    have "eta + lam * ?l = (D j + ?l * ?l * D (j + 1)) / del"
      by (simp add: eta_def lam_def add_divide_distrib mult.commute mult.left_commute)
    then have el: "eta + lam * ?l = 1" unfolding del [symmetric] using del0 by simp
    have ud: "L i i = 1" "i < c \<Longrightarrow> c < n \<Longrightarrow> L i c = 0" if "i < n" for i c
      using u that by (simp_all add: unit_lower_def)
    have rj: "L' j c = R (j + 1) c - ?l * R j c" "L' (j + 1) c = eta * R j c + lam * R (j + 1) c" if c: "c < n" for c
    proof -
      consider "c < j" | "c = j" | "c = j + 1" | "j + 1 < c" by linarith
      then have "L' j c = R (j + 1) c - ?l * R j c \<and> L' (j + 1) c = eta * R j c + lam * R (j + 1) c"
      proof cases
        case 3
        then show ?thesis using j c el ud(2) [of j "j + 1"] by (simp add: L' R_def ud(1))
      qed (use j c ud(2) [of j c] ud(2) [of "j + 1" c] ud(2) [of j "j + 1"] in \<open>simp_all add: L' R_def ud(1)\<close>)
      then show "L' j c = R (j + 1) c - ?l * R j c" "L' (j + 1) c = eta * R j c + lam * R (j + 1) c" by blast+
    qed
    have rows: "mv n L' x j = mv n R x (j + 1) - ?l * mv n R x j"
      "mv n L' x (j + 1) = eta * mv n R x j + lam * mv n R x (j + 1)" for x
      by (simp_all add: mv_def rj [simplified] algebra_simps sum.distrib sum_subtractf sum_distrib_left)
    have other: "mv n L' x r = mv n R x r" if "r < n" "r \<noteq> j" "r \<noteq> j + 1" for x r
      by (rule mv_cong) (use u that j in \<open>auto simp: L' R_def unit_lower_def sw_def\<close>)
    have "dform n D' (mv n L' x) (mv n L' y) = dform n D (mv n R x) (mv n R y)"
      unfolding dform_def sum_two [of j n "j + 1", OF Suc_lessD [OF j [unfolded Suc_eq_plus1 [symmetric]]] j, simplified]
      using perm_form [OF pos del] by (simp add: rows [simplified] other D' eta_def lam_def)
    also have "\<dots> = dform n D (mv n L (T x)) (mv n L (T y))" by (simp add: LT [abs_def])
    also have "\<dots> = dform n D0 (mv n L0 (mv n Z (T x))) (mv n L0 (mv n Z (T y)))"
      using assms(1) by (simp add: in_basis_def)
    also have "\<dots> = dform n D0 (mv n L0 (mv n Z' x)) (mv n L0 (mv n Z' y))"
      by (simp only: mv_mv_cong [OF ZT])
    finally show ?thesis .
  qed
  moreover have "0 < D' i" if "i < n" for i using assms(1) that pos del0 by (auto simp: D' eta_def in_basis_def)
  ultimately show "in_basis n L0 D0 L' D' Z'" by (simp add: in_basis_def)
  show "D' (j + 1) = del" and "\<And>i. j + 1 < i \<Longrightarrow> D' i = D i" by (simp_all add: D')
  show "L' r c = L r (sw j c)" if "j < c" "c < r" "r < n" for r c using that by (auto simp: L')
qed

section \<open>The loop\<close>

definition small :: "nat \<Rightarrow> mat \<Rightarrow> nat \<Rightarrow> bool" where
  "small n L c \<longleftrightarrow> (\<forall>i. c < i \<and> i < n \<longrightarrow> \<bar>L i c\<bar> \<le> 1 / 2)"

definition ordered :: "mat \<Rightarrow> vec \<Rightarrow> nat \<Rightarrow> bool" where
  "ordered L D j \<longleftrightarrow> D (j + 1) \<le> D j + L (j + 1) j * L (j + 1) j * D (j + 1) + 0.000001"

lemma gauss_column:
  assumes "in_basis n L0 D0 L D Z" and "j < m" and "m \<le> n"
    and "fold (\<lambda>i (L, Z). gauss n L Z i j) [j + 1..<m] (L, Z) = (L', Z')"
  shows "in_basis n L0 D0 L' D Z' \<and> (\<forall>r c. c \<noteq> j \<longrightarrow> L' r c = L r c) \<and> (\<forall>i. j < i \<and> i < m \<longrightarrow> \<bar>L' i j\<bar> \<le> 1 / 2)"
  using assms(2-)
proof (induction m arbitrary: L' Z')
  case (Suc m)
  show ?case
  proof (cases "j = m")
    case True
    then show ?thesis using Suc.prems(3) assms(1) by simp
  next
    case False
    then have jm: "j < m" "j + 1 \<le> m" "m < n" using Suc.prems by simp_all
    obtain L1 Z1 where 1: "fold (\<lambda>i (L, Z). gauss n L Z i j) [j + 1..<m] (L, Z) = (L1, Z1)"
      by (cases "fold (\<lambda>i (L, Z). gauss n L Z i j) [j + 1..<m] (L, Z)")
    note IH = Suc.IH [OF jm(1) less_imp_le [OF jm(3)] 1]
    have "gauss n L1 Z1 m j = (L', Z')" using Suc.prems(3) jm(2) 1 by simp
    note G = gauss_keeps [OF conjunct1 [OF IH] jm(1,3) this]
    have "\<bar>L' i j\<bar> \<le> 1 / 2" if "j < i" "i < Suc m" for i
      using G(2) [of j i] G(3) IH that by (cases "i = m") auto
    then show ?thesis using G(1,2) IH by auto
  qed
qed simp

definition red_inv :: "nat \<Rightarrow> mat \<Rightarrow> vec \<Rightarrow> int \<Rightarrow> int \<Rightarrow> mat \<Rightarrow> vec \<Rightarrow> mat \<Rightarrow> bool" where
  "red_inv n L0 D0 j k L D Z \<longleftrightarrow> in_basis n L0 D0 L D Z \<and> -1 \<le> j \<and> j \<le> int n - 2 \<and>
    (\<forall>c<n. j < int c \<or> k < int c \<longrightarrow> small n L c) \<and> (\<forall>c. j < int c \<and> c + 1 < n \<longrightarrow> ordered L D c)"

text \<open>One round: a column is reduced where it has to be, then the order of two columns is tested.\<close>

lemma red_column:
  assumes "red_inv n L0 D0 j k L D Z" and "0 \<le> j"
    and "(if j \<le> k then fold (\<lambda>i (L, Z). gauss n L Z i (nat j)) [nat j + 1..<n] (L, Z) else (L, Z)) = (L', Z')"
  shows "red_inv n L0 D0 j k L' D Z'" and "small n L' (nat j)"
proof -
  have jn: "nat j + 1 < n" using assms(1,2) by (auto simp: red_inv_def)
  have I: "in_basis n L0 D0 L D Z" using assms(1) by (simp add: red_inv_def)
  have R: "in_basis n L0 D0 L' D Z' \<and> (\<forall>r c. c \<noteq> nat j \<longrightarrow> L' r c = L r c) \<and> small n L' (nat j)"
  proof (cases "j \<le> k")
    case True
    then show ?thesis using gauss_column [OF I _ order_refl, of "nat j" L' Z'] assms(3) jn by (simp add: small_def)
  next
    case False
    then show ?thesis using assms(1,2,3) jn I by (auto simp: red_inv_def)
  qed
  then show "small n L' (nat j)" by blast
  have "small n L' c" if "c < n" "j < int c \<or> k < int c" for c
  proof (cases "c = nat j")
    case True
    then show ?thesis using R by simp
  next
    case False
    then have "small n L c" using that assms(1) by (auto simp: red_inv_def)
    then show ?thesis using R False by (simp add: small_def)
  qed
  moreover have "ordered L' D c" if "j < int c" "c + 1 < n" for c
  proof -
    have "c \<noteq> nat j" using that(1) assms(2) by linarith
    moreover have "ordered L D c" using that assms(1) by (simp add: red_inv_def)
    ultimately show ?thesis using R by (simp add: ordered_def)
  qed
  ultimately show "red_inv n L0 D0 j k L' D Z'" using R assms(1) by (simp add: red_inv_def)
qed

lemma red_swap:
  assumes "red_inv n L0 D0 j k L D Z" and "small n L (nat j)" and "0 \<le> j"
    and "del = D (nat j) + L (nat j + 1) (nat j) * L (nat j + 1) (nat j) * D (nat j + 1)"
    and "perm n L D (nat j) del Z = (L', D', Z')"
  shows "red_inv n L0 D0 (int n - 2) j L' D' Z'"
proof -
  have jn: "nat j + 1 < n" using assms(1,3) by (auto simp: red_inv_def)
  have I: "in_basis n L0 D0 L D Z" using assms(1) by (simp add: red_inv_def)
  note P = perm_keeps [OF I jn assms(4,5)]
  have "small n L' c" if c: "c < n" "int n - 2 < int c \<or> j < int c" for c
  proof (cases "j < int c")
    case True
    have "small n L (sw (nat j) c)"
    proof (cases "c = nat j + 1")
      case True
      then show ?thesis using assms(2) by simp
    next
      case False
      moreover have "c \<noteq> nat j" using \<open>j < int c\<close> \<open>0 \<le> j\<close> by linarith
      ultimately have "sw (nat j) c = c" by (simp add: sw_def)
      then show ?thesis using assms(1) c(1) True by (simp add: red_inv_def)
    qed
    moreover have "sw (nat j) c \<le> c" using True assms(3) by (auto simp: sw_def)
    moreover have "nat j < c" using True assms(3) by simp
    ultimately show ?thesis using P(4) [of c] unfolding small_def by (metis le_less_trans)
  next
    case False
    then have "c + 1 = n" using c by linarith
    then show ?thesis by (auto simp: small_def)
  qed
  moreover have "\<not> (int n - 2 < int c \<and> c + 1 < n)" for c by linarith
  ultimately show ?thesis using P(1) jn by (auto simp: red_inv_def)
qed

text \<open>Every swap makes the list of the \<open>D\<close>, in units of the tolerance, smaller.\<close>

definition weights :: "nat \<Rightarrow> vec \<Rightarrow> nat list" where
  "weights n D = map (\<lambda>i. nat \<lfloor>1000000 * D i\<rfloor>) (rev [0..<n])"

lemma weights_less:
  assumes "j + 1 < n" and "0 < D' (j + 1)" and "D' (j + 1) + 0.000001 < D (j + 1)" and "\<And>i. j + 1 < i \<Longrightarrow> D' i = D i"
  shows "(weights n D', weights n D) \<in> lex less_than"
proof -
  have "1000000 * D' (j + 1) + 1 < 1000000 * D (j + 1)" using assms(3) by simp
  then have "\<lfloor>1000000 * D' (j + 1)\<rfloor> < \<lfloor>1000000 * D (j + 1)\<rfloor>" by linarith
  moreover have "0 \<le> \<lfloor>1000000 * D' (j + 1)\<rfloor>" using assms(2) by simp
  ultimately have l: "nat \<lfloor>1000000 * D' (j + 1)\<rfloor> < nat \<lfloor>1000000 * D (j + 1)\<rfloor>" by linarith
  have "[0..<n] = [0..<j + 1] @ (j + 1) # [j + 2..<n]"
    using upt_add_eq_append [of 0 "j + 1" "n - (j + 1)"] upt_conv_Cons [of "j + 1" n] assms(1) by simp
  then have r: "rev [0..<n] = rev [j + 2..<n] @ (j + 1) # rev [0..<j + 1]" by simp
  have m: "map (\<lambda>i. nat \<lfloor>1000000 * D' i\<rfloor>) (rev [j + 2..<n]) = map (\<lambda>i. nat \<lfloor>1000000 * D i\<rfloor>) (rev [j + 2..<n])"
    using assms(4) by simp
  show ?thesis
    unfolding weights_def r map_append list.map m lex_conv mem_Collect_eq prod.case
    using l by (auto intro!: exI)
qed

lemma wf_weights: "wf (lex less_than <*lex*> less_than)"
  by (intro wf_lex_prod wf_lex wf_less_than)

text \<open>The loop returns, with everything reduced and in order.\<close>

lemma red_loop_returns:
  assumes "red_inv n L0 D0 j k L D Z"
  shows "\<exists>L' D' Z' k'. red_loop n j k L D Z = Some (L', D', Z') \<and> red_inv n L0 D0 (-1) k' L' D' Z'"
  using assms
proof (induction "(weights n D, nat (j + 1))" arbitrary: j k L D Z rule: wf_induct_rule [OF wf_weights])
  case (1 j D k L Z)
  show ?case
  proof (cases "j < 0")
    case True
    then have "j = -1" using 1(2) by (simp add: red_inv_def)
    then show ?thesis using 1(2) by (subst red_loop.simps) auto
  next
    case False
    then have j0: "0 \<le> j" and nj: "\<not> j < 0" by simp_all
    obtain L1 Z1 where c: "(if j \<le> k then fold (\<lambda>i (L, Z). gauss n L Z i (nat j)) [nat j + 1..<n] (L, Z) else (L, Z)) = (L1, Z1)"
      by (cases "if j \<le> k then fold (\<lambda>i (L, Z). gauss n L Z i (nat j)) [nat j + 1..<n] (L, Z) else (L, Z)")
    note C = red_column [OF 1(2) j0 c]
    define del where "del = D (nat j) + L1 (nat j + 1) (nat j) * L1 (nat j + 1) (nat j) * D (nat j + 1)"
    have jn: "nat j + 1 < n" using 1(2) j0 by (auto simp: red_inv_def)
    show ?thesis
    proof (cases "del + 0.000001 < D (nat j + 1)")
      case True
      obtain L2 D2 Z2 where p: "perm n L1 D (nat j) del Z1 = (L2, D2, Z2)" by (cases "perm n L1 D (nat j) del Z1")
      have I: "in_basis n L0 D0 L1 D Z1" using C(1) by (simp add: red_inv_def)
      note P = perm_keeps [OF I jn del_def p]
      have "(weights n D2, weights n D) \<in> lex less_than"
        by (rule weights_less [OF jn]) (use P True in simp_all)
      then have "((weights n D2, nat (int n - 2 + 1)), (weights n D, nat (j + 1))) \<in> lex less_than <*lex*> less_than" by simp
      note H = 1(1) [OF this red_swap [OF C(1,2) j0 del_def p]]
      have "red_loop n j k L D Z = red_loop n (int n - 2) j L2 D2 Z2"
        unfolding red_loop.simps [of n j k L D Z] if_not_P [OF nj] c prod.case Let_def del_def [symmetric] if_P [OF True] p ..
      then show ?thesis using H by simp
    next
      case False
      have "red_inv n L0 D0 (j - 1) k L1 D Z1"
      proof -
        have "small n L1 c" if "c < n" "j - 1 < int c \<or> k < int c" for c
        proof (cases "int c = j")
          case True
          then show ?thesis using C(2) by auto
        next
          case False
          then show ?thesis using C(1) that by (auto simp: red_inv_def)
        qed
        moreover have "ordered L1 D c" if "j - 1 < int c" "c + 1 < n" for c
        proof (cases "int c = j")
          case True
          then have "c = nat j" by simp
          then show ?thesis using \<open>\<not> del + 0.000001 < D (nat j + 1)\<close> by (simp add: ordered_def del_def)
        next
          case False
          then show ?thesis using C(1) that by (auto simp: red_inv_def)
        qed
        ultimately show ?thesis using C(1) j0 by (auto simp: red_inv_def)
      qed
      note H = 1(1) [OF _ this]
      have "red_loop n j k L D Z = red_loop n (j - 1) k L1 D Z1"
        unfolding red_loop.simps [of n j k L D Z] if_not_P [OF nj] c prod.case Let_def del_def [symmetric] if_not_P [OF False] ..
      then show ?thesis using H j0 by simp
    qed
  qed
qed

lemma reduction_returns:
  assumes "unit_lower n L" and "\<And>i. i < n \<Longrightarrow> 0 < D i" and "0 < n"
  shows "\<exists>L' D' Z. reduction n L D eye = Some (L', D', Z) \<and> in_basis n L D L' D' Z \<and>
    (\<forall>c<n. small n L' c) \<and> (\<forall>c. c + 1 < n \<longrightarrow> ordered L' D' c)"
proof -
  have e: "mv n M (mv n eye x) = mv n M x" for M x by (rule mv_mv_cong) (rule mv_eye)
  have "in_basis n L D L D eye" using assms(1,2) by (simp add: in_basis_def unimodular_eye e)
  moreover have "small n L c" if "int n - 2 < int c" for c using that by (auto simp: small_def)
  ultimately have "red_inv n L D (int n - 2) (int n - 2) L D eye" using assms(3) by (auto simp: red_inv_def)
  from red_loop_returns [OF this] show ?thesis by (fastforce simp: reduction_def red_inv_def)
qed

end
