(* ===== verification/LambdaSearch.thy ===== *)
theory LambdaSearch
  imports LambdaRed
begin

text \<open>
  The search for the best integer vectors: a depth-first search that takes the values of every level
  in the order of their distance from the centre.  When it ends, the vectors it has kept are the best
  ones; the invariant says which vectors are still to come.
\<close>

section \<open>Distance\<close>

text \<open>The centre of level \<open>k\<close> depends on the values of the levels above.\<close>

function cen :: "nat \<Rightarrow> mat \<Rightarrow> vec \<Rightarrow> vec \<Rightarrow> nat \<Rightarrow> double" where
  "cen n L zs w k = zs k + (\<Sum>i\<leftarrow>[Suc k..<n]. (w i - cen n L zs w i) * L i k)"
  by pat_completeness auto
termination
  by (relation "measure (\<lambda>(n, L, zs, w, k). n - k)") auto

declare cen.simps [simp del]

lemma cen_sum: "cen n L zs w k = zs k + (\<Sum>i=Suc k..<n. (w i - cen n L zs w i) * L i k)"
  by (subst cen.simps) (simp add: interv_sum_list_conv_sum_set_nat)

definition dst :: "nat \<Rightarrow> mat \<Rightarrow> vec \<Rightarrow> vec \<Rightarrow> vec \<Rightarrow> nat \<Rightarrow> double" where
  "dst n L D zs w k = (\<Sum>i=k..<n. (w i - cen n L zs w i) * (w i - cen n L zs w i) / D i)"

lemma cen_cong: "(\<And>i. k < i \<Longrightarrow> i < n \<Longrightarrow> w i = w' i) \<Longrightarrow> cen n L zs w k = cen n L zs w' k"
proof (induction n L zs w k rule: cen.induct)
  case (1 n L zs w k)
  have "cen n L zs w i = cen n L zs w' i" if "i \<in> {Suc k..<n}" for i
    using that by (intro 1) auto
  then show ?case unfolding cen_sum [of n L zs _ k] using 1(2) by simp
qed

lemma dst_cong: "(\<And>i. k \<le> i \<Longrightarrow> i < n \<Longrightarrow> w i = w' i) \<Longrightarrow> dst n L D zs w k = dst n L D zs w' k"
  unfolding dst_def by (rule sum.cong) (auto intro!: arg_cong2 [where f = "(/)"] arg_cong2 [where f = "(*)"]
    arg_cong2 [where f = "(-)"] cen_cong)

lemma dst_Suc: "k < n \<Longrightarrow> dst n L D zs w k = (w k - cen n L zs w k) * (w k - cen n L zs w k) / D k + dst n L D zs w (Suc k)"
  by (simp add: dst_def sum.atLeast_Suc_lessThan)

lemma dst_mono:
  assumes "\<And>i. i < n \<Longrightarrow> 0 < D i" and "k \<le> j" and "j \<le> n"
  shows "dst n L D zs w j \<le> dst n L D zs w k"
  unfolding dst_def by (rule sum_mono2) (use assms in \<open>auto simp: less_imp_le\<close>)

section \<open>The values of a level\<close>

text \<open>
  The values taken so far are the integers between \<open>z\<close> and \<open>z + s\<close>, without the latter, which is the
  next one; the centre is near the middle of them.
\<close>

definition zigzag :: "double \<Rightarrow> double \<Rightarrow> double \<Rightarrow> bool" where
  "zigzag zb z s \<longleftrightarrow> z \<in> \<int> \<and> s \<in> \<int> \<and> s \<noteq> 0 \<and>
    (if 0 < s then 2 * z + s - 1 \<le> 2 * zb \<and> 2 * zb \<le> 2 * z + s else 2 * z + s \<le> 2 * zb \<and> 2 * zb \<le> 2 * z + s + 1)"

definition passed :: "double \<Rightarrow> double \<Rightarrow> int \<Rightarrow> bool" where
  "passed z s x \<longleftrightarrow> (if 0 < s then \<lfloor>z\<rfloor> \<le> x \<and> x < \<lfloor>z\<rfloor> + \<lfloor>s\<rfloor> else \<lfloor>z\<rfloor> + \<lfloor>s\<rfloor> < x \<and> x \<le> \<lfloor>z\<rfloor>)"

lemma floor_m1: "\<lfloor>- 1 :: real\<rfloor> = - 1"
  by (simp add: floor_eq_iff)

lemma zigzag_enter: "zigzag zb (RND zb) (SGN (zb - RND zb))"
  unfolding zigzag_def RND_def SGN_def by (auto; linarith)

lemma passed_enter: "passed (RND zb) (SGN (zb - RND zb)) x \<longleftrightarrow> real_of_int x = RND zb"
  unfolding passed_def RND_def SGN_def by (auto simp: floor_m1)

lemma zigzag_ints:
  assumes "zigzag zb z s"
  obtains a b where "z = of_int a" "s = of_int b"
    "0 < b \<and> 2 * real_of_int a + real_of_int b - 1 \<le> 2 * zb \<and> 2 * zb \<le> 2 * real_of_int a + real_of_int b \<or>
     b < 0 \<and> 2 * real_of_int a + real_of_int b \<le> 2 * zb \<and> 2 * zb \<le> 2 * real_of_int a + real_of_int b + 1"
  using assms unfolding zigzag_def by (auto elim!: Ints_cases split: if_split_asm)

lemma zigzag_next:
  assumes "zigzag zb z s"
  shows "zigzag zb (z + s) (- s - SGN s)"
    and "real_of_int x = z + s \<or> \<not> passed (z + s) (- s - SGN s) x \<longleftrightarrow> \<not> passed z s x"
proof -
  from assms obtain a b where ab: "z = of_int a" "s = of_int b"
    and r: "0 < b \<and> 2 * real_of_int a + real_of_int b - 1 \<le> 2 * zb \<and> 2 * zb \<le> 2 * real_of_int a + real_of_int b \<or>
     b < 0 \<and> 2 * real_of_int a + real_of_int b \<le> 2 * zb \<and> 2 * zb \<le> 2 * real_of_int a + real_of_int b + 1"
    by (rule zigzag_ints)
  define b' where "b' = - b - (if b \<le> 0 then -1 else 1)"
  have s': "- s - SGN s = of_int b'" and zs: "z + s = of_int (a + b)" by (simp_all add: b'_def ab SGN_def)
  have b': "0 < b \<and> b' = - b - 1 \<or> b < 0 \<and> b' = - b + 1" using r by (auto simp: b'_def)
  then have "0 < b \<and> real_of_int b' = - real_of_int b - 1 \<or> b < 0 \<and> real_of_int b' = - real_of_int b + 1" by auto
  then show "zigzag zb (z + s) (- s - SGN s)"
    using r unfolding zigzag_def s' zs by auto
  show "real_of_int x = z + s \<or> \<not> passed (z + s) (- s - SGN s) x \<longleftrightarrow> \<not> passed z s x"
    using b' unfolding passed_def s' zs of_int_eq_iff unfolding ab by auto
qed

lemma zigzag_far:
  assumes "zigzag zb z s" and "real_of_int x = z \<or> \<not> passed z s x"
  shows "(zb - z) * (zb - z) \<le> (of_int x - zb) * (of_int x - zb)"
proof -
  from assms(1) obtain a b where ab: "z = of_int a" "s = of_int b"
    and r: "0 < b \<and> 2 * real_of_int a + real_of_int b - 1 \<le> 2 * zb \<and> 2 * zb \<le> 2 * real_of_int a + real_of_int b \<or>
     b < 0 \<and> 2 * real_of_int a + real_of_int b \<le> 2 * zb \<and> 2 * zb \<le> 2 * real_of_int a + real_of_int b + 1"
    by (rule zigzag_ints)
  have pos: "1 \<le> real_of_int b" if "0 < b" using that by linarith
  have neg: "real_of_int b \<le> - 1" if "b < 0" using that by linarith
  consider "x = a" | "0 < b" "x \<le> a - 1" | "0 < b" "a + b \<le> x" | "b < 0" "x \<le> a + b" | "b < 0" "a + 1 \<le> x"
    using assms(2) r ab by (fastforce simp: passed_def)
  then have "\<bar>zb - z\<bar> \<le> \<bar>of_int x - zb\<bar>"
  proof cases
    case 1 then show ?thesis by (simp add: ab abs_minus_commute)
  next
    case 2
    then have "real_of_int x \<le> real_of_int a - 1" by linarith
    then show ?thesis using r pos 2(1) unfolding ab by linarith
  next
    case 3
    then have "real_of_int a + real_of_int b \<le> real_of_int x" by linarith
    then show ?thesis using r pos 3(1) unfolding ab by linarith
  next
    case 4
    then have "real_of_int x \<le> real_of_int a + real_of_int b" by linarith
    then show ?thesis using r neg 4(1) unfolding ab by linarith
  next
    case 5
    then have "real_of_int a + 1 \<le> real_of_int x" by linarith
    then show ?thesis using r neg 5(1) unfolding ab by linarith
  qed
  then have "\<bar>zb - z\<bar> * \<bar>zb - z\<bar> \<le> \<bar>of_int x - zb\<bar> * \<bar>of_int x - zb\<bar>" by (intro mult_mono) simp_all
  then show ?thesis by simp
qed

lemma passed_self: "zigzag zb z s \<Longrightarrow> real_of_int x = z \<Longrightarrow> passed z s x"
  by (erule zigzag_ints) (auto simp: passed_def)

section \<open>The path\<close>

text \<open>What the variables of the levels from the current one upwards hold.\<close>

definition level :: "nat \<Rightarrow> mat \<Rightarrow> vec \<Rightarrow> vec \<Rightarrow> srch \<Rightarrow> nat \<Rightarrow> bool" where
  "level n L D zs st j \<longleftrightarrow> sr_zb st j = cen n L zs (sr_z st) j \<and> sr_dist st j = dst n L D zs (sr_z st) (Suc j) \<and>
    (\<forall>i\<le>j. sr_S st j i = (\<Sum>l=Suc j..<n. (sr_z st l - sr_zb st l) * L l i)) \<and>
    zigzag (sr_zb st j) (sr_z st j) (sr_step st j)"

definition path :: "nat \<Rightarrow> mat \<Rightarrow> vec \<Rightarrow> vec \<Rightarrow> srch \<Rightarrow> bool" where
  "path n L D zs st \<longleftrightarrow> sr_k st < n \<and> (\<forall>j. sr_k st \<le> j \<and> j < n \<longrightarrow> level n L D zs st j) \<and>
    sr_y st = sr_zb st (sr_k st) - sr_z st (sr_k st)"

text \<open>
  The vectors still to come: the current one and those that leave the path at a level with a value
  not taken yet.
\<close>

definition later :: "nat \<Rightarrow> srch \<Rightarrow> nat \<Rightarrow> (nat \<Rightarrow> int) \<Rightarrow> bool" where
  "later n st k w \<longleftrightarrow> (\<exists>j. k \<le> j \<and> j < n \<and> (\<forall>i. j < i \<and> i < n \<longrightarrow> of_int (w i) = sr_z st i) \<and>
    \<not> passed (sr_z st j) (sr_step st j) (w j))"

definition remain :: "nat \<Rightarrow> srch \<Rightarrow> (nat \<Rightarrow> int) \<Rightarrow> bool" where
  "remain n st w \<longleftrightarrow> (\<forall>i. sr_k st \<le> i \<and> i < n \<longrightarrow> of_int (w i) = sr_z st i) \<or> later n st (sr_k st) w"

lemma laterI:
  assumes "k \<le> j" and "j < n" and "\<And>i. j < i \<Longrightarrow> i < n \<Longrightarrow> of_int (w i) = sr_z st i"
    and "\<not> passed (sr_z st j) (sr_step st j) (w j)"
  shows "later n st k w"
  unfolding later_def using assms by blast

lemma remain_now: "(\<And>i. sr_k st \<le> i \<Longrightarrow> i < n \<Longrightarrow> of_int (w i) = sr_z st i) \<Longrightarrow> remain n st w"
  unfolding remain_def by iprover

lemma remain_later: "later n st (sr_k st) w \<Longrightarrow> remain n st w"
  unfolding remain_def by (rule disjI2)

lemma level_cong:
  assumes "level n L D zs st j" and "\<And>i. j < i \<Longrightarrow> i < n \<Longrightarrow> sr_z st' i = sr_z st i"
    and "\<And>i. j \<le> i \<Longrightarrow> i < n \<Longrightarrow> sr_zb st' i = sr_zb st i" and "sr_dist st' j = sr_dist st j"
    and "\<And>i. i \<le> j \<Longrightarrow> sr_S st' j i = sr_S st j i"
    and "zigzag (sr_zb st' j) (sr_z st' j) (sr_step st' j)" and "j < n"
  shows "level n L D zs st' j"
proof -
  have "cen n L zs (sr_z st') j = cen n L zs (sr_z st) j" by (rule cen_cong) (simp add: assms(2))
  moreover have "dst n L D zs (sr_z st') (Suc j) = dst n L D zs (sr_z st) (Suc j)"
    by (rule dst_cong) (simp add: assms(2))
  moreover have "(\<Sum>l=Suc j..<n. (sr_z st' l - sr_zb st' l) * L l i) = (\<Sum>l=Suc j..<n. (sr_z st l - sr_zb st l) * L l i)" for i
    by (rule sum.cong) (simp_all add: assms(2,3))
  ultimately show ?thesis using assms unfolding level_def by simp
qed

lemma next_path:
  assumes "\<And>j. k \<le> j \<Longrightarrow> j < n \<Longrightarrow> level n L D zs st j" and "k < n" and "sr_k st = k"
  shows "path n L D zs (next_z k st)" and "remain n (next_z k st) w \<longleftrightarrow> later n st k w"
proof -
  have z: "zigzag (sr_zb st k) (sr_z st k) (sr_step st k)"
    using assms(1) [OF order_refl assms(2)] unfolding level_def by blast
  note N = zigzag_next [OF z]
  have "level n L D zs (next_z k st) j" if j: "k \<le> j" "j < n" for j
  proof (rule level_cong [OF assms(1) [OF j]])
    show "zigzag (sr_zb (next_z k st) j) (sr_z (next_z k st) j) (sr_step (next_z k st) j)"
      using N(1) assms(1) [OF j] by (auto simp: next_z_def Let_def level_def)
  qed (use j in \<open>auto simp: next_z_def Let_def\<close>)
  then show "path n L D zs (next_z k st)" using assms(2,3) by (simp add: path_def next_z_def Let_def)
  show "remain n (next_z k st) w \<longleftrightarrow> later n st k w"
  proof
    assume "remain n (next_z k st) w"
    then consider (a) "\<forall>i. k \<le> i \<and> i < n \<longrightarrow> of_int (w i) = sr_z (next_z k st) i"
      | (l) j where "k \<le> j" "j < n" "\<forall>i. j < i \<and> i < n \<longrightarrow> of_int (w i) = sr_z (next_z k st) i"
          "\<not> passed (sr_z (next_z k st) j) (sr_step (next_z k st) j) (w j)"
      using assms(3) by (auto simp: remain_def later_def next_z_def Let_def)
    then show "later n st k w"
    proof cases
      case a
      then have "real_of_int (w k) = sr_z st k + sr_step st k" using assms(2) by (simp add: next_z_def Let_def)
      then have "\<not> passed (sr_z st k) (sr_step st k) (w k)" using N(2) by blast
      moreover have "\<forall>i. k < i \<and> i < n \<longrightarrow> of_int (w i) = sr_z st i" using a by (auto simp: next_z_def Let_def)
      ultimately show ?thesis using assms(2) unfolding later_def by blast
    next
      case l
      have "\<not> passed (sr_z st j) (sr_step st j) (w j)"
        using l(4) N(2) [of "w k"] by (cases "j = k") (auto simp: next_z_def Let_def)
      moreover have "\<forall>i. j < i \<and> i < n \<longrightarrow> of_int (w i) = sr_z st i" using l(1,3) by (auto simp: next_z_def Let_def)
      ultimately show ?thesis using l(1,2) unfolding later_def by blast
    qed
  next
    assume "later n st k w"
    then obtain j where j: "k \<le> j" "j < n" "\<forall>i. j < i \<and> i < n \<longrightarrow> of_int (w i) = sr_z st i"
        "\<not> passed (sr_z st j) (sr_step st j) (w j)"
      by (auto simp: later_def)
    have e: "\<forall>i. j < i \<and> i < n \<longrightarrow> of_int (w i) = sr_z (next_z k st) i" using j(1,3) by (auto simp: next_z_def Let_def)
    show "remain n (next_z k st) w"
    proof (cases "j = k")
      case True
      then have "real_of_int (w k) = sr_z st k + sr_step st k \<or>
          \<not> passed (sr_z (next_z k st) k) (sr_step (next_z k st) k) (w k)"
        using N(2) j(4) by (auto simp: next_z_def Let_def)
      then show ?thesis
      proof
        assume w: "real_of_int (w k) = sr_z st k + sr_step st k"
        then have "of_int (w k) = sr_z (next_z k st) k" by (simp add: next_z_def Let_def)
        moreover have "sr_k (next_z k st) = k" using assms(3) by (simp add: next_z_def Let_def)
        ultimately have "of_int (w i) = sr_z (next_z k st) i" if "sr_k (next_z k st) \<le> i \<and> i < n" for i
          using e [rule_format, of i] that True by (cases "i = k") (simp_all del: of_int_eq_iff)
        then show ?thesis by (intro remain_now) iprover
      next
        assume "\<not> passed (sr_z (next_z k st) k) (sr_step (next_z k st) k) (w k)"
        moreover have "sr_k (next_z k st) = k" using assms(3) by (simp add: next_z_def Let_def)
        ultimately show ?thesis using e assms(2) True by (intro remain_later laterI [of _ k]) simp_all
      qed
    next
      case False
      then have "\<not> passed (sr_z (next_z k st) j) (sr_step (next_z k st) j) (w j)"
        using j(4) by (simp add: next_z_def Let_def)
      moreover have "sr_k (next_z k st) = k" using assms(3) by (simp add: next_z_def Let_def)
      ultimately show ?thesis using e j(1,2) by (intro remain_later laterI [of _ j]) simp_all
    qed
  qed
qed

text \<open>One level down.\<close>

lemma fold_S:
  "fold (\<lambda>i S. put S k i (S (k + 1) i + e * L (k + 1) i)) [0..<m] S =
    (\<lambda>r c. if r = k \<and> c < m then S (k + 1) c + e * L (k + 1) c else S r c)"
  by (induction m) (auto simp: fun_eq_iff less_Suc_eq)

definition down :: "nat \<Rightarrow> mat \<Rightarrow> vec \<Rightarrow> double \<Rightarrow> srch \<Rightarrow> srch" where
  "down n L zs newdist st =
    (let k = sr_k st - 1;
         S = (\<lambda>r c. if r = k \<and> c < k + 1 then sr_S st (k + 1) c + (sr_z st (k + 1) - sr_zb st (k + 1)) * L (k + 1) c
                    else sr_S st r c)
     in enter k (zs k + S k k) (st\<lparr>sr_k := k, sr_dist := (sr_dist st)(k := newdist), sr_S := S\<rparr>))"

lemma down_path:
  assumes P: "path n L D zs st" and k: "sr_k st \<noteq> 0"
    and nd: "newdist = sr_dist st (sr_k st) + sr_y st * sr_y st / D (sr_k st)"
  shows "path n L D zs (down n L zs newdist st)" and "remain n (down n L zs newdist st) w \<longleftrightarrow> remain n st w"
proof -
  let ?st = "down n L zs newdist st"
  obtain k' where k': "sr_k st = Suc k'" using k by (cases "sr_k st") auto
  have kn: "Suc k' < n" using P k' by (simp add: path_def)
  have lev: "level n L D zs st j" if "Suc k' \<le> j" "j < n" for j using P that k' by (simp add: path_def)
  have y: "sr_y st = sr_zb st (Suc k') - sr_z st (Suc k')" using P k' by (simp add: path_def)
  have K: "sr_k ?st = k'" and Z: "sr_z ?st i = sr_z st i" and B: "sr_zb ?st i = sr_zb st i"
    and T: "sr_step ?st i = sr_step st i" if "i \<noteq> k'" for i
    using that k' by (simp_all add: down_def enter_def Let_def)
  have K: "sr_k ?st = k'" using k' by (simp add: down_def enter_def Let_def)
  have S: "sr_S ?st k' i = (\<Sum>l=Suc k'..<n. (sr_z st l - sr_zb st l) * L l i)" if "i \<le> k'" for i
  proof -
    have "sr_S ?st k' i = sr_S st (Suc k') i + (sr_z st (Suc k') - sr_zb st (Suc k')) * L (Suc k') i"
      using that k' by (simp add: down_def enter_def Let_def)
    also have "sr_S st (Suc k') i = (\<Sum>l=Suc (Suc k')..<n. (sr_z st l - sr_zb st l) * L l i)"
      using lev [of "Suc k'"] kn that by (simp add: level_def)
    finally show ?thesis using kn by (simp add: sum.atLeast_Suc_lessThan add.commute)
  qed
  have zb: "sr_zb ?st k' = cen n L zs (sr_z ?st) k'"
  proof -
    have "sr_zb ?st k' = zs k' + sr_S ?st k' k'" using k' by (simp add: down_def enter_def Let_def)
    also have "\<dots> = zs k' + (\<Sum>l=Suc k'..<n. (sr_z st l - cen n L zs (sr_z st) l) * L l k')"
      using lev by (simp add: S level_def)
    also have "\<dots> = cen n L zs (sr_z st) k'" by (rule cen_sum [symmetric])
    also have "\<dots> = cen n L zs (sr_z ?st) k'" by (rule cen_cong) (simp add: Z)
    finally show ?thesis .
  qed
  have "level n L D zs ?st j" if j: "k' \<le> j" "j < n" for j
  proof (cases "j = k'")
    case True
    have "sr_dist ?st k' = newdist" using k' by (simp add: down_def enter_def Let_def)
    also have "\<dots> = dst n L D zs (sr_z st) (Suc k')"
      using lev [of "Suc k'"] kn unfolding nd k' y dst_Suc [OF kn] by (simp add: level_def algebra_simps)
    also have "\<dots> = dst n L D zs (sr_z ?st) (Suc k')" by (rule dst_cong) (simp add: Z)
    finally have d: "sr_dist ?st k' = dst n L D zs (sr_z ?st) (Suc k')" .
    have "sr_S ?st k' i = (\<Sum>l=Suc k'..<n. (sr_z ?st l - sr_zb ?st l) * L l i)" if "i \<le> k'" for i
      unfolding S [OF that] by (rule sum.cong) (simp_all add: Z B)
    moreover have "zigzag (sr_zb ?st k') (sr_z ?st k') (sr_step ?st k')"
      using zigzag_enter k' by (simp add: down_def enter_def Let_def)
    ultimately show ?thesis using zb d unfolding True level_def by blast
  next
    case False
    then have j': "Suc k' \<le> j" using j by simp
    show ?thesis
      by (rule level_cong [OF lev [OF j' j(2)]])
        (use False j j' lev [OF j' j(2)] k' in \<open>auto simp: Z B T level_def down_def enter_def Let_def\<close>)
  qed
  moreover have "sr_y ?st = sr_zb ?st k' - sr_z ?st k'" by (simp add: down_def enter_def Let_def k')
  ultimately show "path n L D zs ?st" using kn K by (simp add: path_def)
  have E: "sr_z ?st k' = RND (sr_zb ?st k')" "sr_step ?st k' = SGN (sr_zb ?st k' - RND (sr_zb ?st k'))"
    by (simp_all add: down_def enter_def Let_def k')
  note pe = passed_enter [of "sr_zb ?st k'", folded E]
  show "remain n ?st w \<longleftrightarrow> remain n st w"
  proof
    assume "remain n ?st w"
    then consider (a) "\<forall>i. k' \<le> i \<and> i < n \<longrightarrow> of_int (w i) = sr_z ?st i"
      | (l) j where "k' \<le> j" "j < n" "\<forall>i. j < i \<and> i < n \<longrightarrow> of_int (w i) = sr_z ?st i"
          "\<not> passed (sr_z ?st j) (sr_step ?st j) (w j)"
      unfolding remain_def later_def K by blast
    then show "remain n st w"
    proof cases
      case a
      then show ?thesis using Z unfolding remain_def k' by (metis Suc_leD Suc_n_not_le_n)
    next
      case l
      then show ?thesis
      proof (cases "j = k'")
        case True
        then have "\<forall>i. Suc k' \<le> i \<and> i < n \<longrightarrow> of_int (w i) = sr_z st i" using l(3) Z by auto
        then show ?thesis unfolding remain_def k' ..
      next
        case False
        then have "Suc k' \<le> j" "\<forall>i. j < i \<and> i < n \<longrightarrow> of_int (w i) = sr_z st i"
          "\<not> passed (sr_z st j) (sr_step st j) (w j)" using l Z T by auto
        then show ?thesis using l(2) unfolding remain_def later_def k' by blast
      qed
    qed
  next
    assume "remain n st w"
    then consider (a) "\<forall>i. Suc k' \<le> i \<and> i < n \<longrightarrow> of_int (w i) = sr_z st i"
      | (l) j where "Suc k' \<le> j" "j < n" "\<forall>i. j < i \<and> i < n \<longrightarrow> of_int (w i) = sr_z st i"
          "\<not> passed (sr_z st j) (sr_step st j) (w j)"
      unfolding remain_def later_def k' by blast
    then show "remain n ?st w"
    proof cases
      case a
      then have a': "\<forall>i. k' < i \<and> i < n \<longrightarrow> of_int (w i) = sr_z ?st i" using Z by auto
      show ?thesis
      proof (cases "of_int (w k') = sr_z ?st k'")
        case True
        then show ?thesis using a' unfolding remain_def K by (metis le_neq_implies_less)
      next
        case False
        then have "\<not> passed (sr_z ?st k') (sr_step ?st k') (w k')" unfolding pe by simp
        then show ?thesis using a' kn unfolding remain_def later_def K by (metis Suc_lessD order_refl)
      qed
    next
      case l
      then have "k' \<le> j" "\<forall>i. j < i \<and> i < n \<longrightarrow> of_int (w i) = sr_z ?st i"
        "\<not> passed (sr_z ?st j) (sr_step ?st j) (w j)" using Z T by auto
      then show ?thesis using l(2) unfolding remain_def later_def K by blast
    qed
  qed
qed

end
