(* ===== verification/LambdaBest.thy ===== *)
theory LambdaBest
  imports LambdaSearch
begin

text \<open>
  What the search has kept: the invariant of the vectors and distances it stores, the sort at the end,
  and the result: the best integer vectors.
\<close>

section \<open>Cutting off a level\<close>

text \<open>The distance of an integer vector.\<close>

abbreviation vdist :: "nat \<Rightarrow> mat \<Rightarrow> vec \<Rightarrow> vec \<Rightarrow> (nat \<Rightarrow> int) \<Rightarrow> double" where
  "vdist n L D zs w \<equiv> dst n L D zs (\<lambda>i. of_int (w i)) 0"

abbreviation newdist :: "vec \<Rightarrow> srch \<Rightarrow> double" where
  "newdist D st \<equiv> sr_dist st (sr_k st) + sr_y st * sr_y st / D (sr_k st)"

lemma newdist_dst:
  assumes "path n L D zs st"
  shows "newdist D st = dst n L D zs (sr_z st) (sr_k st)"
proof -
  have "level n L D zs st (sr_k st)" "sr_k st < n" "sr_y st = sr_zb st (sr_k st) - sr_z st (sr_k st)"
    using assms by (auto simp: path_def)
  moreover have "(a - b) * (a - b) = (b - a) * (b - a :: real)" for a b by (simp add: algebra_simps)
  ultimately show ?thesis by (simp add: dst_Suc level_def)
qed

lemma prune:
  assumes P: "path n L D zs st" and D: "\<And>i. i < n \<Longrightarrow> 0 < D i"
    and up: "\<And>i. sr_k st < i \<Longrightarrow> i < n \<Longrightarrow> of_int (w i) = sr_z st i"
    and here: "of_int (w (sr_k st)) = sr_z st (sr_k st) \<or> \<not> passed (sr_z st (sr_k st)) (sr_step st (sr_k st)) (w (sr_k st))"
  shows "newdist D st \<le> vdist n L D zs w"
proof -
  let ?k = "sr_k st" and ?w = "\<lambda>i. of_int (w i) :: double"
  have L: "level n L D zs st ?k" and k: "?k < n" and y: "sr_y st = sr_zb st ?k - sr_z st ?k"
    using P by (auto simp: path_def)
  have c: "cen n L zs ?w ?k = sr_zb st ?k"
    using L cen_cong [of ?k n ?w "sr_z st" L zs] up by (simp add: level_def)
  have d: "dst n L D zs ?w (Suc ?k) = sr_dist st ?k"
    using L dst_cong [of "Suc ?k" n ?w "sr_z st" L D zs] up by (simp add: level_def)
  have "sr_y st * sr_y st \<le> (?w ?k - sr_zb st ?k) * (?w ?k - sr_zb st ?k)"
    unfolding y by (rule zigzag_far [OF _ here]) (use L in \<open>unfold level_def, blast\<close>)
  then have "newdist D st \<le> dst n L D zs ?w ?k"
    using D [OF k] by (simp add: dst_Suc [OF k] c d divide_right_mono)
  also have "\<dots> \<le> vdist n L D zs w" by (rule dst_mono) (use D k in auto)
  finally show ?thesis .
qed

lemma remain_cut:
  assumes "path n L D zs st" and "\<And>i. i < n \<Longrightarrow> 0 < D i" and "remain n st w"
  shows "later n st (Suc (sr_k st)) w \<or> newdist D st \<le> vdist n L D zs w"
proof -
  from assms(3) consider (a) "\<forall>i. sr_k st \<le> i \<and> i < n \<longrightarrow> of_int (w i) = sr_z st i"
    | (l) j where "sr_k st \<le> j" "j < n" "\<forall>i. j < i \<and> i < n \<longrightarrow> of_int (w i) = sr_z st i"
        "\<not> passed (sr_z st j) (sr_step st j) (w j)"
    unfolding remain_def later_def by blast
  then show ?thesis
  proof cases
    case a
    have "sr_k st < n" using assms(1) by (simp add: path_def)
    then show ?thesis using a by (intro disjI2 prune [OF assms(1,2)] disjI1) simp_all
  next
    case l
    show ?thesis
    proof (cases "j = sr_k st")
      case True
      then show ?thesis using l by (intro disjI2 prune [OF assms(1,2)]) simp_all
    next
      case False
      then show ?thesis using l by (intro disjI1 laterI [of _ j]) simp_all
    qed
  qed
qed

lemma later_Suc: "later n st (Suc k) w \<Longrightarrow> later n st k w"
  unfolding later_def by (meson Suc_leD)

lemma later_top: "\<not> later n st n w"
  by (auto simp: later_def)

lemma later_0: "(\<And>i. i < n \<Longrightarrow> of_int (w i) = sr_z st i) \<Longrightarrow> path n L D zs st \<Longrightarrow> sr_k st = 0 \<Longrightarrow> \<not> later n st 0 w"
  by (auto simp: later_def path_def level_def passed_self)

section \<open>The vectors kept\<close>

definition kept :: "nat \<Rightarrow> srch \<Rightarrow> (nat \<Rightarrow> int) \<Rightarrow> bool" where
  "kept n st w \<longleftrightarrow> (\<exists>c< sr_nn st. \<forall>i<n. sr_zn st i c = of_int (w i))"

text \<open>\<open>R\<close> is the set of the vectors still to come.\<close>

definition columns :: "nat \<Rightarrow> mat \<Rightarrow> vec \<Rightarrow> vec \<Rightarrow> srch \<Rightarrow> ((nat \<Rightarrow> int) \<Rightarrow> bool) \<Rightarrow> bool" where
  "columns n L D zs st R \<longleftrightarrow>
    (\<forall>c< sr_nn st. sr_s st c < 10 ^ 99 \<and>
      (\<exists>w. (\<forall>i<n. sr_zn st i c = of_int (w i)) \<and> sr_s st c = vdist n L D zs w \<and> \<not> R w)) \<and>
    (\<forall>c< sr_nn st. \<forall>d< sr_nn st. c \<noteq> d \<longrightarrow> (\<exists>i<n. sr_zn st i c \<noteq> sr_zn st i d))"

definition worst :: "nat \<Rightarrow> srch \<Rightarrow> bool" where
  "worst m st \<longleftrightarrow> sr_nn st \<le> m \<and> (0 < sr_nn st \<longrightarrow> sr_imax st < sr_nn st \<and> (\<forall>c< sr_nn st. sr_s st c \<le> sr_s st (sr_imax st))) \<and>
    (sr_maxdist st = 10 ^ 99 \<or> sr_nn st = m \<and> sr_maxdist st = sr_s st (sr_imax st))"

definition cover :: "nat \<Rightarrow> nat \<Rightarrow> mat \<Rightarrow> vec \<Rightarrow> vec \<Rightarrow> srch \<Rightarrow> ((nat \<Rightarrow> int) \<Rightarrow> bool) \<Rightarrow> bool" where
  "cover n m L D zs st R \<longleftrightarrow>
    (\<forall>w. R w \<or> kept n st w \<or> sr_nn st = m \<and> sr_s st (sr_imax st) \<le> vdist n L D zs w \<or> 10 ^ 99 \<le> vdist n L D zs w)"

definition search_inv :: "nat \<Rightarrow> nat \<Rightarrow> mat \<Rightarrow> vec \<Rightarrow> vec \<Rightarrow> srch \<Rightarrow> bool" where
  "search_inv n m L D zs st \<longleftrightarrow> path n L D zs st \<and> columns n L D zs st (remain n st) \<and> worst m st \<and>
    cover n m L D zs st (remain n st)"

text \<open>Moving on leaves what is kept as it is.\<close>

definition same_kept :: "srch \<Rightarrow> srch \<Rightarrow> bool" where
  "same_kept st st' \<longleftrightarrow> sr_nn st' = sr_nn st \<and> sr_zn st' = sr_zn st \<and> sr_s st' = sr_s st \<and> sr_imax st' = sr_imax st \<and>
    sr_maxdist st' = sr_maxdist st"

lemma columns_move:
  assumes "columns n L D zs st R" and "same_kept st st'" and "\<And>w. R' w \<Longrightarrow> R w"
  shows "columns n L D zs st' R'"
proof -
  have "\<exists>w. (\<forall>i<n. sr_zn st i c = of_int (w i)) \<and> sr_s st c = vdist n L D zs w \<and> \<not> R' w" if "c < sr_nn st" for c
    using assms(1,3) that unfolding columns_def by blast
  then show ?thesis using assms(1,2) by (simp add: columns_def same_kept_def)
qed

lemma worst_move: "worst m st \<Longrightarrow> same_kept st st' \<Longrightarrow> worst m st'"
  by (simp add: worst_def same_kept_def)

lemma cover_move:
  assumes "cover n m L D zs st R" and "same_kept st st'"
    and "\<And>w. R w \<Longrightarrow> R' w \<or> sr_maxdist st \<le> vdist n L D zs w" and "worst m st"
  shows "cover n m L D zs st' R'"
  unfolding cover_def
proof
  fix w
  have "R w \<or> kept n st w \<or> sr_nn st = m \<and> sr_s st (sr_imax st) \<le> vdist n L D zs w \<or> 10 ^ 99 \<le> vdist n L D zs w"
    using assms(1) by (simp add: cover_def)
  then show "R' w \<or> kept n st' w \<or> sr_nn st' = m \<and> sr_s st' (sr_imax st') \<le> vdist n L D zs w \<or> 10 ^ 99 \<le> vdist n L D zs w"
    using assms(2,4) assms(3) [of w] by (auto simp: same_kept_def kept_def worst_def)
qed

section \<open>Keeping a vector\<close>

lemma put_col_value: "put_col n z c zn r d = (if r < n \<and> d = c then z r else zn r d)"
  unfolding put_col_def by (induction n) (auto simp: less_Suc_eq)

lemma argmax_max:
  assumes "0 < m"
  shows "argmax m s < m" and "i < m \<Longrightarrow> s i \<le> s (argmax m s)"
proof -
  have "argmax (Suc m) s < Suc m \<and> (\<forall>i<Suc m. s i \<le> s (argmax (Suc m) s))" for m
  proof (induction m)
    case (Suc m)
    have "argmax (Suc (Suc m)) s =
        (if s (argmax (Suc m) s) < s (Suc m) then Suc m else argmax (Suc m) s)"
      by (simp add: argmax_def)
    then show ?case using Suc by (auto simp: less_Suc_eq intro: order_trans less_imp_le)
  qed (simp add: argmax_def)
  from this [of "m - 1"] assms show "argmax m s < m" "i < m \<Longrightarrow> s i \<le> s (argmax m s)" by auto
qed

text \<open>A kept vector is none of those still to come.\<close>

lemma kept_differs:
  assumes C: "columns n L D zs st (remain n st)" and "c < sr_nn st" and "sr_k st = 0"
  shows "\<exists>i<n. sr_zn st i c \<noteq> sr_z st i"
proof -
  obtain w where w: "\<forall>i<n. sr_zn st i c = of_int (w i)" "\<not> remain n st w"
    using C assms(2) unfolding columns_def by blast
  have "\<not> (\<forall>i<n. of_int (w i) = sr_z st i)" using w(2) assms(3) by (auto simp: remain_def)
  then show ?thesis using w(1) by auto
qed

lemma kept_dist:
  assumes C: "columns n L D zs st R" and "c < sr_nn st" and "\<forall>i<n. sr_zn st i c = of_int (w i)"
  shows "vdist n L D zs w = sr_s st c"
proof -
  obtain v where "\<forall>i<n. sr_zn st i c = of_int (v i)" "sr_s st c = vdist n L D zs v"
    using C assms(2) unfolding columns_def by blast
  moreover have "vdist n L D zs w = vdist n L D zs v"
    by (rule dst_cong) (use assms(3) calculation(1) in metis)
  ultimately show ?thesis by simp
qed

text \<open>Column \<open>c\<close> becomes the current vector.\<close>

lemma columns_put:
  assumes C: "columns n L D zs st (remain n st)" and P: "path n L D zs st" and k: "sr_k st = 0"
    and c: "c \<le> sr_nn st" and nd: "newdist D st < 10 ^ 99"
    and st': "sr_nn st' = (if c = sr_nn st then sr_nn st + 1 else sr_nn st)"
      "sr_zn st' = put_col n (sr_z st) c (sr_zn st)" "sr_s st' = (sr_s st)(c := newdist D st)"
  shows "columns n L D zs st' (later n st 0)"
proof -
  have "sr_z st i \<in> \<int>" if "i < n" for i using P k that by (auto simp: path_def level_def zigzag_def)
  then have "\<forall>i. \<exists>x. i < n \<longrightarrow> sr_z st i = of_int x" by (metis Ints_cases)
  then obtain w0 where w0: "\<And>i. i < n \<Longrightarrow> sr_z st i = of_int (w0 i)" by metis
  have d0: "newdist D st = vdist n L D zs w0"
    using newdist_dst [OF P] dst_cong [of 0 n "sr_z st" "\<lambda>i. of_int (w0 i)" L D zs] w0 by (simp add: k)
  have l0: "\<not> later n st 0 w0" by (rule later_0 [OF _ P k]) (simp add: w0)
  have old: "d < sr_nn st" if "d < sr_nn st'" "d \<noteq> c" for d using that c st'(1) by (auto split: if_splits)
  have "sr_s st' d < 10 ^ 99 \<and> (\<exists>w. (\<forall>i<n. sr_zn st' i d = of_int (w i)) \<and> sr_s st' d = vdist n L D zs w \<and> \<not> later n st 0 w)"
    if d: "d < sr_nn st'" for d
  proof (cases "d = c")
    case True
    then show ?thesis using nd d0 l0 w0 by (auto simp: st' put_col_value intro!: exI [of _ w0])
  next
    case False
    obtain w where w: "\<forall>i<n. sr_zn st i d = of_int (w i)" "sr_s st d = vdist n L D zs w" "\<not> remain n st w"
      using C old [OF d False] unfolding columns_def by blast
    moreover have "sr_s st d < 10 ^ 99" using C old [OF d False] by (simp add: columns_def)
    moreover have "\<not> later n st 0 w" using w(3) k remain_later [of n st w] by auto
    ultimately show ?thesis using False by (auto simp: st' put_col_value)
  qed
  moreover have "\<exists>i<n. sr_zn st' i d \<noteq> sr_zn st' i e" if de: "d < sr_nn st'" "e < sr_nn st'" "d \<noteq> e" for d e
  proof -
    consider "d = c" "e \<noteq> c" | "e = c" "d \<noteq> c" | "d \<noteq> c" "e \<noteq> c" using de(3) by blast
    then show ?thesis
    proof cases
      case 1
      obtain i where "i < n" "sr_zn st i e \<noteq> sr_z st i" using kept_differs [OF C old [OF de(2) 1(2)] k] by blast
      then show ?thesis using 1 by (intro exI [of _ i]) (simp add: st'(2) put_col_value)
    next
      case 2
      obtain i where "i < n" "sr_zn st i d \<noteq> sr_z st i" using kept_differs [OF C old [OF de(1) 2(2)] k] by blast
      then show ?thesis using 2 by (intro exI [of _ i]) (simp add: st'(2) put_col_value)
    next
      case 3
      then have "\<exists>i<n. sr_zn st i d \<noteq> sr_zn st i e"
        using C old [OF de(1) 3(1)] old [OF de(2) 3(2)] de(3) unfolding columns_def by blast
      then obtain i where "i < n" "sr_zn st i d \<noteq> sr_zn st i e" by blast
      then show ?thesis using 3 by (intro exI [of _ i]) (simp add: st'(2) put_col_value)
    qed
  qed
  ultimately show ?thesis unfolding columns_def by (intro conjI allI impI) simp_all
qed

text \<open>One complete vector: the state after \<^verbatim>\<open>store\<close>, with \<open>z\<close> itself no longer to come.\<close>

lemma cover_put:
  assumes "cover n m L D zs st (remain n st)" and "path n L D zs st" and "sr_k st = 0"
  shows "later n st 0 w \<or> (\<forall>i<n. of_int (w i) = sr_z st i) \<or> kept n st w \<or>
    sr_nn st = m \<and> sr_s st (sr_imax st) \<le> vdist n L D zs w \<or> 10 ^ 99 \<le> vdist n L D zs w"
  using assms(1,3) unfolding cover_def remain_def by fastforce

lemma now_dist:
  assumes "path n L D zs st" and "sr_k st = 0" and "\<forall>i<n. of_int (w i) = sr_z st i"
  shows "vdist n L D zs w = newdist D st"
  using newdist_dst [OF assms(1)] dst_cong [of 0 n "sr_z st" "\<lambda>i. of_int (w i)" L D zs] assms(2,3) by simp

definition stored :: "nat \<Rightarrow> nat \<Rightarrow> mat \<Rightarrow> vec \<Rightarrow> vec \<Rightarrow> srch \<Rightarrow> srch \<Rightarrow> bool" where
  "stored n m L D zs st st' \<longleftrightarrow> columns n L D zs st' (later n st 0) \<and> worst m st' \<and> cover n m L D zs st' (later n st 0)"

lemma store_room:
  assumes I: "search_inv n m L D zs st" and k: "sr_k st = 0" and "newdist D st < sr_maxdist st" and "sr_nn st < m"
  shows "stored n m L D zs st (store n m (newdist D st) st)"
proof -
  let ?st = "store n m (newdist D st) st"
  have P: "path n L D zs st" and C: "columns n L D zs st (remain n st)" and W: "worst m st"
    and V: "cover n m L D zs st (remain n st)"
    using I by (auto simp: search_inv_def)
  have st: "sr_nn ?st = sr_nn st + 1" "sr_zn ?st = put_col n (sr_z st) (sr_nn st) (sr_zn st)"
    "sr_s ?st = (sr_s st)(sr_nn st := newdist D st)" "sr_maxdist ?st = sr_maxdist st"
    "sr_imax ?st = (if sr_nn st = 0 \<or> newdist D st > sr_s st (sr_imax st) then sr_nn st else sr_imax st)"
    using assms(4) by (simp_all add: store_def)
  have M: "sr_maxdist st = 10 ^ 99" using W assms(4) by (auto simp: worst_def)
  have "columns n L D zs ?st (later n st 0)"
    by (rule columns_put [OF C P k order_refl]) (use assms(3) M st in simp_all)
  moreover have "worst m ?st"
    using W assms(4) M unfolding worst_def st by (auto simp: less_Suc_eq intro: order_trans less_imp_le)
  moreover have "cover n m L D zs ?st (later n st 0)"
    unfolding cover_def
  proof
    fix w
    have new: "kept n ?st w" if "\<forall>i<n. of_int (w i) = sr_z st i"
      unfolding kept_def st using that by (intro exI [of _ "sr_nn st"]) (simp add: put_col_value)
    have old: "kept n ?st w" if kw: "kept n st w"
    proof -
      obtain c where "c < sr_nn st" "\<forall>i<n. sr_zn st i c = of_int (w i)" using kw by (auto simp: kept_def)
      then show ?thesis unfolding kept_def st by (intro exI [of _ c]) (simp add: put_col_value)
    qed
    show "later n st 0 w \<or> kept n ?st w \<or> sr_nn ?st = m \<and> sr_s ?st (sr_imax ?st) \<le> vdist n L D zs w \<or>
        10 ^ 99 \<le> vdist n L D zs w"
      using cover_put [OF V P k, of w] new old assms(4) by blast
  qed
  ultimately show ?thesis by (simp add: stored_def)
qed

lemma store_full:
  assumes I: "search_inv n m L D zs st" and k: "sr_k st = 0" and "newdist D st < sr_maxdist st" and "sr_nn st = m"
    and "0 < m"
  shows "stored n m L D zs st (store n m (newdist D st) st)"
proof (cases "newdist D st < sr_s st (sr_imax st)")
  case True
  let ?st = "store n m (newdist D st) st"
  have P: "path n L D zs st" and C: "columns n L D zs st (remain n st)" and W: "worst m st"
    and V: "cover n m L D zs st (remain n st)"
    using I by (auto simp: search_inv_def)
  have imax: "sr_imax st < m" and le: "sr_s st c \<le> sr_s st (sr_imax st)" if "c < m" for c
    using W assms(4,5) that by (auto simp: worst_def)
  have st: "sr_nn ?st = m" "sr_zn ?st = put_col n (sr_z st) (sr_imax st) (sr_zn st)"
    "sr_s ?st = (sr_s st)(sr_imax st := newdist D st)" "sr_imax ?st = argmax m (sr_s ?st)"
    "sr_maxdist ?st = sr_s ?st (sr_imax ?st)"
    using True assms(4) by (simp_all add: store_def Let_def)
  have i: "sr_imax st < m" using imax assms(5) by blast
  have big: "sr_s st (sr_imax st) < 10 ^ 99" using C i assms(4) by (auto simp: columns_def)
  note am = argmax_max [OF assms(5), where s = "sr_s ?st", folded st(4)]
  have less: "sr_s ?st (sr_imax ?st) \<le> sr_s st (sr_imax st)"
    using le [OF am(1)] True by (simp add: st(3))
  have "columns n L D zs ?st (later n st 0)"
    by (rule columns_put [OF C P k, of "sr_imax st"]) (use i True big st assms(4) in simp_all)
  moreover have "worst m ?st" using am assms(5) st(1,5) by (simp add: worst_def)
  moreover have "cover n m L D zs ?st (later n st 0)"
    unfolding cover_def
  proof
    fix w
    have new: "kept n ?st w" if "\<forall>i<n. of_int (w i) = sr_z st i"
      unfolding kept_def st(1,2) using that i by (intro exI [of _ "sr_imax st"]) (simp add: put_col_value)
    have old: "kept n ?st w \<or> sr_s st (sr_imax st) \<le> vdist n L D zs w" if kw: "kept n st w"
    proof -
      obtain c where c: "c < sr_nn st" "\<forall>i<n. sr_zn st i c = of_int (w i)" using kw by (auto simp: kept_def)
      show ?thesis
      proof (cases "c = sr_imax st")
        case True
        then show ?thesis using kept_dist [OF C c] by simp
      next
        case False
        then have "kept n ?st w" unfolding kept_def st(1,2) using c assms(4)
          by (intro exI [of _ c]) (simp add: put_col_value)
        then show ?thesis ..
      qed
    qed
    have "later n st 0 w \<or> kept n ?st w \<or> sr_s st (sr_imax st) \<le> vdist n L D zs w \<or> 10 ^ 99 \<le> vdist n L D zs w"
      using cover_put [OF V P k, of w] new old by blast
    then show "later n st 0 w \<or> kept n ?st w \<or> sr_nn ?st = m \<and> sr_s ?st (sr_imax ?st) \<le> vdist n L D zs w \<or>
        10 ^ 99 \<le> vdist n L D zs w"
      using less st(1) by linarith
  qed
  ultimately show ?thesis by (simp add: stored_def)
next
  case False
  let ?st = "store n m (newdist D st) st"
  have P: "path n L D zs st" and C: "columns n L D zs st (remain n st)" and W: "worst m st"
    and V: "cover n m L D zs st (remain n st)"
    using I by (auto simp: search_inv_def)
  have st: "sr_nn ?st = sr_nn st" "sr_zn ?st = sr_zn st" "sr_s ?st = sr_s st" "sr_imax ?st = sr_imax st"
    "sr_maxdist ?st = sr_s st (sr_imax st)"
    using False assms(4) by (simp_all add: store_def Let_def)
  have "\<exists>w. (\<forall>i<n. sr_zn st i c = of_int (w i)) \<and> sr_s st c = vdist n L D zs w \<and> \<not> later n st 0 w"
    if cn: "c < sr_nn st" for c
  proof -
    obtain w where "\<forall>i<n. sr_zn st i c = of_int (w i)" "sr_s st c = vdist n L D zs w" "\<not> remain n st w"
      using C cn unfolding columns_def by blast
    then show ?thesis using remain_later [of n st w] k by auto
  qed
  then have "columns n L D zs ?st (later n st 0)" using C unfolding columns_def st by blast
  moreover have "worst m ?st" using W assms(4) unfolding worst_def st by simp
  moreover have "cover n m L D zs ?st (later n st 0)"
    unfolding cover_def
  proof
    fix w
    have "sr_s st (sr_imax st) \<le> vdist n L D zs w" if "\<forall>i<n. of_int (w i) = sr_z st i"
      using now_dist [OF P k that] False by simp
    moreover have "kept n ?st w = kept n st w" by (simp add: kept_def st)
    ultimately show "later n st 0 w \<or> kept n ?st w \<or> sr_nn ?st = m \<and> sr_s ?st (sr_imax ?st) \<le> vdist n L D zs w \<or>
        10 ^ 99 \<le> vdist n L D zs w"
      using cover_put [OF V P k, of w] st assms(4) by auto
  qed
  ultimately show ?thesis by (simp add: stored_def)
qed

section \<open>The loop\<close>

lemma later_same: "sr_z st' = sr_z st \<Longrightarrow> sr_step st' = sr_step st \<Longrightarrow> later n st' k w = later n st k w"
  by (simp add: later_def)

lemma level_same:
  "sr_z st' = sr_z st \<Longrightarrow> sr_step st' = sr_step st \<Longrightarrow> sr_zb st' = sr_zb st \<Longrightarrow> sr_dist st' = sr_dist st \<Longrightarrow>
    sr_S st' = sr_S st \<Longrightarrow> level n L D zs st' j = level n L D zs st j"
  by (simp add: level_def)

lemma store_same:
  "sr_z (store n m d st) = sr_z st" "sr_step (store n m d st) = sr_step st" "sr_zb (store n m d st) = sr_zb st"
  "sr_dist (store n m d st) = sr_dist st" "sr_S (store n m d st) = sr_S st" "sr_k (store n m d st) = sr_k st"
  by (simp_all add: store_def Let_def)

lemma next_z_same: "same_kept st (next_z k st)"
  by (simp add: same_kept_def next_z_def Let_def)

lemma down_same: "same_kept st (down n L zs d st)"
  by (simp add: same_kept_def down_def enter_def Let_def)

lemma inv_move:
  assumes "columns n L D zs st R" and "worst m st" and "cover n m L D zs st R" and "same_kept st st'"
    and "path n L D zs st'" and "\<And>w. remain n st' w \<Longrightarrow> R w"
    and "\<And>w. R w \<Longrightarrow> remain n st' w \<or> sr_maxdist st \<le> vdist n L D zs w"
  shows "search_inv n m L D zs st'"
proof -
  have "columns n L D zs st' (remain n st')" by (rule columns_move [OF assms(1,4)]) (rule assms(6))
  moreover have "cover n m L D zs st' (remain n st')"
    by (rule cover_move [OF assms(3,4) _ assms(2)]) (rule assms(7))
  ultimately show ?thesis unfolding search_inv_def using assms(5) worst_move [OF assms(2,4)] by simp
qed

lemma step_down:
  assumes I: "search_inv n m L D zs st" and k: "sr_k st \<noteq> 0"
  shows "search_inv n m L D zs (down n L zs (newdist D st) st)"
proof -
  have P: "path n L D zs st" and C: "columns n L D zs st (remain n st)" and W: "worst m st"
    and V: "cover n m L D zs st (remain n st)"
    using I by (auto simp: search_inv_def)
  note d = down_path [OF P k refl]
  show ?thesis by (rule inv_move [OF C W V down_same d(1)]) (simp_all only: d(2), simp)
qed

lemma step_store:
  assumes I: "search_inv n m L D zs st" and k: "sr_k st = 0" and "newdist D st < sr_maxdist st" and "0 < m"
  shows "search_inv n m L D zs (next_z 0 (store n m (newdist D st) st))"
proof -
  let ?st = "store n m (newdist D st) st"
  have P: "path n L D zs st" and "sr_nn st \<le> m" using I by (auto simp: search_inv_def worst_def)
  then have "stored n m L D zs st ?st"
    using store_room [OF I k assms(3)] store_full [OF I k assms(3) _ assms(4)] by (cases "sr_nn st = m") simp_all
  moreover have "later n ?st 0 = later n st 0" by (rule ext, rule later_same) (simp_all add: store_same)
  ultimately have C: "columns n L D zs ?st (later n ?st 0)" and W: "worst m ?st" and V: "cover n m L D zs ?st (later n ?st 0)"
    by (simp_all add: stored_def)
  have lev: "level n L D zs ?st j" if "0 \<le> j" "j < n" for j
    by (subst level_same [where st = st]) (use P that k in \<open>simp_all add: path_def store_same\<close>)
  have "0 < n" using P by (auto simp: path_def)
  have "path n L D zs (next_z 0 ?st)" and r: "remain n (next_z 0 ?st) w = later n ?st 0 w" for w
    using next_path [where k = 0 and st = ?st, OF lev \<open>0 < n\<close>] k by (simp_all add: store_same)
  then show ?thesis by (intro inv_move [OF C W V next_z_same]) simp_all
qed

lemma step_up:
  assumes I: "search_inv n m L D zs st" and k: "sr_k st \<noteq> n - 1" and "\<not> newdist D st < sr_maxdist st"
    and D: "\<And>i. i < n \<Longrightarrow> 0 < D i"
  shows "search_inv n m L D zs (next_z (sr_k st + 1) (st\<lparr>sr_k := sr_k st + 1\<rparr>))"
proof -
  let ?st = "st\<lparr>sr_k := sr_k st + 1\<rparr>"
  have P: "path n L D zs st" and C: "columns n L D zs st (remain n st)" and W: "worst m st"
    and V: "cover n m L D zs st (remain n st)"
    using I by (auto simp: search_inv_def)
  have lev: "level n L D zs ?st j" if "sr_k st + 1 \<le> j" "j < n" for j
    by (subst level_same [where st = st]) (use P that in \<open>simp_all add: path_def\<close>)
  have kn: "sr_k st + 1 < n" using P k by (auto simp: path_def)
  have l: "later n ?st (sr_k st + 1) w = later n st (Suc (sr_k st)) w" for w by (simp add: later_def)
  have "path n L D zs (next_z (sr_k st + 1) ?st)"
    and r: "remain n (next_z (sr_k st + 1) ?st) w = later n st (Suc (sr_k st)) w" for w
    using next_path [where k = "sr_k st + 1" and st = ?st, OF lev kn] l by simp_all
  moreover have s: "same_kept st (next_z (sr_k st + 1) ?st)" by (simp add: same_kept_def next_z_def Let_def)
  moreover have "remain n st w" if "later n st (Suc (sr_k st)) w" for w
    by (rule remain_later, rule later_Suc, rule that)
  moreover have "later n st (Suc (sr_k st)) w \<or> sr_maxdist st \<le> vdist n L D zs w" if "remain n st w" for w
    using remain_cut [OF P D that] order_trans [OF assms(3) [unfolded not_less]] by fast
  ultimately show ?thesis by (intro inv_move [OF C W V s]) (simp_all only: r)
qed

lemma search_step_keeps:
  assumes I: "search_inv n m L D zs st" and D: "\<And>i. i < n \<Longrightarrow> 0 < D i" and "0 < m"
    and st': "search_step n m L D zs st = Some st'"
  shows "search_inv n m L D zs st'"
proof (cases "newdist D st < sr_maxdist st")
  case True
  show ?thesis
  proof (cases "sr_k st = 0")
    case k: True
    then have "st' = next_z 0 (store n m (newdist D st) st)" using True st' by (simp add: search_step_def Let_def)
    then show ?thesis using step_store [OF I k True assms(3)] by simp
  next
    case k: False
    have "st' = down n L zs (newdist D st) st"
      using st' unfolding search_step_def Let_def fold_S if_P [OF True] if_P [OF k] option.inject
      unfolding down_def Let_def by (rule sym)
    then show ?thesis using step_down [OF I k] by simp
  qed
next
  case False
  then have "sr_k st \<noteq> n - 1" "st' = next_z (sr_k st + 1) (st\<lparr>sr_k := sr_k st + 1\<rparr>)"
    using st' by (auto simp: search_step_def Let_def split: if_splits)
  then show ?thesis using step_up [OF I _ False D] by simp
qed

text \<open>When the loop ends no vector is to come.\<close>

lemma search_step_ends:
  assumes I: "search_inv n m L D zs st" and D: "\<And>i. i < n \<Longrightarrow> 0 < D i" and "search_step n m L D zs st = None"
  shows "cover n m L D zs st (\<lambda>w. False)"
proof -
  have e: "\<not> newdist D st < sr_maxdist st" and k: "sr_k st = n - 1"
    using assms(3) by (auto simp: search_step_def Let_def split: if_splits)
  have P: "path n L D zs st" and W: "worst m st" and V: "cover n m L D zs st (remain n st)"
    using I by (auto simp: search_inv_def)
  have "sr_maxdist st \<le> vdist n L D zs w" if "remain n st w" for w
  proof -
    have "Suc (sr_k st) = n" using P k by (simp add: path_def)
    then show ?thesis using remain_cut [OF P D that] e later_top [of n st w] by auto
  qed
  then show ?thesis using cover_move [OF V _ _ W, of st] by (simp add: same_kept_def)
qed

lemma search_loop_result:
  assumes "search_inv n m L D zs st" and "\<And>i. i < n \<Longrightarrow> 0 < D i" and "0 < m"
    and "search_loop c n m L D zs st = Some st'"
  shows "search_inv n m L D zs st' \<and> cover n m L D zs st' (\<lambda>w. False)"
  using assms
proof (induction c n m L D zs st rule: search_loop.induct)
  case (2 c n m L D zs st)
  show ?case
  proof (cases "search_step n m L D zs st")
    case None
    then show ?thesis using 2(5) search_step_ends [OF 2(2,3) None] 2(2) by simp
  next
    case (Some st1)
    then show ?thesis using 2(1) [OF Some search_step_keeps [OF 2(2,3,4) Some] 2(3,4)] 2(5) by simp
  qed
qed simp

lemma search_init_inv:
  assumes "0 < n"
  shows "search_inv n m L D zs (search_init n zs zn s)"
proof -
  let ?st = "search_init n zs zn s"
  have st: "sr_k ?st = n - 1" "sr_zb ?st (n - 1) = zs (n - 1)" "sr_z ?st (n - 1) = RND (zs (n - 1))"
    "sr_step ?st (n - 1) = SGN (zs (n - 1) - RND (zs (n - 1)))" "sr_y ?st = zs (n - 1) - RND (zs (n - 1))"
    "sr_dist ?st i = 0" "sr_S ?st i j = 0" "sr_nn ?st = 0" "sr_maxdist ?st = 10 ^ 99" for i j
    by (simp_all add: search_init_def enter_def Let_def zeros_def)
  have c: "cen n L zs w (n - 1) = zs (n - 1)" for w by (subst cen_sum) (simp add: assms)
  have "level n L D zs ?st (n - 1)"
    unfolding level_def st c using zigzag_enter [of "zs (n - 1)"] assms by (simp add: dst_def)
  then have "path n L D zs ?st" unfolding path_def using assms st
    by (metis One_nat_def Suc_leI Suc_pred le_antisym less_Suc_eq_le diff_less zero_less_one)
  moreover have "remain n ?st w" for w
  proof (cases "of_int (w (n - 1)) = RND (zs (n - 1))")
    case True
    show ?thesis
    proof (rule remain_now)
      fix i assume "sr_k ?st \<le> i" "i < n"
      then have "i = n - 1" by (simp add: st(1))
      show "of_int (w i) = sr_z ?st i" unfolding \<open>i = n - 1\<close> st(3) by (rule True)
    qed
  next
    case False
    then have "\<not> passed (sr_z ?st (n - 1)) (sr_step ?st (n - 1)) (w (n - 1))" unfolding st passed_enter by simp
    then show ?thesis using assms by (intro remain_later laterI [of _ "n - 1"]) (auto simp: st)
  qed
  ultimately show ?thesis
    by (simp add: search_inv_def columns_def worst_def cover_def st)
qed

section \<open>The sort\<close>

lemma swap_zn_value:
  "i \<noteq> j \<Longrightarrow> fold (\<lambda>k zn. put (put zn k i (zn k j)) k j (zn k i)) [0..<n] zn = (\<lambda>r c. if r < n then zn r (exch i j c) else zn r c)"
  by (induction n) (auto simp: exch_def less_Suc_eq fun_eq_iff)

text \<open>The columns are permuted together with their distances, those before \<open>lo\<close> stay.\<close>

definition resorted :: "nat \<Rightarrow> nat \<Rightarrow> nat \<Rightarrow> mat \<times> vec \<Rightarrow> mat \<times> vec \<Rightarrow> bool" where
  "resorted lo n m p q \<longleftrightarrow>
    (\<exists>f. inj_on f {..<m} \<and> (\<forall>c<m. f c < m \<and> (c < lo \<longrightarrow> f c = c) \<and> (lo \<le> c \<longrightarrow> lo \<le> f c)) \<and>
      (\<forall>c<m. snd q c = snd p (f c) \<and> (\<forall>i<n. fst q i c = fst p i (f c))))"

lemma resorted_refl: "resorted lo n m p p"
  unfolding resorted_def by (intro exI [of _ "\<lambda>c. c"]) auto

lemma resorted_trans:
  assumes "resorted lo n m p q" and "resorted lo n m q r"
  shows "resorted lo n m p r"
proof -
  obtain f where f: "inj_on f {..<m}" "\<forall>c<m. f c < m \<and> (c < lo \<longrightarrow> f c = c) \<and> (lo \<le> c \<longrightarrow> lo \<le> f c)"
      "\<forall>c<m. snd q c = snd p (f c) \<and> (\<forall>i<n. fst q i c = fst p i (f c))"
    using assms(1) unfolding resorted_def by blast
  obtain g where g: "inj_on g {..<m}" "\<forall>c<m. g c < m \<and> (c < lo \<longrightarrow> g c = c) \<and> (lo \<le> c \<longrightarrow> lo \<le> g c)"
      "\<forall>c<m. snd r c = snd q (g c) \<and> (\<forall>i<n. fst r i c = fst q i (g c))"
    using assms(2) unfolding resorted_def by blast
  note F = f(2) [rule_format] and G = g(2) [rule_format]
  have "inj_on (\<lambda>c. f (g c)) {..<m}"
  proof (rule inj_onI)
    fix c d assume cd: "c \<in> {..<m}" "d \<in> {..<m}" "f (g c) = f (g d)"
    then have "g c = g d" using inj_onD [OF f(1)] G by simp
    then show "c = d" using inj_onD [OF g(1)] cd by simp
  qed
  moreover have "f (g c) < m \<and> (c < lo \<longrightarrow> f (g c) = c) \<and> (lo \<le> c \<longrightarrow> lo \<le> f (g c))" if "c < m" for c
    using G [OF that] F [of "g c"] F [of c] that by (cases "c < lo") simp_all
  moreover have "snd r c = snd p (f (g c)) \<and> (\<forall>i<n. fst r i c = fst p i (f (g c)))" if "c < m" for c
    using g(3) [rule_format, OF that] f(3) [rule_format, of "g c"] G [OF that] by simp
  ultimately show ?thesis unfolding resorted_def by (intro exI [of _ "\<lambda>c. f (g c)"]) simp
qed

lemma resorted_less:
  assumes "resorted lo n m p q" and "lo' \<le> lo"
  shows "resorted lo' n m p q"
proof -
  obtain f where f: "inj_on f {..<m}" "\<forall>c<m. f c < m \<and> (c < lo \<longrightarrow> f c = c) \<and> (lo \<le> c \<longrightarrow> lo \<le> f c)"
      "\<forall>c<m. snd q c = snd p (f c) \<and> (\<forall>i<n. fst q i c = fst p i (f c))"
    using assms(1) unfolding resorted_def by blast
  have "f c < m \<and> (c < lo' \<longrightarrow> f c = c) \<and> (lo' \<le> c \<longrightarrow> lo' \<le> f c)" if "c < m" for c
    using f(2) [rule_format, OF that] assms(2) by (cases "c < lo") auto
  then show ?thesis unfolding resorted_def using f(1,3) by blast
qed

lemma swap_at_resorted:
  assumes "lo \<le> i" and "lo \<le> j" and "i < m" and "j < m" and "i \<noteq> j"
  shows "resorted lo n m p (swap_at n i j p)"
  unfolding resorted_def
  by (rule exI [of _ "exch i j"]) (use assms in \<open>auto simp: swap_at_def inj_on_def swap_zn_value split: prod.split simp: exch_def\<close>)

lemma inner_sort:
  assumes "i < m" and "j \<le> m"
  shows "let q = fold (\<lambda>j p. if snd p i < snd p j then p else swap_at n i j p) [i + 1..<j] p in
    resorted i n m p q \<and> (\<forall>k. i < k \<and> k < j \<longrightarrow> snd q i \<le> snd q k)"
  using assms(2)
proof (induction j)
  case (Suc j)
  show ?case
  proof (cases "i < j")
    case True
    define q where "q = fold (\<lambda>j p. if snd p i < snd p j then p else swap_at n i j p) [i + 1..<j] p"
    have q: "resorted i n m p q" "\<And>k. i < k \<Longrightarrow> k < j \<Longrightarrow> snd q i \<le> snd q k"
      using Suc by (auto simp: q_def Let_def)
    have f: "fold (\<lambda>j p. if snd p i < snd p j then p else swap_at n i j p) [i + 1..<Suc j] p =
        (if snd q i < snd q j then q else swap_at n i j q)"
      using True by (simp add: q_def)
    have sv: "snd (swap_at n i j q) c = snd q (exch i j c)" for c by (cases q) (auto simp: swap_at_def exch_def)
    show ?thesis
    proof (cases "snd q i < snd q j")
      case le: True
      then show ?thesis unfolding f Let_def using q by (auto simp: less_Suc_eq)
    next
      case False
      have "resorted i n m p (swap_at n i j q)"
        by (rule resorted_trans [OF q(1) swap_at_resorted]) (use True assms(1) Suc(2) in auto)
      moreover have "snd (swap_at n i j q) i \<le> snd (swap_at n i j q) k" if "i < k" "k < Suc j" for k
        unfolding sv using False q(2) [of k] that by (auto simp: exch_def)
      ultimately show ?thesis unfolding f Let_def using False by simp
    qed
  qed (simp add: resorted_refl)
qed (simp add: resorted_refl)

lemma outer_sort:
  assumes "i \<le> m - 1"
  shows "let q = fold (\<lambda>i p. fold (\<lambda>j p. if snd p i < snd p j then p else swap_at n i j p) [i + 1..<m] p) [0..<i] p in
    resorted 0 n m p q \<and> (\<forall>a<i. \<forall>b<m. a < b \<longrightarrow> snd q a \<le> snd q b)"
  using assms
proof (induction i)
  case (Suc i)
  define q where "q = fold (\<lambda>i p. fold (\<lambda>j p. if snd p i < snd p j then p else swap_at n i j p) [i + 1..<m] p) [0..<i] p"
  define r where "r = fold (\<lambda>j p. if snd p i < snd p j then p else swap_at n i j p) [i + 1..<m] q"
  have q: "resorted 0 n m p q" "\<And>a b. a < i \<Longrightarrow> b < m \<Longrightarrow> a < b \<Longrightarrow> snd q a \<le> snd q b"
    using Suc by (auto simp: q_def Let_def)
  have r: "resorted i n m q r" "\<And>k. i < k \<Longrightarrow> k < m \<Longrightarrow> snd r i \<le> snd r k"
    using inner_sort [of i m m n q] Suc(2) by (auto simp: r_def Let_def)
  obtain f where f: "\<forall>c<m. f c < m \<and> (c < i \<longrightarrow> f c = c) \<and> (i \<le> c \<longrightarrow> i \<le> f c)" "\<forall>c<m. snd r c = snd q (f c)"
    using r(1) unfolding resorted_def by blast
  have "snd r a \<le> snd r b" if ab: "a < Suc i" "b < m" "a < b" for a b
  proof (cases "a = i")
    case True
    then show ?thesis using r(2) ab by simp
  next
    case False
    then have "a < i" "snd r a = snd q a" using f ab by auto
    moreover have "a < f b" using f(1) [rule_format, OF ab(2)] ab \<open>a < i\<close> by (cases "b < i") auto
    ultimately show ?thesis using q(2) [of a "f b"] f ab by auto
  qed
  moreover have "resorted 0 n m p r" by (rule resorted_trans [OF q(1) resorted_less [OF r(1)]]) simp
  ultimately show ?case by (simp add: q_def r_def Let_def)
qed (simp add: resorted_refl)

lemma sort_s_sorts:
  shows "resorted 0 n m p (sort_s n m p)" and "a < b \<Longrightarrow> b < m \<Longrightarrow> snd (sort_s n m p) a \<le> snd (sort_s n m p) b"
  using outer_sort [of "m - 1" m n p] by (auto simp: sort_s_def Let_def)

section \<open>The result\<close>

text \<open>
  \<open>m\<close> columns of different integer vectors with their distances, in ascending order, and no other
  vector is nearer than the last one.
\<close>

definition best :: "nat \<Rightarrow> nat \<Rightarrow> ((nat \<Rightarrow> int) \<Rightarrow> double) \<Rightarrow> mat \<Rightarrow> vec \<Rightarrow> bool" where
  "best n m q F s \<longleftrightarrow>
    (\<exists>W. (\<forall>c<m. (\<forall>i<n. F i c = of_int (W c i)) \<and> s c = q (W c)) \<and>
      (\<forall>c<m. \<forall>d<m. c \<noteq> d \<longrightarrow> (\<exists>i<n. W c i \<noteq> W d i)) \<and>
      (\<forall>c<m. \<forall>d<m. c < d \<longrightarrow> s c \<le> s d) \<and>
      (\<forall>w. (\<exists>c<m. \<forall>i<n. w i = W c i) \<or> s (m - 1) \<le> q w))"

text \<open>There are \<open>m\<close> vectors nearer than the initial bound of the search.\<close>

definition enough :: "nat \<Rightarrow> nat \<Rightarrow> ((nat \<Rightarrow> int) \<Rightarrow> double) \<Rightarrow> bool" where
  "enough n m q \<longleftrightarrow>
    (\<exists>V. (\<forall>c<m. q (V c) < 10 ^ 99) \<and> (\<forall>c<m. \<forall>d<m. c \<noteq> d \<longrightarrow> (\<exists>i<n. V c i \<noteq> V d i)))"

text \<open>With enough vectors all columns have been filled.\<close>

lemma kept_all:
  assumes V: "cover n m L D zs st (\<lambda>w. False)" and W: "worst m st" and E: "enough n m (vdist n L D zs)"
  shows "sr_nn st = m"
proof (rule ccontr)
  assume "sr_nn st \<noteq> m"
  then have less: "sr_nn st < m" using W by (simp add: worst_def)
  obtain U where U: "\<forall>c<m. vdist n L D zs (U c) < 10 ^ 99" "\<forall>c<m. \<forall>d<m. c \<noteq> d \<longrightarrow> (\<exists>i<n. U c i \<noteq> U d i)"
    using E unfolding enough_def by blast
  have "\<exists>d. d < sr_nn st \<and> (\<forall>i<n. sr_zn st i d = of_int (U c i))" if "c < m" for c
  proof -
    have "kept n st (U c)" using V U(1) that less unfolding cover_def by (metis not_less less_irrefl)
    then show ?thesis by (simp add: kept_def)
  qed
  then obtain g where g: "\<And>c. c < m \<Longrightarrow> g c < sr_nn st \<and> (\<forall>i<n. sr_zn st i (g c) = of_int (U c i))" by metis
  have "inj_on g {..<m}"
  proof (rule inj_onI, rule ccontr)
    fix c d assume cd: "c \<in> {..<m}" "d \<in> {..<m}" "g c = g d" "c \<noteq> d"
    then obtain i where i: "i < n" "U c i \<noteq> U d i" using U(2) by blast
    have "real_of_int (U c i) = of_int (U d i)" using g [of c] g [of d] cd i(1) by (metis lessThan_iff)
    then show False using i(2) by simp
  qed
  then have "card {..<m} \<le> card {..<sr_nn st}" by (rule card_inj_on_le) (use g in auto)
  then show False using less by simp
qed

lemma search_result:
  assumes S: "search n m L D zs zn s = Some (F, s')" and D: "\<And>i. i < n \<Longrightarrow> 0 < D i" and n: "0 < n" and m: "0 < m"
    and E: "enough n m (vdist n L D zs)"
  shows "best n m (vdist n L D zs) F s'"
proof -
  obtain st where st: "search_loop LOOPMAX n m L D zs (search_init n zs zn s) = Some st"
    and q: "sort_s n m (sr_zn st, sr_s st) = (F, s')"
    using S by (auto simp: search_def)
  have I: "search_inv n m L D zs st" and V: "cover n m L D zs st (\<lambda>w. False)"
    using search_loop_result [OF search_init_inv [OF n] D m st] by auto
  have C: "columns n L D zs st (remain n st)" and W: "worst m st" using I by (auto simp: search_inv_def)
  have nn: "sr_nn st = m" by (rule kept_all [OF V W E])
  have "\<forall>c. \<exists>w. c < m \<longrightarrow> (\<forall>i<n. sr_zn st i c = of_int (w i)) \<and> sr_s st c = vdist n L D zs w"
    using C unfolding columns_def nn by blast
  then obtain U where U: "\<And>c. c < m \<Longrightarrow> (\<forall>i<n. sr_zn st i c = of_int (U c i)) \<and> sr_s st c = vdist n L D zs (U c)"
    by metis
  obtain f where f: "inj_on f {..<m}" "\<And>c. c < m \<Longrightarrow> f c < m"
      "\<And>c. c < m \<Longrightarrow> s' c = sr_s st (f c) \<and> (\<forall>i<n. F i c = sr_zn st i (f c))"
    using sort_s_sorts(1) [of n m "(sr_zn st, sr_s st)"] unfolding q resorted_def by auto
  have "f ` {..<m} = {..<m}" by (rule endo_inj_surj [OF _ _ f(1)]) (use f(2) in auto)
  then have sur: "\<exists>d<m. f d = c" if "c < m" for c using that by (metis imageE lessThan_iff)
  have "(\<forall>i<n. F i c = of_int (U (f c) i)) \<and> s' c = vdist n L D zs (U (f c))" if "c < m" for c
    using f(3) [OF that] U [OF f(2) [OF that]] by simp
  moreover have "\<exists>i<n. U (f c) i \<noteq> U (f d) i" if cd: "c < m" "d < m" "c \<noteq> d" for c d
  proof -
    have "f c \<noteq> f d" using inj_onD [OF f(1)] cd by auto
    then have "\<exists>i<n. sr_zn st i (f c) \<noteq> sr_zn st i (f d)"
      using C f(2) [OF cd(1)] f(2) [OF cd(2)] unfolding columns_def nn by blast
    then show ?thesis using U [OF f(2) [OF cd(1)]] U [OF f(2) [OF cd(2)]] by auto
  qed
  moreover have "s' c \<le> s' d" if "c < m" "d < m" "c < d" for c d
    using sort_s_sorts(2) [of c d m n "(sr_zn st, sr_s st)"] that q by simp
  moreover have "(\<exists>c<m. \<forall>i<n. w i = U (f c) i) \<or> s' (m - 1) \<le> vdist n L D zs w" for w
  proof -
    have l: "f (m - 1) < m" "s' (m - 1) = sr_s st (f (m - 1))" using f(2,3) [of "m - 1"] m by auto
    have le: "s' (m - 1) \<le> sr_s st (sr_imax st)" using W l m nn by (simp add: worst_def)
    have big: "s' (m - 1) \<le> 10 ^ 99" using C l nn by (auto simp: columns_def less_imp_le)
    consider "kept n st w" | "sr_s st (sr_imax st) \<le> vdist n L D zs w" | "10 ^ 99 \<le> vdist n L D zs w"
      using V unfolding cover_def by blast
    then show ?thesis
    proof cases
      case 1
      then obtain c where c: "c < m" "\<forall>i<n. sr_zn st i c = of_int (w i)" by (auto simp: kept_def nn)
      obtain d where d: "d < m" "f d = c" using sur [OF c(1)] by blast
      have "w i = U (f d) i" if "i < n" for i
      proof -
        have "real_of_int (w i) = of_int (U c i)" using c U [OF c(1)] that by metis
        then show ?thesis using d by simp
      qed
      then show ?thesis using d(1) by blast
    qed (use le big in linarith)+
  qed
  ultimately show ?thesis unfolding best_def by (intro exI [of _ "\<lambda>c. U (f c)"] conjI) blast+
qed

end
