(* ===== verification/MatEst.thy ===== *)
theory MatEst
  imports MatLu
begin

text \<open>
  What the estimators compute: the solution of linear equations, the minimum of least squares, the
  optimum of the Kalman filter and its covariance.
\<close>

section \<open>Vectors and transposes\<close>

definition trm :: "mat \<Rightarrow> mat" where "trm A = (\<lambda>i j. A j i)"

definition inner :: "nat \<Rightarrow> vec \<Rightarrow> vec \<Rightarrow> double" where
  "inner n u v = (\<Sum>i<n. u i * v i)"

definition symmetric :: "nat \<Rightarrow> mat \<Rightarrow> bool" where
  "symmetric n Q \<longleftrightarrow> (\<forall>i<n. \<forall>j<n. Q i j = Q j i)"

lemma inner_transp: "inner m (\<lambda>j. mv n (trm A) u j) v = inner n u (\<lambda>i. mv m A v i)"
proof -
  have "inner m (\<lambda>j. mv n (trm A) u j) v = (\<Sum>j<m. \<Sum>i<n. A i j * u i * v j)"
    by (simp add: inner_def mv_def trm_def sum_distrib_right)
  also have "\<dots> = (\<Sum>i<n. \<Sum>j<m. A i j * u i * v j)" by (rule sum.swap)
  also have "\<dots> = inner n u (\<lambda>i. mv m A v i)"
    by (simp add: inner_def mv_def sum_distrib_left mult.assoc mult.left_commute)
  finally show ?thesis .
qed

lemma inner_comm: "inner n u v = inner n v u"
  by (simp add: inner_def mult.commute)

lemma inner_cong: "(\<And>i. i < n \<Longrightarrow> u i = u' i) \<Longrightarrow> (\<And>i. i < n \<Longrightarrow> v i = v' i) \<Longrightarrow> inner n u v = inner n u' v'"
  by (simp add: inner_def)

lemma inner_add: "inner n (\<lambda>i. u i + v i) w = inner n u w + inner n v w"
  "inner n w (\<lambda>i. u i + v i) = inner n w u + inner n w v"
  by (simp_all add: inner_def algebra_simps sum.distrib)

lemma inner_diff: "inner n (\<lambda>i. u i - v i) w = inner n u w - inner n v w"
  "inner n w (\<lambda>i. u i - v i) = inner n w u - inner n w v"
  by (simp_all add: inner_def algebra_simps sum_subtractf)

lemma mv_add: "mv n A (\<lambda>i. u i + v i) r = mv n A u r + mv n A v r"
  by (simp add: mv_def algebra_simps sum.distrib)

lemma mv_diff: "mv n A (\<lambda>i. u i - v i) r = mv n A u r - mv n A v r"
  by (simp add: mv_def algebra_simps sum_subtractf)

lemma mv_symmetric: "symmetric n Q \<Longrightarrow> r < n \<Longrightarrow> mv n (trm Q) x r = mv n Q x r"
  by (rule mv_cong) (simp_all add: trm_def symmetric_def)

lemma inner_sym: "symmetric n Q \<Longrightarrow> inner n (mv n Q u) v = inner n u (mv n Q v)"
  using inner_transp [of n n Q u v] mv_symmetric [of n Q _ u]
  by (simp add: inner_cong [of n "mv n (trm Q) u" "mv n Q u" v v])

lemma inner_self: "0 \<le> inner n u u"
  by (simp add: inner_def sum_nonneg)

lemma inner_self_0: "inner n u u = 0 \<Longrightarrow> i < n \<Longrightarrow> u i = 0"
  using sum_nonneg_eq_0_iff [of "{..<n}" "\<lambda>i. u i * u i"] by (simp add: inner_def)

section \<open>Products\<close>

lemma matmul_NN: "i < n \<Longrightarrow> j < k \<Longrightarrow>
    matmul ''NN'' n k m alpha A B beta C i j = alpha * mv m A (\<lambda>x. B x j) i + beta * C i j"
  by (simp add: matmul_value mv_def)

lemma matmul_TN: "i < n \<Longrightarrow> j < k \<Longrightarrow>
    matmul ''TN'' n k m alpha A B beta C i j = alpha * mv m (trm A) (\<lambda>x. B x j) i + beta * C i j"
  by (simp add: matmul_value mv_def trm_def)

lemma matmul_NT: "i < n \<Longrightarrow> j < k \<Longrightarrow>
    matmul ''NT'' n k m alpha A B beta C i j = alpha * mv m A (\<lambda>x. B j x) i + beta * C i j"
  by (simp add: matmul_value mv_def)

lemma matinv_some: "matinv A n = Some B \<Longrightarrow> is_inv n A B"
  using matinv_cases [where A = A and n = n] by simp

lemma mat_prod_transp: "mat_prod n (trm A) (trm B) i j = mat_prod n B A j i"
  by (simp add: mat_prod_def trm_def mult.commute)

lemma is_inv_transp: "is_inv n A B \<Longrightarrow> is_inv n (trm A) (trm B)"
  by (simp add: is_inv_def mat_prod_transp) (simp add: eye_def eq_commute)

text \<open>The solution.\<close>

lemma solve_value:
  assumes "solve t A Y n m X = Some X'" and "i < n" and "j < m"
  shows "mv n (if t ! 0 = CHR ''N'' then A else trm A) (\<lambda>k. X' k j) i = Y i j"
proof -
  obtain B where B: "matinv A n = Some B" and X: "X' = matmul (if t ! 0 = CHR ''N'' then ''NN'' else ''TN'') n m n 1 B Y 0 X"
    using assms(1) by (auto simp: solve_def split: option.splits)
  let ?A = "if t ! 0 = CHR ''N'' then A else trm A" and ?B = "if t ! 0 = CHR ''N'' then B else trm B"
  have I: "is_inv n ?A ?B" using matinv_some [OF B] is_inv_transp by simp
  have "X' k j = mv n ?B (\<lambda>x. Y x j) k" if "k < n" for k
    using that assms(3) by (simp add: X matmul_NN matmul_TN)
  then have "mv n ?A (\<lambda>k. X' k j) i = mv n ?A (mv n ?B (\<lambda>x. Y x j)) i" by (intro mv_cong) auto
  then show ?thesis using is_inv_mv(1) [OF I assms(2)] by simp
qed

section \<open>Least squares\<close>

text \<open>The sum of the squares of the residuals; \<open>A\<close> is the transpose of the design matrix.\<close>

definition resid_ss :: "mat \<Rightarrow> vec \<Rightarrow> nat \<Rightarrow> nat \<Rightarrow> vec \<Rightarrow> double" where
  "resid_ss A y n m x = (\<Sum>j<m. (y j - (\<Sum>i<n. A i j * x i))\<^sup>2)"

lemma resid_ss_inner: "resid_ss A y n m x = inner m (\<lambda>j. y j - mv n (trm A) x j) (\<lambda>j. y j - mv n (trm A) x j)"
  by (simp add: resid_ss_def inner_def mv_def trm_def power2_eq_square)

lemma mv_mv_transp: "mv n (\<lambda>i j. mv m A (\<lambda>x. A j x) i) x i = mv m A (\<lambda>j. mv n (trm A) x j) i"
  using mv_prod [where n = n and m = m and A = A and B = "trm A" and x = x and i = i] by (simp add: mv_def trm_def)

lemma lsq_value:
  assumes "lsq A y n m x0 Q0 = (0, x, Q)"
  shows "\<And>i. i < n \<Longrightarrow> mv m A (\<lambda>j. mv n (trm A) x j) i = mv m A y i"
    and "is_inv n (\<lambda>i j. mv m A (\<lambda>x. A j x) i) Q"
proof -
  let ?Ay = "matmul ''NN'' n 1 m 1 A (colm y) 0 zeros" and ?N = "matmul ''NT'' n n m 1 A A 0 Q0"
  let ?M = "\<lambda>i j. mv m A (\<lambda>x. A j x) i"
  have B: "matinv ?N n = Some Q" and x: "x = (\<lambda>i. matmul ''NN'' n 1 n 1 Q ?Ay 0 (colm x0) i 0)"
    using assms by (auto simp: lsq_def Let_def split: if_splits option.splits)
  have N: "?N i j = ?M i j" if "i < n" "j < n" for i j using that by (simp add: matmul_NT)
  have I: "is_inv n ?N Q" by (rule matinv_some [OF B])
  then show "is_inv n ?M Q" using N by (simp add: is_inv_def mat_prod_def)
  fix i assume i: "i < n"
  have "x k = mv n Q (\<lambda>x. ?Ay x 0) k" if "k < n" for k using that by (simp add: x matmul_NN)
  then have "mv n ?N x i = mv n ?N (mv n Q (\<lambda>x. ?Ay x 0)) i" by (intro mv_cong) auto
  also have "\<dots> = ?Ay i 0" by (rule is_inv_mv(1) [OF I i])
  also have "\<dots> = mv m A y i" using i by (simp add: matmul_NN colm_def)
  also have "mv n ?N x i = mv n ?M x i" by (rule mv_cong) (use N i in auto)
  finally show "mv m A (\<lambda>j. mv n (trm A) x j) i = mv m A y i" by (simp add: mv_mv_transp)
qed

lemma lsq_least:
  assumes "lsq A y n m x0 Q0 = (0, x, Q)"
  shows "resid_ss A y n m x \<le> resid_ss A y n m z"
    and "resid_ss A y n m z = resid_ss A y n m x \<Longrightarrow> i < n \<Longrightarrow> z i = x i"
proof -
  let ?T = "mv n (trm A)"
  define r where "r = (\<lambda>j. y j - ?T x j)"
  define d where "d = (\<lambda>i. x i - z i)"
  have orth: "inner m (?T d) r = 0"
  proof -
    have "inner m (?T d) r = inner n d (\<lambda>i. mv m A r i)" by (rule inner_transp)
    also have "\<dots> = inner n d (\<lambda>i. 0)"
      by (rule inner_cong) (use lsq_value(1) [OF assms] in \<open>simp_all add: r_def mv_diff\<close>)
    finally show ?thesis by (simp add: inner_def)
  qed
  have zr: "(\<lambda>j. y j - ?T z j) = (\<lambda>j. r j + ?T d j)" by (simp add: r_def d_def mv_diff)
  have e: "resid_ss A y n m z = resid_ss A y n m x + inner m (?T d) (?T d)"
    unfolding resid_ss_inner zr inner_add using orth inner_comm [of m r "?T d"] by (simp add: r_def inner_add)
  then show "resid_ss A y n m x \<le> resid_ss A y n m z" using inner_self [of m "?T d"] by simp
  assume "resid_ss A y n m z = resid_ss A y n m x" and i: "i < n"
  then have "inner m (?T d) (?T d) = 0" using e by simp
  then have "?T d j = 0" if "j < m" for j using inner_self_0 that by blast
  then have "mv m A (?T d) k = 0" for k by (simp add: mv_def)
  then have "mv n (\<lambda>i j. mv m A (\<lambda>x. A j x) i) d k = 0" for k by (simp add: mv_mv_transp)
  then have "mv n Q (mv n (\<lambda>i j. mv m A (\<lambda>x. A j x) i) d) i = 0" by (simp add: mv_def [of n Q])
  then show "z i = x i" using is_inv_mv(2) [OF lsq_value(2) [OF assms] i, of d] by (simp add: d_def)
qed

section \<open>Kalman filter\<close>

text \<open>The covariance of the innovation.\<close>

definition innov :: "nat \<Rightarrow> mat \<Rightarrow> mat \<Rightarrow> mat \<Rightarrow> mat" where
  "innov n P H R = (\<lambda>i j. mv n (trm H) (mv n P (\<lambda>k. H k j)) i + R i j)"

lemma mv_plus_mat: "mv n (\<lambda>i j. A i j + B i j) x i = mv n A x i + mv n B x i"
  by (simp add: mv_def algebra_simps sum.distrib)

lemma mv_triple: "mv n (\<lambda>i j. mv m A (\<lambda>x. mv k B (\<lambda>y. C y j) x) i) x i = mv m A (mv k B (mv n C x)) i"
proof -
  have "mv n (\<lambda>i j. mv m A (\<lambda>x. mv k B (\<lambda>y. C y j) x) i) x i = mv m A (mv n (\<lambda>x j. mv k B (\<lambda>y. C y j) x) x) i"
    using mv_prod [where A = A and B = "\<lambda>x j. mv k B (\<lambda>y. C y j) x" and m = m] by (simp add: mv_def [of m])
  also have "mv n (\<lambda>x j. mv k B (\<lambda>y. C y j) x) x = mv k B (mv n C x)"
    using mv_prod [where A = B and B = C and m = k and n = n and x = x] by (simp add: mv_def [of k] fun_eq_iff)
  finally show ?thesis .
qed

lemma innov_mv:
  "mv m (innov n P H R) w i = mv n (trm H) (mv n P (mv m H w)) i + mv m R w i"
  unfolding innov_def mv_plus_mat by (simp only: mv_triple)

lemma filter1_value:
  assumes F: "filter1 x P H v R n m Pp0 = (0, xp, Pp)"
  shows "\<exists>S. is_inv m (innov n P H R) S \<and>
    (\<forall>i<n. xp i = x i + mv n P (mv m H (mv m S v)) i) \<and>
    (\<forall>u. \<forall>i<n. mv n Pp u i = mv n P u i - mv n P (mv m H (mv m S (mv n (trm H) (mv n P u)))) i)"
proof -
  let ?F = "matmul ''NN'' n m n 1 P H 0 zeros"
  let ?Q = "matmul ''TN'' m m n 1 H ?F 1 R"
  obtain S where S: "matinv ?Q m = Some S"
    and xp: "xp = (\<lambda>i. matmul ''NN'' n 1 m 1 (matmul ''NN'' n m m 1 ?F S 0 zeros) (colm v) 1 (colm x) i 0)"
    and Pp: "Pp = matmul ''NN'' n n n 1 (matmul ''NT'' n n m (-1) (matmul ''NN'' n m m 1 ?F S 0 zeros) H 1 eye) P 0 Pp0"
    using F by (auto simp: filter1_def Let_def split: option.splits)
  let ?K = "matmul ''NN'' n m m 1 ?F S 0 zeros"
  let ?I = "matmul ''NT'' n n m (-1) ?K H 1 eye"
  have f: "?F i j = mv n P (\<lambda>k. H k j) i" if "i < n" "j < m" for i j using that by (simp add: matmul_NN)
  have fm: "mv m ?F w i = mv n P (mv m H w) i" if "i < n" for w i
  proof -
    have "mv m ?F w i = mv m (\<lambda>i j. mv n P (\<lambda>k. H k j) i) w i" by (rule mv_cong) (use f that in auto)
    also have "\<dots> = mv n P (mv m H w) i" using mv_prod [where A = P and B = H and m = n] by (simp add: mv_def [of n])
    finally show ?thesis .
  qed
  have "?Q i j = innov n P H R i j" if "i < m" "j < m" for i j
  proof -
    have "?Q i j = mv n (trm H) (\<lambda>x. ?F x j) i + R i j" using that by (simp add: matmul_TN)
    also have "mv n (trm H) (\<lambda>x. ?F x j) i = mv n (trm H) (mv n P (\<lambda>k. H k j)) i"
      by (rule mv_cong) (use f that in auto)
    finally show ?thesis by (simp add: innov_def)
  qed
  then have inv: "is_inv m (innov n P H R) S" using matinv_some [OF S] by (simp add: is_inv_def mat_prod_def)
  have k: "mv m ?K w i = mv n P (mv m H (mv m S w)) i" if "i < n" for w i
  proof -
    have "mv m ?K w i = mv m (\<lambda>i j. mv m ?F (\<lambda>k. S k j) i) w i"
      by (rule mv_cong) (use that in \<open>auto simp: matmul_NN [of _ n _ m m 1 ?F S]\<close>)
    also have "\<dots> = mv m ?F (mv m S w) i"
      using mv_prod [where A = ?F and B = S and m = m and n = m] by (simp add: mv_def [of m ?F])
    finally show ?thesis using fm [OF that] by simp
  qed
  have "xp i = x i + mv n P (mv m H (mv m S v)) i" if "i < n" for i
    using that k [OF that, of v] unfolding xp by (subst matmul_NN) (simp_all add: colm_def)
  moreover have "mv n Pp u i = mv n P u i - mv n P (mv m H (mv m S (mv n (trm H) (mv n P u)))) i" if i: "i < n" for u i
  proof -
    have I: "mv n ?I w i = w i - mv m ?K (mv n (trm H) w) i" for w
    proof -
      have "mv n ?I w i = mv n (\<lambda>i j. - mv m ?K (\<lambda>x. H j x) i + eye i j) w i"
        by (rule mv_cong) (use i in \<open>auto simp: matmul_NT\<close>)
      also have "\<dots> = mv n eye w i - mv n (\<lambda>i j. mv m ?K (\<lambda>x. H j x) i) w i"
        unfolding mv_plus_mat by (simp add: mv_def sum_negf)
      also have "mv n (\<lambda>i j. mv m ?K (\<lambda>x. H j x) i) w i = mv m ?K (mv n (trm H) w) i"
        using mv_prod [where A = ?K and B = "trm H" and m = m and n = n and x = w and i = i]
        by (simp add: mv_def [of m ?K] trm_def)
      finally show ?thesis using i by (simp add: mv_eye)
    qed
    have "mv n Pp u i = mv n (\<lambda>i j. mv n ?I (\<lambda>x. P x j) i) u i"
      by (rule mv_cong) (use i in \<open>auto simp: Pp matmul_NN [of _ n _ n n 1 ?I P]\<close>)
    also have "\<dots> = mv n ?I (mv n P u) i"
      using mv_prod [where A = ?I and B = P and m = n and n = n and x = u and i = i] by (simp add: mv_def [of n ?I])
    finally show ?thesis unfolding I k [OF i] .
  qed
  ultimately show ?thesis using inv by blast
qed

definition psd :: "nat \<Rightarrow> mat \<Rightarrow> bool" where
  "psd n Q \<longleftrightarrow> (\<forall>u. 0 \<le> inner n u (mv n Q u))"

lemma inv_sym:
  assumes "symmetric n Q" and "is_inv n Q V"
  shows "inner n (mv n V u) w = inner n u (mv n V w)"
proof -
  have "inner n (mv n V u) w = inner n (mv n V u) (mv n Q (mv n V w))"
    by (rule inner_cong) (use is_inv_mv [OF assms(2)] in simp_all)
  also have "\<dots> = inner n (mv n Q (mv n V u)) (mv n V w)" by (rule inner_sym [OF assms(1), symmetric])
  also have "\<dots> = inner n u (mv n V w)" by (rule inner_cong) (use is_inv_mv [OF assms(2)] in simp_all)
  finally show ?thesis .
qed

lemma inv_psd:
  assumes "psd n Q" and "is_inv n Q V"
  shows "0 \<le> inner n u (mv n V u)"
proof -
  have "0 \<le> inner n (mv n V u) (mv n Q (mv n V u))" using assms(1) by (simp add: psd_def)
  also have "\<dots> = inner n (mv n V u) u" by (rule inner_cong) (use is_inv_mv [OF assms(2)] in simp_all)
  finally show ?thesis by (simp add: inner_comm)
qed

text \<open>
  The distance from the prediction \<open>x\<close> and from the measurements, weighted by the inverses \<open>Pi\<close> and \<open>Ri\<close>
  of their covariances.
\<close>

definition post_cost :: "nat \<Rightarrow> nat \<Rightarrow> mat \<Rightarrow> mat \<Rightarrow> mat \<Rightarrow> vec \<Rightarrow> vec \<Rightarrow> vec \<Rightarrow> double" where
  "post_cost n m Pi Ri H x v z =
    inner n (\<lambda>i. z i - x i) (mv n Pi (\<lambda>i. z i - x i)) +
    inner m (\<lambda>j. v j - mv n (trm H) (\<lambda>i. z i - x i) j) (mv m Ri (\<lambda>j. v j - mv n (trm H) (\<lambda>i. z i - x i) j))"

lemma quad_add:
  assumes "symmetric n Q" and "is_inv n Q V"
  shows "inner n (\<lambda>i. u i + w i) (mv n V (\<lambda>i. u i + w i)) =
    inner n u (mv n V u) + 2 * inner n w (mv n V u) + inner n w (mv n V w)"
proof -
  have "mv n V (\<lambda>i. u i + w i) = (\<lambda>i. mv n V u i + mv n V w i)" by (simp add: fun_eq_iff mv_add)
  moreover have "inner n u (mv n V w) = inner n w (mv n V u)"
    using inv_sym [OF assms, of u w] inner_comm [of n w "mv n V u"] by simp
  ultimately show ?thesis by (simp add: inner_add)
qed

lemma kalman_gain:
  assumes F: "filter1 x P H v R n m Pp0 = (0, xp, Pp)" and P: "is_inv n P Pi" and R: "is_inv m R Ri" and i: "i < n"
  shows "mv n Pi (\<lambda>i. xp i - x i) i = mv m H (mv m Ri (\<lambda>j. v j - mv n (trm H) (\<lambda>i. xp i - x i) j)) i"
    and "mv n Pi (mv n Pp u) i + mv m H (mv m Ri (mv n (trm H) (mv n Pp u))) i = u i"
proof -
  obtain S where S: "is_inv m (innov n P H R) S"
    and xp: "\<And>i. i < n \<Longrightarrow> xp i = x i + mv n P (mv m H (mv m S v)) i"
    and Pp: "\<And>u i. i < n \<Longrightarrow> mv n Pp u i = mv n P u i - mv n P (mv m H (mv m S (mv n (trm H) (mv n P u)))) i"
    using filter1_value [OF F] by blast
  have w: "mv m R (mv m S b) j = b j - mv n (trm H) (mv n P (mv m H (mv m S b))) j" if "j < m" for b j
    using is_inv_mv(1) [OF S that, of b] unfolding innov_mv by simp
  have ri: "mv m Ri (\<lambda>j. b j - mv n (trm H) (mv n P (mv m H (mv m S b))) j) j = mv m S b j" if "j < m" for b j
  proof -
    have "mv m Ri (\<lambda>j. b j - mv n (trm H) (mv n P (mv m H (mv m S b))) j) j = mv m Ri (mv m R (mv m S b)) j"
      by (rule mv_cong) (use w in simp_all)
    then show ?thesis using is_inv_mv(2) [OF R that] by simp
  qed
  have d: "mv n A (\<lambda>i. xp i - x i) r = mv n A (mv n P (mv m H (mv m S v))) r" for A r
    by (rule mv_cong) (use xp in simp_all)
  have "mv m H (mv m Ri (\<lambda>j. v j - mv n (trm H) (\<lambda>i. xp i - x i) j)) i = mv m H (mv m S v) i"
    unfolding d by (rule mv_cong) (use ri in simp_all)
  then show "mv n Pi (\<lambda>i. xp i - x i) i = mv m H (mv m Ri (\<lambda>j. v j - mv n (trm H) (\<lambda>i. xp i - x i) j)) i"
    unfolding d using is_inv_mv(2) [OF P i] by simp
  let ?b = "mv n (trm H) (mv n P u)"
  have e: "mv n A (mv n Pp u) r = mv n A (mv n P u) r - mv n A (mv n P (mv m H (mv m S ?b))) r" for A r
  proof -
    have "mv n A (mv n Pp u) r = mv n A (\<lambda>i. mv n P u i - mv n P (mv m H (mv m S ?b)) i) r"
      by (rule mv_cong) (use Pp in simp_all)
    then show ?thesis by (simp add: mv_diff)
  qed
  have "mv m H (mv m Ri (mv n (trm H) (mv n Pp u))) i = mv m H (mv m S ?b) i"
  proof (rule mv_cong)
    fix c assume "c < m"
    have "mv m Ri (mv n (trm H) (mv n Pp u)) c = mv m Ri (\<lambda>j. ?b j - mv n (trm H) (mv n P (mv m H (mv m S ?b))) j) c"
      by (rule mv_cong) (simp_all add: e)
    then show "mv m Ri (mv n (trm H) (mv n Pp u)) c = mv m S ?b c" using ri [OF \<open>c < m\<close>] by simp
  qed simp
  then show "mv n Pi (mv n Pp u) i + mv m H (mv m Ri (mv n (trm H) (mv n Pp u))) i = u i"
    unfolding e using is_inv_mv(2) [OF P i] by simp
qed

lemma kalman_least:
  assumes F: "filter1 x P H v R n m Pp0 = (0, xp, Pp)" and P: "symmetric n P" "psd n P" "is_inv n P Pi"
    and R: "symmetric m R" "psd m R" "is_inv m R Ri"
  shows "post_cost n m Pi Ri H x v xp \<le> post_cost n m Pi Ri H x v z"
proof -
  define d where "d = (\<lambda>i. xp i - x i)"
  define e where "e = (\<lambda>i. z i - xp i)"
  define r where "r = (\<lambda>j. v j - mv n (trm H) d j)"
  define s where "s = (\<lambda>j. - mv n (trm H) e j)"
  have zx: "(\<lambda>i. z i - x i) = (\<lambda>i. d i + e i)" by (simp add: d_def e_def)
  have zr: "(\<lambda>j. v j - mv n (trm H) (\<lambda>i. z i - x i) j) = (\<lambda>j. r j + s j)"
    unfolding zx by (simp add: r_def s_def mv_add fun_eq_iff)
  have g: "inner n e (mv n Pi d) + inner m s (mv m Ri r) = 0"
  proof -
    have "inner n e (mv n Pi d) = inner n e (\<lambda>i. mv m H (mv m Ri r) i)"
      by (rule inner_cong) (use kalman_gain(1) [OF F P(3) R(3)] in \<open>simp_all add: d_def r_def\<close>)
    also have "\<dots> = inner m (mv n (trm H) e) (mv m Ri r)" by (rule inner_transp [symmetric])
    finally show ?thesis by (simp add: s_def inner_def sum_negf)
  qed
  have "post_cost n m Pi Ri H x v z = post_cost n m Pi Ri H x v xp +
      inner n e (mv n Pi e) + inner m s (mv m Ri s) + 2 * (inner n e (mv n Pi d) + inner m s (mv m Ri r))"
    unfolding post_cost_def zr unfolding zx quad_add [OF P(1,3)] quad_add [OF R(1,3)]
    by (simp add: d_def r_def)
  then show ?thesis using inv_psd [OF P(2,3), of e] inv_psd [OF R(2,3), of s] g by simp
qed

section \<open>The states in use\<close>

lemma fold_write_at:
  assumes "distinct xs" and "k \<le> length xs"
  shows "i < k \<Longrightarrow> fold (\<lambda>i x. x(xs ! i := f i)) [0..<k] x (xs ! i) = f i"
    and "(\<And>i. i < k \<Longrightarrow> r \<noteq> xs ! i) \<Longrightarrow> fold (\<lambda>i x. x(xs ! i := f i)) [0..<k] x r = x r"
  using assms(2)
proof (induction k)
  case (Suc k)
  {
    case 1
    then show ?case using Suc(1) nth_eq_iff_index_eq [OF assms(1), of i k] by (cases "i = k") auto
  next
    case 2
    then show ?case using Suc(2) by auto
  }
qed auto

lemma fold_row_put:
  "fold (\<lambda>j P. put P r (xs ! j) (f j)) js P = P(r := fold (\<lambda>j x. x(xs ! j := f j)) js (P r))"
proof (induction js arbitrary: P)
  case (Cons j js)
  have "put P r (xs ! j) (f j) = P(r := (P r)(xs ! j := f j))" by (simp add: put_def)
  then show ?case using Cons [of "put P r (xs ! j) (f j)"] by (simp del: put_apply fun_upd_apply) simp
qed simp

lemma fold_write_mat:
  assumes "distinct xs" and "k \<le> length xs"
  shows "i < k \<Longrightarrow> j < length xs \<Longrightarrow> fold (\<lambda>i P. fold (\<lambda>j P. put P (xs ! i) (xs ! j) (f i j)) [0..<length xs] P) [0..<k] P (xs ! i) (xs ! j) = f i j"
    and "(\<forall>i<k. r \<noteq> xs ! i) \<or> c \<notin> List.set xs \<Longrightarrow>
      fold (\<lambda>i P. fold (\<lambda>j P. put P (xs ! i) (xs ! j) (f i j)) [0..<length xs] P) [0..<k] P r c = P r c"
  using assms(2)
proof (induction k arbitrary: i and r)
  case (Suc k)
  note at = fold_write_at [OF assms(1) order_refl]
  {
    case 1
    show ?case
    proof (cases "i = k")
      case True
      then show ?thesis using 1 at(1) unfolding upt_Suc fold_append comp_apply by (simp add: fold_row_put del: put_apply)
    next
      case False
      then have "i < k" "xs ! i \<noteq> xs ! k" using 1 nth_eq_iff_index_eq [OF assms(1), of i k] by auto
      then show ?thesis using Suc(1) [of i] 1 by (simp add: fold_row_put del: put_apply)
    qed
  next
    case 2
    show ?case
    proof (cases "r = xs ! k")
      case True
      then have c: "c \<notin> List.set xs" using 2 by auto
      have "fold (\<lambda>j x. x(xs ! j := f k j)) [0..<length xs] y c = y c" for y
        by (rule at(2)) (use c nth_mem in auto)
      then show ?thesis using Suc(2) c 2 True by (simp add: fold_row_put del: put_apply)
    next
      case False
      then show ?thesis using Suc(2) 2 by (auto simp: fold_row_put simp del: put_apply)
    qed
  }
qed auto

lemma kfilter_value:
  assumes K: "kfilter Pp0 x P H v R n m = (info, x', P')" and ix: "ix = filter_states x P n"
    and F: "filter1 (\<lambda>i. x (ix ! i)) (\<lambda>i j. P (ix ! i) (ix ! j)) (\<lambda>i j. H (ix ! i) j) v R (length ix) m Pp0 = (info', xp, Pp)"
  shows "info' = info" and "\<And>i. i < length ix \<Longrightarrow> x' (ix ! i) = xp i"
    and "\<And>i j. i < length ix \<Longrightarrow> j < length ix \<Longrightarrow> P' (ix ! i) (ix ! j) = Pp i j"
    and "\<And>i. i \<notin> List.set ix \<Longrightarrow> x' i = x i"
    and "\<And>i j. i \<notin> List.set ix \<or> j \<notin> List.set ix \<Longrightarrow> P' i j = P i j"
proof -
  have d: "distinct ix" unfolding ix filter_states_def by simp
  have R: "info = info'" "x' = fold (\<lambda>i x. x(ix ! i := xp i)) [0..<length ix] x"
    "P' = fold (\<lambda>i P. fold (\<lambda>j P. put P (ix ! i) (ix ! j) (Pp i j)) [0..<length ix] P) [0..<length ix] P"
    using K F unfolding kfilter_def Let_def ix [symmetric] by (simp_all del: put_apply)
  show "info' = info" using R(1) by simp
  show "x' (ix ! i) = xp i" if "i < length ix" for i
    unfolding R(2) by (rule fold_write_at(1) [OF d order_refl that])
  show "P' (ix ! i) (ix ! j) = Pp i j" if "i < length ix" "j < length ix" for i j
    unfolding R(3) by (rule fold_write_mat(1) [OF d order_refl that])
  show "x' i = x i" if "i \<notin> List.set ix" for i
    unfolding R(2) by (rule fold_write_at(2) [OF d order_refl]) (use that in \<open>auto simp: in_set_conv_nth\<close>)
  show "P' i j = P i j" if "i \<notin> List.set ix \<or> j \<notin> List.set ix" for i j
    unfolding R(3) by (rule fold_write_mat(2) [OF d order_refl]) (use that in \<open>auto simp: in_set_conv_nth\<close>)
qed

lemma filter1_fails: "filter1 x P H v R n m Pp0 = (info, xp, Pp) \<Longrightarrow> info \<noteq> 0 \<Longrightarrow> xp = x \<and> Pp = Pp0"
  by (auto simp: filter1_def Let_def split: option.splits)

text \<open>It fails where the covariance of the innovation has no inverse, and only there.\<close>

lemma innov_matrix:
  assumes "i < m" and "j < m"
  shows "matmul ''TN'' m m n 1 H (matmul ''NN'' n m n 1 P H 0 zeros) 1 R i j = innov n P H R i j"
proof -
  let ?F = "matmul ''NN'' n m n 1 P H 0 zeros"
  have f: "?F i j = mv n P (\<lambda>k. H k j) i" if "i < n" "j < m" for i j using that by (simp add: matmul_NN)
  have "matmul ''TN'' m m n 1 H ?F 1 R i j = mv n (trm H) (\<lambda>x. ?F x j) i + R i j" using assms by (simp add: matmul_TN)
  also have "mv n (trm H) (\<lambda>x. ?F x j) i = mv n (trm H) (mv n P (\<lambda>k. H k j)) i"
    by (rule mv_cong) (use f assms in auto)
  finally show ?thesis by (simp add: innov_def)
qed

lemma filter1_singular:
  "fst (filter1 x P H v R n m Pp0) = (if \<exists>B. is_inv m (innov n P H R) B then 0 else -1)"
proof -
  let ?Q = "matmul ''TN'' m m n 1 H (matmul ''NN'' n m n 1 P H 0 zeros) 1 R"
  have "is_inv m ?Q B \<longleftrightarrow> is_inv m (innov n P H R) B" for B
    by (simp add: is_inv_def mat_prod_def innov_matrix)
  then show ?thesis
    using matinv_cases [where A = ?Q and n = m] by (auto simp: filter1_def Let_def split: option.splits)
qed

text \<open>A filter that fails stores what the memory of its result held before.\<close>

lemma kfilter_fails:
  assumes K: "kfilter Pp0 x P H v R n m = (info, x', P')" and "info \<noteq> 0" and ix: "ix = filter_states x P n"
  shows "x' = x" and "\<And>i j. i < length ix \<Longrightarrow> j < length ix \<Longrightarrow> P' (ix ! i) (ix ! j) = Pp0 i j"
proof -
  obtain info' xp Pp where F: "filter1 (\<lambda>i. x (ix ! i)) (\<lambda>i j. P (ix ! i) (ix ! j)) (\<lambda>i j. H (ix ! i) j) v R (length ix) m Pp0 = (info', xp, Pp)"
    by (rule prod_cases3)
  note V = kfilter_value [OF K ix F]
  have F0: "xp = (\<lambda>i. x (ix ! i))" "Pp = Pp0" using filter1_fails [OF F] V(1) assms(2) by auto
  have "x' i = x i" for i
    using V(2,4) F0(1) by (cases "i \<in> List.set ix") (auto simp: in_set_conv_nth)
  then show "x' = x" by blast
  show "P' (ix ! i) (ix ! j) = Pp0 i j" if "i < length ix" "j < length ix" for i j
    using V(3) [OF that] F0(2) by simp
qed

lemma kfilter_singular:
  assumes ix: "ix = filter_states x P n" and k: "k = length ix"
    and S: "S = (\<lambda>a b. (\<Sum>i<k. H (ix ! i) a * (\<Sum>j<k. P (ix ! i) (ix ! j) * H (ix ! j) b)) + R a b)"
  shows "fst (kfilter Pp0 x P H v R n m) = (if \<exists>B. is_inv m S B then 0 else -1)"
proof -
  have "S = innov k (\<lambda>i j. P (ix ! i) (ix ! j)) (\<lambda>i j. H (ix ! i) j) R"
    by (simp add: S innov_def mv_def trm_def)
  then show ?thesis
    using filter1_singular [of "\<lambda>i. x (ix ! i)" "\<lambda>i j. P (ix ! i) (ix ! j)" "\<lambda>i j. H (ix ! i) j" v R k m Pp0]
    by (auto simp: kfilter_def Let_def ix [symmetric] k [symmetric] split: prod.splits)
qed

text \<open>The filter on the states in use is optimal.\<close>

lemma info_mv:
  "mv k (\<lambda>i j. Pi i j + (\<Sum>a<m. H i a * (\<Sum>b<m. Ri a b * H j b))) x i =
    mv k Pi x i + mv m H (mv m Ri (mv k (trm H) x)) i"
proof -
  have "(\<lambda>i j. \<Sum>a<m. H i a * (\<Sum>b<m. Ri a b * H j b)) = (\<lambda>i j. mv m H (\<lambda>a. mv m Ri (\<lambda>b. trm H b j) a) i)"
    by (simp add: mv_def trm_def)
  then show ?thesis unfolding mv_plus_mat by (simp only: mv_triple)
qed

lemma kfilter_optimal:
  assumes K: "kfilter Pp0 x P H v R n m = (0, x', P')" and ix: "ix = filter_states x P n" and k: "k = length ix"
    and xs: "xs = (\<lambda>i. x (ix ! i))" and Ps: "Ps = (\<lambda>i j. P (ix ! i) (ix ! j))" and Hs: "Hs = (\<lambda>i j. H (ix ! i) j)"
    and P: "symmetric k Ps" "psd k Ps" "is_inv k Ps Pi" and R: "symmetric m R" "psd m R" "is_inv m R Ri"
  shows "(\<forall>z. post_cost k m Pi Ri Hs xs v (\<lambda>i. x' (ix ! i)) \<le> post_cost k m Pi Ri Hs xs v z) \<and>
    (\<forall>u. \<forall>i<k. mv k (\<lambda>i j. Pi i j + (\<Sum>a<m. Hs i a * (\<Sum>b<m. Ri a b * Hs j b)))
      (mv k (\<lambda>i j. P' (ix ! i) (ix ! j)) u) i = u i) \<and>
    (\<forall>i. i \<notin> List.set ix \<longrightarrow> x' i = x i) \<and>
    (\<forall>i j. i \<notin> List.set ix \<or> j \<notin> List.set ix \<longrightarrow> P' i j = P i j)"
proof -
  obtain info' xp Pp where F: "filter1 xs Ps Hs v R k m Pp0 = (info', xp, Pp)" by (rule prod_cases3)
  note V = kfilter_value [OF K ix F [unfolded xs Ps Hs k]]
  have F0: "filter1 xs Ps Hs v R k m Pp0 = (0, xp, Pp)" using F V(1) by simp
  have xe: "x' (ix ! i) = xp i" if "i < k" for i using V(2) that k by simp
  have Pe: "P' (ix ! i) (ix ! j) = Pp i j" if "i < k" "j < k" for i j using V(3) that k by simp
  have c: "post_cost k m Pi Ri Hs xs v (\<lambda>i. x' (ix ! i)) = post_cost k m Pi Ri Hs xs v xp"
  proof -
    have d: "mv k A (\<lambda>i. x' (ix ! i) - xs i) = mv k A (\<lambda>i. xp i - xs i)" for A
      unfolding mv_def using xe by simp
    have "inner k (\<lambda>i. x' (ix ! i) - xs i) w = inner k (\<lambda>i. xp i - xs i) w" for w
      by (rule inner_cong) (simp_all add: xe)
    then show ?thesis unfolding post_cost_def d by simp
  qed
  have "mv k (\<lambda>i j. Pi i j + (\<Sum>a<m. Hs i a * (\<Sum>b<m. Ri a b * Hs j b)))
      (mv k (\<lambda>i j. P' (ix ! i) (ix ! j)) u) i = u i" if i: "i < k" for u i
  proof -
    have e: "mv k A (mv k (\<lambda>i j. P' (ix ! i) (ix ! j)) u) r = mv k A (mv k Pp u) r" for A r
    proof (rule mv_cong)
      fix c assume "c < k"
      then show "mv k (\<lambda>i j. P' (ix ! i) (ix ! j)) u c = mv k Pp u c" by (intro mv_cong) (simp_all add: Pe)
    qed simp
    show ?thesis unfolding e unfolding info_mv by (rule kalman_gain(2) [OF F0 P(3) R(3) i])
  qed
  then show ?thesis using kalman_least [OF F0 P R] V(4,5) unfolding c by simp
qed

section \<open>Smoother\<close>

lemma smoother_value:
  assumes "smoother xf Qf xb Qb n xs0 Qs0 = (0, xs, Qs)"
  shows "\<exists>Vf Vb. is_inv n Qf Vf \<and> is_inv n Qb Vb \<and> is_inv n (\<lambda>i j. Vf i j + Vb i j) Qs \<and>
    (\<forall>i<n. mv n (\<lambda>i j. Vf i j + Vb i j) xs i = mv n Vf xf i + mv n Vb xb i)"
proof -
  obtain Vf Vb where Vf: "matinv Qf n = Some Vf" and Vb: "matinv Qb n = Some Vb"
    using assms by (auto simp: smoother_def split: option.splits)
  define T where "T = fold (\<lambda>j Q. fold (\<lambda>i Q. put Q i j (Vf i j + Vb i j)) [0..<n] Q) [0..<n] Qs0"
  define xx where "xx = matmul ''NN'' n 1 n 1 Vb (colm xb) 1 (matmul ''NN'' n 1 n 1 Vf (colm xf) 0 zeros)"
  have S: "matinv T n = Some Qs" and xs: "xs = (\<lambda>i. matmul ''NN'' n 1 n 1 Qs xx 0 (colm xs0) i 0)"
    using assms Vf Vb by (auto simp: smoother_def Let_def T_def xx_def simp del: put_apply split: option.splits)
  have c: "fold (\<lambda>i Q. put Q i j (f i)) [0..<a] Q = (\<lambda>r c. if c = j \<and> r < a then f r else Q r c)" for j f a Q
    by (induction a) (auto simp: fun_eq_iff less_Suc_eq)
  have "fold (\<lambda>j Q. fold (\<lambda>i Q. put Q i j (Vf i j + Vb i j)) [0..<n] Q) [0..<b] Q =
      (\<lambda>r c. if c < b \<and> r < n then Vf r c + Vb r c else Q r c)" for b Q
    unfolding c by (induction b) (auto simp: fun_eq_iff less_Suc_eq)
  then have T: "T i j = Vf i j + Vb i j" if "i < n" "j < n" for i j using that by (simp add: T_def)
  have I: "is_inv n (\<lambda>i j. Vf i j + Vb i j) Qs"
    using matinv_some [OF S] T by (simp add: is_inv_def mat_prod_def)
  have "mv n (\<lambda>i j. Vf i j + Vb i j) xs i = mv n Vf xf i + mv n Vb xb i" if i: "i < n" for i
  proof -
    have "mv n (\<lambda>i j. Vf i j + Vb i j) xs i = mv n (\<lambda>i j. Vf i j + Vb i j) (mv n Qs (\<lambda>x. xx x 0)) i"
      by (rule mv_cong) (simp_all add: xs matmul_NN)
    also have "\<dots> = xx i 0" by (rule is_inv_mv(1) [OF I i])
    finally show ?thesis using i by (simp add: xx_def matmul_NN colm_def)
  qed
  then show ?thesis using matinv_some [OF Vf] matinv_some [OF Vb] I by blast
qed

end
