(* ===== verification/LambdaIls.thy ===== *)
theory LambdaIls
  imports LambdaBest MatEst
begin

text \<open>
  Integer least squares: what \<^verbatim>\<open>lambda_search\<close> and \<^verbatim>\<open>lambda\<close> return, in terms of the covariance
  matrix alone.
\<close>

section \<open>The weighted distance\<close>

text \<open>\<open>v\<close> is \<open>r' Q\<^sup>-\<^sup>1 r\<close>.\<close>

definition sqdist :: "nat \<Rightarrow> mat \<Rightarrow> vec \<Rightarrow> double \<Rightarrow> bool" where
  "sqdist n Q r v \<longleftrightarrow> (\<exists>x. (\<forall>i<n. mv n Q x i = r i) \<and> v = (\<Sum>i<n. r i * x i))"

lemma sqdist_unique:
  assumes "symmetric n Q" and "sqdist n Q r u" and "sqdist n Q r v"
  shows "u = v"
proof -
  obtain x where x: "\<And>i. i < n \<Longrightarrow> mv n Q x i = r i" "u = (\<Sum>i<n. r i * x i)"
    using assms(2) unfolding sqdist_def by blast
  obtain y where y: "\<And>i. i < n \<Longrightarrow> mv n Q y i = r i" "v = (\<Sum>i<n. r i * y i)"
    using assms(3) unfolding sqdist_def by blast
  have "u = inner n (mv n Q y) x" using x(2) y(1) by (simp add: inner_def)
  also have "\<dots> = inner n y (mv n Q x)" by (rule inner_sym [OF assms(1)])
  also have "\<dots> = v" using x(1) y(2) by (simp add: inner_def mult.commute)
  finally show ?thesis .
qed

text \<open>Forward substitution.\<close>

fun fsub :: "mat \<Rightarrow> vec \<Rightarrow> nat \<Rightarrow> double" where
  "fsub L b k = b k - (\<Sum>i\<leftarrow>[0..<k]. L k i * fsub L b i)"

declare fsub.simps [simp del]

lemma fsub_solves:
  assumes "unit_lower n L" and "k < n"
  shows "mv n L (fsub L b) k = b k"
proof -
  have "mv n L (fsub L b) k = (\<Sum>i<Suc k. L k i * fsub L b i)"
    unfolding mv_def by (rule sum.mono_neutral_right) (use assms in \<open>auto simp: unit_lower_def\<close>)
  also have "\<dots> = (\<Sum>i<k. L k i * fsub L b i) + fsub L b k" using assms by (simp add: unit_lower_def)
  also have "fsub L b k = b k - (\<Sum>i<k. L k i * fsub L b i)"
    by (subst fsub.simps) (simp add: interv_sum_list_conv_sum_set_nat atLeast0LessThan)
  finally show ?thesis by simp
qed

lemma mv_ltdl:
  assumes "r < n" shows "mv n (ltdl n L D) x r = (\<Sum>k<n. D k * L k r * mv n L x k)"
proof -
  have "mv n (ltdl n L D) x r = (\<Sum>c<n. \<Sum>k<n. D k * L k r * L k c * x c)"
    by (simp add: mv_def ltdl_def sum_distrib_right)
  also have "\<dots> = (\<Sum>k<n. \<Sum>c<n. D k * L k r * L k c * x c)" by (rule sum.swap)
  finally show ?thesis by (simp add: mv_def sum_distrib_left mult.assoc)
qed

text \<open>The distance of the search is the weighted distance.\<close>

lemma dst_sqdist:
  assumes u: "unit_lower n L" and D: "\<And>i. i < n \<Longrightarrow> 0 < D i"
    and Q: "\<And>r c. r < n \<Longrightarrow> c < n \<Longrightarrow> Q r c = ltdl n L D r c"
  shows "sqdist n Q (\<lambda>i. w i - zs i) (dst n L D zs w 0)"
proof -
  define e where "e = (\<lambda>i. w i - cen n L zs w i)"
  define x where "x = fsub L (\<lambda>k. e k / D k)"
  have Lx: "mv n L x k = e k / D k" if "k < n" for k unfolding x_def by (rule fsub_solves [OF u that])
  have r: "w k - zs k = (\<Sum>i<n. L i k * e i)" if "k < n" for k
  proof -
    have "(\<Sum>i<n. L i k * e i) = (\<Sum>i=k..<n. L i k * e i)"
      by (rule sum.mono_neutral_right) (use u that in \<open>auto simp: unit_lower_def\<close>)
    also have "\<dots> = e k + (\<Sum>i=Suc k..<n. L i k * e i)"
      using u that by (simp add: sum.atLeast_Suc_lessThan unit_lower_def)
    also have "\<dots> = w k - zs k" unfolding e_def cen_sum [of n L zs w k] by (simp add: mult.commute)
    finally show ?thesis ..
  qed
  have "mv n Q x i = w i - zs i" if "i < n" for i
  proof -
    have "mv n Q x i = mv n (ltdl n L D) x i" by (rule mv_cong) (use Q that in auto)
    also have "\<dots> = (\<Sum>k<n. D k * L k i * (e k / D k))" unfolding mv_ltdl [OF that] by (simp add: Lx)
    also have "\<dots> = (\<Sum>k<n. L k i * e k)"
    proof (rule sum.cong [OF refl])
      fix k assume "k \<in> {..<n}"
      then have "D k \<noteq> 0" using D [of k] by simp
      then show "D k * L k i * (e k / D k) = L k i * e k" by simp
    qed
    finally show ?thesis using r [OF that] by simp
  qed
  moreover have "dst n L D zs w 0 = (\<Sum>i<n. (w i - zs i) * x i)"
  proof -
    have "(\<Sum>i<n. (w i - zs i) * x i) = (\<Sum>i<n. \<Sum>k<n. L k i * e k * x i)" by (simp add: r sum_distrib_right)
    also have "\<dots> = (\<Sum>k<n. \<Sum>i<n. L k i * e k * x i)" by (rule sum.swap)
    also have "\<dots> = (\<Sum>k<n. e k * mv n L x k)" by (simp add: mv_def sum_distrib_left mult.assoc mult.left_commute)
    also have "\<dots> = dst n L D zs w 0" by (simp add: Lx dst_def e_def atLeast0LessThan)
    finally show ?thesis ..
  qed
  ultimately show ?thesis unfolding sqdist_def by blast
qed

lemma symmetric_ltdl:
  assumes "symmetric n Q" and "\<And>r c. r < n \<Longrightarrow> c \<le> r \<Longrightarrow> Q r c = ltdl n L D r c" and "r < n" and "c < n"
  shows "Q r c = ltdl n L D r c"
proof (cases "c \<le> r")
  case False
  then have "Q r c = ltdl n L D c r" using assms by (simp add: symmetric_def)
  then show ?thesis by (simp add: ltdl_def mult.assoc mult.commute mult.left_commute)
qed (use assms in auto)

lemma LD_dst:
  assumes "LD n Q zeros D0 = Some (L, D)" and "symmetric n Q"
  shows "sqdist n Q (\<lambda>i. w i - zs i) v \<longleftrightarrow> v = dst n L D zs w 0"
proof -
  note R = LD_result [OF assms(1)]
  have "sqdist n Q (\<lambda>i. w i - zs i) (dst n L D zs w 0)"
    by (rule dst_sqdist [OF R(1,2) symmetric_ltdl [OF assms(2) R(3)]])
  then show ?thesis using sqdist_unique [OF assms(2)] by blast
qed

lemma search_is_best:
  assumes "lambda_search n m a Q F0 s0 = Some (F, s)" and "symmetric n Q"
  shows "\<exists>q. (\<forall>w v. sqdist n Q (\<lambda>i. of_int (w i) - a i) v \<longleftrightarrow> v = q w) \<and> (enough n m q \<longrightarrow> best n m q F s)"
proof -
  obtain L D where LD: "LD n Q zeros (\<lambda>i. 0) = Some (L, D)" and S: "search n m L D a F0 s0 = Some (F, s)"
    and nm: "0 < n" "0 < m"
    using assms(1) by (auto simp: lambda_search_def split: if_splits option.splits)
  have "enough n m (vdist n L D a) \<longrightarrow> best n m (vdist n L D a) F s"
    using search_result [OF S LD_result(2) [OF LD] nm] by blast
  then show ?thesis using LD_dst [OF LD assms(2)] by (intro exI [of _ "vdist n L D a"]) simp
qed

section \<open>In another basis\<close>

text \<open>The transpose of a unimodular matrix maps the integer vectors onto the integer vectors.\<close>

lemma unimodular_inv:
  assumes "unimodular n Z"
  obtains W where "int_mat n W" and "is_inv n Z W"
proof -
  obtain W where W: "int_mat n W" "\<And>x r. r < n \<Longrightarrow> mv n Z (mv n W x) r = x r \<and> mv n W (mv n Z x) r = x r"
    using assms unfolding unimodular_def by blast
  have e: "mv n M (\<lambda>k. eye k j) = (\<lambda>i. M i j)" if "j < n" for M j
    unfolding mv_def eye_def using that by (simp add: if_distrib [of "\<lambda>y. _ * y"] cong: if_cong)
  have "mat_prod n Z W i j = eye i j \<and> mat_prod n W Z i j = eye i j" if "i < n" "j < n" for i j
    using W(2) [OF that(1), of "\<lambda>k. eye k j"] by (simp add: mat_prod_mv e [OF that(2)])
  then have "is_inv n Z W" by (simp add: is_inv_def)
  then show thesis by (rule that [OF W(1)])
qed

lemma int_mv:
  assumes "int_mat n M"
  obtains T where "\<And>(w :: nat \<Rightarrow> int) i. i < n \<Longrightarrow> real_of_int (T w i) = mv n M (\<lambda>k. of_int (w k)) i"
proof -
  have "mv n M (\<lambda>k. of_int (w k)) i \<in> \<int>" if "i < n" for i and w :: "nat \<Rightarrow> int"
    unfolding mv_def using assms that by (intro Ints_sum Ints_mult) (auto simp: int_mat_def)
  then have "real_of_int \<lfloor>mv n M (\<lambda>k. of_int (w k)) i\<rfloor> = mv n M (\<lambda>k. of_int (w k)) i" if "i < n"
    for i and w :: "nat \<Rightarrow> int"
    using that by simp
  then show thesis by (rule that [of "\<lambda>w i. \<lfloor>mv n M (\<lambda>k. of_int (w k)) i\<rfloor>"])
qed

lemma int_trm: "int_mat n M \<Longrightarrow> int_mat n (trm M)"
  by (simp add: int_mat_def trm_def)

lemma inner_ltdl: "inner n u (mv n (ltdl n L D) y) = dform n D (mv n L u) (mv n L y)"
proof -
  have "inner n u (mv n (ltdl n L D) y) = (\<Sum>r<n. \<Sum>k<n. u r * (D k * L k r * mv n L y k))"
    by (simp add: inner_def mv_ltdl sum_distrib_left)
  also have "\<dots> = (\<Sum>k<n. \<Sum>r<n. u r * (D k * L k r * mv n L y k))" by (rule sum.swap)
  also have "\<dots> = (\<Sum>k<n. D k * mv n L u k * mv n L y k)"
    by (simp add: mv_def [of n L u] sum_distrib_left sum_distrib_right mult.assoc mult.commute mult.left_commute)
  finally show ?thesis by (simp add: dform_def)
qed

text \<open>The distance does not depend on the basis.\<close>

lemma sqdist_basis:
  assumes B: "in_basis n L0 D0 L D Z" and I: "is_inv n Z W"
    and S: "sqdist n (ltdl n L D) (mv n (trm Z) r) v"
  shows "sqdist n (ltdl n L0 D0) r v"
proof -
  obtain y where y: "\<And>i. i < n \<Longrightarrow> mv n (ltdl n L D) y i = mv n (trm Z) r i" "v = inner n (mv n (trm Z) r) y"
    using S unfolding sqdist_def inner_def by blast
  let ?x = "mv n Z y" and ?Q = "ltdl n L0 D0"
  have form: "inner n (mv n Z u) (mv n ?Q ?x) = inner n (mv n Z u) r" for u
  proof -
    have "inner n (mv n Z u) (mv n ?Q ?x) = dform n D0 (mv n L0 (mv n Z u)) (mv n L0 ?x)" by (rule inner_ltdl)
    also have "\<dots> = dform n D (mv n L u) (mv n L y)" using B by (simp add: in_basis_def)
    also have "\<dots> = inner n u (mv n (ltdl n L D) y)" by (rule inner_ltdl [symmetric])
    also have "\<dots> = inner n u (mv n (trm Z) r)" by (rule inner_cong) (simp_all add: y(1))
    also have "\<dots> = inner n (mv n (trm Z) r) u" by (rule inner_comm)
    also have "\<dots> = inner n r (mv n Z u)" by (rule inner_transp)
    finally show ?thesis by (simp add: inner_comm)
  qed
  have "mv n ?Q ?x i = r i" if i: "i < n" for i
  proof -
    let ?e = "\<lambda>k. eye i k"
    have e: "inner n ?e w = w i" for w
      unfolding inner_def eye_def using i by (simp add: if_distrib [of "\<lambda>y. y * _"] cong: if_cong)
    have "inner n ?e w = inner n (mv n Z (mv n W ?e)) w" for w
      by (rule inner_cong) (simp_all add: is_inv_mv(1) [OF I])
    then show ?thesis using form [of "mv n W ?e"] e by metis
  qed
  moreover have "v = (\<Sum>i<n. r i * ?x i)"
    using y(2) inner_transp [of n n Z r y] by (simp add: inner_def)
  ultimately show ?thesis unfolding sqdist_def by blast
qed

lemma sqdist_cong:
  assumes "\<And>i j. i < n \<Longrightarrow> j < n \<Longrightarrow> Q i j = Q' i j" and "\<And>i. i < n \<Longrightarrow> r i = r' i" and "sqdist n Q r v"
  shows "sqdist n Q' r' v"
proof -
  obtain x where x: "\<And>i. i < n \<Longrightarrow> mv n Q x i = r i" "v = (\<Sum>i<n. r i * x i)"
    using assms(3) unfolding sqdist_def by blast
  have "mv n Q' x i = r' i" if "i < n" for i
  proof -
    have "mv n Q' x i = mv n Q x i" by (rule mv_cong) (use assms(1) that in simp_all)
    then show ?thesis using x(1) assms(2) that by simp
  qed
  moreover have "v = (\<Sum>i<n. r' i * x i)" using x(2) assms(2) by simp
  ultimately show ?thesis unfolding sqdist_def by blast
qed

text \<open>Renaming the vectors by a bijection.\<close>

lemma best_image:
  assumes B: "best n m q1 E s" and m: "0 < m"
    and T: "\<And>w. q1 (T w) = q w" "\<And>w i. i < n \<Longrightarrow> T (U w) i = w i" "\<And>w i. i < n \<Longrightarrow> U (T w) i = w i"
    and c1: "\<And>w w'. (\<And>i. i < n \<Longrightarrow> w i = w' i) \<Longrightarrow> q1 w = q1 w'"
    and cU: "\<And>w w' i. (\<And>i. i < n \<Longrightarrow> w i = w' i) \<Longrightarrow> i < n \<Longrightarrow> U w i = U w' i"
    and cT: "\<And>w w' i. (\<And>i. i < n \<Longrightarrow> w i = w' i) \<Longrightarrow> i < n \<Longrightarrow> T w i = T w' i"
    and F: "\<And>w c i. c < m \<Longrightarrow> \<forall>i<n. E i c = of_int (w i) \<Longrightarrow> i < n \<Longrightarrow> F i c = of_int (U w i)"
  shows "best n m q F s"
proof -
  obtain W where W: "\<forall>c<m. (\<forall>i<n. E i c = of_int (W c i)) \<and> s c = q1 (W c)"
      "\<forall>c<m. \<forall>d<m. c \<noteq> d \<longrightarrow> (\<exists>i<n. W c i \<noteq> W d i)" "\<forall>c<m. \<forall>d<m. c < d \<longrightarrow> s c \<le> s d"
      "\<forall>w. (\<exists>c<m. \<forall>i<n. w i = W c i) \<or> s (m - 1) \<le> q1 w"
    using B unfolding best_def by blast
  have "(\<forall>i<n. F i c = of_int (U (W c) i)) \<and> s c = q (U (W c))" if "c < m" for c
  proof -
    have "q (U (W c)) = q1 (W c)" unfolding T(1) [symmetric] by (rule c1) (simp add: T(2))
    then show ?thesis using W(1) F [OF that, of "W c"] that by simp
  qed
  moreover have "\<exists>i<n. U (W c) i \<noteq> U (W d) i" if cd: "c < m" "d < m" "c \<noteq> d" for c d
  proof (rule ccontr)
    assume "\<not> ?thesis"
    then have "T (U (W c)) i = T (U (W d)) i" if "i < n" for i by (intro cT) (use that in auto)
    then have "W c i = W d i" if "i < n" for i using T(2) that by metis
    then show False using W(2) cd by blast
  qed
  moreover have "(\<exists>c<m. \<forall>i<n. w i = U (W c) i) \<or> s (m - 1) \<le> q w" for w
  proof -
    from W(4) consider c where "c < m" "\<forall>i<n. T w i = W c i" | "s (m - 1) \<le> q1 (T w)" by blast
    then show ?thesis
    proof cases
      case 1
      have "w i = U (W c) i" if "i < n" for i
        using cU [of "T w" "W c" i] 1(2) T(3) [OF that, of w] that by simp
      then show ?thesis using 1(1) by blast
    qed (simp add: T(1))
  qed
  ultimately show ?thesis unfolding best_def using W(3) by (intro exI [of _ "\<lambda>c. U (W c)"] conjI) blast+
qed

lemma enough_image:
  assumes "enough n m q" and "\<And>w. q1 (T w) = q w" and "\<And>w i. i < n \<Longrightarrow> U (T w) i = w i"
    and cU: "\<And>w w' i. (\<And>i. i < n \<Longrightarrow> w i = w' i) \<Longrightarrow> i < n \<Longrightarrow> U w i = U w' i"
  shows "enough n m q1"
proof -
  obtain V where V: "\<forall>c<m. q (V c) < 10 ^ 99" "\<forall>c<m. \<forall>d<m. c \<noteq> d \<longrightarrow> (\<exists>i<n. V c i \<noteq> V d i)"
    using assms(1) unfolding enough_def by blast
  have "\<exists>i<n. T (V c) i \<noteq> T (V d) i" if cd: "c < m" "d < m" "c \<noteq> d" for c d
  proof (rule ccontr)
    assume "\<not> ?thesis"
    then have "U (T (V c)) i = U (T (V d)) i" if "i < n" for i by (intro cU) (use that in auto)
    then have "V c i = V d i" if "i < n" for i using assms(3) that by metis
    then show False using V(2) cd by blast
  qed
  then show ?thesis unfolding enough_def using V(1) assms(2) by (intro exI [of _ "\<lambda>c. T (V c)"]) simp
qed

section \<open>The whole estimation\<close>

lemma lambda_is_best:
  assumes R: "lambda E0 n m a Q F0 s0 = Some (F, s)" and sym: "symmetric n Q"
  shows "\<exists>q. (\<forall>w v. sqdist n Q (\<lambda>i. of_int (w i) - a i) v \<longleftrightarrow> v = q w) \<and> (enough n m q \<longrightarrow> best n m q F s)"
proof -
  obtain L0 D0 L D Z E where LD: "LD n Q zeros (\<lambda>i. 0) = Some (L0, D0)" and red: "reduction n L0 D0 eye = Some (L, D, Z)"
    and S: "search n m L D (\<lambda>i. matmul ''TN'' n 1 n 1 Z (colm a) 0 zeros i 0) E0 s0 = Some (E, s)"
    and F: "solve ''T'' Z E n m F0 = Some F" and n: "0 < n" and m: "0 < m"
    using R by (auto simp: lambda_def Let_def split: if_splits option.splits)
  define z where "z = (\<lambda>i. matmul ''TN'' n 1 n 1 Z (colm a) 0 zeros i 0)"
  have z: "z i = mv n (trm Z) a i" if "i < n" for i using that by (simp add: z_def matmul_TN colm_def)
  note LDR = LD_result [OF LD]
  have B: "in_basis n L0 D0 L D Z" 
    using reduction_returns [where D = D0, OF LDR(1) LDR(2) n] red by auto
  then have u: "unit_lower n L" and D: "\<And>i. i < n \<Longrightarrow> 0 < D i" and um: "unimodular n Z" by (auto simp: in_basis_def)
  obtain V where V: "int_mat n V" "is_inv n Z V" by (rule unimodular_inv [OF um])
  have I: "is_inv n (trm Z) (trm V)" by (rule is_inv_transp [OF V(2)])
  obtain T where T: "\<And>(w :: nat \<Rightarrow> int) i. i < n \<Longrightarrow> real_of_int (T w i) = mv n (trm Z) (\<lambda>k. of_int (w k)) i"
    using int_mv [OF int_trm] um unfolding unimodular_def by blast
  obtain U where U: "\<And>(w :: nat \<Rightarrow> int) i. i < n \<Longrightarrow> real_of_int (U w i) = mv n (trm V) (\<lambda>k. of_int (w k)) i"
    using int_mv [OF int_trm [OF V(1)]] by blast
  have TU: "T (U w) i = w i" if "i < n" for w i
  proof -
    have "real_of_int (T (U w) i) = mv n (trm Z) (mv n (trm V) (\<lambda>k. of_int (w k))) i"
      unfolding T [OF that] by (rule mv_cong) (simp_all add: U)
    then show ?thesis using is_inv_mv(1) [OF I that] by simp
  qed
  have UT: "U (T w) i = w i" if "i < n" for w i
  proof -
    have "real_of_int (U (T w) i) = mv n (trm V) (mv n (trm Z) (\<lambda>k. of_int (w k))) i"
      unfolding U [OF that] by (rule mv_cong) (simp_all add: T)
    then show ?thesis using is_inv_mv(2) [OF I that] by simp
  qed
  define q where "q = vdist n L0 D0 a"
  define q1 where "q1 = vdist n L D z"
  have sq: "sqdist n Q (\<lambda>i. of_int (w i) - a i) v \<longleftrightarrow> v = q w" for w v
    unfolding q_def by (rule LD_dst [OF LD sym])
  have qT: "q1 (T w) = q w" for w
  proof -
    have "sqdist n (ltdl n L D) (\<lambda>i. of_int (T w i) - z i) (q1 (T w))"
      unfolding q1_def by (rule dst_sqdist [OF u D refl])
    then have "sqdist n (ltdl n L D) (mv n (trm Z) (\<lambda>k. of_int (w k) - a k)) (q1 (T w))"
      by (rule sqdist_cong [rotated 2]) (simp_all add: T z mv_diff)
    then have "sqdist n (ltdl n L0 D0) (\<lambda>k. of_int (w k) - a k) (q1 (T w))" by (rule sqdist_basis [OF B V(2)])
    then have "sqdist n Q (\<lambda>k. of_int (w k) - a k) (q1 (T w))"
      by (rule sqdist_cong [rotated 2]) (simp_all add: symmetric_ltdl [OF sym LDR(3)])
    then show ?thesis using sq by simp
  qed
  have cU: "U w i = U w' i" if "\<And>i. i < n \<Longrightarrow> w i = w' i" "i < n" for w w' i
  proof -
    have "real_of_int (U w i) = of_int (U w' i)" unfolding U [OF that(2)] by (rule mv_cong) (use that in simp_all)
    then show ?thesis by simp
  qed
  have cT: "T w i = T w' i" if "\<And>i. i < n \<Longrightarrow> w i = w' i" "i < n" for w w' i
  proof -
    have "real_of_int (T w i) = of_int (T w' i)" unfolding T [OF that(2)] by (rule mv_cong) (use that in simp_all)
    then show ?thesis by simp
  qed
  have c1: "q1 w = q1 w'" if "\<And>i. i < n \<Longrightarrow> w i = w' i" for w w'
    unfolding q1_def by (rule dst_cong) (simp add: that)
  have Fc: "F i c = of_int (U w i)" if c: "c < m" and w: "\<forall>i<n. E i c = of_int (w i)" and i: "i < n" for w c i
  proof -
    have "mv n (trm Z) (\<lambda>k. F k c) r = of_int (w r)" if "r < n" for r
      using solve_value [OF F that c] w that by simp
    then have "mv n (trm V) (mv n (trm Z) (\<lambda>k. F k c)) i = mv n (trm V) (\<lambda>k. of_int (w k)) i"
      by (intro mv_cong) simp_all
    then show ?thesis using is_inv_mv(2) [OF I i] U [OF i] by simp
  qed
  have "best n m q F s" if e: "enough n m q"
  proof -
    have "enough n m q1" by (rule enough_image [where T = T and U = U and q = q, OF e qT UT cU])
    then have "best n m q1 E s"
      using search_result [OF S [folded z_def] D n m] unfolding q1_def by blast
    then show ?thesis 
      by (rule best_image [where T = T and U = U and q = q and ?q1.0 = q1, OF _ m qT TU UT c1 cU cT Fc])
  qed
  then show ?thesis using sq by blast
qed

end
