(* ===== verification/Concrete3.thy ===== *)
theory Concrete3
  imports Concrete2 LambdaIls
begin

text \<open>Small concrete inputs of the estimators, for the witnesses of the properties.\<close>

section \<open>Estimators\<close>

lemma matinv_exists: "is_inv n A B \<Longrightarrow> \<exists>C. matinv A n = Some C"
  using matinv_cases [where A = A and n = n] by (cases "matinv A n") auto

lemma is_inv_1: "is_inv (Suc 0) A B \<longleftrightarrow> A 0 0 * B 0 0 = 1"
  by (auto simp: is_inv_def mat_prod_def eye_def mult.commute)

definition lsq_y :: vec where "lsq_y = (\<lambda>i. 5)"

lemma lsq_example: "\<exists>x Q. lsq eye lsq_y 1 1 (\<lambda>i. 0) zeros = (0, x, Q)"
proof -
  have "\<exists>C. matinv (matmul ''NT'' 1 1 1 1 eye eye 0 zeros) 1 = Some C"
    by (rule matinv_exists [of _ _ eye]) (simp add: is_inv_1 matmul_NT mv_def eye_def zeros_def)
  then show ?thesis by (auto simp: lsq_def)
qed

definition kf_x :: vec where "kf_x = (\<lambda>i. 1)"
definition kf_v :: vec where "kf_v = (\<lambda>i. 2)"

lemma kf_states: "filter_states kf_x eye (Suc 0) = [0]"
  by (simp add: filter_states_def kf_x_def eye_def)

lemma kf_example: "\<exists>x' P'. kfilter zeros kf_x eye eye kf_v eye 1 1 = (0, x', P')"
proof -
  let ?P = "\<lambda>i j. eye ([0] ! i) ([0] ! j)" and ?H = "\<lambda>i j. eye ([0] ! i) j"
  let ?Q = "matmul ''TN'' 1 1 1 1 ?H (matmul ''NN'' 1 1 1 1 ?P ?H 0 zeros) 1 eye"
  have "?Q 0 0 = 2" by (simp add: matmul_TN matmul_NN mv_def trm_def eye_def zeros_def)
  then have "\<exists>C. matinv ?Q 1 = Some C" by (intro matinv_exists [of _ _ "\<lambda>i j. 1 / 2"]) (simp add: is_inv_1)
  then show ?thesis by (auto simp: kfilter_def kf_states filter1_def Let_def simp del: put_apply)
qed

lemma kf_hyps: "symmetric 1 eye" "psd 1 eye" "is_inv 1 eye eye"
  by (simp_all add: symmetric_def psd_def inner_def mv_def is_inv_1 eye_def)

lemma kf_states_1: "[0] = filter_states kf_x eye 1"
  by (simp add: kf_states)

lemma kf_sub:
  "symmetric (length [0 :: nat]) (\<lambda>i j. eye ([0] ! i) ([0] ! j))" "psd (length [0 :: nat]) (\<lambda>i j. eye ([0] ! i) ([0] ! j))"
  "is_inv (length [0 :: nat]) (\<lambda>i j. eye ([0] ! i) ([0] ! j)) eye"
  by (simp_all add: symmetric_def psd_def inner_def mv_def is_inv_1 eye_def)

definition kf_mem :: mat where "kf_mem = (\<lambda>i j. 7)"

lemma kf_singular:
  "\<not> is_inv 1 (\<lambda>a b. (\<Sum>i<length [0 :: nat]. zeros ([0] ! i) a * (\<Sum>j<length [0 :: nat]. eye ([0] ! i) ([0] ! j) * zeros ([0] ! j) b)) + zeros a b) B"
  by (simp add: is_inv_1 zeros_def)

section \<open>Integer least squares\<close>

lemma LD_example: "\<exists>L D. LD 1 eye zeros (\<lambda>i. 0) = Some (L, D) \<and> D 0 = 1"
  by (simp add: LD_def LD_row_def eye_def zeros_def)

definition origin :: vec where "origin = (\<lambda>i. 0)"

lemma search_example:
  assumes "D 0 = 1" and "z 0 = 0"
  shows "\<exists>E s. search 1 1 L D z zeros origin = Some (E, s)"
proof -
  have L: "LOOPMAX = Suc (Suc (Suc 9997))" by (simp add: LOOPMAX_def)
  have R: "RND 0 = 0" by (simp add: RND_def)
  have "search_loop (Suc (Suc (Suc c))) 1 1 L D z (search_init 1 z zeros origin) \<noteq> None" for c
    using assms by (simp add: search_step_def search_init_def enter_def store_def next_z_def R SGN_def origin_def)
  from this [of 9997] show ?thesis unfolding search_def L by auto
qed

lemma lambda_example: "\<exists>F s. lambda zeros 1 1 origin eye zeros origin = Some (F, s)"
proof -
  obtain L D where LD: "LD 1 eye zeros (\<lambda>i. 0) = Some (L, D)" "D 0 = 1" using LD_example by blast
  have red: "reduction 1 L D eye = Some (L, D, eye)" by (simp add: reduction_def red_loop.simps)
  let ?z = "\<lambda>i. matmul ''TN'' 1 1 1 1 eye (colm origin) 0 zeros i 0"
  have "?z 0 = 0" by (simp add: matmul_TN mv_def origin_def colm_def zeros_def)
  then obtain E s where S: "search 1 1 L D ?z zeros origin = Some (E, s)" using search_example [of D ?z L, OF LD(2)] by blast
  obtain C where "matinv eye 1 = Some C" using matinv_exists [OF kf_hyps(3)] by blast
  then show ?thesis using LD(1) red S by (simp add: lambda_def Let_def solve_def)
qed

lemma symmetric_eye: "symmetric n eye"
  by (auto simp: symmetric_def eye_def)

end
