(* ===== verification/Ephem.thy ===== *)
theory Ephem
  imports SbasCorr RawGps Mat
begin

text \<open>
  Satellite positions and clocks (\<^verbatim>\<open>ephemeris.c\<close>): orbits from almanacs and broadcast ephemerides,
  the choice of an ephemeris, and the corrections of SBAS and SSR.

  \<open>None\<close> stands for a loop that does not end (the integration of GLONASS orbits).  The antenna offset
  \<^verbatim>\<open>satantoff\<close> and the precise ephemeris \<^verbatim>\<open>peph2pos\<close> (\<^verbatim>\<open>preceph.c\<close>) are members of the environment,
  as are the static selection of ephemerides and the content of the local variables of \<^verbatim>\<open>ephpos\<close>
  before they are written.
\<close>

section \<open>Constants\<close>

definition RE_GLO :: double where "RE_GLO = 6378136"
definition MU_GPS :: double where "MU_GPS = 3.9860050 * 10 ^ 14"
definition MU_GLO :: double where "MU_GLO = 3.9860044 * 10 ^ 14"
definition MU_GAL :: double where "MU_GAL = 3.986004418 * 10 ^ 14"
definition MU_CMP :: double where "MU_CMP = 3.986004418 * 10 ^ 14"
definition J2_GLO :: double where "J2_GLO = 1.0826257 / 10 ^ 3"
definition OMGE :: double where "OMGE = 7.2921151467 / 10 ^ 5"
definition OMGE_GLO :: double where "OMGE_GLO = 7.292115 / 10 ^ 5"
definition OMGE_GAL :: double where "OMGE_GAL = 7.2921151467 / 10 ^ 5"
definition OMGE_CMP :: double where "OMGE_CMP = 7.292115 / 10 ^ 5"
definition SIN_5 :: double where "SIN_5 = - 0.0871557427476582"
definition COS_5 :: double where "COS_5 = 0.9961946980917456"
definition ERREPH_GLO :: double where "ERREPH_GLO = 5"
definition TSTEP :: double where "TSTEP = 60"
definition RTOL_KEPLER :: double where "RTOL_KEPLER = 1 / 10 ^ 13"
definition DEFURASSR :: double where "DEFURASSR = 0.15"
definition MAXECORSSR :: double where "MAXECORSSR = 10"
definition MAXCCORSSR :: double where "MAXCCORSSR = 1 / 10 ^ 6 * CLIGHT"
definition MAXAGESSR :: double where "MAXAGESSR = 90"
definition MAXAGESSR_HRCLK :: double where "MAXAGESSR_HRCLK = 10"
definition STD_BRDCCLK :: double where "STD_BRDCCLK = 30"
definition STD_GAL_NAPA :: double where "STD_GAL_NAPA = 500"
definition MAX_ITER_KEPLER :: nat where "MAX_ITER_KEPLER = 30"
definition MAXDTOE :: double where "MAXDTOE = 7200"
definition MAXDTOE_QZS :: double where "MAXDTOE_QZS = 7200"
definition MAXDTOE_GAL :: double where "MAXDTOE_GAL = 14400"
definition MAXDTOE_CMP :: double where "MAXDTOE_CMP = 21600"
definition MAXDTOE_GLO :: double where "MAXDTOE_GLO = 1800"
definition MAXDTOE_IRN :: double where "MAXDTOE_IRN = 7200"
definition MAXDTOE_SBS :: double where "MAXDTOE_SBS = 360"

definition SQR :: "double \<Rightarrow> double" where "SQR x = x * x"

text \<open>The library function \<^verbatim>\<open>atan2\<close>.\<close>

definition atan2 :: "double \<Rightarrow> double \<Rightarrow> double" where "atan2 y x = Arg (Complex x y)"

section \<open>State\<close>

text \<open>What one satellite has in the arrays \<^verbatim>\<open>rs\<close>, \<^verbatim>\<open>dts\<close>, \<^verbatim>\<open>var\<close>, \<^verbatim>\<open>svh\<close>.\<close>

record satst =
  st_rs :: "double list"
  st_dts :: "double list"
  st_var :: double
  st_svh :: int

text \<open>The members of the navigation data in use.\<close>

record ephnav =
  en_eph :: "eph list"
  en_geph :: "geph list"
  en_seph :: "seph list"
  en_sbas :: sbsnav
  en_ssr :: "ssr list"

record penv =
  pe_sel :: "int list"
  pe_rst :: "double list"
  pe_dtst :: double
  pe_satantoff :: "gtime \<Rightarrow> double list \<Rightarrow> int \<Rightarrow> double list"
  pe_peph2pos :: "gtime \<Rightarrow> int \<Rightarrow> satst \<Rightarrow> bool \<times> satst"

section \<open>Variances\<close>

definition var_uraeph :: "int \<Rightarrow> int \<Rightarrow> double" where
  "var_uraeph sys ura =
    (let ura_value = [2.4, 3.4, 4.85, 6.85, 9.65, 13.65, 24, 48, 96, 192, 384, 768, 1536, 3072, 6144]
     in if sys = SYS_GAL
        then if ura \<le> 49 then SQR (of_int ura * 0.01)
          else if ura \<le> 74 then SQR (0.5 + of_int (ura - 50) * 0.02)
          else if ura \<le> 99 then SQR (1 + of_int (ura - 75) * 0.04)
          else if ura \<le> 125 then SQR (2 + of_int (ura - 100) * 0.16)
          else SQR STD_GAL_NAPA
        else if ura < 0 \<or> 14 < ura then SQR 6144 else SQR (ura_value ! nat ura))"

definition var_urassr :: "int \<Rightarrow> double" where
  "var_urassr ura =
    (if ura \<le> 0 then SQR DEFURASSR
     else if ura \<ge> 63 then SQR 5.4665
     else SQR ((3 ^ nat (ura div 8 mod 8) * (1 + of_int (ura mod 8) / 4) - 1) / 10 ^ 3))"

section \<open>Kepler's equation\<close>

text \<open>The loop with the number of rounds left; None when no round is left.\<close>

fun kepler_loop :: "nat \<Rightarrow> double \<Rightarrow> double \<Rightarrow> double \<Rightarrow> double \<Rightarrow> double option" where
  "kepler_loop 0 M e E Ek = None"
| "kepler_loop (Suc c) M e E Ek =
    (if \<bar>E - Ek\<bar> > RTOL_KEPLER then kepler_loop c M e (E - (E - e * sin E - M) / (1 - e * cos E)) E
     else Some E)"

definition kepler :: "double \<Rightarrow> double \<Rightarrow> double option" where
  "kepler M e = kepler_loop MAX_ITER_KEPLER M e M 0"

definition put3 :: "double list \<Rightarrow> double \<Rightarrow> double \<Rightarrow> double \<Rightarrow> double list" where
  "put3 rs x y z = rs[0 := x, 1 := y, 2 := z]"

section \<open>Orbits\<close>

definition alm2pos :: "gtime \<Rightarrow> alm \<Rightarrow> double list \<times> double \<Rightarrow> double list \<times> double" where
  "alm2pos time alm = (\<lambda>(rs, dts).
    let tk = timediff time (al_toa alm)
    in if al_A alm \<le> 0 then (put3 rs 0 0 0, 0)
       else
         let mu = (if fst (satsys (al_sat alm)) = SYS_GAL then MU_GAL else MU_GPS);
             M = al_M0 alm + sqrt (mu / (al_A alm * al_A alm * al_A alm)) * tk
         in case kepler M (al_e alm) of None \<Rightarrow> (rs, dts)
            | Some E \<Rightarrow>
              let sinE = sin E; cosE = cos E;
                  u = atan2 (sqrt (1 - al_e alm * al_e alm) * sinE) (cosE - al_e alm) + al_omg alm;
                  r = al_A alm * (1 - al_e alm * cosE);
                  i = al_i0 alm;
                  Om = al_OMG0 alm + (al_OMGd alm - OMGE) * tk - OMGE * al_toas alm;
                  x = r * cos u; y = r * sin u; sinO = sin Om; cosO = cos Om; cosi = cos i
              in (put3 rs (x * cosO - y * cosi * sinO) (x * sinO + y * cosi * cosO) (y * sin i),
                  al_f0 alm + al_f1 alm * tk))"

definition eph2clk :: "gtime \<Rightarrow> eph \<Rightarrow> double" where
  "eph2clk time eph =
    (let ts = timediff time (eph_toc eph);
         t = fold (\<lambda>_ t. ts - (eph_f0 eph + eph_f1 eph * t + eph_f2 eph * t * t)) [0..<2] ts
     in eph_f0 eph + eph_f1 eph * t + eph_f2 eph * t * t)"

text \<open>Position, clock bias and variance.\<close>

definition eph2pos :: "gtime \<Rightarrow> eph \<Rightarrow> double list \<times> double \<times> double \<Rightarrow> double list \<times> double \<times> double" where
  "eph2pos time eph = (\<lambda>(rs, dts, var).
    if eph_A eph \<le> 0 then (put3 rs 0 0 0, 0, 0)
    else
      let tk = timediff time (eph_toe eph);
          (sys, prn) = satsys (eph_sat eph);
          (mu, omge) = (if sys = SYS_GAL then (MU_GAL, OMGE_GAL) else if sys = SYS_CMP then (MU_CMP, OMGE_CMP)
                        else (MU_GPS, OMGE));
          M = eph_M0 eph + (sqrt (mu / (eph_A eph * eph_A eph * eph_A eph)) + eph_deln eph) * tk
      in case kepler M (eph_e eph) of None \<Rightarrow> (rs, dts, var)
         | Some E \<Rightarrow>
           let sinE = sin E; cosE = cos E;
               u = atan2 (sqrt (1 - eph_e eph * eph_e eph) * sinE) (cosE - eph_e eph) + eph_omg eph;
               r = eph_A eph * (1 - eph_e eph * cosE);
               i = eph_i0 eph + eph_idot eph * tk;
               sin2u = sin (2 * u); cos2u = cos (2 * u);
               u = u + (eph_cus eph * sin2u + eph_cuc eph * cos2u);
               r = r + (eph_crs eph * sin2u + eph_crc eph * cos2u);
               i = i + (eph_cis eph * sin2u + eph_cic eph * cos2u);
               x = r * cos u; y = r * sin u; cosi = cos i;
               rs = (if sys = SYS_CMP \<and> (prn \<le> 5 \<or> prn \<ge> 59)
                 then
                   let Om = eph_OMG0 eph + eph_OMGd eph * tk - omge * eph_toes eph;
                       sinO = sin Om; cosO = cos Om;
                       xg = x * cosO - y * cosi * sinO;
                       yg = x * sinO + y * cosi * cosO;
                       zg = y * sin i;
                       sino = sin (omge * tk); coso = cos (omge * tk)
                   in put3 rs (xg * coso + yg * sino * COS_5 + zg * sino * SIN_5)
                        (- xg * sino + yg * coso * COS_5 + zg * coso * SIN_5) (- yg * SIN_5 + zg * COS_5)
                 else
                   let Om = eph_OMG0 eph + (eph_OMGd eph - omge) * tk - omge * eph_toes eph;
                       sinO = sin Om; cosO = cos Om
                   in put3 rs (x * cosO - y * cosi * sinO) (x * sinO + y * cosi * cosO) (y * sin i));
               tk = timediff time (eph_toc eph);
               dts = eph_f0 eph + eph_f1 eph * tk + eph_f2 eph * tk * tk;
               dts = dts - 2 * sqrt (mu * eph_A eph) * eph_e eph * sinE / SQR CLIGHT
           in (rs, dts, var_uraeph sys (eph_sva eph)))"

section \<open>GLONASS\<close>

definition deq :: "double list \<Rightarrow> double list \<Rightarrow> double list" where
  "deq x acc =
    (let r2 = dot (\<lambda>i. x ! i) (\<lambda>i. x ! i) 3; r3 = r2 * sqrt r2; omg2 = SQR OMGE_GLO
     in if r2 \<le> 0 then [0, 0, 0, 0, 0, 0]
        else
          let a = 1.5 * J2_GLO * MU_GLO * SQR RE_GLO / r2 / r3;
              b = 5 * x ! 2 * x ! 2 / r2;
              c = - MU_GLO / r3 - a * (1 - b)
          in [x ! 3, x ! 4, x ! 5,
              (c + omg2) * x ! 0 + 2 * OMGE_GLO * x ! 4 + acc ! 0,
              (c + omg2) * x ! 1 - 2 * OMGE_GLO * x ! 3 + acc ! 1,
              (c - 2 * a) * x ! 2 + acc ! 2])"

definition glorbit :: "double \<Rightarrow> double list \<Rightarrow> double list \<Rightarrow> double list" where
  "glorbit t x acc =
    (let k1 = deq x acc; w = map (\<lambda>i. x ! i + k1 ! i * t / 2) [0..<6];
         k2 = deq w acc; w = map (\<lambda>i. x ! i + k2 ! i * t / 2) [0..<6];
         k3 = deq w acc; w = map (\<lambda>i. x ! i + k3 ! i * t) [0..<6];
         k4 = deq w acc
     in map (\<lambda>i. x ! i + (k1 ! i + 2 * k2 ! i + 2 * k3 ! i + k4 ! i) * t / 6) [0..<6])"

definition geph2clk :: "gtime \<Rightarrow> geph \<Rightarrow> double" where
  "geph2clk time geph =
    (let ts = timediff time (ge_toe geph);
         t = fold (\<lambda>_ t. ts - (- ge_taun geph + ge_gamn geph * t)) [0..<2] ts
     in - ge_taun geph + ge_gamn geph * t)"

partial_function (option) glo_loop :: "double \<Rightarrow> double \<Rightarrow> double list \<Rightarrow> double list \<Rightarrow> double list option" where
  "glo_loop t tt x acc =
    (if \<bar>t\<bar> > 1 / 10 ^ 9
     then let tt = (if \<bar>t\<bar> < TSTEP then t else tt) in glo_loop (t - tt) tt (glorbit tt x acc) acc
     else Some x)"

definition geph2pos :: "gtime \<Rightarrow> geph \<Rightarrow> double list \<times> double \<times> double \<Rightarrow> (double list \<times> double \<times> double) option" where
  "geph2pos time geph = (\<lambda>(rs, dts, var).
    let t = timediff time (ge_toe geph);
        dts = - ge_taun geph + ge_gamn geph * t;
        x = take 3 (ge_pos geph) @ take 3 (ge_vel geph)
    in do { x \<leftarrow> glo_loop t (if t < 0 then - TSTEP else TSTEP) x (ge_acc geph);
            Some (put3 rs (x ! 0) (x ! 1) (x ! 2), dts, SQR ERREPH_GLO) })"

section \<open>SBAS\<close>

definition seph2clk :: "gtime \<Rightarrow> seph \<Rightarrow> double" where
  "seph2clk time seph =
    (let t = timediff time (se_t0 seph);
         t = fold (\<lambda>_ t. t - (se_af0 seph + se_af1 seph * t)) [0..<2] t
     in se_af0 seph + se_af1 seph * t)"

definition seph2pos :: "gtime \<Rightarrow> seph \<Rightarrow> double list \<times> double \<times> double \<Rightarrow> double list \<times> double \<times> double" where
  "seph2pos time seph = (\<lambda>(rs, dts, var).
    let t = timediff time (se_t0 seph);
        p = (\<lambda>i. se_pos seph ! i + se_vel seph ! i * t + se_acc seph ! i * t * t / 2)
    in (put3 rs (p 0) (p 1) (p 2), se_af0 seph + se_af1 seph * t, var_uraeph SYS_SBS (se_sva seph)))"

section \<open>Selection\<close>

text \<open>The place of a system in the static array.\<close>

definition sel_place :: "int \<Rightarrow> nat option" where
  "sel_place sys =
    (if sys = SYS_GPS then Some 0 else if sys = SYS_GLO then Some 1 else if sys = SYS_GAL then Some 2
     else if sys = SYS_QZS then Some 3 else if sys = SYS_CMP then Some 4 else if sys = SYS_IRN then Some 5
     else if sys = SYS_SBS then Some 6 else None)"

definition setseleph :: "int \<Rightarrow> int \<Rightarrow> int list \<Rightarrow> int list" where
  "setseleph sys sel eph_sel = (case sel_place sys of None \<Rightarrow> eph_sel | Some k \<Rightarrow> eph_sel[k := sel])"

definition getseleph :: "int \<Rightarrow> int list \<Rightarrow> int" where
  "getseleph sys eph_sel = (case sel_place sys of None \<Rightarrow> 0 | Some k \<Rightarrow> eph_sel ! k)"

text \<open>
  The loop of the three selections: entries to pass over (\<open>rej\<close>), the first one within \<open>tmax\<close> when an
  issue of data is given (\<open>fst_hit\<close>), otherwise the one closest in time.
\<close>

fun sel_loop :: "gtime \<Rightarrow> double \<Rightarrow> bool \<Rightarrow> ('a \<Rightarrow> bool) \<Rightarrow> ('a \<Rightarrow> gtime) \<Rightarrow> 'a list \<Rightarrow> double \<Rightarrow> 'a option \<Rightarrow> 'a option" where
  "sel_loop time tmax fst_hit rej toe [] tmin j = (if fst_hit then None else j)"
| "sel_loop time tmax fst_hit rej toe (e # es) tmin j =
    (if rej e then sel_loop time tmax fst_hit rej toe es tmin j
     else let t = \<bar>timediff (toe e) time\<bar> in
       if t > tmax then sel_loop time tmax fst_hit rej toe es tmin j
       else if fst_hit then Some e
       else if t \<le> tmin then sel_loop time tmax fst_hit rej toe es t (Some e)
       else sel_loop time tmax fst_hit rej toe es tmin j)"

definition seleph_tmax :: "int \<Rightarrow> double" where
  "seleph_tmax sys =
    (if sys = SYS_GPS then MAXDTOE + 1 else if sys = SYS_GAL then MAXDTOE_GAL
     else if sys = SYS_QZS then MAXDTOE_QZS + 1 else if sys = SYS_CMP then MAXDTOE_CMP + 1
     else if sys = SYS_IRN then MAXDTOE_IRN + 1 else MAXDTOE + 1)"

definition seleph_skip :: "int list \<Rightarrow> gtime \<Rightarrow> int \<Rightarrow> int \<Rightarrow> eph \<Rightarrow> bool" where
  "seleph_skip eph_sel time sat iode e \<longleftrightarrow>
    eph_sat e \<noteq> sat \<or> iode \<ge> 0 \<and> eph_iode e \<noteq> iode \<or>
    fst (satsys sat) = SYS_GAL \<and>
      (let sel = getseleph SYS_GAL eph_sel
       in sel = 0 \<and> \<not> bit (eph_code e) 9 \<or> sel = 1 \<and> \<not> bit (eph_code e) 8 \<or> timediff (eph_toe e) time \<ge> 0)"

definition seleph :: "int list \<Rightarrow> gtime \<Rightarrow> int \<Rightarrow> int \<Rightarrow> eph list \<Rightarrow> eph option" where
  "seleph eph_sel time sat iode es =
    (let tmax = seleph_tmax (fst (satsys sat))
     in sel_loop time tmax (iode \<ge> 0) (seleph_skip eph_sel time sat iode) eph_toe es (tmax + 1) None)"

definition selgeph :: "gtime \<Rightarrow> int \<Rightarrow> int \<Rightarrow> geph list \<Rightarrow> geph option" where
  "selgeph time sat iode es =
    sel_loop time MAXDTOE_GLO (iode \<ge> 0) (\<lambda>e. ge_sat e \<noteq> sat \<or> iode \<ge> 0 \<and> ge_iode e \<noteq> iode) ge_toe es
      (MAXDTOE_GLO + 1) None"

definition selseph :: "gtime \<Rightarrow> int \<Rightarrow> seph list \<Rightarrow> seph option" where
  "selseph time sat es =
    sel_loop time MAXDTOE_SBS False (\<lambda>e. se_sat e \<noteq> sat) se_t0 es (MAXDTOE_SBS + 1) None"

section \<open>Clock and position of a satellite\<close>

definition kepler_sys :: "int \<Rightarrow> bool" where
  "kepler_sys sys \<longleftrightarrow> sys = SYS_GPS \<or> sys = SYS_GAL \<or> sys = SYS_QZS \<or> sys = SYS_CMP \<or> sys = SYS_IRN"

text \<open>None for the status 0.\<close>

definition ephclk :: "penv \<Rightarrow> gtime \<Rightarrow> gtime \<Rightarrow> int \<Rightarrow> ephnav \<Rightarrow> double option" where
  "ephclk env time teph sat nav =
    (let sys = fst (satsys sat) in
     if kepler_sys sys then map_option (eph2clk time) (seleph (pe_sel env) teph sat (-1) (en_eph nav))
     else if sys = SYS_GLO then map_option (geph2clk time) (selgeph teph sat (-1) (en_geph nav))
     else if sys = SYS_SBS then map_option (seph2clk time) (selseph teph sat (en_seph nav))
     else None)"

text \<open>
  The chosen ephemeris as a function that computes position, clock and variance at a time, with its
  health.
\<close>

definition eph_model :: "penv \<Rightarrow> gtime \<Rightarrow> int \<Rightarrow> ephnav \<Rightarrow> int \<Rightarrow>
    ((gtime \<Rightarrow> double list \<times> double \<times> double \<Rightarrow> (double list \<times> double \<times> double) option) \<times> int) option" where
  "eph_model env teph sat nav iode =
    (let sys = fst (satsys sat) in
     if kepler_sys sys
     then map_option (\<lambda>e. (\<lambda>t s. Some (eph2pos t e s), eph_svh e)) (seleph (pe_sel env) teph sat iode (en_eph nav))
     else if sys = SYS_GLO then map_option (\<lambda>e. (\<lambda>t s. geph2pos t e s, ge_svh e)) (selgeph teph sat iode (en_geph nav))
     else if sys = SYS_SBS
     then map_option (\<lambda>e. (\<lambda>t s. Some (seph2pos t e s), se_svh e)) (selseph teph sat (en_seph nav))
     else None)"

definition ephpos :: "penv \<Rightarrow> gtime \<Rightarrow> gtime \<Rightarrow> int \<Rightarrow> ephnav \<Rightarrow> int \<Rightarrow> satst \<Rightarrow> (bool \<times> satst) option" where
  "ephpos env time teph sat nav iode st =
    (let st = st\<lparr>st_svh := -1\<rparr>; tt = 1 / 10 ^ 3 in
     case eph_model env teph sat nav iode of None \<Rightarrow> Some (False, st)
     | Some (pos, svh) \<Rightarrow>
       do { (rs, dts, var) \<leftarrow> pos time (st_rs st, st_dts st ! 0, st_var st);
            (rst, dtst, var) \<leftarrow> pos (timeadd time tt) (pe_rst env, pe_dtst env, var);
            let rs = fold (\<lambda>i rs. rs[i + 3 := (rst ! i - rs ! i) / tt]) [0..<3] rs;
            Some (True, st\<lparr>st_rs := rs, st_dts := (st_dts st)[0 := dts, 1 := (dtst - dts) / tt], st_var := var,
                           st_svh := svh\<rparr>) })"

text \<open>The correction of a satellite in the list of SBAS, by the first entry of the satellite.\<close>

definition sbs_find :: "int \<Rightarrow> sbssat \<Rightarrow> sbssatp option" where
  "sbs_find sat ss = find (\<lambda>p. sp_sat p = sat) (take (ss_nsat ss) (ss_sat ss))"

definition satpos_sbas :: "penv \<Rightarrow> gtime \<Rightarrow> gtime \<Rightarrow> int \<Rightarrow> ephnav \<Rightarrow> satst \<Rightarrow> (bool \<times> satst) option" where
  "satpos_sbas env time teph sat nav st =
    (case sbs_find sat (sn_sat (en_sbas nav)) of
       None \<Rightarrow> do { (ok, st) \<leftarrow> ephpos env time teph sat nav (-1) st; Some (False, st\<lparr>st_svh := -1\<rparr>) }
     | Some p \<Rightarrow>
       do { (ok, st) \<leftarrow> ephpos env time teph sat nav (lc_iode (sp_lcorr p)) st;
            if \<not> ok then Some (False, st)
            else case sbssatcorr time sat (en_sbas nav) (st_rs st) (st_dts st ! 0) of
                None \<Rightarrow> Some (False, st\<lparr>st_svh := -1\<rparr>)
              | Some (rs, dts, var) \<Rightarrow>
                  Some (True, st\<lparr>st_rs := rs, st_dts := (st_dts st)[0 := dts], st_var := var\<rparr>) })"

text \<open>The corrections of SSR at a time: orbit and clock, or None and whether the health is set to -1.\<close>

definition ssr_corr :: "gtime \<Rightarrow> ssr \<Rightarrow> (double list \<times> double, bool) sum" where
  "ssr_corr time ssr =
    (if gt_time (ssr_t0 ssr ! 0) = 0 then Inr False
     else if gt_time (ssr_t0 ssr ! 1) = 0 then Inr False
     else if ssr_iod ssr ! 0 \<noteq> ssr_iod ssr ! 1 then Inr True
     else
       let t1 = timediff time (ssr_t0 ssr ! 0); t2 = timediff time (ssr_t0 ssr ! 1);
           t3 = timediff time (ssr_t0 ssr ! 2)
       in if \<bar>t1\<bar> > MAXAGESSR \<or> \<bar>t2\<bar> > MAXAGESSR then Inr True
          else
            let t1 = (if ssr_udi ssr ! 0 \<ge> 1 then t1 - ssr_udi ssr ! 0 / 2 else t1);
                t2 = (if ssr_udi ssr ! 1 \<ge> 1 then t2 - ssr_udi ssr ! 1 / 2 else t2);
                deph = map (\<lambda>i. ssr_deph ssr ! i + ssr_ddeph ssr ! i * t1) [0..<3];
                dclk = ssr_dclk ssr ! 0 + ssr_dclk ssr ! 1 * t2 + ssr_dclk ssr ! 2 * t2 * t2;
                dclk = (if ssr_iod ssr ! 0 = ssr_iod ssr ! 2 \<and> gt_time (ssr_t0 ssr ! 2) \<noteq> 0 \<and> \<bar>t3\<bar> < MAXAGESSR_HRCLK
                        then dclk + ssr_hrclk ssr else dclk)
            in if norm_v (\<lambda>i. deph ! i) 3 > MAXECORSSR \<or> \<bar>dclk\<bar> > MAXCCORSSR then Inr True else Inl (deph, dclk))"

text \<open>The clock by the parameters of the ephemeris; None for the status 0.\<close>

definition ssr_clock :: "penv \<Rightarrow> gtime \<Rightarrow> gtime \<Rightarrow> int \<Rightarrow> ephnav \<Rightarrow> int \<Rightarrow> satst \<Rightarrow> satst option" where
  "ssr_clock env time teph sat nav iode st =
    (let sys = fst (satsys sat) in
     if sys = SYS_GPS \<or> sys = SYS_GAL \<or> sys = SYS_QZS \<or> sys = SYS_CMP
     then case seleph (pe_sel env) teph sat iode (en_eph nav) of None \<Rightarrow> None
       | Some eph \<Rightarrow>
         let tk = timediff time (eph_toc eph);
             d0 = eph_f0 eph + eph_f1 eph * tk + eph_f2 eph * tk * tk;
             d1 = eph_f1 eph + 2 * eph_f2 eph * tk;
             d0 = d0 - 2 * dot (\<lambda>i. st_rs st ! i) (\<lambda>i. st_rs st ! (i + 3)) 3 / CLIGHT / CLIGHT
         in Some (st\<lparr>st_dts := (st_dts st)[0 := d0, 1 := d1]\<rparr>)
     else Some st)"

definition satpos_ssr :: "penv \<Rightarrow> gtime \<Rightarrow> gtime \<Rightarrow> int \<Rightarrow> ephnav \<Rightarrow> bool \<Rightarrow> satst \<Rightarrow> (bool \<times> satst) option" where
  "satpos_ssr env time teph sat nav opt st =
    (let ssr = en_ssr nav ! nat (sat - 1) in
     case ssr_corr time ssr of Inr bad \<Rightarrow> Some (False, if bad then st\<lparr>st_svh := -1\<rparr> else st)
     | Inl (deph, dclk) \<Rightarrow>
       do { (ok, st) \<leftarrow> ephpos env time teph sat nav (ssr_iode ssr) st;
            if \<not> ok then Some (False, st)
            else case ssr_clock env time teph sat nav (ssr_iode ssr) st of None \<Rightarrow> Some (False, st)
              | Some st \<Rightarrow>
                let r = (\<lambda>i. st_rs st ! i); v = (\<lambda>i. st_rs st ! (i + 3))
                in case normv3 v (\<lambda>i. 0) of None \<Rightarrow> Some (False, st)
                   | Some ea \<Rightarrow> (case normv3 (cross3 r v (\<lambda>i. 0)) (\<lambda>i. 0) of
                       None \<Rightarrow> Some (False, st\<lparr>st_svh := -1\<rparr>)
                     | Some ec \<Rightarrow>
                       let er = cross3 ea ec (\<lambda>i. 0);
                           dant = (if opt then pe_satantoff env time (st_rs st) sat else [0, 0, 0]);
                           rs = fold (\<lambda>i rs. rs[i := rs ! i + (- (er i * deph ! 0 + ea i * deph ! 1 + ec i * deph ! 2) + dant ! i)])
                                  [0..<3] (st_rs st)
                       in Some (True, st\<lparr>st_rs := rs, st_dts := (st_dts st)[0 := st_dts st ! 0 + dclk / CLIGHT],
                                          st_var := var_urassr (ssr_ura ssr)\<rparr>)) })"

definition EPHOPT_BRDC :: int where "EPHOPT_BRDC = 0"
definition EPHOPT_PREC :: int where "EPHOPT_PREC = 1"
definition EPHOPT_SBAS :: int where "EPHOPT_SBAS = 2"
definition EPHOPT_SSRAPC :: int where "EPHOPT_SSRAPC = 3"
definition EPHOPT_SSRCOM :: int where "EPHOPT_SSRCOM = 4"

definition satpos :: "penv \<Rightarrow> gtime \<Rightarrow> gtime \<Rightarrow> int \<Rightarrow> int \<Rightarrow> ephnav \<Rightarrow> satst \<Rightarrow> (bool \<times> satst) option" where
  "satpos env time teph sat ephopt nav st =
    (let st = st\<lparr>st_svh := 0\<rparr> in
     if ephopt = EPHOPT_BRDC then ephpos env time teph sat nav (-1) st
     else if ephopt = EPHOPT_SBAS then satpos_sbas env time teph sat nav st
     else if ephopt = EPHOPT_SSRAPC then satpos_ssr env time teph sat nav False st
     else if ephopt = EPHOPT_SSRCOM then satpos_ssr env time teph sat nav True st
     else if ephopt = EPHOPT_PREC
     then case pe_peph2pos env time sat st of (ok, st) \<Rightarrow> Some (ok, if ok then st else st\<lparr>st_svh := -1\<rparr>)
     else Some (False, st\<lparr>st_svh := -1\<rparr>))"

section \<open>All satellites of an epoch\<close>

definition first_pr :: "obsd \<Rightarrow> double option" where
  "first_pr ob = find (\<lambda>p. p \<noteq> 0) (map (\<lambda>j. ob_P ob ! j) [0..<NFREQ])"

text \<open>The arrays of the output, as a list with an entry for each observation.\<close>

definition satpos_obs :: "penv \<Rightarrow> gtime \<Rightarrow> ephnav \<Rightarrow> int \<Rightarrow> nat \<Rightarrow> obsd \<Rightarrow> satst list \<Rightarrow> satst list option" where
  "satpos_obs env teph nav ephopt i ob sts =
    (let sts = sts[i := \<lparr>st_rs = replicate 6 0, st_dts = [0, 0], st_var = 0, st_svh = 0\<rparr>] in
     case first_pr ob of None \<Rightarrow> Some sts
     | Some pr \<Rightarrow>
       let time = timeadd (ob_time ob) (- pr / CLIGHT) in
       case ephclk env time teph (ob_sat ob) nav of None \<Rightarrow> Some sts
       | Some dt \<Rightarrow>
         let time = timeadd time (- dt) in
         do { (ok, st) \<leftarrow> satpos env time teph (ob_sat ob) ephopt nav (sts ! i);
              let sts = sts[i := st];
              if \<not> ok then Some sts
              else if st_dts st ! 0 = 0
              then case ephclk env time teph (ob_sat ob) nav of None \<Rightarrow> Some sts
                | Some dts \<Rightarrow>
                  let sts = sts[i := st\<lparr>st_dts := [dts, 0]\<rparr>]
                  in Some (sts[0 := (sts ! 0)\<lparr>st_var := SQR STD_BRDCCLK\<rparr>])
              else Some sts })"

fun satposs_loop :: "penv \<Rightarrow> gtime \<Rightarrow> ephnav \<Rightarrow> int \<Rightarrow> nat \<Rightarrow> obsd list \<Rightarrow> satst list \<Rightarrow> satst list option" where
  "satposs_loop env teph nav ephopt i [] sts = Some sts"
| "satposs_loop env teph nav ephopt i (ob # obs) sts =
    do { sts \<leftarrow> satpos_obs env teph nav ephopt i ob sts; satposs_loop env teph nav ephopt (i + 1) obs sts }"

definition satposs :: "penv \<Rightarrow> gtime \<Rightarrow> obsd list \<Rightarrow> ephnav \<Rightarrow> int \<Rightarrow> satst list \<Rightarrow> satst list option" where
  "satposs env teph obs nav ephopt sts = satposs_loop env teph nav ephopt 0 (take (2 * MAXOBS) obs) sts"

end
