(* ===== verification/EphemFacts.thy ===== *)
theory EphemFacts
  imports Ephem
begin

text \<open>
  What the satellite positions are: the choice of an ephemeris, Kepler's equation and the orbit, the
  steps of the integration, the size of the corrections, and the arrays of an epoch.
\<close>

section \<open>Selection\<close>

definition in_reach :: "gtime \<Rightarrow> double \<Rightarrow> ('a \<Rightarrow> bool) \<Rightarrow> ('a \<Rightarrow> gtime) \<Rightarrow> 'a \<Rightarrow> bool" where
  "in_reach time tmax rej toe e \<longleftrightarrow> \<not> rej e \<and> \<bar>timediff (toe e) time\<bar> \<le> tmax"

lemma sel_loop_first:
  "sel_loop time tmax True rej toe es tmin j = find (in_reach time tmax rej toe) es"
  by (induction es arbitrary: tmin j) (auto simp: in_reach_def Let_def)

lemma sel_loop_closest:
  assumes "case j of None \<Rightarrow> tmax < tmin | Some e \<Rightarrow> tmin = \<bar>timediff (toe e) time\<bar>"
  shows "case sel_loop time tmax False rej toe es tmin j of
      None \<Rightarrow> j = None \<and> (\<forall>e\<in>List.set es. \<not> in_reach time tmax rej toe e)
    | Some e \<Rightarrow> (j = Some e \<or> e \<in> List.set es \<and> in_reach time tmax rej toe e) \<and>
        \<bar>timediff (toe e) time\<bar> \<le> tmin \<and>
        (\<forall>e'\<in>List.set es. in_reach time tmax rej toe e' \<longrightarrow> \<bar>timediff (toe e) time\<bar> \<le> \<bar>timediff (toe e') time\<bar>)"
  using assms
proof (induction es arbitrary: tmin j)
  case Nil
  then show ?case by (auto split: option.splits)
next
  case (Cons e es)
  let ?t = "\<bar>timediff (toe e) time\<bar>"
  consider "\<not> in_reach time tmax rej toe e" | "in_reach time tmax rej toe e" "?t \<le> tmin" | "in_reach time tmax rej toe e" "tmin < ?t"
    by linarith
  then show ?case
  proof cases
    case 1
    then have "sel_loop time tmax False rej toe (e # es) tmin j = sel_loop time tmax False rej toe es tmin j"
      by (auto simp: in_reach_def Let_def)
    then show ?thesis using Cons(1) [OF Cons(2)] 1 by (auto split: option.splits)
  next
    case 2
    then have "sel_loop time tmax False rej toe (e # es) tmin j = sel_loop time tmax False rej toe es ?t (Some e)"
      by (auto simp: in_reach_def Let_def)
    then show ?thesis using Cons(1) [where j = "Some e" and tmin = ?t] 2 by (auto split: option.splits)
  next
    case 3
    then have "sel_loop time tmax False rej toe (e # es) tmin j = sel_loop time tmax False rej toe es tmin j"
      by (auto simp: in_reach_def Let_def)
    moreover have "j \<noteq> None" using Cons(2) 3 by (cases j) (auto simp: in_reach_def)
    ultimately show ?thesis using Cons(1) [OF Cons(2)] 3 by (auto split: option.splits)
  qed
qed

text \<open>
  What a selection promises: an entry in reach, if there is one; when no issue of data is given
  (\<open>exact\<close> false), one that is closest in time.
\<close>

definition selected :: "gtime \<Rightarrow> double \<Rightarrow> bool \<Rightarrow> ('a \<Rightarrow> bool) \<Rightarrow> ('a \<Rightarrow> gtime) \<Rightarrow> 'a list \<Rightarrow> 'a option \<Rightarrow> bool" where
  "selected time tmax exact rej toe es r \<longleftrightarrow>
    (case r of None \<Rightarrow> \<forall>e\<in>List.set es. \<not> in_reach time tmax rej toe e
     | Some e \<Rightarrow> e \<in> List.set es \<and> in_reach time tmax rej toe e \<and>
         (exact \<or> (\<forall>e'\<in>List.set es. in_reach time tmax rej toe e' \<longrightarrow>
            \<bar>timediff (toe e) time\<bar> \<le> \<bar>timediff (toe e') time\<bar>)))"

lemma sel_loop_selected: "selected time tmax exact rej toe es (sel_loop time tmax exact rej toe es (tmax + 1) None)"
proof (cases exact)
  case True
  then show ?thesis
    by (auto simp: selected_def sel_loop_first find_None_iff find_Some_iff split: option.splits)
next
  case False
  then show ?thesis
    using sel_loop_closest [where j = None and tmax = tmax and tmin = "tmax + 1" and toe = toe and time = time and rej = rej and es = es] by (auto simp: selected_def split: option.splits)
qed

lemma seleph_selected:
  "selected time (seleph_tmax (fst (satsys sat))) (0 \<le> iode)
     (\<lambda>e. \<not> (eph_sat e = sat \<and> (iode < 0 \<or> eph_iode e = iode) \<and>
        (fst (satsys sat) \<noteq> SYS_GAL \<or>
           (sel ! 2 \<noteq> 0 \<or> bit (eph_code e) 9) \<and> (sel ! 2 \<noteq> 1 \<or> bit (eph_code e) 8) \<and> timediff (eph_toe e) time < 0)))
     eph_toe es (seleph sel time sat iode es)"
proof -
  have "seleph_skip sel time sat iode = (\<lambda>e. \<not> (eph_sat e = sat \<and> (iode < 0 \<or> eph_iode e = iode) \<and>
        (fst (satsys sat) \<noteq> SYS_GAL \<or>
           (sel ! 2 \<noteq> 0 \<or> bit (eph_code e) 9) \<and> (sel ! 2 \<noteq> 1 \<or> bit (eph_code e) 8) \<and> timediff (eph_toe e) time < 0)))"
    by (intro ext) (auto simp: seleph_skip_def getseleph_def sel_place_def Let_def)
  then show ?thesis by (simp only: seleph_def Let_def sel_loop_selected)
qed

lemma selgeph_selected:
  "selected time 1800 (0 \<le> iode) (\<lambda>g. \<not> (ge_sat g = sat \<and> (iode < 0 \<or> ge_iode g = iode))) ge_toe gs
     (selgeph time sat iode gs)"
proof -
  have e: "(\<lambda>g. ge_sat g \<noteq> sat \<or> iode \<ge> 0 \<and> ge_iode g \<noteq> iode) =
      (\<lambda>g. \<not> (ge_sat g = sat \<and> (iode < 0 \<or> ge_iode g = iode)))" by (intro ext) auto
  show ?thesis unfolding selgeph_def e MAXDTOE_GLO_def by (rule sel_loop_selected)
qed

lemma selseph_selected:
  "selected time 360 False (\<lambda>s. \<not> se_sat s = sat) se_t0 ss (selseph time sat ss)"
  unfolding selseph_def MAXDTOE_SBS_def by (rule sel_loop_selected)

section \<open>Kepler's equation\<close>

lemma sin_lipschitz: "\<bar>sin x - sin y\<bar> \<le> \<bar>x - y :: real\<bar>"
proof -
  have "\<bar>sin x - sin y\<bar> = 2 * \<bar>sin ((x - y) / 2)\<bar> * \<bar>cos ((x + y) / 2)\<bar>"
    by (simp add: sin_diff_sin abs_mult)
  also have "\<dots> \<le> 2 * \<bar>(x - y) / 2\<bar> * 1"
    by (intro mult_mono) (use abs_sin_x_le_abs_x [of "(x - y) / 2"] in auto)
  finally show ?thesis by simp
qed

text \<open>The last step of Newton's method was small, so that the equation holds but for twice its size.\<close>

lemma kepler_loop_residual:
  assumes "0 \<le> e" and "e < 1"
    and "kepler_loop c M e E0 Ek0 = Some E"
    and "E0 = M \<and> Ek0 = 0 \<or> E0 = Ek0 - (Ek0 - e * sin Ek0 - M) / (1 - e * cos Ek0)"
  shows "\<bar>E - e * sin E - M\<bar> \<le> 2 * e * RTOL_KEPLER"
  using assms(3,4)
proof (induction c arbitrary: E0 Ek0)
  case (Suc c)
  show ?case
  proof (cases "\<bar>E0 - Ek0\<bar> > RTOL_KEPLER")
    case True
    then show ?thesis using Suc by simp
  next
    case False
    then have E: "E = E0" and d: "\<bar>E0 - Ek0\<bar> \<le> RTOL_KEPLER" using Suc(2) by simp_all
    have c1: "\<bar>e * cos Ek0\<bar> \<le> e" using assms(1) abs_cos_le_one [of Ek0] mult_left_mono [of "\<bar>cos Ek0\<bar>" 1 e]
      by (simp add: abs_mult)
    from Suc(3) show ?thesis
    proof
      assume "E0 = M \<and> Ek0 = 0"
      then have "\<bar>E - e * sin E - M\<bar> = e * \<bar>sin M\<bar>" using assms(1) E by (simp add: abs_mult)
      also have "\<dots> \<le> e * RTOL_KEPLER"
        using assms(1) d \<open>E0 = M \<and> Ek0 = 0\<close> abs_sin_x_le_abs_x [of M] by (intro mult_left_mono) auto
      finally show ?thesis using assms(1) by (simp add: RTOL_KEPLER_def)
    next
      assume n: "E0 = Ek0 - (Ek0 - e * sin Ek0 - M) / (1 - e * cos Ek0)"
      have "1 - e * cos Ek0 \<noteq> 0" using c1 assms(2) by auto
      then have "(E0 - Ek0) * (1 - e * cos Ek0) = - (Ek0 - e * sin Ek0 - M)" using n by (simp add: field_simps)
      then have "E - e * sin E - M = e * cos Ek0 * (E0 - Ek0) - e * (sin E0 - sin Ek0)"
        unfolding E by (simp add: algebra_simps)
      then have "\<bar>E - e * sin E - M\<bar> \<le> \<bar>e * cos Ek0\<bar> * \<bar>E0 - Ek0\<bar> + e * \<bar>sin E0 - sin Ek0\<bar>"
        using assms(1) abs_triangle_ineq4 [of "e * cos Ek0 * (E0 - Ek0)" "e * (sin E0 - sin Ek0)"] by (simp add: abs_mult)
      also have "\<dots> \<le> e * RTOL_KEPLER + e * RTOL_KEPLER"
        using c1 d assms(1) sin_lipschitz [of E0 Ek0] by (intro add_mono mult_mono) auto
      finally show ?thesis by (simp add: mult.commute)
    qed
  qed
qed simp

lemma kepler_residual: "0 \<le> e \<Longrightarrow> e < 1 \<Longrightarrow> kepler M e = Some E \<Longrightarrow> \<bar>E - e * sin E - M\<bar> \<le> 2 * e * RTOL_KEPLER"
  unfolding kepler_def by (rule kepler_loop_residual) auto

section \<open>The orbit\<close>

text \<open>The true anomaly: its cosine and sine from the eccentric anomaly.\<close>

lemma cos_atan2:
  assumes "x\<^sup>2 + y\<^sup>2 = r\<^sup>2" and "0 < r"
  shows "r * cos (atan2 y x) = x" and "r * sin (atan2 y x) = y"
proof -
  have n: "cmod (Complex x y) = r" using assms by (simp add: cmod_def)
  then have z: "Complex x y \<noteq> 0" using assms(2) by auto
  have "rcis (cmod (Complex x y)) (Arg (Complex x y)) = Complex x y" by (rule rcis_cmod_Arg)
  then have "rcis r (atan2 y x) = Complex x y" by (simp add: n atan2_def)
  then have "Re (rcis r (atan2 y x)) = x" "Im (rcis r (atan2 y x)) = y" by simp_all
  then show "r * cos (atan2 y x) = x" "r * sin (atan2 y x) = y" by simp_all
qed

lemma ellipse:
  assumes "0 \<le> e" and "e < 1"
  shows "(cos E - e)\<^sup>2 + (sqrt (1 - e * e) * sin E)\<^sup>2 = (1 - e * cos E)\<^sup>2" and "0 < 1 - e * cos E"
proof -
  have e2: "0 \<le> 1 - e * e" using assms mult_mono [of e 1 e 1] by simp
  have "(sqrt (1 - e * e) * sin E)\<^sup>2 = (1 - e * e) * (1 - (cos E)\<^sup>2)"
    using e2 sin_squared_eq [of E] by (simp add: power_mult_distrib)
  then show "(cos E - e)\<^sup>2 + (sqrt (1 - e * e) * sin E)\<^sup>2 = (1 - e * cos E)\<^sup>2"
    by (simp add: power2_eq_square algebra_simps)
  have "e * cos E \<le> e" using assms(1) mult_left_mono [of "cos E" 1 e] by simp
  then show "0 < 1 - e * cos E" using assms(2) by linarith
qed

text \<open>
  Earth-fixed coordinates from radius, argument of latitude, inclination and longitude of the node.
\<close>

definition ecef :: "double \<Rightarrow> double \<Rightarrow> double \<Rightarrow> double \<Rightarrow> double list" where
  "ecef r u i Om =
    [r * (cos u * cos Om - sin u * cos i * sin Om), r * (cos u * sin Om + sin u * cos i * cos Om), r * (sin u * sin i)]"

definition eph_mu :: "eph \<Rightarrow> double" where
  "eph_mu eph = (if fst (satsys (eph_sat eph)) = SYS_GAL then MU_GAL
     else if fst (satsys (eph_sat eph)) = SYS_CMP then MU_CMP else MU_GPS)"

definition eph_omge :: "eph \<Rightarrow> double" where
  "eph_omge eph = (if fst (satsys (eph_sat eph)) = SYS_GAL then OMGE_GAL
     else if fst (satsys (eph_sat eph)) = SYS_CMP then OMGE_CMP else OMGE)"

text \<open>The mean anomaly; BeiDou's geostationary satellites, whose frame is turned.\<close>

definition eph_M :: "gtime \<Rightarrow> eph \<Rightarrow> double" where
  "eph_M time eph = eph_M0 eph + (sqrt (eph_mu eph / (eph_A eph * eph_A eph * eph_A eph)) + eph_deln eph) *
     timediff time (eph_toe eph)"

definition bds_geo :: "eph \<Rightarrow> bool" where
  "bds_geo eph \<longleftrightarrow> fst (satsys (eph_sat eph)) = SYS_CMP \<and>
    (snd (satsys (eph_sat eph)) \<le> 5 \<or> snd (satsys (eph_sat eph)) \<ge> 59)"

text \<open>
  The position that the interface document defines: an ellipse in the plane of the orbit, turned by the
  argument of perigee, with the harmonic corrections of radius, argument and inclination.
\<close>

definition on_orbit :: "gtime \<Rightarrow> eph \<Rightarrow> double \<Rightarrow> double list \<Rightarrow> bool" where
  "on_orbit time eph E p \<longleftrightarrow>
    (let e = eph_e eph; A = eph_A eph; w = eph_omg eph; tk = timediff time (eph_toe eph);
         X = A * (cos E - e); Y = A * (sqrt (1 - e * e) * sin E); r = A * (1 - e * cos E)
     in \<exists>u. r * cos u = X * cos w - Y * sin w \<and> r * sin u = X * sin w + Y * cos w \<and>
       p = ecef (r + (eph_crs eph * sin (2 * u) + eph_crc eph * cos (2 * u)))
             (u + (eph_cus eph * sin (2 * u) + eph_cuc eph * cos (2 * u)))
             (eph_i0 eph + eph_idot eph * tk + (eph_cis eph * sin (2 * u) + eph_cic eph * cos (2 * u)))
             (eph_OMG0 eph + (eph_OMGd eph - eph_omge eph) * tk - eph_omge eph * eph_toes eph))"

lemma put3_take: "3 \<le> length rs \<Longrightarrow> take 3 (put3 rs x y z) = [x, y, z]"
  by (cases rs; cases "tl rs"; cases "tl (tl rs)") (auto simp: put3_def)

lemma eph2pos_orbit:
  assumes A: "0 < eph_A eph" and e: "0 \<le> eph_e eph" "eph_e eph < 1" and geo: "\<not> bds_geo eph"
    and K: "kepler (eph_M time eph) (eph_e eph) = Some E" and l: "3 \<le> length rs"
  shows "on_orbit time eph E (take 3 (fst (eph2pos time eph (rs, dts, var))))"
proof -
  let ?e = "eph_e eph" and ?A = "eph_A eph" and ?w = "eph_omg eph" and ?tk = "timediff time (eph_toe eph)"
  define v where "v = atan2 (sqrt (1 - ?e * ?e) * sin E) (cos E - ?e)"
  define u where "u = v + ?w"
  define r where "r = ?A * (1 - ?e * cos E)"
  note el = ellipse [OF e, of E]
  have v: "(1 - ?e * cos E) * cos v = cos E - ?e" "(1 - ?e * cos E) * sin v = sqrt (1 - ?e * ?e) * sin E"
    unfolding v_def by (rule cos_atan2 [OF el])+
  have "r * cos u = ?A * ((1 - ?e * cos E) * cos v) * cos ?w - ?A * ((1 - ?e * cos E) * sin v) * sin ?w"
    by (simp add: r_def u_def cos_add algebra_simps)
  then have c: "r * cos u = ?A * (cos E - ?e) * cos ?w - ?A * (sqrt (1 - ?e * ?e) * sin E) * sin ?w" by (simp only: v)
  have "r * sin u = ?A * ((1 - ?e * cos E) * cos v) * sin ?w + ?A * ((1 - ?e * cos E) * sin v) * cos ?w"
    by (simp add: r_def u_def sin_add algebra_simps)
  then have s: "r * sin u = ?A * (cos E - ?e) * sin ?w + ?A * (sqrt (1 - ?e * ?e) * sin E) * cos ?w" by (simp only: v)
  obtain sys prn where sp: "satsys (eph_sat eph) = (sys, prn)" by (cases "satsys (eph_sat eph)") auto
  have g: "\<not> (sys = SYS_CMP \<and> (prn \<le> 5 \<or> prn \<ge> 59))" using geo by (simp add: bds_geo_def sp)
  have mu: "(if sys = SYS_GAL then (MU_GAL, OMGE_GAL) else if sys = SYS_CMP then (MU_CMP, OMGE_CMP) else (MU_GPS, OMGE)) =
      (eph_mu eph, eph_omge eph)"
    by (simp add: eph_mu_def eph_omge_def sp)
  have "fst (eph2pos time eph (rs, dts, var)) =
      (let r' = r + (eph_crs eph * sin (2 * u) + eph_crc eph * cos (2 * u));
           u' = u + (eph_cus eph * sin (2 * u) + eph_cuc eph * cos (2 * u));
           i = eph_i0 eph + eph_idot eph * ?tk + (eph_cis eph * sin (2 * u) + eph_cic eph * cos (2 * u));
           Om = eph_OMG0 eph + (eph_OMGd eph - eph_omge eph) * ?tk - eph_omge eph * eph_toes eph
       in put3 rs (r' * cos u' * cos Om - r' * sin u' * cos i * sin Om) (r' * cos u' * sin Om + r' * sin u' * cos i * cos Om)
            (r' * sin u' * sin i))"
    using A K unfolding eph2pos_def Let_def prod.case sp mu if_not_P [OF g] eph_M_def [symmetric]
    by (simp add: u_def v_def r_def eph_M_def [symmetric])
  then have "take 3 (fst (eph2pos time eph (rs, dts, var))) =
      ecef (r + (eph_crs eph * sin (2 * u) + eph_crc eph * cos (2 * u)))
           (u + (eph_cus eph * sin (2 * u) + eph_cuc eph * cos (2 * u)))
           (eph_i0 eph + eph_idot eph * ?tk + (eph_cis eph * sin (2 * u) + eph_cic eph * cos (2 * u)))
           (eph_OMG0 eph + (eph_OMGd eph - eph_omge eph) * ?tk - eph_omge eph * eph_toes eph)"
    by (simp add: put3_take [OF l] ecef_def Let_def algebra_simps)
  then show ?thesis unfolding on_orbit_def Let_def using c s by (intro exI [of _ u]) (simp add: r_def)
qed

lemma eph2pos_clock:
  assumes "0 < eph_A eph" and "kepler (eph_M time eph) (eph_e eph) = Some E"
  shows "fst (snd (eph2pos time eph s)) =
    (let t = timediff time (eph_toc eph) in eph_f0 eph + eph_f1 eph * t + eph_f2 eph * t\<^sup>2 -
       2 * sqrt (eph_mu eph * eph_A eph) * eph_e eph * sin E / CLIGHT\<^sup>2)"
proof -
  obtain rs dts var where s: "s = (rs, dts, var)" by (rule prod_cases3)
  obtain sys prn where sp: "satsys (eph_sat eph) = (sys, prn)" by (cases "satsys (eph_sat eph)") auto
  have mu: "(if sys = SYS_GAL then (MU_GAL, OMGE_GAL) else if sys = SYS_CMP then (MU_CMP, OMGE_CMP) else (MU_GPS, OMGE)) =
      (eph_mu eph, eph_omge eph)"
    by (simp add: eph_mu_def eph_omge_def sp)
  show ?thesis
    using assms unfolding eph2pos_def Let_def prod.case sp mu s eph_M_def [symmetric]
    by (simp add: SQR_def power2_eq_square eph_M_def [symmetric] algebra_simps)
qed

text \<open>The distance from the centre of the earth.\<close>

lemma ecef_norm: "(\<Sum>k<3. (ecef r u i Om ! k)\<^sup>2) = r\<^sup>2"
proof -
  have p: "(r * (cu * cO - su * ci * sO))\<^sup>2 + (r * (cu * sO + su * ci * cO))\<^sup>2 + (r * (su * si))\<^sup>2 = r\<^sup>2"
    if "su\<^sup>2 + cu\<^sup>2 = 1" "si\<^sup>2 + ci\<^sup>2 = 1" "sO\<^sup>2 + cO\<^sup>2 = 1" for cu su ci si cO sO :: real
    using that by algebra
  show ?thesis
    using p [OF sin_cos_squared_add [of u] sin_cos_squared_add [of i] sin_cos_squared_add [of Om]]
    by (simp add: ecef_def numeral_3_eq_3)
qed

section \<open>The integration\<close>

text \<open>
  The steps of the integration: full ones of a minute in the direction of the time, and one for what
  is left, unless that is within a nanosecond.
\<close>

definition full_step :: "double \<Rightarrow> double" where
  "full_step t = (if t < 0 then - 60 else 60)"

definition glo_steps :: "double \<Rightarrow> double list" where
  "glo_steps t =
    (let n = nat \<lfloor>\<bar>t\<bar> / 60\<rfloor>; rest = t - real n * full_step t
     in replicate n (full_step t) @ (if \<bar>rest\<bar> > 1 / 10 ^ 9 then [rest] else []))"

lemma glo_loop_exact:
  assumes "\<sigma> = 1 \<or> \<sigma> = - 1" and "60 * real n \<le> a" and "a < 60 * (real n + 1)"
  shows "glo_loop (\<sigma> * a) (\<sigma> * TSTEP) x acc = Some (fold (\<lambda>s x. glorbit s x acc)
    (replicate n (\<sigma> * 60) @ (if a - 60 * real n > 1 / 10 ^ 9 then [\<sigma> * (a - 60 * real n)] else [])) x)"
  using assms(2,3)
proof (induction n arbitrary: a x)
  case 0
  have z: "glo_loop 0 tt x acc = Some x" for tt x by (subst glo_loop.simps) simp
  have m: "\<bar>\<sigma> * a\<bar> = a" using assms(1) 0 by auto
  show ?case
  proof (cases "a > 1 / 10 ^ 9")
    case True
    then show ?thesis using 0 by (subst glo_loop.simps) (simp add: m Let_def z TSTEP_def)
  next
    case False
    then show ?thesis using 0 by (subst glo_loop.simps) (simp add: m)
  qed
next
  case (Suc n)
  have m: "\<bar>\<sigma> * a\<bar> = a" using assms(1) Suc.prems by auto
  have d: "\<sigma> * a - \<sigma> * 60 = \<sigma> * (a - 60)" by (simp add: right_diff_distrib)
  have "glo_loop (\<sigma> * a) (\<sigma> * TSTEP) x acc = glo_loop (\<sigma> * (a - 60)) (\<sigma> * TSTEP) (glorbit (\<sigma> * 60) x acc) acc"
    using Suc.prems by (subst glo_loop.simps) (simp add: m d Let_def TSTEP_def)
  also have "\<dots> = Some (fold (\<lambda>s x. glorbit s x acc) (replicate n (\<sigma> * 60) @
      (if a - 60 - 60 * real n > 1 / 10 ^ 9 then [\<sigma> * (a - 60 - 60 * real n)] else [])) (glorbit (\<sigma> * 60) x acc))"
    by (rule Suc.IH) (use Suc.prems in auto)
  also have "a - 60 - 60 * real n = a - 60 * real (Suc n)" by simp
  finally show ?case by simp
qed

lemma glo_loop_returns:
  "glo_loop t (if t < 0 then - TSTEP else TSTEP) x acc = Some (fold (\<lambda>s x. glorbit s x acc) (glo_steps t) x)"
proof -
  define \<sigma> :: double where "\<sigma> = (if t < 0 then - 1 else 1)"
  define n where "n = nat \<lfloor>\<bar>t\<bar> / 60\<rfloor>"
  have s: "\<sigma> = 1 \<or> \<sigma> = - 1" "\<sigma> * \<bar>t\<bar> = t" "\<sigma> * TSTEP = (if t < 0 then - TSTEP else TSTEP)" "\<sigma> * 60 = full_step t"
    by (auto simp: \<sigma>_def full_step_def)
  have "real n = of_int \<lfloor>\<bar>t\<bar> / 60\<rfloor>" by (simp add: n_def)
  then have "60 * real n \<le> \<bar>t\<bar> \<and> \<bar>t\<bar> < 60 * (real n + 1)"
    using of_int_floor_le [of "\<bar>t\<bar> / 60"] real_of_int_floor_add_one_gt [of "\<bar>t\<bar> / 60"]
    by (simp add: pos_le_divide_eq pos_divide_less_eq algebra_simps)
  then have n: "60 * real n \<le> \<bar>t\<bar>" "\<bar>t\<bar> < 60 * (real n + 1)" by simp_all
  have r: "\<sigma> * (\<bar>t\<bar> - 60 * real n) = t - real n * full_step t"
    using s(2,4) by (simp add: right_diff_distrib mult.commute mult.left_commute flip: s(4))
  have "\<bar>\<sigma> * (\<bar>t\<bar> - 60 * real n)\<bar> = \<bar>t\<bar> - 60 * real n" using s(1) n(1) by (auto simp: abs_mult)
  then have q: "\<bar>t - real n * full_step t\<bar> = \<bar>t\<bar> - 60 * real n" by (simp only: r)
  have "glo_steps t = replicate n (\<sigma> * 60) @
      (if \<bar>t\<bar> - 60 * real n > 1 / 10 ^ 9 then [\<sigma> * (\<bar>t\<bar> - 60 * real n)] else [])"
    unfolding glo_steps_def Let_def n_def [symmetric] q r s(4) ..
  then show ?thesis using glo_loop_exact [OF s(1) n, of x acc] by (simp only: s(2,3))
qed

lemma geph2pos_steps:
  "geph2pos time g (rs, dts, var) =
    (let t = timediff time (ge_toe g);
         x = fold (\<lambda>s x. glorbit s x (ge_acc g)) (glo_steps t) (take 3 (ge_pos g) @ take 3 (ge_vel g))
     in Some (put3 rs (x ! 0) (x ! 1) (x ! 2), - ge_taun g + ge_gamn g * t, SQR ERREPH_GLO))"
  by (simp add: geph2pos_def Let_def glo_loop_returns)

section \<open>Ephemerides as sources of positions\<close>

text \<open>What \<^verbatim>\<open>ephpos\<close> uses of an ephemeris: its computation ends and keeps the size of the array.\<close>

locale position_source =
  fixes pos :: "gtime \<Rightarrow> double list \<times> double \<times> double \<Rightarrow> (double list \<times> double \<times> double) option"
  assumes computes: "\<exists>rs' dts' var'. pos t (rs, dts, var) = Some (rs', dts', var') \<and> length rs' = length rs"
begin

lemma computes_twice:
  "\<exists>rs1 d1 v1 rs2 d2 v2. pos t (rs, dts, var) = Some (rs1, d1, v1) \<and> length rs1 = length rs \<and>
    pos t' (rst, dtst, v1) = Some (rs2, d2, v2)"
proof -
  obtain rs1 d1 v1 where 1: "pos t (rs, dts, var) = Some (rs1, d1, v1)" "length rs1 = length rs" using computes by blast
  obtain rs2 d2 v2 where "pos t' (rst, dtst, v1) = Some (rs2, d2, v2)" using computes by blast
  with 1 show ?thesis by blast
qed

end

lemma put3_size [simp]: "length (put3 rs x y z) = length rs"
  by (simp add: put3_def)

interpretation kepler_source: position_source "\<lambda>t s. Some (eph2pos t e s)" for e
proof (unfold_locales, goal_cases)
  case (1 t rs dts var)
  obtain rs' dts' var' where p: "eph2pos t e (rs, dts, var) = (rs', dts', var')" by (rule prod_cases3)
  then have "length rs' = length rs"
    by (auto simp: eph2pos_def Let_def split: if_splits option.splits prod.splits)
  with p show ?case by simp
qed

interpretation glonass_source: position_source "\<lambda>t s. geph2pos t e s" for e
proof (unfold_locales, goal_cases)
  case (1 t rs dts var)
  show ?case by (simp add: geph2pos_steps Let_def)
qed

interpretation sbas_source: position_source "\<lambda>t s. Some (seph2pos t e s)" for e
  by unfold_locales (simp add: seph2pos_def Let_def)

lemma eph_model_source:
  assumes "eph_model env teph sat nav iode = Some (pos, svh)"
  shows "position_source pos"
proof -
  consider e where "pos = (\<lambda>t s. Some (eph2pos t e s))" | e where "pos = (\<lambda>t s. geph2pos t e s)"
    | e where "pos = (\<lambda>t s. Some (seph2pos t e s))"
    using assms by (auto simp: eph_model_def Let_def split: if_splits)
  then show ?thesis
    by cases (simp_all only: kepler_source.position_source_axioms glonass_source.position_source_axioms
        sbas_source.position_source_axioms)
qed

lemma ephpos_sizes:
  "\<exists>ok st'. ephpos env time teph sat nav iode st = Some (ok, st') \<and> length (st_rs st') = length (st_rs st) \<and>
    length (st_dts st') = length (st_dts st)"
proof (cases "eph_model env teph sat nav iode")
  case None
  then show ?thesis by (intro exI [of _ False]) (simp add: ephpos_def Let_def)
next
  case (Some m)
  obtain pos svh where m: "m = (pos, svh)" by (cases m)
  note source = position_source.computes_twice [OF eph_model_source [OF Some [unfolded m]]]
  obtain rs1 d1 v1 rs2 d2 v2 where p: "pos time (st_rs st, st_dts st ! 0, st_var st) = Some (rs1, d1, v1)"
    "length rs1 = length (st_rs st)" "pos (timeadd time (1 / 10 ^ 3)) (pe_rst env, pe_dtst env, v1) = Some (rs2, d2, v2)"
    using source by blast
  have "length (fold (\<lambda>i rs. rs[i + 3 := (rs2 ! i - rs ! i) / (1 / 10 ^ 3)]) is rs) = length rs" for "is" :: "nat list" and rs
    by (induction "is" arbitrary: rs) simp_all
  then show ?thesis using p by (intro exI [of _ True]) (simp add: ephpos_def Let_def Some m del: upt_Suc)
qed

lemma ephpos_ends: "ephpos env time teph sat nav iode st \<noteq> None"
  using ephpos_sizes [of env time teph sat nav iode st] by auto

section \<open>SSR corrections\<close>

lemma dot3: "dot a b 3 = a 2 * b 2 + a 1 * b 1 + a 0 * b 0"
proof -
  have "rev [0..<3] = [2, 1, 0 :: nat]" by (simp add: upt_rec)
  then show ?thesis by (simp add: dot_def)
qed

lemma sum3: "(\<Sum>k<3. f k) = f 0 + f 1 + f (2 :: nat)" for f :: "nat \<Rightarrow> double"
proof -
  have "{..<3 :: nat} = {0, 1, 2}" by auto
  then show ?thesis by simp
qed

lemma normv3_unit:
  assumes "normv3 a b = Some u"
  shows "(u 0)\<^sup>2 + (u 1)\<^sup>2 + (u 2)\<^sup>2 = 1" and "\<exists>r>0. a 0 = r * u 0 \<and> a 1 = r * u 1 \<and> a 2 = r * u 2"
proof -
  let ?r = "norm_v a 3"
  have r: "0 < ?r" and u: "u 0 = a 0 / ?r" "u 1 = a 1 / ?r" "u 2 = a 2 / ?r"
    using assms by (auto simp: normv3_def Let_def split: if_splits)
  have "?r\<^sup>2 = (a 0)\<^sup>2 + (a 1)\<^sup>2 + (a 2)\<^sup>2" by (simp add: norm_v_def dot3 power2_eq_square)
  moreover have "(u 0)\<^sup>2 + (u 1)\<^sup>2 + (u 2)\<^sup>2 = ((a 0)\<^sup>2 + (a 1)\<^sup>2 + (a 2)\<^sup>2) / ?r\<^sup>2"
    by (simp add: u power_divide add_divide_distrib del: One_nat_def)
  ultimately show "(u 0)\<^sup>2 + (u 1)\<^sup>2 + (u 2)\<^sup>2 = 1" using r by (metis divide_self zero_less_power less_irrefl)
  show "\<exists>r>0. a 0 = r * u 0 \<and> a 1 = r * u 1 \<and> a 2 = r * u 2" using r by (intro exI [of _ ?r]) (simp add: u del: One_nat_def)
qed

text \<open>Radial, along and across are at right angles: a correction in these directions keeps its length.\<close>

lemma rac_length:
  assumes a: "normv3 v z = Some ea" and c: "normv3 (cross3 r v z') z'' = Some ec"
  shows "(\<Sum>k<3. (cross3 ea ec z3 k * d0 + ea k * d1 + ec k * d2)\<^sup>2) = d0\<^sup>2 + d1\<^sup>2 + d2\<^sup>2"
proof -
  obtain s where s: "s > 0" "v 0 = s * ea 0" "v 1 = s * ea 1" "v 2 = s * ea 2" using normv3_unit(2) [OF a] by blast
  obtain t where t: "t > 0" "r 1 * v 2 - r 2 * v 1 = t * ec 0" "r 2 * v 0 - r 0 * v 2 = t * ec 1" "r 0 * v 1 - r 1 * v 0 = t * ec 2"
    using normv3_unit(2) [OF c] by (auto simp: cross3_def)
  have "s * t * (ea 0 * ec 0 + ea 1 * ec 1 + ea 2 * ec 2) = v 0 * (t * ec 0) + v 1 * (t * ec 1) + v 2 * (t * ec 2)"
    by (simp add: s algebra_simps del: One_nat_def)
  also have "\<dots> = 0" unfolding t(2-4) [symmetric] by (simp add: algebra_simps)
  finally have o: "ea 0 * ec 0 + ea 1 * ec 1 + ea 2 * ec 2 = 0" using s(1) t(1) by simp
  have p: "((a1 * c2 - a2 * c1) * d0 + a0 * d1 + c0 * d2)\<^sup>2 + ((a2 * c0 - a0 * c2) * d0 + a1 * d1 + c1 * d2)\<^sup>2 +
      ((a0 * c1 - a1 * c0) * d0 + a2 * d1 + c2 * d2)\<^sup>2 = d0\<^sup>2 + d1\<^sup>2 + d2\<^sup>2"
    if "a0\<^sup>2 + a1\<^sup>2 + a2\<^sup>2 = 1" "c0\<^sup>2 + c1\<^sup>2 + c2\<^sup>2 = 1" "a0 * c0 + a1 * c1 + a2 * c2 = 0" for a0 a1 a2 c0 c1 c2 :: real
    using that by algebra
  show ?thesis
    using p [OF normv3_unit(1) [OF a] normv3_unit(1) [OF c] o] by (simp add: cross3_def sum3)
qed

lemma ssr_corr_bounds:
  assumes "ssr_corr time ssr = Inl (deph, dclk)"
  shows "(deph ! 0)\<^sup>2 + (deph ! 1)\<^sup>2 + (deph ! 2)\<^sup>2 \<le> MAXECORSSR\<^sup>2" and "\<bar>dclk\<bar> \<le> MAXCCORSSR"
proof -
  have n: "norm_v (\<lambda>i. deph ! i) 3 \<le> MAXECORSSR" and "\<bar>dclk\<bar> \<le> MAXCCORSSR"
    using assms by (auto simp: ssr_corr_def Let_def simp del: upt_Suc split: if_splits)
  then show "\<bar>dclk\<bar> \<le> MAXCCORSSR" by simp
  have "0 \<le> norm_v (\<lambda>i. deph ! i) 3" by (simp add: norm_v_def dot3)
  then have "(norm_v (\<lambda>i. deph ! i) 3)\<^sup>2 \<le> MAXECORSSR\<^sup>2" using n by (intro power_mono)
  then show "(deph ! 0)\<^sup>2 + (deph ! 1)\<^sup>2 + (deph ! 2)\<^sup>2 \<le> MAXECORSSR\<^sup>2"
    by (simp add: norm_v_def dot3 power2_eq_square)
qed

text \<open>The clock step keeps position and velocity.\<close>

lemma ssr_clock_rs: "ssr_clock env time teph sat nav iode st = Some st' \<Longrightarrow> st_rs st' = st_rs st"
  by (auto simp: ssr_clock_def Let_def split: if_splits option.splits)

lemma ssr_clock_dts: "ssr_clock env time teph sat nav iode st = Some st' \<Longrightarrow> length (st_dts st') = length (st_dts st)"
  by (auto simp: ssr_clock_def Let_def split: if_splits option.splits)

lemma satpos_ssr_shift:
  assumes S: "satpos_ssr env time teph sat nav opt st = Some (True, st')" and l: "3 \<le> length (st_rs st)" "st_dts st \<noteq> []"
  shows "\<exists>st0 st1. ephpos env time teph sat nav (ssr_iode (en_ssr nav ! nat (sat - 1))) st = Some (True, st0) \<and>
    ssr_clock env time teph sat nav (ssr_iode (en_ssr nav ! nat (sat - 1))) st0 = Some st1 \<and>
    (\<Sum>k<3. (st_rs st' ! k - st_rs st0 ! k - (if opt then pe_satantoff env time (st_rs st0) sat else [0, 0, 0]) ! k)\<^sup>2)
      \<le> MAXECORSSR\<^sup>2 \<and>
    \<bar>st_dts st' ! 0 - st_dts st1 ! 0\<bar> \<le> MAXCCORSSR / CLIGHT"
proof -
  let ?ssr = "en_ssr nav ! nat (sat - 1)"
  obtain deph dclk where C: "ssr_corr time ?ssr = Inl (deph, dclk)"
    using S by (auto simp: satpos_ssr_def Let_def split: sum.splits)
  obtain st0 where E: "ephpos env time teph sat nav (ssr_iode ?ssr) st = Some (True, st0)"
    using S C by (auto simp: satpos_ssr_def Let_def bind_eq_Some_conv split: if_splits)
  obtain st1 where K: "ssr_clock env time teph sat nav (ssr_iode ?ssr) st0 = Some st1"
    using S C E by (auto simp: satpos_ssr_def Let_def split: option.splits)
  obtain ea where ea: "normv3 (\<lambda>i. st_rs st1 ! (i + 3)) (\<lambda>i. 0) = Some ea"
    using S C E K by (auto simp: satpos_ssr_def Let_def split: option.splits)
  obtain ec where ec: "normv3 (cross3 (\<lambda>i. st_rs st1 ! i) (\<lambda>i. st_rs st1 ! (i + 3)) (\<lambda>i. 0)) (\<lambda>i. 0) = Some ec"
    using S C E K ea by (auto simp: satpos_ssr_def Let_def split: option.splits)
  let ?er = "cross3 ea ec (\<lambda>i. 0)"
  define dant where "dant = (if opt then pe_satantoff env time (st_rs st1) sat else [0, 0, 0])"
  have st': "st' = st1\<lparr>st_rs := fold (\<lambda>i rs. rs[i := rs ! i + (- (?er i * deph ! 0 + ea i * deph ! 1 + ec i * deph ! 2) + dant ! i)])
      [0..<3] (st_rs st1), st_dts := (st_dts st1)[0 := st_dts st1 ! 0 + dclk / CLIGHT], st_var := var_urassr (ssr_ura ?ssr)\<rparr>"
    using S by (simp add: satpos_ssr_def Let_def C E K ea ec dant_def del: upt_Suc)
  have rs: "st_rs st1 = st_rs st0" by (rule ssr_clock_rs [OF K])
  have u: "[0..<3] = [0, 1, 2 :: nat]" by (simp add: upt_rec)
  have l0: "3 \<le> length (st_rs st0)" "st_dts st1 \<noteq> []"
    using ephpos_sizes [of env time teph sat nav "ssr_iode ?ssr" st] E l ssr_clock_dts [OF K] by auto
  have "(\<Sum>k<3. (st_rs st' ! k - st_rs st0 ! k - dant ! k)\<^sup>2) \<le> MAXECORSSR\<^sup>2"
  proof -
    have l: "0 < length (st_rs st0)" "1 < length (st_rs st0)" "2 < length (st_rs st0)" using l0 by auto
    have d: "st_rs st' ! k - st_rs st0 ! k - dant ! k = - (?er k * deph ! 0 + ea k * deph ! 1 + ec k * deph ! 2)" if k: "k \<in> {0, 1, 2}" for k
    proof -
      from k consider "k = 0" | "k = 1" | "k = 2" by blast
      then show ?thesis using l by cases (simp_all add: st' rs u nth_list_update del: One_nat_def)
    qed
    have "(\<Sum>k<3. (st_rs st' ! k - st_rs st0 ! k - dant ! k)\<^sup>2) = (\<Sum>k<3. (?er k * deph ! 0 + ea k * deph ! 1 + ec k * deph ! 2)\<^sup>2)"
      by (rule sum.cong [OF refl], subst d) (auto simp: power2_minus simp del: minus_add_distrib)
    also have "\<dots> = (deph ! 0)\<^sup>2 + (deph ! 1)\<^sup>2 + (deph ! 2)\<^sup>2" by (rule rac_length [OF ea ec])
    also have "\<dots> \<le> MAXECORSSR\<^sup>2" by (rule ssr_corr_bounds(1) [OF C])
    finally show ?thesis .
  qed
  moreover have "\<bar>st_dts st' ! 0 - st_dts st1 ! 0\<bar> \<le> MAXCCORSSR / CLIGHT"
  proof -
    have "st_dts st' ! 0 - st_dts st1 ! 0 = dclk / CLIGHT" using l0(2) by (simp add: st')
    moreover have "\<bar>dclk / CLIGHT\<bar> \<le> MAXCCORSSR / CLIGHT"
      using ssr_corr_bounds(2) [OF C] by (simp add: abs_divide divide_right_mono CLIGHT_def)
    ultimately show ?thesis by simp
  qed
  ultimately show ?thesis using E K unfolding dant_def rs by blast
qed

section \<open>The satellites of an epoch\<close>

text \<open>The computation ends.\<close>

lemma satpos_sbas_returns: "satpos_sbas env time teph sat nav st \<noteq> None"
proof -
  have "\<exists>ok st'. ephpos env time teph sat nav iode st = Some (ok, st')" for iode
    using ephpos_sizes by blast
  then show ?thesis
    by (cases "sbs_find sat (sn_sat (en_sbas nav))") (auto simp: satpos_sbas_def bind_eq_None_conv split: option.splits prod.splits)
qed

lemma satpos_ssr_returns: "satpos_ssr env time teph sat nav opt st \<noteq> None"
proof -
  obtain ok st' where "ephpos env time teph sat nav (ssr_iode (en_ssr nav ! nat (sat - 1))) st = Some (ok, st')"
    using ephpos_sizes by blast
  then show ?thesis by (auto simp: satpos_ssr_def Let_def simp del: upt_Suc split: sum.splits option.splits)
qed

lemma satpos_returns: "satpos env time teph sat ephopt nav st \<noteq> None"
  using ephpos_ends satpos_sbas_returns satpos_ssr_returns
  by (auto simp: satpos_def Let_def simp del: not_None_eq split: prod.split)

lemma satpos_obs_ends:
  "\<exists>sts'. satpos_obs env teph nav ephopt i ob sts = Some sts' \<and> length sts' = length sts \<and>
    (\<forall>k. k \<noteq> 0 \<longrightarrow> k \<noteq> i \<longrightarrow> sts' ! k = sts ! k)"
proof -
  let ?z = "sts[i := \<lparr>st_rs = replicate 6 0, st_dts = [0, 0], st_var = 0, st_svh = 0\<rparr>]"
  let ?t = "timeadd (ob_time ob) (- the (first_pr ob) / CLIGHT)"
  let ?u = "timeadd ?t (- the (ephclk env ?t teph (ob_sat ob) nav))"
  obtain ok st where "satpos env ?u teph (ob_sat ob) ephopt nav (?z ! i) = Some (ok, st)"
    using satpos_returns [of env ?u teph "ob_sat ob" ephopt nav "?z ! i"] by auto
  then show ?thesis
    by (cases "first_pr ob"; cases "ephclk env ?t teph (ob_sat ob) nav")
      (simp_all add: satpos_obs_def Let_def del: replicate.simps split: option.split)
qed

lemma satposs_loop_ends:
  "\<exists>sts'. satposs_loop env teph nav ephopt i obs sts = Some sts' \<and> length sts' = length sts \<and>
    (\<forall>k. k \<noteq> 0 \<longrightarrow> i + length obs \<le> k \<longrightarrow> sts' ! k = sts ! k)"
proof (induction obs arbitrary: i sts)
  case (Cons ob obs)
  obtain sts1 where 1: "satpos_obs env teph nav ephopt i ob sts = Some sts1" "length sts1 = length sts"
    "\<forall>k. k \<noteq> 0 \<longrightarrow> k \<noteq> i \<longrightarrow> sts1 ! k = sts ! k"
    using satpos_obs_ends by blast
  obtain sts2 where "satposs_loop env teph nav ephopt (i + 1) obs sts1 = Some sts2" "length sts2 = length sts1"
    "\<forall>k. k \<noteq> 0 \<longrightarrow> i + 1 + length obs \<le> k \<longrightarrow> sts2 ! k = sts1 ! k"
    using Cons.IH by blast
  with 1 show ?case by simp
qed simp

text \<open>The clock of broadcast ephemerides exists at all times or at none.\<close>

lemma ephclk_time: "ephclk env t teph sat nav \<noteq> None \<Longrightarrow> ephclk env t' teph sat nav \<noteq> None"
  by (auto simp: ephclk_def Let_def split: if_splits)

lemma fallback_variance:
  assumes pr: "first_pr ob = Some pr" and t: "t = timeadd (ob_time ob) (- pr / CLIGHT)"
    and dt: "ephclk env t teph (ob_sat ob) nav = Some dt"
    and S: "satpos env (timeadd t (- dt)) teph (ob_sat ob) ephopt nav
      \<lparr>st_rs = replicate 6 0, st_dts = [0, 0], st_var = 0, st_svh = 0\<rparr> = Some (True, st)"
    and z: "st_dts st ! 0 = 0" and i: "i < length sts"
  shows "\<exists>sts' dts. satpos_obs env teph nav ephopt i ob sts = Some sts' \<and>
    ephclk env (timeadd t (- dt)) teph (ob_sat ob) nav = Some dts \<and>
    st_dts (sts' ! i) = [dts, 0] \<and> st_rs (sts' ! i) = st_rs st \<and> st_svh (sts' ! i) = st_svh st \<and>
    st_var (sts' ! 0) = SQR STD_BRDCCLK \<and> (0 < i \<longrightarrow> st_var (sts' ! i) = st_var st)"
proof -
  obtain dts where "ephclk env (timeadd t (- dt)) teph (ob_sat ob) nav = Some dts"
    using ephclk_time [of env t teph "ob_sat ob" nav "timeadd t (- dt)"] dt by auto
  moreover have "0 < length sts" using i by linarith
  ultimately show ?thesis using pr dt S z i
    by (auto simp: satpos_obs_def Let_def t nth_list_update)
qed

lemma satposs_frame:
  "\<exists>sts'. satposs env teph obs nav ephopt sts = Some sts' \<and> length sts' = length sts \<and>
    (\<forall>k. k \<noteq> 0 \<longrightarrow> length obs \<le> k \<longrightarrow> sts' ! k = sts ! k)"
  using satposs_loop_ends [of env teph nav ephopt 0 "take (2 * MAXOBS) obs" sts] by (auto simp: satposs_def)

lemma satposs_ends: "satposs env teph obs nav ephopt sts \<noteq> None"
  using satposs_frame [of env teph obs nav ephopt sts] by auto

end
