(* ===== verification/Concrete4.thy ===== *)
theory Concrete4
  imports Concrete3 EphemFacts
begin

text \<open>Ephemerides and corrections of single satellites, for the witnesses of the properties.\<close>

definition orbit1 :: eph where
  "orbit1 = eph_zero\<lparr>eph_sat := 1, eph_A := 26560000, eph_e := 0.01, eph_i0 := 0.96, eph_f0 := 0.0001\<rparr>"

lemma orbit1_kepler: "kepler (eph_M time0 orbit1) (eph_e orbit1) = Some 0"
  by (simp add: kepler_def MAX_ITER_KEPLER_def numeral_eq_Suc RTOL_KEPLER_def eph_M_def orbit1_def eph_zero_def timediff_def)

lemma orbit1_hyps: "0 < eph_A orbit1" "0 \<le> eph_e orbit1" "eph_e orbit1 < 1" "\<not> bds_geo orbit1"
  by (simp_all add: orbit1_def eph_zero_def bds_geo_def satsys_def)

section \<open>A satellite of SBAS with a correction of SSR\<close>

definition noon :: gtime where "noon = \<lparr>gt_time = 43200, gt_sec = 0\<rparr>"

definition seph1 :: seph where
  "seph1 = \<lparr>se_sat = 201, se_t0 = noon, se_tof = noon, se_sva = 0, se_svh = 0,
     se_pos = [42164000, 0, 0], se_vel = [0, 1, 0], se_acc = [0, 0, 0], se_af0 = 0, se_af1 = 0\<rparr>"

definition ssr1 :: ssr where
  "ssr1 = ssr0\<lparr>ssr_t0 := replicate 6 noon, ssr_deph := [1, 2, 3], ssr_dclk := [0.5, 0, 0], ssr_ura := 4\<rparr>"

definition nav1 :: ephnav where
  "nav1 = \<lparr>en_eph = [orbit1\<lparr>eph_toe := noon\<rparr>], en_geph = [], en_seph = [seph1], en_sbas = sbs0, en_ssr = replicate 221 ssr1\<rparr>"

definition st1 :: satst where
  "st1 = \<lparr>st_rs = replicate 6 0, st_dts = [0, 0], st_var = 0, st_svh = 0\<rparr>"

text \<open>The precise ephemeris knows no clock: zero, as \<^verbatim>\<open>peph2pos\<close> gives it.\<close>

definition env1 :: penv where
  "env1 = \<lparr>pe_sel = replicate 7 0, pe_rst = [0, 0, 0], pe_dtst = 0, pe_satantoff = (\<lambda>t rs sat. [0, 0, 0]),
     pe_peph2pos = (\<lambda>t sat st. (True, st\<lparr>st_var := 4\<rparr>))\<rparr>"

lemma sbas_sat: "fst (satsys 201) = SYS_SBS"
  by (simp add: satsys_def)

lemma seph1_selected: "selseph noon 201 (en_seph nav1) = Some seph1"
  by (simp add: selseph_def nav1_def seph1_def timediff_def noon_def MAXDTOE_SBS_def Let_def)

lemma seph1_position: "ephpos env1 noon noon 201 nav1 iode st1 =
    Some (True, \<lparr>st_rs = [42164000, 0, 0, 0, 1, 0], st_dts = [0, 0], st_var = var_uraeph SYS_SBS 0, st_svh = 0\<rparr>)"
proof -
  have u: "[0..<3] = [0, 1, 2 :: nat]" by (simp add: upt_rec)
  have "eph_model env1 noon 201 nav1 iode = Some (\<lambda>t s. Some (seph2pos t seph1 s), 0)"
    using seph1_selected by (simp add: eph_model_def sbas_sat kepler_sys_def seph1_def)
  then show ?thesis
    by (simp add: ephpos_def Let_def u st1_def seph2pos_def seph1_def timediff_def timeadd_def noon_def env1_def put3_def
        numeral_eq_Suc)
qed

lemma ssr1_corr: "ssr_corr noon ssr1 = Inl ([1, 2, 3], 0.5)"
proof -
  have u: "[0..<3] = [0, 1, 2 :: nat]" by (simp add: upt_rec)
  have n: "norm_v (\<lambda>i. [1, 2, 3] ! i) 3 \<le> MAXECORSSR" by (simp add: norm_v_def dot3 MAXECORSSR_def real_le_lsqrt)
  then show ?thesis
    by (simp add: ssr_corr_def ssr1_def ssr0_def noon_def timediff_def Let_def u MAXAGESSR_def MAXAGESSR_HRCLK_def
        MAXCCORSSR_def CLIGHT_def numeral_eq_Suc)
qed

lemma ssr1_used: "\<exists>st'. satpos_ssr env1 noon noon 201 nav1 True st1 = Some (True, st')"
proof -
  let ?v = "\<lambda>i. [42164000, 0, 0, 0, 1, 0 :: double] ! (i + 3)" and ?r = "\<lambda>i. [42164000, 0, 0, 0, 1, 0 :: double] ! i"
  have v: "\<exists>u. normv3 ?v (\<lambda>i. 0) = Some u" by (simp add: normv3_def norm_v_def dot3 Let_def)
  have c: "\<exists>u. normv3 (cross3 ?r ?v (\<lambda>i. 0)) (\<lambda>i. 0) = Some u"
    by (simp add: normv3_def norm_v_def dot3 Let_def cross3_def)
  have n: "en_ssr nav1 ! 200 = ssr1" by (simp add: nav1_def)
  have k: "ssr_clock env1 noon noon 201 nav1 iode st = Some st" for iode st by (simp add: ssr_clock_def sbas_sat)
  show ?thesis using v c
    by (auto simp: satpos_ssr_def n ssr1_corr seph1_position k Let_def simp del: upt_Suc)
qed

section \<open>A satellite whose clock is not known precisely\<close>

definition obs1 :: obsd where "obs1 = data0\<lparr>ob_time := noon, ob_sat := 1, ob_P := replicate 11 CLIGHT\<rparr>"

lemma obs1_pr: "first_pr obs1 = Some CLIGHT"
  by (simp add: first_pr_def obs1_def data0_def upt_rec numeral_eq_Suc CLIGHT_def)

lemma orbit1_clock: "\<exists>dt. ephclk env1 (timeadd (ob_time obs1) (- CLIGHT / CLIGHT)) noon (ob_sat obs1) nav1 = Some dt"
proof -
  have "seleph (pe_sel env1) noon 1 (-1) (en_eph nav1) = Some (orbit1\<lparr>eph_toe := noon\<rparr>)"
    by (simp add: seleph_def nav1_def orbit1_def eph_zero_def timediff_def noon_def seleph_skip_def seleph_tmax_def
        satsys_def MAXDTOE_def Let_def)
  then show ?thesis by (simp add: ephclk_def obs1_def satsys_def kepler_sys_def Let_def)
qed

lemma precise1: "satpos env1 t noon sat EPHOPT_PREC nav1 st1 = Some (True, st1\<lparr>st_var := 4\<rparr>)"
  by (simp add: satpos_def env1_def Let_def EPHOPT_BRDC_def EPHOPT_PREC_def EPHOPT_SBAS_def EPHOPT_SSRAPC_def
      EPHOPT_SSRCOM_def st1_def)

end
