(* ===== verification/Spec2Isabelle.thy ===== *)
theory Spec2Isabelle
  imports Concrete4
begin

text \<open>
  The message codecs and the estimators of RTKLIB, the C library under \<^verbatim>\<open>src/rely/rtklib\<close> that
  NavPost is built on: RTCM 3, RTCM 2, the navigation data of the satellite signals, SBAS; the
  positions of satellites; least squares, the Kalman filter and integer least squares.

  \<^bold>\<open>The program.\<close>  \<^verbatim>\<open>input_rtcm3\<close> (\<^verbatim>\<open>rtcm.c\<close>) takes a byte stream, cuts frames out of it
  (preamble, ten-bit length, 24-bit parity) and hands each message to \<^verbatim>\<open>decode_rtcm3\<close>
  (\<^verbatim>\<open>rtcm3.c\<close>), which updates one control struct \<^verbatim>\<open>rtcm_t\<close>: observations, ephemerides,
  station, corrections, lock and phase histories.  \<^verbatim>\<open>gen_rtcm3\<close> is the way back: a message of
  \<^verbatim>\<open>encode_rtcm3\<close> (\<^verbatim>\<open>rtcm3e.c\<close>) made from the struct, padded and closed with the parity.
  \<^verbatim>\<open>input_rtcm2\<close> does the same for RTCM 2, whose messages are navigation words of thirty bits
  (24 data bits, a parity that chains with the word before) in bytes that carry six bits each, and
  hands them to \<^verbatim>\<open>decode_rtcm2\<close> (\<^verbatim>\<open>rtcm2.c\<close>), which updates the same struct.  The readers of
  receiver formats collect the navigation data of the signals; \<^verbatim>\<open>rcvraw.c\<close> decodes subframes,
  pages and strings to ephemerides, almanacs and parameters of ionosphere and UTC.  \<^verbatim>\<open>sbas.c\<close> takes
  SBAS messages, keeps the corrections for satellites and for the grid of the ionosphere, and
  computes corrections from them.  \<^verbatim>\<open>ephemeris.c\<close> chooses an ephemeris, computes position, velocity
  and clock of a satellite from it, and applies the corrections of SBAS and SSR; \<^verbatim>\<open>satposs\<close> does so
  for the observations of an epoch.  Positioning solves its equations with \<^verbatim>\<open>lsq\<close> and \<^verbatim>\<open>filter\<close>
  (\<^verbatim>\<open>rtkcmn.c\<close>), over \<^verbatim>\<open>matmul\<close> and \<^verbatim>\<open>matinv\<close>, and fixes carrier-phase ambiguities with \<^verbatim>\<open>lambda\<close>
  (\<^verbatim>\<open>lambda.c\<close>): factorisation of the covariance, reduction of the lattice, search, and back by
  \<^verbatim>\<open>solve\<close>.  The codecs rest on the bit fields, parities, satellite numbers,
  observation codes and times of \<^verbatim>\<open>rtkcmn.c\<close>.

  \<^bold>\<open>Theories.\<close>  \<open>NavPrelude\<close>: C arithmetic (truncating division, conversions, \<open>ROUND\<close>), the
  state monad, shared lemmas.  \<open>Bits\<close>, \<open>BitFields\<close>: \<^verbatim>\<open>getbitu\<close>, \<^verbatim>\<open>setbitu\<close> and their
  signed, sign-magnitude and 38-bit forms; the locale \<open>fixed_field\<close> with an interpretation per
  form.  \<open>CrcTables\<close>, \<open>Crc\<close>: \<^verbatim>\<open>rtk_crc32\<close>, \<^verbatim>\<open>rtk_crc24q\<close>, \<^verbatim>\<open>rtk_crc16\<close>, their tables and
  generators; locale \<open>crc_reg\<close>, three interpretations.  \<open>SatSys\<close>, \<open>ObsCode\<close>, \<open>GTime\<close>:
  satellite numbers and ids, observation codes and frequencies, times.  \<open>RtcmTypes\<close>: \<^verbatim>\<open>rtcm_t\<close>
  and the records in it, \<^verbatim>\<open>init_rtcm\<close>, well-formedness.  \<open>RtcmInv\<close>: what all decoders keep,
  as the locale \<open>rtcm_invariant\<close>, interpreted for well-formedness and for the members the framer
  owns.  \<open>Rtcm3Obs\<close>, \<open>Rtcm3Sta\<close>, \<open>Rtcm3Eph\<close>, \<open>Rtcm3Ssr\<close>, \<open>Rtcm3Msm\<close>, \<open>Rtcm3\<close>:
  the decoders and their dispatch, one definition per C function.  \<open>Rtcm\<close>: the framer, its locale
  \<open>frame_decoder\<close> and the specification \<open>split3\<close> of a stream as a list of frames.
  \<open>Writers\<close>, \<open>Rtcm3eObs\<close>, \<open>Rtcm3eSta\<close>, \<open>Rtcm3eEph\<close>, \<open>Rtcm3eSsr\<close>, \<open>Rtcm3eMsm\<close>,
  \<open>Rtcm3e\<close>: the encoders and their dispatch.  \<open>RtcmGen\<close>: \<^verbatim>\<open>gen_rtcm3\<close>, over the locale
  \<open>frame_encoder\<close>, interpreted for \<^verbatim>\<open>encode_rtcm3\<close>.  \<open>Wire\<close>, \<open>RoundTrip\<close>, \<open>EphTrip\<close>:
  messages from one struct to another.  \<open>MsmCells\<close>, \<open>LockTime\<close>, \<open>SsrSize\<close>: cells, lock time
  indicators and sizes of encoded messages.  \<open>Descriptors\<close>: the strings of received station
  messages and the arrays they are stored in.

  \<open>NavWord\<close>: \<^verbatim>\<open>decode_word\<close>, the parity equations it computes, the errors it detects.
  \<open>Rtcm2\<close>: the decoders of RTCM 2, over the locale \<open>rtcm2_invariant\<close> (which extends
  \<open>rtcm_invariant\<close>), interpreted as for RTCM 3; what the loops do.  \<open>Rtcm2In\<close>: \<^verbatim>\<open>input_rtcm2\<close>,
  over the locale \<open>frame_decoder2\<close>, interpreted for \<^verbatim>\<open>decode_rtcm2\<close>; the sender of a message as
  a specification.  \<open>RawNav\<close> (Galileo, NavIC, split fields), \<open>RawBds\<close> (BeiDou), \<open>RawGlo\<close>
  (GLONASS and the test of its strings), \<open>RawGps\<close> (GPS, QZSS and almanacs): the decoders of
  \<^verbatim>\<open>rcvraw.c\<close>; \<open>RawFacts\<close>: what they compute.  \<open>Sbas\<close>: the messages of \<^verbatim>\<open>sbas.c\<close> and the
  tables they update; \<open>SbasInv\<close>: the grid, the invariant of the tables, what each message leaves and
  where it accesses an array outside; \<open>SbasCorr\<close>: the corrections; \<open>SbasFacts\<close>: bounds, round trip.

  \<open>Mat\<close>: the matrix routines and estimators of \<^verbatim>\<open>rtkcmn.c\<close>; \<open>MatLu\<close>: the LU decomposition and
  the inverse; \<open>MatEst\<close>: linear equations, least squares, filter, smoother.  \<open>Lambda\<close>: all of
  \<^verbatim>\<open>lambda.c\<close>; \<open>LambdaRed\<close>: factorisation and reduction; \<open>LambdaSearch\<close>: the path of the search
  and the vectors still to come; \<open>LambdaBest\<close>: the vectors it keeps and their sort; \<open>LambdaIls\<close>:
  the result in terms of the covariance matrix.
  \<open>Ephem\<close>: all of \<^verbatim>\<open>ephemeris.c\<close>; \<open>EphemFacts\<close>: selection, Kepler's equation and the orbit, the
  integration, the size of corrections; the locale \<open>position_source\<close> is what \<^verbatim>\<open>ephpos\<close> uses of an
  ephemeris, interpreted for the three kinds.
  \<open>Concrete\<close>, \<open>Concrete2\<close>, \<open>Concrete3\<close>, \<open>Concrete4\<close>: the data the theorems are applied to.

  \<^bold>\<open>State and operations.\<close>  The record \<open>rtcm\<close> has the members of \<^verbatim>\<open>rtcm_t\<close> with the prefix
  \<open>r_\<close>; arrays are lists, whose lengths the invariant \<open>wf_state\<close> fixes.  A C function that
  updates the struct returns it, with the status.  An access outside an array is None; a decoder
  that cannot make one is a total function.  In \<open>Sbas\<close> every access, to the message as well, goes
  through an operation that compares the index with the length (\<open>msg_u\<close>, \<open>arr_get\<close>, \<open>arr_put\<close>).  Reading a message is a state monad over the bit
  position, writing one over buffer and position, in the order of the statements of the code; the
  position behind the last bit decides whether an encoder stayed in the buffer of 1200 bytes (None
  otherwise).  Entries of local arrays the code does not initialise are None, and so is an encoder
  that would send one.  The decoders of navigation data return the outputs they write, None for an
  error; a null pointer for an output is None in the argument.  The corrections of SBAS are the
  record \<open>sbsnav\<close>, the part of \<^verbatim>\<open>nav_t\<close> they occupy, with the invariant \<open>wf_sbsnav\<close>; the static
  variables of \<^verbatim>\<open>sbstropcorr\<close> are the record \<open>trop\<close>.  Machine integers are words where the
  code computes on bits (\<open>getbitu\<close>, parities, the word register of RTCM 2) and integers reduced to
  the width of their member elsewhere; the overflow of signed arithmetic is undefined in C and does
  not occur in the ranges the fields have; the conversion of a lock time to milliseconds, whose range
  is not bounded by a field, is \<open>int_of_double\<close>, with the value of the common processors outside.  The types \<^verbatim>\<open>double\<close> and \<^verbatim>\<open>float\<close> are modelled by
  real numbers: the statements about values of observations, times and parameters are about exact
  arithmetic.  The clock of the host and the table of code priorities (a static array that
  \<^verbatim>\<open>setcodepri\<close> writes) are the record \<open>env\<close>.  Matrices are functions of row and column, and the
  memory an estimator allocates and may leave unwritten is an argument.  Every function of the model
  is total or of type option; no fuel is added: loops are recursion over lists and counters, or, in
  RTCM 2 and the parity of words, functions with a measure (the bits left behind the position, the
  value shifted out); the loop of the reduction is a partial function that is shown to return, and
  the search counts its rounds as the code does (10000, a status otherwise), as does the iteration
  for Kepler's equation (30); the integration of GLONASS orbits is a partial function that is shown to
  return.  Precise ephemerides, antenna offsets and the content of unwritten local variables are
  members of the record \<open>penv\<close>.

  \<^bold>\<open>What is shown.\<close>  Streams: the framer of RTCM 3 computes \<open>split3\<close>, resynchronises, rejects
  short bursts of errors, stays in its buffer; that of RTCM 2 delivers what a sender sends, stays in
  its buffer, and its parity is that of the interface document and detects three wrong bits.  End to
  end: what \<^verbatim>\<open>gen_rtcm3\<close> leaves is a frame that reaches a receiver's decoder bit by bit, and for the
  reference point, the descriptors and the GPS ephemeris the receiver's struct is given as a
  function of the sender's; the codec of a message is related by \<open>carries\<close>, whose rules follow
  encoder and decoder statement by statement.  Encoders: where MSM messages are well defined, how
  many corrections fit, that lock time indicators are monotone.  Decoders: every message keeps the
  struct well formed and the framer's members unchanged; slots, headers and buffers of observations
  stay in their bounds; ephemerides are stored where they are reported; the loops of RTCM 2 visit
  every record.  Navigation data: fields in pieces, the check sums of GLONASS, the week of an
  ephemeris, which BeiDou's decoders get wrong.  SBAS: messages as sent are accepted, the tables
  stay well formed, masks change by messages of masks only, messages of another issue change nothing,
  exactly which messages access an array outside, which corrections are used, that the delay
  of the ionosphere is interpolated.  Estimation: \<^verbatim>\<open>matinv\<close> inverts every matrix that has an
  inverse, \<^verbatim>\<open>lsq\<close> minimises the residuals, \<^verbatim>\<open>filter\<close> is optimal for the states in use, the
  reduction ends in a reduced basis, and \<^verbatim>\<open>lambda\<close> returns the best integer vectors.  Satellites:
  which ephemeris is chosen, that positions lie on the orbit of the interface document, that the
  integration ends, how far a correction moves a satellite, and where \<^verbatim>\<open>satposs\<close> writes a variance
  to the wrong place.  Library: parities equal their bitwise definitions and detect
  bursts, bit fields, satellite numbers, times and weeks are inverse to each other.

  \<^bold>\<open>Not modelled.\<close>  Traces and the text of \<^verbatim>\<open>msgtype\<close> (output only); text formats of times and
  the files of SBAS messages (stdio); the receiver formats (\<^verbatim>\<open>rcv/\<close> and their dispatch in
  \<^verbatim>\<open>rcvraw.c\<close>), one reader for each manufacturer, whose navigation data is modelled; the loops of
  positioning over the estimators and the models of precise orbits (\<^verbatim>\<open>preceph.c\<close>), delays and tides,
  which are numerical; rounding errors of the estimators; the variants of the matrix routines over LAPACK;
  files, sockets and threads; the C++ and Qt layers of NavPost, which call the library; vendored
  libraries.
\<close>

section \<open>RTCM 3 streams\<close>

text \<open>
  C1. Feeding a byte stream to input_rtcm3 from an idle struct does exactly what cutting the
  stream into frames (preamble, ten-bit length, parity) and delivering each complete frame with
  a correct parity to decode_rtcm3 does; the incomplete rest is what stays in the message
  buffer.
\<close>

theorem stream_is_frames:
  assumes "length (r_buff rtcm) = 1200" and "r_nbyte rtcm = 0"
  shows "feed3 (decode_rtcm3 e) rtcm bs =
    do { (rtcm, rets) \<leftarrow> deliver_all (decode_rtcm3 e) rtcm (fst (split3 bs));
         Some (load rtcm (snd (split3 bs)), rets) }"
  using assms by (rule rtcm3.feed3_split)

lemma stream_is_frames_witness:
  "feed3 (decode_rtcm3 env0) rtcm0 [0x00, 0xD3, 0x00] = Some (load rtcm0 [0xD3, 0x00], [])"
  using stream_is_frames [of rtcm0 env0 "[0x00, 0xD3, 0x00]"] by (simp add: partial_def)

text \<open>
  C2. A frame with a correct parity is decoded as soon as its last byte has arrived, whatever
  bytes other than the preamble came before it, and the framer is idle again for what follows.
\<close>

theorem resync_after_garbage:
  assumes "length (r_buff rtcm) = 1200" and "r_nbyte rtcm = 0"
    and "RTCM3PREAMB \<notin> set xs" and "is_frame f" and "parity_ok f"
  shows "feed3 (decode_rtcm3 e) rtcm (xs @ f @ bs) =
    do { (rtcm, ret) \<leftarrow> decode_rtcm3 e ((load rtcm f)\<lparr>r_nbyte := 0\<rparr>);
         (rtcm, rets) \<leftarrow> feed3 (decode_rtcm3 e) rtcm bs;
         Some (rtcm, if ret = 0 then rets else ret # rets) }"
  using assms by (rule feed3_resync)

lemma resync_after_garbage_witness:
  "feed3 (decode_rtcm3 env0) rtcm0 ([0x00, 0xFF] @ frame4095 @ []) =
    do { (rtcm, ret) \<leftarrow> decode_rtcm3 env0 ((load rtcm0 frame4095)\<lparr>r_nbyte := 0\<rparr>);
         (rtcm, rets) \<leftarrow> feed3 (decode_rtcm3 env0) rtcm [];
         Some (rtcm, if ret = 0 then rets else ret # rets) }"
  by (rule resync_after_garbage) (simp_all add: frame4095_ok)

text \<open>
  C3. A frame whose bits behind the header are changed within a burst of at most 24 bits, in the
  message or in the parity, is taken in without a decoder being called: no status is reported
  and only buffer and length change.
\<close>

theorem burst_not_decoded:
  assumes "is_frame f" and "parity_ok f" and "length g = length f"
    and "differ_within k 24 (length f) f g" and "24 \<le> k"
    and "length (r_buff rtcm) = 1200" and "r_nbyte rtcm = 0"
  shows "feed3 (decode_rtcm3 e) rtcm g = Some ((load rtcm g)\<lparr>r_nbyte := 0\<rparr>, [])"
  using assms by (rule corrupted_frame)

lemma burst_not_decoded_witness:
  "feed3 (decode_rtcm3 env0) rtcm0 (frame4095[4 := 0xA5]) =
    Some ((load rtcm0 (frame4095[4 := 0xA5]))\<lparr>r_nbyte := 0\<rparr>, [])"
  by (rule burst_not_decoded [of frame4095 _ 32]) (simp_all add: frame4095_ok frame4095_burst)

text \<open>
  C4. Whatever the stream, the number of bytes collected stays below 1029, so that every store
  of the framer is inside the message buffer of 1200 bytes.
\<close>

theorem framer_bounds:
  assumes "length (r_buff rtcm) = 1200" and "r_nbyte rtcm = 0"
    and "feed3 (decode_rtcm3 e) rtcm bs = Some (rtcm', rets)"
  shows "r_nbyte rtcm' < 1029"
  using assms by (rule input_rtcm3_bound)

lemma framer_bounds_witness: "r_nbyte (load rtcm0 [0xD3, 0x00]) < 1029"
  by (rule framer_bounds [of rtcm0 env0 "[0xD3, 0x00]" _ "[]"])
     (simp_all add: feed3_partial partial_def del: feed3.simps)

text \<open>
  Reading a stream can access memory out of bounds only while decoding a frame with a correct
  parity whose message is one of 1007, 1008, 1033 or an MSM message with observations (types 4
  to 7).
\<close>

theorem framer_failures:
  assumes "length (r_buff rtcm) = 1200" and "r_nbyte rtcm = 0"
    and "feed3 (decode_rtcm3 e) rtcm bs = None"
  shows "\<exists>f \<in> set (fst (split3 bs)). parity_ok f \<and> unsafe_type (frame_type f)"
  using assms by (rule input_rtcm3_None)

lemma framer_failures_witness:
  "\<exists>f \<in> set (fst (split3 frame1007)). parity_ok f \<and> unsafe_type (frame_type f)"
  by (rule framer_failures [where rtcm = rtcm0 and e = env0]) (simp_all add: frame1007_overflow)

text \<open>
  C5. Reading a frame with a correct parity that holds a message 1007, 1008 or 1033 (descriptors
  of antenna and receiver) ends in a store outside the 64 characters of a member of the station
  record exactly when the message is complete, its station is accepted, and one of its strings
  is announced with 64 characters or more: the decoders limit the characters they read to 31,
  but not the count that they pass to strncpy and index the terminator with.
\<close>

theorem descriptor_overflow:
  assumes "length (r_buff rtcm) = 1200" and "r_nbyte rtcm = 0" and "is_frame f" and "parity_ok f"
    and "frame_type f \<in> {1007, 1008, 1033}"
  shows "feed3 (decode_rtcm3 e) rtcm f = None \<longleftrightarrow>
    text_complete (load rtcm f) \<and> station_accepted (load rtcm f) \<and> text_too_long (load rtcm f)"
  using assms by (rule strings_frame)

lemma descriptor_overflow_witness: "feed3 (decode_rtcm3 env0) rtcm0 frame1007 = None"
  using descriptor_overflow [of rtcm0 frame1007 env0] frame1007_text frame1007_ok by simp

section \<open>Integer least squares\<close>

text \<open>
  C6. For a symmetric covariance matrix, the vectors that lambda returns are m different integer
  vectors in ascending order of their distance from the float solution in the metric of the
  inverse covariance, the values it returns are these distances, and no other integer vector is
  nearer than the last of them (when at least m vectors are nearer than 1E99, the initial bound
  of the search).
\<close>

theorem lambda_best:
  assumes "lambda E n m a Q F0 s0 = Some (F, s)" and "symmetric n Q"
  shows "\<exists>q. (\<forall>w v. sqdist n Q (\<lambda>i. of_int (w i) - a i) v \<longleftrightarrow> v = q w) \<and> (enough n m q \<longrightarrow> best n m q F s)"
  using assms by (rule lambda_is_best)

lemma lambda_best_witness:
  "\<exists>F s q. lambda zeros 1 1 origin eye zeros origin = Some (F, s) \<and>
    (\<forall>w v. sqdist 1 eye (\<lambda>i. of_int (w i) - origin i) v \<longleftrightarrow> v = q w) \<and> (enough 1 1 q \<longrightarrow> best 1 1 q F s)"
proof -
  obtain F s where R: "lambda zeros 1 1 origin eye zeros origin = Some (F, s)" using lambda_example by blast
  show ?thesis using lambda_best [OF R symmetric_eye] R by blast
qed

text \<open>
  C7. The reduction ends for every covariance matrix that LD factorises; what it returns is the
  same quadratic form in another basis of the integer lattice, with every element of L below the
  diagonal at most one half and the conditional variances ordered up to the tolerance of the
  code.
\<close>

theorem reduction_ends:
  assumes "LD n Q zeros D0 = Some (L, D)" and "0 < n"
  shows "\<exists>L' D' Z. reduction n L D eye = Some (L', D', Z) \<and> in_basis n L D L' D' Z \<and>
    (\<forall>c<n. small n L' c) \<and> (\<forall>c. c + 1 < n \<longrightarrow> ordered L' D' c)"
  by (rule reduction_returns [where D = D, OF LD_result(1) [OF assms(1)] LD_result(2) [OF assms(1)] assms(2)])

lemma reduction_ends_witness:
  "\<exists>L D L' D' Z. LD 1 eye zeros (\<lambda>i. 0) = Some (L, D) \<and> reduction 1 L D eye = Some (L', D', Z)"
  using LD_example reduction_ends [OF _ zero_less_one] by metis

text \<open>
  The search alone, without the reduction, finds the best vectors as well.
\<close>

theorem lambda_search_best:
  assumes "lambda_search n m a Q F0 s0 = Some (F, s)" and "symmetric n Q"
  shows "\<exists>q. (\<forall>w v. sqdist n Q (\<lambda>i. of_int (w i) - a i) v \<longleftrightarrow> v = q w) \<and> (enough n m q \<longrightarrow> best n m q F s)"
  using assms by (rule search_is_best)

text \<open>
  The factors of LD: L is lower triangular with ones on the diagonal, D positive, and L'DL has
  the lower half of the matrix.
\<close>

theorem factorisation:
  assumes "LD n Q zeros D0 = Some (L, D)"
  shows "unit_lower n L" and "i < n \<Longrightarrow> 0 < D i" and "r < n \<Longrightarrow> c \<le> r \<Longrightarrow> Q r c = ltdl n L D r c"
  using LD_result [OF assms] by blast+

section \<open>Matrices and estimation\<close>

text \<open>
  C8. matinv, by LU decomposition with row exchanges and substitution, returns the inverse of a
  matrix, and reports an error only for a matrix that has none.
\<close>

theorem matinv_inverts:
  "case matinv A n of None \<Rightarrow> \<forall>B. \<not> is_inv n A B | Some B \<Rightarrow> is_inv n A B"
  by (rule matinv_cases)

text \<open>
  C9. The parameters that lsq returns minimise the sum of the squares of the residuals, nothing
  else does, and the covariance it returns is the inverse of the normal matrix.
\<close>

theorem least_squares_minimum:
  assumes "lsq A y n m x0 Q0 = (0, x, Q)"
  shows "(\<forall>z. resid_ss A y n m x \<le> resid_ss A y n m z \<and> (resid_ss A y n m z = resid_ss A y n m x \<longrightarrow> (\<forall>i<n. z i = x i))) \<and>
    is_inv n (\<lambda>i j. \<Sum>k<m. A i k * A j k) Q"
proof -
  have "(\<lambda>i j. mv m A (\<lambda>x. A j x) i) = (\<lambda>i j. \<Sum>k<m. A i k * A j k)" by (simp only: mv_def)
  then have "is_inv n (\<lambda>i j. \<Sum>k<m. A i k * A j k) Q" using lsq_value(2) [OF assms] by (simp only:)
  then show ?thesis by (intro conjI allI impI lsq_least [OF assms])
qed

lemma least_squares_minimum_witness:
  "\<exists>x Q. lsq eye lsq_y 1 1 (\<lambda>i. 0) zeros = (0, x, Q) \<and> resid_ss eye lsq_y 1 1 x \<le> resid_ss eye lsq_y 1 1 (\<lambda>i. 3)"
  using lsq_example least_squares_minimum by blast

text \<open>
  C10. The Kalman filter changes only the states in use (value not 0, variance positive); for
  these, with symmetric positive semidefinite covariances that have inverses, its state
  minimises the weighted distance from prediction and measurements, and its covariance is the
  inverse of the sum of the information of both.
\<close>

theorem kalman_optimal:
  assumes "kfilter Pp0 x P H v R n m = (0, x', P')" and "ix = filter_states x P n" and "k = length ix"
    and "xs = (\<lambda>i. x (ix ! i))" and "Ps = (\<lambda>i j. P (ix ! i) (ix ! j))" and "Hs = (\<lambda>i j. H (ix ! i) j)"
    and "symmetric k Ps" and "psd k Ps" and "is_inv k Ps Pi" and "symmetric m R" and "psd m R" and "is_inv m R Ri"
  shows "(\<forall>z. post_cost k m Pi Ri Hs xs v (\<lambda>i. x' (ix ! i)) \<le> post_cost k m Pi Ri Hs xs v z) \<and>
    (\<forall>u. \<forall>i<k. mv k (\<lambda>i j. Pi i j + (\<Sum>a<m. Hs i a * (\<Sum>b<m. Ri a b * Hs j b)))
      (mv k (\<lambda>i j. P' (ix ! i) (ix ! j)) u) i = u i) \<and>
    (\<forall>i. i \<notin> set ix \<longrightarrow> x' i = x i) \<and> (\<forall>i j. i \<notin> set ix \<or> j \<notin> set ix \<longrightarrow> P' i j = P i j)"
  by (rule kfilter_optimal [OF assms])

lemma kalman_optimal_witness:
  "\<exists>x' P'. kfilter zeros kf_x eye eye kf_v eye 1 1 = (0, x', P') \<and> P' 1 1 = 1"
proof -
  obtain x' P' where K: "kfilter zeros kf_x eye eye kf_v eye 1 1 = (0, x', P')" using kf_example by blast
  have "P' 1 1 = eye 1 1"
    using kalman_optimal [OF K kf_states_1 refl refl refl refl kf_sub kf_hyps] by simp
  then show ?thesis using K by (auto simp: eye_def)
qed

text \<open>
  C11. The filter reports an error exactly when the covariance of the innovation, H'PH+R over
  the states in use, is singular; then it keeps the states, but writes into the covariance of
  the states in use what the memory allocated for the result held before.
\<close>

theorem filter_failure:
  assumes "ix = filter_states x P n" and "k = length ix"
    and "S = (\<lambda>a b. (\<Sum>i<k. H (ix ! i) a * (\<Sum>j<k. P (ix ! i) (ix ! j) * H (ix ! j) b)) + R a b)"
  shows "(fst (kfilter Pp0 x P H v R n m) = 0 \<longleftrightarrow> (\<exists>B. is_inv m S B)) \<and>
    ((\<nexists>B. is_inv m S B) \<longrightarrow> (\<exists>P'. kfilter Pp0 x P H v R n m = (-1, x, P') \<and>
      (\<forall>i<k. \<forall>j<k. P' (ix ! i) (ix ! j) = Pp0 i j)))"
proof -
  obtain info x' P' where K: "kfilter Pp0 x P H v R n m = (info, x', P')" by (rule prod_cases3)
  show ?thesis
    using kfilter_singular [OF assms, of Pp0 v m] kfilter_fails [OF K _ assms(1)] K assms(2) by auto
qed

lemma filter_failure_witness:
  "\<exists>P'. kfilter kf_mem kf_x eye zeros kf_v zeros 1 1 = (-1, kf_x, P') \<and> P' 0 0 = 7"
  using filter_failure [OF kf_states_1 refl refl, of kf_mem zeros kf_v zeros 1] kf_singular by (auto simp: kf_mem_def)

text \<open>
  The solution of linear equations, with the matrix or its transpose.
\<close>

theorem equations_solved:
  assumes "solve t A Y n m X = Some X'" and "i < n" and "j < m"
  shows "mv n (if t ! 0 = CHR ''N'' then A else trm A) (\<lambda>k. X' k j) i = Y i j"
  using assms by (rule solve_value)

text \<open>
  The smoother weights both solutions with the inverses of their covariances.
\<close>

theorem smoother_combines:
  assumes "smoother xf Qf xb Qb n xs0 Qs0 = (0, xs, Qs)"
  shows "\<exists>Vf Vb. is_inv n Qf Vf \<and> is_inv n Qb Vb \<and> is_inv n (\<lambda>i j. Vf i j + Vb i j) Qs \<and>
    (\<forall>i<n. mv n (\<lambda>i j. Vf i j + Vb i j) xs i = mv n Vf xf i + mv n Vb xb i)"
  using assms by (rule smoother_value)

section \<open>Positions of satellites\<close>

text \<open>
  C12. The selection of an ephemeris returns an entry of the satellite within the limit of age
  of its system (with the issue of data, if one is given; for Galileo from the selected message
  and before the time) whenever there is one; without an issue of data no entry that qualifies
  is closer in time.
\<close>

theorem ephemeris_selected:
  "selected time (seleph_tmax (fst (satsys sat))) (0 \<le> iode)
     (\<lambda>e. \<not> (eph_sat e = sat \<and> (iode < 0 \<or> eph_iode e = iode) \<and>
        (fst (satsys sat) \<noteq> SYS_GAL \<or>
           (sel ! 2 \<noteq> 0 \<or> bit (eph_code e) 9) \<and> (sel ! 2 \<noteq> 1 \<or> bit (eph_code e) 8) \<and> timediff (eph_toe e) time < 0)))
     eph_toe es (seleph sel time sat iode es) \<and>
   selected time 1800 (0 \<le> iode) (\<lambda>g. \<not> (ge_sat g = sat \<and> (iode < 0 \<or> ge_iode g = iode))) ge_toe gs
     (selgeph time sat iode gs) \<and>
   selected time 360 False (\<lambda>s. \<not> se_sat s = sat) se_t0 ss (selseph time sat ss)"
  using seleph_selected selgeph_selected selseph_selected by blast

lemma ephemeris_selected_witness:
  "selected noon 360 False (\<lambda>s. \<not> se_sat s = 201) se_t0 (en_seph nav1) (Some seph1)"
  using ephemeris_selected [THEN conjunct2, THEN conjunct2, of noon 201 "en_seph nav1"] seph1_selected by simp

text \<open>
  C13. Where Kepler's equation is solved, the position from a broadcast ephemeris lies on the
  ellipse of the interface document, turned and corrected as it says, at an eccentric anomaly
  that satisfies the equation within 2e-13 times the eccentricity, and the clock is the
  polynomial with the relativistic term (BeiDou's geostationary satellites are excluded).
\<close>

theorem orbit_position:
  assumes "0 < eph_A eph" and "0 \<le> eph_e eph" and "eph_e eph < 1" and "\<not> bds_geo eph"
    and "kepler (eph_M time eph) (eph_e eph) = Some E" and "3 \<le> length rs"
  shows "\<bar>E - eph_e eph * sin E - eph_M time eph\<bar> \<le> 2 * eph_e eph * RTOL_KEPLER \<and>
    on_orbit time eph E (take 3 (fst (eph2pos time eph (rs, dts, var)))) \<and>
    fst (snd (eph2pos time eph (rs, dts, var))) =
      (let t = timediff time (eph_toc eph) in eph_f0 eph + eph_f1 eph * t + eph_f2 eph * t\<^sup>2 -
         2 * sqrt (eph_mu eph * eph_A eph) * eph_e eph * sin E / CLIGHT\<^sup>2)"
  using kepler_residual [OF assms(2,3,5)] eph2pos_orbit [OF assms] eph2pos_clock [OF assms(1,5)] by blast

lemma orbit_position_witness:
  "on_orbit time0 orbit1 0 (take 3 (fst (eph2pos time0 orbit1 (replicate 6 0, 0, 0))))"
  using orbit_position [OF orbit1_hyps orbit1_kepler, of "replicate 6 0" 0 0] by simp

text \<open>
  C14. The integration of a GLONASS orbit ends for every time. It makes as many full steps of a
  minute, forwards or backwards from the reference time, as fit, and then one step of what is
  left, if that is more than a nanosecond; position, clock and variance are those of the state
  reached.
\<close>

theorem glonass_orbit:
  "geph2pos time g (rs, dts, var) =
    (let t = timediff time (ge_toe g); full = (if t < 0 then - 60 else 60); n = nat \<lfloor>\<bar>t\<bar> / 60\<rfloor>; rest = t - real n * full;
         steps = replicate n full @ (if \<bar>rest\<bar> > 1 / 10 ^ 9 then [rest] else []);
         x = fold (\<lambda>s x. glorbit s x (ge_acc g)) steps (take 3 (ge_pos g) @ take 3 (ge_vel g))
     in Some (put3 rs (x ! 0) (x ! 1) (x ! 2), - ge_taun g + ge_gamn g * t, SQR ERREPH_GLO))"
  unfolding geph2pos_steps glo_steps_def full_step_def Let_def ..

text \<open>
  C15. A position corrected by SSR is at most 10 m from the broadcast one (for the option that
  refers to the centre of mass, from the broadcast one moved by the antenna offset), because
  radial, along-track and cross-track are at right angles, and the clock at most a microsecond
  from the broadcast clock.
\<close>

theorem ssr_correction_limits:
  assumes "satpos_ssr env time teph sat nav opt st = Some (True, st')"
    and "3 \<le> length (st_rs st)" and "st_dts st \<noteq> []"
  shows "\<exists>st0 st1. ephpos env time teph sat nav (ssr_iode (en_ssr nav ! nat (sat - 1))) st = Some (True, st0) \<and>
    ssr_clock env time teph sat nav (ssr_iode (en_ssr nav ! nat (sat - 1))) st0 = Some st1 \<and>
    (\<Sum>k<3. (st_rs st' ! k - st_rs st0 ! k - (if opt then pe_satantoff env time (st_rs st0) sat else [0, 0, 0]) ! k)\<^sup>2)
      \<le> 10\<^sup>2 \<and>
    \<bar>st_dts st' ! 0 - st_dts st1 ! 0\<bar> \<le> 1 / 10 ^ 6"
  using satpos_ssr_shift [OF assms] by (simp add: MAXECORSSR_def MAXCCORSSR_def CLIGHT_def)

lemma ssr_correction_limits_witness:
  "\<exists>st0 st'. satpos_ssr env1 noon noon 201 nav1 True st1 = Some (True, st') \<and>
    ephpos env1 noon noon 201 nav1 0 st1 = Some (True, st0) \<and>
    (\<Sum>k<3. (st_rs st' ! k - st_rs st0 ! k - [0, 0, 0] ! k)\<^sup>2) \<le> 10\<^sup>2"
proof -
  obtain st' where S: "satpos_ssr env1 noon noon 201 nav1 True st1 = Some (True, st')" using ssr1_used by blast
  show ?thesis using ssr_correction_limits [OF S] S
    by (simp add: st1_def nav1_def ssr1_def ssr0_def env1_def) blast
qed

text \<open>
  C16. When no precise clock is known, satposs takes the broadcast clock at the transmission
  time as the clock of the satellite, without drift, and keeps position and health; it means to
  set the variance to that of broadcast clocks, but sets that of the first observation instead
  and leaves that of the satellite.
\<close>

theorem fallback_variance_misplaced:
  assumes "first_pr ob = Some pr" and "t = timeadd (ob_time ob) (- pr / CLIGHT)"
    and "ephclk env t teph (ob_sat ob) nav = Some dt"
    and "satpos env (timeadd t (- dt)) teph (ob_sat ob) ephopt nav
      \<lparr>st_rs = replicate 6 0, st_dts = [0, 0], st_var = 0, st_svh = 0\<rparr> = Some (True, st)"
    and "st_dts st ! 0 = 0" and "i < length sts"
  shows "\<exists>sts' dts. satpos_obs env teph nav ephopt i ob sts = Some sts' \<and>
    ephclk env (timeadd t (- dt)) teph (ob_sat ob) nav = Some dts \<and>
    st_dts (sts' ! i) = [dts, 0] \<and> st_rs (sts' ! i) = st_rs st \<and> st_svh (sts' ! i) = st_svh st \<and>
    st_var (sts' ! 0) = SQR STD_BRDCCLK \<and> (i = 0 \<or> st_var (sts' ! i) = st_var st)"
  using fallback_variance [OF assms] by auto

lemma fallback_variance_misplaced_witness:
  "\<exists>sts' dts. satpos_obs env1 noon nav1 EPHOPT_PREC 1 obs1 [st1, st1] = Some sts' \<and>
    st_dts (sts' ! 1) = [dts, 0] \<and> st_var (sts' ! 0) = SQR STD_BRDCCLK \<and> st_var (sts' ! 1) = 4"
proof -
  obtain dt where "ephclk env1 (timeadd (ob_time obs1) (- CLIGHT / CLIGHT)) noon (ob_sat obs1) nav1 = Some dt"
    using orbit1_clock by blast
  from fallback_variance_misplaced [OF obs1_pr refl this precise1 [unfolded st1_def], of 1 "[st1, st1]"]
  show ?thesis by auto
qed

text \<open>
  The computation for the satellites of an epoch ends, keeps the number of entries, and leaves
  the entries behind the last observation as they were.
\<close>

theorem satellites_of_epoch:
  "\<exists>sts'. satposs env teph obs nav ephopt sts = Some sts' \<and> length sts' = length sts \<and>
    (\<forall>k. k \<noteq> 0 \<longrightarrow> length obs \<le> k \<longrightarrow> sts' ! k = sts ! k)"
  by (rule satposs_frame)

section \<open>RTCM 3 messages end to end\<close>

text \<open>
  C17. Whenever gen_rtcm3 reports a message, the bytes it leaves are one frame with a correct
  parity; a receiver that is fed them byte by byte calls its decoder exactly once, with a
  message whose bits behind the header are those the encoder wrote and whose length is the
  encoder's rounded up to bytes.
\<close>

theorem generated_frame:
  assumes "gen_rtcm3 tx type subtype sync = Some (tx', ret)" and "ret \<noteq> 0"
    and "length (r_buff tx) = 1200" and "length (r_buff rx) = 1200" and "r_nbyte rx = 0"
  shows "\<exists>r rr msg. encode_rtcm3 (opened tx) type subtype sync = Some (r, rr) \<and> rr \<noteq> 0 \<and>
    is_frame (frame_of tx') \<and> parity_ok (frame_of tx') \<and> msg = received rx (frame_of tx') \<and>
    feed3 (decode_rtcm3 e) rx (frame_of tx') =
      do { (rtcm, status) \<leftarrow> decode_rtcm3 e msg; Some (rtcm, if status = 0 then [] else [status]) } \<and>
    r_nbit r \<le> 8 * r_len msg \<and> 8 * r_len msg < r_nbit r + 8 \<and>
    (\<forall>k. 24 \<le> k \<and> k < r_nbit r \<longrightarrow> bufbit (r_buff msg) k = bufbit (r_buff r) k)"
  by (rule generated_received [OF assms, of "decode_rtcm3 e"]) blast

lemma generated_frame_witness:
  "\<exists>tx'. gen_rtcm3 site 1006 0 0 = Some (tx', 1) \<and> is_frame (frame_of tx') \<and> parity_ok (frame_of tx')"
proof -
  obtain tx' rx' where g: "gen_rtcm3 site 1006 0 0 = Some (tx', 1)"
    by (rule reference_point [OF _ rover_receiver _ _ _ site_point, where subtype = 0 and sync = 0 and e = env0])
       simp_all
  then show ?thesis using generated_frame [OF g, of rover env0] by auto
qed

text \<open>
  C18. Message 1006 from end to end: generated from one struct and fed to another it arrives
  (status 5) and sets the station number, the coordinates rounded down to a tenth of a
  millimetre and the antenna height rounded to the nearest one (0 where it is not in 0 to 6.5535
  m).
\<close>

theorem reference_point_roundtrip:
  assumes "length (r_buff tx) = 1200" and "receiver rx"
    and "0 \<le> r_staid tx" and "r_staid tx < 4096" and "r_staid rx = 0 \<or> r_staid rx = r_staid tx"
    and "arp_fits (r_sta tx)"
  shows "\<exists>tx' rx'. gen_rtcm3 tx 1006 subtype sync = Some (tx', 1) \<and>
    feed3 (decode_rtcm3 e) rx (frame_of tx') = Some (rx', [5]) \<and> r_staid rx' = r_staid tx \<and>
    sta_pos (r_sta rx') =
      map (\<lambda>k. of_int \<lfloor>sta_pos (r_sta tx) ! k / 0.0001\<rfloor> * 0.0001) [0, 1, 2] \<and>
    sta_hgt (r_sta rx') =
      (let h = sta_hgt (r_sta tx)
       in if 0 \<le> h \<and> h \<le> 6.5535 then of_int (ROUND (h / 0.0001)) * 0.0001 else 0)"
  by (rule reference_point [OF assms, of subtype sync e])
     (simp only: arp_coord_def arp_height_def Let_def list.map, blast)

lemma reference_point_roundtrip_witness:
  "\<exists>tx' rx'. gen_rtcm3 site 1006 0 0 = Some (tx', 1) \<and>
    feed3 (decode_rtcm3 env0) rover (frame_of tx') = Some (rx', [5]) \<and> r_staid rx' = 7"
  using reference_point_roundtrip [OF site_fields(1) rover_receiver _ _ _ site_point, of 0 0 env0] by auto

text \<open>
  C19. Message 1033 from end to end: the antenna and receiver descriptors of the sender arrive
  at the receiver (status 5) with their first 31 characters, together with the setup number and
  the station's name; none of them reaches the array bounds.
\<close>

theorem descriptor_roundtrip:
  assumes "length (r_buff tx) = 1200" and "receiver rx"
    and "0 \<le> r_staid tx" and "r_staid tx < 4096" and "r_staid rx = 0 \<or> r_staid rx = r_staid tx"
    and "s = r_sta tx" and "0 \<le> sta_antsetup s" and "sta_antsetup s < 256"
    and "\<forall>t \<in> {sta_antdes s, sta_antsno s, sta_rectype s, sta_recver s, sta_recsno s}. no_nul t"
  shows "\<exists>tx' rx'. gen_rtcm3 tx 1033 subtype sync = Some (tx', 1) \<and>
    feed3 (decode_rtcm3 e) rx (frame_of tx') = Some (rx', [5]) \<and>
    r_sta rx' = (r_sta rx)\<lparr>sta_name := print_0d 4 (r_staid tx), sta_antdes := take 31 (sta_antdes s),
      sta_antsetup := sta_antsetup s, sta_antsno := take 31 (sta_antsno s),
      sta_rectype := take 31 (sta_rectype s), sta_recver := take 31 (sta_recver s),
      sta_recsno := take 31 (sta_recsno s)\<rparr>"
  by (rule descriptors [OF assms, of subtype sync e]) blast

lemma descriptor_roundtrip_witness:
  "\<exists>tx' rx'. gen_rtcm3 site 1033 0 0 = Some (tx', 1) \<and>
    feed3 (decode_rtcm3 env0) rover (frame_of tx') = Some (rx', [5]) \<and>
    sta_rectype (r_sta rx') = ''TRIMBLE NETR9''"
proof -
  have "sta_rectype (r_sta site) = ''TRIMBLE NETR9''" by (simp add: site_def)
  then show ?thesis
    using descriptor_roundtrip [OF site_fields(1) rover_receiver _ _ _ refl _ _ site_texts, of 0 0 env0]
    by (auto simp: site_setup)
qed

text \<open>
  C20. Message 1019 from end to end: a GPS ephemeris whose parameters are in the range of their
  fields is stored by the receiver (status 2) under the satellite it belongs to, every parameter
  rounded to the weight of its field, with the full week number recovered from ten bits by the
  receiver's clock and the times of ephemeris and clock of that week.
\<close>

theorem ephemeris_roundtrip:
  assumes "length (r_buff tx) = 1200" and "receiver rx"
    and "1 \<le> sat" and "sat \<le> 32" and "r_ephsat tx = sat" and "eph = old_eph tx sat 0" and "eph_sat eph = sat"
    and "in_range_1019 eph" and "passes_1019 e rx eph"
  shows "\<exists>tx' rx'. gen_rtcm3 tx 1019 subtype sync = Some (tx', 1) \<and>
    feed3 (decode_rtcm3 e) rx (frame_of tx') = Some (rx', [2]) \<and>
    r_ephsat rx' = sat \<and> r_ephset rx' = 0 \<and>
    old_eph rx' sat 0 = received_1019 (r_time rx) eph"
  by (rule ephemeris_1019 [OF assms, of subtype sync]) blast

lemma ephemeris_roundtrip_witness:
  "\<exists>tx' rx'. gen_rtcm3 site 1019 0 0 = Some (tx', 1) \<and>
    feed3 (decode_rtcm3 env0) rover (frame_of tx') = Some (rx', [2]) \<and>
    eph_week (old_eph rx' 1 0) = 2288 \<and> eph_toes (old_eph rx' 1 0) = 7200"
proof -
  have s: "eph_sat eph_site = 1" by (simp add: eph_site_def)
  have r: "eph_week (received_1019 t eph_site) = 2288" "eph_toes (received_1019 t eph_site) = 7200" for t
    by (simp_all add: received_1019_def sent_1019_def eph_site_def ROUND_def)
  show ?thesis
    using ephemeris_roundtrip [OF site_fields(1) rover_receiver _ _ site_fields(3) site_fields(4) [symmetric]
        s eph_site_range eph_site_passes, of 0 0] r by fastforce
qed

text \<open>
  C21. The messages MSM2 to MSM7 of a system are encoded, within the message buffer and from
  initialised cells only, exactly where the observations have fewer than 64 cells; with 64
  cells, which fit in the message, the last cell is passed over and undefined values are sent.
\<close>

theorem msm_cells_encoded:
  assumes "msm_base sys \<noteq> None" and "length (r_buff rtcm) = 1200"
    and "f \<in> {encode_msm2, encode_msm3, encode_msm4, encode_msm5, encode_msm6, encode_msm7}"
  shows "if mi_ncell (gen_msm_index rtcm sys) < 64 then \<exists>rtcm'. f rtcm sys sync = Some (rtcm', 1)
         else f rtcm sys sync = None"
  using assms by (rule msm_encoders_defined)

lemma msm_cells_encoded_witness:
  "(\<exists>rtcm'. encode_msm7 (observer 10) SYS_GPS 0 = Some (rtcm', 1)) \<and> encode_msm7 (observer 32) SYS_GPS 0 = None"
proof -
  have b: "msm_base SYS_GPS \<noteq> None" by (simp add: msm_base_def)
  show ?thesis
    using msm_cells_encoded [OF b observer_buff, of encode_msm7 10 0]
      msm_cells_encoded [OF b observer_buff, of encode_msm7 32 0]
    by (simp add: observer_cells)
qed

text \<open>
  C22. The three lock time indicators fit in their fields, and a receiver that compares the
  indicator of a signal with the last one reports no slip as long as the sender's lock time
  grows and the indicator is not 0. For the indicators of MSM this holds for every lock time
  (the milliseconds, whose conversion to an int overflows from 2147483.648 s on, are only used
  below 67108.864 s); for the seven-bit one while the seconds fit an int.
\<close>

theorem lock_indicators:
  assumes "(ind, n) \<in> {(to_msm_lock, 4), (to_msm_lock_ex, 10)} \<or> (ind, n) = (\<lambda>x. to_lock (int_of_double x), 7) \<and> y < 2 ^ 31"
    and "x \<le> y" and "r_lock rx ! nat (sat - 1) ! k = ind x" and "ind y \<noteq> 0"
  shows "0 \<le> ind y \<and> ind y < 2 ^ n \<and> snd (lossoflock rx sat k (ind y)) = 0"
proof -
  have "ind \<in> {to_msm_lock, to_msm_lock_ex} \<or> ind = (\<lambda>x. to_lock (int_of_double x)) \<and> y < 2 ^ 31" using assms(1) by blast
  moreover have "0 \<le> ind y \<and> ind y < 2 ^ n"
    using assms(1) lock_table_bounds(1) [of "int_of_double y"] lock_table_bounds(2,3) [of y] by auto
  ultimately show ?thesis using locked_no_slip assms(2-4) by blast
qed

lemma lock_indicators_witness:
  "snd (lossoflock (rtcm0\<lparr>r_lock := [[3]]\<rparr>) 1 0 (to_msm_lock 4.5)) = 0"
  using lock_indicators [of to_msm_lock 4 "4.5" "0.2" "rtcm0\<lparr>r_lock := [[3]]\<rparr>" 1 0]
  by (simp add: to_msm_lock_def)

text \<open>
  C23. A combined orbit and clock message leaves the message buffer of 1200 bytes exactly for
  BeiDou with more than 41 satellites that have a correction in the RTCM form, and more than 46
  in the IGS form; the encoder does not check it, and there are 63 satellites. The messages of
  all other systems fit.
\<close>

theorem combined_correction_limit:
  assumes "length (r_buff rtcm) = 1200" and "0 \<le> subtype"
  shows "encode_ssr4 rtcm sys subtype sync = None \<longleftrightarrow>
    sys = SYS_CMP \<and> (if subtype = 0 then 41 else 46) < length (ssr_sats rtcm SYS_CMP)"
  using assms by (rule ssr4_overflow)

lemma combined_correction_limit_witness:
  "encode_ssr4 corrections SYS_CMP 0 0 = None \<and> encode_ssr4 corrections SYS_CMP 103 0 = None \<and>
    encode_ssr4 corrections SYS_GAL 0 0 \<noteq> None"
  using combined_correction_limit [OF corrections_buff, of 0 SYS_CMP 0] combined_correction_limit [OF corrections_buff, of 103 SYS_CMP 0]
    combined_correction_limit [OF corrections_buff, of 0 SYS_GAL 0] corrections_sats by simp

section \<open>RTCM 3 decoders\<close>

text \<open>
  C24. Every message the decoder completes leaves a well-formed control struct: array sizes, at
  most 96 observation records of distinct valid satellites, strings within their arrays, tables
  of their size.
\<close>

theorem decoder_keeps_wf:
  assumes "wf_state rtcm" and "decode_rtcm3 e rtcm = Some (rtcm', ret)"
  shows "wf_state rtcm'"
  using assms by (rule decode_rtcm3_wf)

lemma decoder_keeps_wf_witness: "wf_state (count_msg (load rtcm0 frame4095) 4095)"
  by (rule decoder_keeps_wf [OF load4095_wf load4095_decoded])

text \<open>
  C25. For the signals of an MSM message of a satellite system: the slot of each is none or one
  of the eleven of an observation record, two signals never share a slot, and a signal that
  keeps the slot of its frequency has the highest priority of the frequency.
\<close>

theorem msm_signal_slots:
  assumes "one_system sys" and "\<forall>s \<in> set sigs. 1 \<le> s \<and> s \<le> 32" and "length sigs \<le> 32"
    and "code = sig_codes sys sigs" and "idx = map (code2idx sys) code"
    and "idx' = sigindex tbl sys code (length sigs) opt idx"
  shows "(\<forall>i < length sigs. -1 \<le> idx' ! i \<and> idx' ! i < int NOBS) \<and>
    (\<forall>i < length sigs. \<forall>k < length sigs. i \<noteq> k \<and> 0 \<le> idx' ! i \<longrightarrow> idx' ! i \<noteq> idx' ! k) \<and>
    (\<forall>i < length sigs. \<forall>k < length sigs. code ! i \<noteq> CODE_NONE \<and> code ! k \<noteq> CODE_NONE \<and>
       idx ! k = idx ! i \<and> idx' ! i = idx ! i \<longrightarrow>
       getcodepri tbl sys (code ! k) opt \<le> getcodepri tbl sys (code ! i) opt)"
proof -
  have inp: "sig_input code idx (length sigs)" using sig_codes_input [OF assms(1-3)] assms(4,5) by simp
  note slots = sigindex_slots [OF inp assms(6)]
  show ?thesis using slots(1,2,4) by blast
qed

lemma msm_signal_slots_witness:
  "sigindex codepris SYS_GPS (sig_codes SYS_GPS [2, 3, 4]) (length [2, 3, 4 :: nat]) []
     (map (code2idx SYS_GPS) (sig_codes SYS_GPS [2, 3, 4])) ! 1 < int NOBS"
  using msm_signal_slots [of SYS_GPS "[2, 3, 4]" _ _ _ codepris "[]", OF _ _ _ refl refl refl]
  by (simp add: one_system_def)

text \<open>
  C26. When a Kepler ephemeris message is reported (status 2), the satellite number it leaves is
  valid and the table of its set holds a record of that satellite.
\<close>

theorem ephemeris_reported:
  assumes "wf_state rtcm"
    and "decode \<in> {decode_type1019, decode_type1041, decode_type1042, decode_type1044, decode_type1045, decode_type1046}"
    and "decode e rtcm = (rtcm', 2)"
  shows "1 \<le> r_ephsat rtcm' \<and> r_ephsat rtcm' \<le> MAXSAT \<and> r_ephset rtcm' \<in> {0, 1} \<and>
    eph_sat (old_eph rtcm' (r_ephsat rtcm') (r_ephset rtcm')) = r_ephsat rtcm'"
  using decode_eph_reported [OF assms(1), of e rtcm'] assms(2,3) by (auto simp: eph_reported_def)

lemma ephemeris_reported_witness: "1 \<le> r_ephsat (fst (decode_type1019 env0 msg1019))"
  using ephemeris_reported [OF msg1019_wf, of decode_type1019] msg1019_decoded by blast

section \<open>Parity\<close>

text \<open>
  C27. The bytewise table-driven parity is the bitwise division register of the CRC-24Q
  polynomial run over the bits of the message, most significant first.
\<close>

theorem crc24_bitwise:
  assumes "n \<le> length b"
  shows "rtk_crc24q b n = feeds sh24 23 (msg_bits (take n b)) 0"
  using assms by (rule rtk_crc24q_register)

lemma crc24_bitwise_witness: "rtk_crc24q frame4095 5 = feeds sh24 23 (msg_bits (take 5 frame4095)) 0"
  by (rule crc24_bitwise) (simp add: frame4095_ok)

section \<open>Bit fields\<close>

text \<open>
  A signed field reads back every value of its range.
\<close>

theorem signed_roundtrip:
  assumes "pos + n \<le> 8 * length b" and "0 < n" and "n \<le> 32"
    and "- (2 ^ (n - 1)) \<le> v" and "v < 2 ^ (n - 1)"
  shows "getbits (setbits b pos n v) pos n = v"
  using assms by (rule getbits_setbits_in_range)

lemma signed_roundtrip_witness: "getbits (setbits [0, 0] 3 6 (-17)) 3 6 = -17"
  by (rule signed_roundtrip) simp_all

section \<open>Satellites and signals\<close>

text \<open>
  The numbering of satellites: satsys inverts satno on every system and slot that has a number,
  and satno inverts satsys on the numbers 1 to 221.
\<close>

theorem satellite_numbers:
  "(satno sys prn \<noteq> 0 \<longrightarrow> satsys (satno sys prn) = (sys, prn)) \<and>
   (1 \<le> sat \<and> sat \<le> MAXSAT \<longrightarrow> satno (fst (satsys sat)) (snd (satsys sat)) = sat)"
  using satsys_satno satno_satsys [OF _ _ surjective_pairing] by blast

lemma satellite_numbers_witness: "satsys (satno SYS_GLO 24) = (SYS_GLO, 24)"
  using satellite_numbers [of SYS_GLO 24 1] by (simp add: satno_def)

section \<open>Time\<close>

text \<open>
  From 1970 to 2099, a time broken into a calendar date and put together again is the same time.
\<close>

theorem calendar_roundtrip:
  assumes "normal_time t" and "0 \<le> gt_time t" and "gt_time t < 4102444800"
  shows "epoch2time (time2epoch t) = t"
  using assms by (rule epoch2time_time2epoch)

lemma calendar_roundtrip_witness:
  "epoch2time (time2epoch \<lparr>gt_time = 1700000000, gt_sec = 0.25\<rparr>) = \<lparr>gt_time = 1700000000, gt_sec = 0.25\<rparr>"
  by (rule calendar_roundtrip) (simp_all add: normal_time_def)

text \<open>
  Week and seconds of the week survive the conversion to a time and back, in GPS, Galileo and
  BeiDou time.
\<close>

theorem week_roundtrip:
  assumes "0 \<le> week" and "0 \<le> sec" and "sec < 604800"
  shows "time2gpst (gpst2time week sec) = (sec, week) \<and> time2gst (gst2time week sec) = (sec, week) \<and>
    time2bdt (bdt2time week sec) = (sec, week)"
  using time2gpst_gpst2time [OF assms] time2gst_gst2time [OF assms] time2bdt_bdt2time [OF assms] by blast

lemma week_roundtrip_witness: "time2gpst (gpst2time 2290 345600.5) = (345600.5, 2290)"
  using week_roundtrip [of 2290 "345600.5"] by simp

text \<open>
  Converting a UTC time to GPS time and back gives the time again, over the whole table of leap
  seconds.
\<close>

theorem utc_roundtrip:
  assumes "normal_time t"
  shows "gpst2utc (utc2gpst t) = t"
  using assms by (rule gpst2utc_utc2gpst)

lemma utc_roundtrip_witness:
  "gpst2utc (utc2gpst \<lparr>gt_time = 1483228800, gt_sec = 0\<rparr>) = \<lparr>gt_time = 1483228800, gt_sec = 0\<rparr>"
  by (rule utc_roundtrip) (simp add: normal_time_def)

section \<open>RTCM 2 streams\<close>

text \<open>
  C28. The parity routine of navigation words, a table of bit masks and a loop that folds the
  masked word bit by bit, computes the parity equations of IS-GPS-200 (table 20-XIV): a word is
  accepted exactly when they hold, and what comes out are its 24 source bits, complemented back
  where D30* is set.
\<close>

theorem word_parity_equations:
  "decode_word w = (if parity_equations w then Some (nav_bytes w) else None)"
  by (rule decode_word_icd)

text \<open>
  C29. An accepted word in which one, two or three of its thirty bits are changed (the two bits
  kept from the word before are the same) is rejected.
\<close>

theorem word_errors_detected:
  assumes "decode_word w \<noteq> None" and "drop_bit 30 w' = drop_bit 30 w"
    and "0 < card {n. bit w n \<noteq> bit w' n}" and "card {n. bit w n \<noteq> bit w' n} \<le> 3"
  shows "decode_word w' = None"
  using assms by (rule decode_word_detects)

lemma word_errors_detected_witness: "decode_word 7 = None"
  by (rule word_errors_detected [of 0 7], unfold three_bits) (simp_all add: decode_word_zero)

text \<open>
  C30. An RTCM 2 message of up to 33 words, sent as parity words in bytes that carry six bits
  each, least significant first, reaches the decoder exactly once and with its bytes, from an
  idle struct whose register holds the end of another word; the framer is idle again after it.
  The bits kept from the word before must not be 01 (see the theorem after this one).
\<close>

theorem rtcm2_message_received:
  assumes "length (r_buff rtcm) = 1200" and "r_nbyte rtcm = 0" and "r_word rtcm \<in> {0, 2, 3}"
    and "is_message2 msg"
  shows "feed2 (decode_rtcm2 e) rtcm (pack6 (send2 (bit (r_word rtcm) 1) (bit (r_word rtcm) 0) msg)) =
    (let w = shift_bits (send2 (bit (r_word rtcm) 1) (bit (r_word rtcm) 0) msg) (r_word rtcm);
         (rtcm, ret) = decode_rtcm2 e ((load2 rtcm msg (w AND 3))\<lparr>r_nbyte := 0\<rparr>)
     in Some (rtcm, if ret = 0 then [] else [ret]))"
  using assms by (rule message2_received)

lemma rtcm2_message_received_witness:
  "feed2 (decode_rtcm2 env0) rtcm0 (pack6 (send2 False False message6)) =
    (let w = shift_bits (send2 False False message6) 0;
         (rtcm, ret) = decode_rtcm2 env0 ((load2 rtcm0 message6 (w AND 3))\<lparr>r_nbyte := 0\<rparr>)
     in Some (rtcm, if ret = 0 then [] else [ret]))"
  using rtcm2_message_received [of rtcm0 message6 env0] rtcm0_framed2
  by (simp add: framed2_def rtcm0_word message6_ok)

text \<open>
  What excludes 01 above: after a word that ends in D29 = 0, D30 = 1 a correct message can be
  such that its first thirty bits, taken two bits early, show the preamble and a correct parity
  as well: the framer locks there and the message is lost, whatever the decoder.
\<close>

theorem early_preamble_missed:
  "is_message2 early_message \<and>
    map_option snd (feed2 dcd (rtcm_zero\<lparr>r_word := 1\<rparr>) (pack6 (send2 False True early_message))) = Some []"
  using early_message_ok early_message_missed by blast

text \<open>
  C31. Whatever bytes come, the RTCM 2 framer never stores outside its buffer: the number of
  bytes collected and the length of the message keep to 99, so that reading a stream always has
  a result.
\<close>

theorem framer2_stays:
  assumes "framed2 rtcm"
  shows "\<exists>r. feed2 (decode_rtcm2 e) rtcm bs = Some r \<and> framed2 (fst r)"
  using assms by (rule rtcm2.feed2_framed)

lemma framer2_stays_witness:
  "\<exists>r. feed2 (decode_rtcm2 env0) rtcm0 [0x66, 0x59, 0x7F] = Some r \<and> framed2 (fst r)"
  by (rule framer2_stays [OF rtcm0_framed2])

section \<open>RTCM 2 decoders\<close>

text \<open>
  C32. Every RTCM 2 message leaves a well-formed control struct, and the status is one of those
  the documentation lists.
\<close>

theorem decoder2_keeps_wf:
  assumes "wf_state rtcm"
  shows "wf_state (fst (decode_rtcm2 e rtcm)) \<and> snd (decode_rtcm2 e rtcm) \<in> {-1, 0, 1, 2, 5, 6, 7, 9}"
  using wf2.inv_decode_rtcm2 [OF assms] decode_rtcm2_status by blast

lemma decoder2_keeps_wf_witness:
  "wf_state (fst (decode_rtcm2 env0 rtcm0)) \<and> snd (decode_rtcm2 env0 rtcm0) \<in> {-1, 0, 1, 2, 5, 6, 7, 9}"
  by (rule decoder2_keeps_wf [OF rtcm0_wf])

text \<open>
  The loops of messages 1, 18 and 19 end: the first after one round for each whole record that
  fits behind the header, the other two after as many rounds, or earlier when the observation
  buffer is full; each round works on the record at its own offset.
\<close>

theorem rtcm2_loops_end:
  "loop1 i rtcm = fold (\<lambda>k r. rec1 r (i + 40 * k)) [0..<(r_len rtcm * 8 - i) div 40] rtcm \<and>
   (\<exists>n. ran (rec18 freq usec) i rtcm sync (loop18 freq usec i rtcm sync) n) \<and>
   (\<exists>n. ran (rec19 freq usec) i rtcm sync (loop19 freq usec i rtcm sync) n)"
  by (intro conjI loop1_rounds loop18_ran loop19_ran)

text \<open>
  Message 1 stores a differential correction for every record of 40 bits, in order, under the
  satellite number of the record (0 stands for 32): time, range and rate corrections in the
  units of the scale flag, issue and accuracy. No record is taken for a satellite with a
  problem, as the code's test for that value cannot be true.
\<close>

theorem corrections_stored:
  "decode_type1 rtcm = (fold (\<lambda>k r. case r_dgps r of None \<Rightarrow> r
      | Some ds \<Rightarrow> r\<lparr>r_dgps := Some (ds[dgps_slot r (48 + 40 * k) := dgps_rec r (48 + 40 * k)])\<rparr>)
    [0..<(r_len rtcm * 8 - 48) div 40] rtcm, 7)"
  unfolding decode_type1_def loop1_rounds rec1_stores ..

text \<open>
  The time of an RTCM 2 message, given within the hour, is resolved to the instant with that
  time of hour within half an hour of the reference time.
\<close>

theorem hour_resolved:
  assumes "normal_time (ref_time e rtcm)" and "315964800 \<le> gt_time (ref_time e rtcm)"
    and "0 \<le> zcnt" and "zcnt < 3600"
  shows "\<bar>timediff (r_time (adjhour e rtcm zcnt)) (ref_time e rtcm)\<bar> \<le> 1800 \<and>
    (\<exists>k :: int. tval (r_time (adjhour e rtcm zcnt)) = 315964800 + 3600 * of_int k + zcnt)"
  using adjhour_nearest [OF assms] by blast

section \<open>Navigation data of the signals\<close>

text \<open>
  A signed value of the navigation message that was cut in three pieces anywhere in the subframe
  is put together again to the same value, sign included.
\<close>

theorem split_fields_roundtrip:
  assumes "0 < l1" and "l1 + l2 + l3 \<le> 32" and "p1 + l1 \<le> 8 * length b" and "p2 + l2 \<le> 8 * length b"
    and "p3 + l3 \<le> 8 * length b" and "p1 + l1 \<le> p2 \<or> p2 + l2 \<le> p1"
    and "p1 + l1 \<le> p3 \<or> p3 + l3 \<le> p1" and "p2 + l2 \<le> p3 \<or> p3 + l3 \<le> p2"
    and "- (2 ^ (l1 + l2 + l3 - 1)) \<le> v" and "v < 2 ^ (l1 + l2 + l3 - 1)"
  shows "getbits3 (set3 b p1 l1 p2 l2 p3 l3 v) p1 l1 p2 l2 p3 l3 = v"
  using assms by (rule getbits3_set3)

lemma split_fields_roundtrip_witness:
  "getbits3 (set3 (replicate 4 0) 0 4 8 6 20 5 (-1234)) 0 4 8 6 20 5 = -1234"
  by (rule split_fields_roundtrip) simp_all

text \<open>
  C33. The Hamming check of a GLONASS string, eight masks and a table of byte parities, computes
  the check sums of the interface document: a string is accepted exactly when none of the eight
  sums is odd, or two of them, the sum over all bits being one.
\<close>

theorem glostr_check_sums:
  "test_glostr buff \<longleftrightarrow>
    (let cs = check_sums buff; n = length (filter id cs) in n = 0 \<or> n = 2 \<and> last cs)"
  by (rule test_glostr_icd)

text \<open>
  C34. If a GLONASS string whose sums are even arrives with at most two wrong bits and is
  accepted, all its data bits are right: only check bits can be wrong.
\<close>

theorem glostr_data_kept:
  assumes "\<not> (\<exists>c \<in> set (check_sums b). c)" and "test_glostr b'"
    and "card {n. 1 \<le> n \<and> n \<le> 85 \<and> string_bit b n \<noteq> string_bit b' n} \<le> 2" and "9 \<le> n" and "n \<le> 85"
  shows "string_bit b' n = string_bit b n"
  using assms by (rule test_glostr_data)

lemma glostr_data_kept_witness: "string_bit glo_received 85 = string_bit glo_sent 85"
  by (rule glostr_data_kept) (use glo_sent_ok glo_received_ok glo_errors in simp_all)

text \<open>
  C35. The ephemeris that the subframes of GPS, QZSS, NavIC and Galileo give has its reference
  time within half a week of the time of transmission, also where one of them is in the next or
  the last week.
\<close>

theorem ephemeris_week:
  assumes "decode_frame_eph e buff eph = Some g \<and> getu buff 24 17 < 100800 \<or>
      decode_irn_eph e buff eph = Some g \<and> getu buff 8 17 < 50400 \<or>
      decode_gal_inav_eph buff eph = Some g \<and> getu buff 725 20 < 604800 \<or>
      decode_gal_fnav_eph buff eph = Some g \<and> getu buff 167 20 < 604800"
    and "eph_toes g < 604800"
  shows "\<bar>timediff (eph_toe g) (eph_ttr g)\<bar> \<le> 302400"
  using assms decode_frame_week decode_irn_week decode_inav_week decode_fnav_week by blast

lemma ephemeris_week_witness:
  "\<exists>g. decode_frame_eph env0 sf_gps eph_zero = Some g \<and> \<bar>timediff (eph_toe g) (eph_ttr g)\<bar> \<le> 302400"
proof -
  obtain g where g: "decode_frame_eph env0 sf_gps eph_zero = Some g" "eph_toes g = 0"
    using sf_gps_decoded by blast
  then have "\<bar>timediff (eph_toe g) (eph_ttr g)\<bar> \<le> 302400"
    by (intro ephemeris_week [of env0 sf_gps eph_zero]) (simp_all add: sf_gps_fields)
  then show ?thesis using g by blast
qed

text \<open>
  C36. The decoders of BeiDou correct the week in the wrong direction: when the reference time
  of the ephemeris is in the other week than its transmission, the time they give it is more
  than ten and a half days away from the transmission instead of less than three and a half.
\<close>

theorem bds_week_error:
  assumes "decode_bds_d1_eph buff eph = Some g \<or> decode_bds_d2_eph buff eph = Some g"
    and "bds_sow buff 0 < 604800" and "eph_toes g < 604800"
  shows "(if \<bar>eph_toes g - of_int (bds_sow buff 0)\<bar> \<le> 302400
      then \<bar>timediff (eph_toe g) (eph_ttr g)\<bar> \<le> 302400 else 907200 < \<bar>timediff (eph_toe g) (eph_ttr g)\<bar>)"
  using assms by (rule decode_bds_week)

lemma bds_week_error_witness:
  "\<exists>g. decode_bds_d1_eph sf_bds eph_zero = Some g \<and> 907200 < \<bar>timediff (eph_toe g) (eph_ttr g)\<bar>"
proof -
  obtain g where g: "decode_bds_d1_eph sf_bds eph_zero = Some g" "eph_toes g = 400000"
    using sf_bds_decoded by blast
  then have "907200 < \<bar>timediff (eph_toe g) (eph_ttr g)\<bar>"
    using bds_week_error [of sf_bds eph_zero g] by (simp add: sf_bds_sow)
  then show ?thesis using g by blast
qed

text \<open>
  The almanac of a satellite goes to the entry behind its own: the entry of the satellite gets
  the number, the next one the parameters.
\<close>

theorem almanac_entry:
  assumes "1 \<le> sat" and "nat sat < length alm"
  shows "alm_store buff sat type alm ! nat sat = decode_alm_sat buff type (alm ! nat sat) \<and>
    alm_store buff sat type alm ! nat (sat - 1) = (alm ! nat (sat - 1))\<lparr>al_sat := sat\<rparr>"
  using alm_store_entry [OF assms] by blast

section \<open>SBAS\<close>

text \<open>
  C37. The 226 bits of an SBAS message, sent with their parity as the callers of sbsdecodemsg
  pass them (seven words of 32 bits, and one with the last two bits and the parity at its low
  end), are accepted and come out as the 29 bytes of the message. The comment in the source
  speaks of ten words of 24 bits, which the code does not read.
\<close>

theorem sbs_message_received:
  assumes "length m = 226" and "gt_time time \<noteq> 0"
  shows "snd (sbsdecodemsg dttol time prn (sbs_words m) sm) \<and>
    sm_msg (fst (sbsdecodemsg dttol time prn (sbs_words m) sm)) = bytes_of 29 (m @ replicate 6 False)"
  using assms by (rule sbsdecodemsg_sent)

lemma sbs_message_received_witness:
  "snd (sbsdecodemsg 0 \<lparr>gt_time = 1000, gt_sec = 0\<rparr> 133 (sbs_words (replicate 226 False)) (sbs_msg 0))"
  using sbs_message_received [of "replicate 226 False" "\<lparr>gt_time = 1000, gt_sec = 0\<rparr>" 0 133 "sbs_msg 0"] by simp



text \<open>
  C39. When exactly a message accesses an array outside: a message 6 when the mask holds more
  than 52 satellites (there are four issue numbers, one for each thirteen), and a message 7 of
  the current mask then, where the bits behind the 29 bytes of the message are read. No other
  message can, whatever its band, block, mask numbers and satellite: every access to the
  message, the tables of satellites, bands, grid points and ephemerides is compared with the
  length of its array.
\<close>

theorem sbs_out_of_bounds:
  assumes "wf_sbsnav nav" and "length (sm_msg msg) = 29"
  shows "sbsupdatecorr msg nav = None \<longleftrightarrow> sm_week msg \<noteq> 0 \<and> 52 < ss_nsat (sn_sat nav) \<and>
    (getu (sm_msg msg) 8 6 = 6 \<or>
     getu (sm_msg msg) 8 6 = 7 \<and> ss_iodp (sn_sat nav) = getu (sm_msg msg) 18 2)"
  using assms by (rule sbsupdatecorr_fails)

lemma sbs_out_of_bounds_witness: "sbsupdatecorr (sbs_msg 24) sbs60 = None"
  by (simp add: sbs_out_of_bounds sbs60_wf sbs_msg_length sbs_msg_types sbs_msg_week) (simp add: sbs60_def)

text \<open>
  A message of fast corrections (types 0 and 2 to 5) of the current mask sets the corrections of
  its block of thirteen satellites, each from its own fields of the message, and leaves every
  other satellite as it was.
\<close>

theorem sbs_fast_entries:
  assumes "ss_iodp s = getu (sm_msg msg) 16 2" and "getu (sm_msg msg) 8 6 \<in> {0, 2, 3, 4, 5}"
    and "wf_sbssat s" and "length (sm_msg msg) = 29" and "k < nat MAXSAT"
  shows "\<exists>s'. decode_sbstype2 msg s = Some (s', 1) \<and> ss_sat s' ! k =
    (let b = sm_msg msg; i = k - block (getu b 8 6) in
     if block (getu b 8 6) \<le> k \<and> i < 13 \<and> k < ss_nsat s
     then (ss_sat s ! k)\<lparr>sp_fcorr := fast_corr msg (getbits b (18 + i * 12) 12) (getu b (174 + 4 * i) 4)
            (getu b 14 2) (sp_fcorr (ss_sat s ! k))\<rparr>
     else ss_sat s ! k)"
  using assms by (rule type2_entries)

lemma sbs_fast_entries_witness:
  "\<exists>s'. decode_sbstype2 (sbs_msg 8) sat5 = Some (s', 1) \<and> ss_sat s' ! 0 =
    (ss_sat sat5 ! 0)\<lparr>sp_fcorr := fast_corr (sbs_msg 8) (getbits (sm_msg (sbs_msg 8)) 18 12)
      (getu (sm_msg (sbs_msg 8)) 174 4) 0 (sp_fcorr (ss_sat sat5 ! 0))\<rparr>"
  using sbs_fast_entries [of sat5 "sbs_msg 8" 0] sat5_wf
  by (simp add: sbs_msg_types sbs_msg_length sat5_fields block_def Let_def)

text \<open>
  A message of long-term corrections (type 25) whose first half has velocity code 0 and starts
  with an empty correction (mask number 0) changes nothing: neither the second correction of
  that half nor the second half is read.
\<close>

theorem long_correction_skipped:
  assumes "length (sm_msg msg) = 29" and "getu (sm_msg msg) 14 1 = 0" and "getu (sm_msg msg) 15 6 = 0"
  shows "decode_sbstype25 msg s = Some (s, 0)"
  using assms by (rule type25_skipped)

text \<open>
  A fast correction that is applied is one stored for the satellite, usable (UDRE below 15) and
  at most 30 seconds old, latency included; the variance given is at least that of its UDRE.
\<close>

theorem sbs_fast_correction_used:
  assumes "sbsfastcorr time sat s = Some (prc, var)"
  shows "\<exists>p \<in> set (ss_sat s). sp_sat p = sat \<and> gt_time (fc_t0 (sp_fcorr p)) \<noteq> 0 \<and>
    prc = fc_prc (sp_fcorr p) \<and> fc_udre (sp_fcorr p) < 15 \<and>
    \<bar>timediff time (fc_t0 (sp_fcorr p)) + of_int (ss_tlat s)\<bar> \<le> 30 \<and> varfcorr (fc_udre (sp_fcorr p)) \<le> var"
  using assms by (auto simp: sbsfastcorr_def dest!: fast_loop_sound dest: in_set_takeD)

lemma sbs_fast_correction_used_witness:
  "\<exists>p \<in> set (ss_sat sat5). sp_sat p = 5 \<and> fc_prc (sp_fcorr p) = 3 \<and> fc_udre (sp_fcorr p) < 15"
  using sbs_fast_correction_used [OF sat5_corr] by auto

text \<open>
  C40. The ionospheric delay along the line of sight is never outside the range of the delays of
  the usable grid points (and zero) times the obliquity factor, and its variance is not
  negative: the weights of the interpolation never extrapolate.
\<close>

theorem iono_delay_bounds:
  assumes "\<forall>ion \<in> set (sn_ion nav). \<forall>p \<in> set (io_igp ion). gt_time (ig_t0 p) \<noteq> 0 \<and> 0 < ig_give p \<longrightarrow>
      lo \<le> ig_delay p \<and> ig_delay p \<le> hi"
    and "lo \<le> 0" and "0 \<le> hi" and "fp = fst (ionppp (pos ! 0) (pos ! 1) (azel ! 0) (azel ! 1) 6378.1363 350)"
  shows "case sbsioncorr time nav pos azel of (ok, delay, var) \<Rightarrow> lo * fp \<le> delay \<and> delay \<le> hi * fp \<and> 0 \<le> var"
  using assms by (rule sbsioncorr_total)

lemma iono_delay_bounds_witness:
  "case sbsioncorr time0 sbs1 [0, 0, 0] [0, 1] of (ok, delay, var) \<Rightarrow> 0 \<le> delay \<and> 0 \<le> var"
  using iono_delay_bounds [OF sbs1_delays _ _ refl, of "[0, 0, 0]" "[0, 1]" time0] by (auto split: prod.splits)

text \<open>
  No two numbers of a band stand for the same grid point.
\<close>

theorem grid_points_distinct:
  assumes "0 \<le> band" and "band \<le> 10" and "igp_point band i = Some p" and "igp_point band j = Some p"
  shows "i = j"
  using assms by (rule igp_points)

text \<open>
  The weights of the four corners are not negative, add up to 1 and are zero at the corners that
  were not found.
\<close>

theorem interpolation_weights:
  assumes "igp_weights found x y = Some w" and "0 \<le> x" and "x \<le> 1" and "0 \<le> y" and "y \<le> 1"
  shows "(\<forall>k < 4. 0 \<le> w ! k \<and> (found ! k \<or> w ! k = 0)) \<and> w ! 0 + w ! 1 + w ! 2 + w ! 3 = 1"
  using assms by (rule igp_weights_mean)

text \<open>
  A message of a type without a decoder is passed over, and its type is returned (the
  documentation says -1).
\<close>

theorem unsupported_message_type:
  assumes "length (sm_msg msg) = 29" and "sm_week msg \<noteq> 0"
    and "getu (sm_msg msg) 8 6 \<notin> {0, 1, 2, 3, 4, 5, 6, 7, 9, 18, 24, 25, 26}"
  shows "sbsupdatecorr msg nav = Some (nav, getu (sm_msg msg) 8 6)"
  using assms by (rule sbsupdatecorr_unsupported)

lemma unsupported_message_type_witness: "sbsupdatecorr (sbs_msg 40) sbs0 = Some (sbs0, 10)"
  using unsupported_message_type [of "sbs_msg 40" sbs0] by (simp add: sbs_msg_types sbs_msg_length sbs_msg_week)

text \<open>
  The tropospheric correction keeps the zenith delays it has computed for a position: at any
  later time the answer is the one for the first time.
\<close>

theorem troposphere_kept:
  assumes "length pos = 3" and "sbstropcorr t1 pos azel trop_zero = (r, st)" and "tr_zh st \<noteq> 0"
  shows "sbstropcorr t2 pos azel st = (r, st)"
  using assms by (rule trop_kept)

section \<open>Further properties\<close>

text \<open>
  No message makes the decoder change the message buffer, its byte and bit counters, the length,
  the RTCM 2 word or the options.
\<close>

theorem decoder_frame:
  assumes "decode_rtcm3 e rtcm = Some (rtcm', ret)"
  shows "same_frame rtcm rtcm'"
  using assms by (rule decode_rtcm3_frame)

lemma decoder_frame_witness: "same_frame (load rtcm0 frame4095) (count_msg (load rtcm0 frame4095) 4095)"
  by (rule decoder_frame [OF load4095_decoded])

text \<open>
  A message of a type without a case in the dispatch (and without the option -RT_INP) is
  reported as no message and changes nothing but its counter.
\<close>

theorem unknown_messages_counted:
  assumes "\<not> known_type (msg_type rtcm)" and "strstr (r_opt rtcm) ''-RT_INP'' = None"
  shows "decode_rtcm3 e rtcm = Some (count_msg rtcm (msg_type rtcm), 0)"
  using assms by (rule decode_rtcm3_other)

lemma unknown_messages_counted_witness:
  "decode_rtcm3 env0 (load rtcm0 frame4095) =
     Some (count_msg (load rtcm0 frame4095) (msg_type (load rtcm0 frame4095)), 0)"
  by (rule unknown_messages_counted) (simp_all add: load4095_type known_type_def, simp add: load_def)

text \<open>
  What the header of an MSM message gives: satellites and signals in ascending order within 1 to
  64 and 1 to 32, a cell mask of at most 64 cells, the number of its ones, and a position that
  is still inside the message.
\<close>

theorem msm_header:
  assumes "decode_msm_head e rtcm sys = (rtcm', Some (ncell, sync, iod, h, i))"
  shows "wf_head h \<and> ncell = length (filter (\<lambda>c. c \<noteq> 0) (h_cellmask h)) \<and> i \<le> r_len rtcm' * 8"
  using decode_msm_head_spec [OF assms] by blast

lemma msm_header_witness: "wf_head no_sats"
  using msm_head_empty msm_header by blast

text \<open>
  Saving the observations of an MSM message stays inside the arrays it writes and reads when the
  message has at most 25 signals and, for GLONASS, no satellite number above 27.
\<close>

theorem msm_observations_fit:
  assumes "one_system sys" and "wf_head h" and "length (h_sigs h) \<le> 25"
    and "sys = SYS_GLO \<Longrightarrow> \<forall>s \<in> set (h_sats h). s \<le> 27"
  shows "save_msm_obs e rtcm sys h md \<noteq> None"
  using assms by (intro save_msm_obs_fits) auto

lemma msm_observations_fit_witness:
  "save_msm_obs env0 rtcm0 SYS_GLO (no_sats\<lparr>h_sats := [27], h_sigs := [2], h_cellmask := [1]\<rparr>)
     \<lparr>md_r = [0], md_pr = [0], md_cp = [0], md_rates = None, md_cnr = [0], md_lock = [0],
      md_ex = None, md_half = [0]\<rparr> \<noteq> None"
  by (rule msm_observations_fit) (simp_all add: one_system_def wf_head_def no_sats_def)

text \<open>
  Looking up a satellite in the observation buffer: its record exists afterwards and the set of
  satellites has grown by it alone, unless the buffer already holds 96 other satellites, where
  -1 is returned and nothing changes.
\<close>

theorem observation_record:
  assumes "wf_state rtcm" and "1 \<le> sat" and "sat \<le> MAXSAT" and "obsindex rtcm t sat = (rtcm', k)"
  shows "r_obs_n rtcm' \<le> r_obs_n rtcm + 1 \<and>
    (k = -1 \<and> rtcm' = rtcm \<and> r_obs_n rtcm = MAXOBS \<and> sat \<notin> set (obs_sats rtcm) \<or>
     0 \<le> k \<and> nat k < r_obs_n rtcm' \<and> ob_sat (r_obs rtcm' ! nat k) = sat \<and>
     set (obs_sats rtcm') = insert sat (set (obs_sats rtcm)))"
  using assms by (rule obsindex_spec)

lemma observation_record_witness:
  "ob_sat (r_obs (fst (obsindex rtcm0 time0 7)) ! nat (snd (obsindex rtcm0 time0 7))) = 7"
  using observation_record [OF rtcm0_wf, of 7 time0 "fst (obsindex rtcm0 time0 7)" "snd (obsindex rtcm0 time0 7)"]
  by (simp add: rtcm0_def init_rtcm_def)

text \<open>
  The time a message gives within the week is resolved to the instant with that time of week
  within half a week of the reference time (the time of the struct or, before the first message,
  of the clock).
\<close>

theorem week_resolved:
  assumes "normal_time (ref_time e rtcm)" and "315964800 \<le> gt_time (ref_time e rtcm)"
    and "0 \<le> tow" and "tow < 604800"
  shows "\<bar>timediff (r_time (adjweek e rtcm tow)) (ref_time e rtcm)\<bar> \<le> 302400 \<and>
    (\<exists>k :: int. tval (r_time (adjweek e rtcm tow)) = 315964800 + 604800 * of_int k + tow)"
  using adjweek_nearest [OF assms] by blast

lemma week_resolved_witness:
  "\<bar>timediff (r_time (adjweek env0 (rtcm0\<lparr>r_time := \<lparr>gt_time = 1700000000, gt_sec = 0\<rparr>\<rparr>) 5))
     (ref_time env0 (rtcm0\<lparr>r_time := \<lparr>gt_time = 1700000000, gt_sec = 0\<rparr>\<rparr>))\<bar> \<le> 302400"
  by (rule week_resolved [THEN conjunct1]) (simp_all add: ref_time_def get_time_def normal_time_def)

text \<open>
  The carrier phase of a message, given modulo 1500 cycles, is moved by at most one period, to
  within 750 cycles of the last phase of the satellite, when it was within one and a half
  periods of it.
\<close>

theorem phase_unwrapped:
  assumes "adjcp rtcm sat k cp = (rtcm', cp')" and "p = r_cp rtcm ! nat (sat - 1) ! k" and "p \<noteq> 0"
    and "\<bar>cp - p\<bar> \<le> 2250"
  shows "\<bar>cp' - p\<bar> \<le> 750 \<and> cp' \<in> {cp, cp + 1500, cp - 1500}"
  using adjcp_nearest [OF assms] by blast

lemma phase_unwrapped_witness:
  "\<bar>snd (adjcp (rtcm0\<lparr>r_cp := [[1000]]\<rparr>) 1 0 (-400)) - 1000\<bar> \<le> 750"
  by (rule phase_unwrapped [THEN conjunct1, OF surjective_pairing]) simp_all

text \<open>
  The table of CRC-24Q is what its generator computes from the polynomial, entry by entry.
\<close>

theorem crc24_table: "tbl_CRC24Q = map gen_crc24 [0..<256]"
  by (rule gen_crc24_table [symmetric])

text \<open>
  The table of CRC-16 is what its generator computes from the polynomial, entry by entry.
\<close>

theorem crc16_table: "tbl_CRC16 = map gen_crc16 [0..<256]"
  by (rule gen_crc16_table [symmetric])

text \<open>
  The parity CRC-32 of the code is the reflected division register of its polynomial run over
  the bits of the message, least significant first.
\<close>

theorem crc32_bitwise:
  assumes "n \<le> length b"
  shows "rtk_crc32 b n = feeds sh32 0 (msg_bits_lsb (take n b)) 0"
  using assms by (rule rtk_crc32_register)

lemma crc32_bitwise_witness: "rtk_crc32 frame4095 5 = feeds sh32 0 (msg_bits_lsb (take 5 frame4095)) 0"
  by (rule crc32_bitwise) (simp add: frame4095_ok)

text \<open>
  Two messages that differ within a burst of at most 16 bits have different CRC-16 parities.
\<close>

theorem crc16_burst_detected:
  assumes "differ_within k 16 n a b" and "n \<le> length a" and "n \<le> length b"
  shows "rtk_crc16 a n \<noteq> rtk_crc16 b n"
  using assms by (rule crc16_burst)

lemma crc16_burst_detected_witness: "rtk_crc16 frame4095 8 \<noteq> rtk_crc16 (frame4095[4 := 0xA5]) 8"
  by (rule crc16_burst_detected [OF differ_byte]) (simp_all add: frame4095_def)

text \<open>
  A bit field of at most 32 bits inside the buffer reads back what was written to it, truncated
  to its width, and every field beside it what it held.
\<close>

theorem field_roundtrip:
  assumes "pos + n \<le> 8 * length b" and "n \<le> 32"
  shows "getbitu (setbitu b pos n d) pos n = take_bit n d \<and>
    (\<forall>q m. q + m \<le> pos \<or> pos + n \<le> q \<longrightarrow> getbitu (setbitu b pos n d) q m = getbitu b q m)"
  using getbitu_setbitu_same [OF assms] getbitu_setbitu_other by blast

lemma field_roundtrip_witness: "getbitu (setbitu [0xFF, 0xFF] 3 6 (0x15 :: u32)) 3 6 = take_bit 6 0x15"
  using field_roundtrip [of 3 6 "[0xFF, 0xFF]" "0x15"] by simp

text \<open>
  A sign-magnitude field (GLONASS) reads back every value whose magnitude fits.
\<close>

theorem sign_magnitude_roundtrip:
  assumes "pos + n \<le> 8 * length b" and "1 < n" and "n \<le> 32" and "\<bar>v\<bar> < 2 ^ (n - 1)"
  shows "getbitg (setbitg b pos n v) pos n = real_of_int v"
  using assms by (rule getbitg_setbitg_same)

lemma sign_magnitude_roundtrip_witness: "getbitg (setbitg [0, 0] 3 6 (-17)) 3 6 = -17"
  using sign_magnitude_roundtrip [of 3 6 "[0, 0]" "-17"] by simp

text \<open>
  A field of 38 bits, written in two parts, reads back every integer of its range.
\<close>

theorem coordinate_roundtrip:
  assumes "pos + 38 \<le> 8 * length b" and "- (2 ^ 37) \<le> k" and "k < 2 ^ 37"
  shows "getbits_38 (set38bits b pos (of_int k)) pos = of_int k"
  using assms by (rule getbits_38_set38bits_same)

lemma coordinate_roundtrip_witness:
  "getbits_38 (set38bits (replicate 6 0) 5 (of_int (-39876543210))) 5 = of_int (-39876543210)"
  by (rule coordinate_roundtrip) simp_all

text \<open>
  Reading the id text of a satellite gives the satellite back.
\<close>

theorem satellite_ids:
  assumes "1 \<le> sat" and "sat \<le> MAXSAT"
  shows "satid2no (satno2id sat) = sat"
  using assms by (rule satid2no_satno2id)

lemma satellite_ids_witness: "satid2no (satno2id 33) = 33"
  by (rule satellite_ids) simp_all

text \<open>
  A signal code of a system has a positive carrier frequency exactly where it has a frequency
  index, and the index is below the number of frequencies (GLONASS channels -7 to 6).
\<close>

theorem code_frequencies:
  assumes "-7 \<le> fcn" and "fcn \<le> 6"
  shows "(0 < code2freq sys code fcn \<longleftrightarrow> 0 \<le> code2idx sys code) \<and> code2idx sys code < int NFREQ"
  using code2freq_pos_iff [OF assms, of sys code] carrier_idx_range [of sys code] by auto

lemma code_frequencies_witness: "0 < code2freq SYS_GLO CODE_L1C 3 \<longleftrightarrow> 0 \<le> code2idx SYS_GLO CODE_L1C"
  by (rule code_frequencies [THEN conjunct1]) simp_all

text \<open>
  A priority string stored for a frequency is what getcodepri then answers by: the code at
  position k has priority 14-k.
\<close>

theorem code_priority:
  assumes "wf_pris tbl" and "one_system sys" and "0 \<le> code2idx sys code"
    and "k < length pri" and "pri ! k = cch (code2obs code) 1"
    and "\<And>i. i < k \<Longrightarrow> pri ! i \<noteq> cch (code2obs code) 1"
  shows "getcodepri (setcodepri tbl sys (code2idx sys code) pri) sys code [] = 14 - int k"
  using assms by (rule getcodepri_setcodepri)

lemma code_priority_witness:
  "getcodepri (setcodepri codepris SYS_GPS (code2idx SYS_GPS CODE_L1C) ''PC'') SYS_GPS CODE_L1C [] = 14 - int 1"
  by (rule code_priority) (simp_all add: wf_codepris one_system_def code2idx_def carrier_idx_def
      carrier_defs code2obs_def obscodes_def cch_def Let_def)

text \<open>
  A ten-bit week number is resolved to the only week that is congruent to it and lies in the
  1024 weeks ending one week after the current one.
\<close>

theorem week_number_resolved:
  assumes "0 \<le> week" and "week < 1024"
  shows "adjgpsweek t week mod 1024 = week \<and> cur_week t - 1022 \<le> adjgpsweek t week \<and>
    adjgpsweek t week \<le> cur_week t + 1"
  using adjgpsweek_window [OF assms] by blast

lemma week_number_resolved_witness: "adjgpsweek (now env0) 7 mod 1024 = 7"
  using week_number_resolved [of 7 "now env0"] by simp

end
